(* ===== verification/Prelude.thy ===== *)
theory Prelude
  imports Complex_Main "HOL-Library.Multiset"
begin

section \<open>Shared vocabulary of the development\<close>

text \<open>
  What every component theory uses: the exceptions of the code as values (\<open>error\<close>), results as
  sums with a bind, Python truthiness of optional text, time instants, and SQLite tables as lists of
  rows with lookup by key and \<^verbatim>\<open>INSERT ... ON CONFLICT DO UPDATE\<close>. The locale \<open>row_table\<close> is the
  contract of one keyed table; every component that owns a table interprets it.
\<close>

named_theorems result_simps \<open>inversion of successful results\<close>
named_theorems row_simps \<open>columns of the rows an operation writes\<close>

subsection \<open>Exceptions as values\<close>

text \<open>
  The exceptions the control plane raises. \<open>StateConflictError\<close> and \<open>StateInvariantError\<close> are the
  two classes of \<^verbatim>\<open>gateway/state_controller.py\<close>; \<open>IntegrityError\<close> is what SQLite raises when a
  constraint or trigger of the schema is violated; \<open>MaintenanceBlockedError\<close> comes from the write gate,
  \<open>LifecycleConflict\<close> from its durable store and \<open>StorageError\<close> stands for a failing disk or database file.
  \<open>EventStoreIntegrityError\<close> and \<open>ProjectionConflict\<close> are the classes of \<^verbatim>\<open>gateway/event_store.py\<close>.
  \<open>FileNotFoundError\<close> and \<open>AttributeError\<close> are Python's own. The label stands for the message.
\<close>

datatype error =
    StateConflictError string
  | StateInvariantError string
  | KeyError string
  | ValueError string
  | IntegrityError string
  | MaintenanceBlockedError string
  | LifecycleConflict string
  | StorageError string
  | EventStoreIntegrityError string
  | ProjectionConflict string
  | RuntimeError string
  | FileNotFoundError string
  | AttributeError string

type_synonym 'a result = "error + 'a"

definition rbind :: "'a result \<Rightarrow> ('a \<Rightarrow> 'b result) \<Rightarrow> 'b result" where
  "rbind m f = (case m of Inl e \<Rightarrow> Inl e | Inr x \<Rightarrow> f x)"

definition raise_if :: "bool \<Rightarrow> error \<Rightarrow> unit result" where
  "raise_if b e = (if b then Inl e else Inr ())"

definition or_raise :: "'a option \<Rightarrow> error \<Rightarrow> 'a result" where
  "or_raise x e = (case x of None \<Rightarrow> Inl e | Some y \<Rightarrow> Inr y)"

lemma rbind_Inl [simp]: "rbind (Inl e) f = Inl e"
  by (simp add: rbind_def)

lemma rbind_Inr [simp]: "rbind (Inr x) f = f x"
  by (simp add: rbind_def)

lemma rbind_eq_Inr [result_simps]: "rbind m f = Inr y \<longleftrightarrow> (\<exists>x. m = Inr x \<and> f x = Inr y)"
  by (cases m) simp_all

lemma rbind_eq_Inl [result_simps]:
  "rbind m f = Inl e \<longleftrightarrow> m = Inl e \<or> (\<exists>x. m = Inr x \<and> f x = Inl e)"
  by (cases m) simp_all

lemma raise_if_eq_Inr [result_simps]: "raise_if b e = Inr u \<longleftrightarrow> \<not> b"
  by (simp add: raise_if_def)

lemma raise_if_eq_Inl [result_simps]: "raise_if b e = Inl e' \<longleftrightarrow> b \<and> e' = e"
  by (auto simp: raise_if_def)

lemma raise_if_simps [simp]: "raise_if True e = Inl e" "raise_if False e = Inr ()"
  by (simp_all add: raise_if_def)

lemma or_raise_eq_Inr [result_simps]: "or_raise x e = Inr y \<longleftrightarrow> x = Some y"
  by (cases x) (simp_all add: or_raise_def)

lemma or_raise_eq_Inl [result_simps]: "or_raise x e = Inl e' \<longleftrightarrow> x = None \<and> e' = e"
  by (cases x) (auto simp: or_raise_def)

lemma or_raise_simps [simp]: "or_raise None e = Inl e" "or_raise (Some y) e = Inr y"
  by (simp_all add: or_raise_def)

lemma result_cases_simps [simp]:
  "(case Inl e of Inl x \<Rightarrow> f x | Inr y \<Rightarrow> g y) = f e"
  "(case Inr z of Inl x \<Rightarrow> f x | Inr y \<Rightarrow> g y) = g z"
  by simp_all

subsection \<open>Time and optional text\<close>

text \<open>
  The code keeps instants as ISO-8601 text with an offset and compares them after
  \<^verbatim>\<open>datetime.fromisoformat\<close>; where SQL compares the texts themselves the model keeps the text. Elsewhere it
  keeps the instant, in seconds since the epoch, as a rational; seconds given as Python floats are read as the rational they denote.
\<close>

type_synonym timestamp = rat
type_synonym seconds = rat

text \<open>Python's truth value of an optional text, and \<^verbatim>\<open>a or b\<close> on it.\<close>

fun truthy :: "string option \<Rightarrow> bool" where
  "truthy None = False"
| "truthy (Some s) = (s \<noteq> [])"

definition or_text :: "string option \<Rightarrow> string \<Rightarrow> string" where
  "or_text a b = (if truthy a then the a else b)"

definition or_else :: "string option \<Rightarrow> string option \<Rightarrow> string option" where
  "or_else a b = (if truthy a then a else b)"

lemma truthy_iff: "truthy a \<longleftrightarrow> (\<exists>s. a = Some s \<and> s \<noteq> [])"
  by (cases a) auto

subsection \<open>Tables\<close>

text \<open>
  A table is the list of its rows in insertion order. \<open>lookup_row\<close> is a \<^verbatim>\<open>SELECT\<close> by primary key,
  \<open>upsert_row\<close> an \<^verbatim>\<open>INSERT ... ON CONFLICT(key) DO UPDATE\<close> whose second argument computes the row
  kept on a conflict from the old and the proposed row.
\<close>

definition lookup_row :: "('r \<Rightarrow> 'k) \<Rightarrow> 'k \<Rightarrow> 'r list \<Rightarrow> 'r option" where
  "lookup_row key k rows = find (\<lambda>r. key r = k) rows"

fun upsert_row :: "('r \<Rightarrow> 'k) \<Rightarrow> ('r \<Rightarrow> 'r \<Rightarrow> 'r) \<Rightarrow> 'r \<Rightarrow> 'r list \<Rightarrow> 'r list" where
  "upsert_row key merge r [] = [r]"
| "upsert_row key merge r (x # xs) =
     (if key x = key r then merge x r # xs else x # upsert_row key merge r xs)"

definition update_rows :: "('r \<Rightarrow> bool) \<Rightarrow> ('r \<Rightarrow> 'r) \<Rightarrow> 'r list \<Rightarrow> 'r list" where
  "update_rows p f rows = map (\<lambda>r. if p r then f r else r) rows"

definition count_rows :: "('r \<Rightarrow> bool) \<Rightarrow> 'r list \<Rightarrow> nat" where
  "count_rows p rows = length (filter p rows)"

lemma lookup_row_Nil [simp]: "lookup_row key k [] = None"
  by (simp add: lookup_row_def)

lemma lookup_row_Cons [simp]:
  "lookup_row key k (r # rows) = (if key r = k then Some r else lookup_row key k rows)"
  by (simp add: lookup_row_def)

lemma lookup_row_Some_mem: "lookup_row key k rows = Some r \<Longrightarrow> r \<in> set rows \<and> key r = k"
  by (induction rows) (auto split: if_splits)

lemma lookup_row_None_iff: "lookup_row key k rows = None \<longleftrightarrow> k \<notin> key ` set rows"
  by (induction rows) auto

lemma lookup_row_append [simp]:
  "lookup_row key k (xs @ ys) =
     (case lookup_row key k xs of None \<Rightarrow> lookup_row key k ys | Some r \<Rightarrow> Some r)"
  by (induction xs) auto

lemma lookup_row_distinct:
  "distinct (map key rows) \<Longrightarrow> r \<in> set rows \<Longrightarrow> lookup_row key (key r) rows = Some r"
  by (induction rows) (auto simp: rev_image_eqI)

lemma lookup_row_update_rows:
  assumes "\<And>r. key (f r) = key r"
  shows "lookup_row key k (update_rows p f rows) =
    map_option (\<lambda>r. if p r then f r else r) (lookup_row key k rows)"
  using assms by (induction rows) (auto simp: update_rows_def)

lemma update_rows_keys:
  assumes "\<And>r. key (f r) = key r"
  shows "map key (update_rows p f rows) = map key rows"
  using assms by (induction rows) (auto simp: update_rows_def)

lemma set_update_rows: "set (update_rows p f rows) = (\<lambda>r. if p r then f r else r) ` set rows"
  by (simp add: update_rows_def)

locale row_table =
  fixes key :: "'r \<Rightarrow> 'k" and merge :: "'r \<Rightarrow> 'r \<Rightarrow> 'r"
  assumes key_merge: "key x = key r \<Longrightarrow> key (merge x r) = key r"
begin

lemma keys_upsert:
  "map key (upsert_row key merge r rows) =
     (if key r \<in> key ` set rows then map key rows else map key rows @ [key r])"
  by (induction rows) (auto simp: key_merge)

lemma distinct_upsert:
  "distinct (map key rows) \<Longrightarrow> distinct (map key (upsert_row key merge r rows))"
  unfolding keys_upsert by auto

lemma lookup_upsert_same:
  "lookup_row key (key r) (upsert_row key merge r rows) =
     Some (case lookup_row key (key r) rows of None \<Rightarrow> r | Some x \<Rightarrow> merge x r)"
  by (induction rows) (auto simp: key_merge)

lemma lookup_upsert_other:
  "k \<noteq> key r \<Longrightarrow> lookup_row key k (upsert_row key merge r rows) = lookup_row key k rows"
  by (induction rows) (auto simp: key_merge)

lemma upsert_fresh:
  "key r \<notin> key ` set rows \<Longrightarrow> upsert_row key merge r rows = rows @ [r]"
  by (induction rows) auto

lemma set_upsert_distinct:
  assumes "distinct (map key rows)"
  shows "set (upsert_row key merge r rows) =
    insert (case lookup_row key (key r) rows of None \<Rightarrow> r | Some x \<Rightarrow> merge x r)
      {x \<in> set rows. key x \<noteq> key r}"
  using assms by (induction rows) (auto simp: rev_image_eqI)

end

text \<open>A table written only by whole-row replacement, as the model's small tables are.\<close>

definition replace_row :: "'r \<Rightarrow> 'r \<Rightarrow> 'r" where
  "replace_row x r = r"

lemma row_table_replace: "row_table key replace_row"
  by unfold_locales (simp add: replace_row_def)

end
