(* ===== verification/Audit_Text.thy ===== *)
theory Audit_Text
  imports Prelude "HOL-Library.AList" "HOL-Library.Char_ord" "HOL-Library.List_Lexorder"
begin

section \<open>JSON values, canonical text and the audit sanitizer\<close>

text \<open>
  Payloads, diagnostics and evidence are JSON values. This theory holds the value type, Python
  dictionary update on it, the repository-wide canonical text (\<^verbatim>\<open>canonical_json\<close> of
  \<^verbatim>\<open>gateway/event_store.py\<close>: sorted keys, compact separators, \<^verbatim>\<open>ensure_ascii=False\<close>) and the
  credential sanitizer \<^verbatim>\<open>AuditSanitizer\<close> of \<^verbatim>\<open>gateway/audit.py\<close>, whose three regular expressions are
  written out as scanners. Text is a list of code points below 256; floats do not occur in these values.
\<close>

datatype json =
    JNull
  | JBool bool
  | JInt int
  | JStr string
  | JArr "json list"
  | JObj "(string \<times> json) list"

type_synonym dict = "(string \<times> json) list"

text \<open>\<^verbatim>\<open>{**d, k: v}\<close>: an existing key keeps its place, a new one goes last.\<close>

definition dict_set :: "string \<Rightarrow> json \<Rightarrow> dict \<Rightarrow> dict" where
  "dict_set k v d = AList.update k v d"

fun dict_merge :: "dict \<Rightarrow> dict \<Rightarrow> dict" where
  "dict_merge d [] = d"
| "dict_merge d ((k, v) # e) = dict_merge (dict_set k v d) e"

definition opt_str :: "string option \<Rightarrow> json" where
  "opt_str x = (case x of None \<Rightarrow> JNull | Some s \<Rightarrow> JStr s)"

subsection \<open>Canonical text\<close>

fun nat_text :: "nat \<Rightarrow> string" where
  "nat_text n = (if n < 10 then [char_of (48 + n)] else nat_text (n div 10) @ [char_of (48 + n mod 10)])"

declare nat_text.simps [simp del]

definition int_text :: "int \<Rightarrow> string" where
  "int_text i = (if i < 0 then CHR ''-'' # nat_text (nat (- i)) else nat_text (nat i))"

definition hex_digit :: "nat \<Rightarrow> char" where
  "hex_digit n = (if n < 10 then char_of (48 + n) else char_of (87 + n))"

definition escape_char :: "char \<Rightarrow> string" where
  "escape_char c = (let n = (of_char c :: nat) in
     if n = 34 then [char_of (92::nat), char_of (34::nat)]
     else if n = 92 then [char_of (92::nat), char_of (92::nat)]
     else if n = 10 then [char_of (92::nat), CHR ''n'']
     else if n = 13 then [char_of (92::nat), CHR ''r'']
     else if n = 9 then [char_of (92::nat), CHR ''t'']
     else if n = 12 then [char_of (92::nat), CHR ''f'']
     else if n = 8 then [char_of (92::nat), CHR ''b'']
     else if n < 32 then [char_of (92::nat), CHR ''u'', CHR ''0'', CHR ''0'', hex_digit (n div 16), hex_digit (n mod 16)]
     else [c])"

definition quote_text :: "string \<Rightarrow> string" where
  "quote_text s = char_of (34::nat) # concat (map escape_char s) @ [char_of (34::nat)]"

fun join_text :: "string \<Rightarrow> string list \<Rightarrow> string" where
  "join_text sep [] = []"
| "join_text sep [x] = x"
| "join_text sep (x # y # xs) = x @ sep @ join_text sep (y # xs)"

fun canonical_json :: "json \<Rightarrow> string" where
  "canonical_json JNull = ''null''"
| "canonical_json (JBool b) = (if b then ''true'' else ''false'')"
| "canonical_json (JInt i) = int_text i"
| "canonical_json (JStr s) = quote_text s"
| "canonical_json (JArr xs) = ''['' @ join_text '','' (map canonical_json xs) @ '']''"
| "canonical_json (JObj kvs) =
     ''{'' @ join_text '','' (map (\<lambda>(k, t). quote_text k @ '':'' @ t)
        (sort_key fst (map (\<lambda>(k, v). (k, canonical_json v)) kvs))) @ ''}''"

subsection \<open>The sanitizer\<close>

definition REDACTED :: string where
  "REDACTED = ''[REDACTED]''"

definition ascii_lower :: "char \<Rightarrow> char" where
  "ascii_lower c = (let n = (of_char c :: nat) in if 65 \<le> n \<and> n \<le> 90 then char_of (n + 32) else c)"

definition is_space :: "char \<Rightarrow> bool" where
  "is_space c \<longleftrightarrow> (let n = (of_char c :: nat) in
     9 \<le> n \<and> n \<le> 13 \<or> 28 \<le> n \<and> n \<le> 32 \<or> n = 133 \<or> n = 160)"

definition is_bearer_char :: "char \<Rightarrow> bool" where
  "is_bearer_char c \<longleftrightarrow> (let n = (of_char c :: nat) in
     65 \<le> n \<and> n \<le> 90 \<or> 97 \<le> n \<and> n \<le> 122 \<or> 48 \<le> n \<and> n \<le> 57 \<or> c \<in> set ''._~+/=-'')"

definition is_secret_char :: "char \<Rightarrow> bool" where
  "is_secret_char c \<longleftrightarrow> \<not> is_space c \<and> c \<noteq> CHR '','' \<and> c \<noteq> CHR '';''"

text \<open>A literal, ignoring case, at the start of the text: the text it matched and what follows.\<close>

fun strip_ci :: "string \<Rightarrow> string \<Rightarrow> (string \<times> string) option" where
  "strip_ci [] s = Some ([], s)"
| "strip_ci (p # ps) [] = None"
| "strip_ci (p # ps) (c # cs) =
     (if ascii_lower c = p then map_option (\<lambda>(m, r). (c # m, r)) (strip_ci ps cs) else None)"

fun strip_any :: "string list \<Rightarrow> string \<Rightarrow> (string \<times> string) option" where
  "strip_any [] s = None"
| "strip_any (p # ps) s = (case strip_ci p s of Some x \<Rightarrow> Some x | None \<Rightarrow> strip_any ps s)"

text \<open>
  The two inline patterns. A match is the group that is kept and the number of characters matched.
  The character classes of adjacent repetitions are disjoint, so greedy matching needs no backtracking.
\<close>

definition bearer_match :: "string \<Rightarrow> (string \<times> nat) option" where
  "bearer_match s =
     (case strip_ci ''bearer'' s of
        None \<Rightarrow> None
      | Some (m, r) \<Rightarrow>
          (let w = takeWhile is_space r; t = takeWhile is_bearer_char (dropWhile is_space r)
           in if w = [] \<or> t = [] then None else Some (m @ w, length m + length w + length t)))"

definition secret_words :: "string list" where
  "secret_words = [''api_key'', ''api-key'', ''apikey'', ''token'', ''password'', ''secret'']"

definition secret_match :: "string \<Rightarrow> (string \<times> nat) option" where
  "secret_match s =
     (case strip_any secret_words s of
        None \<Rightarrow> None
      | Some (m, r) \<Rightarrow>
          (let w = takeWhile is_space r; r1 = dropWhile is_space r in
           case r1 of
             [] \<Rightarrow> None
           | e # r2 \<Rightarrow>
               (let v = takeWhile is_space r2; t = takeWhile is_secret_char (dropWhile is_space r2)
                in if e \<notin> set ''=:'' \<or> t = [] then None
                   else Some (m @ w @ e # v, length m + length w + 1 + length v + length t))))"

function regex_sub :: "(string \<Rightarrow> (string \<times> nat) option) \<Rightarrow> string \<Rightarrow> string" where
  "regex_sub m [] = []"
| "regex_sub m (c # cs) =
     (case m (c # cs) of
        None \<Rightarrow> c # regex_sub m cs
      | Some (kept, n) \<Rightarrow> kept @ REDACTED @ regex_sub m (drop (n - 1) cs))"
  by pat_completeness auto
termination
  by (relation "measure (\<lambda>(m, s). length s)") auto

definition sanitize_text :: "string \<Rightarrow> string" where
  "sanitize_text s = regex_sub secret_match (regex_sub bearer_match s)"

definition sensitive_words :: "string list" where
  "sensitive_words =
     [''api_key'', ''api-key'', ''apikey'', ''authorization'', ''cookie'', ''password'', ''passwd'',
      ''secret'', ''access_token'', ''access-token'', ''accesstoken'',
      ''refresh_token'', ''refresh-token'', ''refreshtoken'']"

fun sensitive_key :: "string \<Rightarrow> bool" where
  "sensitive_key [] = (strip_any sensitive_words [] \<noteq> None)"
| "sensitive_key (c # cs) = (strip_any sensitive_words (c # cs) \<noteq> None \<or> sensitive_key cs)"

fun sanitize :: "json \<Rightarrow> json" where
  "sanitize (JObj kvs) =
     JObj (map (\<lambda>(k, v). (k, if sensitive_key k then JStr REDACTED else sanitize v)) kvs)"
| "sanitize (JArr xs) = JArr (map sanitize xs)"
| "sanitize (JStr s) = JStr (sanitize_text s)"
| "sanitize JNull = JNull"
| "sanitize (JBool b) = JBool b"
| "sanitize (JInt i) = JInt i"

definition sanitize_dict :: "dict \<Rightarrow> dict" where
  "sanitize_dict d = map (\<lambda>(k, v). (k, if sensitive_key k then JStr REDACTED else sanitize v)) d"

lemma sanitize_JObj: "sanitize (JObj d) = JObj (sanitize_dict d)"
  by (simp add: sanitize_dict_def)

definition sanitize_opt :: "string option \<Rightarrow> string option" where
  "sanitize_opt x = map_option sanitize_text x"

text \<open>
  A value exposes a credential when some object in it, at any depth, maps a sensitive key to
  anything but the marker.
\<close>

fun exposes_key :: "json \<Rightarrow> bool" where
  "exposes_key (JObj kvs) =
     list_ex (\<lambda>(k, v). sensitive_key k \<and> v \<noteq> JStr REDACTED \<or> exposes_key v) kvs"
| "exposes_key (JArr xs) = list_ex exposes_key xs"
| "exposes_key _ = False"

end
