(* ===== verification/Agent_State.thy ===== *)
theory Agent_State
  imports Audit_Text
begin

section \<open>Durable run state\<close>

text \<open>
  The control-plane data of \<^verbatim>\<open>Agent/state.py\<close>: the enumerations, the two explicit state machines
  (\<open>OUTER_TRANSITIONS\<close> over task states, \<open>INNER_TRANSITIONS\<close> over execution states), the frozen
  snapshots with their validators, the scheduler's \<open>is_runnable\<close> and the run projection. Integer
  fields declared \<^verbatim>\<open>Field(ge=0)\<close> or \<^verbatim>\<open>Field(ge=1)\<close> are naturals; a field \<^verbatim>\<open>str | None\<close> is an option.
  Every record field carries a two-letter prefix (\<open>st_\<close>, \<open>op_\<close>, \<open>at_\<close>, \<dots>) before the source's name.
  The locale \<open>fsm\<close> states what a transition table with absorbing states promises and is interpreted
  on both tables.
\<close>

subsection \<open>Enumerations\<close>

datatype TaskState =
    CREATED | QUEUED | STARTING | RUNNING | RECOVERING | RECOVERY_REQUIRED
  | CANCELLING | FINALIZING | SUCCEEDED | FAILED | CANCELLED | INTERRUPTED

datatype ExecutionState = THINKING | WAITING_HUMAN | ACTING | OBSERVING | FINISHED

datatype ExecutionOutcome = SUCCESS | ERROR | CANCELLED | EXHAUSTED

datatype TerminalTarget = SUCCEEDED | FAILED | CANCELLED

datatype WorkloadKind =
    CHAT | CRON | DREAM | DREAM_BACKFILL | DREAM_ROLLBACK | CODE_SESSION_START | CODE_TURN
  | CODE_FINALIZE | CODE_ABORT | HARNESS_EVOLUTION | HARNESS_DREAM | MAINTENANCE | LATEX_COMPILATION

datatype PersistenceContract = CONVERSATION_SESSION | SESSION_BACKED_WORKLOAD | CONTROL_ONLY

datatype OperationStatus =
    PREPARED | RUNNING | COMPLETED | FAILED | SKIPPED | UNKNOWN | ABANDONED

datatype OperationFailureKind = TERMINAL | RETRYABLE | UNKNOWN_EFFECT

datatype AttemptRecoveryResolution =
    UNRESOLVED | RETRY_AUTHORIZED | CONFIRMED_SUCCEEDED | CONFIRMED_FAILED

datatype OperationKind =
    MODEL | TOOL | APPROVAL | MEMORY | SESSION_INDEX | INBOX | EVENT | AUDIT | FINALIZE
  | SUBAGENT | CRON_DISPATCH | LATEX

datatype ToolIdempotency = PURE | IDEMPOTENT | EXTERNALLY_IDEMPOTENT | NON_IDEMPOTENT

datatype ApprovalStatus = PENDING | APPROVED | DENIED | TIMEOUT

datatype ReconcileStatus = COMPLETED | NOT_APPLIED | FAILED | UNKNOWN

datatype ToolObservationState = MATERIALIZED | PUBLISHED

text \<open>The text each enumeration member is stored and hashed as (its \<^verbatim>\<open>.value\<close>).\<close>

fun task_state_value :: "TaskState \<Rightarrow> string" where
  "task_state_value TaskState.CREATED = ''created''"
| "task_state_value TaskState.QUEUED = ''queued''"
| "task_state_value TaskState.STARTING = ''starting''"
| "task_state_value TaskState.RUNNING = ''running''"
| "task_state_value TaskState.RECOVERING = ''recovering''"
| "task_state_value TaskState.RECOVERY_REQUIRED = ''recovery_required''"
| "task_state_value TaskState.CANCELLING = ''cancelling''"
| "task_state_value TaskState.FINALIZING = ''finalizing''"
| "task_state_value TaskState.SUCCEEDED = ''succeeded''"
| "task_state_value TaskState.FAILED = ''failed''"
| "task_state_value TaskState.CANCELLED = ''cancelled''"
| "task_state_value TaskState.INTERRUPTED = ''interrupted''"

fun execution_state_value :: "ExecutionState \<Rightarrow> string" where
  "execution_state_value THINKING = ''thinking''"
| "execution_state_value WAITING_HUMAN = ''waiting_human''"
| "execution_state_value ACTING = ''acting''"
| "execution_state_value OBSERVING = ''observing''"
| "execution_state_value FINISHED = ''finished''"

fun execution_outcome_value :: "ExecutionOutcome \<Rightarrow> string" where
  "execution_outcome_value ExecutionOutcome.SUCCESS = ''success''"
| "execution_outcome_value ExecutionOutcome.ERROR = ''error''"
| "execution_outcome_value ExecutionOutcome.CANCELLED = ''cancelled''"
| "execution_outcome_value ExecutionOutcome.EXHAUSTED = ''exhausted''"

fun terminal_target_value :: "TerminalTarget \<Rightarrow> string" where
  "terminal_target_value TerminalTarget.SUCCEEDED = ''succeeded''"
| "terminal_target_value TerminalTarget.FAILED = ''failed''"
| "terminal_target_value TerminalTarget.CANCELLED = ''cancelled''"

fun workload_kind_value :: "WorkloadKind \<Rightarrow> string" where
  "workload_kind_value CHAT = ''chat''"
| "workload_kind_value CRON = ''cron''"
| "workload_kind_value DREAM = ''dream''"
| "workload_kind_value DREAM_BACKFILL = ''dream_backfill''"
| "workload_kind_value DREAM_ROLLBACK = ''dream_rollback''"
| "workload_kind_value CODE_SESSION_START = ''code_session_start''"
| "workload_kind_value CODE_TURN = ''code_turn''"
| "workload_kind_value CODE_FINALIZE = ''code_finalize''"
| "workload_kind_value CODE_ABORT = ''code_abort''"
| "workload_kind_value HARNESS_EVOLUTION = ''harness_evolution''"
| "workload_kind_value HARNESS_DREAM = ''harness_dream''"
| "workload_kind_value MAINTENANCE = ''maintenance''"
| "workload_kind_value LATEX_COMPILATION = ''latex_compilation''"

fun persistence_contract_value :: "PersistenceContract \<Rightarrow> string" where
  "persistence_contract_value CONVERSATION_SESSION = ''conversation_session''"
| "persistence_contract_value SESSION_BACKED_WORKLOAD = ''session_backed_workload''"
| "persistence_contract_value CONTROL_ONLY = ''control_only''"

fun operation_status_value :: "OperationStatus \<Rightarrow> string" where
  "operation_status_value OperationStatus.PREPARED = ''prepared''"
| "operation_status_value OperationStatus.RUNNING = ''running''"
| "operation_status_value OperationStatus.COMPLETED = ''completed''"
| "operation_status_value OperationStatus.FAILED = ''failed''"
| "operation_status_value OperationStatus.SKIPPED = ''skipped''"
| "operation_status_value OperationStatus.UNKNOWN = ''unknown''"
| "operation_status_value OperationStatus.ABANDONED = ''abandoned''"

fun approval_status_value :: "ApprovalStatus \<Rightarrow> string" where
  "approval_status_value PENDING = ''pending''"
| "approval_status_value APPROVED = ''approved''"
| "approval_status_value DENIED = ''denied''"
| "approval_status_value TIMEOUT = ''timeout''"

subsection \<open>The two state machines\<close>

definition TERMINAL_STATES :: "TaskState list" where
  "TERMINAL_STATES =
     [TaskState.SUCCEEDED, TaskState.FAILED, TaskState.CANCELLED, TaskState.INTERRUPTED]"

fun OUTER_TRANSITIONS :: "TaskState \<Rightarrow> TaskState list" where
  "OUTER_TRANSITIONS TaskState.CREATED = [TaskState.QUEUED, TaskState.FINALIZING]"
| "OUTER_TRANSITIONS TaskState.QUEUED =
     [TaskState.STARTING, TaskState.CANCELLING, TaskState.FINALIZING]"
| "OUTER_TRANSITIONS TaskState.STARTING =
     [TaskState.RUNNING, TaskState.RECOVERING, TaskState.CANCELLING, TaskState.FINALIZING,
      TaskState.INTERRUPTED]"
| "OUTER_TRANSITIONS TaskState.RUNNING =
     [TaskState.RECOVERING, TaskState.RECOVERY_REQUIRED, TaskState.CANCELLING,
      TaskState.FINALIZING, TaskState.INTERRUPTED]"
| "OUTER_TRANSITIONS TaskState.RECOVERING =
     [TaskState.QUEUED, TaskState.STARTING, TaskState.RUNNING, TaskState.RECOVERY_REQUIRED,
      TaskState.CANCELLING, TaskState.FINALIZING, TaskState.INTERRUPTED]"
| "OUTER_TRANSITIONS TaskState.RECOVERY_REQUIRED =
     [TaskState.RECOVERING, TaskState.CANCELLING, TaskState.FINALIZING]"
| "OUTER_TRANSITIONS TaskState.CANCELLING = [TaskState.RECOVERY_REQUIRED, TaskState.FINALIZING]"
| "OUTER_TRANSITIONS TaskState.FINALIZING =
     [TaskState.SUCCEEDED, TaskState.FAILED, TaskState.CANCELLED, TaskState.RECOVERING,
      TaskState.RECOVERY_REQUIRED, TaskState.INTERRUPTED]"
| "OUTER_TRANSITIONS TaskState.SUCCEEDED = []"
| "OUTER_TRANSITIONS TaskState.FAILED = []"
| "OUTER_TRANSITIONS TaskState.CANCELLED = []"
| "OUTER_TRANSITIONS TaskState.INTERRUPTED = []"

fun INNER_TRANSITIONS :: "ExecutionState \<Rightarrow> ExecutionState list" where
  "INNER_TRANSITIONS THINKING = [WAITING_HUMAN, ACTING, OBSERVING, FINISHED]"
| "INNER_TRANSITIONS WAITING_HUMAN = [ACTING, OBSERVING, FINISHED]"
| "INNER_TRANSITIONS ACTING = [OBSERVING, FINISHED]"
| "INNER_TRANSITIONS OBSERVING = [THINKING, FINISHED]"
| "INNER_TRANSITIONS FINISHED = []"

definition validate_outer_transition :: "TaskState \<Rightarrow> TaskState \<Rightarrow> unit result" where
  "validate_outer_transition source target =
     (if target \<notin> set (OUTER_TRANSITIONS source)
      then Inl (ValueError ''illegal outer FSM transition'') else Inr ())"

definition validate_inner_transition :: "ExecutionState \<Rightarrow> ExecutionState \<Rightarrow> unit result" where
  "validate_inner_transition source target =
     (if target \<notin> set (INNER_TRANSITIONS source)
      then Inl (ValueError ''illegal inner FSM transition'') else Inr ())"

lemma validate_outer_Inr [result_simps]:
  "validate_outer_transition s t = Inr u \<longleftrightarrow> t \<in> set (OUTER_TRANSITIONS s)"
  by (simp add: validate_outer_transition_def)

lemma validate_inner_Inr [result_simps]:
  "validate_inner_transition s t = Inr u \<longleftrightarrow> t \<in> set (INNER_TRANSITIONS s)"
  by (simp add: validate_inner_transition_def)

subsection \<open>Snapshots and their validators\<close>

text \<open>
  Frozen Pydantic models as records; the constant fields (\<^verbatim>\<open>parent\<close>, \<^verbatim>\<open>schema_version\<close>,
  \<^verbatim>\<open>protocol_version\<close>) hold one literal only and are left out. Each \<^verbatim>\<open>model_validator\<close> is a
  bool-valued function, true when the validator accepts; \<open>is_sha256_hex\<close> is the pattern of the hash fields.
\<close>

definition is_sha256_hex :: "string \<Rightarrow> bool" where
  "is_sha256_hex s \<longleftrightarrow> length s = 64 \<and> (\<forall>c \<in> set s. c \<in> set ''0123456789abcdef'')"

record ExecutionSnapshot =
  es_state :: ExecutionState
  es_outcome :: "ExecutionOutcome option"
  es_finish_reason :: "string option"
  es_entered_at :: timestamp

definition validate_finished :: "ExecutionSnapshot \<Rightarrow> bool" where
  "validate_finished e \<longleftrightarrow>
     (if es_state e = FINISHED then es_outcome e \<noteq> None \<and> truthy (es_finish_reason e)
      else es_outcome e = None \<and> es_finish_reason e = None)"

record SafeCheckpoint =
  cp_checkpoint_id :: string
  cp_run_id :: string
  cp_turn_id :: "string option"
  cp_state_revision :: nat
  cp_last_determined_operation_id :: "string option"
  cp_last_determined_attempt_id :: "string option"
  cp_current_operation_id :: "string option"
  cp_current_attempt_id :: "string option"
  cp_session_segment :: string
  cp_last_record_id :: string
  cp_created_at :: timestamp

record AgentState =
  st_revision :: nat
  st_gateway_epoch :: string
  st_run_id :: string
  st_workload_kind :: WorkloadKind
  st_persistence_contract :: PersistenceContract
  st_project_id :: string
  st_session_id :: "string option"
  st_client_id :: string
  st_parent_run_id :: "string option"
  st_idempotency_key :: string
  st_request_hash :: string
  st_task_state :: TaskState
  st_execution :: "ExecutionSnapshot option"
  st_terminal_target :: "TerminalTarget option"
  st_finalize_generation :: "nat option"
  st_turn_id :: "string option"
  st_current_operation_id :: "string option"
  st_current_attempt_id :: "string option"
  st_model_call_id :: "string option"
  st_tool_call_id :: "string option"
  st_approval_id :: "string option"
  st_safe_checkpoint :: "SafeCheckpoint option"
  st_cancellation_requested :: bool
  st_deadline_at :: "timestamp option"
  st_recovery_reason :: "string option"
  st_model_attempt :: nat
  st_recovery_attempt :: nat
  st_input_tokens :: nat
  st_output_tokens :: nat
  st_diagnostics :: dict
  st_last_progress_at :: timestamp
  st_operation_started_at :: "timestamp option"
  st_operation_heartbeat_at :: "timestamp option"
  st_created_at :: timestamp
  st_started_at :: "timestamp option"
  st_updated_at :: timestamp
  st_finished_at :: "timestamp option"
  st_result_summary :: "string option"
  st_error :: "string option"

definition recovery_required :: "AgentState \<Rightarrow> bool" where
  "recovery_required st \<longleftrightarrow> st_task_state st = TaskState.RECOVERY_REQUIRED"

text \<open>\<^verbatim>\<open>TaskState(target.value)\<close>: the task state a terminal target names.\<close>

fun task_state_of_target :: "TerminalTarget \<Rightarrow> TaskState" where
  "task_state_of_target TerminalTarget.SUCCEEDED = TaskState.SUCCEEDED"
| "task_state_of_target TerminalTarget.FAILED = TaskState.FAILED"
| "task_state_of_target TerminalTarget.CANCELLED = TaskState.CANCELLED"

definition normal_terminal :: "TaskState \<Rightarrow> bool" where
  "normal_terminal s \<longleftrightarrow> s \<in> {TaskState.SUCCEEDED, TaskState.FAILED, TaskState.CANCELLED}"

definition validate_lifecycle :: "AgentState \<Rightarrow> bool" where
  "validate_lifecycle st \<longleftrightarrow>
     (st_task_state st = TaskState.FINALIZING \<longrightarrow> st_terminal_target st \<noteq> None) \<and>
     (normal_terminal (st_task_state st) \<longrightarrow>
        (case st_terminal_target st of
           None \<Rightarrow> False
         | Some t \<Rightarrow> terminal_target_value t = task_state_value (st_task_state st)) \<and>
        st_finished_at st \<noteq> None) \<and>
     (st_task_state st \<in> set TERMINAL_STATES \<and> st_task_state st \<noteq> TaskState.INTERRUPTED \<longrightarrow>
        (case st_execution st of None \<Rightarrow> True | Some e \<Rightarrow> es_state e = FINISHED))"

record FinalizeGenerationRecord =
  fg_run_id :: string
  fg_generation :: nat
  fg_terminal_target :: TerminalTarget
  fg_persistence_contract :: PersistenceContract
  fg_created_at :: timestamp
  fg_supersedes_generation :: "nat option"

record RetryPolicySnapshot =
  rp_max_attempts :: nat
  rp_base_seconds :: seconds
  rp_max_seconds :: seconds
  rp_automatic :: bool
  rp_requires_reconcile :: bool
  rp_requires_human_confirmation :: bool

definition valid_retry_policy :: "RetryPolicySnapshot \<Rightarrow> bool" where
  "valid_retry_policy p \<longleftrightarrow> 1 \<le> rp_max_attempts p \<and> 0 \<le> rp_base_seconds p \<and> 0 \<le> rp_max_seconds p"

record ImmutableOperationMetadata =
  md_operation_id :: string
  md_parent_operation_id :: "string option"
  md_run_id :: string
  md_turn_id :: "string option"
  md_kind :: OperationKind
  md_name :: string
  md_stable_key :: string
  md_request_hash :: string
  md_idempotency :: ToolIdempotency
  md_side_effecting :: bool
  md_logical_model_call_id :: "string option"
  md_source_model_call_id :: "string option"
  md_tool_call_id :: "string option"
  md_tool_batch_id :: "string option"
  md_tool_call_position :: "nat option"
  md_external_idempotency_key :: "string option"

record OperationAttempt =
  at_attempt_id :: string
  at_operation_id :: string
  at_run_id :: string
  at_attempt_no :: nat
  at_request_hash :: string
  at_side_effecting :: bool
  at_status :: OperationStatus
  at_failure_kind :: "OperationFailureKind option"
  at_failure_reason :: "string option"
  at_recovery_resolution :: "AttemptRecoveryResolution option"
  at_result :: "string option"
  at_result_hash :: "string option"
  at_result_source :: "string option"
  at_skip_reason :: "string option"
  at_abandonment_reason :: "string option"
  at_started_at :: "timestamp option"
  at_heartbeat_at :: "timestamp option"
  at_heartbeat_expires_at :: "timestamp option"
  at_completed_at :: "timestamp option"
  at_model_call_id :: "string option"
  at_external_request_id :: "string option"
  at_reconcile_status :: "ReconcileStatus option"
  at_reconcile_evidence :: "string option"
  at_risk_confirmed_by :: "string option"
  at_risk_confirmation_reason :: "string option"
  at_created_at :: timestamp
  at_updated_at :: timestamp

definition validate_attempt_evidence :: "OperationAttempt \<Rightarrow> bool" where
  "validate_attempt_evidence a \<longleftrightarrow>
     (if at_status a = OperationStatus.FAILED
      then at_failure_kind a \<in> {Some TERMINAL, Some RETRYABLE}
      else if at_status a = OperationStatus.UNKNOWN
      then at_failure_kind a = Some UNKNOWN_EFFECT \<and> at_recovery_resolution a \<noteq> None
      else at_failure_kind a = None) \<and>
     (if at_status a = OperationStatus.SKIPPED
      then at_result_source a = Some ''NOT_EXECUTED'' \<and> truthy (at_skip_reason a)
      else at_skip_reason a = None) \<and>
     (at_status a = OperationStatus.ABANDONED \<longrightarrow> truthy (at_abandonment_reason a)) \<and>
     (at_status a \<noteq> OperationStatus.ABANDONED \<longrightarrow> at_abandonment_reason a = None)"

record MaterializedToolObservation =
  ob_observation_id :: string
  ob_run_id :: string
  ob_operation_id :: "string option"
  ob_attempt_id :: "string option"
  ob_logical_model_call_id :: string
  ob_tool_call_id :: string
  ob_position :: nat
  ob_name :: string
  ob_arguments :: dict
  ob_status :: string
  ob_finalized_content :: string
  ob_content_hash :: string
  ob_state :: ToolObservationState
  ob_session_record_id :: "string option"
  ob_revision :: nat
  ob_created_at :: timestamp
  ob_published_at :: "timestamp option"

record OperationAggregate =
  ag_status :: OperationStatus
  ag_failure_kind :: "OperationFailureKind option"
  ag_failure_reason :: "string option"
  ag_latest_attempt_no :: nat
  ag_next_retry_at :: "timestamp option"
  ag_result :: "string option"
  ag_result_hash :: "string option"
  ag_result_source :: "string option"
  ag_skip_reason :: "string option"

definition validate_aggregate_evidence :: "OperationAggregate \<Rightarrow> bool" where
  "validate_aggregate_evidence g \<longleftrightarrow>
     (if ag_status g = OperationStatus.FAILED
      then ag_failure_kind g \<in> {Some TERMINAL, Some RETRYABLE}
      else if ag_status g = OperationStatus.UNKNOWN
      then ag_failure_kind g = Some UNKNOWN_EFFECT
      else ag_failure_kind g = None) \<and>
     (ag_status g = OperationStatus.SKIPPED \<longrightarrow> truthy (ag_skip_reason g)) \<and>
     1 \<le> ag_latest_attempt_no g"

record OperationRecord =
  op_operation_id :: string
  op_parent_operation_id :: "string option"
  op_run_id :: string
  op_turn_id :: "string option"
  op_kind :: OperationKind
  op_name :: string
  op_stable_key :: string
  op_request_hash :: string
  op_idempotency :: ToolIdempotency
  op_side_effecting :: bool
  op_logical_model_call_id :: "string option"
  op_source_model_call_id :: "string option"
  op_tool_call_id :: "string option"
  op_tool_batch_id :: "string option"
  op_tool_call_position :: "nat option"
  op_external_idempotency_key :: "string option"
  op_retry_policy_snapshot :: RetryPolicySnapshot
  op_status :: OperationStatus
  op_failure_kind :: "OperationFailureKind option"
  op_failure_reason :: "string option"
  op_latest_attempt_no :: nat
  op_next_retry_at :: "timestamp option"
  op_result :: "string option"
  op_result_hash :: "string option"
  op_result_source :: "string option"
  op_unknown_reason :: "string option"
  op_reconcile_status :: "ReconcileStatus option"
  op_reconcile_evidence :: "string option"
  op_checkpoint_id :: "string option"
  op_attempt :: nat
  op_started_at :: "timestamp option"
  op_heartbeat_at :: "timestamp option"
  op_heartbeat_expires_at :: "timestamp option"
  op_completed_at :: "timestamp option"
  op_error :: "string option"
  op_created_at :: timestamp
  op_updated_at :: timestamp

text \<open>
  \<open>OperationRecord\<close> has no \<^verbatim>\<open>skip_reason\<close> field: \<^verbatim>\<open>model_copy\<close> of an aggregate puts that key beside
  the fields, and serialisation keeps declared fields only, so the stored record does not carry it.
\<close>

definition immutable_metadata :: "OperationRecord \<Rightarrow> ImmutableOperationMetadata" where
  "immutable_metadata op = \<lparr>
     md_operation_id = op_operation_id op, md_parent_operation_id = op_parent_operation_id op,
     md_run_id = op_run_id op, md_turn_id = op_turn_id op, md_kind = op_kind op,
     md_name = op_name op, md_stable_key = op_stable_key op, md_request_hash = op_request_hash op,
     md_idempotency = op_idempotency op, md_side_effecting = op_side_effecting op,
     md_logical_model_call_id = op_logical_model_call_id op,
     md_source_model_call_id = op_source_model_call_id op, md_tool_call_id = op_tool_call_id op,
     md_tool_batch_id = op_tool_batch_id op, md_tool_call_position = op_tool_call_position op,
     md_external_idempotency_key = op_external_idempotency_key op\<rparr>"

record DurableApproval =
  ap_approval_id :: string
  ap_operation_id :: string
  ap_attempt_id :: string
  ap_attempt_no :: nat
  ap_stable_key :: string
  ap_request_hash :: string
  ap_run_id :: string
  ap_client_id :: string
  ap_tool_name :: string
  ap_arguments_hash :: string
  ap_arguments_json :: string
  ap_status :: ApprovalStatus
  ap_created_at :: timestamp
  ap_expires_at :: timestamp
  ap_decided_at :: "timestamp option"
  ap_decided_by :: "string option"
  ap_reason :: "string option"

record ReconcileResult =
  rr_status :: ReconcileStatus
  rr_evidence :: string
  rr_result_source :: string
  rr_observed_result :: "string option"
  rr_checked_at :: timestamp

subsection \<open>Scheduling and projection\<close>

definition is_runnable ::
  "AgentState \<Rightarrow> OperationRecord option \<Rightarrow> OperationAttempt option \<Rightarrow> timestamp \<Rightarrow> bool" where
  "is_runnable st op att now =
    (if st_task_state st \<in> set TERMINAL_STATES \<union> {TaskState.RECOVERY_REQUIRED} then False
     else if map_of (st_diagnostics st) ''fencing_token_valid'' = Some (JBool False) then False
     else if (case st_deadline_at st of
                None \<Rightarrow> False
              | Some d \<Rightarrow> \<not> st_cancellation_requested st \<and> d \<le> now) then False
     else if map_option es_state (st_execution st) = Some WAITING_HUMAN then False
     else if map_option es_state (st_execution st) = Some ACTING \<and> (op = None \<or> att = None) then False
     else if map_option es_state (st_execution st) = Some ACTING
             \<and> at_status (the att) = OperationStatus.PREPARED then True
     else if map_option es_state (st_execution st) = Some ACTING
             \<and> at_status (the att) \<in> {OperationStatus.COMPLETED, OperationStatus.FAILED,
                                     OperationStatus.SKIPPED, OperationStatus.ABANDONED} then True
     else if map_option es_state (st_execution st) = Some ACTING
             \<and> at_status (the att) \<in> {OperationStatus.UNKNOWN, OperationStatus.RUNNING} then False
     else (case op of
             None \<Rightarrow> True
           | Some r \<Rightarrow>
               if op_status r = OperationStatus.FAILED then
                 if op_failure_kind r \<noteq> Some RETRYABLE then True
                 else (case op_next_retry_at r of
                         None \<Rightarrow> False
                       | Some t \<Rightarrow> if \<not> rp_automatic (op_retry_policy_snapshot r) then False else t \<le> now)
               else True))"

definition projected_run_status :: "AgentState \<Rightarrow> string" where
  "projected_run_status st =
    (if st_task_state st \<in> {TaskState.CREATED, TaskState.QUEUED} then ''queued''
     else if st_task_state st = TaskState.SUCCEEDED then ''completed''
     else if st_task_state st = TaskState.FAILED then ''failed''
     else if st_task_state st = TaskState.CANCELLED then ''cancelled''
     else if st_task_state st = TaskState.INTERRUPTED then ''interrupted''
     else ''running'')"

end
