(* ===== verification/Lifecycle.thy ===== *)
theory Lifecycle
  imports Agent_State
begin

section \<open>What the two state machines promise\<close>

text \<open>
  The contract of a transition table with absorbing final states, as the locale \<open>fsm\<close>: final states
  have no way out, every other state can move one step closer to a final one. It is interpreted on
  \<open>OUTER_TRANSITIONS\<close> and \<open>INNER_TRANSITIONS\<close>; the lemmas of the locale give stuck-freedom,
  absorption and reachability of a final state for both machines.
\<close>

locale fsm =
  fixes trans :: "'s \<Rightarrow> 's list" and final :: "'s \<Rightarrow> bool" and rank :: "'s \<Rightarrow> nat"
  assumes final_absorbing: "final s \<Longrightarrow> trans s = []"
    and closer: "\<not> final s \<Longrightarrow> \<exists>t \<in> set (trans s). rank t < rank s"
begin

lemma stuck_iff_final: "trans s = [] \<longleftrightarrow> final s"
  using final_absorbing closer by fastforce

lemma final_stays:
  "(\<lambda>s t. t \<in> set (trans s))\<^sup>*\<^sup>* s t \<Longrightarrow> final s \<Longrightarrow> t = s"
  by (induction rule: converse_rtranclp_induct) (auto simp: final_absorbing)

lemma reaches_final: "\<exists>t. (\<lambda>s t. t \<in> set (trans s))\<^sup>*\<^sup>* s t \<and> final t"
proof (induction "rank s" arbitrary: s rule: less_induct)
  case less
  show ?case
  proof (cases "final s")
    case True
    then show ?thesis by blast
  next
    case False
    then obtain t where "t \<in> set (trans s)" "rank t < rank s" using closer by blast
    with less show ?thesis by (meson converse_rtranclp_into_rtranclp)
  qed
qed

end

definition outer_rank :: "TaskState \<Rightarrow> nat" where
  "outer_rank s = (if s \<in> set TERMINAL_STATES then 0 else if s = TaskState.FINALIZING then 1 else 2)"

definition inner_rank :: "ExecutionState \<Rightarrow> nat" where
  "inner_rank s = (if s = FINISHED then 0 else 1)"

abbreviation outer_step :: "TaskState \<Rightarrow> TaskState \<Rightarrow> bool" where
  "outer_step s t \<equiv> t \<in> set (OUTER_TRANSITIONS s)"

abbreviation inner_step :: "ExecutionState \<Rightarrow> ExecutionState \<Rightarrow> bool" where
  "inner_step s t \<equiv> t \<in> set (INNER_TRANSITIONS s)"

interpretation outer: fsm OUTER_TRANSITIONS "\<lambda>s. s \<in> set TERMINAL_STATES" outer_rank
proof unfold_locales
  fix s :: TaskState
  show "s \<in> set TERMINAL_STATES \<Longrightarrow> OUTER_TRANSITIONS s = []"
    by (cases s) (auto simp: TERMINAL_STATES_def)
  show "s \<notin> set TERMINAL_STATES \<Longrightarrow> \<exists>t \<in> set (OUTER_TRANSITIONS s). outer_rank t < outer_rank s"
    by (cases s) (auto simp: TERMINAL_STATES_def outer_rank_def)
qed

interpretation inner: fsm INNER_TRANSITIONS "\<lambda>s. s = FINISHED" inner_rank
proof unfold_locales
  fix s :: ExecutionState
  show "s = FINISHED \<Longrightarrow> INNER_TRANSITIONS s = []" by simp
  show "s \<noteq> FINISHED \<Longrightarrow> \<exists>t \<in> set (INNER_TRANSITIONS s). inner_rank t < inner_rank s"
    by (cases s) (auto simp: inner_rank_def)
qed

lemma outer_normal_terminal_source:
  "outer_step s t \<Longrightarrow> normal_terminal t \<Longrightarrow> s = TaskState.FINALIZING"
  by (cases s) (auto simp: normal_terminal_def)

lemma normal_terminal_TERMINAL:
  "normal_terminal s \<longleftrightarrow> s \<in> set TERMINAL_STATES \<and> s \<noteq> TaskState.INTERRUPTED"
  by (cases s) (auto simp: normal_terminal_def TERMINAL_STATES_def)

lemma task_state_of_target_value:
  "task_state_value (task_state_of_target t) = terminal_target_value t"
  by (cases t) simp_all

lemma task_state_value_inject: "task_state_value a = task_state_value b \<longleftrightarrow> a = b"
  by (cases a; cases b) simp_all

lemma target_value_iff:
  "terminal_target_value t = task_state_value s \<longleftrightarrow> s = task_state_of_target t"
  by (metis task_state_of_target_value task_state_value_inject)

lemma normal_terminal_of_target [simp]: "normal_terminal (task_state_of_target t)"
  by (cases t) (simp_all add: normal_terminal_def)

text \<open>The lifecycle validator, read state by state.\<close>

lemma validate_lifecycle_open:
  "st_task_state st \<notin> set TERMINAL_STATES \<Longrightarrow> st_task_state st \<noteq> TaskState.FINALIZING
     \<Longrightarrow> validate_lifecycle st"
  by (auto simp: validate_lifecycle_def normal_terminal_TERMINAL)

lemma validate_lifecycle_finalizing:
  "st_task_state st = TaskState.FINALIZING
     \<Longrightarrow> validate_lifecycle st \<longleftrightarrow> st_terminal_target st \<noteq> None"
  by (simp add: validate_lifecycle_def normal_terminal_def TERMINAL_STATES_def)

lemma validate_lifecycle_interrupted:
  "st_task_state st = TaskState.INTERRUPTED \<Longrightarrow> validate_lifecycle st"
  by (simp add: validate_lifecycle_def normal_terminal_def)

lemma validate_lifecycle_normal:
  assumes "normal_terminal (st_task_state st)"
  shows "validate_lifecycle st \<longleftrightarrow>
     (\<exists>t. st_terminal_target st = Some t \<and> st_task_state st = task_state_of_target t) \<and>
     st_finished_at st \<noteq> None \<and>
     (\<forall>e. st_execution st = Some e \<longrightarrow> es_state e = FINISHED)"
proof -
  have "st_task_state st \<noteq> TaskState.FINALIZING" "st_task_state st \<in> set TERMINAL_STATES"
    "st_task_state st \<noteq> TaskState.INTERRUPTED"
    using assms by (auto simp: normal_terminal_TERMINAL TERMINAL_STATES_def)
  with assms show ?thesis
    by (auto simp: validate_lifecycle_def target_value_iff split: option.splits)
qed

end
