(* ===== verification/Agent_Commands.thy ===== *)
theory Agent_Commands
  imports Agent_State
begin

section \<open>Commands\<close>

text \<open>
  The command contract of \<^verbatim>\<open>Agent/state.py\<close>: every mutation of the control plane is one \<open>StateCommand\<close>,
  a header (identity, run, expected revision, fencing epoch) and a body. A class with several fields is
  a record \<open>\<dots>Command\<close>; the union \<open>Command\<close> has one constructor per class, named like the class without its
  suffix. The validators of the classes are the predicates \<open>has_transition\<close>, \<open>validate_failure\<close> and
  \<open>validate_recovery\<close>; \<open>command_valid\<close> collects the ones a constructed body satisfies.
\<close>

record TransitionCommand =
  tc_task_state :: "TaskState option"
  tc_execution_state :: "ExecutionState option"
  tc_outcome :: "ExecutionOutcome option"
  tc_finish_reason :: "string option"
  tc_terminal_target :: "TerminalTarget option"
  tc_reason :: string
  tc_error :: "string option"
  tc_result_summary :: "string option"

definition has_transition :: "TransitionCommand \<Rightarrow> bool" where
  "has_transition c \<longleftrightarrow>
     \<not> (tc_task_state c = None \<and> tc_execution_state c = None) \<and>
     (if tc_execution_state c = Some FINISHED
      then tc_outcome c \<noteq> None \<and> truthy (tc_finish_reason c)
      else tc_outcome c = None \<and> tc_finish_reason c = None)"

record UpdateStateMetadataCommand =
  um_model_attempt :: "nat option"
  um_recovery_attempt :: "nat option"
  um_input_tokens :: "nat option"
  um_output_tokens :: "nat option"
  um_last_progress_at :: "timestamp option"
  um_diagnostics :: "dict option"

record FinalizeInboxCommand =
  fi_operation_id :: string
  fi_attempt_id :: string
  fi_generation :: nat
  fi_stable_key :: string
  fi_request_hash :: string
  fi_title :: string
  fi_summary :: string
  fi_status :: string

record FinalizeAuditCommand =
  fa_operation_id :: string
  fa_attempt_id :: string
  fa_generation :: nat
  fa_stable_key :: string
  fa_request_hash :: string
  fa_receipt_id :: string
  fa_receipt_generation :: nat
  fa_receipt_json :: string
  fa_receipt_hash :: string
  fa_evidence_json :: string
  fa_evidence_hash :: string

record BeginOperationCommand =
  bo_operation_id :: string
  bo_parent_operation_id :: "string option"
  bo_turn_id :: "string option"
  bo_kind :: OperationKind
  bo_name :: string
  bo_request_hash :: string
  bo_idempotency :: ToolIdempotency

record CreateOperationWithAttemptCommand =
  co_operation_id :: string
  co_attempt_id :: string
  co_parent_operation_id :: "string option"
  co_turn_id :: "string option"
  co_kind :: OperationKind
  co_name :: string
  co_stable_key :: string
  co_request_hash :: string
  co_idempotency :: ToolIdempotency
  co_side_effecting :: bool
  co_logical_model_call_id :: "string option"
  co_source_model_call_id :: "string option"
  co_tool_call_id :: "string option"
  co_tool_batch_id :: "string option"
  co_tool_call_position :: "nat option"
  co_model_call_id :: "string option"
  co_external_request_id :: "string option"
  co_external_idempotency_key :: "string option"
  co_retry_policy_snapshot :: RetryPolicySnapshot

record BeginOperationAttemptCommand =
  ba_operation_id :: string
  ba_attempt_id :: string
  ba_expected_latest_attempt_no :: nat
  ba_request_hash :: string
  ba_model_call_id :: "string option"
  ba_external_request_id :: "string option"
  ba_risk_confirmed_by :: "string option"
  ba_risk_confirmation_reason :: "string option"

datatype RecoveryAction = Retry | ConfirmSucceeded | Fail | Cancel

record RecoveryDecisionCommand =
  rd_action :: RecoveryAction
  rd_operation_id :: "string option"
  rd_actor :: string
  rd_reason :: string
  rd_observed_result :: "string option"
  rd_risk_confirmed :: bool

definition validate_recovery :: "RecoveryDecisionCommand \<Rightarrow> bool" where
  "validate_recovery c \<longleftrightarrow> \<not> (rd_action c = ConfirmSucceeded \<and> \<not> truthy (rd_observed_result c))"

text \<open>
  The union. Arguments of a constructor are the fields of the class in source order;
  \<^verbatim>\<open>UpgradePersistenceContractCommand.persistence_contract\<close> is the literal
  \<^verbatim>\<open>SESSION_BACKED_WORKLOAD\<close> and is not repeated.
\<close>

datatype Command =
    Transition TransitionCommand
  | UpdateStateMetadata UpdateStateMetadataCommand
  | RecordRuntimeEvent string dict bool
  | BindSession string
  | UpgradePersistenceContract string
  | StartFinalizeGeneration nat "nat option"
  | StartReplacementFinalizeGeneration nat "nat option" nat string
  | InvalidateFinalizeGeneration nat string
  | FinalizeAudit FinalizeAuditCommand
  | FinalizeInbox FinalizeInboxCommand
  | FinalizeTerminal nat string
  | BeginOperation BeginOperationCommand
  | CreateOperationWithAttempt CreateOperationWithAttemptCommand
  | BeginOperationAttempt BeginOperationAttemptCommand
  | StartOperationAttempt string "timestamp option"
  | CompleteOperationAttempt string string string string
  | FailOperationAttempt string OperationFailureKind string
  | MarkOperationAttemptUnknown string string
  | SkipOperationAttempt string string
  | AbandonOperationAttempt string string
  | HeartbeatOperationAttempt string timestamp timestamp
  | ReconcileOperationAttempt string ReconcileResult
  | StartOperation string "timestamp option"
  | CompleteOperation string string string string
  | FailOperation string string OperationFailureKind
  | MarkOperationUnknown string string
  | AbandonOperation string string
  | HeartbeatOperation string timestamp timestamp
  | ReconcileOperation string ReconcileResult
  | CreateApproval DurableApproval
  | DecideApproval string bool string string
  | ExpireApproval string
  | RequestCancellation string
  | CreateSafeCheckpoint SafeCheckpoint
  | RecoveryDecision RecoveryDecisionCommand
  | AdoptGatewayEpoch string string

record StateCommand =
  cmd_command_id :: string
  cmd_event_key :: string
  cmd_causation_id :: "string option"
  cmd_correlation_id :: "string option"
  cmd_run_id :: string
  cmd_expected_revision :: nat
  cmd_gateway_epoch :: string
  cmd_body :: Command

definition validate_failure :: "OperationFailureKind \<Rightarrow> bool" where
  "validate_failure k \<longleftrightarrow> k \<noteq> UNKNOWN_EFFECT"

fun command_valid :: "Command \<Rightarrow> bool" where
  "command_valid (Transition c) = has_transition c"
| "command_valid (FailOperationAttempt _ k r) = (validate_failure k \<and> r \<noteq> [])"
| "command_valid (MarkOperationAttemptUnknown _ r) = (r \<noteq> [])"
| "command_valid (SkipOperationAttempt _ r) = (r \<noteq> [])"
| "command_valid (AbandonOperationAttempt _ r) = (r \<noteq> [])"
| "command_valid (CreateOperationWithAttempt c) = valid_retry_policy (co_retry_policy_snapshot c)"
| "command_valid (RecoveryDecision c) = validate_recovery c"
| "command_valid _ = True"

record ApplyResult =
  ar_state :: AgentState
  ar_operation :: "OperationRecord option"
  ar_attempt :: "OperationAttempt option"
  ar_approval :: "DurableApproval option"
  ar_event_id :: "string option"
  ar_duplicate :: bool

end
