(* ===== verification/Finalize_Evidence.thy ===== *)
theory Finalize_Evidence
  imports Agent_State
begin

section \<open>Finalize identities, requirements and evidence\<close>

text \<open>
  \<^verbatim>\<open>gateway/finalize_evidence.py\<close>: the four finalize steps, the evidence each step leaves behind, its
  deterministic serialisation (\<open>encode\<close>, \<open>decode\<close>, \<open>verify\<close>), the identity of a step's operation
  (\<open>for_step\<close>) and the policy that says which step needs a verified artifact.

  Library functions are parameters, bundled in the record \<open>env\<close>: \<open>sha256\<close> (hex digest of a text), \<open>json_loads\<close>
  (text to JSON value, \<open>None\<close> on a decoding error), \<open>iso\<close> (an instant as \<^verbatim>\<open>now_iso\<close> prints it: local offset,
  whole seconds) and \<open>iso_utc\<close> (an instant as \<^verbatim>\<open>isoformat\<close> prints it in UTC). Theorems that read text back
  take \<open>json_loads\<close> to be \<open>json_parse\<close> of \<open>Json_Text\<close>.
\<close>

record env =
  sha256 :: "string \<Rightarrow> string"
  json_loads :: "string \<Rightarrow> json option"
  iso :: "timestamp \<Rightarrow> string"
  iso_utc :: "timestamp \<Rightarrow> string"

datatype FinalizeStep = MEMORY | SESSION_INDEX | AUDIT | INBOX

datatype FinalizeRequirement = REQUIRED | NOT_APPLICABLE

fun finalize_step_value :: "FinalizeStep \<Rightarrow> string" where
  "finalize_step_value FinalizeStep.MEMORY = ''memory''"
| "finalize_step_value FinalizeStep.SESSION_INDEX = ''session_index''"
| "finalize_step_value FinalizeStep.AUDIT = ''audit''"
| "finalize_step_value FinalizeStep.INBOX = ''inbox''"

text \<open>\<^verbatim>\<open>for step in FinalizeStep\<close> runs in declaration order.\<close>

instantiation FinalizeStep :: enum
begin

definition enum_FinalizeStep :: "FinalizeStep list" where
  "enum_FinalizeStep =
     [FinalizeStep.MEMORY, FinalizeStep.SESSION_INDEX, FinalizeStep.AUDIT, FinalizeStep.INBOX]"

definition enum_all_FinalizeStep :: "(FinalizeStep \<Rightarrow> bool) \<Rightarrow> bool" where
  "enum_all_FinalizeStep P \<longleftrightarrow> list_all P enum_class.enum"

definition enum_ex_FinalizeStep :: "(FinalizeStep \<Rightarrow> bool) \<Rightarrow> bool" where
  "enum_ex_FinalizeStep P \<longleftrightarrow> list_ex P enum_class.enum"

instance
proof
  have U: "UNIV = set (enum_class.enum :: FinalizeStep list)"
  proof
    show "UNIV \<subseteq> set (enum_class.enum :: FinalizeStep list)"
    proof
      fix s :: FinalizeStep
      show "s \<in> set enum_class.enum" by (cases s) (simp_all add: enum_FinalizeStep_def)
    qed
  qed simp
  show "UNIV = set (enum_class.enum :: FinalizeStep list)" by (rule U)
  show "distinct (enum_class.enum :: FinalizeStep list)" by (simp add: enum_FinalizeStep_def)
  fix P :: "FinalizeStep \<Rightarrow> bool"
  show "enum_class.enum_all P = Ball UNIV P"
    unfolding enum_all_FinalizeStep_def list_all_iff U [symmetric] by simp
  show "enum_class.enum_ex P = Bex UNIV P"
    unfolding enum_ex_FinalizeStep_def list_ex_iff U [symmetric] by simp
qed

end

subsection \<open>Evidence\<close>

record FinalizeEvidenceReferences =
  fr_segments :: "string list"
  fr_first_record_id :: "string option"
  fr_last_record_id :: "string option"
  fr_final_record_id :: "string option"
  fr_record_count :: "nat option"
  fr_memory_attempt_id :: "string option"
  fr_memory_result_hash :: "string option"
  fr_session_index_attempt_id :: "string option"
  fr_session_index_result_hash :: "string option"
  fr_receipt_id :: "string option"
  fr_inbox_item_id :: "string option"

record VerifiedArtifactEvidence =
  ve_step :: FinalizeStep
  ve_run_id :: string
  ve_generation :: nat
  ve_operation_id :: string
  ve_attempt_id :: string
  ve_artifact_kind :: string
  ve_artifact_id :: string
  ve_artifact_hash :: string
  ve_verification_method :: string
  ve_references :: FinalizeEvidenceReferences

record NotApplicableEvidence =
  ne_step :: FinalizeStep
  ne_run_id :: string
  ne_generation :: nat
  ne_operation_id :: string
  ne_attempt_id :: string
  ne_workload_kind :: string
  ne_persistence_contract :: PersistenceContract
  ne_policy_reason :: string

datatype FinalizeStepEvidence =
    Verified VerifiedArtifactEvidence
  | NotApplicable NotApplicableEvidence

fun ev_step :: "FinalizeStepEvidence \<Rightarrow> FinalizeStep" where
  "ev_step (Verified v) = ve_step v"
| "ev_step (NotApplicable n) = ne_step n"

fun ev_run_id :: "FinalizeStepEvidence \<Rightarrow> string" where
  "ev_run_id (Verified v) = ve_run_id v"
| "ev_run_id (NotApplicable n) = ne_run_id n"

fun ev_generation :: "FinalizeStepEvidence \<Rightarrow> nat" where
  "ev_generation (Verified v) = ve_generation v"
| "ev_generation (NotApplicable n) = ne_generation n"

fun ev_operation_id :: "FinalizeStepEvidence \<Rightarrow> string" where
  "ev_operation_id (Verified v) = ve_operation_id v"
| "ev_operation_id (NotApplicable n) = ne_operation_id n"

fun ev_attempt_id :: "FinalizeStepEvidence \<Rightarrow> string" where
  "ev_attempt_id (Verified v) = ve_attempt_id v"
| "ev_attempt_id (NotApplicable n) = ne_attempt_id n"

definition opt_hash_ok :: "string option \<Rightarrow> bool" where
  "opt_hash_ok h \<longleftrightarrow> (case h of None \<Rightarrow> True | Some s \<Rightarrow> is_sha256_hex s)"

definition valid_references :: "FinalizeEvidenceReferences \<Rightarrow> bool" where
  "valid_references r \<longleftrightarrow>
     opt_hash_ok (fr_memory_result_hash r) \<and> opt_hash_ok (fr_session_index_result_hash r)"

fun valid_evidence :: "FinalizeStepEvidence \<Rightarrow> bool" where
  "valid_evidence (Verified v) \<longleftrightarrow>
     ve_run_id v \<noteq> [] \<and> 1 \<le> ve_generation v \<and> ve_operation_id v \<noteq> [] \<and> ve_attempt_id v \<noteq> [] \<and>
     ve_artifact_kind v \<noteq> [] \<and> ve_artifact_id v \<noteq> [] \<and> is_sha256_hex (ve_artifact_hash v) \<and>
     ve_verification_method v \<noteq> [] \<and> valid_references (ve_references v)"
| "valid_evidence (NotApplicable n) \<longleftrightarrow>
     ne_run_id n \<noteq> [] \<and> 1 \<le> ne_generation n \<and> ne_operation_id n \<noteq> [] \<and> ne_attempt_id n \<noteq> [] \<and>
     ne_workload_kind n \<noteq> [] \<and> ne_policy_reason n \<noteq> []"

subsection \<open>Evidence as JSON\<close>

text \<open>\<^verbatim>\<open>model_dump(mode="json", exclude_none=True)\<close>: absent options leave no key.\<close>

fun opt_field :: "string \<Rightarrow> string option \<Rightarrow> dict" where
  "opt_field k None = []"
| "opt_field k (Some s) = [(k, JStr s)]"

definition references_json :: "FinalizeEvidenceReferences \<Rightarrow> json" where
  "references_json r = JObj (
     [(''segments'', JArr (map JStr (fr_segments r)))] @
     opt_field ''first_record_id'' (fr_first_record_id r) @
     opt_field ''last_record_id'' (fr_last_record_id r) @
     opt_field ''final_record_id'' (fr_final_record_id r) @
     (case fr_record_count r of None \<Rightarrow> [] | Some n \<Rightarrow> [(''record_count'', JInt (int n))]) @
     opt_field ''memory_attempt_id'' (fr_memory_attempt_id r) @
     opt_field ''memory_result_hash'' (fr_memory_result_hash r) @
     opt_field ''session_index_attempt_id'' (fr_session_index_attempt_id r) @
     opt_field ''session_index_result_hash'' (fr_session_index_result_hash r) @
     opt_field ''receipt_id'' (fr_receipt_id r) @
     opt_field ''inbox_item_id'' (fr_inbox_item_id r))"

fun evidence_json :: "FinalizeStepEvidence \<Rightarrow> json" where
  "evidence_json (Verified v) = JObj [
     (''kind'', JStr ''verified''), (''protocol_version'', JInt 2),
     (''step'', JStr (finalize_step_value (ve_step v))), (''run_id'', JStr (ve_run_id v)),
     (''generation'', JInt (int (ve_generation v))), (''operation_id'', JStr (ve_operation_id v)),
     (''attempt_id'', JStr (ve_attempt_id v)), (''artifact_kind'', JStr (ve_artifact_kind v)),
     (''artifact_id'', JStr (ve_artifact_id v)), (''artifact_hash'', JStr (ve_artifact_hash v)),
     (''verification_method'', JStr (ve_verification_method v)),
     (''references'', references_json (ve_references v))]"
| "evidence_json (NotApplicable n) = JObj [
     (''kind'', JStr ''not_applicable''), (''protocol_version'', JInt 2),
     (''step'', JStr (finalize_step_value (ne_step n))), (''run_id'', JStr (ne_run_id n)),
     (''generation'', JInt (int (ne_generation n))), (''operation_id'', JStr (ne_operation_id n)),
     (''attempt_id'', JStr (ne_attempt_id n)), (''workload_kind'', JStr (ne_workload_kind n)),
     (''persistence_contract'', JStr (persistence_contract_value (ne_persistence_contract n))),
     (''policy_reason'', JStr (ne_policy_reason n))]"

text \<open>
  Strict validation of a JSON object against the two classes: no extra key, every required key with
  its type and constraint, optional keys absent, null or of their type.
\<close>

definition get_text :: "dict \<Rightarrow> string \<Rightarrow> string option" where
  "get_text d k = (case map_of d k of Some (JStr s) \<Rightarrow> if s \<noteq> [] then Some s else None | _ \<Rightarrow> None)"

definition get_pos :: "dict \<Rightarrow> string \<Rightarrow> nat option" where
  "get_pos d k = (case map_of d k of Some (JInt i) \<Rightarrow> if 1 \<le> i then Some (nat i) else None | _ \<Rightarrow> None)"

definition get_opt_text :: "dict \<Rightarrow> string \<Rightarrow> string option option" where
  "get_opt_text d k =
     (case map_of d k of None \<Rightarrow> Some None | Some JNull \<Rightarrow> Some None | Some (JStr s) \<Rightarrow> Some (Some s)
      | _ \<Rightarrow> None)"

definition get_opt_hash :: "dict \<Rightarrow> string \<Rightarrow> string option option" where
  "get_opt_hash d k =
     (case get_opt_text d k of
        Some h \<Rightarrow> if opt_hash_ok h then Some h else None | None \<Rightarrow> None)"

definition get_opt_count :: "dict \<Rightarrow> string \<Rightarrow> nat option option" where
  "get_opt_count d k =
     (case map_of d k of None \<Rightarrow> Some None | Some JNull \<Rightarrow> Some None
      | Some (JInt i) \<Rightarrow> if 0 \<le> i then Some (Some (nat i)) else None | _ \<Rightarrow> None)"

fun text_list :: "json list \<Rightarrow> string list option" where
  "text_list [] = Some []"
| "text_list (JStr s # xs) = map_option ((#) s) (text_list xs)"
| "text_list (_ # xs) = None"

definition get_segments :: "dict \<Rightarrow> string list option" where
  "get_segments d = (case map_of d ''segments'' of None \<Rightarrow> Some [] | Some (JArr xs) \<Rightarrow> text_list xs | _ \<Rightarrow> None)"

definition only_keys :: "string list \<Rightarrow> dict \<Rightarrow> bool" where
  "only_keys ks d \<longleftrightarrow> list_all (\<lambda>(k, v). k \<in> set ks) d"

definition step_of_value :: "string \<Rightarrow> FinalizeStep option" where
  "step_of_value s = find (\<lambda>x. finalize_step_value x = s) enum_class.enum"

definition contract_of_value :: "string \<Rightarrow> PersistenceContract option" where
  "contract_of_value s =
     find (\<lambda>x. persistence_contract_value x = s)
       [CONVERSATION_SESSION, SESSION_BACKED_WORKLOAD, CONTROL_ONLY]"

definition reference_keys :: "string list" where
  "reference_keys =
     [''segments'', ''first_record_id'', ''last_record_id'', ''final_record_id'', ''record_count'',
      ''memory_attempt_id'', ''memory_result_hash'', ''session_index_attempt_id'',
      ''session_index_result_hash'', ''receipt_id'', ''inbox_item_id'']"

definition references_of_json :: "json \<Rightarrow> FinalizeEvidenceReferences option" where
  "references_of_json j =
    (case j of
       JObj d \<Rightarrow>
         if \<not> only_keys reference_keys d then None
         else Option.bind (get_segments d) (\<lambda>sg.
              Option.bind (get_opt_text d ''first_record_id'') (\<lambda>fst_id.
              Option.bind (get_opt_text d ''last_record_id'') (\<lambda>last_id.
              Option.bind (get_opt_text d ''final_record_id'') (\<lambda>fin_id.
              Option.bind (get_opt_count d ''record_count'') (\<lambda>rc.
              Option.bind (get_opt_text d ''memory_attempt_id'') (\<lambda>ma.
              Option.bind (get_opt_hash d ''memory_result_hash'') (\<lambda>mh.
              Option.bind (get_opt_text d ''session_index_attempt_id'') (\<lambda>sa.
              Option.bind (get_opt_hash d ''session_index_result_hash'') (\<lambda>sh.
              Option.bind (get_opt_text d ''receipt_id'') (\<lambda>ri.
              Option.bind (get_opt_text d ''inbox_item_id'') (\<lambda>ii.
              Some \<lparr>fr_segments = sg, fr_first_record_id = fst_id, fr_last_record_id = last_id,
                    fr_final_record_id = fin_id, fr_record_count = rc, fr_memory_attempt_id = ma,
                    fr_memory_result_hash = mh, fr_session_index_attempt_id = sa,
                    fr_session_index_result_hash = sh, fr_receipt_id = ri,
                    fr_inbox_item_id = ii\<rparr>)))))))))))
     | _ \<Rightarrow> None)"

definition empty_references :: FinalizeEvidenceReferences where
  "empty_references = \<lparr>fr_segments = [], fr_first_record_id = None, fr_last_record_id = None,
     fr_final_record_id = None, fr_record_count = None, fr_memory_attempt_id = None,
     fr_memory_result_hash = None, fr_session_index_attempt_id = None,
     fr_session_index_result_hash = None, fr_receipt_id = None, fr_inbox_item_id = None\<rparr>"

definition protocol_ok :: "dict \<Rightarrow> bool" where
  "protocol_ok d \<longleftrightarrow> map_of d ''protocol_version'' \<in> {None, Some (JInt 2)}"

definition verified_of_dict :: "dict \<Rightarrow> FinalizeStepEvidence option" where
  "verified_of_dict d =
    (if \<not> only_keys [''kind'', ''protocol_version'', ''step'', ''run_id'', ''generation'',
          ''operation_id'', ''attempt_id'', ''artifact_kind'', ''artifact_id'', ''artifact_hash'',
          ''verification_method'', ''references''] d \<or> \<not> protocol_ok d then None
     else Option.bind (Option.bind (get_text d ''step'') step_of_value) (\<lambda>st.
          Option.bind (get_text d ''run_id'') (\<lambda>ri.
          Option.bind (get_pos d ''generation'') (\<lambda>g.
          Option.bind (get_text d ''operation_id'') (\<lambda>oi.
          Option.bind (get_text d ''attempt_id'') (\<lambda>ai.
          Option.bind (get_text d ''artifact_kind'') (\<lambda>ak.
          Option.bind (get_text d ''artifact_id'') (\<lambda>aid.
          Option.bind (get_text d ''artifact_hash'') (\<lambda>ah.
          Option.bind (get_text d ''verification_method'') (\<lambda>vm.
          Option.bind (case map_of d ''references'' of None \<Rightarrow> Some empty_references
                       | Some j \<Rightarrow> references_of_json j) (\<lambda>rf.
          if is_sha256_hex ah
          then Some (Verified \<lparr>ve_step = st, ve_run_id = ri, ve_generation = g, ve_operation_id = oi,
                 ve_attempt_id = ai, ve_artifact_kind = ak, ve_artifact_id = aid,
                 ve_artifact_hash = ah, ve_verification_method = vm, ve_references = rf\<rparr>)
          else None)))))))))))"

definition not_applicable_of_dict :: "dict \<Rightarrow> FinalizeStepEvidence option" where
  "not_applicable_of_dict d =
    (if \<not> only_keys [''kind'', ''protocol_version'', ''step'', ''run_id'', ''generation'',
          ''operation_id'', ''attempt_id'', ''workload_kind'', ''persistence_contract'',
          ''policy_reason''] d \<or> \<not> protocol_ok d then None
     else Option.bind (Option.bind (get_text d ''step'') step_of_value) (\<lambda>st.
          Option.bind (get_text d ''run_id'') (\<lambda>ri.
          Option.bind (get_pos d ''generation'') (\<lambda>g.
          Option.bind (get_text d ''operation_id'') (\<lambda>oi.
          Option.bind (get_text d ''attempt_id'') (\<lambda>ai.
          Option.bind (get_text d ''workload_kind'') (\<lambda>wk.
          Option.bind (Option.bind (get_text d ''persistence_contract'') contract_of_value) (\<lambda>pc.
          Option.bind (get_text d ''policy_reason'') (\<lambda>pr.
          Some (NotApplicable \<lparr>ne_step = st, ne_run_id = ri, ne_generation = g, ne_operation_id = oi,
                 ne_attempt_id = ai, ne_workload_kind = wk, ne_persistence_contract = pc,
                 ne_policy_reason = pr\<rparr>))))))))))"

fun evidence_of_json :: "json \<Rightarrow> FinalizeStepEvidence option" where
  "evidence_of_json (JObj d) =
     (if map_of d ''kind'' = Some (JStr ''verified'') then verified_of_dict d
      else if map_of d ''kind'' = Some (JStr ''not_applicable'') then not_applicable_of_dict d
      else None)"
| "evidence_of_json _ = None"

subsection \<open>Codec\<close>

record EncodedFinalizeEvidence =
  ee_value :: FinalizeStepEvidence
  ee_serialized :: string
  ee_result_hash :: string

definition decode :: "env \<Rightarrow> string \<Rightarrow> FinalizeStepEvidence result" where
  "decode E value = or_raise (Option.bind (json_loads E value) evidence_of_json)
     (ValueError ''invalid finalize evidence'')"

definition encode :: "env \<Rightarrow> FinalizeStepEvidence \<Rightarrow> EncodedFinalizeEvidence result" where
  "encode E value =
     (if \<not> valid_evidence value then Inl (ValueError ''invalid finalize evidence'')
      else rbind (decode E (canonical_json (sanitize (evidence_json value)))) (\<lambda>final.
        let canonical = canonical_json (evidence_json final) in
        Inr \<lparr>ee_value = final, ee_serialized = canonical, ee_result_hash = sha256 E canonical\<rparr>))"

definition verify :: "env \<Rightarrow> string \<Rightarrow> string \<Rightarrow> FinalizeStepEvidence result" where
  "verify E value result_hash =
     rbind (decode E value) (\<lambda>v.
     rbind (encode E v) (\<lambda>encoded.
     if ee_result_hash encoded \<noteq> result_hash
     then Inl (ValueError ''Finalize Evidence result_hash mismatch'')
     else Inr (ee_value encoded)))"

subsection \<open>Identity and requirements\<close>

record FinalizeOperationIdentity =
  id_stable_key :: string
  id_operation_id :: string
  id_request_hash :: string

definition finalize_stable_key :: "nat \<Rightarrow> FinalizeStep \<Rightarrow> string" where
  "finalize_stable_key g step = ''finalize:v2:g'' @ nat_text g @ '':'' @ finalize_step_value step"

definition finalize_request :: "AgentState \<Rightarrow> nat \<Rightarrow> FinalizeStep \<Rightarrow> json" where
  "finalize_request st g step = JObj [
     (''protocol_version'', JInt 2), (''run_id'', JStr (st_run_id st)),
     (''generation'', JInt (int g)), (''step'', JStr (finalize_step_value step)),
     (''workload_kind'', JStr (workload_kind_value (st_workload_kind st))),
     (''persistence_contract'', JStr (persistence_contract_value (st_persistence_contract st))),
     (''project_id'', JStr (st_project_id st)), (''session_id'', opt_str (st_session_id st)),
     (''turn_id'', opt_str (st_turn_id st)),
     (''terminal_target'', opt_str (map_option terminal_target_value (st_terminal_target st)))]"

definition for_step :: "env \<Rightarrow> AgentState \<Rightarrow> nat \<Rightarrow> FinalizeStep \<Rightarrow> FinalizeOperationIdentity" where
  "for_step E st g step =
     (let key = finalize_stable_key g step in
      \<lparr>id_stable_key = key,
       id_operation_id = sha256 E (st_run_id st @ '':'' @ key),
       id_request_hash = sha256 E (canonical_json (finalize_request st g step))\<rparr>)"

definition finalize_command_id :: "string \<Rightarrow> nat \<Rightarrow> FinalizeStep \<Rightarrow> string \<Rightarrow> string" where
  "finalize_command_id run_id g step action =
     ''finalize:v2:'' @ run_id @ '':g'' @ nat_text g @ '':'' @ finalize_step_value step @ '':'' @ action"

definition requirements :: "AgentState \<Rightarrow> FinalizeStep \<Rightarrow> FinalizeRequirement" where
  "requirements st step =
     (let session_required =
        st_persistence_contract st \<in> {CONVERSATION_SESSION, SESSION_BACKED_WORKLOAD} in
      case step of
        FinalizeStep.MEMORY \<Rightarrow> if session_required then REQUIRED else NOT_APPLICABLE
      | FinalizeStep.SESSION_INDEX \<Rightarrow> if session_required then REQUIRED else NOT_APPLICABLE
      | FinalizeStep.AUDIT \<Rightarrow> REQUIRED
      | FinalizeStep.INBOX \<Rightarrow> REQUIRED)"

definition validate_requirement :: "AgentState \<Rightarrow> FinalizeStepEvidence \<Rightarrow> unit result" where
  "validate_requirement st ev =
     (let expected = requirements st (ev_step ev) in
      case ev of
        NotApplicable n \<Rightarrow>
          if expected = REQUIRED then Inl (ValueError ''Finalize step is required'')
          else if ne_persistence_contract n \<noteq> st_persistence_contract st
          then Inl (ValueError ''Finalize N/A persistence contract mismatch'')
          else if ne_workload_kind n \<noteq> workload_kind_value (st_workload_kind st)
          then Inl (ValueError ''Finalize N/A workload kind mismatch'')
          else Inr ()
      | Verified v \<Rightarrow>
          if expected = NOT_APPLICABLE then Inl (ValueError ''Finalize step must be not_applicable'')
          else Inr ())"

end
