(* ===== verification/Control_Store.thy ===== *)
theory Control_Store
  imports Agent_Commands Finalize_Evidence Operation_Reduction
begin

section \<open>The control-plane tables\<close>

text \<open>
  The SQLite tables of \<^verbatim>\<open>gateway/state_controller.py\<close> that a state command reads or writes, as a record
  of row lists, with the write statements (\<^verbatim>\<open>_save_operation\<close>, \<^verbatim>\<open>_save_attempt\<close>, \<^verbatim>\<open>_save_approval\<close>) and
  the reads (\<^verbatim>\<open>_state_in\<close>, \<^verbatim>\<open>_operation_in\<close>, \<dots>). A row keeps the columns of its table beside the JSON
  document stored in it, because an upsert rewrites the document and only some of the columns. Every
  constraint the schema declares on these tables (primary keys, unique indexes, foreign keys, checks,
  the immutability triggers) is part of the write and raises \<open>IntegrityError\<close>. A raised error leaves the
  transaction uncommitted, so a failing operation returns no database. Surrogate keys drawn from
  \<^verbatim>\<open>uuid4\<close> are left out of the rows.
\<close>

subsection \<open>Rows\<close>

record state_row =
  sr_state :: AgentState
  sr_snapshot_sequence :: nat

record transition_row =
  tr_command_id :: string
  tr_run_id :: string
  tr_from_task_state :: TaskState
  tr_to_task_state :: TaskState
  tr_from_execution_state :: "ExecutionState option"
  tr_to_execution_state :: "ExecutionState option"
  tr_reason :: string
  tr_revision :: nat
  tr_created_at :: timestamp

record operation_row =
  or_operation_id :: string
  or_run_id :: string
  or_parent_operation_id :: "string option"
  or_kind :: OperationKind
  or_status :: OperationStatus
  or_record :: OperationRecord
  or_updated_at :: timestamp
  or_stable_key :: string
  or_request_hash :: string
  or_side_effecting :: bool

record attempt_row =
  ar_attempt_id :: string
  ar_operation_id :: string
  ar_run_id :: string
  ar_attempt_no :: nat
  ar_request_hash :: string
  ar_side_effecting :: bool
  ar_status :: OperationStatus
  ar_failure_kind :: "OperationFailureKind option"
  ar_recovery_resolution :: "AttemptRecoveryResolution option"
  ar_document :: OperationAttempt
  ar_updated_at :: timestamp

record approval_row =
  dr_approval_id :: string
  dr_run_id :: string
  dr_operation_id :: string
  dr_status :: ApprovalStatus
  dr_document :: DurableApproval
  dr_expires_at :: timestamp
  dr_updated_at :: timestamp
  dr_attempt_id :: string

record processed_row =
  pc_command_id :: string
  pc_run_id :: string
  pc_command_hash :: string
  pc_result :: ApplyResult
  pc_processed_at :: timestamp

record idempotency_row =
  ir_client_id :: string
  ir_operation_name :: string
  ir_idempotency_key :: string
  ir_request_hash :: string
  ir_run_id :: string
  ir_created_at :: timestamp

record decision_row =
  dc_command_id :: string
  dc_run_id :: string
  dc_operation_id :: "string option"
  dc_attempt_id :: "string option"
  dc_action :: RecoveryAction
  dc_actor :: string
  dc_reason :: string
  dc_created_at :: timestamp

record invalidation_row =
  iv_command_id :: string
  iv_run_id :: string
  iv_generation :: nat
  iv_reason :: string
  iv_created_at :: timestamp

record receipt_row =
  rc_receipt_id :: string
  rc_run_id :: string
  rc_finalize_generation :: nat
  rc_receipt_generation :: nat
  rc_receipt_json :: string
  rc_receipt_hash :: string
  rc_created_at :: timestamp

record inbox_row =
  ib_item_id :: string
  ib_run_id :: string
  ib_project_id :: string
  ib_session_id :: "string option"
  ib_title :: string
  ib_summary :: string
  ib_status :: string
  ib_created_at :: timestamp
  ib_is_read :: bool

record run_row =
  ru_run_id :: string
  ru_project_id :: string
  ru_session_id :: "string option"
  ru_client_id :: string
  ru_task :: string
  ru_status :: string
  ru_created_at :: timestamp
  ru_started_at :: "timestamp option"
  ru_finished_at :: "timestamp option"
  ru_answer :: "string option"
  ru_error :: "string option"
  ru_model_profile_id :: string
  ru_reasoning_effort :: string
  ru_ui_context_json :: "string option"
  ru_task_state :: "string option"
  ru_execution_state :: "string option"
  ru_execution_outcome :: "string option"
  ru_finish_reason :: "string option"
  ru_state_revision :: nat
  ru_recovery_required :: bool
  ru_terminal_target :: "string option"
  ru_workload_kind :: string

datatype StorageTier = Hot | Archived

record event_row =
  ev_event_id :: string
  ev_command_id :: string
  ev_event_key :: string
  ev_stream_id :: string
  ev_stream_sequence :: nat
  ev_event_type :: string
  ev_envelope_version :: nat
  ev_occurred_at :: timestamp
  ev_row_run_id :: string
  ev_session_id :: "string option"
  ev_causation_id :: "string option"
  ev_correlation_id :: string
  ev_payload :: dict
  ev_payload_hash :: string
  ev_canonical_event_json :: "string option"
  ev_canonical_hash :: string
  ev_storage_tier :: StorageTier
  ev_archive_id :: "string option"
  ev_row_revision :: nat

record outbox_row =
  ob_outbox_id :: string
  ob_event_id :: string
  ob_created :: timestamp
  ob_completed_at :: "timestamp option"
  ob_outbox_revision :: nat

record sink_row =
  sk_sink_id :: string
  sk_enabled :: bool
  sk_config_version :: nat
  sk_config_hash :: string
  sk_required_by_default :: bool

datatype DeliveryStatus = Pending | Delivering | Retrying | Delivered | DeadLettered

record delivery_row =
  dl_delivery_id :: string
  dl_outbox_id :: string
  dl_event_id :: string
  dl_sink_id :: string
  dl_required :: bool
  dl_sink_config_version :: nat
  dl_sink_config_hash :: string
  dl_status :: DeliveryStatus
  dl_attempt_count :: nat
  dl_next_retry_at :: "string option"
  dl_last_error_type :: "string option"
  dl_last_error :: "string option"
  dl_delivered_at :: "timestamp option"
  dl_dead_lettered_at :: "timestamp option"
  dl_revision :: nat

datatype DeliveryAttemptStatus = AttemptDelivering | AttemptSucceeded | AttemptFailed | AttemptInterrupted

record delivery_attempt_row =
  da_attempt_id :: string
  da_delivery_id :: string
  da_attempt_no :: nat
  da_gateway_epoch :: string
  da_status :: DeliveryAttemptStatus
  da_started_at :: timestamp
  da_completed_at :: "timestamp option"
  da_error_type :: "string option"
  da_error_summary :: "string option"

record cursor_row =
  cu_consumer_id :: string
  cu_stream_id :: string
  cu_last_sequence :: nat
  cu_revision :: nat
  cu_updated_at :: timestamp

datatype ArchiveStatus = ArchivePreparing | ArchiveVerified | ArchiveFailed | ArchiveRecoveryRequired

record archive_row =
  av_archive_id :: string
  av_stream_id :: string
  av_first_sequence :: nat
  av_last_sequence :: nat
  av_event_count :: nat
  av_events_content_hash :: "string option"
  av_manifest_hash :: "string option"
  av_members_hash :: "string option"
  av_archive_path :: string
  av_status :: ArchiveStatus
  av_created_at :: timestamp
  av_verified_at :: "timestamp option"
  av_revision :: nat

record member_row =
  mb_archive_id :: string
  mb_event_id :: string
  mb_stream_sequence :: nat
  mb_canonical_hash :: string
  mb_byte_offset :: "nat option"
  mb_byte_length :: "nat option"

datatype GenerationStatus = Preparing | Active | Retired | Rejected | Quarantined

record generation_row =
  gr_generation_id :: string
  gr_parent_generation_id :: "string option"
  gr_core_api_version :: nat
  gr_semantic_hash :: string
  gr_source_hash :: string
  gr_status :: GenerationStatus
  gr_generation_json :: string
  gr_created_at :: timestamp
  gr_activated_at :: "timestamp option"
  gr_retired_at :: "timestamp option"
  gr_artifact_deleted_at :: "timestamp option"

record reference_row =
  rf_reference_id :: string
  rf_generation_id :: string
  rf_owner_kind :: string
  rf_owner_id :: string
  rf_active :: bool
  rf_created_at :: timestamp
  rf_released_at :: "timestamp option"

record db =
  agent_states :: "state_row list"
  state_transitions :: "transition_row list"
  operation_ledger :: "operation_row list"
  operation_attempts :: "attempt_row list"
  durable_approvals :: "approval_row list"
  processed_commands :: "processed_row list"
  idempotency_records :: "idempotency_row list"
  recovery_decisions :: "decision_row list"
  finalize_generations :: "FinalizeGenerationRecord list"
  finalize_generation_invalidations :: "invalidation_row list"
  run_audit_receipts :: "receipt_row list"
  run_current_audit_receipt :: "(string \<times> string) list"
  inbox :: "inbox_row list"
  runs :: "run_row list"
  event_sequences :: "(string \<times> nat) list"
  gateway_events :: "event_row list"
  event_outbox :: "outbox_row list"
  event_deliveries :: "delivery_row list"
  event_sinks :: "sink_row list"
  event_delivery_attempts :: "delivery_attempt_row list"
  event_consumer_cursors :: "cursor_row list"
  gateway_event_archives :: "archive_row list"
  gateway_event_archive_members :: "member_row list"
  runtime_resource_generations :: "generation_row list"
  runtime_generation_references :: "reference_row list"

text \<open>The database the schema creates.\<close>

definition empty_db :: db where
  "empty_db = \<lparr>agent_states = [], state_transitions = [], operation_ledger = [],
     operation_attempts = [], durable_approvals = [], processed_commands = [],
     idempotency_records = [], recovery_decisions = [], finalize_generations = [],
     finalize_generation_invalidations = [], run_audit_receipts = [],
     run_current_audit_receipt = [], inbox = [], runs = [], event_sequences = [],
     gateway_events = [], event_outbox = [], event_deliveries = [], event_sinks = [],
     event_delivery_attempts = [], event_consumer_cursors = [], gateway_event_archives = [],
     gateway_event_archive_members = [], runtime_resource_generations = [], runtime_generation_references = []\<rparr>"

subsection \<open>Reads\<close>

definition sr_run_id :: "state_row \<Rightarrow> string" where
  "sr_run_id r = st_run_id (sr_state r)"

definition state_in :: "db \<Rightarrow> string \<Rightarrow> AgentState result" where
  "state_in d run_id =
     or_raise (map_option sr_state (lookup_row sr_run_id run_id (agent_states d))) (KeyError run_id)"

definition operation_in :: "db \<Rightarrow> string \<Rightarrow> OperationRecord result" where
  "operation_in d operation_id =
     or_raise (map_option or_record (lookup_row or_operation_id operation_id (operation_ledger d)))
       (KeyError operation_id)"

definition attempt_in :: "db \<Rightarrow> string \<Rightarrow> OperationAttempt result" where
  "attempt_in d attempt_id =
     or_raise (map_option ar_document (lookup_row ar_attempt_id attempt_id (operation_attempts d)))
       (KeyError attempt_id)"

definition attempt_rows_of :: "db \<Rightarrow> string \<Rightarrow> attempt_row list" where
  "attempt_rows_of d operation_id =
     sort_key ar_attempt_no (filter (\<lambda>r. ar_operation_id r = operation_id) (operation_attempts d))"

definition attempts_in :: "db \<Rightarrow> string \<Rightarrow> OperationAttempt list result" where
  "attempts_in d operation_id =
     (case attempt_rows_of d operation_id of
        [] \<Rightarrow> Inl (KeyError operation_id)
      | rows \<Rightarrow> Inr (map ar_document rows))"

definition current_attempt :: "OperationAttempt list \<Rightarrow> OperationAttempt" where
  "current_attempt attempts =
     (let active = filter attempt_active attempts in
      if active \<noteq> [] then last active else last attempts)"

definition current_attempt_in :: "db \<Rightarrow> string \<Rightarrow> OperationAttempt result" where
  "current_attempt_in d operation_id =
     rbind (attempts_in d operation_id) (\<lambda>attempts. Inr (current_attempt attempts))"

definition approval_in :: "db \<Rightarrow> string \<Rightarrow> DurableApproval result" where
  "approval_in d approval_id =
     or_raise (map_option dr_document (lookup_row dr_approval_id approval_id (durable_approvals d)))
       (KeyError approval_id)"

subsection \<open>Constraints of the schema\<close>

definition run_exists :: "db \<Rightarrow> string \<Rightarrow> bool" where
  "run_exists d run_id \<longleftrightarrow> run_id \<in> set (map ru_run_id (runs d))"

definition row_active :: "attempt_row \<Rightarrow> bool" where
  "row_active r \<longleftrightarrow>
     ar_status r \<in> {OperationStatus.PREPARED, OperationStatus.RUNNING} \<or>
     ar_status r = OperationStatus.UNKNOWN \<and> ar_recovery_resolution r = Some UNRESOLVED"

text \<open>The partial unique index \<^verbatim>\<open>one_active_side_effect_attempt_per_run\<close> covers these rows.\<close>

definition row_active_effect :: "attempt_row \<Rightarrow> bool" where
  "row_active_effect r \<longleftrightarrow> ar_side_effecting r \<and> row_active r"

definition row_check :: "attempt_row \<Rightarrow> bool" where
  "row_check r \<longleftrightarrow>
     1 \<le> ar_attempt_no r \<and>
     (ar_status r = OperationStatus.FAILED \<and> ar_failure_kind r \<in> {Some TERMINAL, Some RETRYABLE} \<or>
      ar_status r = OperationStatus.UNKNOWN \<and> ar_failure_kind r = Some UNKNOWN_EFFECT
        \<and> ar_recovery_resolution r \<noteq> None \<or>
      ar_status r \<notin> {OperationStatus.FAILED, OperationStatus.UNKNOWN} \<and> ar_failure_kind r = None)"

definition finished_status :: "OperationStatus \<Rightarrow> bool" where
  "finished_status s \<longleftrightarrow>
     s \<in> {OperationStatus.COMPLETED, OperationStatus.FAILED, OperationStatus.SKIPPED,
          OperationStatus.ABANDONED}"

text \<open>The unique indexes over the other rows of \<^verbatim>\<open>operation_attempts\<close> that a written row must respect.\<close>

definition opt_clash :: "string option \<Rightarrow> string option \<Rightarrow> bool" where
  "opt_clash a b \<longleftrightarrow> a \<noteq> None \<and> a = b"

definition attempt_index_ok :: "attempt_row \<Rightarrow> attempt_row list \<Rightarrow> bool" where
  "attempt_index_ok r others \<longleftrightarrow>
     list_all (\<lambda>x.
       \<not> (ar_operation_id x = ar_operation_id r \<and> ar_attempt_no x = ar_attempt_no r) \<and>
       \<not> opt_clash (at_model_call_id (ar_document x)) (at_model_call_id (ar_document r)) \<and>
       \<not> opt_clash (at_external_request_id (ar_document x)) (at_external_request_id (ar_document r)) \<and>
       \<not> (row_active_effect x \<and> row_active_effect r \<and> ar_run_id x = ar_run_id r)) others"

subsection \<open>Writes\<close>

definition operation_row_of :: "OperationRecord \<Rightarrow> operation_row" where
  "operation_row_of op = \<lparr>
     or_operation_id = op_operation_id op, or_run_id = op_run_id op,
     or_parent_operation_id = op_parent_operation_id op, or_kind = op_kind op,
     or_status = op_status op, or_record = op, or_updated_at = op_updated_at op,
     or_stable_key = op_stable_key op, or_request_hash = op_request_hash op,
     or_side_effecting = op_side_effecting op\<rparr>"

definition merge_operation_row :: "operation_row \<Rightarrow> operation_row \<Rightarrow> operation_row" where
  "merge_operation_row x r =
     x\<lparr>or_status := or_status r, or_record := or_record r, or_updated_at := or_updated_at r\<rparr>"

definition save_operation :: "db \<Rightarrow> OperationRecord \<Rightarrow> db result" where
  "save_operation d op =
    (let r = operation_row_of op in
     if lookup_row or_operation_id (op_operation_id op) (operation_ledger d) = None
        \<and> (list_ex (\<lambda>x. or_run_id x = or_run_id r \<and> or_kind x = or_kind r
                       \<and> or_stable_key x = or_stable_key r) (operation_ledger d)
           \<or> \<not> run_exists d (op_run_id op))
     then Inl (IntegrityError ''operation_ledger'')
     else Inr (d\<lparr>operation_ledger :=
            upsert_row or_operation_id merge_operation_row r (operation_ledger d)\<rparr>))"

definition attempt_row_of :: "OperationAttempt \<Rightarrow> attempt_row" where
  "attempt_row_of a = \<lparr>
     ar_attempt_id = at_attempt_id a, ar_operation_id = at_operation_id a, ar_run_id = at_run_id a,
     ar_attempt_no = at_attempt_no a, ar_request_hash = at_request_hash a,
     ar_side_effecting = at_side_effecting a, ar_status = at_status a,
     ar_failure_kind = at_failure_kind a, ar_recovery_resolution = at_recovery_resolution a,
     ar_document = a, ar_updated_at = at_updated_at a\<rparr>"

definition merge_attempt_row :: "attempt_row \<Rightarrow> attempt_row \<Rightarrow> attempt_row" where
  "merge_attempt_row x r =
     x\<lparr>ar_status := ar_status r, ar_failure_kind := ar_failure_kind r,
       ar_recovery_resolution := ar_recovery_resolution r, ar_document := ar_document r,
       ar_updated_at := ar_updated_at r\<rparr>"

definition save_attempt :: "db \<Rightarrow> OperationAttempt \<Rightarrow> db result" where
  "save_attempt d a =
    (let r = attempt_row_of a;
         others = filter (\<lambda>x. ar_attempt_id x \<noteq> at_attempt_id a) (operation_attempts d)
     in if \<not> row_check r then Inl (IntegrityError ''operation_attempts check'')
        else case lookup_row ar_attempt_id (at_attempt_id a) (operation_attempts d) of
          None \<Rightarrow>
            if \<not> attempt_index_ok r others then Inl (IntegrityError ''operation_attempts unique'')
            else if lookup_row or_operation_id (at_operation_id a) (operation_ledger d) = None
                    \<or> \<not> run_exists d (at_run_id a)
            then Inl (IntegrityError ''operation_attempts foreign key'')
            else Inr (d\<lparr>operation_attempts := operation_attempts d @ [r]\<rparr>)
        | Some x \<Rightarrow>
            let m = merge_attempt_row x r in
            if finished_status (ar_status x) \<and> ar_status m \<noteq> ar_status x
            then Inl (IntegrityError ''finished OperationAttempt is immutable'')
            else if \<not> attempt_index_ok m others
            then Inl (IntegrityError ''operation_attempts unique'')
            else Inr (d\<lparr>operation_attempts :=
                   upsert_row ar_attempt_id merge_attempt_row r (operation_attempts d)\<rparr>))"

definition approval_row_of :: "DurableApproval \<Rightarrow> timestamp \<Rightarrow> approval_row" where
  "approval_row_of ap ts = \<lparr>
     dr_approval_id = ap_approval_id ap, dr_run_id = ap_run_id ap,
     dr_operation_id = ap_operation_id ap, dr_status = ap_status ap, dr_document = ap,
     dr_expires_at = ap_expires_at ap, dr_updated_at = ts, dr_attempt_id = ap_attempt_id ap\<rparr>"

definition merge_approval_row :: "approval_row \<Rightarrow> approval_row \<Rightarrow> approval_row" where
  "merge_approval_row x r =
     x\<lparr>dr_status := dr_status r, dr_document := dr_document r, dr_updated_at := dr_updated_at r\<rparr>"

definition approval_references_ok :: "db \<Rightarrow> DurableApproval \<Rightarrow> bool" where
  "approval_references_ok d ap \<longleftrightarrow>
     run_exists d (ap_run_id ap) \<and>
     lookup_row or_operation_id (ap_operation_id ap) (operation_ledger d) \<noteq> None \<and>
     lookup_row ar_attempt_id (ap_attempt_id ap) (operation_attempts d) \<noteq> None"

definition insert_approval :: "db \<Rightarrow> DurableApproval \<Rightarrow> timestamp \<Rightarrow> db result" where
  "insert_approval d ap ts =
    (if lookup_row dr_approval_id (ap_approval_id ap) (durable_approvals d) \<noteq> None
        \<or> lookup_row dr_attempt_id (ap_attempt_id ap) (durable_approvals d) \<noteq> None
        \<or> \<not> approval_references_ok d ap
     then Inl (IntegrityError ''durable_approvals'')
     else Inr (d\<lparr>durable_approvals := durable_approvals d @ [approval_row_of ap ts]\<rparr>))"

definition save_approval :: "db \<Rightarrow> DurableApproval \<Rightarrow> db result" where
  "save_approval d ap =
    (let ts = (case ap_decided_at ap of Some t \<Rightarrow> t | None \<Rightarrow> ap_created_at ap);
         r = approval_row_of ap ts in
     if lookup_row dr_approval_id (ap_approval_id ap) (durable_approvals d) = None
        \<and> (lookup_row dr_attempt_id (ap_attempt_id ap) (durable_approvals d) \<noteq> None
           \<or> \<not> approval_references_ok d ap)
     then Inl (IntegrityError ''durable_approvals'')
     else Inr (d\<lparr>durable_approvals :=
            upsert_row dr_approval_id merge_approval_row r (durable_approvals d)\<rparr>))"

definition insert_finalize_generation :: "db \<Rightarrow> FinalizeGenerationRecord \<Rightarrow> db result" where
  "insert_finalize_generation d g =
    (if list_ex (\<lambda>x. fg_run_id x = fg_run_id g \<and> fg_generation x = fg_generation g)
          (finalize_generations d)
        \<or> \<not> run_exists d (fg_run_id g)
     then Inl (IntegrityError ''finalize_generations'')
     else Inr (d\<lparr>finalize_generations := finalize_generations d @ [g]\<rparr>))"

text \<open>
  The state row: an insert at creation, then compare-and-set on the revision. The trigger
  \<^verbatim>\<open>normal_terminal_requires_finalizing\<close> guards the update.
\<close>

definition insert_state :: "db \<Rightarrow> AgentState \<Rightarrow> db result" where
  "insert_state d st =
    (if lookup_row sr_run_id (st_run_id st) (agent_states d) \<noteq> None
     then Inl (IntegrityError ''agent_states'')
     else Inr (d\<lparr>agent_states :=
            agent_states d @ [\<lparr>sr_state = st, sr_snapshot_sequence = 0\<rparr>]\<rparr>))"

definition cas_state :: "db \<Rightarrow> AgentState \<Rightarrow> nat \<Rightarrow> db result" where
  "cas_state d st previous_revision =
    (case lookup_row sr_run_id (st_run_id st) (agent_states d) of
       None \<Rightarrow> Inl (StateConflictError ''State CAS update failed'')
     | Some r \<Rightarrow>
         if st_revision (sr_state r) \<noteq> previous_revision
         then Inl (StateConflictError ''State CAS update failed'')
         else if normal_terminal (st_task_state st)
                 \<and> st_task_state st \<noteq> st_task_state (sr_state r)
                 \<and> st_task_state (sr_state r) \<noteq> TaskState.FINALIZING
         then Inl (IntegrityError ''normal terminal state requires FINALIZING'')
         else Inr (d\<lparr>agent_states :=
                update_rows (\<lambda>x. sr_run_id x = st_run_id st) (\<lambda>x. x\<lparr>sr_state := st\<rparr>)
                  (agent_states d)\<rparr>))"

definition project_run :: "AgentState \<Rightarrow> run_row \<Rightarrow> run_row" where
  "project_run st r = r\<lparr>
     ru_status := projected_run_status st, ru_session_id := st_session_id st,
     ru_started_at := st_started_at st, ru_finished_at := st_finished_at st,
     ru_answer := (if st_task_state st = TaskState.SUCCEEDED then st_result_summary st else None),
     ru_error := st_error st, ru_task_state := Some (task_state_value (st_task_state st)),
     ru_execution_state := map_option (execution_state_value \<circ> es_state) (st_execution st),
     ru_execution_outcome :=
       map_option execution_outcome_value (Option.bind (st_execution st) es_outcome),
     ru_finish_reason := Option.bind (st_execution st) es_finish_reason,
     ru_state_revision := st_revision st, ru_recovery_required := recovery_required st,
     ru_terminal_target := map_option terminal_target_value (st_terminal_target st),
     ru_workload_kind := workload_kind_value (st_workload_kind st)\<rparr>"

definition update_run_projection :: "db \<Rightarrow> AgentState \<Rightarrow> db" where
  "update_run_projection d st =
     d\<lparr>runs := update_rows (\<lambda>r. ru_run_id r = st_run_id st) (project_run st) (runs d)\<rparr>"

interpretation operations: row_table or_operation_id merge_operation_row
  by unfold_locales (simp add: merge_operation_row_def)

interpretation attempts: row_table ar_attempt_id merge_attempt_row
  by unfold_locales (simp add: merge_attempt_row_def)

interpretation approvals: row_table dr_approval_id merge_approval_row
  by unfold_locales (simp add: merge_approval_row_def)

end
