(* ===== verification/Event_Log.thy ===== *)
theory Event_Log
  imports Control_Store
begin

section \<open>The canonical event log and its outbox\<close>

text \<open>
  \<^verbatim>\<open>_write_event\<close> of \<^verbatim>\<open>gateway/state_controller.py\<close>: each committed command appends one event to the
  stream of its run, with the next sequence number, a sanitized payload, content hashes and a
  deterministic identity, and enqueues one delivery per enabled sink under a policy snapshot. The locale
  \<open>append_log\<close> is what readers of a stream rely on; it is interpreted on \<open>write_event\<close>.
\<close>

subsection \<open>Definitions\<close>

definition newline :: string where
  "newline = [CHR 0x0A]"

definition event_json :: "env \<Rightarrow> AgentState \<Rightarrow> event_row \<Rightarrow> json" where
  "event_json E st e = JObj [
     (''version'', JInt 2), (''event_id'', JStr (ev_event_id e)),
     (''sequence'', JInt (int (ev_stream_sequence e))),
     (''timestamp'', JStr (iso E (ev_occurred_at e))), (''project_id'', JStr (st_project_id st)),
     (''session_id'', opt_str (st_session_id st)), (''run_id'', JStr (st_run_id st)),
     (''type'', JStr (ev_event_type e)), (''payload'', JObj (ev_payload e)),
     (''command_id'', JStr (ev_command_id e)), (''event_key'', JStr (ev_event_key e)),
     (''stream_id'', JStr (ev_stream_id e)),
     (''stream_sequence'', JInt (int (ev_stream_sequence e))),
     (''event_type'', JStr (ev_event_type e)), (''schema_version'', JInt 1),
     (''causation_id'', opt_str (ev_causation_id e)),
     (''correlation_id'', JStr (ev_correlation_id e)),
     (''payload_hash'', JStr (ev_payload_hash e))]"

definition next_sequence :: "db \<Rightarrow> string \<Rightarrow> nat" where
  "next_sequence d run_id =
     (case lookup_row fst run_id (event_sequences d) of None \<Rightarrow> 1 | Some (_, n) \<Rightarrow> n + 1)"

definition parent_correlation :: "db \<Rightarrow> string \<Rightarrow> string" where
  "parent_correlation d parent =
     (case sort_key ev_stream_sequence (filter (\<lambda>e. ev_stream_id e = parent) (gateway_events d)) of
        [] \<Rightarrow> parent
      | e # _ \<Rightarrow> if ev_correlation_id e \<noteq> [] then ev_correlation_id e else parent)"

definition select_correlation :: "db \<Rightarrow> AgentState \<Rightarrow> string option \<Rightarrow> string" where
  "select_correlation d st correlation =
     (let c = (case correlation of
                 Some c \<Rightarrow> c
               | None \<Rightarrow> if truthy (st_parent_run_id st)
                         then parent_correlation d (the (st_parent_run_id st)) else [])
      in if c \<noteq> [] then c else st_run_id st)"

definition event_of ::
  "env \<Rightarrow> db \<Rightarrow> AgentState \<Rightarrow> string \<Rightarrow> dict \<Rightarrow> string option \<Rightarrow> string \<Rightarrow> string option
     \<Rightarrow> string option \<Rightarrow> timestamp \<Rightarrow> event_row" where
  "event_of E d st event_type payload command_id event_key causation correlation now =
    (let clean = sanitize_dict payload;
         text = canonical_json (JObj clean);
         cid = (if truthy command_id then the command_id
                else sha256 E (''domain-event:v2'' @ newline @ st_run_id st @ newline @ event_type
                       @ newline @ text));
         e = \<lparr>ev_event_id = sha256 E (''gateway-event:v2'' @ newline @ cid @ newline @ event_key
                 @ newline @ st_run_id st),
              ev_command_id = cid, ev_event_key = event_key, ev_stream_id = st_run_id st,
              ev_stream_sequence = next_sequence d (st_run_id st), ev_event_type = event_type,
              ev_envelope_version = 2, ev_occurred_at = now, ev_row_run_id = st_run_id st,
              ev_session_id = st_session_id st, ev_causation_id = causation,
              ev_correlation_id = select_correlation d st correlation, ev_payload = clean,
              ev_payload_hash = sha256 E text, ev_canonical_event_json = None,
              ev_canonical_hash = [], ev_storage_tier = Hot, ev_archive_id = None,
              ev_row_revision = 0\<rparr>;
         canonical = canonical_json (event_json E st e)
     in e\<lparr>ev_canonical_event_json := Some canonical, ev_canonical_hash := sha256 E canonical\<rparr>)"

definition delivery_of :: "env \<Rightarrow> string \<Rightarrow> event_row \<Rightarrow> sink_row \<Rightarrow> delivery_row" where
  "delivery_of E outbox_id e s = \<lparr>
     dl_delivery_id = sha256 E (''event-delivery:v2:'' @ ev_event_id e @ '':'' @ sk_sink_id s),
     dl_outbox_id = outbox_id, dl_event_id = ev_event_id e, dl_sink_id = sk_sink_id s,
     dl_required = sk_required_by_default s, dl_sink_config_version = sk_config_version s,
     dl_sink_config_hash = sk_config_hash s, dl_status = Pending, dl_attempt_count = 0,
     dl_next_retry_at = None, dl_last_error_type = None, dl_last_error = None, dl_delivered_at = None,
     dl_dead_lettered_at = None, dl_revision = 0\<rparr>"

definition enabled_sinks :: "db \<Rightarrow> sink_row list" where
  "enabled_sinks d = sort_key sk_sink_id (filter sk_enabled (event_sinks d))"

definition event_index_ok :: "db \<Rightarrow> event_row \<Rightarrow> bool" where
  "event_index_ok d e \<longleftrightarrow>
     list_all (\<lambda>x.
       ev_event_id x \<noteq> ev_event_id e \<and>
       \<not> (ev_stream_id x = ev_stream_id e \<and> ev_stream_sequence x = ev_stream_sequence e) \<and>
       \<not> (ev_command_id x = ev_command_id e \<and> ev_event_key x = ev_event_key e)) (gateway_events d)"

definition outbox_index_ok :: "db \<Rightarrow> string \<Rightarrow> event_row \<Rightarrow> delivery_row list \<Rightarrow> bool" where
  "outbox_index_ok d outbox_id e ds \<longleftrightarrow>
     list_all (\<lambda>x. ob_outbox_id x \<noteq> outbox_id \<and> ob_event_id x \<noteq> ev_event_id e) (event_outbox d) \<and>
     distinct (map dl_delivery_id ds) \<and>
     list_all (\<lambda>x. dl_delivery_id x \<notin> set (map dl_delivery_id ds)) (event_deliveries d)"

definition write_event ::
  "env \<Rightarrow> db \<Rightarrow> AgentState \<Rightarrow> string \<Rightarrow> dict \<Rightarrow> string option \<Rightarrow> string \<Rightarrow> string option
     \<Rightarrow> string option \<Rightarrow> timestamp \<Rightarrow> (db \<times> event_row) result" where
  "write_event E d st event_type payload command_id event_key causation correlation now =
    (let e = event_of E d st event_type payload command_id event_key causation correlation now;
         outbox_id = sha256 E (''event-outbox:v2:'' @ ev_event_id e);
         ds = map (delivery_of E outbox_id e) (enabled_sinks d);
         done = \<not> list_ex dl_required ds
     in if \<not> event_index_ok d e then Inl (IntegrityError ''gateway_events'')
        else if \<not> outbox_index_ok d outbox_id e ds then Inl (IntegrityError ''event_outbox'')
        else Inr (d\<lparr>
          event_sequences := upsert_row fst replace_row (st_run_id st, ev_stream_sequence e)
            (event_sequences d),
          gateway_events := gateway_events d @ [e],
          event_outbox := event_outbox d @ [\<lparr>ob_outbox_id = outbox_id, ob_event_id = ev_event_id e,
            ob_created = now, ob_completed_at = (if done then Some now else None),
            ob_outbox_revision = (if done then 1 else 0)\<rparr>],
          event_deliveries := event_deliveries d @ ds,
          agent_states := update_rows (\<lambda>x. sr_run_id x = st_run_id st)
            (\<lambda>x. x\<lparr>sr_snapshot_sequence := ev_stream_sequence e\<rparr>) (agent_states d)\<rparr>, e))"

subsection \<open>The contract of an append-only log\<close>

text \<open>A stream is gapless when its sequence numbers are \<open>1, 2, \<dots>, n\<close> for its counter \<open>n\<close>.\<close>

definition gapless :: "('e \<Rightarrow> nat) \<Rightarrow> 'e list \<Rightarrow> nat \<Rightarrow> bool" where
  "gapless no es n \<longleftrightarrow> map no es = [1..<n + 1]"

lemma gapless_length: "gapless no es n \<Longrightarrow> length es = n"
  by (metis gapless_def length_map length_upt diff_add_inverse2)

lemma gapless_distinct: "gapless no es n \<Longrightarrow> distinct (map no es)"
  by (simp add: gapless_def del: upt_Suc)

lemma gapless_nth: "gapless no es n \<Longrightarrow> i < n \<Longrightarrow> no (es ! i) = i + 1"
proof -
  assume g: "gapless no es n" and i: "i < n"
  have "no (es ! i) = map no es ! i" using gapless_length [OF g] i by simp
  also have "\<dots> = [1..<n + 1] ! i" using g by (simp only: gapless_def)
  finally show ?thesis using i by (simp del: upt_Suc)
qed

locale append_log =
  fixes append :: "'d \<Rightarrow> 'a \<Rightarrow> ('d \<times> 'e) result"
    and stream :: "'d \<Rightarrow> 's \<Rightarrow> 'e list"
    and counter :: "'d \<Rightarrow> 's \<Rightarrow> nat"
    and stream_of :: "'e \<Rightarrow> 's" and no :: "'e \<Rightarrow> nat"
  assumes append_stream: "append d a = Inr (d', e) \<Longrightarrow>
      stream d' s = (if s = stream_of e then stream d s @ [e] else stream d s)"
    and append_no: "append d a = Inr (d', e) \<Longrightarrow> no e = counter d (stream_of e) + 1"
    and append_counter: "append d a = Inr (d', e) \<Longrightarrow>
      counter d' s = (if s = stream_of e then no e else counter d s)"
begin

lemma stream_grows: "append d a = Inr (d', e) \<Longrightarrow> \<exists>suffix. stream d' s = stream d s @ suffix"
  using append_stream by auto

lemma stays_gapless:
  assumes "append d a = Inr (d', e)" "gapless no (stream d s) (counter d s)"
  shows "gapless no (stream d' s) (counter d' s)"
  using assms(2) append_stream [OF assms(1), of s] append_no [OF assms(1)]
    append_counter [OF assms(1), of s]
  by (auto simp: gapless_def)

lemma appended_last: "append d a = Inr (d', e) \<Longrightarrow> last (stream d' (stream_of e)) = e"
  using append_stream by auto

end

definition events_of :: "db \<Rightarrow> string \<Rightarrow> event_row list" where
  "events_of d run_id = filter (\<lambda>e. ev_stream_id e = run_id) (gateway_events d)"

definition last_sequence :: "db \<Rightarrow> string \<Rightarrow> nat" where
  "last_sequence d run_id =
     (case lookup_row fst run_id (event_sequences d) of None \<Rightarrow> 0 | Some (_, n) \<Rightarrow> n)"

lemma next_sequence_last: "next_sequence d run_id = last_sequence d run_id + 1"
  by (simp add: next_sequence_def last_sequence_def split: option.splits)

interpretation sequences: row_table fst "replace_row :: string \<times> nat \<Rightarrow> string \<times> nat \<Rightarrow> string \<times> nat"
  by unfold_locales (simp add: replace_row_def)

lemma last_sequence_upsert:
  assumes "event_sequences d' = upsert_row fst replace_row (i, n) (event_sequences d)"
  shows "last_sequence d' j = (if j = i then n else last_sequence d j)"
proof (cases "j = i")
  case True
  then show ?thesis
    using sequences.lookup_upsert_same [of "(i, n)" "event_sequences d"]
    by (auto simp: last_sequence_def assms replace_row_def split: option.splits)
next
  case False
  then show ?thesis
    using sequences.lookup_upsert_other [of j "(i, n)" "event_sequences d"]
    by (simp add: last_sequence_def assms)
qed

lemma event_of_columns [row_simps]:
  "ev_stream_id (event_of E d st t p cid key cause corr now) = st_run_id st"
  "ev_stream_sequence (event_of E d st t p cid key cause corr now) = next_sequence d (st_run_id st)"
  "ev_event_type (event_of E d st t p cid key cause corr now) = t"
  "ev_payload (event_of E d st t p cid key cause corr now) = sanitize_dict p"
  "ev_event_key (event_of E d st t p cid key cause corr now) = key"
  "ev_causation_id (event_of E d st t p cid key cause corr now) = cause"
  "ev_occurred_at (event_of E d st t p cid key cause corr now) = now"
  "cid = Some (c # cs) \<Longrightarrow> ev_command_id (event_of E d st t p cid key cause corr now) = c # cs"
  by (simp_all add: event_of_def Let_def)

text \<open>What a successful \<open>write_event\<close> leaves in every table.\<close>

lemma write_event_Inr:
  assumes "write_event E d st t p cid key cause corr now = Inr (d', e)"
  shows "e = event_of E d st t p cid key cause corr now"
    and "gateway_events d' = gateway_events d @ [e]"
    and "event_sequences d' =
      upsert_row fst replace_row (st_run_id st, next_sequence d (st_run_id st)) (event_sequences d)"
    and "map sr_state (agent_states d') = map sr_state (agent_states d)"
    and "processed_commands d' = processed_commands d" and "runs d' = runs d"
    and "operation_ledger d' = operation_ledger d"
    and "operation_attempts d' = operation_attempts d"
    and "durable_approvals d' = durable_approvals d"
    and "state_transitions d' = state_transitions d"
    and "idempotency_records d' = idempotency_records d"
    and "event_index_ok d e"
proof -
  note w = assms [unfolded write_event_def Let_def]
  show "e = event_of E d st t p cid key cause corr now"
    "gateway_events d' = gateway_events d @ [e]"
    "event_sequences d' =
      upsert_row fst replace_row (st_run_id st, next_sequence d (st_run_id st)) (event_sequences d)"
    "processed_commands d' = processed_commands d" "runs d' = runs d"
    "operation_ledger d' = operation_ledger d" "operation_attempts d' = operation_attempts d"
    "durable_approvals d' = durable_approvals d" "state_transitions d' = state_transitions d"
    "idempotency_records d' = idempotency_records d" "event_index_ok d e"
    using w by (auto simp: event_of_columns split: if_splits)
  show "map sr_state (agent_states d') = map sr_state (agent_states d)"
    using w by (auto simp: update_rows_def split: if_splits)
qed

interpretation events: append_log
  "\<lambda>d (E, st, t, p, cid, key, cause, corr, now). write_event E d st t p cid key cause corr now"
  events_of last_sequence ev_stream_id ev_stream_sequence
proof unfold_locales
  fix d d' :: db and e :: event_row and s :: string
    and a :: "env \<times> AgentState \<times> string \<times> dict \<times> string option \<times> string \<times> string option
       \<times> string option \<times> timestamp"
  assume *: "(case a of (E, st, t, p, cid, key, cause, corr, now) \<Rightarrow>
               write_event E d st t p cid key cause corr now) = Inr (d', e)"
  obtain E st t p cid key cause corr now where a: "a = (E, st, t, p, cid, key, cause, corr, now)"
    by (cases a) (metis surj_pair)
  note w = write_event_Inr [OF * [unfolded a prod.case]]
  show "events_of d' s = (if s = ev_stream_id e then events_of d s @ [e] else events_of d s)"
    by (auto simp: events_of_def w(2))
  show no: "ev_stream_sequence e = last_sequence d (ev_stream_id e) + 1"
    by (simp add: w(1) event_of_columns next_sequence_last)
  show "last_sequence d' s = (if s = ev_stream_id e then ev_stream_sequence e else last_sequence d s)"
    using last_sequence_upsert [OF w(3), of s] by (simp add: w(1) event_of_columns)
qed

end
