(* ===== verification/Operation_Control.thy ===== *)
theory Operation_Control
  imports Event_Log Lifecycle
begin

section \<open>Transitions, operations and recovery\<close>

text \<open>
  The private operations of \<open>StateController\<close> that \<^verbatim>\<open>apply\<close> composes: \<^verbatim>\<open>_apply_transition\<close>,
  \<^verbatim>\<open>_begin_operation\<close>, \<^verbatim>\<open>_create_operation_with_attempt\<close>, \<^verbatim>\<open>_begin_operation_attempt\<close>,
  \<^verbatim>\<open>_update_attempt\<close>, \<^verbatim>\<open>_reconcile_attempt\<close>, \<^verbatim>\<open>_aggregate_operation\<close> and \<^verbatim>\<open>_apply_recovery\<close>.
  An operation that writes returns the new database; one that only computes rows returns them. The
  dictionary of attempt updates becomes a function on the attempt. \<open>call\<close> holds what a call draws from
  the clock and from \<^verbatim>\<open>uuid4\<close>.
\<close>

record call =
  cx_now :: timestamp
  cx_event_now :: timestamp
  cx_attempt_uuid :: string
  cx_call_uuid :: string

subsection \<open>State transitions\<close>

definition expected_terminal :: "ExecutionOutcome option \<Rightarrow> TaskState option" where
  "expected_terminal outcome =
     (case outcome of
        Some ExecutionOutcome.SUCCESS \<Rightarrow> Some TaskState.SUCCEEDED
      | Some ExecutionOutcome.ERROR \<Rightarrow> Some TaskState.FAILED
      | Some ExecutionOutcome.EXHAUSTED \<Rightarrow> Some TaskState.FAILED
      | Some ExecutionOutcome.CANCELLED \<Rightarrow> Some TaskState.CANCELLED
      | None \<Rightarrow> None)"

definition validate_terminal_mapping :: "AgentState \<Rightarrow> unit result" where
  "validate_terminal_mapping st =
     (if \<not> normal_terminal (st_task_state st) then Inr ()
      else case st_execution st of
             None \<Rightarrow> Inr ()
           | Some e \<Rightarrow>
               if expected_terminal (es_outcome e) \<noteq> Some (st_task_state st)
               then Inl (StateInvariantError ''FINISHED outcome does not project to the terminal state'')
               else Inr ())"

definition transition_task :: "AgentState \<Rightarrow> TransitionCommand \<Rightarrow> timestamp \<Rightarrow> AgentState result" where
  "transition_task st c ts =
    (case tc_task_state c of
       None \<Rightarrow> Inr st
     | Some t \<Rightarrow>
         rbind (validate_outer_transition (st_task_state st) t) (\<lambda>_.
         let s1 = st\<lparr>st_task_state := t,
                     st_started_at := (if t = TaskState.RUNNING \<and> st_started_at st = None
                                       then Some ts else st_started_at st)\<rparr>;
             target = (case tc_terminal_target c of Some x \<Rightarrow> Some x | None \<Rightarrow> st_terminal_target st)
         in if t = TaskState.FINALIZING \<and> target = None
            then Inl (StateInvariantError ''FINALIZING requires terminal_target'')
            else Inr (s1\<lparr>
              st_terminal_target := (if t = TaskState.FINALIZING \<or> tc_terminal_target c \<noteq> None
                                     then target else st_terminal_target st),
              st_finished_at := (if t \<in> {TaskState.SUCCEEDED, TaskState.FAILED, TaskState.CANCELLED,
                                         TaskState.INTERRUPTED}
                                 then Some ts else st_finished_at st)\<rparr>)))"

definition transition_execution ::
  "AgentState \<Rightarrow> AgentState \<Rightarrow> TransitionCommand \<Rightarrow> timestamp \<Rightarrow> AgentState result" where
  "transition_execution before st c ts =
    (case tc_execution_state c of
       None \<Rightarrow> Inr st
     | Some x \<Rightarrow>
         rbind (case st_execution before of
                  None \<Rightarrow> if x \<noteq> THINKING
                          then Inl (StateInvariantError ''inner FSM starts at THINKING'') else Inr ()
                | Some e \<Rightarrow> validate_inner_transition (es_state e) x) (\<lambda>_.
         let e' = \<lparr>es_state = x, es_outcome = tc_outcome c, es_finish_reason = tc_finish_reason c,
                   es_entered_at = ts\<rparr>
         in if \<not> validate_finished e' then Inl (ValueError ''ExecutionSnapshot'')
            else Inr (st\<lparr>st_execution := Some e'\<rparr>)))"

definition apply_transition :: "AgentState \<Rightarrow> TransitionCommand \<Rightarrow> timestamp \<Rightarrow> AgentState result" where
  "apply_transition st c ts =
     rbind (transition_task st c ts) (\<lambda>s1.
     rbind (transition_execution st s1 c ts) (\<lambda>s2.
     let s3 = s2\<lparr>
       st_error := (case tc_error c of None \<Rightarrow> st_error st | Some e \<Rightarrow> Some (sanitize_text e)),
       st_result_summary := (case tc_result_summary c of None \<Rightarrow> st_result_summary st | Some r \<Rightarrow> Some r),
       st_last_progress_at := ts\<rparr> in
     rbind (validate_terminal_mapping s3) (\<lambda>_. Inr s3)))"

subsection \<open>Operations and attempts\<close>

definition aggregate_operation ::
  "OperationRecord \<Rightarrow> OperationAttempt list \<Rightarrow> timestamp \<Rightarrow> OperationRecord result" where
  "aggregate_operation op as ts =
     rbind (reduce_operation (immutable_metadata op) as (op_retry_policy_snapshot op)) (\<lambda>g.
     Inr (op\<lparr>
       op_status := ag_status g, op_failure_kind := ag_failure_kind g,
       op_failure_reason := ag_failure_reason g, op_latest_attempt_no := ag_latest_attempt_no g,
       op_next_retry_at := ag_next_retry_at g, op_result := ag_result g,
       op_result_hash := ag_result_hash g, op_result_source := ag_result_source g,
       op_attempt := ag_latest_attempt_no g, op_started_at := at_started_at (last as),
       op_heartbeat_at := at_heartbeat_at (last as),
       op_heartbeat_expires_at := at_heartbeat_expires_at (last as),
       op_completed_at := at_completed_at (last as), op_error := ag_failure_reason g,
       op_unknown_reason := (if ag_status g = OperationStatus.UNKNOWN
                             then ag_failure_reason g else None),
       op_updated_at := ts\<rparr>))"

definition new_attempt ::
  "string \<Rightarrow> string \<Rightarrow> string \<Rightarrow> nat \<Rightarrow> string \<Rightarrow> bool \<Rightarrow> timestamp \<Rightarrow> OperationAttempt" where
  "new_attempt attempt_id operation_id run_id no hash effect ts = \<lparr>
     at_attempt_id = attempt_id, at_operation_id = operation_id, at_run_id = run_id,
     at_attempt_no = no, at_request_hash = hash, at_side_effecting = effect,
     at_status = OperationStatus.PREPARED, at_failure_kind = None, at_failure_reason = None,
     at_recovery_resolution = None, at_result = None, at_result_hash = None,
     at_result_source = None, at_skip_reason = None, at_abandonment_reason = None,
     at_started_at = None, at_heartbeat_at = None, at_heartbeat_expires_at = None,
     at_completed_at = None, at_model_call_id = None, at_external_request_id = None,
     at_reconcile_status = None, at_reconcile_evidence = None, at_risk_confirmed_by = None,
     at_risk_confirmation_reason = None, at_created_at = ts, at_updated_at = ts\<rparr>"

definition no_retry_policy :: RetryPolicySnapshot where
  "no_retry_policy = \<lparr>rp_max_attempts = 1, rp_base_seconds = 0, rp_max_seconds = 0,
     rp_automatic = False, rp_requires_reconcile = False, rp_requires_human_confirmation = False\<rparr>"

text \<open>A freshly constructed \<open>OperationRecord\<close>: the given identity, every other field at its default.\<close>

definition new_operation ::
  "string \<Rightarrow> string \<Rightarrow> OperationKind \<Rightarrow> string \<Rightarrow> string \<Rightarrow> string \<Rightarrow> ToolIdempotency \<Rightarrow> bool
     \<Rightarrow> RetryPolicySnapshot \<Rightarrow> timestamp \<Rightarrow> OperationRecord" where
  "new_operation operation_id run_id kind name stable_key hash idem effect policy ts = \<lparr>
     op_operation_id = operation_id, op_parent_operation_id = None, op_run_id = run_id,
     op_turn_id = None, op_kind = kind, op_name = name, op_stable_key = stable_key,
     op_request_hash = hash, op_idempotency = idem, op_side_effecting = effect,
     op_logical_model_call_id = None, op_source_model_call_id = None, op_tool_call_id = None,
     op_tool_batch_id = None, op_tool_call_position = None, op_external_idempotency_key = None,
     op_retry_policy_snapshot = policy, op_status = OperationStatus.PREPARED,
     op_failure_kind = None, op_failure_reason = None, op_latest_attempt_no = 1,
     op_next_retry_at = None, op_result = None, op_result_hash = None, op_result_source = None,
     op_unknown_reason = None, op_reconcile_status = None, op_reconcile_evidence = None,
     op_checkpoint_id = None, op_attempt = 0, op_started_at = None, op_heartbeat_at = None,
     op_heartbeat_expires_at = None, op_completed_at = None, op_error = None,
     op_created_at = ts, op_updated_at = ts\<rparr>"

definition begin_operation ::
  "db \<Rightarrow> AgentState \<Rightarrow> BeginOperationCommand \<Rightarrow> timestamp \<Rightarrow> (db \<times> OperationRecord) result" where
  "begin_operation d st c ts =
    (case lookup_row or_operation_id (bo_operation_id c) (operation_ledger d) of
       Some row \<Rightarrow>
         let existing = or_record row in
         if op_run_id existing \<noteq> st_run_id st \<or> op_request_hash existing \<noteq> bo_request_hash c
         then Inl (StateConflictError ''operation_id already used for another operation'')
         else Inr (d, existing)
     | None \<Rightarrow>
         let effect = (bo_kind c = TOOL \<and> bo_idempotency c \<noteq> PURE) in
         if effect \<and> list_ex (\<lambda>r. or_run_id r = st_run_id st \<and> or_kind r = TOOL
              \<and> or_status r \<in> {OperationStatus.PREPARED, OperationStatus.RUNNING,
                               OperationStatus.UNKNOWN}) (operation_ledger d)
         then Inl (StateInvariantError ''one active side-effect operation per run'')
         else
           let op = (new_operation (bo_operation_id c) (st_run_id st) (bo_kind c) (bo_name c)
                  (''legacy:'' @ bo_operation_id c) (bo_request_hash c) (bo_idempotency c) effect
                  no_retry_policy ts)\<lparr>op_parent_operation_id := bo_parent_operation_id c,
                    op_turn_id := bo_turn_id c\<rparr>;
               a = new_attempt (''attempt:'' @ bo_operation_id c @ '':1'') (bo_operation_id c)
                     (st_run_id st) 1 (bo_request_hash c) effect ts
           in rbind (save_operation d op) (\<lambda>d1. rbind (save_attempt d1 a) (\<lambda>d2. Inr (d2, op))))"

definition same_immutable_metadata ::
  "OperationRecord \<Rightarrow> CreateOperationWithAttemptCommand \<Rightarrow> bool" where
  "same_immutable_metadata op c \<longleftrightarrow>
     op_request_hash op = co_request_hash c \<and> op_name op = co_name c \<and>
     op_side_effecting op = co_side_effecting c \<and> op_idempotency op = co_idempotency c \<and>
     op_parent_operation_id op = co_parent_operation_id c \<and>
     op_logical_model_call_id op = co_logical_model_call_id c \<and>
     op_source_model_call_id op = co_source_model_call_id c \<and>
     op_tool_call_id op = co_tool_call_id c \<and> op_tool_batch_id op = co_tool_batch_id c \<and>
     op_tool_call_position op = co_tool_call_position c \<and>
     op_retry_policy_snapshot op = co_retry_policy_snapshot c \<and>
     op_external_idempotency_key op = co_external_idempotency_key c"

definition create_operation_with_attempt ::
  "db \<Rightarrow> AgentState \<Rightarrow> CreateOperationWithAttemptCommand \<Rightarrow> timestamp
     \<Rightarrow> (OperationRecord \<times> OperationAttempt) result" where
  "create_operation_with_attempt d st c ts =
    (case find (\<lambda>r. or_run_id r = st_run_id st \<and> or_kind r = co_kind c
                  \<and> or_stable_key r = co_stable_key c) (operation_ledger d) of
       Some row \<Rightarrow>
         let op = or_record row in
         if \<not> same_immutable_metadata op c
         then Inl (StateConflictError ''stable_key cannot redefine immutable metadata'')
         else rbind (current_attempt_in d (op_operation_id op)) (\<lambda>a. Inr (op, a))
     | None \<Rightarrow>
         let op = (new_operation (co_operation_id c) (st_run_id st) (co_kind c) (co_name c)
                (co_stable_key c) (co_request_hash c) (co_idempotency c) (co_side_effecting c)
                (co_retry_policy_snapshot c) ts)\<lparr>
                  op_parent_operation_id := co_parent_operation_id c, op_turn_id := co_turn_id c,
                  op_logical_model_call_id := co_logical_model_call_id c,
                  op_source_model_call_id := co_source_model_call_id c,
                  op_tool_call_id := co_tool_call_id c, op_tool_batch_id := co_tool_batch_id c,
                  op_tool_call_position := co_tool_call_position c,
                  op_external_idempotency_key := co_external_idempotency_key c\<rparr>;
             a = (new_attempt (co_attempt_id c) (co_operation_id c) (st_run_id st) 1
                   (co_request_hash c) (co_side_effecting c) ts)\<lparr>
                  at_model_call_id := co_model_call_id c,
                  at_external_request_id := co_external_request_id c\<rparr>
         in rbind (aggregate_operation op [a] ts) (\<lambda>op'. Inr (op', a)))"

definition begin_operation_attempt ::
  "db \<Rightarrow> AgentState \<Rightarrow> BeginOperationAttemptCommand \<Rightarrow> timestamp
     \<Rightarrow> (OperationRecord \<times> OperationAttempt) result" where
  "begin_operation_attempt d st c ts =
    rbind (operation_in d (ba_operation_id c)) (\<lambda>op.
    rbind (attempts_in d (op_operation_id op)) (\<lambda>as.
    let latest = last as in
    if op_run_id op \<noteq> st_run_id st \<or> op_request_hash op \<noteq> ba_request_hash c
    then Inl (StateConflictError ''attempt request_hash differs from the operation'')
    else if at_attempt_no latest \<noteq> ba_expected_latest_attempt_no c
    then Inl (StateConflictError ''latest attempt CAS conflict'')
    else if op_status op \<in> {OperationStatus.COMPLETED, OperationStatus.SKIPPED}
    then Inl (StateInvariantError ''determined operation cannot start an attempt'')
    else if op_status op = OperationStatus.FAILED \<and> op_failure_kind op = Some TERMINAL
    then Inl (StateInvariantError ''TERMINAL operation cannot be retried'')
    else if at_status latest = OperationStatus.UNKNOWN
            \<and> at_recovery_resolution latest \<noteq> Some RETRY_AUTHORIZED
    then Inl (StateInvariantError ''UNKNOWN attempt is not authorised for retry'')
    else if rp_max_attempts (op_retry_policy_snapshot op) \<le> length as
    then Inl (StateInvariantError ''max_attempts reached'')
    else if (case op_next_retry_at op of None \<Rightarrow> False | Some t \<Rightarrow> ts < t)
    then Inl (StateInvariantError ''next_retry_at not reached'')
    else
      let a = (new_attempt (ba_attempt_id c) (op_operation_id op) (st_run_id st)
                (at_attempt_no latest + 1) (op_request_hash op) (op_side_effecting op) ts)\<lparr>
                at_model_call_id := ba_model_call_id c,
                at_external_request_id := ba_external_request_id c,
                at_risk_confirmed_by := ba_risk_confirmed_by c,
                at_risk_confirmation_reason := ba_risk_confirmation_reason c\<rparr>
      in rbind (aggregate_operation op (as @ [a]) ts) (\<lambda>op'. Inr (op', a))))"

definition update_attempt ::
  "db \<Rightarrow> AgentState \<Rightarrow> string \<Rightarrow> timestamp \<Rightarrow> OperationStatus list
     \<Rightarrow> (OperationAttempt \<Rightarrow> OperationAttempt) \<Rightarrow> (OperationRecord \<times> OperationAttempt) result" where
  "update_attempt d st attempt_id ts allowed upd =
    rbind (attempt_in d attempt_id) (\<lambda>a.
    if at_run_id a \<noteq> st_run_id st \<or> at_status a \<notin> set allowed
    then Inl (StateInvariantError ''attempt belongs to another run or has the wrong status'')
    else let a' = (upd a)\<lparr>at_updated_at := ts\<rparr> in
    if \<not> validate_attempt_evidence a' then Inl (ValueError ''OperationAttempt'')
    else
      rbind (operation_in d (at_operation_id a')) (\<lambda>op.
      rbind (attempts_in d (op_operation_id op)) (\<lambda>as.
      rbind (aggregate_operation op (map (\<lambda>x. if at_attempt_id x = attempt_id then a' else x) as) ts)
        (\<lambda>op'. Inr (op', a')))))"

subsection \<open>Reconciliation and recovery\<close>

definition reconcile_common :: "ReconcileResult \<Rightarrow> timestamp \<Rightarrow> OperationAttempt \<Rightarrow> OperationAttempt" where
  "reconcile_common r ts a = a\<lparr>at_reconcile_status := Some (rr_status r),
     at_reconcile_evidence := Some (sanitize_text (rr_evidence r)),
     at_result_source := Some (rr_result_source r), at_completed_at := Some ts\<rparr>"

definition or_reason :: "string \<Rightarrow> string \<Rightarrow> string" where
  "or_reason a b = (if a \<noteq> [] then a else b)"

definition reconcile_attempt ::
  "env \<Rightarrow> db \<Rightarrow> AgentState \<Rightarrow> string \<Rightarrow> ReconcileResult \<Rightarrow> timestamp
     \<Rightarrow> (OperationRecord \<times> OperationAttempt) result" where
  "reconcile_attempt E d st attempt_id r ts =
    rbind (attempt_in d attempt_id) (\<lambda>current.
    let common = reconcile_common r ts;
        observed = or_text (rr_observed_result r) [];
        both = [OperationStatus.RUNNING, OperationStatus.UNKNOWN] in
    case rr_status r of
      ReconcileStatus.COMPLETED \<Rightarrow>
        if at_status current = OperationStatus.UNKNOWN
        then update_attempt d st attempt_id ts [OperationStatus.UNKNOWN] (\<lambda>a. (common a)\<lparr>
               at_recovery_resolution := Some CONFIRMED_SUCCEEDED, at_completed_at := None,
               at_result := Some (sanitize_text observed),
               at_result_hash := Some (sha256 E observed)\<rparr>)
        else update_attempt d st attempt_id ts both (\<lambda>a. (common a)\<lparr>
               at_status := OperationStatus.COMPLETED, at_failure_kind := None,
               at_failure_reason := None, at_recovery_resolution := None,
               at_result := Some (sanitize_text observed),
               at_result_hash := Some (sha256 E observed)\<rparr>)
    | NOT_APPLIED \<Rightarrow>
        update_attempt d st attempt_id ts both (\<lambda>a. (common a)\<lparr>
          at_status := OperationStatus.FAILED, at_failure_kind := Some RETRYABLE,
          at_failure_reason := Some ''reconcile_not_applied'', at_recovery_resolution := None\<rparr>)
    | ReconcileStatus.FAILED \<Rightarrow>
        if at_status current = OperationStatus.UNKNOWN
        then update_attempt d st attempt_id ts [OperationStatus.UNKNOWN] (\<lambda>a. (common a)\<lparr>
               at_recovery_resolution := Some CONFIRMED_FAILED,
               at_failure_reason := Some (sanitize_text (or_reason (rr_evidence r) ''reconcile_failed'')),
               at_completed_at := None\<rparr>)
        else update_attempt d st attempt_id ts both (\<lambda>a. (common a)\<lparr>
               at_status := OperationStatus.FAILED, at_failure_kind := Some TERMINAL,
               at_failure_reason := Some (sanitize_text (or_reason (rr_evidence r) ''reconcile_failed'')),
               at_recovery_resolution := None\<rparr>)
    | ReconcileStatus.UNKNOWN \<Rightarrow>
        update_attempt d st attempt_id ts both (\<lambda>a. (common a)\<lparr>
          at_status := OperationStatus.UNKNOWN, at_failure_kind := Some UNKNOWN_EFFECT,
          at_failure_reason := Some (sanitize_text (or_reason (rr_evidence r) ''reconcile_unknown'')),
          at_recovery_resolution := Some UNRESOLVED, at_completed_at := None\<rparr>))"

fun recovery_action_value :: "RecoveryAction \<Rightarrow> string" where
  "recovery_action_value Retry = ''retry''"
| "recovery_action_value ConfirmSucceeded = ''confirm_succeeded''"
| "recovery_action_value Fail = ''fail''"
| "recovery_action_value Cancel = ''cancel''"

definition recovery_diagnostic ::
  "env \<Rightarrow> AgentState \<Rightarrow> RecoveryDecisionCommand \<Rightarrow> timestamp \<Rightarrow> dict" where
  "recovery_diagnostic E st c ts =
     dict_set ''last_recovery_decision'' (sanitize (JObj [
       (''action'', JStr (recovery_action_value (rd_action c))), (''actor'', JStr (rd_actor c)),
       (''reason'', JStr (rd_reason c)), (''risk_confirmed'', JBool (rd_risk_confirmed c)),
       (''at'', JStr (iso E ts))])) (st_diagnostics st)"

text \<open>
  The attempt a retry decision prepares: an unresolved or already resolved UNKNOWN attempt is first
  authorised (and saved, so that the new attempt's checks see it), then the next attempt begins.
\<close>

definition recovery_retry ::
  "db \<Rightarrow> AgentState \<Rightarrow> RecoveryDecisionCommand \<Rightarrow> call \<Rightarrow> OperationRecord \<Rightarrow> OperationAttempt
     \<Rightarrow> (db \<times> OperationRecord \<times> OperationAttempt) result" where
  "recovery_retry d st c x op a =
    (if op_status op \<notin> {OperationStatus.UNKNOWN, OperationStatus.FAILED}
     then Inl (StateInvariantError ''only unknown/failed operations can be retried'')
     else if op_idempotency op = NON_IDEMPOTENT \<and> \<not> rd_risk_confirmed c
     then Inl (StateInvariantError ''NON_IDEMPOTENT retry requires risk confirmation'')
     else
       rbind (if at_status a = OperationStatus.UNKNOWN
              then rbind (update_attempt d st (at_attempt_id a) (cx_now x) [OperationStatus.UNKNOWN]
                     (\<lambda>y. y\<lparr>at_recovery_resolution := Some RETRY_AUTHORIZED,
                            at_risk_confirmed_by := Some (rd_actor c),
                            at_risk_confirmation_reason := Some (sanitize_text (rd_reason c))\<rparr>))
                   (\<lambda>(op1, a1). rbind (save_attempt d a1) (\<lambda>d1.
                      rbind (save_operation d1 op1) (\<lambda>d2. Inr (d2, op1))))
              else Inr (d, op)) (\<lambda>(d2, op2).
       rbind (begin_operation_attempt d2 st \<lparr>
                ba_operation_id = op_operation_id op2, ba_attempt_id = cx_attempt_uuid x,
                ba_expected_latest_attempt_no = op_latest_attempt_no op2,
                ba_request_hash = op_request_hash op2,
                ba_model_call_id = (if op_kind op2 = MODEL then Some (cx_call_uuid x) else None),
                ba_external_request_id = (if op_kind op2 = TOOL then Some (cx_call_uuid x) else None),
                ba_risk_confirmed_by = (if rd_risk_confirmed c then Some (rd_actor c) else None),
                ba_risk_confirmation_reason =
                  (if rd_risk_confirmed c then Some (rd_reason c) else None)\<rparr> (cx_now x))
         (\<lambda>(op3, a3). Inr (d2, op3, a3))))"

definition recovery_effect ::
  "env \<Rightarrow> db \<Rightarrow> AgentState \<Rightarrow> RecoveryDecisionCommand \<Rightarrow> call \<Rightarrow> OperationRecord option
     \<Rightarrow> OperationAttempt option
     \<Rightarrow> (db \<times> AgentState \<times> OperationRecord option \<times> OperationAttempt option) result" where
  "recovery_effect E d st c x op a =
    (let ts = cx_now x in
     if rd_action c = ConfirmSucceeded then
       (case (op, a) of
          (Some op0, Some a0) \<Rightarrow>
            if at_status a0 \<noteq> OperationStatus.UNKNOWN
            then Inl (StateInvariantError ''only an unknown operation can be confirmed'')
            else let observed = or_text (rd_observed_result c) [] in
              rbind (update_attempt d st (at_attempt_id a0) ts [OperationStatus.UNKNOWN] (\<lambda>y. y\<lparr>
                at_recovery_resolution := Some CONFIRMED_SUCCEEDED,
                at_result := Some (sanitize_text observed),
                at_result_hash := Some (sha256 E observed),
                at_result_source := Some ''human_confirmed'',
                at_reconcile_evidence :=
                  Some (''actor='' @ rd_actor c @ ''; reason='' @ rd_reason c),
                at_risk_confirmed_by := Some (rd_actor c),
                at_risk_confirmation_reason := Some (sanitize_text (rd_reason c))\<rparr>))
              (\<lambda>(op1, a1). Inr (d, st, Some op1, Some a1))
        | _ \<Rightarrow> Inl (StateInvariantError ''only an unknown operation can be confirmed''))
     else if rd_action c = Retry \<and> op = None \<and> st_finalize_generation st \<noteq> None
             \<and> st_task_state st = TaskState.RECOVERY_REQUIRED
     then Inr (d, st, op, a)
     else if rd_action c = Retry then
       (case (op, a) of
          (Some op0, Some a0) \<Rightarrow>
            rbind (recovery_retry d st c x op0 a0) (\<lambda>(d1, op1, a1). Inr (d1, st, Some op1, Some a1))
        | _ \<Rightarrow> Inl (StateInvariantError ''only unknown/failed operations can be retried''))
     else if rd_action c = Fail then
       (case (op, a) of
          (Some op0, Some a0) \<Rightarrow>
            rbind (if at_status a0 = OperationStatus.UNKNOWN
                   then update_attempt d st (at_attempt_id a0) ts [OperationStatus.UNKNOWN] (\<lambda>y. y\<lparr>
                          at_recovery_resolution := Some CONFIRMED_FAILED,
                          at_risk_confirmed_by := Some (rd_actor c),
                          at_risk_confirmation_reason := Some (sanitize_text (rd_reason c))\<rparr>)
                   else update_attempt d st (at_attempt_id a0) ts
                          [OperationStatus.PREPARED, OperationStatus.RUNNING] (\<lambda>y. y\<lparr>
                          at_status := OperationStatus.FAILED, at_failure_kind := Some TERMINAL,
                          at_failure_reason := Some (sanitize_text (rd_reason c)),
                          at_completed_at := Some ts\<rparr>))
              (\<lambda>(op1, a1). Inr (d, st, Some op1, Some a1))
        | _ \<Rightarrow> Inr (d, st, op, a))
     else Inr (d, st\<lparr>st_cancellation_requested := True\<rparr>, op, a))"

definition save_operation_opt :: "db \<Rightarrow> OperationRecord option \<Rightarrow> db result" where
  "save_operation_opt d op = (case op of None \<Rightarrow> Inr d | Some r \<Rightarrow> save_operation d r)"

definition save_attempt_opt :: "db \<Rightarrow> OperationAttempt option \<Rightarrow> db result" where
  "save_attempt_opt d a = (case a of None \<Rightarrow> Inr d | Some r \<Rightarrow> save_attempt d r)"

definition save_approval_opt :: "db \<Rightarrow> DurableApproval option \<Rightarrow> db result" where
  "save_approval_opt d a = (case a of None \<Rightarrow> Inr d | Some r \<Rightarrow> save_approval d r)"

definition insert_decision ::
  "db \<Rightarrow> decision_row \<Rightarrow> db result" where
  "insert_decision d r =
     (if lookup_row dc_command_id (dc_command_id r) (recovery_decisions d) \<noteq> None
         \<or> \<not> run_exists d (dc_run_id r)
      then Inl (IntegrityError ''recovery_decisions'')
      else Inr (d\<lparr>recovery_decisions := recovery_decisions d @ [r]\<rparr>))"

definition apply_recovery ::
  "env \<Rightarrow> db \<Rightarrow> AgentState \<Rightarrow> string \<Rightarrow> RecoveryDecisionCommand \<Rightarrow> call
     \<Rightarrow> (db \<times> AgentState \<times> OperationRecord option \<times> OperationAttempt option) result" where
  "apply_recovery E d st command_id c x =
    rbind (if truthy (rd_operation_id c)
           then rbind (operation_in d (the (rd_operation_id c))) (\<lambda>op.
                rbind (current_attempt_in d (op_operation_id op)) (\<lambda>a. Inr (Some op, Some a)))
           else Inr (None, None)) (\<lambda>(op, a).
    if (case op of None \<Rightarrow> False | Some r \<Rightarrow> op_run_id r \<noteq> st_run_id st)
    then Inl (StateInvariantError ''recovery operation belongs to another run'')
    else
      rbind (recovery_effect E d st c x op a) (\<lambda>(d1, st1, op1, a1).
      rbind (save_operation_opt d1 op1) (\<lambda>d2.
      rbind (save_attempt_opt d2 a1) (\<lambda>d3.
      rbind (insert_decision d3 \<lparr>dc_command_id = command_id, dc_run_id = st_run_id st1,
               dc_operation_id = map_option op_operation_id op1,
               dc_attempt_id = map_option at_attempt_id a1, dc_action = rd_action c,
               dc_actor = rd_actor c, dc_reason = sanitize_text (rd_reason c),
               dc_created_at = cx_now x\<rparr>) (\<lambda>d4.
      Inr (d4, st1\<lparr>st_diagnostics := recovery_diagnostic E st c (cx_now x),
                   st_last_progress_at := cx_now x\<rparr>, op1, a1))))))"

end
