(* ===== verification/Finalize_Control.thy ===== *)
theory Finalize_Control
  imports Operation_Control
begin

section \<open>Finalize steps inside the control plane\<close>

text \<open>
  The finalize protocol of \<open>StateController\<close>: validation of the evidence of one step
  (\<^verbatim>\<open>_validate_finalize_evidence\<close>), the two steps committed by SQLite itself (\<^verbatim>\<open>_finalize_audit\<close>,
  \<^verbatim>\<open>_finalize_inbox\<close>) and the gate every normal terminal state passes (\<^verbatim>\<open>_validate_terminal_finalize\<close>).
\<close>

subsection \<open>Evidence of one step\<close>

definition canonical_hash :: "env \<Rightarrow> json \<Rightarrow> string" where
  "canonical_hash E value = sha256 E (canonical_json (sanitize value))"

fun finalize_operation_kind :: "FinalizeStep \<Rightarrow> OperationKind" where
  "finalize_operation_kind FinalizeStep.MEMORY = OperationKind.MEMORY"
| "finalize_operation_kind FinalizeStep.SESSION_INDEX = OperationKind.SESSION_INDEX"
| "finalize_operation_kind FinalizeStep.AUDIT = OperationKind.AUDIT"
| "finalize_operation_kind FinalizeStep.INBOX = OperationKind.INBOX"

definition as_invariant_error :: "'a result \<Rightarrow> 'a result" where
  "as_invariant_error r =
     (case r of Inl _ \<Rightarrow> Inl (StateInvariantError ''Invalid Finalize Evidence'') | Inr x \<Rightarrow> Inr x)"

definition validate_finalize_evidence ::
  "env \<Rightarrow> AgentState \<Rightarrow> OperationRecord \<Rightarrow> OperationAttempt \<Rightarrow> string \<Rightarrow> string
     \<Rightarrow> FinalizeStepEvidence result" where
  "validate_finalize_evidence E st op a res result_hash =
    rbind (as_invariant_error (verify E res result_hash)) (\<lambda>ev.
    rbind (raise_if (ev_run_id ev \<noteq> st_run_id st)
             (StateInvariantError ''Finalize Evidence run mismatch'')) (\<lambda>_.
    rbind (raise_if (Some (ev_generation ev) \<noteq> st_finalize_generation st)
             (StateInvariantError ''Finalize Evidence generation mismatch'')) (\<lambda>_.
    rbind (raise_if (ev_operation_id ev \<noteq> op_operation_id op)
             (StateInvariantError ''Finalize Evidence operation mismatch'')) (\<lambda>_.
    rbind (raise_if (ev_attempt_id ev \<noteq> at_attempt_id a)
             (StateInvariantError ''Finalize Evidence attempt mismatch'')) (\<lambda>_.
    let expected = for_step E st (ev_generation ev) (ev_step ev) in
    rbind (raise_if (op_stable_key op \<noteq> id_stable_key expected
                     \<or> op_request_hash op \<noteq> id_request_hash expected)
             (StateInvariantError ''Finalize Evidence identity mismatch'')) (\<lambda>_.
    rbind (as_invariant_error (validate_requirement st ev)) (\<lambda>_. Inr ev)))))))"

definition completed_sqlite_finalize_operation ::
  "AgentState \<Rightarrow> string \<Rightarrow> string \<Rightarrow> string \<Rightarrow> string \<Rightarrow> OperationKind \<Rightarrow> string \<Rightarrow> string \<Rightarrow> string
     \<Rightarrow> timestamp \<Rightarrow> (OperationRecord \<times> OperationAttempt) result" where
  "completed_sqlite_finalize_operation st operation_id attempt_id stable_key hash kind name
     evidence_text evidence_hash ts =
    (let op = (new_operation operation_id (st_run_id st) kind name stable_key hash IDEMPOTENT False
                no_retry_policy ts)\<lparr>op_turn_id := st_turn_id st\<rparr>;
         a = (new_attempt attempt_id operation_id (st_run_id st) 1 hash False ts)\<lparr>
                at_status := OperationStatus.COMPLETED, at_result := Some evidence_text,
                at_result_hash := Some evidence_hash,
                at_result_source := Some ''sqlite_transaction'', at_started_at := Some ts,
                at_completed_at := Some ts\<rparr>
     in if \<not> validate_attempt_evidence a then Inl (ValueError ''OperationAttempt'')
        else rbind (aggregate_operation op [a] ts) (\<lambda>op'. Inr (op', a)))"

subsection \<open>The audit receipt\<close>

definition identity_matches :: "FinalizeOperationIdentity \<Rightarrow> string \<Rightarrow> string \<Rightarrow> string \<Rightarrow> bool" where
  "identity_matches i operation_id stable_key hash \<longleftrightarrow>
     operation_id = id_operation_id i \<and> stable_key = id_stable_key i \<and> hash = id_request_hash i"

text \<open>
  The receipt row is inserted once; a row with the same \<^verbatim>\<open>receipt_id\<close> is accepted only when every
  column, \<^verbatim>\<open>created_at\<close> included, is the one proposed now.
\<close>

definition insert_receipt :: "db \<Rightarrow> receipt_row \<Rightarrow> db result" where
  "insert_receipt d r =
    (case lookup_row rc_receipt_id (rc_receipt_id r) (run_audit_receipts d) of
       Some x \<Rightarrow> if x \<noteq> r then Inl (StateConflictError ''Immutable audit receipt content conflict'')
                 else Inr d
     | None \<Rightarrow>
         if list_ex (\<lambda>x. rc_run_id x = rc_run_id r
                       \<and> rc_receipt_generation x = rc_receipt_generation r) (run_audit_receipts d)
            \<or> rc_receipt_generation r = 0
            \<or> \<not> list_ex (\<lambda>g. fg_run_id g = rc_run_id r
                            \<and> fg_generation g = rc_finalize_generation r) (finalize_generations d)
         then Inl (IntegrityError ''run_audit_receipts'')
         else Inr (d\<lparr>run_audit_receipts := run_audit_receipts d @ [r]\<rparr>))"

definition set_current_receipt :: "db \<Rightarrow> string \<Rightarrow> string \<Rightarrow> db result" where
  "set_current_receipt d run_id receipt_id =
    (if list_ex (\<lambda>(r, i). r \<noteq> run_id \<and> i = receipt_id) (run_current_audit_receipt d)
        \<or> \<not> run_exists d run_id
     then Inl (IntegrityError ''run_current_audit_receipt'')
     else Inr (d\<lparr>run_current_audit_receipt :=
            upsert_row fst replace_row (run_id, receipt_id) (run_current_audit_receipt d)\<rparr>))"

definition audit_evidence :: "env \<Rightarrow> FinalizeAuditCommand \<Rightarrow> EncodedFinalizeEvidence result" where
  "audit_evidence E c =
    rbind (or_raise (json_loads E (fa_receipt_json c))
             (StateInvariantError ''Audit receipt is not valid JSON'')) (\<lambda>receipt.
    rbind (raise_if (canonical_json (sanitize receipt) \<noteq> fa_receipt_json c)
             (StateInvariantError ''Audit receipt is not canonical or sanitized'')) (\<lambda>_.
    rbind (raise_if (sha256 E (fa_receipt_json c) \<noteq> fa_receipt_hash c)
             (StateInvariantError ''Audit receipt hash mismatch'')) (\<lambda>_.
    rbind (decode E (fa_evidence_json c)) (\<lambda>ev.
    rbind (encode E ev) (\<lambda>encoded.
    rbind (raise_if (ee_result_hash encoded \<noteq> fa_evidence_hash c)
             (StateInvariantError ''Audit Evidence hash mismatch'')) (\<lambda>_.
    case ee_value encoded of
      NotApplicable _ \<Rightarrow> Inl (StateInvariantError ''Audit Evidence must be verified'')
    | Verified v \<Rightarrow>
        rbind (raise_if (ve_step v \<noteq> FinalizeStep.AUDIT \<or> ve_artifact_hash v \<noteq> fa_receipt_hash c)
                 (StateInvariantError ''Audit Evidence does not reference the receipt'')) (\<lambda>_.
        rbind (raise_if (fr_receipt_id (ve_references v) \<noteq> Some (fa_receipt_id c))
                 (StateInvariantError ''Audit Evidence receipt_id mismatch'')) (\<lambda>_.
        Inr encoded))))))))"

definition finalize_audit ::
  "env \<Rightarrow> db \<Rightarrow> AgentState \<Rightarrow> FinalizeAuditCommand \<Rightarrow> timestamp
     \<Rightarrow> (db \<times> OperationRecord \<times> OperationAttempt) result" where
  "finalize_audit E d st c ts =
    rbind (raise_if (st_task_state st \<noteq> TaskState.FINALIZING
                     \<or> st_finalize_generation st \<noteq> Some (fa_generation c))
             (StateInvariantError ''Audit receipt requires the current FINALIZING generation'')) (\<lambda>_.
    rbind (raise_if (\<not> identity_matches (for_step E st (fa_generation c) FinalizeStep.AUDIT)
                       (fa_operation_id c) (fa_stable_key c) (fa_request_hash c))
             (StateInvariantError ''Audit finalize identity mismatch'')) (\<lambda>_.
    rbind (audit_evidence E c) (\<lambda>encoded.
    rbind (insert_receipt d \<lparr>rc_receipt_id = fa_receipt_id c, rc_run_id = st_run_id st,
             rc_finalize_generation = fa_generation c,
             rc_receipt_generation = fa_receipt_generation c, rc_receipt_json = fa_receipt_json c,
             rc_receipt_hash = fa_receipt_hash c, rc_created_at = ts\<rparr>) (\<lambda>d1.
    rbind (set_current_receipt d1 (st_run_id st) (fa_receipt_id c)) (\<lambda>d2.
    rbind (completed_sqlite_finalize_operation st (fa_operation_id c) (fa_attempt_id c)
             (fa_stable_key c) (fa_request_hash c) OperationKind.AUDIT ''finalize_audit''
             (ee_serialized encoded) (ee_result_hash encoded) ts) (\<lambda>(op, a).
    rbind (validate_finalize_evidence E st op a (ee_serialized encoded) (ee_result_hash encoded))
      (\<lambda>_. Inr (d2, op, a))))))))"

subsection \<open>The inbox item\<close>

definition inbox_item_id :: "env \<Rightarrow> string \<Rightarrow> string" where
  "inbox_item_id E run_id = take 32 (sha256 E (run_id @ '':finalize:v2:inbox''))"

definition inbox_json :: "env \<Rightarrow> inbox_row \<Rightarrow> json" where
  "inbox_json E r = JObj [
     (''item_id'', JStr (ib_item_id r)), (''run_id'', JStr (ib_run_id r)),
     (''project_id'', JStr (ib_project_id r)), (''session_id'', opt_str (ib_session_id r)),
     (''title'', JStr (ib_title r)), (''summary'', JStr (ib_summary r)),
     (''status'', JStr (ib_status r)), (''created_at'', JStr (iso E (ib_created_at r)))]"

definition insert_inbox :: "db \<Rightarrow> inbox_row \<Rightarrow> (db \<times> inbox_row) result" where
  "insert_inbox d r =
    (case lookup_row ib_item_id (ib_item_id r) (inbox d) of
       Some x \<Rightarrow>
         if x\<lparr>ib_created_at := ib_created_at r, ib_is_read := ib_is_read r\<rparr> \<noteq> r
         then Inl (StateConflictError ''Deterministic Inbox item content conflict'')
         else Inr (d, x)
     | None \<Rightarrow>
         if list_ex (\<lambda>x. ib_run_id x = ib_run_id r) (inbox d)
         then Inl (IntegrityError ''inbox'')
         else Inr (d\<lparr>inbox := inbox d @ [r]\<rparr>, r))"

definition inbox_evidence ::
  "env \<Rightarrow> AgentState \<Rightarrow> FinalizeInboxCommand \<Rightarrow> inbox_row \<Rightarrow> FinalizeStepEvidence" where
  "inbox_evidence E st c r = Verified \<lparr>
     ve_step = FinalizeStep.INBOX, ve_run_id = st_run_id st, ve_generation = fi_generation c,
     ve_operation_id = fi_operation_id c, ve_attempt_id = fi_attempt_id c,
     ve_artifact_kind = ''gateway_inbox_row'', ve_artifact_id = ib_item_id r,
     ve_artifact_hash = canonical_hash E (inbox_json E r),
     ve_verification_method = ''sqlite_row_canonical_hash'',
     ve_references = empty_references\<lparr>fr_inbox_item_id := Some (ib_item_id r)\<rparr>\<rparr>"

definition finalize_inbox ::
  "env \<Rightarrow> db \<Rightarrow> AgentState \<Rightarrow> FinalizeInboxCommand \<Rightarrow> timestamp
     \<Rightarrow> (db \<times> OperationRecord \<times> OperationAttempt) result" where
  "finalize_inbox E d st c ts =
    rbind (raise_if (st_task_state st \<noteq> TaskState.FINALIZING
                     \<or> st_finalize_generation st \<noteq> Some (fi_generation c))
             (StateInvariantError ''Inbox requires the current FINALIZING generation'')) (\<lambda>_.
    rbind (raise_if (\<not> identity_matches (for_step E st (fi_generation c) FinalizeStep.INBOX)
                       (fi_operation_id c) (fi_stable_key c) (fi_request_hash c))
             (StateInvariantError ''Inbox finalize identity mismatch'')) (\<lambda>_.
    rbind (insert_inbox d \<lparr>ib_item_id = inbox_item_id E (st_run_id st), ib_run_id = st_run_id st,
             ib_project_id = st_project_id st, ib_session_id = st_session_id st,
             ib_title = take 120 (fi_title c), ib_summary = sanitize_text (fi_summary c),
             ib_status = fi_status c, ib_created_at = ts, ib_is_read = False\<rparr>) (\<lambda>(d1, r).
    rbind (encode E (inbox_evidence E st c r)) (\<lambda>encoded.
    rbind (completed_sqlite_finalize_operation st (fi_operation_id c) (fi_attempt_id c)
             (fi_stable_key c) (fi_request_hash c) OperationKind.INBOX ''finalize_inbox''
             (ee_serialized encoded) (ee_result_hash encoded) ts) (\<lambda>(op, a).
    rbind (validate_finalize_evidence E st op a (ee_serialized encoded) (ee_result_hash encoded))
      (\<lambda>_. Inr (d1, op, a)))))))"

subsection \<open>The terminal gate\<close>

definition finalize_step_evidence ::
  "env \<Rightarrow> db \<Rightarrow> AgentState \<Rightarrow> nat \<Rightarrow> FinalizeStep
     \<Rightarrow> (FinalizeStepEvidence \<times> OperationAttempt) result" where
  "finalize_step_evidence E d st g step =
    (let identity = for_step E st g step in
     case find (\<lambda>r. or_run_id r = st_run_id st \<and> or_kind r = finalize_operation_kind step
                  \<and> or_stable_key r = id_stable_key identity) (operation_ledger d) of
       None \<Rightarrow> Inl (StateInvariantError ''Missing Finalize Evidence'')
     | Some row \<Rightarrow>
         let op = or_record row in
         if op_operation_id op \<noteq> id_operation_id identity \<or> op_status op \<noteq> OperationStatus.COMPLETED
         then Inl (StateInvariantError ''Finalize Operation is not completed'')
         else
           rbind (current_attempt_in d (op_operation_id op)) (\<lambda>a.
           if \<not> truthy (at_result a) \<or> \<not> truthy (at_result_hash a)
           then Inl (StateInvariantError ''Finalize Attempt lacks Evidence'')
           else rbind (validate_finalize_evidence E st op a (the (at_result a)) (the (at_result_hash a)))
                  (\<lambda>ev. Inr (ev, a))))"

fun collect_finalize_evidence ::
  "env \<Rightarrow> db \<Rightarrow> AgentState \<Rightarrow> nat \<Rightarrow> FinalizeStep list
     \<Rightarrow> (FinalizeStep \<times> FinalizeStepEvidence \<times> OperationAttempt) list result" where
  "collect_finalize_evidence E d st g [] = Inr []"
| "collect_finalize_evidence E d st g (step # steps) =
     rbind (finalize_step_evidence E d st g step) (\<lambda>found.
     rbind (collect_finalize_evidence E d st g steps) (\<lambda>rest. Inr ((step, found) # rest)))"

definition current_receipt :: "db \<Rightarrow> string \<Rightarrow> receipt_row option" where
  "current_receipt d run_id =
     Option.bind (lookup_row fst run_id (run_current_audit_receipt d)) (\<lambda>(_, receipt_id).
       lookup_row rc_receipt_id receipt_id (run_audit_receipts d))"

definition session_index_linked :: "FinalizeStepEvidence \<Rightarrow> OperationAttempt \<Rightarrow> bool" where
  "session_index_linked index memory \<longleftrightarrow>
     (case index of
        NotApplicable _ \<Rightarrow> True
      | Verified v \<Rightarrow> fr_memory_attempt_id (ve_references v) = Some (at_attempt_id memory)
                    \<and> fr_memory_result_hash (ve_references v) = at_result_hash memory)"

definition audit_linked ::
  "FinalizeStepEvidence \<Rightarrow> receipt_row option \<Rightarrow> nat \<Rightarrow> OperationAttempt \<Rightarrow> OperationAttempt \<Rightarrow> bool" where
  "audit_linked audit receipt g memory index \<longleftrightarrow>
     (case (audit, receipt) of
        (Verified v, Some r) \<Rightarrow>
          rc_finalize_generation r = g \<and>
          fr_receipt_id (ve_references v) = Some (rc_receipt_id r) \<and>
          ve_artifact_hash v = rc_receipt_hash r \<and>
          fr_memory_attempt_id (ve_references v) = Some (at_attempt_id memory) \<and>
          fr_memory_result_hash (ve_references v) = at_result_hash memory \<and>
          fr_session_index_attempt_id (ve_references v) = Some (at_attempt_id index) \<and>
          fr_session_index_result_hash (ve_references v) = at_result_hash index
      | _ \<Rightarrow> False)"

definition inbox_check :: "env \<Rightarrow> db \<Rightarrow> FinalizeStepEvidence \<Rightarrow> unit result" where
  "inbox_check E d ev =
    (case ev of
       NotApplicable _ \<Rightarrow> Inl (StateInvariantError ''Inbox Evidence is not verified'')
     | Verified v \<Rightarrow>
         if \<not> truthy (fr_inbox_item_id (ve_references v))
         then Inl (StateInvariantError ''Inbox Evidence is not verified'')
         else
           rbind (or_raise (lookup_row ib_item_id (the (fr_inbox_item_id (ve_references v))) (inbox d))
                    (StateInvariantError ''Inbox Evidence row is missing'')) (\<lambda>r.
           raise_if (canonical_hash E (inbox_json E r) \<noteq> ve_artifact_hash v)
             (StateInvariantError ''Inbox Evidence row hash mismatch'')))"

definition validate_terminal_finalize :: "env \<Rightarrow> db \<Rightarrow> AgentState \<Rightarrow> nat \<Rightarrow> unit result" where
  "validate_terminal_finalize E d st g =
    rbind (raise_if (st_finalize_generation st \<noteq> Some g)
             (StateInvariantError ''FinalizeTerminalCommand generation mismatch'')) (\<lambda>_.
    rbind (raise_if (\<not> list_ex (\<lambda>x. fg_run_id x = st_run_id st \<and> fg_generation x = g)
                       (finalize_generations d))
             (StateInvariantError ''Current finalize generation is missing'')) (\<lambda>_.
    rbind (raise_if (list_ex (\<lambda>x. iv_run_id x = st_run_id st \<and> iv_generation x = g)
                       (finalize_generation_invalidations d))
             (StateInvariantError ''Current finalize generation has been invalidated'')) (\<lambda>_.
    rbind (collect_finalize_evidence E d st g enum_class.enum) (\<lambda>found.
    let evidence = (\<lambda>s. fst (the (map_of found s)));
        attempt = (\<lambda>s. snd (the (map_of found s))) in
    rbind (raise_if (\<not> session_index_linked (evidence FinalizeStep.SESSION_INDEX)
                       (attempt FinalizeStep.MEMORY))
             (StateInvariantError ''Session Index Evidence does not reference Memory Evidence'')) (\<lambda>_.
    rbind (raise_if (\<not> audit_linked (evidence FinalizeStep.AUDIT) (current_receipt d (st_run_id st)) g
                       (attempt FinalizeStep.MEMORY) (attempt FinalizeStep.SESSION_INDEX))
             (StateInvariantError ''Current audit receipt does not match Audit Evidence'')) (\<lambda>_.
    inbox_check E d (evidence FinalizeStep.INBOX)))))))"

end
