(* ===== verification/Write_Gate.thy ===== *)
theory Write_Gate
  imports Prelude
begin

section \<open>The Agent Home write gate\<close>

text \<open>
  \<^verbatim>\<open>backup/maintenance.py\<close> (\<open>AgentHomeWriteGate\<close>) and \<^verbatim>\<open>backup/lifecycle_store.py\<close>: the durable
  maintenance lifecycle, the work scopes admitted under it and the admission check every mutation of the
  control plane passes first. The gate's methods run under one lock, so each is one step. The context
  variable that holds the caller's scope is the argument \<open>ctx\<close>; \<open>gate_id\<close> stands for \<^verbatim>\<open>id(self)\<close>, the
  fresh \<^verbatim>\<open>uuid4\<close> and the clock are arguments. \<open>disk\<close> says whether SQLite accepts the write.
\<close>

subsection \<open>Data\<close>

datatype MaintenanceState = RUNNING | QUIESCING | QUIESCED | RESTORING | RESUMING | FAILED

record QuiesceResult =
  qr_participant :: string
  qr_maintenance_epoch :: nat
  qr_acknowledged :: bool
  qr_safe_boundary :: "string option"
  qr_active_operations :: "string list"
  qr_failure_reason :: "string option"
  qr_stale :: bool

record work_item =
  wi_kind :: string
  wi_writer_id :: string
  wi_operation_id :: string

record MaintenanceSnapshot =
  ms_state :: MaintenanceState
  ms_maintenance_epoch :: nat
  ms_reason :: "string option"
  ms_started_at :: "timestamp option"
  ms_participant_status :: "(string \<times> QuiesceResult) list"
  ms_failure_reason :: "string option"
  ms_operation_id :: "string option"
  ms_revision :: nat
  ms_since :: "timestamp option"
  ms_active_runs :: nat
  ms_active_tool_calls :: nat
  ms_active_background_jobs :: nat
  ms_active_db_transactions :: nat
  ms_active_work :: "work_item list"

record WriteScope =
  ws_writer_id :: string
  ws_logical_operation_id :: string
  ws_maintenance_epoch :: "nat option"
  ws_maintenance :: bool
  ws_generation :: nat
  ws_gate_id :: nat
  ws_scope_id :: string
  ws_kind :: string

record LifecycleStore =
  lc_revision :: nat
  lc_snapshot :: MaintenanceSnapshot
  lc_transitions :: "(nat \<times> MaintenanceState \<times> MaintenanceState) list"

record gate =
  gt_id :: nat
  gt_store :: "LifecycleStore option"
  gt_initial :: MaintenanceSnapshot
  gt_active :: "WriteScope list"
  gt_storage_fault :: bool

text \<open>The keys \<^verbatim>\<open>transition\<close> takes as metadata, and any other key.\<close>

datatype metadata =
    MaintenanceEpoch nat
  | OperationId string
  | ParticipantStatus "(string \<times> QuiesceResult) list"
  | FailureReason "string option"
  | StartedAt timestamp
  | ActiveWork "work_item list"
  | Unsupported string

fun set_metadata :: "metadata \<Rightarrow> MaintenanceSnapshot \<Rightarrow> MaintenanceSnapshot" where
  "set_metadata (MaintenanceEpoch n) s = s\<lparr>ms_maintenance_epoch := n\<rparr>"
| "set_metadata (OperationId i) s = s\<lparr>ms_operation_id := Some i\<rparr>"
| "set_metadata (ParticipantStatus p) s = s\<lparr>ms_participant_status := p\<rparr>"
| "set_metadata (FailureReason r) s = s\<lparr>ms_failure_reason := r\<rparr>"
| "set_metadata (StartedAt t) s = s\<lparr>ms_started_at := Some t\<rparr>"
| "set_metadata (ActiveWork w) s = s\<lparr>ms_active_work := w\<rparr>"
| "set_metadata (Unsupported k) s = s"

fun supported :: "metadata \<Rightarrow> bool" where
  "supported (Unsupported k) = False"
| "supported _ = True"

definition initial_snapshot :: "timestamp option \<Rightarrow> MaintenanceSnapshot" where
  "initial_snapshot since = \<lparr>ms_state = RUNNING, ms_maintenance_epoch = 0, ms_reason = None,
     ms_started_at = None, ms_participant_status = [], ms_failure_reason = None,
     ms_operation_id = None, ms_revision = 0, ms_since = since, ms_active_runs = 0,
     ms_active_tool_calls = 0, ms_active_background_jobs = 0, ms_active_db_transactions = 0,
     ms_active_work = []\<rparr>"

subsection \<open>The durable store\<close>

definition new_store :: "timestamp \<Rightarrow> LifecycleStore" where
  "new_store now = \<lparr>lc_revision = 0, lc_snapshot = initial_snapshot (Some now), lc_transitions = []\<rparr>"

definition store_read :: "LifecycleStore \<Rightarrow> MaintenanceSnapshot result" where
  "store_read s =
     (if ms_revision (lc_snapshot s) \<noteq> lc_revision s
      then Inl (LifecycleConflict ''Lifecycle snapshot revision mismatch'')
      else Inr (lc_snapshot s))"

definition store_save ::
  "bool \<Rightarrow> LifecycleStore \<Rightarrow> MaintenanceSnapshot \<Rightarrow> MaintenanceSnapshot \<Rightarrow> LifecycleStore result" where
  "store_save disk s previous current =
     (if \<not> disk then Inl (StorageError ''lifecycle.sqlite3'')
      else if lc_revision s \<noteq> ms_revision previous
      then Inl (LifecycleConflict ''Stale lifecycle revision'')
      else if list_ex (\<lambda>(r, _). r = ms_revision current) (lc_transitions s)
      then Inl (IntegrityError ''lifecycle_transitions'')
      else Inr \<lparr>lc_revision = ms_revision current, lc_snapshot = current,
                lc_transitions = lc_transitions s @
                  [(ms_revision current, ms_state previous, ms_state current)]\<rparr>)"

subsection \<open>The gate\<close>

definition new_gate :: "nat \<Rightarrow> gate" where
  "new_gate i = \<lparr>gt_id = i, gt_store = None, gt_initial = initial_snapshot None, gt_active = [],
     gt_storage_fault = False\<rparr>"

definition bind_store :: "gate \<Rightarrow> LifecycleStore \<Rightarrow> gate result" where
  "bind_store g s =
     (if gt_store g \<noteq> None \<or> gt_active g \<noteq> []
      then Inl (MaintenanceBlockedError ''Cannot rebind a live lifecycle'')
      else Inr (g\<lparr>gt_store := Some s\<rparr>))"

definition snapshot :: "gate \<Rightarrow> MaintenanceSnapshot result" where
  "snapshot g = (case gt_store g of Some s \<Rightarrow> store_read s | None \<Rightarrow> Inr (gt_initial g))"

definition current_scope :: "gate \<Rightarrow> WriteScope option \<Rightarrow> WriteScope option" where
  "current_scope g ctx =
     (case ctx of
        None \<Rightarrow> None
      | Some s \<Rightarrow> if ws_gate_id s = gt_id g \<and> ws_scope_id s \<in> ws_scope_id ` set (gt_active g)
                  then Some s else None)"

fun allowed :: "MaintenanceState \<Rightarrow> MaintenanceState list" where
  "allowed RUNNING = [QUIESCING, FAILED]"
| "allowed QUIESCING = [QUIESCED, FAILED]"
| "allowed QUIESCED = [RESTORING, RESUMING, FAILED]"
| "allowed RESTORING = [RESUMING, FAILED]"
| "allowed RESUMING = [RUNNING, FAILED]"
| "allowed FAILED = [QUIESCING, RESUMING]"

definition next_snapshot ::
  "timestamp \<Rightarrow> MaintenanceSnapshot \<Rightarrow> MaintenanceState \<Rightarrow> string \<Rightarrow> metadata list \<Rightarrow> MaintenanceSnapshot" where
  "next_snapshot now old target reason meta =
     (fold set_metadata meta old)\<lparr>ms_state := target, ms_reason := Some (take 500 reason),
       ms_since := Some now, ms_revision := ms_revision old + 1\<rparr>"

text \<open>A failed durable write returns the gate too, because the fault fences the process.\<close>

definition save_snapshot ::
  "bool \<Rightarrow> gate \<Rightarrow> MaintenanceSnapshot \<Rightarrow> MaintenanceSnapshot \<Rightarrow> gate \<times> MaintenanceSnapshot result" where
  "save_snapshot disk g old new =
    (case gt_store g of
       None \<Rightarrow> (g\<lparr>gt_initial := new\<rparr>, Inr new)
     | Some s \<Rightarrow>
         (case store_save disk s old new of
            Inr s' \<Rightarrow> (g\<lparr>gt_store := Some s'\<rparr>, Inr new)
          | Inl (LifecycleConflict m) \<Rightarrow> (g, Inl (LifecycleConflict m))
          | Inl e \<Rightarrow> (g\<lparr>gt_storage_fault := True\<rparr>, Inl e)))"

definition transition ::
  "bool \<Rightarrow> timestamp \<Rightarrow> gate \<Rightarrow> MaintenanceState \<Rightarrow> MaintenanceState \<Rightarrow> string \<Rightarrow> metadata list
     \<Rightarrow> nat option \<Rightarrow> gate \<times> MaintenanceSnapshot result" where
  "transition disk now g source target reason meta expected_revision =
    (case snapshot g of
       Inl e \<Rightarrow> (g, Inl e)
     | Inr old \<Rightarrow>
         if ms_state old \<noteq> source \<or> target \<notin> set (allowed source)
         then (g, Inl (MaintenanceBlockedError ''Illegal lifecycle transition''))
         else if expected_revision \<noteq> None \<and> expected_revision \<noteq> Some (ms_revision old)
         then (g, Inl (MaintenanceBlockedError ''Stale lifecycle revision''))
         else if target \<in> {QUIESCED, RESUMING, RUNNING} \<and> gt_active g \<noteq> []
         then (g, Inl (MaintenanceBlockedError ''Active work has not drained''))
         else if \<not> list_all supported meta
         then (g, Inl (ValueError ''Unsupported lifecycle metadata''))
         else save_snapshot disk g old (next_snapshot now old target reason meta))"

definition check_storage :: "gate \<Rightarrow> unit result" where
  "check_storage g =
     raise_if (gt_storage_fault g) (MaintenanceBlockedError ''this process is fenced'')"

definition count_kind :: "gate \<Rightarrow> string \<Rightarrow> nat" where
  "count_kind g k = count_rows (\<lambda>s. ws_kind s = k) (gt_active g)"

definition get_lifecycle_state :: "gate \<Rightarrow> MaintenanceSnapshot result" where
  "get_lifecycle_state g =
     rbind (check_storage g) (\<lambda>_.
     rbind (snapshot g) (\<lambda>s. Inr (s\<lparr>
       ms_active_runs := count_kind g ''run'', ms_active_tool_calls := count_kind g ''tool'',
       ms_active_background_jobs := count_kind g ''background'',
       ms_active_db_transactions := count_kind g ''db'',
       ms_active_work := map (\<lambda>x. \<lparr>wi_kind = ws_kind x, wi_writer_id = ws_writer_id x,
          wi_operation_id = ws_logical_operation_id x\<rparr>) (gt_active g)\<rparr>)))"

subsection \<open>Admission\<close>

definition add_scope :: "WriteScope \<Rightarrow> gate \<Rightarrow> gate" where
  "add_scope s g = g\<lparr>gt_active := upsert_row ws_scope_id replace_row s (gt_active g)\<rparr>"

definition drop_scope :: "WriteScope \<Rightarrow> gate \<Rightarrow> gate" where
  "drop_scope s g = g\<lparr>gt_active := filter (\<lambda>x. ws_scope_id x \<noteq> ws_scope_id s) (gt_active g)\<rparr>"

definition admit_work ::
  "MaintenanceSnapshot \<Rightarrow> WriteScope option \<Rightarrow> nat option \<Rightarrow> bool \<Rightarrow> unit result" where
  "admit_work state parent maintenance_epoch continuation =
    (case maintenance_epoch of
       Some e \<Rightarrow>
         raise_if (e \<noteq> ms_maintenance_epoch state
                   \<or> ms_state state \<notin> {QUIESCING, QUIESCED, RESTORING, RESUMING})
           (MaintenanceBlockedError ''Invalid maintenance scope'')
     | None \<Rightarrow>
         if ms_state state = RUNNING then Inr ()
         else if \<not> continuation \<or> parent = None
         then Inl (MaintenanceBlockedError ''new work denied'')
         else raise_if (ms_state state \<notin> {QUIESCING, FAILED})
                (MaintenanceBlockedError ''Agent Home is frozen''))"

text \<open>Entering the \<^verbatim>\<open>work\<close> context manager; leaving it is \<open>drop_scope\<close>.\<close>

definition work ::
  "gate \<Rightarrow> WriteScope option \<Rightarrow> string \<Rightarrow> string \<Rightarrow> string \<Rightarrow> string \<Rightarrow> nat option \<Rightarrow> bool
     \<Rightarrow> (gate \<times> WriteScope) result" where
  "work g ctx uuid writer_id operation_id kind maintenance_epoch continuation =
     rbind (check_storage g) (\<lambda>_.
     rbind (snapshot g) (\<lambda>state.
     rbind (admit_work state (current_scope g ctx) maintenance_epoch continuation) (\<lambda>_.
     let scope = \<lparr>ws_writer_id = writer_id, ws_logical_operation_id = operation_id,
           ws_maintenance_epoch = maintenance_epoch, ws_maintenance = (maintenance_epoch \<noteq> None),
           ws_generation = ms_maintenance_epoch state, ws_gate_id = gt_id g, ws_scope_id = uuid,
           ws_kind = kind\<rparr>
     in Inr (add_scope scope g, scope))))"

definition existing_work_control :: "gate \<Rightarrow> string \<Rightarrow> string \<Rightarrow> (gate \<times> WriteScope) result" where
  "existing_work_control g uuid operation_id =
     rbind (snapshot g) (\<lambda>state.
     if ms_state state \<notin> {RUNNING, QUIESCING, FAILED}
     then Inl (MaintenanceBlockedError ''Frozen Gateway cannot mutate an existing Run'')
     else let scope = \<lparr>ws_writer_id = ''existing-run-control'', ws_logical_operation_id = operation_id,
                ws_maintenance_epoch = None, ws_maintenance = False,
                ws_generation = ms_maintenance_epoch state, ws_gate_id = gt_id g,
                ws_scope_id = uuid, ws_kind = ''control''\<rparr>
          in Inr (add_scope scope g, scope))"

definition check_mutation_admission :: "gate \<Rightarrow> WriteScope option \<Rightarrow> unit result" where
  "check_mutation_admission g ctx =
     rbind (check_storage g) (\<lambda>_.
     rbind (snapshot g) (\<lambda>state.
     if ms_state state = RUNNING then Inr ()
     else case current_scope g ctx of
            None \<Rightarrow> Inl (MaintenanceBlockedError ''mutation denied'')
          | Some scope \<Rightarrow>
              if ws_maintenance scope \<and> ws_maintenance_epoch scope = Some (ms_maintenance_epoch state)
              then Inr ()
              else if \<not> ws_maintenance scope \<and> ms_state state \<in> {QUIESCING, FAILED} then Inr ()
              else Inl (MaintenanceBlockedError ''mutation denied'')))"

definition require_write_scope :: "gate \<Rightarrow> WriteScope option \<Rightarrow> bool \<Rightarrow> WriteScope result" where
  "require_write_scope g ctx maintenance_allowed =
    (case current_scope g ctx of
       None \<Rightarrow> Inl (MaintenanceBlockedError ''Missing valid Agent Home WriteScope'')
     | Some scope \<Rightarrow>
         if ws_maintenance scope \<and> \<not> maintenance_allowed
         then Inl (MaintenanceBlockedError ''Missing valid Agent Home WriteScope'')
         else rbind (check_mutation_admission g ctx) (\<lambda>_. Inr scope))"

text \<open>Entering \<^verbatim>\<open>database_transaction\<close>: the scope is registered but never becomes the caller's scope.\<close>

definition database_transaction ::
  "gate \<Rightarrow> WriteScope option \<Rightarrow> string \<Rightarrow> bool \<Rightarrow> (gate \<times> WriteScope) result" where
  "database_transaction g ctx uuid read_only_allowed =
     rbind (if read_only_allowed then Inr () else check_mutation_admission g ctx) (\<lambda>_.
     rbind (snapshot g) (\<lambda>state.
     let parent = current_scope g ctx;
         scope = \<lparr>ws_writer_id = ''sqlite'', ws_logical_operation_id = ''transaction'',
           ws_maintenance_epoch = Option.bind parent ws_maintenance_epoch,
           ws_maintenance = (case parent of None \<Rightarrow> False | Some p \<Rightarrow> ws_maintenance p),
           ws_generation = ms_maintenance_epoch state, ws_gate_id = gt_id g, ws_scope_id = uuid,
           ws_kind = ''db''\<rparr>
     in Inr (add_scope scope g, scope)))"

subsection \<open>Maintenance steps\<close>

definition check_epoch :: "gate \<Rightarrow> nat \<Rightarrow> unit result" where
  "check_epoch g epoch =
     rbind (snapshot g) (\<lambda>s.
     raise_if (epoch \<noteq> ms_maintenance_epoch s) (MaintenanceBlockedError ''Stale maintenance epoch''))"

definition guarded :: "unit result \<Rightarrow> gate \<Rightarrow> gate \<times> MaintenanceSnapshot result
     \<Rightarrow> gate \<times> MaintenanceSnapshot result" where
  "guarded check g next = (case check of Inl e \<Rightarrow> (g, Inl e) | Inr _ \<Rightarrow> next)"

definition state_of :: "gate \<Rightarrow> MaintenanceState" where
  "state_of g = (case snapshot g of Inr s \<Rightarrow> ms_state s | Inl _ \<Rightarrow> FAILED)"

definition begin_draining ::
  "bool \<Rightarrow> timestamp \<Rightarrow> string \<Rightarrow> gate \<Rightarrow> nat \<Rightarrow> gate \<times> MaintenanceSnapshot result" where
  "begin_draining disk now uuid g epoch =
     guarded (rbind (snapshot g) (\<lambda>s. raise_if (epoch \<le> ms_maintenance_epoch s)
                (MaintenanceBlockedError ''maintenance_epoch must increase''))) g
       (transition disk now g (state_of g) QUIESCING ''quiesce''
          [MaintenanceEpoch epoch, OperationId uuid, StartedAt now] None)"

definition freeze :: "bool \<Rightarrow> timestamp \<Rightarrow> gate \<Rightarrow> nat \<Rightarrow> gate \<times> MaintenanceSnapshot result" where
  "freeze disk now g epoch =
     guarded (check_epoch g epoch) g
       (transition disk now g QUIESCING QUIESCED ''work drained'' [] None)"

definition begin_restore :: "bool \<Rightarrow> timestamp \<Rightarrow> gate \<Rightarrow> nat \<Rightarrow> gate \<times> MaintenanceSnapshot result" where
  "begin_restore disk now g epoch =
     guarded (check_epoch g epoch) g (transition disk now g QUIESCED RESTORING ''restore'' [] None)"

definition begin_resuming :: "bool \<Rightarrow> timestamp \<Rightarrow> gate \<Rightarrow> nat \<Rightarrow> gate \<times> MaintenanceSnapshot result" where
  "begin_resuming disk now g epoch =
     guarded (check_epoch g epoch) g
       (transition disk now g (state_of g) RESUMING ''health validation'' [] None)"

definition running :: "bool \<Rightarrow> timestamp \<Rightarrow> gate \<Rightarrow> nat \<Rightarrow> gate \<times> MaintenanceSnapshot result" where
  "running disk now g epoch =
     guarded (check_epoch g epoch) g
       (transition disk now g RESUMING RUNNING ''health checks passed''
          [FailureReason None, ActiveWork []] None)"

definition fail ::
  "bool \<Rightarrow> timestamp \<Rightarrow> gate \<Rightarrow> nat \<Rightarrow> string \<Rightarrow> gate \<times> MaintenanceSnapshot result" where
  "fail disk now g epoch reason =
     guarded (check_epoch g epoch) g
       (case get_lifecycle_state g of
          Inl e \<Rightarrow> (g, if state_of g \<noteq> FAILED then Inl e else snapshot g)
        | Inr live \<Rightarrow>
            if state_of g \<noteq> FAILED
            then transition disk now g (state_of g) FAILED reason
                   [FailureReason (Some (take 500 reason)), ActiveWork (ms_active_work live)] None
            else (g, snapshot g))"

end
