(* ===== verification/State_Controller.thy ===== *)
theory State_Controller
  imports Finalize_Control Write_Gate
begin

section \<open>The state controller\<close>

text \<open>
  \<^verbatim>\<open>StateController.apply\<close>, \<^verbatim>\<open>create_run\<close>, \<^verbatim>\<open>create_state\<close> and \<^verbatim>\<open>reserve_idempotency\<close> of
  \<^verbatim>\<open>gateway/state_controller.py\<close>. Every branch of the command dispatch is one definition that returns an
  \<open>outcome\<close>: the database after the branch's own writes, the new state, the records \<^verbatim>\<open>apply\<close> then saves and,
  for a transition, the reason it logs. A transaction is one function from \<open>db\<close>; an exception is an \<open>Inl\<close>
  and leaves no database.

  A controller is its gateway epoch, its write gate, the environment and \<open>dump_json\<close>, the text pydantic
  prints for a command. Stored results are kept as values: \<^verbatim>\<open>_encode_processed_command_result\<close> and the
  JSON round trip of \<open>ApplyResult\<close> are not modelled.
\<close>

record controller =
  ct_env :: env
  ct_gateway_epoch :: string
  ct_write_gate :: "gate option"
  ct_dump_json :: "StateCommand \<Rightarrow> string"

record outcome =
  oc_db :: db
  oc_state :: AgentState
  oc_operation :: "OperationRecord option"
  oc_attempt :: "OperationAttempt option"
  oc_approval :: "DurableApproval option"
  oc_transition :: "string option"

definition state_outcome :: "db \<Rightarrow> AgentState \<Rightarrow> outcome" where
  "state_outcome d st = \<lparr>oc_db = d, oc_state = st, oc_operation = None, oc_attempt = None,
     oc_approval = None, oc_transition = None\<rparr>"

definition attempt_outcome ::
  "db \<Rightarrow> AgentState \<Rightarrow> OperationRecord \<Rightarrow> OperationAttempt \<Rightarrow> outcome" where
  "attempt_outcome d st op a =
     (state_outcome d st)\<lparr>oc_operation := Some op, oc_attempt := Some a\<rparr>"

subsection \<open>State branches\<close>

definition adopt_gateway_epoch ::
  "controller \<Rightarrow> db \<Rightarrow> AgentState \<Rightarrow> string \<Rightarrow> timestamp \<Rightarrow> outcome result" where
  "adopt_gateway_epoch C d st previous_epoch ts =
     Inr (state_outcome d (st\<lparr>st_gateway_epoch := ct_gateway_epoch C,
       st_diagnostics := dict_set ''last_epoch_adoption''
         (JObj [(''from'', JStr previous_epoch), (''at'', JStr (iso (ct_env C) ts))])
         (st_diagnostics st)\<rparr>))"

definition transition_command ::
  "db \<Rightarrow> AgentState \<Rightarrow> TransitionCommand \<Rightarrow> timestamp \<Rightarrow> outcome result" where
  "transition_command d st c ts =
     (if tc_task_state c \<in> {Some TaskState.SUCCEEDED, Some TaskState.FAILED, Some TaskState.CANCELLED}
      then Inl (StateInvariantError ''normal terminal states need FinalizeTerminalCommand'')
      else rbind (apply_transition st c ts) (\<lambda>st'.
           Inr ((state_outcome d st')\<lparr>oc_transition := Some (tc_reason c)\<rparr>)))"

definition or_keep :: "'a option \<Rightarrow> 'a \<Rightarrow> 'a" where
  "or_keep new old = (case new of None \<Rightarrow> old | Some x \<Rightarrow> x)"

definition update_state_metadata ::
  "db \<Rightarrow> AgentState \<Rightarrow> UpdateStateMetadataCommand \<Rightarrow> outcome result" where
  "update_state_metadata d st c =
     Inr (state_outcome d (st\<lparr>
       st_model_attempt := or_keep (um_model_attempt c) (st_model_attempt st),
       st_recovery_attempt := or_keep (um_recovery_attempt c) (st_recovery_attempt st),
       st_input_tokens := or_keep (um_input_tokens c) (st_input_tokens st),
       st_output_tokens := or_keep (um_output_tokens c) (st_output_tokens st),
       st_last_progress_at := or_keep (um_last_progress_at c) (st_last_progress_at st),
       st_diagnostics := (case um_diagnostics c of
           None \<Rightarrow> st_diagnostics st
         | Some g \<Rightarrow> dict_merge (st_diagnostics st) (sanitize_dict g))\<rparr>))"

definition record_runtime_event :: "db \<Rightarrow> AgentState \<Rightarrow> bool \<Rightarrow> timestamp \<Rightarrow> outcome result" where
  "record_runtime_event d st mark_progress ts =
     Inr (state_outcome d (if mark_progress then st\<lparr>st_last_progress_at := ts\<rparr> else st))"

definition bind_session :: "db \<Rightarrow> AgentState \<Rightarrow> string \<Rightarrow> outcome result" where
  "bind_session d st session_id =
     (if st_session_id st \<noteq> None \<and> st_session_id st \<noteq> Some session_id
      then Inl (StateConflictError ''Run is bound to another Session'')
      else Inr (state_outcome d (st\<lparr>st_session_id := Some session_id\<rparr>)))"

definition upgrade_persistence_contract :: "db \<Rightarrow> AgentState \<Rightarrow> outcome result" where
  "upgrade_persistence_contract d st =
     (if st_task_state st = TaskState.FINALIZING \<or> st_task_state st \<in> set TERMINAL_STATES
      then Inl (StateInvariantError ''Persistence contract must be fixed before FINALIZING'')
      else if st_persistence_contract st \<noteq> CONTROL_ONLY
      then if st_persistence_contract st \<noteq> SESSION_BACKED_WORKLOAD
           then Inl (StateConflictError ''Persistence contract cannot be replaced or downgraded'')
           else Inr (state_outcome d st)
      else Inr (state_outcome d (st\<lparr>st_persistence_contract := SESSION_BACKED_WORKLOAD\<rparr>)))"

definition request_cancellation :: "db \<Rightarrow> AgentState \<Rightarrow> string \<Rightarrow> outcome result" where
  "request_cancellation d st reason =
     Inr (state_outcome d (st\<lparr>st_cancellation_requested := True,
       st_recovery_reason := Some (sanitize_text reason)\<rparr>))"

subsection \<open>Finalize branches\<close>

definition generation_record ::
  "AgentState \<Rightarrow> nat \<Rightarrow> nat option \<Rightarrow> timestamp \<Rightarrow> FinalizeGenerationRecord" where
  "generation_record st g supersedes ts = \<lparr>
     fg_run_id = st_run_id st, fg_generation = g, fg_terminal_target = the (st_terminal_target st),
     fg_persistence_contract = st_persistence_contract st, fg_created_at = ts,
     fg_supersedes_generation = supersedes\<rparr>"

definition start_replacement_finalize_generation ::
  "db \<Rightarrow> AgentState \<Rightarrow> nat \<Rightarrow> nat \<Rightarrow> timestamp \<Rightarrow> outcome result" where
  "start_replacement_finalize_generation d st g invalidated ts =
     (if st_task_state st \<noteq> TaskState.FINALIZING \<or> st_terminal_target st = None
      then Inl (StateInvariantError ''Replacement finalize generation requires FINALIZING'')
      else if st_finalize_generation st \<noteq> Some invalidated
      then Inl (StateConflictError ''Finalize generation changed before replacement'')
      else if g \<noteq> invalidated + 1
      then Inl (StateInvariantError ''Finalize generation must increase by exactly one'')
      else if \<not> list_ex (\<lambda>x. iv_run_id x = st_run_id st \<and> iv_generation x = invalidated)
                  (finalize_generation_invalidations d)
      then Inl (StateInvariantError ''Replacement requires a durable invalidation'')
      else rbind (insert_finalize_generation d (generation_record st g (Some invalidated) ts)) (\<lambda>d1.
           Inr (state_outcome d1 (st\<lparr>st_finalize_generation := Some g\<rparr>))))"

definition start_finalize_generation ::
  "db \<Rightarrow> AgentState \<Rightarrow> nat \<Rightarrow> nat option \<Rightarrow> timestamp \<Rightarrow> outcome result" where
  "start_finalize_generation d st g supersedes ts =
     (if st_task_state st \<noteq> TaskState.FINALIZING \<or> st_terminal_target st = None
      then Inl (StateInvariantError ''Finalize generation requires FINALIZING'')
      else case st_finalize_generation st of
        None \<Rightarrow>
          if g \<noteq> 1 \<or> supersedes \<noteq> None
          then Inl (StateInvariantError ''First finalize generation must be generation 1'')
          else rbind (insert_finalize_generation d (generation_record st 1 None ts)) (\<lambda>d1.
               Inr (state_outcome d1 (st\<lparr>st_finalize_generation := Some 1\<rparr>)))
      | Some current \<Rightarrow>
          if current \<noteq> g then Inl (StateConflictError ''Finalize generation already exists'')
          else Inr (state_outcome d st))"

definition invalidate_finalize_generation ::
  "db \<Rightarrow> AgentState \<Rightarrow> string \<Rightarrow> nat \<Rightarrow> string \<Rightarrow> timestamp \<Rightarrow> outcome result" where
  "invalidate_finalize_generation d st command_id g reason ts =
     (if st_finalize_generation st \<noteq> Some g
      then Inl (StateConflictError ''Only the current finalize generation can be invalidated'')
      else if lookup_row iv_command_id command_id (finalize_generation_invalidations d) \<noteq> None
              \<or> \<not> list_ex (\<lambda>x. fg_run_id x = st_run_id st \<and> fg_generation x = g)
                    (finalize_generations d)
      then Inl (IntegrityError ''finalize_generation_invalidations'')
      else Inr (state_outcome (d\<lparr>finalize_generation_invalidations :=
             finalize_generation_invalidations d @ [\<lparr>iv_command_id = command_id,
               iv_run_id = st_run_id st, iv_generation = g, iv_reason = sanitize_text reason,
               iv_created_at = ts\<rparr>]\<rparr>) st))"

definition terminal_transition :: "TerminalTarget \<Rightarrow> string \<Rightarrow> TransitionCommand" where
  "terminal_transition target reason = \<lparr>tc_task_state = Some (task_state_of_target target),
     tc_execution_state = None, tc_outcome = None, tc_finish_reason = None,
     tc_terminal_target = None, tc_reason = reason, tc_error = None, tc_result_summary = None\<rparr>"

definition finalize_terminal ::
  "env \<Rightarrow> db \<Rightarrow> AgentState \<Rightarrow> nat \<Rightarrow> string \<Rightarrow> timestamp \<Rightarrow> outcome result" where
  "finalize_terminal E d st g reason ts =
     (if st_task_state st \<noteq> TaskState.FINALIZING
      then Inl (StateInvariantError ''FinalizeTerminalCommand requires FINALIZING + terminal_target'')
      else case st_terminal_target st of
        None \<Rightarrow> Inl (StateInvariantError ''FinalizeTerminalCommand requires FINALIZING + terminal_target'')
      | Some target \<Rightarrow>
          rbind (validate_terminal_finalize E d st g) (\<lambda>_.
          rbind (apply_transition st (terminal_transition target reason) ts) (\<lambda>st'.
          Inr ((state_outcome d st')\<lparr>oc_transition := Some reason\<rparr>))))"

subsection \<open>Operation branches\<close>

definition create_operation_command ::
  "db \<Rightarrow> AgentState \<Rightarrow> CreateOperationWithAttemptCommand \<Rightarrow> timestamp \<Rightarrow> outcome result" where
  "create_operation_command d st c ts =
     rbind (create_operation_with_attempt d st c ts) (\<lambda>(op, a).
     Inr (attempt_outcome d (st\<lparr>
       st_current_operation_id := Some (op_operation_id op),
       st_current_attempt_id := Some (at_attempt_id a),
       st_turn_id := or_else (co_turn_id c) (st_turn_id st),
       st_model_call_id := (if co_kind c = MODEL then at_model_call_id a else st_model_call_id st),
       st_tool_call_id := (if co_kind c = TOOL
                           then Some (or_text (co_tool_call_id c) (op_operation_id op))
                           else st_tool_call_id st)\<rparr>) op a))"

definition begin_attempt_command ::
  "db \<Rightarrow> AgentState \<Rightarrow> BeginOperationAttemptCommand \<Rightarrow> timestamp \<Rightarrow> outcome result" where
  "begin_attempt_command d st c ts =
     rbind (begin_operation_attempt d st c ts) (\<lambda>(op, a).
     Inr (attempt_outcome d (st\<lparr>
       st_current_operation_id := Some (op_operation_id op),
       st_current_attempt_id := Some (at_attempt_id a),
       st_model_call_id := (if op_kind op = MODEL then at_model_call_id a else st_model_call_id st)\<rparr>)
       op a))"

definition begin_operation_command ::
  "db \<Rightarrow> AgentState \<Rightarrow> BeginOperationCommand \<Rightarrow> timestamp \<Rightarrow> outcome result" where
  "begin_operation_command d st c ts =
     rbind (begin_operation d st c ts) (\<lambda>(d1, op).
     rbind (current_attempt_in d1 (op_operation_id op)) (\<lambda>a.
     Inr (attempt_outcome d1 (st\<lparr>
       st_current_operation_id := Some (op_operation_id op),
       st_current_attempt_id := Some (at_attempt_id a),
       st_turn_id := or_else (bo_turn_id c) (st_turn_id st),
       st_model_call_id := (if bo_kind c = MODEL then Some (op_operation_id op)
                            else st_model_call_id st),
       st_tool_call_id := (if bo_kind c = TOOL then Some (op_operation_id op)
                           else st_tool_call_id st)\<rparr>) op a)))"

text \<open>The dictionaries of attempt updates the branches pass to \<^verbatim>\<open>_update_attempt\<close>.\<close>

definition start_updates :: "timestamp \<Rightarrow> timestamp option \<Rightarrow> OperationAttempt \<Rightarrow> OperationAttempt" where
  "start_updates ts expires a = a\<lparr>at_status := OperationStatus.RUNNING, at_started_at := Some ts,
     at_heartbeat_at := Some ts, at_heartbeat_expires_at := expires\<rparr>"

definition complete_updates ::
  "timestamp \<Rightarrow> string \<Rightarrow> string \<Rightarrow> string \<Rightarrow> OperationAttempt \<Rightarrow> OperationAttempt" where
  "complete_updates ts res hash source a = a\<lparr>at_status := OperationStatus.COMPLETED,
     at_failure_kind := None, at_failure_reason := None, at_recovery_resolution := None,
     at_result := Some (sanitize_text res), at_result_hash := Some hash,
     at_result_source := Some source, at_completed_at := Some ts\<rparr>"

definition fail_updates ::
  "timestamp \<Rightarrow> OperationFailureKind \<Rightarrow> string \<Rightarrow> OperationAttempt \<Rightarrow> OperationAttempt" where
  "fail_updates ts kind reason a = a\<lparr>at_status := OperationStatus.FAILED, at_failure_kind := Some kind,
     at_failure_reason := Some (sanitize_text reason), at_completed_at := Some ts\<rparr>"

definition unknown_updates :: "string \<Rightarrow> OperationAttempt \<Rightarrow> OperationAttempt" where
  "unknown_updates reason a = a\<lparr>at_status := OperationStatus.UNKNOWN,
     at_failure_kind := Some UNKNOWN_EFFECT, at_failure_reason := Some (sanitize_text reason),
     at_recovery_resolution := Some UNRESOLVED\<rparr>"

definition skip_updates :: "timestamp \<Rightarrow> string \<Rightarrow> OperationAttempt \<Rightarrow> OperationAttempt" where
  "skip_updates ts reason a = a\<lparr>at_status := OperationStatus.SKIPPED,
     at_result_source := Some ''NOT_EXECUTED'', at_skip_reason := Some reason,
     at_completed_at := Some ts\<rparr>"

definition abandon_updates :: "timestamp \<Rightarrow> string \<Rightarrow> OperationAttempt \<Rightarrow> OperationAttempt" where
  "abandon_updates ts reason a = a\<lparr>at_status := OperationStatus.ABANDONED,
     at_abandonment_reason := Some (sanitize_text reason), at_completed_at := Some ts\<rparr>"

definition heartbeat_updates :: "timestamp \<Rightarrow> timestamp \<Rightarrow> OperationAttempt \<Rightarrow> OperationAttempt" where
  "heartbeat_updates beat expires a =
     a\<lparr>at_heartbeat_at := Some beat, at_heartbeat_expires_at := Some expires\<rparr>"

text \<open>
  A branch that updates one attempt and derives the new state from it. \<open>change\<close> gets the saved
  operation and attempt.
\<close>

definition attempt_command ::
  "db \<Rightarrow> AgentState \<Rightarrow> string \<Rightarrow> timestamp \<Rightarrow> OperationStatus list
     \<Rightarrow> (OperationAttempt \<Rightarrow> OperationAttempt)
     \<Rightarrow> (OperationRecord \<Rightarrow> OperationAttempt \<Rightarrow> AgentState) \<Rightarrow> outcome result" where
  "attempt_command d st attempt_id ts statuses upd change =
     rbind (update_attempt d st attempt_id ts statuses upd) (\<lambda>(op, a).
     Inr (attempt_outcome d (change op a) op a))"

text \<open>The branches addressed by operation select its current attempt first.\<close>

definition selected_attempt :: "db \<Rightarrow> string \<Rightarrow> (OperationRecord \<times> OperationAttempt) result" where
  "selected_attempt d operation_id =
     rbind (operation_in d operation_id) (\<lambda>op.
     rbind (current_attempt_in d (op_operation_id op)) (\<lambda>a. Inr (op, a)))"

definition start_attempt_command ::
  "db \<Rightarrow> AgentState \<Rightarrow> string \<Rightarrow> timestamp option \<Rightarrow> timestamp \<Rightarrow> outcome result" where
  "start_attempt_command d st attempt_id expires ts =
     attempt_command d st attempt_id ts [OperationStatus.PREPARED] (start_updates ts expires)
       (\<lambda>op a. st\<lparr>st_current_operation_id := Some (op_operation_id op),
                  st_current_attempt_id := Some (at_attempt_id a),
                  st_operation_started_at := Some ts, st_operation_heartbeat_at := Some ts,
                  st_last_progress_at := ts\<rparr>)"

definition is_finalize_key :: "string \<Rightarrow> bool" where
  "is_finalize_key key \<longleftrightarrow> take 12 key = ''finalize:v2:''"

definition complete_attempt_command ::
  "env \<Rightarrow> db \<Rightarrow> AgentState \<Rightarrow> string \<Rightarrow> string \<Rightarrow> string \<Rightarrow> string \<Rightarrow> timestamp \<Rightarrow> outcome result" where
  "complete_attempt_command E d st attempt_id res hash source ts =
     rbind (attempt_in d attempt_id) (\<lambda>sel.
     rbind (operation_in d (at_operation_id sel)) (\<lambda>op0.
     rbind (if is_finalize_key (op_stable_key op0)
            then if at_status sel \<noteq> OperationStatus.RUNNING
                 then Inl (StateInvariantError ''Finalize file Attempt must be RUNNING before completion'')
                 else rbind (validate_finalize_evidence E st op0 sel res hash) (\<lambda>_. Inr ())
            else Inr ()) (\<lambda>_.
     attempt_command d st attempt_id ts [OperationStatus.RUNNING, OperationStatus.UNKNOWN]
       (complete_updates ts res hash source) (\<lambda>op a. st\<lparr>st_last_progress_at := ts\<rparr>))))"

definition fail_attempt_command ::
  "db \<Rightarrow> AgentState \<Rightarrow> string \<Rightarrow> OperationFailureKind \<Rightarrow> string \<Rightarrow> timestamp \<Rightarrow> outcome result" where
  "fail_attempt_command d st attempt_id kind reason ts =
     attempt_command d st attempt_id ts [OperationStatus.PREPARED, OperationStatus.RUNNING]
       (fail_updates ts kind reason) (\<lambda>op a. st\<lparr>st_last_progress_at := ts\<rparr>)"

definition mark_attempt_unknown_command ::
  "db \<Rightarrow> AgentState \<Rightarrow> string \<Rightarrow> string \<Rightarrow> timestamp \<Rightarrow> outcome result" where
  "mark_attempt_unknown_command d st attempt_id reason ts =
     attempt_command d st attempt_id ts [OperationStatus.RUNNING] (unknown_updates reason)
       (\<lambda>op a. st\<lparr>st_recovery_reason := at_failure_reason a\<rparr>)"

definition skip_attempt_command ::
  "db \<Rightarrow> AgentState \<Rightarrow> string \<Rightarrow> string \<Rightarrow> timestamp \<Rightarrow> outcome result" where
  "skip_attempt_command d st attempt_id reason ts =
     attempt_command d st attempt_id ts [OperationStatus.PREPARED]
       (skip_updates ts (sanitize_text reason)) (\<lambda>op a. st)"

definition abandon_attempt_command ::
  "db \<Rightarrow> AgentState \<Rightarrow> string \<Rightarrow> string \<Rightarrow> timestamp \<Rightarrow> outcome result" where
  "abandon_attempt_command d st attempt_id reason ts =
     attempt_command d st attempt_id ts [OperationStatus.PREPARED, OperationStatus.RUNNING]
       (abandon_updates ts reason) (\<lambda>op a. st)"

definition heartbeat_attempt_command ::
  "db \<Rightarrow> AgentState \<Rightarrow> string \<Rightarrow> timestamp \<Rightarrow> timestamp \<Rightarrow> timestamp \<Rightarrow> outcome result" where
  "heartbeat_attempt_command d st attempt_id beat expires ts =
     attempt_command d st attempt_id ts [OperationStatus.RUNNING] (heartbeat_updates beat expires)
       (\<lambda>op a. st\<lparr>st_operation_heartbeat_at := Some beat\<rparr>)"

definition reconcile_attempt_command ::
  "env \<Rightarrow> db \<Rightarrow> AgentState \<Rightarrow> string \<Rightarrow> ReconcileResult \<Rightarrow> timestamp \<Rightarrow> outcome result" where
  "reconcile_attempt_command E d st attempt_id r ts =
     rbind (reconcile_attempt E d st attempt_id r ts) (\<lambda>(op, a). Inr (attempt_outcome d st op a))"

definition start_operation_command ::
  "db \<Rightarrow> AgentState \<Rightarrow> string \<Rightarrow> timestamp option \<Rightarrow> timestamp \<Rightarrow> outcome result" where
  "start_operation_command d st operation_id expires ts =
     rbind (selected_attempt d operation_id) (\<lambda>(_, sel).
     attempt_command d st (at_attempt_id sel) ts [OperationStatus.PREPARED] (start_updates ts expires)
       (\<lambda>op a. st\<lparr>st_operation_started_at := Some ts, st_operation_heartbeat_at := Some ts,
                  st_last_progress_at := ts\<rparr>))"

definition complete_operation_command ::
  "db \<Rightarrow> AgentState \<Rightarrow> string \<Rightarrow> string \<Rightarrow> string \<Rightarrow> string \<Rightarrow> timestamp \<Rightarrow> outcome result" where
  "complete_operation_command d st operation_id res hash source ts =
     rbind (selected_attempt d operation_id) (\<lambda>(_, sel).
     attempt_command d st (at_attempt_id sel) ts [OperationStatus.RUNNING, OperationStatus.UNKNOWN]
       (complete_updates ts res hash source) (\<lambda>op a. st\<lparr>st_last_progress_at := ts\<rparr>))"

definition fail_operation_command ::
  "db \<Rightarrow> AgentState \<Rightarrow> string \<Rightarrow> string \<Rightarrow> OperationFailureKind \<Rightarrow> timestamp \<Rightarrow> outcome result" where
  "fail_operation_command d st operation_id err kind ts =
     rbind (selected_attempt d operation_id) (\<lambda>(_, sel).
     attempt_command d st (at_attempt_id sel) ts [OperationStatus.PREPARED, OperationStatus.RUNNING]
       (fail_updates ts kind err) (\<lambda>op a. st\<lparr>st_last_progress_at := ts\<rparr>))"

definition mark_operation_unknown_command ::
  "db \<Rightarrow> AgentState \<Rightarrow> string \<Rightarrow> string \<Rightarrow> timestamp \<Rightarrow> outcome result" where
  "mark_operation_unknown_command d st operation_id reason ts =
     rbind (selected_attempt d operation_id) (\<lambda>(_, sel).
     attempt_command d st (at_attempt_id sel) ts [OperationStatus.RUNNING] (unknown_updates reason)
       (\<lambda>op a. st\<lparr>st_recovery_reason := op_unknown_reason op\<rparr>))"

definition abandon_operation_command ::
  "db \<Rightarrow> AgentState \<Rightarrow> string \<Rightarrow> string \<Rightarrow> timestamp \<Rightarrow> outcome result" where
  "abandon_operation_command d st operation_id reason ts =
     rbind (operation_in d operation_id) (\<lambda>op0.
     if op_run_id op0 \<noteq> st_run_id st \<or> op_kind op0 \<noteq> MODEL
     then Inl (StateInvariantError ''only a model Operation of this Run can be abandoned'')
     else rbind (current_attempt_in d (op_operation_id op0)) (\<lambda>sel.
       attempt_command d st (at_attempt_id sel) ts [OperationStatus.PREPARED, OperationStatus.RUNNING]
         (abandon_updates ts reason) (\<lambda>op a. st)))"

definition heartbeat_operation_command ::
  "db \<Rightarrow> AgentState \<Rightarrow> string \<Rightarrow> timestamp \<Rightarrow> timestamp \<Rightarrow> timestamp \<Rightarrow> outcome result" where
  "heartbeat_operation_command d st operation_id beat expires ts =
     rbind (selected_attempt d operation_id) (\<lambda>(_, sel).
     attempt_command d st (at_attempt_id sel) ts [OperationStatus.RUNNING]
       (heartbeat_updates beat expires) (\<lambda>op a. st\<lparr>st_operation_heartbeat_at := Some beat\<rparr>))"

definition reconcile_operation_command ::
  "env \<Rightarrow> db \<Rightarrow> AgentState \<Rightarrow> string \<Rightarrow> ReconcileResult \<Rightarrow> timestamp \<Rightarrow> outcome result" where
  "reconcile_operation_command E d st operation_id r ts =
     rbind (selected_attempt d operation_id) (\<lambda>(_, sel).
     reconcile_attempt_command E d st (at_attempt_id sel) r ts)"

subsection \<open>Approval and checkpoint branches\<close>

definition create_approval :: "db \<Rightarrow> AgentState \<Rightarrow> DurableApproval \<Rightarrow> timestamp \<Rightarrow> outcome result" where
  "create_approval d st ap ts =
     (if ap_run_id ap \<noteq> st_run_id st
      then Inl (StateInvariantError ''Approval belongs to another Run'')
      else rbind (attempt_in d (ap_attempt_id ap)) (\<lambda>sa.
           rbind (operation_in d (ap_operation_id ap)) (\<lambda>so.
           if at_operation_id sa \<noteq> ap_operation_id ap \<or> at_attempt_no sa \<noteq> ap_attempt_no ap
              \<or> op_request_hash so \<noteq> ap_request_hash ap
           then Inl (StateInvariantError ''Approval does not match the frozen Tool Attempt'')
           else rbind (insert_approval d ap ts) (\<lambda>d1.
             Inr ((state_outcome d1 (st\<lparr>st_approval_id := Some (ap_approval_id ap)\<rparr>))
                    \<lparr>oc_approval := Some ap\<rparr>)))))"

definition decide_approval ::
  "db \<Rightarrow> AgentState \<Rightarrow> string \<Rightarrow> bool \<Rightarrow> string \<Rightarrow> string \<Rightarrow> timestamp \<Rightarrow> outcome result" where
  "decide_approval d st approval_id approved decided_by reason ts =
     rbind (approval_in d approval_id) (\<lambda>ap.
     let desired = (if approved then ApprovalStatus.APPROVED else ApprovalStatus.DENIED) in
     if ap_run_id ap \<noteq> st_run_id st
     then Inl (StateInvariantError ''Approval belongs to another Run'')
     else if ap_status ap \<noteq> ApprovalStatus.PENDING \<and> ap_status ap \<noteq> desired
     then Inl (StateConflictError ''Approval already has the opposite decision'')
     else if ap_status ap \<noteq> ApprovalStatus.PENDING
     then Inr ((state_outcome d st)\<lparr>oc_approval := Some ap\<rparr>)
     else
       let ap' = ap\<lparr>ap_status := desired, ap_decided_at := Some ts, ap_decided_by := Some decided_by,
                   ap_reason := Some (sanitize_text reason)\<rparr>
       in if desired = ApprovalStatus.DENIED \<and> ap_attempt_id ap' \<noteq> []
          then rbind (update_attempt d st (ap_attempt_id ap') ts [OperationStatus.PREPARED]
                        (skip_updates ts ''approval_denied'')) (\<lambda>(op, a).
               Inr ((attempt_outcome d st op a)\<lparr>oc_approval := Some ap'\<rparr>))
          else Inr ((state_outcome d st)\<lparr>oc_approval := Some ap'\<rparr>))"

definition expire_approval :: "db \<Rightarrow> AgentState \<Rightarrow> string \<Rightarrow> timestamp \<Rightarrow> outcome result" where
  "expire_approval d st approval_id ts =
     rbind (approval_in d approval_id) (\<lambda>ap.
     if ap_run_id ap \<noteq> st_run_id st
     then Inl (StateInvariantError ''Approval belongs to another Run'')
     else if ap_status ap \<noteq> ApprovalStatus.PENDING
     then Inr ((state_outcome d st)\<lparr>oc_approval := Some ap\<rparr>)
     else if ts < ap_expires_at ap
     then Inl (StateInvariantError ''Approval has not expired'')
     else
       let ap' = ap\<lparr>ap_status := ApprovalStatus.TIMEOUT, ap_decided_at := Some ts,
                   ap_decided_by := Some ''gateway-timeout'', ap_reason := Some ''approval expired''\<rparr>
       in if ap_attempt_id ap' \<noteq> []
          then rbind (update_attempt d st (ap_attempt_id ap') ts [OperationStatus.PREPARED]
                        (skip_updates ts ''approval_timeout'')) (\<lambda>(op, a).
               Inr ((attempt_outcome d st op a)\<lparr>oc_approval := Some ap'\<rparr>))
          else Inr ((state_outcome d st)\<lparr>oc_approval := Some ap'\<rparr>))"

definition create_safe_checkpoint :: "db \<Rightarrow> AgentState \<Rightarrow> SafeCheckpoint \<Rightarrow> outcome result" where
  "create_safe_checkpoint d st cp =
     (if list_ex (\<lambda>r. ar_run_id r = st_run_id st \<and> row_active_effect r) (operation_attempts d)
      then Inl (StateInvariantError ''undetermined side effect, no SafeCheckpoint'')
      else if cp_run_id cp \<noteq> st_run_id st \<or> cp_state_revision cp \<noteq> st_revision st
      then Inl (StateInvariantError ''SafeCheckpoint Run or revision mismatch'')
      else
        rbind (if truthy (cp_current_attempt_id cp)
               then rbind (attempt_in d (the (cp_current_attempt_id cp))) (\<lambda>a.
                    raise_if (Some (at_operation_id a) \<noteq> cp_current_operation_id cp)
                      (StateInvariantError ''SafeCheckpoint Operation/Attempt mismatch''))
               else Inr ()) (\<lambda>_.
        rbind (if truthy (cp_last_determined_attempt_id cp)
               then rbind (attempt_in d (the (cp_last_determined_attempt_id cp))) (\<lambda>a.
                    raise_if (at_status a \<in> {OperationStatus.PREPARED, OperationStatus.RUNNING,
                                             OperationStatus.UNKNOWN})
                      (StateInvariantError ''SafeCheckpoint points to an undetermined Attempt''))
               else Inr ()) (\<lambda>_.
        Inr (state_outcome d (st\<lparr>st_safe_checkpoint := Some cp\<rparr>)))))"

subsection \<open>Dispatch\<close>

definition attempt_pair_outcome ::
  "AgentState \<Rightarrow> (db \<times> OperationRecord \<times> OperationAttempt) result \<Rightarrow> outcome result" where
  "attempt_pair_outcome st r = rbind r (\<lambda>(d, op, a). Inr (attempt_outcome d st op a))"

fun dispatch ::
  "controller \<Rightarrow> db \<Rightarrow> AgentState \<Rightarrow> StateCommand \<Rightarrow> call \<Rightarrow> Command \<Rightarrow> outcome result" where
  "dispatch C d st k x (AdoptGatewayEpoch prev reason) = adopt_gateway_epoch C d st prev (cx_now x)"
| "dispatch C d st k x (Transition c) = transition_command d st c (cx_now x)"
| "dispatch C d st k x (UpdateStateMetadata c) = update_state_metadata d st c"
| "dispatch C d st k x (RecordRuntimeEvent t p m) = record_runtime_event d st m (cx_now x)"
| "dispatch C d st k x (BindSession s) = bind_session d st s"
| "dispatch C d st k x (UpgradePersistenceContract reason) = upgrade_persistence_contract d st"
| "dispatch C d st k x (StartReplacementFinalizeGeneration g old dead reason) =
     start_replacement_finalize_generation d st g dead (cx_now x)"
| "dispatch C d st k x (StartFinalizeGeneration g old) = start_finalize_generation d st g old (cx_now x)"
| "dispatch C d st k x (InvalidateFinalizeGeneration g reason) =
     invalidate_finalize_generation d st (cmd_command_id k) g reason (cx_now x)"
| "dispatch C d st k x (FinalizeAudit c) =
     attempt_pair_outcome st (finalize_audit (ct_env C) d st c (cx_now x))"
| "dispatch C d st k x (FinalizeInbox c) =
     attempt_pair_outcome st (finalize_inbox (ct_env C) d st c (cx_now x))"
| "dispatch C d st k x (FinalizeTerminal g reason) =
     finalize_terminal (ct_env C) d st g reason (cx_now x)"
| "dispatch C d st k x (CreateOperationWithAttempt c) = create_operation_command d st c (cx_now x)"
| "dispatch C d st k x (BeginOperationAttempt c) = begin_attempt_command d st c (cx_now x)"
| "dispatch C d st k x (StartOperationAttempt i e) = start_attempt_command d st i e (cx_now x)"
| "dispatch C d st k x (CompleteOperationAttempt i r h s) =
     complete_attempt_command (ct_env C) d st i r h s (cx_now x)"
| "dispatch C d st k x (FailOperationAttempt i kind r) = fail_attempt_command d st i kind r (cx_now x)"
| "dispatch C d st k x (MarkOperationAttemptUnknown i r) = mark_attempt_unknown_command d st i r (cx_now x)"
| "dispatch C d st k x (SkipOperationAttempt i r) = skip_attempt_command d st i r (cx_now x)"
| "dispatch C d st k x (AbandonOperationAttempt i r) = abandon_attempt_command d st i r (cx_now x)"
| "dispatch C d st k x (HeartbeatOperationAttempt i b e) = heartbeat_attempt_command d st i b e (cx_now x)"
| "dispatch C d st k x (ReconcileOperationAttempt i r) =
     reconcile_attempt_command (ct_env C) d st i r (cx_now x)"
| "dispatch C d st k x (BeginOperation c) = begin_operation_command d st c (cx_now x)"
| "dispatch C d st k x (StartOperation i e) = start_operation_command d st i e (cx_now x)"
| "dispatch C d st k x (CompleteOperation i r h s) = complete_operation_command d st i r h s (cx_now x)"
| "dispatch C d st k x (FailOperation i e kind) = fail_operation_command d st i e kind (cx_now x)"
| "dispatch C d st k x (MarkOperationUnknown i r) = mark_operation_unknown_command d st i r (cx_now x)"
| "dispatch C d st k x (AbandonOperation i r) = abandon_operation_command d st i r (cx_now x)"
| "dispatch C d st k x (HeartbeatOperation i b e) = heartbeat_operation_command d st i b e (cx_now x)"
| "dispatch C d st k x (ReconcileOperation i r) =
     reconcile_operation_command (ct_env C) d st i r (cx_now x)"
| "dispatch C d st k x (CreateApproval ap) = create_approval d st ap (cx_now x)"
| "dispatch C d st k x (DecideApproval i b by r) = decide_approval d st i b by r (cx_now x)"
| "dispatch C d st k x (ExpireApproval i) = expire_approval d st i (cx_now x)"
| "dispatch C d st k x (RequestCancellation r) = request_cancellation d st r"
| "dispatch C d st k x (CreateSafeCheckpoint cp) = create_safe_checkpoint d st cp"
| "dispatch C d st k x (RecoveryDecision c) =
     rbind (apply_recovery (ct_env C) d st (cmd_command_id k) c x) (\<lambda>(d1, st1, op, a).
     Inr ((state_outcome d1 st1)\<lparr>oc_operation := op, oc_attempt := a\<rparr>))"

subsection \<open>The event of a command\<close>

fun event_type :: "Command \<Rightarrow> string" where
  "event_type (Transition _) = ''state_transitioned''"
| "event_type (UpdateStateMetadata _) = ''state_metadata_updated''"
| "event_type (RecordRuntimeEvent t _ _) = t"
| "event_type (BindSession _) = ''session_bound''"
| "event_type (UpgradePersistenceContract _) = ''persistence_contract_upgraded''"
| "event_type (StartFinalizeGeneration _ _) = ''finalize_generation_started''"
| "event_type (StartReplacementFinalizeGeneration _ _ _ _) = ''finalize_generation_replaced''"
| "event_type (InvalidateFinalizeGeneration _ _) = ''finalize_generation_invalidated''"
| "event_type (FinalizeAudit _) = ''finalize_audit_created''"
| "event_type (FinalizeInbox _) = ''inbox_created''"
| "event_type (FinalizeTerminal _ _) = ''run_terminal''"
| "event_type (BeginOperation _) = ''operation_prepared''"
| "event_type (CreateOperationWithAttempt _) = ''operation_created''"
| "event_type (BeginOperationAttempt _) = ''operation_attempt_prepared''"
| "event_type (StartOperationAttempt _ _) = ''operation_attempt_started''"
| "event_type (CompleteOperationAttempt _ _ _ _) = ''operation_attempt_completed''"
| "event_type (FailOperationAttempt _ _ _) = ''operation_attempt_failed''"
| "event_type (MarkOperationAttemptUnknown _ _) = ''operation_attempt_unknown''"
| "event_type (SkipOperationAttempt _ _) = ''operation_attempt_skipped''"
| "event_type (AbandonOperationAttempt _ _) = ''operation_attempt_abandoned''"
| "event_type (HeartbeatOperationAttempt _ _ _) = ''operation_attempt_heartbeat''"
| "event_type (ReconcileOperationAttempt _ _) = ''operation_attempt_reconciled''"
| "event_type (StartOperation _ _) = ''operation_started''"
| "event_type (CompleteOperation _ _ _ _) = ''operation_completed''"
| "event_type (FailOperation _ _ _) = ''operation_failed''"
| "event_type (MarkOperationUnknown _ _) = ''operation_unknown''"
| "event_type (AbandonOperation _ _) = ''operation_abandoned''"
| "event_type (HeartbeatOperation _ _ _) = ''operation_heartbeat''"
| "event_type (ReconcileOperation _ _) = ''operation_reconciled''"
| "event_type (CreateApproval _) = ''approval_created''"
| "event_type (DecideApproval _ _ _ _) = ''approval_decided''"
| "event_type (ExpireApproval _) = ''approval_expired''"
| "event_type (RequestCancellation _) = ''cancellation_requested''"
| "event_type (CreateSafeCheckpoint _) = ''safe_checkpoint_created''"
| "event_type (RecoveryDecision _) = ''recovery_decided''"
| "event_type (AdoptGatewayEpoch _ _) = ''gateway_epoch_adopted''"

definition execution_text :: "AgentState \<Rightarrow> json" where
  "execution_text st = opt_str (map_option (execution_state_value \<circ> es_state) (st_execution st))"

definition transition_payload :: "AgentState \<Rightarrow> AgentState \<Rightarrow> Command \<Rightarrow> dict" where
  "transition_payload before after body =
    (case body of
       Transition c \<Rightarrow> [
         (''from_task_state'', JStr (task_state_value (st_task_state before))),
         (''to_task_state'', JStr (task_state_value (st_task_state after))),
         (''from_execution_state'', execution_text before),
         (''to_execution_state'', execution_text after), (''reason'', JStr (tc_reason c))]
     | _ \<Rightarrow> [])"

definition event_payload ::
  "StateCommand \<Rightarrow> AgentState \<Rightarrow> AgentState \<Rightarrow> OperationRecord option \<Rightarrow> OperationAttempt option
     \<Rightarrow> DurableApproval option \<Rightarrow> dict" where
  "event_payload k before after op a ap =
    (case cmd_body k of
       RecordRuntimeEvent _ p _ \<Rightarrow>
         dict_set ''revision'' (JInt (int (st_revision after))) (sanitize_dict p)
     | body \<Rightarrow>
         [(''command_id'', JStr (cmd_command_id k)), (''revision'', JInt (int (st_revision after))),
          (''task_state'', JStr (task_state_value (st_task_state after))),
          (''execution_state'', execution_text after)] @
         transition_payload before after body @
         (case op of None \<Rightarrow> [] | Some r \<Rightarrow>
           [(''operation_id'', JStr (op_operation_id r)),
            (''operation_status'', JStr (operation_status_value (op_status r)))]) @
         (case a of None \<Rightarrow> [] | Some r \<Rightarrow>
           [(''attempt_id'', JStr (at_attempt_id r)), (''attempt_no'', JInt (int (at_attempt_no r))),
            (''attempt_status'', JStr (operation_status_value (at_status r))),
            (''model_call_id'', opt_str (at_model_call_id r))]) @
         (case ap of None \<Rightarrow> [] | Some r \<Rightarrow>
           [(''approval_id'', JStr (ap_approval_id r)),
            (''approval_status'', JStr (approval_status_value (ap_status r)))]))"

subsection \<open>Applying a command\<close>

definition admission :: "controller \<Rightarrow> WriteScope option \<Rightarrow> unit result" where
  "admission C ctx =
     (case ct_write_gate C of None \<Rightarrow> Inr () | Some g \<Rightarrow> check_mutation_admission g ctx)"

definition command_hash :: "controller \<Rightarrow> StateCommand \<Rightarrow> string" where
  "command_hash C k = sha256 (ct_env C) (ct_dump_json C k)"

definition is_adopt :: "Command \<Rightarrow> bool" where
  "is_adopt c \<longleftrightarrow> (case c of AdoptGatewayEpoch _ _ \<Rightarrow> True | _ \<Rightarrow> False)"

definition adopted_epoch :: "Command \<Rightarrow> string" where
  "adopted_epoch c = (case c of AdoptGatewayEpoch previous _ \<Rightarrow> previous | _ \<Rightarrow> [])"

definition check_fence :: "controller \<Rightarrow> AgentState \<Rightarrow> StateCommand \<Rightarrow> unit result" where
  "check_fence C st k =
     (if st_revision st \<noteq> cmd_expected_revision k
      then Inl (StateConflictError ''State revision conflict'')
      else if cmd_gateway_epoch k \<noteq> ct_gateway_epoch C
      then Inl (StateConflictError ''Gateway epoch/fencing token mismatch'')
      else if is_adopt (cmd_body k)
      then raise_if (adopted_epoch (cmd_body k) \<noteq> st_gateway_epoch st)
             (StateConflictError ''Gateway epoch to adopt has changed'')
      else raise_if (st_gateway_epoch st \<noteq> ct_gateway_epoch C)
             (StateConflictError ''stale Gateway instance''))"

definition insert_transition :: "db \<Rightarrow> transition_row \<Rightarrow> db result" where
  "insert_transition d r =
     (if \<not> run_exists d (tr_run_id r) then Inl (IntegrityError ''state_transitions'')
      else Inr (d\<lparr>state_transitions := state_transitions d @ [r]\<rparr>))"

definition log_transition ::
  "db \<Rightarrow> AgentState \<Rightarrow> AgentState \<Rightarrow> string \<Rightarrow> string option \<Rightarrow> timestamp \<Rightarrow> db result" where
  "log_transition d before after command_id reason ts =
     (case reason of
        None \<Rightarrow> Inr d
      | Some r \<Rightarrow> insert_transition d \<lparr>tr_command_id = command_id, tr_run_id = st_run_id after,
          tr_from_task_state = st_task_state before, tr_to_task_state = st_task_state after,
          tr_from_execution_state = map_option es_state (st_execution before),
          tr_to_execution_state = map_option es_state (st_execution after), tr_reason = r,
          tr_revision = st_revision after, tr_created_at = ts\<rparr>)"

definition commit_outcome ::
  "controller \<Rightarrow> AgentState \<Rightarrow> StateCommand \<Rightarrow> call \<Rightarrow> outcome \<Rightarrow> (db \<times> ApplyResult) result" where
  "commit_outcome C before k x oc =
    (let st = (oc_state oc)\<lparr>st_revision := st_revision (oc_state oc) + 1, st_updated_at := cx_now x\<rparr> in
     if \<not> validate_lifecycle st then Inl (ValueError ''AgentState'')
     else
       rbind (save_operation_opt (oc_db oc) (oc_operation oc)) (\<lambda>d1.
       rbind (save_attempt_opt d1 (oc_attempt oc)) (\<lambda>d2.
       rbind (save_approval_opt d2 (oc_approval oc)) (\<lambda>d3.
       rbind (cas_state d3 st (st_revision before)) (\<lambda>d4.
       rbind (log_transition (update_run_projection d4 st) before st (cmd_command_id k)
                (oc_transition oc) (cx_now x)) (\<lambda>d5.
       rbind (write_event (ct_env C) d5 st (event_type (cmd_body k))
                (event_payload k before st (oc_operation oc) (oc_attempt oc) (oc_approval oc))
                (Some (cmd_command_id k)) (cmd_event_key k) (cmd_causation_id k)
                (Some (or_text (cmd_correlation_id k) (st_run_id st))) (cx_event_now x)) (\<lambda>(d6, e).
       let res = \<lparr>ar_state = st, ar_operation = oc_operation oc, ar_attempt = oc_attempt oc,
                  ar_approval = oc_approval oc, ar_event_id = Some (ev_event_id e),
                  ar_duplicate = False\<rparr>
       in Inr (d6\<lparr>processed_commands := processed_commands d6 @ [\<lparr>
                 pc_command_id = cmd_command_id k, pc_run_id = st_run_id st,
                 pc_command_hash = command_hash C k, pc_result = res,
                 pc_processed_at = cx_now x\<rparr>]\<rparr>, res))))))))"

definition apply_command ::
  "controller \<Rightarrow> WriteScope option \<Rightarrow> db \<Rightarrow> StateCommand \<Rightarrow> call \<Rightarrow> (db \<times> ApplyResult) result" where
  "apply_command C ctx d k x =
     rbind (admission C ctx) (\<lambda>_.
     case lookup_row pc_command_id (cmd_command_id k) (processed_commands d) of
       Some r \<Rightarrow>
         if pc_command_hash r \<noteq> command_hash C k
         then Inl (StateConflictError ''command_id reused for another command'')
         else Inr (d, (pc_result r)\<lparr>ar_duplicate := True\<rparr>)
     | None \<Rightarrow>
         rbind (state_in d (cmd_run_id k)) (\<lambda>st.
         rbind (check_fence C st k) (\<lambda>_.
         rbind (dispatch C d st k x (cmd_body k)) (\<lambda>oc.
         commit_outcome C st k x oc))))"

subsection \<open>Creating runs\<close>

record run_request =
  nr_run_id :: string
  nr_workload_kind :: WorkloadKind
  nr_project_id :: string
  nr_client_id :: string
  nr_task :: string
  nr_idempotency_key :: string
  nr_request_hash :: string
  nr_persistence_contract :: "PersistenceContract option"
  nr_session_id :: "string option"
  nr_parent_run_id :: "string option"
  nr_deadline_at :: "timestamp option"
  nr_runtime_generation_id :: "string option"
  nr_model_profile_id :: string
  nr_reasoning_effort :: string
  nr_ui_context_json :: "string option"

definition default_persistence_contract :: "WorkloadKind \<Rightarrow> PersistenceContract" where
  "default_persistence_contract k = (if k = CHAT then CONVERSATION_SESSION else CONTROL_ONLY)"

definition new_state :: "controller \<Rightarrow> run_request \<Rightarrow> timestamp \<Rightarrow> AgentState" where
  "new_state C q ts = \<lparr>
     st_revision = 0, st_gateway_epoch = ct_gateway_epoch C, st_run_id = nr_run_id q,
     st_workload_kind = nr_workload_kind q,
     st_persistence_contract = or_keep (nr_persistence_contract q)
       (default_persistence_contract (nr_workload_kind q)),
     st_project_id = nr_project_id q, st_session_id = nr_session_id q, st_client_id = nr_client_id q,
     st_parent_run_id = nr_parent_run_id q, st_idempotency_key = nr_idempotency_key q,
     st_request_hash = nr_request_hash q, st_task_state = TaskState.CREATED, st_execution = None,
     st_terminal_target = None, st_finalize_generation = None,
     st_turn_id = Some (''turn:'' @ nr_run_id q), st_current_operation_id = None,
     st_current_attempt_id = None, st_model_call_id = None, st_tool_call_id = None,
     st_approval_id = None, st_safe_checkpoint = None, st_cancellation_requested = False,
     st_deadline_at = nr_deadline_at q, st_recovery_reason = None, st_model_attempt = 0,
     st_recovery_attempt = 0, st_input_tokens = 0, st_output_tokens = 0, st_diagnostics = [],
     st_last_progress_at = ts, st_operation_started_at = None, st_operation_heartbeat_at = None,
     st_created_at = ts, st_started_at = None, st_updated_at = ts, st_finished_at = None,
     st_result_summary = None, st_error = None\<rparr>"

definition valid_new_state :: "AgentState \<Rightarrow> bool" where
  "valid_new_state st \<longleftrightarrow>
     st_gateway_epoch st \<noteq> [] \<and> st_run_id st \<noteq> [] \<and> st_project_id st \<noteq> [] \<and> st_client_id st \<noteq> [] \<and>
     st_idempotency_key st \<noteq> [] \<and> is_sha256_hex (st_request_hash st)"

definition created_event ::
  "controller \<Rightarrow> db \<Rightarrow> AgentState \<Rightarrow> call \<Rightarrow> (db \<times> event_row) result" where
  "created_event C d st x =
     write_event (ct_env C) d st ''state_created''
       [(''task_state'', JStr (task_state_value (st_task_state st)))]
       (Some (''run:'' @ st_run_id st @ '':create'')) ''primary'' None (Some (st_run_id st))
       (cx_event_now x)"

definition create_state ::
  "controller \<Rightarrow> WriteScope option \<Rightarrow> db \<Rightarrow> run_request \<Rightarrow> call \<Rightarrow> (db \<times> AgentState) result" where
  "create_state C ctx d q x =
    (let st = new_state C q (cx_now x) in
     if \<not> valid_new_state st then Inl (ValueError ''AgentState'')
     else case lookup_row sr_run_id (nr_run_id q) (agent_states d) of
       Some r \<Rightarrow> Inr (d, sr_state r)
     | None \<Rightarrow>
         rbind (admission C ctx) (\<lambda>_.
         rbind (insert_state d st) (\<lambda>d1.
         rbind (created_event C (update_run_projection d1 st) st x) (\<lambda>(d2, _). Inr (d2, st)))))"

definition run_row_of :: "run_request \<Rightarrow> timestamp \<Rightarrow> run_row" where
  "run_row_of q ts = \<lparr>
     ru_run_id = nr_run_id q, ru_project_id = nr_project_id q, ru_session_id = nr_session_id q,
     ru_client_id = nr_client_id q, ru_task = nr_task q, ru_status = ''queued'', ru_created_at = ts,
     ru_started_at = None, ru_finished_at = None, ru_answer = None, ru_error = None,
     ru_model_profile_id = nr_model_profile_id q, ru_reasoning_effort = nr_reasoning_effort q,
     ru_ui_context_json = nr_ui_context_json q, ru_task_state = None, ru_execution_state = None,
     ru_execution_outcome = None, ru_finish_reason = None, ru_state_revision = 0,
     ru_recovery_required = False, ru_terminal_target = None, ru_workload_kind = ''chat''\<rparr>"

definition insert_run :: "db \<Rightarrow> run_row \<Rightarrow> db result" where
  "insert_run d r =
     (if run_exists d (ru_run_id r) then Inl (IntegrityError ''runs'')
      else if lookup_row fst (ru_run_id r) (event_sequences d) \<noteq> None
      then Inl (IntegrityError ''event_sequences'')
      else Inr (d\<lparr>runs := runs d @ [r], event_sequences := event_sequences d @ [(ru_run_id r, 0)]\<rparr>))"

definition idempotency_key_of :: "idempotency_row \<Rightarrow> string \<times> string \<times> string" where
  "idempotency_key_of r = (ir_client_id r, ir_operation_name r, ir_idempotency_key r)"

definition find_idempotency :: "db \<Rightarrow> string \<Rightarrow> string \<Rightarrow> string \<Rightarrow> idempotency_row option" where
  "find_idempotency d client_id operation_name key =
     lookup_row idempotency_key_of (client_id, operation_name, key) (idempotency_records d)"

definition insert_idempotency ::
  "db \<Rightarrow> string \<Rightarrow> string \<Rightarrow> string \<Rightarrow> string \<Rightarrow> string \<Rightarrow> timestamp \<Rightarrow> db" where
  "insert_idempotency d client_id operation_name key hash run_id ts =
     d\<lparr>idempotency_records := idempotency_records d @ [\<lparr>ir_client_id = client_id,
        ir_operation_name = operation_name, ir_idempotency_key = key, ir_request_hash = hash,
        ir_run_id = run_id, ir_created_at = ts\<rparr>]\<rparr>"

definition bind_generation ::
  "env \<Rightarrow> db \<Rightarrow> string \<Rightarrow> string option \<Rightarrow> timestamp \<Rightarrow> db result" where
  "bind_generation E d run_id generation_id ts =
    (case generation_id of
       None \<Rightarrow> Inr d
     | Some g \<Rightarrow>
         let reference_id = sha256 E (''runtime-generation-ref:run:'' @ run_id @ '':'' @ g) in
         (case lookup_row gr_generation_id g (runtime_resource_generations d) of
            None \<Rightarrow> Inl (StateInvariantError ''Run Runtime generation is unavailable'')
          | Some row \<Rightarrow>
              if gr_artifact_deleted_at row \<noteq> None
              then Inl (StateInvariantError ''Run Runtime generation is unavailable'')
              else if list_ex (\<lambda>r. rf_reference_id r = reference_id
                       \<or> rf_active r \<and> rf_owner_kind r = ''run'' \<and> rf_owner_id r = run_id)
                     (runtime_generation_references d)
              then Inl (IntegrityError ''runtime_generation_references'')
              else Inr (d\<lparr>runtime_generation_references := runtime_generation_references d @ [\<lparr>
                     rf_reference_id = reference_id, rf_generation_id = g, rf_owner_kind = ''run'',
                     rf_owner_id = run_id, rf_active = True, rf_created_at = ts,
                     rf_released_at = None\<rparr>]\<rparr>)))"

definition create_run ::
  "controller \<Rightarrow> WriteScope option \<Rightarrow> db \<Rightarrow> run_request \<Rightarrow> call
     \<Rightarrow> (db \<times> AgentState \<times> bool) result" where
  "create_run C ctx d q x =
    (let kind = workload_kind_value (nr_workload_kind q) in
     case find_idempotency d (nr_client_id q) kind (nr_idempotency_key q) of
       Some r \<Rightarrow>
         if ir_request_hash r \<noteq> nr_request_hash q
         then Inl (StateConflictError ''Idempotency-Key used for another request'')
         else rbind (state_in d (ir_run_id r)) (\<lambda>st. Inr (d, st, True))
     | None \<Rightarrow>
         let st = new_state C q (cx_now x) in
         if \<not> valid_new_state st then Inl (ValueError ''AgentState'')
         else
           rbind (admission C ctx) (\<lambda>_.
           rbind (insert_run d (run_row_of q (cx_now x))) (\<lambda>d1.
           rbind (insert_state d1 st) (\<lambda>d2.
           rbind (bind_generation (ct_env C)
                    (insert_idempotency d2 (nr_client_id q) kind (nr_idempotency_key q)
                       (nr_request_hash q) (nr_run_id q) (cx_now x))
                    (nr_run_id q) (nr_runtime_generation_id q) (cx_now x)) (\<lambda>d3.
           rbind (created_event C (update_run_projection d3 st) st x) (\<lambda>(d4, _).
           Inr (d4, st, False)))))))"

definition reserve_idempotency ::
  "controller \<Rightarrow> WriteScope option \<Rightarrow> db \<Rightarrow> string \<Rightarrow> string \<Rightarrow> string \<Rightarrow> string \<Rightarrow> string
     \<Rightarrow> timestamp \<Rightarrow> (db \<times> string) result" where
  "reserve_idempotency C ctx d key hash run_id client_id operation_name ts =
    (case find_idempotency d client_id operation_name key of
       Some r \<Rightarrow>
         if ir_request_hash r \<noteq> hash
         then Inl (StateConflictError ''Idempotency-Key used for another request'')
         else Inr (d, ir_run_id r)
     | None \<Rightarrow>
         rbind (admission C ctx) (\<lambda>_.
         Inr (insert_idempotency d client_id operation_name key hash run_id ts, run_id)))"

end
