(* ===== verification/Controller_Frame.thy ===== *)
theory Controller_Frame
  imports State_Controller
begin

section \<open>What a command may change\<close>

text \<open>
  Frame lemmas of the dispatch: which tables a branch leaves alone (\<open>untouched\<close>), which fields of the
  state identify the run and never change (\<open>same_identity\<close>), and how a branch may move the two state
  machines. The collection \<open>branch_simps\<close> inverts the branches; the lemmas about \<open>apply_command\<close> rest on
  its inversion \<open>apply_command_fresh\<close>.
\<close>

named_theorems branch_simps \<open>inversion of the branches of the dispatch\<close>

definition untouched :: "db \<Rightarrow> db \<Rightarrow> bool" where
  "untouched d d' \<longleftrightarrow>
     agent_states d' = agent_states d \<and> state_transitions d' = state_transitions d \<and>
     processed_commands d' = processed_commands d \<and> idempotency_records d' = idempotency_records d \<and>
     runs d' = runs d \<and> event_sequences d' = event_sequences d \<and>
     gateway_events d' = gateway_events d \<and> event_outbox d' = event_outbox d \<and>
     event_deliveries d' = event_deliveries d \<and> event_sinks d' = event_sinks d \<and>
     event_delivery_attempts d' = event_delivery_attempts d \<and>
     event_consumer_cursors d' = event_consumer_cursors d \<and>
     gateway_event_archives d' = gateway_event_archives d \<and>
     gateway_event_archive_members d' = gateway_event_archive_members d \<and>
     runtime_resource_generations d' = runtime_resource_generations d \<and>
     runtime_generation_references d' = runtime_generation_references d"

lemma untouched_refl [simp]: "untouched d d"
  by (simp add: untouched_def)

lemma untouched_trans: "untouched d d1 \<Longrightarrow> untouched d1 d2 \<Longrightarrow> untouched d d2"
  by (simp add: untouched_def)

lemma save_operation_untouched: "save_operation d op = Inr d' \<Longrightarrow> untouched d d'"
  by (auto simp: save_operation_def Let_def untouched_def split: if_splits)

lemma save_attempt_untouched: "save_attempt d a = Inr d' \<Longrightarrow> untouched d d'"
  by (auto simp: save_attempt_def Let_def untouched_def split: if_splits option.splits)

lemma save_approval_untouched: "save_approval d a = Inr d' \<Longrightarrow> untouched d d'"
  by (auto simp: save_approval_def Let_def untouched_def split: if_splits)

lemma save_opt_untouched:
  "save_operation_opt d op = Inr d' \<Longrightarrow> untouched d d'"
  "save_attempt_opt d a = Inr d' \<Longrightarrow> untouched d d'"
  "save_approval_opt d ap = Inr d' \<Longrightarrow> untouched d d'"
  by (auto simp: save_operation_opt_def save_attempt_opt_def save_approval_opt_def
      dest: save_operation_untouched save_attempt_untouched save_approval_untouched
      split: option.splits)

lemma insert_untouched:
  "insert_approval d ap ts = Inr d' \<Longrightarrow> untouched d d'"
  "insert_finalize_generation d g = Inr d' \<Longrightarrow> untouched d d'"
  "insert_decision d r = Inr d' \<Longrightarrow> untouched d d'"
  "insert_receipt d rc = Inr d' \<Longrightarrow> untouched d d'"
  "set_current_receipt d i j = Inr d' \<Longrightarrow> untouched d d'"
  "insert_inbox d b = Inr (d', b') \<Longrightarrow> untouched d d'"
  by (auto simp: insert_approval_def insert_finalize_generation_def insert_decision_def
      insert_receipt_def set_current_receipt_def insert_inbox_def untouched_def
      split: if_splits option.splits)

lemmas write_untouched =
  save_operation_untouched save_attempt_untouched save_opt_untouched insert_untouched

subsection \<open>Inversion of the branches\<close>

lemma outcome_fields [simp]:
  "oc_db (state_outcome d st) = d" "oc_state (state_outcome d st) = st"
  "oc_operation (state_outcome d st) = None" "oc_attempt (state_outcome d st) = None"
  "oc_approval (state_outcome d st) = None" "oc_transition (state_outcome d st) = None"
  "oc_db (attempt_outcome d st op a) = d" "oc_state (attempt_outcome d st op a) = st"
  "oc_operation (attempt_outcome d st op a) = Some op"
  "oc_attempt (attempt_outcome d st op a) = Some a"
  "oc_approval (attempt_outcome d st op a) = None"
  "oc_transition (attempt_outcome d st op a) = None"
  by (simp_all add: state_outcome_def attempt_outcome_def)

lemma attempt_command_Inr [branch_simps]:
  "attempt_command d st i ts ss u ch = Inr oc \<longleftrightarrow>
     (\<exists>op a. update_attempt d st i ts ss u = Inr (op, a) \<and> oc = attempt_outcome d (ch op a) op a)"
  by (auto simp: attempt_command_def result_simps)

lemma attempt_pair_Inr [branch_simps]:
  "attempt_pair_outcome st r = Inr oc \<longleftrightarrow>
     (\<exists>d op a. r = Inr (d, op, a) \<and> oc = attempt_outcome d st op a)"
  by (auto simp: attempt_pair_outcome_def result_simps)

lemmas attempt_branch_defs =
  start_attempt_command_def fail_attempt_command_def
  mark_attempt_unknown_command_def skip_attempt_command_def abandon_attempt_command_def
  heartbeat_attempt_command_def start_operation_command_def
  complete_operation_command_def fail_operation_command_def mark_operation_unknown_command_def
  heartbeat_operation_command_def selected_attempt_def

lemma finalize_audit_untouched: "finalize_audit E d st c ts = Inr (d', op, a) \<Longrightarrow> untouched d d'"
  by (auto simp: finalize_audit_def result_simps dest!: insert_untouched intro: untouched_trans)

lemma finalize_inbox_untouched: "finalize_inbox E d st c ts = Inr (d', op, a) \<Longrightarrow> untouched d d'"
  by (auto simp: finalize_inbox_def result_simps dest!: insert_untouched intro: untouched_trans)

lemma begin_operation_untouched: "begin_operation d st c ts = Inr (d', op) \<Longrightarrow> untouched d d'"
  by (auto simp: begin_operation_def Let_def result_simps dest!: write_untouched
      intro: untouched_trans split: option.splits if_splits)

lemma recovery_retry_untouched: "recovery_retry d st c x op a = Inr (d', op', a') \<Longrightarrow> untouched d d'"
  by (auto simp: recovery_retry_def result_simps dest!: write_untouched intro: untouched_trans
      split: if_splits)

lemma recovery_effect_untouched:
  "recovery_effect E d st c x op a = Inr (d', st', op', a') \<Longrightarrow> untouched d d'"
  by (auto simp: recovery_effect_def Let_def result_simps dest: recovery_retry_untouched
      split: if_splits option.splits)

lemma apply_recovery_Inr:
  assumes "apply_recovery E d st cid c x = Inr (d', st', op', a')"
  obtains op a d1 st1 d2 d3 row where
    "recovery_effect E d st c x op a = Inr (d1, st1, op', a')"
    "save_operation_opt d1 op' = Inr d2" "save_attempt_opt d2 a' = Inr d3"
    "insert_decision d3 row = Inr d'"
    "st' = st1\<lparr>st_diagnostics := recovery_diagnostic E st c (cx_now x), st_last_progress_at := cx_now x\<rparr>"
    "op = None \<and> a = None \<or> (\<exists>i op0 a0. rd_operation_id c = Some i \<and> operation_in d i = Inr op0 \<and>
       current_attempt_in d (op_operation_id op0) = Inr a0 \<and> op = Some op0 \<and> a = Some a0 \<and>
       op_run_id op0 = st_run_id st)"
proof -
  obtain op a where sel: "(if truthy (rd_operation_id c)
           then rbind (operation_in d (the (rd_operation_id c))) (\<lambda>op.
                rbind (current_attempt_in d (op_operation_id op)) (\<lambda>a. Inr (Some op, Some a)))
           else Inr (None, None)) = Inr (op, a)"
    and own: "\<not> (case op of None \<Rightarrow> False | Some r \<Rightarrow> op_run_id r \<noteq> st_run_id st)"
    and rest: "rbind (recovery_effect E d st c x op a) (\<lambda>(d1, st1, op1, a1).
      rbind (save_operation_opt d1 op1) (\<lambda>d2.
      rbind (save_attempt_opt d2 a1) (\<lambda>d3.
      rbind (insert_decision d3 \<lparr>dc_command_id = cid, dc_run_id = st_run_id st1,
               dc_operation_id = map_option op_operation_id op1,
               dc_attempt_id = map_option at_attempt_id a1, dc_action = rd_action c,
               dc_actor = rd_actor c, dc_reason = sanitize_text (rd_reason c),
               dc_created_at = cx_now x\<rparr>) (\<lambda>d4.
      Inr (d4, st1\<lparr>st_diagnostics := recovery_diagnostic E st c (cx_now x),
                   st_last_progress_at := cx_now x\<rparr>, op1, a1))))) = Inr (d', st', op', a')"
    using assms by (fastforce simp: apply_recovery_def rbind_eq_Inr split: if_splits)
  have owned: "op = None \<and> a = None \<or> (\<exists>i op0 a0. rd_operation_id c = Some i \<and> operation_in d i = Inr op0 \<and>
       current_attempt_in d (op_operation_id op0) = Inr a0 \<and> op = Some op0 \<and> a = Some a0 \<and>
       op_run_id op0 = st_run_id st)"
    using sel own by (auto simp: rbind_eq_Inr truthy_iff split: if_splits)
  from rest obtain d1 st1 d2 d3 where
    "recovery_effect E d st c x op a = Inr (d1, st1, op', a')"
    "save_operation_opt d1 op' = Inr d2" "save_attempt_opt d2 a' = Inr d3"
    "insert_decision d3 \<lparr>dc_command_id = cid, dc_run_id = st_run_id st1,
               dc_operation_id = map_option op_operation_id op',
               dc_attempt_id = map_option at_attempt_id a', dc_action = rd_action c,
               dc_actor = rd_actor c, dc_reason = sanitize_text (rd_reason c),
               dc_created_at = cx_now x\<rparr> = Inr d'"
    "st' = st1\<lparr>st_diagnostics := recovery_diagnostic E st c (cx_now x), st_last_progress_at := cx_now x\<rparr>"
    by (auto simp: rbind_eq_Inr)
  with owned show thesis using that by blast
qed

lemma apply_recovery_untouched:
  "apply_recovery E d st cid c x = Inr (d', st', op', a') \<Longrightarrow> untouched d d'"
  by (erule apply_recovery_Inr)
     (blast intro: untouched_trans dest: recovery_effect_untouched save_opt_untouched insert_untouched)

subsection \<open>Quiet branches\<close>

text \<open>
  The fields that identify a run, and the ones only a transition may move. Every branch but the two
  transition branches and the epoch adoption is \<open>quiet\<close>: it keeps both groups and the gateway epoch, and
  logs no transition.
\<close>

definition same_identity :: "AgentState \<Rightarrow> AgentState \<Rightarrow> bool" where
  "same_identity st st' \<longleftrightarrow>
     st_run_id st' = st_run_id st \<and> st_revision st' = st_revision st \<and>
     st_workload_kind st' = st_workload_kind st \<and> st_project_id st' = st_project_id st \<and>
     st_client_id st' = st_client_id st \<and> st_parent_run_id st' = st_parent_run_id st \<and>
     st_idempotency_key st' = st_idempotency_key st \<and> st_request_hash st' = st_request_hash st \<and>
     st_created_at st' = st_created_at st \<and> st_deadline_at st' = st_deadline_at st"

definition same_lifecycle :: "AgentState \<Rightarrow> AgentState \<Rightarrow> bool" where
  "same_lifecycle st st' \<longleftrightarrow>
     st_task_state st' = st_task_state st \<and> st_execution st' = st_execution st \<and>
     st_terminal_target st' = st_terminal_target st \<and> st_started_at st' = st_started_at st \<and>
     st_finished_at st' = st_finished_at st \<and> st_result_summary st' = st_result_summary st \<and>
     st_error st' = st_error st"

text \<open>What later commands may not take back: a session binding, a contract upgrade, a cancellation
  request, a finalize generation.\<close>

definition monotone :: "AgentState \<Rightarrow> AgentState \<Rightarrow> bool" where
  "monotone st st' \<longleftrightarrow>
     (st_session_id st = None \<or> st_session_id st' = st_session_id st) \<and>
     (st_persistence_contract st' = st_persistence_contract st \<or>
      st_persistence_contract st = CONTROL_ONLY
        \<and> st_persistence_contract st' = SESSION_BACKED_WORKLOAD
        \<and> st_task_state st \<notin> {TaskState.FINALIZING, TaskState.SUCCEEDED, TaskState.FAILED,
                                TaskState.CANCELLED, TaskState.INTERRUPTED}) \<and>
     (st_cancellation_requested st \<longrightarrow> st_cancellation_requested st') \<and>
     (st_finalize_generation st' = st_finalize_generation st \<or>
      st_task_state st = TaskState.FINALIZING \<and>
      st_finalize_generation st' = Some (case st_finalize_generation st of None \<Rightarrow> 1 | Some g \<Rightarrow> g + 1))"

definition quiet :: "db \<Rightarrow> AgentState \<Rightarrow> outcome \<Rightarrow> bool" where
  "quiet d st oc \<longleftrightarrow>
     untouched d (oc_db oc) \<and> same_identity st (oc_state oc) \<and> same_lifecycle st (oc_state oc) \<and>
     monotone st (oc_state oc) \<and> st_gateway_epoch (oc_state oc) = st_gateway_epoch st \<and> oc_transition oc = None"

lemmas quiet_defs = quiet_def same_identity_def same_lifecycle_def monotone_def

lemma same_identity_refl [simp]: "same_identity st st" "same_lifecycle st st" "monotone st st"
  by (simp_all add: quiet_defs)

lemma state_branch_quiet:
  "update_state_metadata d st um = Inr oc \<Longrightarrow> quiet d st oc"
  "record_runtime_event d st b ts = Inr oc \<Longrightarrow> quiet d st oc"
  "bind_session d st s = Inr oc \<Longrightarrow> quiet d st oc"
  "upgrade_persistence_contract d st = Inr oc \<Longrightarrow> quiet d st oc"
  "request_cancellation d st r = Inr oc \<Longrightarrow> quiet d st oc"
  by (auto simp: update_state_metadata_def record_runtime_event_def
      bind_session_def upgrade_persistence_contract_def request_cancellation_def quiet_defs
      TERMINAL_STATES_def split: if_splits)

lemma finalize_branch_quiet:
  "start_replacement_finalize_generation d st g i ts = Inr oc \<Longrightarrow> quiet d st oc"
  "start_finalize_generation d st g sp ts = Inr oc \<Longrightarrow> quiet d st oc"
  by (auto simp: start_replacement_finalize_generation_def start_finalize_generation_def quiet_defs
      result_simps dest: insert_untouched split: if_splits option.splits)

lemma invalidate_quiet: "invalidate_finalize_generation d st cid g r ts = Inr oc \<Longrightarrow> quiet d st oc"
  by (auto simp: invalidate_finalize_generation_def quiet_defs untouched_def split: if_splits)

lemma finalize_pair_quiet:
  "attempt_pair_outcome st (finalize_audit E d st fa ts) = Inr oc \<Longrightarrow> quiet d st oc"
  "attempt_pair_outcome st (finalize_inbox E d st fi ts) = Inr oc \<Longrightarrow> quiet d st oc"
  by (auto simp: branch_simps quiet_defs dest: finalize_audit_untouched finalize_inbox_untouched)

lemma operation_branch_quiet:
  "create_operation_command d st co ts = Inr oc \<Longrightarrow> quiet d st oc"
  "begin_attempt_command d st ba ts = Inr oc \<Longrightarrow> quiet d st oc"
  "begin_operation_command d st bo ts = Inr oc \<Longrightarrow> quiet d st oc"
  by (auto simp: create_operation_command_def begin_attempt_command_def begin_operation_command_def
      result_simps quiet_defs dest: begin_operation_untouched)

lemma attempt_command_quiet:
  assumes "attempt_command d st i ts ss u ch = Inr oc"
    and "\<And>op a. same_identity st (ch op a) \<and> same_lifecycle st (ch op a) \<and> monotone st (ch op a)
      \<and> st_gateway_epoch (ch op a) = st_gateway_epoch st"
  shows "quiet d st oc"
  using assms by (auto simp: branch_simps quiet_def)

lemma attempt_branch_quiet:
  "start_attempt_command d st i e ts = Inr oc \<Longrightarrow> quiet d st oc"
  "fail_attempt_command d st i kd r ts = Inr oc \<Longrightarrow> quiet d st oc"
  "mark_attempt_unknown_command d st i r ts = Inr oc \<Longrightarrow> quiet d st oc"
  "skip_attempt_command d st i r ts = Inr oc \<Longrightarrow> quiet d st oc"
  "abandon_attempt_command d st i r ts = Inr oc \<Longrightarrow> quiet d st oc"
  "heartbeat_attempt_command d st i b e' ts = Inr oc \<Longrightarrow> quiet d st oc"
  unfolding attempt_branch_defs
  by (erule attempt_command_quiet, simp add: quiet_defs)+

lemma complete_attempt_quiet:
  "complete_attempt_command E d st i r h s ts = Inr oc \<Longrightarrow> quiet d st oc"
  by (auto simp: complete_attempt_command_def result_simps branch_simps quiet_defs)

lemma reconcile_branch_quiet:
  "reconcile_attempt_command E d st i rr ts = Inr oc \<Longrightarrow> quiet d st oc"
  "reconcile_operation_command E d st i rr ts = Inr oc \<Longrightarrow> quiet d st oc"
  by (auto simp: reconcile_attempt_command_def reconcile_operation_command_def result_simps quiet_def)

lemma named_operation_quiet:
  "start_operation_command d st i e ts = Inr oc \<Longrightarrow> quiet d st oc"
  "complete_operation_command d st i r h s ts = Inr oc \<Longrightarrow> quiet d st oc"
  "fail_operation_command d st i r kd ts = Inr oc \<Longrightarrow> quiet d st oc"
  "mark_operation_unknown_command d st i r ts = Inr oc \<Longrightarrow> quiet d st oc"
  "heartbeat_operation_command d st i b e' ts = Inr oc \<Longrightarrow> quiet d st oc"
  by (auto simp: attempt_branch_defs result_simps branch_simps quiet_defs)

lemma abandon_operation_quiet: "abandon_operation_command d st i r ts = Inr oc \<Longrightarrow> quiet d st oc"
  by (auto simp: abandon_operation_command_def result_simps branch_simps quiet_defs
      split: if_splits)

lemma create_approval_quiet: "create_approval d st ap ts = Inr oc \<Longrightarrow> quiet d st oc"
  by (auto simp: create_approval_def result_simps quiet_defs dest: insert_untouched split: if_splits)

lemma decide_approval_quiet: "decide_approval d st i b w r ts = Inr oc \<Longrightarrow> quiet d st oc"
  by (auto simp: decide_approval_def Let_def result_simps quiet_def split: if_splits)

lemma expire_approval_quiet: "expire_approval d st i ts = Inr oc \<Longrightarrow> quiet d st oc"
  by (auto simp: expire_approval_def Let_def result_simps quiet_def split: if_splits)

lemma checkpoint_quiet: "create_safe_checkpoint d st cp = Inr oc \<Longrightarrow> quiet d st oc"
  by (auto simp: create_safe_checkpoint_def result_simps quiet_defs split: if_splits)

lemma recovery_effect_state:
  "recovery_effect E d st c x op a = Inr (d', st', op', a') \<Longrightarrow>
     st' = st \<or> st' = st\<lparr>st_cancellation_requested := True\<rparr>"
  by (cases "rd_action c"; cases op; cases a)
     (auto simp: recovery_effect_def Let_def rbind_eq_Inr simp del: AgentState.update_convs split: if_splits)

lemma apply_recovery_state:
  assumes "apply_recovery E d st cid c x = Inr (d', st', op', a')"
  shows "same_identity st st'" "same_lifecycle st st'" "monotone st st'"
    "st_gateway_epoch st' = st_gateway_epoch st"
  using assms
  by (auto simp: quiet_defs elim!: apply_recovery_Inr dest!: recovery_effect_state)

lemma recovery_quiet:
  "rbind (apply_recovery E d st cid c x) (\<lambda>(d1, st1, op, a).
     Inr ((state_outcome d1 st1)\<lparr>oc_operation := op, oc_attempt := a\<rparr>)) = Inr oc \<Longrightarrow> quiet d st oc"
  by (auto simp: result_simps quiet_def dest: apply_recovery_untouched apply_recovery_state)

lemmas branch_quiet =
  state_branch_quiet finalize_branch_quiet invalidate_quiet finalize_pair_quiet
  operation_branch_quiet attempt_branch_quiet complete_attempt_quiet reconcile_branch_quiet
  named_operation_quiet abandon_operation_quiet create_approval_quiet decide_approval_quiet
  expire_approval_quiet checkpoint_quiet recovery_quiet

fun is_transition :: "Command \<Rightarrow> bool" where
  "is_transition (Transition c) = True"
| "is_transition (FinalizeTerminal g r) = True"
| "is_transition _ = False"

lemma dispatch_quiet:
  "dispatch C d st k x c = Inr oc \<Longrightarrow> \<not> is_transition c \<Longrightarrow> \<not> is_adopt c \<Longrightarrow> quiet d st oc"
  by (cases c)
     (simp_all only: dispatch.simps is_transition.simps is_adopt_def Command.case simp_thms,
      (erule branch_quiet)+)

lemma dispatch_adopt:
  assumes "dispatch C d st k x c = Inr oc" "is_adopt c"
  shows "oc_db oc = d" "same_identity st (oc_state oc)" "same_lifecycle st (oc_state oc)"
    "monotone st (oc_state oc)"
    "st_gateway_epoch (oc_state oc) = ct_gateway_epoch C"
    "oc_operation oc = None" "oc_attempt oc = None" "oc_approval oc = None" "oc_transition oc = None"
  using assms
  by (cases c; auto simp: is_adopt_def adopt_gateway_epoch_def quiet_defs)+

subsection \<open>Transition branches\<close>

text \<open>A legal move of both machines; the inner one starts at \<open>THINKING\<close>.\<close>

definition legal_inner :: "ExecutionSnapshot option \<Rightarrow> ExecutionSnapshot \<Rightarrow> bool" where
  "legal_inner old new \<longleftrightarrow>
     (case old of None \<Rightarrow> es_state new = THINKING | Some e \<Rightarrow> inner_step (es_state e) (es_state new))"

definition legal_move :: "AgentState \<Rightarrow> AgentState \<Rightarrow> bool" where
  "legal_move st st' \<longleftrightarrow>
     (st_task_state st' = st_task_state st \<or> outer_step (st_task_state st) (st_task_state st')) \<and>
     (st_execution st' = st_execution st \<or>
      (\<exists>e. st_execution st' = Some e \<and> legal_inner (st_execution st) e \<and> validate_finished e))"

lemma legal_move_same: "same_lifecycle st st' \<Longrightarrow> legal_move st st'"
  by (simp add: legal_move_def same_lifecycle_def)

lemma transition_task_Inr:
  assumes "transition_task st c ts = Inr st1"
  shows "same_identity st st1" "st_execution st1 = st_execution st"
    "st_session_id st1 = st_session_id st \<and>
       st_persistence_contract st1 = st_persistence_contract st \<and>
       st_cancellation_requested st1 = st_cancellation_requested st \<and>
       st_finalize_generation st1 = st_finalize_generation st"
    "st_gateway_epoch st1 = st_gateway_epoch st"
    "tc_task_state c = None \<Longrightarrow> st1 = st"
    "tc_task_state c = Some t \<Longrightarrow> outer_step (st_task_state st) t \<and> st_task_state st1 = t"
  using assms
  by (auto simp: transition_task_def Let_def result_simps same_identity_def
      split: option.splits if_splits)

lemma transition_execution_Inr:
  assumes "transition_execution st st1 c ts = Inr st2"
  shows "same_identity st1 st2" "st_task_state st2 = st_task_state st1"
    "st_session_id st2 = st_session_id st1 \<and>
       st_persistence_contract st2 = st_persistence_contract st1 \<and>
       st_cancellation_requested st2 = st_cancellation_requested st1 \<and>
       st_finalize_generation st2 = st_finalize_generation st1"
    "st_gateway_epoch st2 = st_gateway_epoch st1" "st_terminal_target st2 = st_terminal_target st1"
    "tc_execution_state c = None \<Longrightarrow> st2 = st1"
    "tc_execution_state c = Some y \<Longrightarrow>
       \<exists>e. st_execution st2 = Some e \<and> legal_inner (st_execution st) e \<and> validate_finished e
         \<and> es_state e = y"
  using assms
  by (auto simp: transition_execution_def Let_def result_simps same_identity_def legal_inner_def
      split: option.splits if_splits)

lemma apply_transition_Inr:
  assumes "apply_transition st c ts = Inr st'"
  shows "same_identity st st'" "legal_move st st'" "monotone st st'"
    "st_gateway_epoch st' = st_gateway_epoch st"
    "tc_task_state c = None \<Longrightarrow> st_task_state st' = st_task_state st"
    "tc_task_state c = Some t \<Longrightarrow> outer_step (st_task_state st) t \<and> st_task_state st' = t"
    "validate_terminal_mapping st' = Inr ()"
proof -
  from assms obtain s1 s2 where t: "transition_task st c ts = Inr s1"
    and e: "transition_execution st s1 c ts = Inr s2"
    and f: "st_task_state st' = st_task_state s2" "st_execution st' = st_execution s2"
      "same_identity s2 st'" "st_gateway_epoch st' = st_gateway_epoch s2"
      "st_session_id st' = st_session_id s2 \<and>
       st_persistence_contract st' = st_persistence_contract s2 \<and>
       st_cancellation_requested st' = st_cancellation_requested s2 \<and>
       st_finalize_generation st' = st_finalize_generation s2"
    and v: "validate_terminal_mapping st' = Inr ()"
    by (auto simp: apply_transition_def Let_def result_simps same_identity_def)
  note T = transition_task_Inr [OF t] and E = transition_execution_Inr [OF e]
  show "same_identity st st'" using T(1) E(1) f(3) by (simp add: same_identity_def)
  show "st_gateway_epoch st' = st_gateway_epoch st" using T(4) E(4) f(4) by simp
  show "validate_terminal_mapping st' = Inr ()" by (rule v)
  show "monotone st st'" using T(3) E(3) f(5) by (simp add: monotone_def)
  show n: "tc_task_state c = None \<Longrightarrow> st_task_state st' = st_task_state st"
    using T(5) E(2) f(1) by simp
  show s: "outer_step (st_task_state st) t \<and> st_task_state st' = t" if "tc_task_state c = Some t" for t
    using T(6) E(2) f(1) that by simp
  have "st_task_state st' = st_task_state st \<or> outer_step (st_task_state st) (st_task_state st')"
    using n s by (cases "tc_task_state c") auto
  moreover have "st_execution st' = st_execution st \<or>
      (\<exists>e. st_execution st' = Some e \<and> legal_inner (st_execution st) e \<and> validate_finished e)"
  proof (cases "tc_execution_state c")
    case None
    with E(6) T(2) f(2) show ?thesis by simp
  next
    case (Some y)
    with E(7) [OF Some] f(2) show ?thesis by auto
  qed
  ultimately show "legal_move st st'" by (simp add: legal_move_def)
qed

lemma dispatch_transition:
  assumes "dispatch C d st k x c = Inr oc" "is_transition c"
  shows "oc_db oc = d" "same_identity st (oc_state oc)" "legal_move st (oc_state oc)"
    "monotone st (oc_state oc)"
    "st_gateway_epoch (oc_state oc) = st_gateway_epoch st"
    "oc_operation oc = None" "oc_attempt oc = None" "oc_approval oc = None" "oc_transition oc \<noteq> None"
  using assms
  by (cases c; auto simp: transition_command_def finalize_terminal_def result_simps
      dest: apply_transition_Inr split: if_splits option.splits)+

lemma transition_not_adopt: "is_transition c \<Longrightarrow> \<not> is_adopt c"
  by (cases c) (simp_all add: is_adopt_def)

lemma dispatch_kinds [consumes 1, case_names quiet transition adopt]:
  assumes "dispatch C d st k x c = Inr oc"
    and "quiet d st oc \<Longrightarrow> \<not> is_transition c \<Longrightarrow> \<not> is_adopt c \<Longrightarrow> P"
    and "is_transition c \<Longrightarrow> \<not> is_adopt c \<Longrightarrow> P" and "is_adopt c \<Longrightarrow> \<not> is_transition c \<Longrightarrow> P"
  shows P
  using assms dispatch_quiet transition_not_adopt by blast

lemma dispatch_frame:
  assumes "dispatch C d st k x c = Inr oc"
  shows "untouched d (oc_db oc)" "same_identity st (oc_state oc)" "legal_move st (oc_state oc)"
    "monotone st (oc_state oc)"
    "\<not> is_adopt c \<Longrightarrow> st_gateway_epoch (oc_state oc) = st_gateway_epoch st"
  using assms
  by (cases rule: dispatch_kinds [OF assms];
      auto simp: quiet_def dispatch_transition dispatch_adopt intro: legal_move_same)+

text \<open>A normal terminal state is entered by one command only, through the finalize gate.\<close>

lemma dispatch_terminal:
  assumes "dispatch C d st k x c = Inr oc"
    and "normal_terminal (st_task_state (oc_state oc))" "\<not> normal_terminal (st_task_state st)"
  obtains g reason target where
    "c = FinalizeTerminal g reason" "st_task_state st = TaskState.FINALIZING"
    "st_terminal_target st = Some target"
    "st_task_state (oc_state oc) = task_state_of_target target"
    "validate_terminal_finalize (ct_env C) d st g = Inr ()"
  using assms(1)
proof (cases rule: dispatch_kinds)
  case quiet
  with assms(2,3) have False by (auto simp: quiet_def same_lifecycle_def)
  then show ?thesis ..
next
  case adopt
  with assms(2,3) dispatch_adopt(3) [OF assms(1)] have False by (auto simp: same_lifecycle_def)
  then show ?thesis ..
next
  case transition
  then consider tc where "c = Transition tc" | g r where "c = FinalizeTerminal g r"
    by (cases c) auto
  then show ?thesis
  proof cases
    case 1
    with assms(1) have ap: "apply_transition st tc (cx_now x) = Inr (oc_state oc)"
      and nt: "\<not> (\<exists>t. tc_task_state tc = Some t \<and> normal_terminal t)"
      by (auto simp: transition_command_def result_simps normal_terminal_def split: if_splits)
    have False
      using apply_transition_Inr(5,6) [OF ap] nt assms(2,3) by (cases "tc_task_state tc") auto
    then show ?thesis ..
  next
    case 2
    with assms(1) obtain target where
      "st_task_state st = TaskState.FINALIZING" "st_terminal_target st = Some target"
      "validate_terminal_finalize (ct_env C) d st g = Inr ()"
      and ap: "apply_transition st (terminal_transition target r) (cx_now x) = Inr (oc_state oc)"
      by (auto simp: finalize_terminal_def result_simps split: if_splits option.splits)
    moreover have "st_task_state (oc_state oc) = task_state_of_target target"
      using apply_transition_Inr(6) [OF ap] by (simp add: terminal_transition_def)
    ultimately show ?thesis using 2 that by blast
  qed
qed

end
