(* ===== verification/Controller_Apply.thy ===== *)
theory Controller_Apply
  imports Controller_Frame
begin

section \<open>The contract of apply\<close>

text \<open>
  What one call of \<^verbatim>\<open>StateController.apply\<close> does to the database: \<open>commit_outcome_Inr\<close> and
  \<open>apply_command_fresh\<close> invert a successful call, and the lemmas after them state the contract the
  gateway relies on (idempotent replay, compare-and-set, fencing, one event and one revision per command).
\<close>

definition states :: "db \<Rightarrow> AgentState list" where
  "states d = map sr_state (agent_states d)"

lemma lookup_sr_state:
  "map_option sr_state (lookup_row sr_run_id i rows) = find (\<lambda>s. st_run_id s = i) (map sr_state rows)"
  by (induction rows) (auto simp: sr_run_id_def lookup_row_def)

lemma state_in_states: "state_in d i = or_raise (find (\<lambda>s. st_run_id s = i) (states d)) (KeyError i)"
  by (simp add: state_in_def states_def lookup_sr_state)

lemma find_replace:
  "find (\<lambda>s. st_run_id s = i) (map (\<lambda>s. if st_run_id s = st_run_id st then st else s) ss) =
     (if i = st_run_id st
      then map_option (\<lambda>_. st) (find (\<lambda>s. st_run_id s = i) ss)
      else find (\<lambda>s. st_run_id s = i) ss)"
  by (induction ss) auto

lemma cas_state_Inr:
  assumes "cas_state d st n = Inr d'"
  obtains r where "lookup_row sr_run_id (st_run_id st) (agent_states d) = Some r"
    "st_revision (sr_state r) = n"
    "normal_terminal (st_task_state st) \<Longrightarrow> st_task_state st \<noteq> st_task_state (sr_state r)
       \<Longrightarrow> st_task_state (sr_state r) = TaskState.FINALIZING"
    "states d' = map (\<lambda>s. if st_run_id s = st_run_id st then st else s) (states d)"
    "d' = d\<lparr>agent_states := agent_states d'\<rparr>"
  using assms
  by (auto simp: cas_state_def states_def update_rows_def sr_run_id_def
      split: option.splits if_splits)

lemma log_transition_Inr:
  assumes "log_transition d b st cid reason ts = Inr d'"
  shows "d' = d\<lparr>state_transitions := state_transitions d'\<rparr>"
    and "reason = None \<Longrightarrow> state_transitions d' = state_transitions d"
    and "reason = Some r \<Longrightarrow> state_transitions d' = state_transitions d @ [\<lparr>tr_command_id = cid,
          tr_run_id = st_run_id st, tr_from_task_state = st_task_state b,
          tr_to_task_state = st_task_state st,
          tr_from_execution_state = map_option es_state (st_execution b),
          tr_to_execution_state = map_option es_state (st_execution st), tr_reason = r,
          tr_revision = st_revision st, tr_created_at = ts\<rparr>]"
  using assms by (auto simp: log_transition_def insert_transition_def split: option.splits if_splits)

definition committed_state :: "outcome \<Rightarrow> call \<Rightarrow> AgentState" where
  "committed_state oc x =
     (oc_state oc)\<lparr>st_revision := st_revision (oc_state oc) + 1, st_updated_at := cx_now x\<rparr>"

definition result_of :: "outcome \<Rightarrow> call \<Rightarrow> event_row \<Rightarrow> ApplyResult" where
  "result_of oc x e = \<lparr>ar_state = committed_state oc x, ar_operation = oc_operation oc,
     ar_attempt = oc_attempt oc, ar_approval = oc_approval oc, ar_event_id = Some (ev_event_id e),
     ar_duplicate = False\<rparr>"

definition processed_row_of ::
  "controller \<Rightarrow> StateCommand \<Rightarrow> outcome \<Rightarrow> call \<Rightarrow> event_row \<Rightarrow> processed_row" where
  "processed_row_of C k oc x e = \<lparr>pc_command_id = cmd_command_id k,
     pc_run_id = st_run_id (committed_state oc x), pc_command_hash = command_hash C k,
     pc_result = result_of oc x e, pc_processed_at = cx_now x\<rparr>"

definition committed_event ::
  "controller \<Rightarrow> db \<Rightarrow> AgentState \<Rightarrow> StateCommand \<Rightarrow> outcome \<Rightarrow> call \<Rightarrow> event_row" where
  "committed_event C d before k oc x =
     event_of (ct_env C) d (committed_state oc x) (event_type (cmd_body k))
       (event_payload k before (committed_state oc x) (oc_operation oc) (oc_attempt oc) (oc_approval oc))
       (Some (cmd_command_id k)) (cmd_event_key k) (cmd_causation_id k)
       (Some (or_text (cmd_correlation_id k) (st_run_id (oc_state oc)))) (cx_event_now x)"

lemma committed_state_fields [simp]:
  "st_run_id (committed_state oc x) = st_run_id (oc_state oc)"
  "st_revision (committed_state oc x) = st_revision (oc_state oc) + 1"
  "st_gateway_epoch (committed_state oc x) = st_gateway_epoch (oc_state oc)"
  "st_task_state (committed_state oc x) = st_task_state (oc_state oc)"
  "st_execution (committed_state oc x) = st_execution (oc_state oc)"
  "st_terminal_target (committed_state oc x) = st_terminal_target (oc_state oc)"
  by (simp_all add: committed_state_def)

lemma event_of_tables:
  assumes "gateway_events d' = gateway_events d" "event_sequences d' = event_sequences d"
  shows "event_of E d' st t p cid key cause corr now = event_of E d st t p cid key cause corr now"
proof -
  have "next_sequence d' = next_sequence d" by (rule ext) (simp add: next_sequence_def assms)
  moreover have "parent_correlation d' = parent_correlation d"
    by (rule ext) (simp add: parent_correlation_def assms)
  then have "select_correlation d' = select_correlation d"
    by (intro ext) (simp add: select_correlation_def Let_def split: option.split)
  ultimately show ?thesis by (simp only: event_of_def)
qed

lemma commit_outcome_Inr:
  assumes "commit_outcome C before k x oc = Inr (d', res)" "untouched d (oc_db oc)"
  obtains d1 d2 d3 e where
    "save_operation_opt (oc_db oc) (oc_operation oc) = Inr d1"
    "save_attempt_opt d1 (oc_attempt oc) = Inr d2"
    "save_approval_opt d2 (oc_approval oc) = Inr d3"
    "validate_lifecycle (committed_state oc x)"
    "\<exists>r. lookup_row sr_run_id (st_run_id (oc_state oc)) (agent_states d) = Some r \<and>
       st_revision (sr_state r) = st_revision before"
    "states d' = map (\<lambda>s. if st_run_id s = st_run_id (oc_state oc) then committed_state oc x else s)
       (states d)"
    "operation_ledger d' = operation_ledger d3" "operation_attempts d' = operation_attempts d3"
    "durable_approvals d' = durable_approvals d3"
    "e = committed_event C d before k oc x" "gateway_events d' = gateway_events d @ [e]"
    "event_sequences d' = upsert_row fst replace_row
       (st_run_id (oc_state oc), next_sequence d (st_run_id (oc_state oc))) (event_sequences d)"
    "processed_commands d' = processed_commands d @ [processed_row_of C k oc x e]"
    "res = result_of oc x e" "idempotency_records d' = idempotency_records d"
    "oc_transition oc = None \<Longrightarrow> state_transitions d' = state_transitions d"
    "runs d' = update_rows (\<lambda>r. ru_run_id r = st_run_id (oc_state oc))
       (project_run (committed_state oc x)) (runs d)"
proof -
  let ?st = "committed_state oc x"
  obtain d1 d2 d3 d4 d5 d6 e where v: "validate_lifecycle ?st"
    and s1: "save_operation_opt (oc_db oc) (oc_operation oc) = Inr d1"
    and s2: "save_attempt_opt d1 (oc_attempt oc) = Inr d2"
    and s3: "save_approval_opt d2 (oc_approval oc) = Inr d3"
    and s4: "cas_state d3 ?st (st_revision before) = Inr d4"
    and s5: "log_transition (update_run_projection d4 ?st) before ?st (cmd_command_id k)
      (oc_transition oc) (cx_now x) = Inr d5"
    and s6: "write_event (ct_env C) d5 ?st (event_type (cmd_body k))
       (event_payload k before ?st (oc_operation oc) (oc_attempt oc) (oc_approval oc))
       (Some (cmd_command_id k)) (cmd_event_key k) (cmd_causation_id k)
       (Some (or_text (cmd_correlation_id k) (st_run_id ?st))) (cx_event_now x) = Inr (d6, e)"
    and d': "d' = d6\<lparr>processed_commands := processed_commands d6 @ [processed_row_of C k oc x e]\<rparr>"
    and res: "res = result_of oc x e"
    using assms(1) [unfolded commit_outcome_def Let_def, folded committed_state_def]
    by (auto simp: result_simps processed_row_of_def result_of_def split: if_splits)
  have u: "untouched d d3"
    using assms(2) save_opt_untouched s1 s2 s3 by (meson untouched_trans)
  note w = write_event_Inr [OF s6] and L = log_transition_Inr [OF s5]
  obtain r where r: "lookup_row sr_run_id (st_run_id ?st) (agent_states d3) = Some r"
    "st_revision (sr_state r) = st_revision before"
    "states d4 = map (\<lambda>s. if st_run_id s = st_run_id ?st then ?st else s) (states d3)"
    "d4 = d3\<lparr>agent_states := agent_states d4\<rparr>"
    using s4 by (rule cas_state_Inr)
  have t4: "operation_ledger d4 = operation_ledger d3" "operation_attempts d4 = operation_attempts d3"
    "durable_approvals d4 = durable_approvals d3" "gateway_events d4 = gateway_events d3"
    "event_sequences d4 = event_sequences d3" "processed_commands d4 = processed_commands d3"
    "idempotency_records d4 = idempotency_records d3" "state_transitions d4 = state_transitions d3"
    "runs d4 = runs d3"
    by (subst r(4), simp)+
  have t5: "operation_ledger d5 = operation_ledger d3" "operation_attempts d5 = operation_attempts d3"
    "durable_approvals d5 = durable_approvals d3" "gateway_events d5 = gateway_events d3"
    "event_sequences d5 = event_sequences d3" "processed_commands d5 = processed_commands d3"
    "idempotency_records d5 = idempotency_records d3" "agent_states d5 = agent_states d4"
    "runs d5 = update_rows (\<lambda>r. ru_run_id r = st_run_id ?st) (project_run ?st) (runs d3)"
    by (subst L(1), simp add: update_run_projection_def t4)+
  have e: "e = committed_event C d before k oc x"
    unfolding w(1) committed_event_def committed_state_fields
    by (rule event_of_tables) (use t5 u in \<open>simp_all add: untouched_def\<close>)
  show thesis
  proof (rule that [OF s1 s2 s3 v _ _ _ _ _ e _ _ _ res])
    show "\<exists>r. lookup_row sr_run_id (st_run_id (oc_state oc)) (agent_states d) = Some r \<and>
       st_revision (sr_state r) = st_revision before"
      using r(1,2) u by (simp add: untouched_def)
    show "states d' = map (\<lambda>s. if st_run_id s = st_run_id (oc_state oc) then ?st else s) (states d)"
      using r(3) w(4) t5(8) u by (simp add: d' states_def untouched_def)
    show "state_transitions d' = state_transitions d" if "oc_transition oc = None"
      using L(2) [OF that] w(10) t4 u by (simp add: d' update_run_projection_def untouched_def)
  qed (use w t5 u in \<open>simp_all add: d' untouched_def next_sequence_def\<close>)
qed

subsection \<open>One call\<close>

lemma apply_command_fresh:
  assumes "apply_command C ctx d k x = Inr (d', res)"
    and "lookup_row pc_command_id (cmd_command_id k) (processed_commands d) = None"
  obtains st oc where "admission C ctx = Inr ()" "state_in d (cmd_run_id k) = Inr st"
    "st_run_id st = cmd_run_id k" "check_fence C st k = Inr ()"
    "dispatch C d st k x (cmd_body k) = Inr oc" "commit_outcome C st k x oc = Inr (d', res)"
proof -
  have "\<exists>st oc. admission C ctx = Inr () \<and> state_in d (cmd_run_id k) = Inr st \<and>
    check_fence C st k = Inr () \<and> dispatch C d st k x (cmd_body k) = Inr oc \<and>
    commit_outcome C st k x oc = Inr (d', res)"
    using assms by (auto simp: apply_command_def rbind_eq_Inr)
  moreover have "st_run_id st = cmd_run_id k" if "state_in d (cmd_run_id k) = Inr st" for st
    using that by (auto simp: state_in_states result_simps find_Some_iff)
  ultimately show thesis using that by blast
qed

lemma state_in_after:
  assumes "states d' = map (\<lambda>s. if st_run_id s = st_run_id st' then st' else s) (states d)"
  shows "state_in d' i =
    (if i = st_run_id st' then rbind (state_in d i) (\<lambda>_. Inr st') else state_in d i)"
  using assms
  by (auto simp: state_in_states find_replace or_raise_def rbind_def split: option.splits)

text \<open>The facts about a fresh call that the later proofs use, in one place.\<close>

lemma apply_fresh_facts:
  assumes "apply_command C ctx d k x = Inr (d', res)"
    and "lookup_row pc_command_id (cmd_command_id k) (processed_commands d) = None"
  obtains st oc e where "state_in d (cmd_run_id k) = Inr st" "st_run_id st = cmd_run_id k"
    "check_fence C st k = Inr ()" "dispatch C d st k x (cmd_body k) = Inr oc"
    "st_run_id (oc_state oc) = cmd_run_id k" "st_revision (oc_state oc) = st_revision st"
    "ar_state res = committed_state oc x" "validate_lifecycle (committed_state oc x)"
    "states d' = map (\<lambda>s. if st_run_id s = cmd_run_id k then committed_state oc x else s) (states d)"
    "e = committed_event C d st k oc x" "gateway_events d' = gateway_events d @ [e]"
    "event_sequences d' = upsert_row fst replace_row
       (cmd_run_id k, next_sequence d (cmd_run_id k)) (event_sequences d)"
    "processed_commands d' = processed_commands d @ [processed_row_of C k oc x e]"
    "res = result_of oc x e" "idempotency_records d' = idempotency_records d"
    "map ru_run_id (runs d') = map ru_run_id (runs d)"
proof -
  obtain st oc where f: "state_in d (cmd_run_id k) = Inr st" "st_run_id st = cmd_run_id k"
    "check_fence C st k = Inr ()" "dispatch C d st k x (cmd_body k) = Inr oc"
    and c: "commit_outcome C st k x oc = Inr (d', res)"
    using assms by (rule apply_command_fresh)
  note F = dispatch_frame [OF f(4)]
  have id: "st_run_id (oc_state oc) = cmd_run_id k" "st_revision (oc_state oc) = st_revision st"
    using F(2) f(2) by (simp_all add: same_identity_def)
  show thesis
    using c F(1)
  proof (rule commit_outcome_Inr)
    fix e
    assume "validate_lifecycle (committed_state oc x)"
      "states d' = map (\<lambda>s. if st_run_id s = st_run_id (oc_state oc) then committed_state oc x else s)
         (states d)"
      "e = committed_event C d st k oc x" "gateway_events d' = gateway_events d @ [e]"
      "event_sequences d' = upsert_row fst replace_row
         (st_run_id (oc_state oc), next_sequence d (st_run_id (oc_state oc))) (event_sequences d)"
      "processed_commands d' = processed_commands d @ [processed_row_of C k oc x e]"
      "res = result_of oc x e" "idempotency_records d' = idempotency_records d"
      "runs d' = update_rows (\<lambda>r. ru_run_id r = st_run_id (oc_state oc))
         (project_run (committed_state oc x)) (runs d)"
    then show thesis
      by (intro that [of st oc e] f id)
         (simp_all add: id result_of_def update_rows_keys [of ru_run_id] project_run_def)
  qed
qed

lemma apply_command_duplicate:
  assumes "apply_command C ctx d k x = Inr (d', res)"
    and "lookup_row pc_command_id (cmd_command_id k) (processed_commands d) = Some r"
  shows "d' = d" "pc_command_hash r = command_hash C k" "res = (pc_result r)\<lparr>ar_duplicate := True\<rparr>"
  using assms by (auto simp: apply_command_def rbind_eq_Inr split: if_splits)

lemma apply_processed:
  assumes "apply_command C ctx d k x = Inr (d', res)"
  obtains r where "lookup_row pc_command_id (cmd_command_id k) (processed_commands d') = Some r"
    "pc_command_hash r = command_hash C k"
    "(pc_result r)\<lparr>ar_duplicate := True\<rparr> = res\<lparr>ar_duplicate := True\<rparr>"
proof (cases "lookup_row pc_command_id (cmd_command_id k) (processed_commands d)")
  case None
  obtain oc e where "processed_commands d' = processed_commands d @ [processed_row_of C k oc x e]"
    "res = result_of oc x e"
    using assms None by (rule apply_fresh_facts)
  with None that [of "processed_row_of C k oc x e"] show thesis
    by (simp add: processed_row_of_def)
next
  case (Some r)
  with apply_command_duplicate [OF assms Some] that show thesis by simp
qed

lemma apply_fresh_step:
  assumes "apply_command C ctx d k x = Inr (d', res)"
    and "lookup_row pc_command_id (cmd_command_id k) (processed_commands d) = None"
  shows "\<exists>st st'. state_in d (cmd_run_id k) = Inr st \<and> state_in d' (cmd_run_id k) = Inr st' \<and>
    ar_state res = st' \<and> st_revision st = cmd_expected_revision k \<and>
    st_revision st' = st_revision st + 1 \<and> validate_lifecycle st' \<and> legal_move st st' \<and>
    monotone st st' \<and> same_identity st (st'\<lparr>st_revision := st_revision st\<rparr>)"
proof -
  obtain st oc where f: "state_in d (cmd_run_id k) = Inr st" "check_fence C st k = Inr ()"
    "dispatch C d st k x (cmd_body k) = Inr oc" "st_run_id (oc_state oc) = cmd_run_id k"
    "st_revision (oc_state oc) = st_revision st" "ar_state res = committed_state oc x"
    "validate_lifecycle (committed_state oc x)"
    "states d' = map (\<lambda>s. if st_run_id s = cmd_run_id k then committed_state oc x else s) (states d)"
    using assms by (rule apply_fresh_facts)
  have "state_in d' (cmd_run_id k) = Inr (committed_state oc x)"
    using state_in_after [of d' "committed_state oc x" d "cmd_run_id k"] f by simp
  moreover have "st_revision st = cmd_expected_revision k"
    using f(2) by (auto simp: check_fence_def split: if_splits)
  moreover have "legal_move st (committed_state oc x)" "monotone st (committed_state oc x)"
    "same_identity st ((committed_state oc x)\<lparr>st_revision := st_revision st\<rparr>)"
    using dispatch_frame [OF f(3)]
    by (simp_all add: legal_move_def monotone_def same_identity_def committed_state_def)
  ultimately show ?thesis using f by auto
qed

text \<open>What the terminal gate established, step by step.\<close>

lemma collect_finalize_evidence_all:
  "collect_finalize_evidence E d st g steps = Inr found \<Longrightarrow> step \<in> set steps \<Longrightarrow>
     \<exists>ev a. finalize_step_evidence E d st g step = Inr (ev, a)"
  by (induction steps arbitrary: found) (auto simp: rbind_eq_Inr)

lemma validate_terminal_finalize_steps:
  assumes "validate_terminal_finalize E d st g = Inr ()"
  shows "st_finalize_generation st = Some g"
    "\<exists>r \<in> set (finalize_generations d). fg_run_id r = st_run_id st \<and> fg_generation r = g"
    "\<not> (\<exists>r \<in> set (finalize_generation_invalidations d). iv_run_id r = st_run_id st \<and> iv_generation r = g)"
    "\<exists>ev a. finalize_step_evidence E d st g step = Inr (ev, a)"
proof -
  from assms obtain found where "st_finalize_generation st = Some g"
    "list_ex (\<lambda>x. fg_run_id x = st_run_id st \<and> fg_generation x = g) (finalize_generations d)"
    "\<not> list_ex (\<lambda>x. iv_run_id x = st_run_id st \<and> iv_generation x = g) (finalize_generation_invalidations d)"
    "collect_finalize_evidence E d st g enum_class.enum = Inr found"
    by (auto simp: validate_terminal_finalize_def result_simps)
  then show "st_finalize_generation st = Some g"
    "\<exists>r \<in> set (finalize_generations d). fg_run_id r = st_run_id st \<and> fg_generation r = g"
    "\<not> (\<exists>r \<in> set (finalize_generation_invalidations d). iv_run_id r = st_run_id st \<and> iv_generation r = g)"
    "\<exists>ev a. finalize_step_evidence E d st g step = Inr (ev, a)"
    using collect_finalize_evidence_all [of E d st g enum_class.enum found step] in_enum [of step]
    by (auto simp: list_ex_iff)
qed

subsection \<open>Properties of one call\<close>

text \<open>
  C5. A command that is applied for the first time moves its run by exactly one revision to a state
  the lifecycle validator accepts; both state machines move along their tables, the identity of the run
  is kept, and a session binding, a contract upgrade, a cancellation or a finalize generation is never
  taken back.
\<close>

theorem apply_moves_legally:
  assumes "apply_command C ctx d k x = Inr (d', res)"
    and "lookup_row pc_command_id (cmd_command_id k) (processed_commands d) = None"
  shows "\<exists>st st'. state_in d (cmd_run_id k) = Inr st \<and> state_in d' (cmd_run_id k) = Inr st' \<and>
    ar_state res = st' \<and> st_revision st = cmd_expected_revision k \<and>
    st_revision st' = st_revision st + 1 \<and> validate_lifecycle st' \<and> legal_move st st' \<and>
    monotone st st' \<and> same_identity st (st'\<lparr>st_revision := st_revision st\<rparr>)"
  using assms by (rule apply_fresh_step)

text \<open>A command touches the state of no run but its own.\<close>

theorem apply_other_runs:
  assumes "apply_command C ctx d k x = Inr (d', res)" "i \<noteq> cmd_run_id k"
  shows "state_in d' i = state_in d i \<and> events_of d' i = events_of d i"
proof (cases "lookup_row pc_command_id (cmd_command_id k) (processed_commands d)")
  case None
  obtain st oc e where f: "st_run_id (oc_state oc) = cmd_run_id k"
    "states d' = map (\<lambda>s. if st_run_id s = cmd_run_id k then committed_state oc x else s) (states d)"
    "e = committed_event C d st k oc x" "gateway_events d' = gateway_events d @ [e]"
    using assms(1) None by (rule apply_fresh_facts)
  then show ?thesis
    using assms(2) state_in_after [of d' "committed_state oc x" d i]
    by (simp add: events_of_def committed_event_def event_of_columns)
next
  case (Some r)
  with apply_command_duplicate [OF assms(1)] show ?thesis by simp
qed

text \<open>
  C6. Replay is idempotent: sending a command again after it was applied, at any later clock reading,
  changes nothing and returns the result that was stored, marked as a duplicate.
\<close>

theorem apply_replay:
  assumes "apply_command C ctx d k x = Inr (d1, res)" "admission C ctx' = Inr ()"
  shows "apply_command C ctx' d1 k x' = Inr (d1, res\<lparr>ar_duplicate := True\<rparr>)"
proof -
  obtain r where "lookup_row pc_command_id (cmd_command_id k) (processed_commands d1) = Some r"
    "pc_command_hash r = command_hash C k"
    "(pc_result r)\<lparr>ar_duplicate := True\<rparr> = res\<lparr>ar_duplicate := True\<rparr>"
    using assms(1) by (rule apply_processed)
  then show ?thesis using assms(2) by (simp add: apply_command_def)
qed

text \<open>
  C7. No lost update: of two different commands prepared against the same revision of a run, the one
  that comes second is refused and changes nothing.
\<close>

theorem apply_no_lost_update:
  assumes "apply_command C ctx d k x = Inr (d1, res)"
    and "lookup_row pc_command_id (cmd_command_id k) (processed_commands d) = None"
    and "lookup_row pc_command_id (cmd_command_id k2) (processed_commands d1) = None"
    and "cmd_run_id k2 = cmd_run_id k" "cmd_expected_revision k2 = cmd_expected_revision k"
    and "admission C2 ctx2 = Inr ()"
  shows "apply_command C2 ctx2 d1 k2 x2 = Inl (StateConflictError ''State revision conflict'')"
proof -
  obtain st st' where "state_in d1 (cmd_run_id k) = Inr st'"
    "st_revision st' = cmd_expected_revision k + 1"
    using apply_fresh_step [OF assms(1,2)] by auto
  then show ?thesis using assms(3-6) by (simp add: apply_command_def check_fence_def)
qed


text \<open>
  C3. The terminal gate: a run reaches SUCCEEDED, FAILED or CANCELLED only by a \<open>FinalizeTerminal\<close>
  command that finds it in FINALIZING with that terminal target, a current finalize generation that was
  recorded and not invalidated, and accepted evidence of every finalize step.
\<close>

theorem normal_terminal_needs_evidence:
  assumes "apply_command C ctx d k x = Inr (d', res)"
    and "lookup_row pc_command_id (cmd_command_id k) (processed_commands d) = None"
    and "state_in d (cmd_run_id k) = Inr st" "\<not> normal_terminal (st_task_state st)"
    and "normal_terminal (st_task_state (ar_state res))"
  shows "\<exists>g reason target. cmd_body k = FinalizeTerminal g reason \<and>
    st_task_state st = TaskState.FINALIZING \<and> st_terminal_target st = Some target \<and>
    st_task_state (ar_state res) = task_state_of_target target \<and>
    st_finalize_generation st = Some g \<and>
    (\<exists>r \<in> set (finalize_generations d). fg_run_id r = cmd_run_id k \<and> fg_generation r = g) \<and>
    \<not> (\<exists>r \<in> set (finalize_generation_invalidations d). iv_run_id r = cmd_run_id k \<and> iv_generation r = g) \<and>
    (\<forall>step. \<exists>ev a. finalize_step_evidence (ct_env C) d st g step = Inr (ev, a))"
proof -
  obtain st0 oc where f: "state_in d (cmd_run_id k) = Inr st0" "st_run_id st0 = cmd_run_id k"
    "dispatch C d st0 k x (cmd_body k) = Inr oc" "ar_state res = committed_state oc x"
    using assms(1,2) by (rule apply_fresh_facts)
  have st: "st0 = st" using f(1) assms(3) by simp
  obtain g reason target where g: "cmd_body k = FinalizeTerminal g reason"
    "st_task_state st = TaskState.FINALIZING" "st_terminal_target st = Some target"
    "st_task_state (oc_state oc) = task_state_of_target target"
    and v: "validate_terminal_finalize (ct_env C) d st g = Inr ()"
    using f(3) unfolding st
    by (rule dispatch_terminal) (use assms(4,5) f(4) in \<open>simp_all\<close>)
  show ?thesis
    using g f validate_terminal_finalize_steps [OF v] unfolding st by auto
qed

text \<open>
  C15. Terminal states absorb: a run that is SUCCEEDED, FAILED, CANCELLED or INTERRUPTED stays in that
  state under every command that is applied to it.
\<close>

theorem terminal_state_absorbs:
  assumes "apply_command C ctx d k x = Inr (d', res)"
    and "lookup_row pc_command_id (cmd_command_id k) (processed_commands d) = None"
    and "state_in d (cmd_run_id k) = Inr st" "st_task_state st \<in> set TERMINAL_STATES"
  shows "st_task_state (ar_state res) = st_task_state st"
proof -
  obtain st' where "legal_move st st'" "ar_state res = st'"
    using apply_fresh_step [OF assms(1,2)] assms(3) by auto
  then show ?thesis
    using outer.final_absorbing [OF assms(4)] by (simp add: legal_move_def)
qed

end
