(* ===== verification/Ledger_Invariant.thy ===== *)
theory Ledger_Invariant
  imports Controller_Apply
begin

section \<open>The ledger is the reduction of its attempts\<close>

text \<open>
  The invariant that ties the two operation tables together. \<open>ledger_inv\<close> says: keys are unique, the
  columns of every row agree with the document it stores, every attempt carries valid evidence and belongs
  to an operation, every operation record shows exactly what \<open>reduce_operation\<close> computes from its attempts,
  and a run has at most one active side-effecting attempt. The first part proves it is kept by the three
  ways the controller writes an operation with an attempt (update, next attempt, new operation), the second
  that every branch of the dispatch writes in one of these ways.
\<close>

subsection \<open>The invariant\<close>

definition docs :: "attempt_row list \<Rightarrow> string \<Rightarrow> OperationAttempt list" where
  "docs A i = map ar_document (filter (\<lambda>r. ar_operation_id r = i) A)"

definition reflects :: "OperationRecord \<Rightarrow> OperationAttempt list \<Rightarrow> bool" where
  "reflects op as \<longleftrightarrow>
     (\<exists>g. reduce_operation (immutable_metadata op) as (op_retry_policy_snapshot op) = Inr g \<and>
        op_status op = ag_status g \<and> op_failure_kind op = ag_failure_kind g \<and>
        op_failure_reason op = ag_failure_reason g \<and>
        op_latest_attempt_no op = ag_latest_attempt_no g \<and>
        op_next_retry_at op = ag_next_retry_at g \<and> op_result op = ag_result g \<and>
        op_result_hash op = ag_result_hash g \<and> op_result_source op = ag_result_source g)"

definition operation_rows_ok :: "operation_row list \<Rightarrow> attempt_row list \<Rightarrow> bool" where
  "operation_rows_ok L A \<longleftrightarrow>
     (\<forall>r \<in> set L. r = operation_row_of (or_record r) \<and> reflects (or_record r) (docs A (or_operation_id r)))"

definition attempt_rows_ok :: "operation_row list \<Rightarrow> attempt_row list \<Rightarrow> bool" where
  "attempt_rows_ok L A \<longleftrightarrow>
     (\<forall>x \<in> set A. x = attempt_row_of (ar_document x) \<and> validate_attempt_evidence (ar_document x) \<and>
        ar_operation_id x \<in> or_operation_id ` set L)"

definition one_active_effect :: "attempt_row list \<Rightarrow> bool" where
  "one_active_effect A \<longleftrightarrow>
     (\<forall>x \<in> set A. \<forall>y \<in> set A. row_active_effect x \<and> row_active_effect y \<and> ar_run_id x = ar_run_id y
        \<longrightarrow> x = y)"

definition ledger_inv :: "operation_row list \<Rightarrow> attempt_row list \<Rightarrow> bool" where
  "ledger_inv L A \<longleftrightarrow>
     distinct (map or_operation_id L) \<and> distinct (map ar_attempt_id A) \<and>
     operation_rows_ok L A \<and> attempt_rows_ok L A \<and> one_active_effect A"

subsection \<open>Reduction does not depend on the order of the attempts\<close>

lemma reduce_operation_mset:
  assumes "mset xs = mset ys"
  shows "reduce_operation md xs p = reduce_operation md ys p"
proof -
  let ?sx = "sort_key at_attempt_no xs" and ?sy = "sort_key at_attempt_no ys"
  have keys: "map at_attempt_no ?sx = map at_attempt_no ?sy"
    using assms by (rule numbered_keys_perm)
  have len: "length ?sx = length ?sy" using mset_eq_length [OF assms] by simp
  have num: "numbered ?sx \<longleftrightarrow> numbered ?sy"
    unfolding numbered_def keys len ..
  have empty: "xs = [] \<longleftrightarrow> ys = []" using assms by auto
  show ?thesis
  proof (cases "numbered ?sx")
    case True
    then have "?sx = ?sy"
      using assms numbered_distinct sort_key_unique_perm by blast
    with empty show ?thesis by (simp add: reduce_operation_def)
  next
    case False
    with num empty show ?thesis by (simp add: reduce_operation_def Let_def)
  qed
qed

lemma reflects_mset: "mset xs = mset ys \<Longrightarrow> reflects op xs \<Longrightarrow> reflects op ys"
  unfolding reflects_def using reduce_operation_mset [of xs ys] by simp

definition same_operation :: "OperationRecord \<Rightarrow> OperationRecord \<Rightarrow> bool" where
  "same_operation op op' \<longleftrightarrow>
     immutable_metadata op' = immutable_metadata op \<and>
     op_retry_policy_snapshot op' = op_retry_policy_snapshot op"

lemma same_operationD:
  assumes "same_operation op op'"
  shows "op_operation_id op' = op_operation_id op" "op_run_id op' = op_run_id op"
    "op_parent_operation_id op' = op_parent_operation_id op" "op_kind op' = op_kind op"
    "op_stable_key op' = op_stable_key op" "op_request_hash op' = op_request_hash op"
    "op_side_effecting op' = op_side_effecting op" "op_idempotency op' = op_idempotency op"
    "op_retry_policy_snapshot op' = op_retry_policy_snapshot op"
  using assms by (auto simp: same_operation_def immutable_metadata_def)

lemma aggregate_reflects:
  assumes "aggregate_operation op as ts = Inr op'"
  shows "reflects op' as" "same_operation op op'"
  using assms
  by (auto simp: aggregate_operation_def result_simps reflects_def same_operation_def
      immutable_metadata_def)

definition same_attempt :: "OperationAttempt \<Rightarrow> OperationAttempt \<Rightarrow> bool" where
  "same_attempt a a' \<longleftrightarrow>
     at_attempt_id a' = at_attempt_id a \<and> at_operation_id a' = at_operation_id a \<and>
     at_run_id a' = at_run_id a \<and> at_attempt_no a' = at_attempt_no a \<and>
     at_request_hash a' = at_request_hash a \<and> at_side_effecting a' = at_side_effecting a"

subsection \<open>Writing rows\<close>

context row_table
begin

lemma upsert_present:
  "distinct (map key rows) \<Longrightarrow> key r \<in> key ` set rows \<Longrightarrow>
     upsert_row key merge r rows = map (\<lambda>x. if key x = key r then merge x r else x) rows"
proof (induction rows)
  case (Cons x xs)
  show ?case
  proof (cases "key x = key r")
    case True
    with Cons.prems(1) have "\<And>y. y \<in> set xs \<Longrightarrow> key y \<noteq> key r" by (auto simp: rev_image_eqI)
    then show ?thesis using True by (simp add: map_idI)
  qed (use Cons in auto)
qed simp

end

lemma merge_operation_same:
  assumes "x = operation_row_of op" "same_operation op op'"
  shows "merge_operation_row x (operation_row_of op') = operation_row_of op'"
  using assms same_operationD [OF assms(2)] by (simp add: merge_operation_row_def operation_row_of_def)

lemma merge_attempt_same:
  assumes "x = attempt_row_of a" "same_attempt a a'"
  shows "merge_attempt_row x (attempt_row_of a') = attempt_row_of a'"
  using assms by (simp add: merge_attempt_row_def attempt_row_of_def same_attempt_def)

definition put_operation :: "OperationRecord \<Rightarrow> operation_row list \<Rightarrow> operation_row list" where
  "put_operation op L = map (\<lambda>x. if or_operation_id x = op_operation_id op then operation_row_of op else x) L"

definition put_attempt :: "OperationAttempt \<Rightarrow> attempt_row list \<Rightarrow> attempt_row list" where
  "put_attempt a A = map (\<lambda>x. if ar_attempt_id x = at_attempt_id a then attempt_row_of a else x) A"

lemma row_ids [simp]:
  "or_operation_id (operation_row_of op) = op_operation_id op"
  "or_record (operation_row_of op) = op"
  "ar_attempt_id (attempt_row_of a) = at_attempt_id a"
  "ar_operation_id (attempt_row_of a) = at_operation_id a"
  "ar_run_id (attempt_row_of a) = at_run_id a" "ar_status (attempt_row_of a) = at_status a"
  "ar_document (attempt_row_of a) = a"
  by (simp_all add: operation_row_of_def attempt_row_of_def)

lemma or_run_id_of [simp]: "or_run_id (operation_row_of op) = op_run_id op"
  by (simp add: operation_row_of_def)

lemma operation_row_ok:
  assumes "ledger_inv L A" "r \<in> set L"
  shows "operation_row_of (or_record r) = r" "or_operation_id r = op_operation_id (or_record r)"
    "reflects (or_record r) (docs A (or_operation_id r))"
  using assms unfolding ledger_inv_def operation_rows_ok_def by (metis row_ids(1))+

lemma attempt_row_ok:
  assumes "ledger_inv L A" "x \<in> set A"
  shows "attempt_row_of (ar_document x) = x" "ar_attempt_id x = at_attempt_id (ar_document x)"
    "ar_operation_id x = at_operation_id (ar_document x)"
    "validate_attempt_evidence (ar_document x)" "ar_operation_id x \<in> or_operation_id ` set L"
  using assms unfolding ledger_inv_def attempt_rows_ok_def by (metis row_ids(3,4))+

lemma upsert_operation_put:
  assumes "ledger_inv L A" "r \<in> set L" "same_operation (or_record r) op"
  shows "upsert_row or_operation_id merge_operation_row (operation_row_of op) L = put_operation op L"
proof -
  have d: "distinct (map or_operation_id L)" using assms(1) by (simp add: ledger_inv_def)
  have id: "or_operation_id r = op_operation_id op"
    using operation_row_ok [OF assms(1,2)] same_operationD(1) [OF assms(3)] by simp
  have "merge_operation_row x (operation_row_of op) = operation_row_of op"
    if "x \<in> set L" "or_operation_id x = op_operation_id op" for x
  proof -
    have "x = r" using that id assms(2) d by (metis lookup_row_distinct option.inject)
    then show ?thesis
      using merge_operation_same [OF _ assms(3)] operation_row_ok [OF assms(1,2)] by auto
  qed
  moreover have "op_operation_id op \<in> or_operation_id ` set L" using id assms(2) by (metis imageI)
  ultimately show ?thesis
    using operations.upsert_present [OF d, of "operation_row_of op"]
    by (simp add: put_operation_def)
qed

lemma upsert_attempt_put:
  assumes "ledger_inv L A" "x \<in> set A" "same_attempt (ar_document x) a"
  shows "upsert_row ar_attempt_id merge_attempt_row (attempt_row_of a) A = put_attempt a A"
proof -
  have d: "distinct (map ar_attempt_id A)" using assms(1) by (simp add: ledger_inv_def)
  have id: "ar_attempt_id x = at_attempt_id a"
    using attempt_row_ok [OF assms(1,2)] assms(3) by (simp add: same_attempt_def)
  have "merge_attempt_row y (attempt_row_of a) = attempt_row_of a"
    if "y \<in> set A" "ar_attempt_id y = at_attempt_id a" for y
  proof -
    have "y = x" using that id assms(2) d by (metis lookup_row_distinct option.inject)
    then show ?thesis
      using merge_attempt_same [OF _ assms(3)] attempt_row_ok [OF assms(1,2)] by auto
  qed
  moreover have "at_attempt_id a \<in> ar_attempt_id ` set A" using id assms(2) by (metis imageI)
  ultimately show ?thesis
    using attempts.upsert_present [OF d, of "attempt_row_of a"]
    by (simp add: put_attempt_def)
qed

lemma put_keys [simp]:
  "map or_operation_id (put_operation op L) = map or_operation_id L"
  "map ar_attempt_id (put_attempt a A) = map ar_attempt_id A"
  by (auto simp: put_operation_def put_attempt_def)

lemma or_ids_put [simp]: "or_operation_id ` set (put_operation op L) = or_operation_id ` set L"
  by (metis put_keys(1) set_map)

subsection \<open>Updating an attempt\<close>

definition replace_attempt :: "OperationAttempt \<Rightarrow> OperationAttempt \<Rightarrow> OperationAttempt" where
  "replace_attempt a y = (if at_attempt_id y = at_attempt_id a then a else y)"

lemma docs_put:
  assumes "\<And>x. x \<in> set A \<Longrightarrow> x = attempt_row_of (ar_document x)"
    and "\<And>x. x \<in> set A \<Longrightarrow> ar_attempt_id x = at_attempt_id a \<Longrightarrow> ar_operation_id x = at_operation_id a"
  shows "docs (put_attempt a A) i = map (replace_attempt a) (docs A i)"
  using assms
proof (induction A)
  case (Cons x A)
  have x: "ar_attempt_id x = at_attempt_id (ar_document x)"
    using Cons.prems(1) [of x] by (metis list.set_intros(1) row_ids(3))
  have "docs (put_attempt a A) i = map (replace_attempt a) (docs A i)"
    using Cons by simp
  then show ?case
    using Cons.prems(2) [of x] x by (auto simp: docs_def put_attempt_def replace_attempt_def)
qed (simp add: docs_def put_attempt_def)

lemma docs_row:
  "ledger_inv L A \<Longrightarrow> y \<in> set (docs A i) \<longleftrightarrow> (\<exists>x \<in> set A. ar_document x = y \<and> ar_operation_id x = i)"
  by (auto simp: docs_def)

lemma docs_put_other:
  assumes "ledger_inv L A" "x \<in> set A" "same_attempt (ar_document x) a" "i \<noteq> at_operation_id a"
  shows "map (replace_attempt a) (docs A i) = docs A i"
proof (rule map_idI)
  fix y assume "y \<in> set (docs A i)"
  then obtain z where z: "z \<in> set A" "ar_document z = y" "ar_operation_id z = i"
    using docs_row [OF assms(1)] by blast
  have "at_attempt_id y \<noteq> at_attempt_id a"
  proof
    assume eq: "at_attempt_id y = at_attempt_id a"
    have "ar_attempt_id z = ar_attempt_id x"
      using eq z assms(3) attempt_row_ok [OF assms(1) z(1)] attempt_row_ok [OF assms(1,2)]
      by (simp add: same_attempt_def)
    then have "z = x"
      using z(1) assms(1,2) by (metis ledger_inv_def lookup_row_distinct option.inject)
    then show False
      using z assms(3,4) attempt_row_ok [OF assms(1,2)] by (simp add: same_attempt_def)
  qed
  then show "replace_attempt a y = y" by (simp add: replace_attempt_def)
qed

lemma attempt_put_rows_ok:
  assumes "ledger_inv L A" "x \<in> set A" "same_attempt (ar_document x) a" "validate_attempt_evidence a"
  shows "attempt_rows_ok (put_operation op L) (put_attempt a A)"
  unfolding attempt_rows_ok_def
proof
  fix y assume "y \<in> set (put_attempt a A)"
  then obtain z where z: "z \<in> set A" "y = (if ar_attempt_id z = at_attempt_id a then attempt_row_of a else z)"
    by (auto simp: put_attempt_def)
  have "at_operation_id a \<in> or_operation_id ` set L"
    using attempt_row_ok [OF assms(1,2)] assms(3) by (simp add: same_attempt_def)
  then show "y = attempt_row_of (ar_document y) \<and> validate_attempt_evidence (ar_document y) \<and>
      ar_operation_id y \<in> or_operation_id ` set (put_operation op L)"
    using z assms(4) attempt_row_ok [OF assms(1) z(1)] by auto
qed

lemma one_active_put:
  assumes "ledger_inv L A"
    and "attempt_index_ok (attempt_row_of a) (filter (\<lambda>x. ar_attempt_id x \<noteq> at_attempt_id a) A)"
  shows "one_active_effect (put_attempt a A)"
  using assms
  by (auto simp: one_active_effect_def put_attempt_def attempt_index_ok_def list_all_iff ledger_inv_def
      split: if_splits)

lemma ledger_inv_update:
  assumes inv: "ledger_inv L A" and x: "x \<in> set A" and same: "same_attempt (ar_document x) a"
    and v: "validate_attempt_evidence a"
    and r: "r \<in> set L" "or_operation_id r = at_operation_id a"
    and agg: "aggregate_operation (or_record r) (map (replace_attempt a) as) ts = Inr op"
    and as: "mset as = mset (docs A (at_operation_id a))"
    and idx: "attempt_index_ok (attempt_row_of a) (filter (\<lambda>x. ar_attempt_id x \<noteq> at_attempt_id a) A)"
  shows "ledger_inv (put_operation op L) (put_attempt a A)"
proof -
  note R = operation_row_ok [OF inv r(1)] and G = aggregate_reflects [OF agg]
  have id: "op_operation_id op = at_operation_id a"
    using same_operationD(1) [OF G(2)] R r(2) by simp
  have own: "ar_operation_id y = at_operation_id a" if "y \<in> set A" "ar_attempt_id y = at_attempt_id a" for y
  proof -
    have "ar_attempt_id y = ar_attempt_id x"
      using that(2) same attempt_row_ok [OF inv x] by (simp add: same_attempt_def)
    then have "y = x" using that(1) x inv by (metis ledger_inv_def lookup_row_distinct option.inject)
    then show ?thesis using same attempt_row_ok [OF inv x] by (simp add: same_attempt_def)
  qed
  have docs': "docs (put_attempt a A) i = map (replace_attempt a) (docs A i)" for i
    by (rule docs_put) (use attempt_row_ok [OF inv] own in auto)
  have new: "reflects op (docs (put_attempt a A) (at_operation_id a))"
    using reflects_mset [OF _ G(1)] as unfolding docs' by (metis mset_map)
  have "operation_rows_ok (put_operation op L) (put_attempt a A)"
    unfolding operation_rows_ok_def
  proof
    fix y assume "y \<in> set (put_operation op L)"
    then obtain z where z: "z \<in> set L"
      "y = (if or_operation_id z = op_operation_id op then operation_row_of op else z)"
      by (auto simp: put_operation_def)
    show "y = operation_row_of (or_record y) \<and> reflects (or_record y) (docs (put_attempt a A) (or_operation_id y))"
    proof (cases "or_operation_id z = op_operation_id op")
      case True
      with z(2) new id show ?thesis by simp
    next
      case False
      with z(2) id docs_put_other [OF inv x same] operation_row_ok [OF inv z(1)] show ?thesis
        by (simp add: docs')
    qed
  qed
  then show ?thesis
    using inv attempt_put_rows_ok [OF inv x same v] one_active_put [OF inv idx]
    by (simp add: ledger_inv_def)
qed

subsection \<open>Adding an attempt\<close>

lemma docs_append: "docs (A @ [attempt_row_of a]) i = docs A i @ (if at_operation_id a = i then [a] else [])"
  by (simp add: docs_def)

lemma one_active_append:
  assumes "ledger_inv L A" "attempt_index_ok (attempt_row_of a) A"
  shows "one_active_effect (A @ [attempt_row_of a])"
  using assms
  by (auto simp: one_active_effect_def attempt_index_ok_def list_all_iff ledger_inv_def)

lemma ledger_inv_next_attempt:
  assumes inv: "ledger_inv L A" and fresh: "at_attempt_id a \<notin> ar_attempt_id ` set A"
    and v: "validate_attempt_evidence a"
    and r: "r \<in> set L" "or_operation_id r = at_operation_id a"
    and agg: "aggregate_operation (or_record r) (as @ [a]) ts = Inr op"
    and as: "mset as = mset (docs A (at_operation_id a))"
    and idx: "attempt_index_ok (attempt_row_of a) A"
  shows "ledger_inv (put_operation op L) (A @ [attempt_row_of a])"
proof -
  note R = operation_row_ok [OF inv r(1)] and G = aggregate_reflects [OF agg]
  have id: "op_operation_id op = at_operation_id a"
    using same_operationD(1) [OF G(2)] R r(2) by simp
  have new: "reflects op (docs A (at_operation_id a) @ [a])"
    using reflects_mset [OF _ G(1)] as by simp
  have "operation_rows_ok (put_operation op L) (A @ [attempt_row_of a])"
    unfolding operation_rows_ok_def
  proof
    fix y assume "y \<in> set (put_operation op L)"
    then obtain z where z: "z \<in> set L"
      "y = (if or_operation_id z = op_operation_id op then operation_row_of op else z)"
      by (auto simp: put_operation_def)
    then show "y = operation_row_of (or_record y) \<and>
        reflects (or_record y) (docs (A @ [attempt_row_of a]) (or_operation_id y))"
      using new id operation_row_ok [OF inv z(1)] by (auto simp: docs_append)
  qed
  moreover have "attempt_rows_ok (put_operation op L) (A @ [attempt_row_of a])"
    using inv v r by (force simp: attempt_rows_ok_def ledger_inv_def)
  ultimately show ?thesis
    using inv fresh one_active_append [OF inv idx] by (simp add: ledger_inv_def)
qed

lemma ledger_inv_new_operation:
  assumes inv: "ledger_inv L A" and fresh: "at_attempt_id a \<notin> ar_attempt_id ` set A"
    and v: "validate_attempt_evidence a" and op: "op_operation_id op = at_operation_id a"
    and new: "op_operation_id op \<notin> or_operation_id ` set L" and ref: "reflects op [a]"
    and idx: "attempt_index_ok (attempt_row_of a) A"
  shows "ledger_inv (L @ [operation_row_of op]) (A @ [attempt_row_of a])"
proof -
  have none: "docs A (op_operation_id op) = []"
    using attempt_row_ok(5) [OF inv] new by (simp add: docs_def filter_empty_conv) metis
  have "operation_rows_ok (L @ [operation_row_of op]) (A @ [attempt_row_of a])"
    unfolding operation_rows_ok_def
  proof
    fix y assume "y \<in> set (L @ [operation_row_of op])"
    then consider "y \<in> set L" | "y = operation_row_of op" by auto
    then show "y = operation_row_of (or_record y) \<and>
        reflects (or_record y) (docs (A @ [attempt_row_of a]) (or_operation_id y))"
    proof cases
      case 1
      with new op have "or_operation_id y \<noteq> at_operation_id a" by (metis imageI)
      with operation_row_ok [OF inv 1] show ?thesis by (simp add: docs_append)
    next
      case 2
      with none op ref show ?thesis by (simp add: docs_append)
    qed
  qed
  moreover have "attempt_rows_ok (L @ [operation_row_of op]) (A @ [attempt_row_of a])"
    unfolding attempt_rows_ok_def
  proof
    fix y assume "y \<in> set (A @ [attempt_row_of a])"
    then consider "y \<in> set A" | "y = attempt_row_of a" by auto
    then show "y = attempt_row_of (ar_document y) \<and> validate_attempt_evidence (ar_document y) \<and>
        ar_operation_id y \<in> or_operation_id ` set (L @ [operation_row_of op])"
    proof cases
      case 1
      then show ?thesis using attempt_row_ok [OF inv 1] by simp
    next
      case 2
      then show ?thesis using v op by simp
    qed
  qed
  ultimately show ?thesis
    using inv fresh new one_active_append [OF inv idx] by (simp add: ledger_inv_def)
qed

subsection \<open>Saving through the controller\<close>

definition ledger_ok :: "db \<Rightarrow> bool" where
  "ledger_ok d \<longleftrightarrow> ledger_inv (operation_ledger d) (operation_attempts d)"

lemma save_operation_tables:
  assumes "save_operation d op = Inr d'"
  shows "operation_ledger d' = upsert_row or_operation_id merge_operation_row (operation_row_of op)
      (operation_ledger d)"
    "operation_attempts d' = operation_attempts d"
  using assms by (auto simp: save_operation_def Let_def split: if_splits)

lemma save_attempt_tables:
  assumes "save_attempt d a = Inr d'"
  shows "operation_ledger d' = operation_ledger d"
    "lookup_row ar_attempt_id (at_attempt_id a) (operation_attempts d) = None \<Longrightarrow>
       operation_attempts d' = operation_attempts d @ [attempt_row_of a] \<and>
       attempt_index_ok (attempt_row_of a) (filter (\<lambda>x. ar_attempt_id x \<noteq> at_attempt_id a) (operation_attempts d))"
    "lookup_row ar_attempt_id (at_attempt_id a) (operation_attempts d) = Some x \<Longrightarrow>
       operation_attempts d' = upsert_row ar_attempt_id merge_attempt_row (attempt_row_of a) (operation_attempts d) \<and>
       attempt_index_ok (merge_attempt_row x (attempt_row_of a))
         (filter (\<lambda>x. ar_attempt_id x \<noteq> at_attempt_id a) (operation_attempts d)) \<and>
       \<not> (finished_status (ar_status x) \<and> at_status a \<noteq> ar_status x)"
  using assms
  by (auto simp: save_attempt_def Let_def merge_attempt_row_def attempt_row_of_def
      split: if_splits option.splits)

lemma save_attempt_fresh:
  assumes "save_attempt d a = Inr d'" "at_attempt_id a \<notin> ar_attempt_id ` set (operation_attempts d)"
  shows "operation_attempts d' = operation_attempts d @ [attempt_row_of a]"
    "attempt_index_ok (attempt_row_of a) (operation_attempts d)"
proof -
  have "filter (\<lambda>x. ar_attempt_id x \<noteq> at_attempt_id a) (operation_attempts d) = operation_attempts d"
    using assms(2) by (auto simp: filter_id_conv image_iff)
  then show "operation_attempts d' = operation_attempts d @ [attempt_row_of a]"
    "attempt_index_ok (attempt_row_of a) (operation_attempts d)"
    using save_attempt_tables(2) [OF assms(1)] assms(2) by (simp_all add: lookup_row_None_iff)
qed

lemma save_attempt_present:
  assumes "save_attempt d a = Inr d'" "ledger_inv L (operation_attempts d)"
    and "x \<in> set (operation_attempts d)" "same_attempt (ar_document x) a"
  shows "operation_attempts d' = put_attempt a (operation_attempts d)"
    "attempt_index_ok (attempt_row_of a)
       (filter (\<lambda>x. ar_attempt_id x \<noteq> at_attempt_id a) (operation_attempts d))"
    "\<not> (finished_status (ar_status x) \<and> at_status a \<noteq> ar_status x)"
proof -
  have id: "ar_attempt_id x = at_attempt_id a"
    using attempt_row_ok [OF assms(2,3)] assms(4) by (simp add: same_attempt_def)
  have "lookup_row ar_attempt_id (at_attempt_id a) (operation_attempts d) = Some x"
    using lookup_row_distinct [OF _ assms(3)] assms(2) id by (metis ledger_inv_def)
  note S = save_attempt_tables(3) [OF assms(1) this]
  have "merge_attempt_row x (attempt_row_of a) = attempt_row_of a"
    using merge_attempt_same [OF _ assms(4)] attempt_row_ok(1) [OF assms(2,3)] by simp
  with S upsert_attempt_put [OF assms(2-4)]
  show "operation_attempts d' = put_attempt a (operation_attempts d)"
    "attempt_index_ok (attempt_row_of a)
       (filter (\<lambda>x. ar_attempt_id x \<noteq> at_attempt_id a) (operation_attempts d))"
    "\<not> (finished_status (ar_status x) \<and> at_status a \<noteq> ar_status x)"
    by simp_all
qed

text \<open>Saving a row that is already stored changes nothing.\<close>

lemma put_same:
  assumes "ledger_inv L A"
  shows "r \<in> set L \<Longrightarrow> put_operation (or_record r) L = L"
    and "x \<in> set A \<Longrightarrow> put_attempt (ar_document x) A = A"
proof -
  have "operation_row_of (or_record r) = y"
    if "r \<in> set L" "y \<in> set L" "or_operation_id y = op_operation_id (or_record r)" for y
    using that operation_row_ok [OF assms that(1)] assms
    by (metis ledger_inv_def lookup_row_distinct option.inject)
  then show "r \<in> set L \<Longrightarrow> put_operation (or_record r) L = L"
    by (simp add: put_operation_def map_idI)
  have "attempt_row_of (ar_document x) = y"
    if "x \<in> set A" "y \<in> set A" "ar_attempt_id y = at_attempt_id (ar_document x)" for y
    using that attempt_row_ok [OF assms that(1)] assms
    by (metis ledger_inv_def lookup_row_distinct option.inject)
  then show "x \<in> set A \<Longrightarrow> put_attempt (ar_document x) A = A"
    by (simp add: put_attempt_def map_idI)
qed

lemma resave_pair:
  assumes "ledger_ok d" "r \<in> set (operation_ledger d)" "x \<in> set (operation_attempts d)"
    and "save_operation d (or_record r) = Inr d1" "save_attempt d1 (ar_document x) = Inr d2"
  shows "operation_ledger d2 = operation_ledger d" "operation_attempts d2 = operation_attempts d"
proof -
  have inv: "ledger_inv (operation_ledger d) (operation_attempts d)"
    using assms(1) by (simp add: ledger_ok_def)
  note S = save_operation_tables [OF assms(4)]
  show "operation_ledger d2 = operation_ledger d"
    using save_attempt_tables(1) [OF assms(5)] S(1) upsert_operation_put [OF inv assms(2)] put_same(1) [OF inv assms(2)]
    by (simp add: same_operation_def)
  show "operation_attempts d2 = operation_attempts d"
    using save_attempt_present(1) [OF assms(5), of "operation_ledger d" x] S(2) inv assms(3) put_same(2) [OF inv assms(3)]
    by (simp add: same_attempt_def)
qed

subsection \<open>The writes of the operation branches\<close>

lemma attempt_in_row:
  "attempt_in d i = Inr a \<Longrightarrow> \<exists>x \<in> set (operation_attempts d). ar_attempt_id x = i \<and> ar_document x = a"
  by (auto simp: attempt_in_def result_simps dest: lookup_row_Some_mem)

lemma operation_in_row:
  "operation_in d i = Inr op \<Longrightarrow> \<exists>r \<in> set (operation_ledger d). or_operation_id r = i \<and> or_record r = op"
  by (auto simp: operation_in_def result_simps dest: lookup_row_Some_mem)

lemma attempts_in_docs:
  assumes "attempts_in d i = Inr as"
  shows "mset as = mset (docs (operation_attempts d) i)" "as \<noteq> []"
proof -
  have "as = map ar_document (attempt_rows_of d i)" "attempt_rows_of d i \<noteq> []"
    using assms by (cases "attempt_rows_of d i"; simp add: attempts_in_def)+
  then show "mset as = mset (docs (operation_attempts d) i)" "as \<noteq> []"
    by (simp_all add: attempt_rows_of_def docs_def)
qed

definition identity_kept :: "(OperationAttempt \<Rightarrow> OperationAttempt) \<Rightarrow> bool" where
  "identity_kept u \<longleftrightarrow> (\<forall>y. same_attempt y (u y))"

lemma update_attempt_Inr:
  assumes "update_attempt d st i ts ss u = Inr (op, a)" "ledger_ok d" "identity_kept u"
  obtains x r as where "x \<in> set (operation_attempts d)" "ar_attempt_id x = i"
    "ar_run_id x = st_run_id st" "ar_status x \<in> set ss"
    "same_attempt (ar_document x) a" "validate_attempt_evidence a"
    "r \<in> set (operation_ledger d)" "or_operation_id r = at_operation_id a"
    "aggregate_operation (or_record r) (map (replace_attempt a) as) ts = Inr op"
    "mset as = mset (docs (operation_attempts d) (at_operation_id a))"
proof -
  have inv: "ledger_inv (operation_ledger d) (operation_attempts d)"
    using assms(2) by (simp add: ledger_ok_def)
  obtain a0 op0 as where s: "attempt_in d i = Inr a0" "at_run_id a0 = st_run_id st"
    "at_status a0 \<in> set ss" "a = (u a0)\<lparr>at_updated_at := ts\<rparr>" "validate_attempt_evidence a"
    "operation_in d (at_operation_id a) = Inr op0" "attempts_in d (op_operation_id op0) = Inr as"
    "aggregate_operation op0 (map (\<lambda>x. if at_attempt_id x = i then a else x) as) ts = Inr op"
    using assms(1) by (auto simp: update_attempt_def Let_def result_simps split: if_splits)
  obtain x where x: "x \<in> set (operation_attempts d)" "ar_attempt_id x = i" "ar_document x = a0"
    using attempt_in_row [OF s(1)] by blast
  obtain r where r: "r \<in> set (operation_ledger d)" "or_operation_id r = at_operation_id a" "or_record r = op0"
    using operation_in_row [OF s(6)] by blast
  have same: "same_attempt a0 a"
    using assms(3) s(4) by (simp add: identity_kept_def same_attempt_def)
  have ia: "at_attempt_id a = i" using same x attempt_row_ok(2) [OF inv x(1)] by (simp add: same_attempt_def)
  have opid: "op_operation_id op0 = at_operation_id a" using operation_row_ok(2) [OF inv r(1)] r by simp
  show thesis
  proof (rule that [OF x(1,2) _ _ _ s(5) r(1,2)])
    show "ar_run_id x = st_run_id st" "ar_status x \<in> set ss"
      using s(2,3) attempt_row_ok(1) [OF inv x(1)] x(3) by (metis row_ids(5), metis row_ids(6))
    show "same_attempt (ar_document x) a" using same x(3) by simp
    show "aggregate_operation (or_record r) (map (replace_attempt a) as) ts = Inr op"
      using s(8) r(3) by (simp add: replace_attempt_def ia cong: map_cong)
    show "mset as = mset (docs (operation_attempts d) (at_operation_id a))"
      using attempts_in_docs(1) [OF s(7)] opid by simp
  qed
qed

text \<open>The state of the two tables after a pair was saved, for the checks that follow it.\<close>

definition pair_saved :: "db \<Rightarrow> OperationRecord \<Rightarrow> OperationAttempt \<Rightarrow> bool" where
  "pair_saved d op a \<longleftrightarrow>
     ledger_ok d \<and> operation_row_of op \<in> set (operation_ledger d) \<and>
     attempt_row_of a \<in> set (operation_attempts d)"

lemma put_mem:
  "r \<in> set L \<Longrightarrow> or_operation_id r = op_operation_id op \<Longrightarrow> operation_row_of op \<in> set (put_operation op L)"
  "x \<in> set A \<Longrightarrow> ar_attempt_id x = at_attempt_id a \<Longrightarrow> attempt_row_of a \<in> set (put_attempt a A)"
  by (force simp: put_operation_def) (force simp: put_attempt_def)

lemma saved_update:
  assumes "update_attempt d st i ts ss u = Inr (op, a)" "ledger_ok d" "identity_kept u"
    and "\<exists>d1. save_operation d op = Inr d1 \<and> save_attempt d1 a = Inr d2
       \<or> save_attempt d a = Inr d1 \<and> save_operation d1 op = Inr d2"
  shows "pair_saved d2 op a"
    "ar_attempt_id ` set (operation_attempts d2) = ar_attempt_id ` set (operation_attempts d)"
proof -
  let ?L = "operation_ledger d" and ?A = "operation_attempts d"
  have inv: "ledger_inv ?L ?A" using assms(2) by (simp add: ledger_ok_def)
  obtain x r as where x: "x \<in> set ?A" "same_attempt (ar_document x) a" "validate_attempt_evidence a"
    and r: "r \<in> set ?L" "or_operation_id r = at_operation_id a"
    and agg: "aggregate_operation (or_record r) (map (replace_attempt a) as) ts = Inr op"
    and as: "mset as = mset (docs ?A (at_operation_id a))"
    using assms(1-3) by (rule update_attempt_Inr)
  note same = aggregate_reflects(2) [OF agg]
  from assms(4) consider d1 where "save_operation d op = Inr d1" "save_attempt d1 a = Inr d2"
    | d1 where "save_attempt d a = Inr d1" "save_operation d1 op = Inr d2" by blast
  then have tables: "operation_ledger d2 = put_operation op ?L \<and> operation_attempts d2 = put_attempt a ?A \<and>
    attempt_index_ok (attempt_row_of a) (filter (\<lambda>x. ar_attempt_id x \<noteq> at_attempt_id a) ?A)"
  proof cases
    case 1
    note S = save_operation_tables [OF 1(1)]
    show ?thesis
      using save_attempt_present(1,2) [OF 1(2), of ?L x] save_attempt_tables(1) [OF 1(2)] S inv x
        upsert_operation_put [OF inv r(1) same] by simp
  next
    case 2
    note S = save_operation_tables [OF 2(2)]
    show ?thesis
      using save_attempt_present(1,2) [OF 2(1) inv x(1,2)] save_attempt_tables(1) [OF 2(1)] S
        upsert_operation_put [OF inv r(1) same] by simp
  qed
  have "or_operation_id r = op_operation_id op" "ar_attempt_id x = at_attempt_id a"
    using r operation_row_ok(2) [OF inv r(1)] same_operationD(1) [OF same]
      attempt_row_ok(2) [OF inv x(1)] x(2) by (simp_all add: same_attempt_def)
  with tables show "ar_attempt_id ` set (operation_attempts d2) = ar_attempt_id ` set ?A"
    by (metis put_keys(2) set_map)
  from tables \<open>or_operation_id r = op_operation_id op\<close> \<open>ar_attempt_id x = at_attempt_id a\<close>
  show "pair_saved d2 op a"
    using ledger_inv_update [OF inv x r agg as] put_mem r(1) x(1)
    by (simp add: pair_saved_def ledger_ok_def)
qed

lemma begin_operation_attempt_Inr:
  assumes "begin_operation_attempt d st c ts = Inr (op, a)" "ledger_ok d"
  obtains r as where "r \<in> set (operation_ledger d)" "or_operation_id r = at_operation_id a"
    "aggregate_operation (or_record r) (as @ [a]) ts = Inr op"
    "mset as = mset (docs (operation_attempts d) (at_operation_id a))"
    "at_attempt_id a = ba_attempt_id c" "validate_attempt_evidence a"
    "length as < rp_max_attempts (op_retry_policy_snapshot (or_record r))"
proof -
  have inv: "ledger_inv (operation_ledger d) (operation_attempts d)"
    using assms(2) by (simp add: ledger_ok_def)
  obtain op0 as where s: "operation_in d (ba_operation_id c) = Inr op0"
    "attempts_in d (op_operation_id op0) = Inr as" "aggregate_operation op0 (as @ [a]) ts = Inr op"
    "at_operation_id a = op_operation_id op0" "at_attempt_id a = ba_attempt_id c"
    "validate_attempt_evidence a" "length as < rp_max_attempts (op_retry_policy_snapshot op0)"
    using assms(1)
    by (auto simp: begin_operation_attempt_def Let_def result_simps new_attempt_def
        validate_attempt_evidence_def not_le split: if_splits)
  obtain r where r: "r \<in> set (operation_ledger d)" "or_operation_id r = ba_operation_id c" "or_record r = op0"
    using operation_in_row [OF s(1)] by blast
  show thesis
    using that [OF r(1), of as] s r operation_row_ok(2) [OF inv r(1)] attempts_in_docs(1) [OF s(2)]
    by simp
qed

lemma saved_next:
  assumes "begin_operation_attempt d st c ts = Inr (op, a)" "ledger_ok d"
    and "ba_attempt_id c \<notin> ar_attempt_id ` set (operation_attempts d)"
    and "save_operation d op = Inr d1" "save_attempt d1 a = Inr d2"
  shows "pair_saved d2 op a"
proof -
  let ?L = "operation_ledger d" and ?A = "operation_attempts d"
  have inv: "ledger_inv ?L ?A" using assms(2) by (simp add: ledger_ok_def)
  obtain r as where r: "r \<in> set ?L" "or_operation_id r = at_operation_id a"
    and agg: "aggregate_operation (or_record r) (as @ [a]) ts = Inr op"
    and as: "mset as = mset (docs ?A (at_operation_id a))"
    and a: "at_attempt_id a = ba_attempt_id c" "validate_attempt_evidence a"
    using assms(1,2) by (rule begin_operation_attempt_Inr)
  note S = save_operation_tables [OF assms(4)] and same = aggregate_reflects(2) [OF agg]
  have fresh: "at_attempt_id a \<notin> ar_attempt_id ` set ?A" using assms(3) a by simp
  note T = save_attempt_fresh [OF assms(5), unfolded S(2), OF fresh]
  have "operation_ledger d2 = put_operation op ?L"
    using save_attempt_tables(1) [OF assms(5)] S(1) upsert_operation_put [OF inv r(1) same] by simp
  moreover have "or_operation_id r = op_operation_id op"
    using r operation_row_ok(2) [OF inv r(1)] same_operationD(1) [OF same] by simp
  ultimately show ?thesis
    using ledger_inv_next_attempt [OF inv fresh a(2) r agg as T(2)] T(1) put_mem(1) [OF r(1)]
    by (simp add: pair_saved_def ledger_ok_def)
qed

lemma saved_new:
  assumes "ledger_ok d" "reflects op [a]" "op_operation_id op = at_operation_id a"
    and "validate_attempt_evidence a"
    and "op_operation_id op \<notin> or_operation_id ` set (operation_ledger d)"
    and "at_attempt_id a \<notin> ar_attempt_id ` set (operation_attempts d)"
    and "save_operation d op = Inr d1" "save_attempt d1 a = Inr d2"
  shows "pair_saved d2 op a"
proof -
  let ?L = "operation_ledger d" and ?A = "operation_attempts d"
  have inv: "ledger_inv ?L ?A" using assms(1) by (simp add: ledger_ok_def)
  note S = save_operation_tables [OF assms(7)]
  note T = save_attempt_fresh [OF assms(8), unfolded S(2), OF assms(6)]
  have "operation_ledger d2 = ?L @ [operation_row_of op]"
    using save_attempt_tables(1) [OF assms(8)] S(1) operations.upsert_fresh [of "operation_row_of op" ?L] assms(5)
    by simp
  then show ?thesis
    using ledger_inv_new_operation [OF inv assms(6,4,3,5,2) T(2)] T(1)
    by (simp add: pair_saved_def ledger_ok_def)
qed

lemma resaved:
  assumes "pair_saved d op a" "save_operation d op = Inr d1" "save_attempt d1 a = Inr d2"
  shows "pair_saved d2 op a"
  using resave_pair [of d "operation_row_of op" "attempt_row_of a" d1 d2] assms
  by (simp add: pair_saved_def ledger_ok_def)

lemma pair_saved_tables:
  "pair_saved d op a \<Longrightarrow> operation_ledger d' = operation_ledger d \<Longrightarrow>
   operation_attempts d' = operation_attempts d \<Longrightarrow> pair_saved d' op a"
  by (simp add: pair_saved_def ledger_ok_def)

end
