(* ===== verification/Ledger_Safety.thy ===== *)
theory Ledger_Safety
  imports Ledger_Invariant
begin

section \<open>Every command keeps the ledger invariant\<close>

text \<open>
  Each branch of the dispatch is one of a few ledger effects: nothing, an update of a stored attempt, a
  next attempt, a new operation, or (a recovery decision, the legacy \<^verbatim>\<open>BeginOperation\<close>) rows it saved
  itself. \<open>fresh_ids\<close> is what the callers guarantee: the operation and attempt identifiers a command brings
  along (hashes or \<^verbatim>\<open>uuid4\<close> values) are not in use for another row, which the upserts do not check.
\<close>

definition same_ledger :: "db \<Rightarrow> db \<Rightarrow> bool" where
  "same_ledger d d' \<longleftrightarrow>
     operation_ledger d' = operation_ledger d \<and> operation_attempts d' = operation_attempts d"

lemma same_ledger_refl [simp]: "same_ledger d d"
  by (simp add: same_ledger_def)

lemma same_ledger_trans: "same_ledger d d1 \<Longrightarrow> same_ledger d1 d2 \<Longrightarrow> same_ledger d d2"
  by (simp add: same_ledger_def)

lemma insert_same_ledger:
  "insert_approval d ap ts = Inr d' \<Longrightarrow> same_ledger d d'"
  "insert_finalize_generation d g = Inr d' \<Longrightarrow> same_ledger d d'"
  "insert_decision d r = Inr d' \<Longrightarrow> same_ledger d d'"
  "insert_receipt d rc = Inr d' \<Longrightarrow> same_ledger d d'"
  "set_current_receipt d i j = Inr d' \<Longrightarrow> same_ledger d d'"
  "insert_inbox d b = Inr (d', b') \<Longrightarrow> same_ledger d d'"
  "save_approval d ap = Inr d' \<Longrightarrow> same_ledger d d'"
  by (auto simp: insert_approval_def insert_finalize_generation_def insert_decision_def
      insert_receipt_def set_current_receipt_def insert_inbox_def save_approval_def Let_def
      same_ledger_def split: if_splits option.splits)

subsection \<open>Branches that update at most one attempt\<close>

definition ledger_effect :: "db \<Rightarrow> AgentState \<Rightarrow> outcome \<Rightarrow> bool" where
  "ledger_effect d st oc \<longleftrightarrow>
     same_ledger d (oc_db oc) \<and>
     (oc_operation oc = None \<and> oc_attempt oc = None \<or>
      (\<exists>op a i ts ss u. oc_operation oc = Some op \<and> oc_attempt oc = Some a \<and>
         update_attempt d st i ts ss u = Inr (op, a) \<and> identity_kept u))"

lemma ledger_effect_none:
  "same_ledger d (oc_db oc) \<Longrightarrow> oc_operation oc = None \<Longrightarrow> oc_attempt oc = None \<Longrightarrow> ledger_effect d st oc"
  by (simp add: ledger_effect_def)

lemma ledger_effect_update:
  "update_attempt d st i ts ss u = Inr (op, a) \<Longrightarrow> identity_kept u \<Longrightarrow>
     oc_operation oc = Some op \<Longrightarrow> oc_attempt oc = Some a \<Longrightarrow> same_ledger d (oc_db oc) \<Longrightarrow> ledger_effect d st oc"
  unfolding ledger_effect_def by blast

lemma updates_keep_identity [simp]:
  "identity_kept (start_updates ts e)" "identity_kept (complete_updates ts r h s)"
  "identity_kept (fail_updates ts kd r)" "identity_kept (unknown_updates r)"
  "identity_kept (skip_updates ts r)" "identity_kept (abandon_updates ts r)"
  "identity_kept (heartbeat_updates b e')"
  by (simp_all add: identity_kept_def same_attempt_def start_updates_def complete_updates_def
      fail_updates_def unknown_updates_def skip_updates_def abandon_updates_def heartbeat_updates_def)

lemma attempt_command_effect:
  "attempt_command d st i ts ss u ch = Inr oc \<Longrightarrow> identity_kept u \<Longrightarrow> ledger_effect d st oc"
  by (auto simp: branch_simps intro: ledger_effect_update)

lemma state_branch_effect:
  "adopt_gateway_epoch C d st e ts = Inr oc \<Longrightarrow> ledger_effect d st oc"
  "transition_command d st tc ts = Inr oc \<Longrightarrow> ledger_effect d st oc"
  "update_state_metadata d st um = Inr oc \<Longrightarrow> ledger_effect d st oc"
  "record_runtime_event d st b ts = Inr oc \<Longrightarrow> ledger_effect d st oc"
  "bind_session d st s = Inr oc \<Longrightarrow> ledger_effect d st oc"
  "upgrade_persistence_contract d st = Inr oc \<Longrightarrow> ledger_effect d st oc"
  "request_cancellation d st r = Inr oc \<Longrightarrow> ledger_effect d st oc"
  "finalize_terminal E d st g r ts = Inr oc \<Longrightarrow> ledger_effect d st oc"
  "create_safe_checkpoint d st cp = Inr oc \<Longrightarrow> ledger_effect d st oc"
  by (auto simp: adopt_gateway_epoch_def transition_command_def update_state_metadata_def
      record_runtime_event_def bind_session_def upgrade_persistence_contract_def
      request_cancellation_def finalize_terminal_def create_safe_checkpoint_def result_simps
      intro!: ledger_effect_none split: if_splits option.splits)

lemma finalize_branch_effect:
  "start_replacement_finalize_generation d st g i ts = Inr oc \<Longrightarrow> ledger_effect d st oc"
  "start_finalize_generation d st g sp ts = Inr oc \<Longrightarrow> ledger_effect d st oc"
  by (auto simp: start_replacement_finalize_generation_def start_finalize_generation_def result_simps
      intro!: ledger_effect_none dest: insert_same_ledger split: if_splits option.splits)

lemma invalidate_effect:
  "invalidate_finalize_generation d st cid g r ts = Inr oc \<Longrightarrow> ledger_effect d st oc"
  by (auto simp: invalidate_finalize_generation_def same_ledger_def intro!: ledger_effect_none
      split: if_splits)

lemma attempt_branch_effect:
  "start_attempt_command d st i e ts = Inr oc \<Longrightarrow> ledger_effect d st oc"
  "fail_attempt_command d st i kd r ts = Inr oc \<Longrightarrow> ledger_effect d st oc"
  "mark_attempt_unknown_command d st i r ts = Inr oc \<Longrightarrow> ledger_effect d st oc"
  "skip_attempt_command d st i r ts = Inr oc \<Longrightarrow> ledger_effect d st oc"
  "abandon_attempt_command d st i r ts = Inr oc \<Longrightarrow> ledger_effect d st oc"
  "heartbeat_attempt_command d st i b e' ts = Inr oc \<Longrightarrow> ledger_effect d st oc"
  "complete_attempt_command E d st i r h s ts = Inr oc \<Longrightarrow> ledger_effect d st oc"
  by (auto simp: attempt_branch_defs complete_attempt_command_def result_simps
      intro: attempt_command_effect)

lemma named_operation_effect:
  "start_operation_command d st i e ts = Inr oc \<Longrightarrow> ledger_effect d st oc"
  "complete_operation_command d st i r h s ts = Inr oc \<Longrightarrow> ledger_effect d st oc"
  "fail_operation_command d st i r kd ts = Inr oc \<Longrightarrow> ledger_effect d st oc"
  "mark_operation_unknown_command d st i r ts = Inr oc \<Longrightarrow> ledger_effect d st oc"
  "heartbeat_operation_command d st i b e' ts = Inr oc \<Longrightarrow> ledger_effect d st oc"
  "abandon_operation_command d st i r ts = Inr oc \<Longrightarrow> ledger_effect d st oc"
  by (auto simp: attempt_branch_defs abandon_operation_command_def result_simps
      intro: attempt_command_effect split: if_splits)

lemma reconcile_attempt_update:
  "reconcile_attempt E d st i rr ts = Inr (op, a) \<Longrightarrow>
     \<exists>ss u. update_attempt d st i ts ss u = Inr (op, a) \<and> identity_kept u"
  by (cases "rr_status rr"; auto simp: reconcile_attempt_def Let_def rbind_eq_Inr split: if_splits;
      intro exI conjI, assumption, simp add: identity_kept_def same_attempt_def reconcile_common_def)

lemma reconcile_branch_effect:
  "reconcile_attempt_command E d st i rr ts = Inr oc \<Longrightarrow> ledger_effect d st oc"
  "reconcile_operation_command E d st i rr ts = Inr oc \<Longrightarrow> ledger_effect d st oc"
  by (auto simp: reconcile_attempt_command_def reconcile_operation_command_def result_simps
      dest!: reconcile_attempt_update intro: ledger_effect_update)

lemma approval_branch_effect:
  "decide_approval d st i b w r ts = Inr oc \<Longrightarrow> ledger_effect d st oc"
  "expire_approval d st i ts = Inr oc \<Longrightarrow> ledger_effect d st oc"
  by (auto simp: decide_approval_def expire_approval_def Let_def result_simps
      intro: ledger_effect_none ledger_effect_update split: if_splits)

lemma create_approval_effect: "create_approval d st ap ts = Inr oc \<Longrightarrow> ledger_effect d st oc"
  by (auto simp: create_approval_def result_simps intro!: ledger_effect_none dest: insert_same_ledger
      split: if_splits)

lemmas branch_effect =
  state_branch_effect finalize_branch_effect attempt_branch_effect named_operation_effect
  reconcile_branch_effect approval_branch_effect create_approval_effect invalidate_effect

subsection \<open>From effects to the invariant\<close>

definition keeps_ledger :: "outcome \<Rightarrow> bool" where
  "keeps_ledger oc \<longleftrightarrow>
     (\<forall>d1 d2. save_operation_opt (oc_db oc) (oc_operation oc) = Inr d1 \<longrightarrow>
        save_attempt_opt d1 (oc_attempt oc) = Inr d2 \<longrightarrow> ledger_ok d2)"

lemma keeps_ledger_none:
  "ledger_ok (oc_db oc) \<Longrightarrow> oc_operation oc = None \<Longrightarrow> oc_attempt oc = None \<Longrightarrow> keeps_ledger oc"
  by (simp add: keeps_ledger_def save_operation_opt_def save_attempt_opt_def)

lemma keeps_ledger_pair:
  assumes "oc_operation oc = Some op" "oc_attempt oc = Some a"
    and "\<And>d1 d2. save_operation (oc_db oc) op = Inr d1 \<Longrightarrow> save_attempt d1 a = Inr d2 \<Longrightarrow> pair_saved d2 op a"
  shows "keeps_ledger oc"
  using assms by (auto simp: keeps_ledger_def save_operation_opt_def save_attempt_opt_def pair_saved_def)

lemma update_attempt_same:
  assumes "same_ledger d d'"
  shows "update_attempt d' = update_attempt d"
proof -
  have eqs: "attempt_in d' = attempt_in d" "operation_in d' = operation_in d"
    "attempts_in d' = attempts_in d"
    using assms
    by (auto simp: fun_eq_iff attempt_in_def operation_in_def attempts_in_def attempt_rows_of_def same_ledger_def)
  show ?thesis unfolding update_attempt_def fun_eq_iff eqs by blast
qed

lemma ledger_ok_same: "same_ledger d d' \<Longrightarrow> ledger_ok d' \<longleftrightarrow> ledger_ok d"
  by (simp add: ledger_ok_def same_ledger_def)

lemma pair_saved_same: "same_ledger d d' \<Longrightarrow> pair_saved d' op a \<longleftrightarrow> pair_saved d op a"
  by (simp add: pair_saved_def ledger_ok_def same_ledger_def)

lemma effect_keeps:
  assumes "ledger_ok d" "ledger_effect d st oc"
  shows "keeps_ledger oc"
proof -
  have ok: "ledger_ok (oc_db oc)" and same: "same_ledger d (oc_db oc)"
    using assms ledger_ok_same by (auto simp: ledger_effect_def)
  consider "oc_operation oc = None" "oc_attempt oc = None"
    | op a i ts ss u where "oc_operation oc = Some op" "oc_attempt oc = Some a"
        "update_attempt (oc_db oc) st i ts ss u = Inr (op, a)" "identity_kept u"
    using assms(2) update_attempt_same [OF same] unfolding ledger_effect_def by metis
  then show ?thesis
  proof cases
    case 1
    with ok show ?thesis by (rule keeps_ledger_none)
  next
    case 2
    from saved_update(1) [OF 2(3) ok 2(4)] show ?thesis
      by (intro keeps_ledger_pair [OF 2(1,2)]) blast
  qed
qed

lemma current_attempt_row:
  assumes "current_attempt_in d i = Inr a"
  shows "\<exists>x \<in> set (operation_attempts d). ar_document x = a \<and> ar_operation_id x = i"
proof -
  from assms obtain as where as: "attempts_in d i = Inr as" "a = current_attempt as"
    by (auto simp: current_attempt_in_def result_simps)
  have "a \<in> set as"
    using as(2) attempts_in_docs(2) [OF as(1)]
    by (auto simp: current_attempt_def Let_def) (metis filter_is_subset last_in_set subsetD)
  then have "a \<in> set (docs (operation_attempts d) i)"
    using attempts_in_docs(1) [OF as(1)] by (metis set_mset_mset)
  then show ?thesis by (auto simp: docs_def)
qed

lemma stored_pair:
  assumes "ledger_ok d" "r \<in> set (operation_ledger d)" "current_attempt_in d i = Inr a"
  shows "pair_saved d (or_record r) a"
proof -
  have inv: "ledger_inv (operation_ledger d) (operation_attempts d)"
    using assms(1) by (simp add: ledger_ok_def)
  obtain x where x: "x \<in> set (operation_attempts d)" "ar_document x = a"
    using current_attempt_row [OF assms(3)] by blast
  show ?thesis
    using assms(1,2) x operation_row_ok(1) [OF inv assms(2)] attempt_row_ok(1) [OF inv x(1)]
    by (simp add: pair_saved_def)
qed

subsection \<open>Branches that add rows\<close>

definition fresh_ids :: "db \<Rightarrow> StateCommand \<Rightarrow> call \<Rightarrow> bool" where
  "fresh_ids d k x \<longleftrightarrow>
    (let ids = map or_operation_id (operation_ledger d); aids = map ar_attempt_id (operation_attempts d) in
     case cmd_body k of
       CreateOperationWithAttempt c \<Rightarrow>
         list_ex (\<lambda>r. or_run_id r = cmd_run_id k \<and> or_kind r = co_kind c
                    \<and> or_stable_key r = co_stable_key c) (operation_ledger d)
         \<or> co_operation_id c \<notin> set ids \<and> co_attempt_id c \<notin> set aids
     | BeginOperationAttempt c \<Rightarrow> ba_attempt_id c \<notin> set aids
     | BeginOperation c \<Rightarrow>
         bo_operation_id c \<in> set ids \<or> ''attempt:'' @ bo_operation_id c @ '':1'' \<notin> set aids
     | FinalizeAudit c \<Rightarrow> fa_operation_id c \<notin> set ids \<and> fa_attempt_id c \<notin> set aids
     | FinalizeInbox c \<Rightarrow> fi_operation_id c \<notin> set ids \<and> fi_attempt_id c \<notin> set aids
     | RecoveryDecision c \<Rightarrow> cx_attempt_uuid x \<notin> set aids
     | _ \<Rightarrow> True)"

lemma create_operation_keeps:
  assumes ok: "ledger_ok d" and c: "create_operation_command d st c ts = Inr oc"
    and fresh: "list_ex (\<lambda>r. or_run_id r = st_run_id st \<and> or_kind r = co_kind c
                    \<and> or_stable_key r = co_stable_key c) (operation_ledger d) \<or>
      co_operation_id c \<notin> or_operation_id ` set (operation_ledger d) \<and>
      co_attempt_id c \<notin> ar_attempt_id ` set (operation_attempts d)"
  shows "keeps_ledger oc"
proof -
  obtain op a where p: "create_operation_with_attempt d st c ts = Inr (op, a)"
    and oc: "oc_db oc = d" "oc_operation oc = Some op" "oc_attempt oc = Some a"
    using c by (auto simp: create_operation_command_def result_simps)
  show ?thesis
  proof (rule keeps_ledger_pair [OF oc(2,3)], unfold oc(1))
    fix d1 d2 assume s: "save_operation d op = Inr d1" "save_attempt d1 a = Inr d2"
    show "pair_saved d2 op a"
    proof (cases "find (\<lambda>r. or_run_id r = st_run_id st \<and> or_kind r = co_kind c
        \<and> or_stable_key r = co_stable_key c) (operation_ledger d)")
      case (Some r)
      have r: "r \<in> set (operation_ledger d)" using Some by (auto simp: find_Some_iff)
      have "op = or_record r" "current_attempt_in d (op_operation_id (or_record r)) = Inr a"
        using p Some by (auto simp: create_operation_with_attempt_def Let_def result_simps split: if_splits)
      with stored_pair [OF ok r] resaved [OF _ s] show ?thesis by blast
    next
      case None
      then obtain op0 where n: "aggregate_operation op0 [a] ts = Inr op"
        "op_operation_id op0 = co_operation_id c" "at_operation_id a = co_operation_id c"
        "at_attempt_id a = co_attempt_id c" "validate_attempt_evidence a"
        using p by (auto simp: create_operation_with_attempt_def Let_def result_simps new_operation_def
            new_attempt_def validate_attempt_evidence_def)
      have "op_operation_id op = co_operation_id c"
        using aggregate_reflects(2) [OF n(1)] n(2) same_operationD(1) by simp
      moreover have "\<not> list_ex (\<lambda>r. or_run_id r = st_run_id st \<and> or_kind r = co_kind c
                    \<and> or_stable_key r = co_stable_key c) (operation_ledger d)"
        using None by (simp add: find_None_iff list_ex_iff)
      ultimately show ?thesis
        using saved_new [OF ok aggregate_reflects(1) [OF n(1)] _ n(5) _ _ s] fresh n(3,4) by simp
    qed
  qed
qed

lemma begin_attempt_keeps:
  assumes "ledger_ok d" "begin_attempt_command d st c ts = Inr oc"
    and "ba_attempt_id c \<notin> ar_attempt_id ` set (operation_attempts d)"
  shows "keeps_ledger oc"
proof -
  obtain op a where p: "begin_operation_attempt d st c ts = Inr (op, a)"
    and oc: "oc_db oc = d" "oc_operation oc = Some op" "oc_attempt oc = Some a"
    using assms(2) by (auto simp: begin_attempt_command_def result_simps)
  show ?thesis
    using keeps_ledger_pair [OF oc(2,3)] saved_next [OF p assms(1,3)] unfolding oc(1) by blast
qed

lemma completed_operation_Inr:
  assumes "completed_sqlite_finalize_operation st oid aid key h kind nm res rh ts = Inr (op, a)"
  shows "reflects op [a]" "op_operation_id op = oid" "at_operation_id a = oid" "at_attempt_id a = aid"
    "validate_attempt_evidence a"
proof -
  from assms obtain op0 where n: "aggregate_operation op0 [a] ts = Inr op" "op_operation_id op0 = oid"
    and a: "at_operation_id a = oid" "at_attempt_id a = aid" "validate_attempt_evidence a"
    by (auto simp: completed_sqlite_finalize_operation_def Let_def result_simps new_operation_def
        new_attempt_def split: if_splits)
  show "op_operation_id op = oid"
    using aggregate_reflects(2) [OF n(1)] n(2) same_operationD(1) by simp
  show "reflects op [a]" by (rule aggregate_reflects(1) [OF n(1)])
  show "at_operation_id a = oid" "at_attempt_id a = aid" "validate_attempt_evidence a" by (fact a)+
qed

lemma finalize_pair_keeps:
  assumes ok: "ledger_ok d" and oc: "oc = attempt_outcome d' st op a" and same: "same_ledger d d'"
    and p: "completed_sqlite_finalize_operation st oid aid key h kind nm res rh ts = Inr (op, a)"
    and fresh: "oid \<notin> or_operation_id ` set (operation_ledger d)"
      "aid \<notin> ar_attempt_id ` set (operation_attempts d)"
  shows "keeps_ledger oc"
proof (rule keeps_ledger_pair)
  fix d1 d2 assume s: "save_operation (oc_db oc) op = Inr d1" "save_attempt d1 a = Inr d2"
  note P = completed_operation_Inr [OF p]
  have "ledger_ok (oc_db oc)" using ok same ledger_ok_same oc by simp
  then show "pair_saved d2 op a"
    using saved_new [OF _ P(1) _ P(5) _ _ s] P fresh same oc by (simp add: same_ledger_def)
qed (simp_all add: oc)

lemma finalize_audit_keeps:
  assumes "ledger_ok d" "attempt_pair_outcome st (finalize_audit E d st c ts) = Inr oc"
    and "fa_operation_id c \<notin> or_operation_id ` set (operation_ledger d)"
      "fa_attempt_id c \<notin> ar_attempt_id ` set (operation_attempts d)"
  shows "keeps_ledger oc"
  using assms
  by (auto simp: branch_simps finalize_audit_def result_simps dest!: insert_same_ledger
      intro: finalize_pair_keeps same_ledger_trans)

lemma finalize_inbox_keeps:
  assumes "ledger_ok d" "attempt_pair_outcome st (finalize_inbox E d st c ts) = Inr oc"
    and "fi_operation_id c \<notin> or_operation_id ` set (operation_ledger d)"
      "fi_attempt_id c \<notin> ar_attempt_id ` set (operation_attempts d)"
  shows "keeps_ledger oc"
  using assms
  by (auto simp: branch_simps finalize_inbox_def result_simps dest!: insert_same_ledger
      intro: finalize_pair_keeps same_ledger_trans)

subsection \<open>Branches that save rows themselves\<close>

text \<open>The legacy operation is stored as constructed; its defaults are already the reduction of its attempt.\<close>

lemma new_operation_reflects:
  assumes "a = new_attempt aid oid rid 1 h eff ts"
    and "op = (new_operation oid rid kind nm key h idem eff no_retry_policy ts')
                \<lparr>op_parent_operation_id := par, op_turn_id := turn\<rparr>"
  shows "reflects op [a]" "validate_attempt_evidence a"
proof -
  have "numbered [a]" by (simp add: numbered_def assms(1) new_attempt_def)
  then show "reflects op [a]"
    by (simp add: reflects_def reduce_operation_numbered attempt_inherits_def immutable_metadata_def
        assms new_attempt_def new_operation_def attempt_active_def aggregate_of_latest_def Let_def
        mk_aggregate_def validate_aggregate_evidence_def)
  show "validate_attempt_evidence a"
    by (simp add: validate_attempt_evidence_def assms(1) new_attempt_def)
qed

lemma begin_operation_saved:
  assumes ok: "ledger_ok d" and b: "begin_operation d st c ts = Inr (d', op)"
    and fresh: "bo_operation_id c \<in> or_operation_id ` set (operation_ledger d) \<or>
      ''attempt:'' @ bo_operation_id c @ '':1'' \<notin> ar_attempt_id ` set (operation_attempts d)"
  shows "ledger_ok d' \<and> (\<exists>r \<in> set (operation_ledger d'). or_record r = op)"
proof (cases "lookup_row or_operation_id (bo_operation_id c) (operation_ledger d)")
  case (Some r)
  then have "d' = d" "op = or_record r"
    using b by (auto simp: begin_operation_def Let_def split: if_splits)
  then show ?thesis using ok lookup_row_Some_mem [OF Some] by blast
next
  case None
  define eff where "eff = (bo_kind c = TOOL \<and> bo_idempotency c \<noteq> PURE)"
  define a where "a = new_attempt (''attempt:'' @ bo_operation_id c @ '':1'') (bo_operation_id c)
    (st_run_id st) 1 (bo_request_hash c) eff ts"
  obtain d1 where op: "op = (new_operation (bo_operation_id c) (st_run_id st) (bo_kind c) (bo_name c)
                  (''legacy:'' @ bo_operation_id c) (bo_request_hash c) (bo_idempotency c) eff
                  no_retry_policy ts)\<lparr>op_parent_operation_id := bo_parent_operation_id c,
                    op_turn_id := bo_turn_id c\<rparr>"
    and s: "save_operation d op = Inr d1" "save_attempt d1 a = Inr d'"
    using b None
    by (auto simp: begin_operation_def Let_def result_simps a_def eff_def split: if_splits)
  note N = new_operation_reflects [OF a_def op]
  have ids: "op_operation_id op = bo_operation_id c" "at_operation_id a = bo_operation_id c"
    "at_attempt_id a = ''attempt:'' @ bo_operation_id c @ '':1''"
    by (simp_all add: op a_def new_operation_def new_attempt_def)
  have "pair_saved d' op a"
    using saved_new [OF ok N(1) _ N(2) _ _ s] ids fresh None
    by (simp add: lookup_row_None_iff)
  then show ?thesis unfolding pair_saved_def by (metis row_ids(2))
qed

lemma begin_operation_keeps:
  assumes ok: "ledger_ok d" and c: "begin_operation_command d st c ts = Inr oc"
    and fresh: "bo_operation_id c \<in> or_operation_id ` set (operation_ledger d) \<or>
      ''attempt:'' @ bo_operation_id c @ '':1'' \<notin> ar_attempt_id ` set (operation_attempts d)"
  shows "keeps_ledger oc"
proof -
  obtain op a where b: "begin_operation d st c ts = Inr (oc_db oc, op)"
    and cur: "current_attempt_in (oc_db oc) (op_operation_id op) = Inr a"
    and oc: "oc_operation oc = Some op" "oc_attempt oc = Some a"
    using c by (auto simp: begin_operation_command_def result_simps)
  have "ledger_ok (oc_db oc)" and "\<exists>r \<in> set (operation_ledger (oc_db oc)). or_record r = op"
    using begin_operation_saved [OF ok b fresh] by auto
  then have "pair_saved (oc_db oc) op a" using stored_pair cur by blast
  then show ?thesis using keeps_ledger_pair [OF oc] resaved by blast
qed

text \<open>A recovery decision: the pair it returns is either stored already or saved by it.\<close>

definition savable :: "db \<Rightarrow> OperationRecord option \<Rightarrow> OperationAttempt option \<Rightarrow> bool" where
  "savable d op a \<longleftrightarrow>
     ledger_ok d \<and> (op = None \<longleftrightarrow> a = None) \<and>
     (\<forall>op' a' d1 d2. op = Some op' \<longrightarrow> a = Some a' \<longrightarrow> save_operation d op' = Inr d1 \<longrightarrow>
        save_attempt d1 a' = Inr d2 \<longrightarrow> pair_saved d2 op' a')"

lemma savable_update:
  "update_attempt d st i ts ss u = Inr (op, a) \<Longrightarrow> ledger_ok d \<Longrightarrow> identity_kept u \<Longrightarrow> savable d (Some op) (Some a)"
  unfolding savable_def by (auto intro!: saved_update(1))

lemma recovery_retry_savable:
  assumes ok: "ledger_ok d" and r: "recovery_retry d st c x op0 a0 = Inr (d', op, a)"
    and fresh: "cx_attempt_uuid x \<notin> ar_attempt_id ` set (operation_attempts d)"
  shows "savable d' (Some op) (Some a)"
proof -
  obtain op2 ba where b: "begin_operation_attempt d' st ba (cx_now x) = Inr (op, a)"
    "ba_attempt_id ba = cx_attempt_uuid x"
    and pre: "(if at_status a0 = OperationStatus.UNKNOWN
              then rbind (update_attempt d st (at_attempt_id a0) (cx_now x) [OperationStatus.UNKNOWN]
                     (\<lambda>y. y\<lparr>at_recovery_resolution := Some RETRY_AUTHORIZED,
                            at_risk_confirmed_by := Some (rd_actor c),
                            at_risk_confirmation_reason := Some (sanitize_text (rd_reason c))\<rparr>))
                   (\<lambda>(op1, a1). rbind (save_attempt d a1) (\<lambda>d1.
                      rbind (save_operation d1 op1) (\<lambda>d2. Inr (d2, op1))))
              else Inr (d, op0)) = Inr (d', op2)"
    using r unfolding recovery_retry_def rbind_eq_Inr
    by (force split: if_splits simp: rbind_eq_Inr)
  have "ledger_ok d' \<and> ar_attempt_id ` set (operation_attempts d') = ar_attempt_id ` set (operation_attempts d)"
  proof (cases "at_status a0 = OperationStatus.UNKNOWN")
    case True
    then obtain op1 a1 d1 where u: "update_attempt d st (at_attempt_id a0) (cx_now x) [OperationStatus.UNKNOWN]
                     (\<lambda>y. y\<lparr>at_recovery_resolution := Some RETRY_AUTHORIZED,
                            at_risk_confirmed_by := Some (rd_actor c),
                            at_risk_confirmation_reason := Some (sanitize_text (rd_reason c))\<rparr>) = Inr (op1, a1)"
      "save_attempt d a1 = Inr d1" "save_operation d1 op1 = Inr d'"
      using pre by (auto simp: rbind_eq_Inr)
    have k: "identity_kept (\<lambda>y. y\<lparr>at_recovery_resolution := Some RETRY_AUTHORIZED,
                            at_risk_confirmed_by := Some (rd_actor c),
                            at_risk_confirmation_reason := Some (sanitize_text (rd_reason c))\<rparr>)"
      by (simp add: identity_kept_def same_attempt_def)
    show ?thesis
      using saved_update [OF u(1) ok k] u(2,3) unfolding pair_saved_def by blast
  next
    case False
    with pre ok show ?thesis by simp
  qed
  then show ?thesis
    using saved_next [OF b(1)] b(2) fresh by (simp add: savable_def)
qed

lemma recovery_effect_savable:
  assumes ok: "ledger_ok d" and e: "recovery_effect E d st c x op0 a0 = Inr (d', st', op, a)"
    and sel: "op0 = None \<and> a0 = None \<or> (\<exists>o1 a1. op0 = Some o1 \<and> a0 = Some a1 \<and> pair_saved d o1 a1)"
    and fresh: "cx_attempt_uuid x \<notin> ar_attempt_id ` set (operation_attempts d)"
  shows "savable d' op a"
proof -
  have stored: "savable d op0 a0"
    using ok sel resaved by (auto simp: savable_def)
  have k: "identity_kept (\<lambda>y. y\<lparr>at_recovery_resolution := Some CONFIRMED_SUCCEEDED, at_result := r1,
       at_result_hash := r2, at_result_source := r3, at_reconcile_evidence := r4,
       at_risk_confirmed_by := r5, at_risk_confirmation_reason := r6\<rparr>)"
    "identity_kept (\<lambda>y. y\<lparr>at_recovery_resolution := Some CONFIRMED_FAILED, at_risk_confirmed_by := r5,
       at_risk_confirmation_reason := r6\<rparr>)"
    "identity_kept (\<lambda>y. y\<lparr>at_status := OperationStatus.FAILED, at_failure_kind := Some TERMINAL,
       at_failure_reason := r7, at_completed_at := r8\<rparr>)" for r1 r2 r3 r4 r5 r6 r7 r8
    by (simp_all add: identity_kept_def same_attempt_def)
  show ?thesis
    using e stored ok fresh
    by (cases "rd_action c"; cases op0; cases a0)
       (auto simp: recovery_effect_def Let_def rbind_eq_Inr k split: if_splits
          intro: savable_update recovery_retry_savable)
qed

lemma savable_saved:
  assumes "savable d op a" "save_operation_opt d op = Inr d1" "save_attempt_opt d1 a = Inr d2"
  shows "op = None \<and> a = None \<and> ledger_ok d2 \<or> (\<exists>op' a'. op = Some op' \<and> a = Some a' \<and> pair_saved d2 op' a')"
  using assms
  by (cases op; cases a) (auto simp: savable_def save_operation_opt_def save_attempt_opt_def)

lemma recovery_keeps:
  assumes ok: "ledger_ok d"
    and e: "rbind (apply_recovery E d st cid c x) (\<lambda>(d1, st1, op, a).
      Inr ((state_outcome d1 st1)\<lparr>oc_operation := op, oc_attempt := a\<rparr>)) = Inr oc"
    and fresh: "cx_attempt_uuid x \<notin> ar_attempt_id ` set (operation_attempts d)"
  shows "keeps_ledger oc"
proof -
  obtain st' where r: "apply_recovery E d st cid c x = Inr (oc_db oc, st', oc_operation oc, oc_attempt oc)"
    using e by (auto simp: rbind_eq_Inr)
  from r obtain op0 a0 d1 st1 d2 d3 row where
    f: "recovery_effect E d st c x op0 a0 = Inr (d1, st1, oc_operation oc, oc_attempt oc)"
    and s: "save_operation_opt d1 (oc_operation oc) = Inr d2" "save_attempt_opt d2 (oc_attempt oc) = Inr d3"
    and i: "insert_decision d3 row = Inr (oc_db oc)"
    and sel: "op0 = None \<and> a0 = None \<or> (\<exists>i o1 a1. rd_operation_id c = Some i \<and> operation_in d i = Inr o1 \<and>
       current_attempt_in d (op_operation_id o1) = Inr a1 \<and> op0 = Some o1 \<and> a0 = Some a1 \<and>
       op_run_id o1 = st_run_id st)"
    by (rule apply_recovery_Inr) blast
  have "op0 = None \<and> a0 = None \<or> (\<exists>o1 a1. op0 = Some o1 \<and> a0 = Some a1 \<and> pair_saved d o1 a1)"
    using sel stored_pair [OF ok] operation_in_row by blast
  note saved = savable_saved [OF recovery_effect_savable [OF ok f this fresh] s]
  have same: "same_ledger d3 (oc_db oc)" using i by (rule insert_same_ledger(3))
  from saved show ?thesis
  proof
    assume "oc_operation oc = None \<and> oc_attempt oc = None \<and> ledger_ok d3"
    then show ?thesis using keeps_ledger_none same ledger_ok_same by blast
  next
    assume "\<exists>op' a'. oc_operation oc = Some op' \<and> oc_attempt oc = Some a' \<and> pair_saved d3 op' a'"
    then show ?thesis using keeps_ledger_pair resaved pair_saved_same [OF same] by blast
  qed
qed

subsection \<open>The dispatch\<close>

lemma dispatch_keeps:
  assumes ok: "ledger_ok d" and run: "st_run_id st = cmd_run_id k"
    and c: "dispatch C d st k x (cmd_body k) = Inr oc" and fresh: "fresh_ids d k x"
  shows "keeps_ledger oc"
proof (cases "cmd_body k")
  case (CreateOperationWithAttempt co)
  with ok run c fresh show ?thesis
    by (intro create_operation_keeps [of d st co "cx_now x"]) (simp_all add: fresh_ids_def Let_def)
next
  case (BeginOperationAttempt ba)
  with ok c fresh show ?thesis
    by (intro begin_attempt_keeps [of d st ba "cx_now x"]) (simp_all add: fresh_ids_def Let_def)
next
  case (BeginOperation bo)
  with ok c fresh show ?thesis
    by (intro begin_operation_keeps [of d st bo "cx_now x"]) (simp_all add: fresh_ids_def Let_def)
next
  case (FinalizeAudit fa)
  with ok c fresh show ?thesis
    by (intro finalize_audit_keeps [of d st "ct_env C" fa "cx_now x"]) (simp_all add: fresh_ids_def Let_def)
next
  case (FinalizeInbox fi)
  with ok c fresh show ?thesis
    by (intro finalize_inbox_keeps [of d st "ct_env C" fi "cx_now x"]) (simp_all add: fresh_ids_def Let_def)
next
  case (RecoveryDecision rd)
  with ok c fresh show ?thesis
    by (intro recovery_keeps [of d "ct_env C" st "cmd_command_id k" rd x]) (simp_all add: fresh_ids_def Let_def)
qed (use c in \<open>simp_all only: dispatch.simps\<close>, (rule effect_keeps [OF ok], erule branch_effect)+)

lemma apply_ledger_ok:
  assumes "apply_command C ctx d k x = Inr (d', res)" "ledger_ok d" "fresh_ids d k x"
  shows "ledger_ok d'"
proof (cases "lookup_row pc_command_id (cmd_command_id k) (processed_commands d)")
  case None
  obtain st oc where f: "st_run_id st = cmd_run_id k" "dispatch C d st k x (cmd_body k) = Inr oc"
    "commit_outcome C st k x oc = Inr (d', res)"
    using assms(1) None by (rule apply_command_fresh)
  obtain d1 d2 d3 where s: "save_operation_opt (oc_db oc) (oc_operation oc) = Inr d1"
    "save_attempt_opt d1 (oc_attempt oc) = Inr d2" "save_approval_opt d2 (oc_approval oc) = Inr d3"
    "operation_ledger d' = operation_ledger d3" "operation_attempts d' = operation_attempts d3"
    using f(3) dispatch_frame(1) [OF f(2)] by (rule commit_outcome_Inr)
  have "ledger_ok d2"
    using dispatch_keeps [OF assms(2) f(1,2) assms(3)] s(1,2) by (simp add: keeps_ledger_def)
  moreover have "same_ledger d2 d3"
    using s(3) by (auto simp: save_approval_opt_def dest: insert_same_ledger(7) split: option.splits)
  ultimately show ?thesis using s(4,5) by (simp add: ledger_ok_def same_ledger_def)
next
  case (Some r)
  with apply_command_duplicate(1) [OF assms(1) Some] assms(2) show ?thesis by simp
qed

subsection \<open>Finished attempts\<close>

definition finished_kept :: "db \<Rightarrow> db \<Rightarrow> bool" where
  "finished_kept d d' \<longleftrightarrow>
     (\<forall>i x. lookup_row ar_attempt_id i (operation_attempts d) = Some x \<longrightarrow> finished_status (ar_status x) \<longrightarrow>
        (\<exists>y. lookup_row ar_attempt_id i (operation_attempts d') = Some y \<and> ar_status y = ar_status x))"

lemma finished_kept_trans: "finished_kept d d1 \<Longrightarrow> finished_kept d1 d2 \<Longrightarrow> finished_kept d d2"
  unfolding finished_kept_def by metis

lemma finished_kept_same: "operation_attempts d' = operation_attempts d \<Longrightarrow> finished_kept d d'"
  by (simp add: finished_kept_def)

lemma save_attempt_kept: "save_attempt d a = Inr d' \<Longrightarrow> finished_kept d d'"
  unfolding finished_kept_def
proof (intro allI impI)
  fix i x
  assume sv: "save_attempt d a = Inr d'" and l: "lookup_row ar_attempt_id i (operation_attempts d) = Some x"
    and fin: "finished_status (ar_status x)"
  show "\<exists>y. lookup_row ar_attempt_id i (operation_attempts d') = Some y \<and> ar_status y = ar_status x"
  proof (cases "at_attempt_id a = i")
    case True
    note S = save_attempt_tables(3) [OF sv, of x, unfolded True, OF l]
    have "lookup_row ar_attempt_id i (operation_attempts d') = Some (merge_attempt_row x (attempt_row_of a))"
      using S attempts.lookup_upsert_same [of "attempt_row_of a" "operation_attempts d"] True l by simp
    moreover have "at_status a = ar_status x" using S fin by blast
    ultimately show ?thesis by (simp add: merge_attempt_row_def)
  next
    case False
    then show ?thesis
      using save_attempt_tables(2,3) [OF sv] l
        attempts.lookup_upsert_other [of i "attempt_row_of a" "operation_attempts d"]
      by (cases "lookup_row ar_attempt_id (at_attempt_id a) (operation_attempts d)") simp_all
  qed
qed

lemma save_operation_kept: "save_operation d op = Inr d' \<Longrightarrow> finished_kept d d'"
  by (intro finished_kept_same save_operation_tables(2))

lemma same_ledger_kept: "same_ledger d d' \<Longrightarrow> finished_kept d d'"
  by (simp add: same_ledger_def finished_kept_same)

lemma save_opt_kept:
  "save_operation_opt d op = Inr d' \<Longrightarrow> finished_kept d d'"
  "save_attempt_opt d a = Inr d' \<Longrightarrow> finished_kept d d'"
  "save_approval_opt d ap = Inr d' \<Longrightarrow> finished_kept d d'"
  by (auto simp: save_operation_opt_def save_attempt_opt_def save_approval_opt_def finished_kept_same
      dest: save_operation_kept save_attempt_kept insert_same_ledger(7) intro: same_ledger_kept
      split: option.splits)

lemma begin_operation_kept: "begin_operation d st c ts = Inr (d', op) \<Longrightarrow> finished_kept d d'"
  by (auto simp: begin_operation_def Let_def result_simps finished_kept_same split: option.splits if_splits
      dest!: save_operation_kept save_attempt_kept intro: finished_kept_trans)

lemma recovery_retry_kept: "recovery_retry d st c x op a = Inr (d', op', a') \<Longrightarrow> finished_kept d d'"
  by (auto simp: recovery_retry_def result_simps finished_kept_same split: if_splits
      dest!: save_operation_kept save_attempt_kept intro: finished_kept_trans)

lemma recovery_effect_kept:
  "recovery_effect E d st c x op a = Inr (d', st', op', a') \<Longrightarrow> finished_kept d d'"
  by (cases "rd_action c"; cases op; cases a)
     (auto simp: recovery_effect_def Let_def rbind_eq_Inr finished_kept_same split: if_splits
        dest: recovery_retry_kept)

lemma apply_recovery_kept:
  "apply_recovery E d st cid c x = Inr (d', st', op', a') \<Longrightarrow> finished_kept d d'"
proof (erule apply_recovery_Inr)
  fix op a d1 st1 d2 d3 row
  assume "recovery_effect E d st c x op a = Inr (d1, st1, op', a')"
    "save_operation_opt d1 op' = Inr d2" "save_attempt_opt d2 a' = Inr d3" "insert_decision d3 row = Inr d'"
  then have "finished_kept d d1" "finished_kept d1 d2" "finished_kept d2 d3" "finished_kept d3 d'"
    by (auto dest: recovery_effect_kept save_opt_kept insert_same_ledger(3) intro: same_ledger_kept)
  then show ?thesis by (meson finished_kept_trans)
qed

lemma dispatch_kept: "dispatch C d st k x c = Inr oc \<Longrightarrow> finished_kept d (oc_db oc)"
proof (cases c)
  case (BeginOperation bo)
  then show "dispatch C d st k x c = Inr oc \<Longrightarrow> ?thesis"
    by (auto simp: begin_operation_command_def result_simps dest: begin_operation_kept)
next
  case (RecoveryDecision rd)
  then show "dispatch C d st k x c = Inr oc \<Longrightarrow> ?thesis"
    by (auto simp: result_simps dest: apply_recovery_kept)
next
  case (FinalizeAudit fa)
  then show "dispatch C d st k x c = Inr oc \<Longrightarrow> ?thesis"
    by (auto simp: branch_simps finalize_audit_def result_simps dest!: insert_same_ledger
        intro: same_ledger_kept [OF same_ledger_trans] same_ledger_kept)
next
  case (FinalizeInbox fi)
  then show "dispatch C d st k x c = Inr oc \<Longrightarrow> ?thesis"
    by (auto simp: branch_simps finalize_inbox_def result_simps dest!: insert_same_ledger
        intro: same_ledger_kept [OF same_ledger_trans] same_ledger_kept)
next
  case (CreateOperationWithAttempt co)
  then show "dispatch C d st k x c = Inr oc \<Longrightarrow> ?thesis"
    by (auto simp: create_operation_command_def result_simps finished_kept_same)
next
  case (BeginOperationAttempt ba)
  then show "dispatch C d st k x c = Inr oc \<Longrightarrow> ?thesis"
    by (auto simp: begin_attempt_command_def result_simps finished_kept_same)
qed (simp_all only: dispatch.simps,
     (rule same_ledger_kept, drule branch_effect, simp add: ledger_effect_def)+)

lemma apply_kept: "apply_command C ctx d k x = Inr (d', res) \<Longrightarrow> finished_kept d d'"
proof (cases "lookup_row pc_command_id (cmd_command_id k) (processed_commands d)")
  case None
  assume ap: "apply_command C ctx d k x = Inr (d', res)"
  obtain st oc where f: "dispatch C d st k x (cmd_body k) = Inr oc"
    "commit_outcome C st k x oc = Inr (d', res)"
    using ap None by (rule apply_command_fresh)
  obtain d1 d2 d3 where s: "save_operation_opt (oc_db oc) (oc_operation oc) = Inr d1"
    "save_attempt_opt d1 (oc_attempt oc) = Inr d2" "save_approval_opt d2 (oc_approval oc) = Inr d3"
    "operation_attempts d' = operation_attempts d3"
    using f(2) dispatch_frame(1) [OF f(1)] by (rule commit_outcome_Inr)
  show ?thesis
    using dispatch_kept [OF f(1)] save_opt_kept(1) [OF s(1)] save_opt_kept(2) [OF s(2)]
      save_opt_kept(3) [OF s(3)] finished_kept_same [OF s(4)] by (meson finished_kept_trans)
next
  case (Some r)
  assume "apply_command C ctx d k x = Inr (d', res)"
  then show ?thesis using apply_command_duplicate(1) Some finished_kept_same by blast
qed

subsection \<open>Properties\<close>

text \<open>
  C9. Every command keeps the ledger invariant: in the operation tables columns and documents agree,
  every operation record shows exactly the reduction of its attempts, and no run has two active
  side-effecting attempts. The callers guarantee \<open>fresh_ids\<close>.
\<close>

theorem apply_keeps_ledger:
  assumes "apply_command C ctx d k x = Inr (d', res)" "ledger_ok d" "fresh_ids d k x"
  shows "ledger_ok d'"
  using assms by (rule apply_ledger_ok)


text \<open>
  A finished attempt is final: once an attempt is completed, failed, skipped or abandoned, no command
  changes its status again or removes it.
\<close>

theorem finished_attempt_is_final:
  assumes "apply_command C ctx d k x = Inr (d', res)"
    and "lookup_row ar_attempt_id i (operation_attempts d) = Some r" "finished_status (ar_status r)"
  shows "\<exists>y. lookup_row ar_attempt_id i (operation_attempts d') = Some y \<and> ar_status y = ar_status r"
  using apply_kept [OF assms(1)] assms(2,3) by (simp add: finished_kept_def)

end
