(* ===== verification/Controller_Runs.thy ===== *)
theory Controller_Runs
  imports Ledger_Safety
begin

section \<open>Histories of the control plane\<close>

text \<open>
  The control-plane database as a state machine: a step is one committed transaction of any gateway
  (\<open>apply_command\<close>, \<open>create_run\<close>, \<open>create_state\<close>, \<open>reserve_idempotency\<close>), in any order and interleaving;
  a failed call commits nothing and is no step. \<open>audit_inv\<close> ties the tables of the audit trail together and
  holds in every reachable database, with \<open>ledger_ok\<close>.
\<close>

inductive step :: "env \<Rightarrow> db \<Rightarrow> db \<Rightarrow> bool" for E :: env where
  step_apply: "ct_env C = E \<Longrightarrow> fresh_ids d k x \<Longrightarrow> apply_command C ctx d k x = Inr (d', res) \<Longrightarrow> step E d d'"
| step_create_run: "ct_env C = E \<Longrightarrow> create_run C ctx d q x = Inr (d', st, dup) \<Longrightarrow> step E d d'"
| step_create_state: "ct_env C = E \<Longrightarrow> create_state C ctx d q x = Inr (d', st) \<Longrightarrow> step E d d'"
| step_reserve: "ct_env C = E \<Longrightarrow> reserve_idempotency C ctx d key h rid cl op ts = Inr (d', rid') \<Longrightarrow> step E d d'"

inductive reachable :: "env \<Rightarrow> db \<Rightarrow> bool" for E :: env where
  reachable_init: "reachable E (empty_db\<lparr>event_sinks := sinks, runtime_resource_generations := gens\<rparr>)"
| reachable_step: "reachable E d \<Longrightarrow> step E d d' \<Longrightarrow> reachable E d'"

definition processed_count :: "db \<Rightarrow> string \<Rightarrow> nat" where
  "processed_count d i = count_rows (\<lambda>r. pc_run_id r = i) (processed_commands d)"

definition run_audit_ok :: "db \<Rightarrow> string \<Rightarrow> nat option \<Rightarrow> bool" where
  "run_audit_ok d i revision \<longleftrightarrow>
     last_sequence d i = (case revision of None \<Rightarrow> 0 | Some n \<Rightarrow> n + 1) \<and>
     processed_count d i = (case revision of None \<Rightarrow> 0 | Some n \<Rightarrow> n)"

definition revision_of :: "db \<Rightarrow> string \<Rightarrow> nat option" where
  "revision_of d i = map_option st_revision (find (\<lambda>s. st_run_id s = i) (states d))"

definition audit_inv :: "db \<Rightarrow> bool" where
  "audit_inv d \<longleftrightarrow>
     distinct (map st_run_id (states d)) \<and> (\<forall>st \<in> set (states d). validate_lifecycle st) \<and>
     distinct (map pc_command_id (processed_commands d)) \<and>
     (\<forall>i. gapless ev_stream_sequence (events_of d i) (last_sequence d i)) \<and>
     (\<forall>i. run_audit_ok d i (revision_of d i))"

subsection \<open>Effect of one appended event\<close>

lemma appended_event:
  assumes "gateway_events d' = gateway_events d @ [e]"
    and "event_sequences d' = upsert_row fst replace_row (i, next_sequence d i) (event_sequences d)"
    and "ev_stream_id e = i" "ev_stream_sequence e = next_sequence d i"
  shows "last_sequence d' j = (if j = i then last_sequence d i + 1 else last_sequence d j)"
    and "gapless ev_stream_sequence (events_of d j) (last_sequence d j) \<Longrightarrow>
      gapless ev_stream_sequence (events_of d' j) (last_sequence d' j)"
proof -
  show seq: "last_sequence d' j = (if j = i then last_sequence d i + 1 else last_sequence d j)"
    using last_sequence_upsert [OF assms(2), of j] by (simp add: next_sequence_last)
  show "gapless ev_stream_sequence (events_of d' j) (last_sequence d' j)"
    if "gapless ev_stream_sequence (events_of d j) (last_sequence d j)"
    using that assms(1,3,4) unfolding seq
    by (auto simp: events_of_def gapless_def next_sequence_last)
qed

lemma revision_of_replace:
  assumes "states d' = map (\<lambda>s. if st_run_id s = st_run_id st' then st' else s) (states d)"
    and "revision_of d (st_run_id st') \<noteq> None"
  shows "revision_of d' j = (if j = st_run_id st' then Some (st_revision st') else revision_of d j)"
  using assms by (auto simp: revision_of_def find_replace)

subsection \<open>Each transaction keeps the audit invariant\<close>

lemma apply_audit_inv:
  assumes "apply_command C ctx d k x = Inr (d', res)" "audit_inv d"
  shows "audit_inv d'"
proof (cases "lookup_row pc_command_id (cmd_command_id k) (processed_commands d)")
  case (Some r)
  with apply_command_duplicate(1) [OF assms(1) Some] assms(2) show ?thesis by simp
next
  case None
  obtain st oc e where f: "state_in d (cmd_run_id k) = Inr st"
    "st_run_id (oc_state oc) = cmd_run_id k" "st_revision (oc_state oc) = st_revision st"
    "validate_lifecycle (committed_state oc x)"
    "states d' = map (\<lambda>s. if st_run_id s = cmd_run_id k then committed_state oc x else s) (states d)"
    "e = committed_event C d st k oc x" "gateway_events d' = gateway_events d @ [e]"
    "event_sequences d' = upsert_row fst replace_row (cmd_run_id k, next_sequence d (cmd_run_id k)) (event_sequences d)"
    "processed_commands d' = processed_commands d @ [processed_row_of C k oc x e]"
    using assms(1) None by (rule apply_fresh_facts)
  have ev: "ev_stream_id e = cmd_run_id k" "ev_stream_sequence e = next_sequence d (cmd_run_id k)"
    using f(2,6) by (simp_all add: committed_event_def event_of_columns)
  note E = appended_event [OF f(7,8) ev]
  have rev0: "revision_of d (cmd_run_id k) = Some (st_revision st)"
    using f(1) by (auto simp: state_in_states result_simps revision_of_def)
  have rev: "revision_of d' j = (if j = cmd_run_id k then Some (st_revision st + 1) else revision_of d j)" for j
    using revision_of_replace [of d' "committed_state oc x" d j] f(2,3,5) rev0 by simp
  have cnt: "processed_count d' j = processed_count d j + (if j = cmd_run_id k then 1 else 0)" for j
    using f(2) by (simp add: processed_count_def count_rows_def f(9) processed_row_of_def)
  have "run_audit_ok d' j (revision_of d' j)" for j
    using assms(2) rev0 unfolding audit_inv_def run_audit_ok_def rev cnt E(1)
    by (auto dest: spec [of _ j])
  moreover have "distinct (map st_run_id (states d'))"
  proof -
    have "map st_run_id (states d') = map st_run_id (states d)" using f(2,5) by (auto simp: comp_def)
    then show ?thesis using assms(2) by (simp add: audit_inv_def)
  qed
  moreover have "distinct (map pc_command_id (processed_commands d'))"
    using assms(2) None by (simp add: audit_inv_def f(9) processed_row_of_def lookup_row_None_iff)
  ultimately show ?thesis
    using assms(2) f(4,5) E(2) by (auto simp: audit_inv_def)
qed

lemma new_state_valid: "validate_lifecycle (new_state C q ts)"
  by (rule validate_lifecycle_open) (simp_all add: new_state_def TERMINAL_STATES_def)

lemma new_state_ids [simp]:
  "st_run_id (new_state C q ts) = nr_run_id q" "st_revision (new_state C q ts) = 0"
  by (simp_all add: new_state_def)

lemma find_append:
  "find P (xs @ ys) = (case find P xs of None \<Rightarrow> find P ys | Some x \<Rightarrow> Some x)"
  by (induction xs) auto

text \<open>What creating a run adds, whichever of the two entry points does it.\<close>

lemma created_audit_inv:
  assumes inv: "audit_inv d" and st: "states d' = states d @ [st]" "st_revision st = 0" "validate_lifecycle st"
    and new: "find (\<lambda>s. st_run_id s = st_run_id st) (states d) = None"
    and ev: "gateway_events d' = gateway_events d @ [e]" "ev_stream_id e = st_run_id st"
      "ev_stream_sequence e = last_sequence d (st_run_id st) + 1"
    and seq: "\<And>j. last_sequence d' j = (if j = st_run_id st then last_sequence d j + 1 else last_sequence d j)"
    and pc: "processed_commands d' = processed_commands d"
  shows "audit_inv d'"
proof -
  have rev: "revision_of d' j = (if j = st_run_id st then Some 0 else revision_of d j)" for j
    using new st(1,2) by (auto simp: revision_of_def find_append split: option.splits)
  have none: "revision_of d (st_run_id st) = None" using new by (simp add: revision_of_def)
  have "run_audit_ok d' j (revision_of d' j)" for j
    using inv none unfolding audit_inv_def run_audit_ok_def rev seq processed_count_def pc
    by (auto dest: spec [of _ j])
  moreover have "gapless ev_stream_sequence (events_of d' j) (last_sequence d' j)" for j
    using inv ev unfolding audit_inv_def seq by (auto simp: events_of_def gapless_def dest: spec [of _ j])
  moreover have "st_run_id st \<notin> st_run_id ` set (states d)"
    using new by (auto simp: find_None_iff)
  ultimately show ?thesis
    using inv st pc by (simp add: audit_inv_def)
qed

lemma insert_state_Inr:
  assumes "insert_state d st = Inr d'"
  shows "states d' = states d @ [st]" "find (\<lambda>s. st_run_id s = st_run_id st) (states d) = None"
    "d' = d\<lparr>agent_states := agent_states d'\<rparr>"
proof -
  have "lookup_row sr_run_id (st_run_id st) (agent_states d) = None"
    and d': "d' = d\<lparr>agent_states := agent_states d @ [\<lparr>sr_state = st, sr_snapshot_sequence = 0\<rparr>]\<rparr>"
    using assms by (auto simp: insert_state_def split: if_splits)
  then show "find (\<lambda>s. st_run_id s = st_run_id st) (states d) = None"
    using lookup_sr_state [of "st_run_id st" "agent_states d"] by (simp add: states_def)
  show "states d' = states d @ [st]" "d' = d\<lparr>agent_states := agent_states d'\<rparr>"
    by (simp_all add: d' states_def)
qed

text \<open>The tables both entry points write through, from the database \<open>d\<close> the state was inserted into.\<close>

lemma created_event_facts:
  assumes "created_event C d0 st x = Inr (d', e)" "states d0 = states d @ [st]"
    and "gateway_events d0 = gateway_events d" "\<And>j. last_sequence d0 j = last_sequence d j"
    and "processed_commands d0 = processed_commands d"
    and "operation_ledger d0 = operation_ledger d" "operation_attempts d0 = operation_attempts d"
    and "audit_inv d" "ledger_ok d" "st_revision st = 0" "validate_lifecycle st"
    and "find (\<lambda>s. st_run_id s = st_run_id st) (states d) = None"
  shows "audit_inv d'" "ledger_ok d'"
proof -
  note w = write_event_Inr [OF assms(1) [unfolded created_event_def]]
  have e: "ev_stream_id e = st_run_id st" "ev_stream_sequence e = last_sequence d (st_run_id st) + 1"
    using assms(4) by (simp_all add: w(1) event_of_columns next_sequence_last)
  show "audit_inv d'"
  proof (rule created_audit_inv [OF assms(8) _ assms(10-12) _ e])
    show "states d' = states d @ [st]" using w(4) assms(2) by (simp add: states_def)
    show "gateway_events d' = gateway_events d @ [e]" using w(2) assms(3) by simp
    show "last_sequence d' j = (if j = st_run_id st then last_sequence d j + 1 else last_sequence d j)" for j
      using last_sequence_upsert [OF w(3), of j] assms(4) by (simp add: next_sequence_last)
    show "processed_commands d' = processed_commands d" using w(5) assms(5) by simp
  qed
  show "ledger_ok d'" using assms(6,7,9) w(7,8) by (simp add: ledger_ok_def)
qed

lemma create_state_keeps:
  assumes "create_state C ctx d q x = Inr (d', st)" "audit_inv d" "ledger_ok d"
  shows "audit_inv d' \<and> ledger_ok d'"
proof (cases "lookup_row sr_run_id (nr_run_id q) (agent_states d)")
  case (Some r)
  with assms show ?thesis by (auto simp: create_state_def Let_def split: if_splits)
next
  case None
  let ?st = "new_state C q (cx_now x)"
  obtain d1 e where i: "insert_state d ?st = Inr d1"
    and c: "created_event C (update_run_projection d1 ?st) ?st x = Inr (d', e)"
    using assms(1) None by (auto simp: create_state_def Let_def result_simps split: if_splits)
  note I = insert_state_Inr [OF i]
  have "gateway_events d1 = gateway_events d" "event_sequences d1 = event_sequences d"
    "processed_commands d1 = processed_commands d" "operation_ledger d1 = operation_ledger d"
    "operation_attempts d1 = operation_attempts d"
    by (subst I(3), simp)+
  then show ?thesis
    using created_event_facts [OF c, of d] I(1,2) assms(2,3) new_state_valid
    by (simp add: update_run_projection_def states_def last_sequence_def)
qed

lemma insert_run_sequences:
  "insert_run d r = Inr d' \<Longrightarrow> last_sequence d' j = last_sequence d j"
  by (auto simp: insert_run_def last_sequence_def split: if_splits option.splits)

lemma insert_run_tables:
  assumes "insert_run d r = Inr d'"
  shows "states d' = states d" "gateway_events d' = gateway_events d"
    "processed_commands d' = processed_commands d" "operation_ledger d' = operation_ledger d"
    "operation_attempts d' = operation_attempts d"
  using assms by (auto simp: insert_run_def states_def split: if_splits)

lemma bind_generation_tables:
  assumes "bind_generation E d i g ts = Inr d'"
  shows "d' = d\<lparr>runtime_generation_references := runtime_generation_references d'\<rparr>"
  using assms by (auto simp: bind_generation_def Let_def split: option.splits if_splits)

lemma create_run_fresh:
  assumes "create_run C ctx d q x = Inr (d', st, dup)"
    and "find_idempotency d (nr_client_id q) (workload_kind_value (nr_workload_kind q)) (nr_idempotency_key q) = None"
  obtains d1 d2 d3 e where "st = new_state C q (cx_now x)" "\<not> dup" "valid_new_state st"
    "insert_run d (run_row_of q (cx_now x)) = Inr d1" "insert_state d1 st = Inr d2"
    "bind_generation (ct_env C)
       (insert_idempotency d2 (nr_client_id q) (workload_kind_value (nr_workload_kind q)) (nr_idempotency_key q)
          (nr_request_hash q) (nr_run_id q) (cx_now x))
       (nr_run_id q) (nr_runtime_generation_id q) (cx_now x) = Inr d3"
    "created_event C (update_run_projection d3 st) st x = Inr (d', e)"
  using assms by (auto simp: create_run_def Let_def result_simps split: if_splits)

lemma create_run_keeps:
  assumes "create_run C ctx d q x = Inr (d', st, dup)" "audit_inv d" "ledger_ok d"
  shows "audit_inv d' \<and> ledger_ok d'"
proof (cases "find_idempotency d (nr_client_id q) (workload_kind_value (nr_workload_kind q)) (nr_idempotency_key q)")
  case (Some r)
  with assms show ?thesis by (auto simp: create_run_def Let_def result_simps split: if_splits)
next
  case None
  obtain d1 d2 d3 e where st: "st = new_state C q (cx_now x)"
    and r: "insert_run d (run_row_of q (cx_now x)) = Inr d1" and i: "insert_state d1 st = Inr d2"
    and b: "bind_generation (ct_env C)
       (insert_idempotency d2 (nr_client_id q) (workload_kind_value (nr_workload_kind q)) (nr_idempotency_key q)
          (nr_request_hash q) (nr_run_id q) (cx_now x))
       (nr_run_id q) (nr_runtime_generation_id q) (cx_now x) = Inr d3"
    and c: "created_event C (update_run_projection d3 st) st x = Inr (d', e)"
    using assms(1) None by (rule create_run_fresh)
  note R = insert_run_tables [OF r] and S = insert_run_sequences [OF r]
    and I = insert_state_Inr [OF i] and B = bind_generation_tables [OF b]
  have t2: "gateway_events d2 = gateway_events d1" "event_sequences d2 = event_sequences d1"
    "processed_commands d2 = processed_commands d1" "operation_ledger d2 = operation_ledger d1"
    "operation_attempts d2 = operation_attempts d1"
    by (subst I(3), simp)+
  have t3: "gateway_events d3 = gateway_events d1" "event_sequences d3 = event_sequences d1"
    "processed_commands d3 = processed_commands d1" "operation_ledger d3 = operation_ledger d1"
    "operation_attempts d3 = operation_attempts d1" "agent_states d3 = agent_states d2"
    by (subst B, simp add: insert_idempotency_def t2)+
  have seq: "last_sequence (update_run_projection d3 st) j = last_sequence d j" for j
    using S by (simp add: last_sequence_def update_run_projection_def t3)
  have sts: "states (update_run_projection d3 st) = states d @ [st]"
    using I(1) R(1) by (simp add: update_run_projection_def states_def t3)
  show ?thesis
    using created_event_facts [OF c sts _ seq] assms(2,3) R t3 I(2) new_state_valid st
    by (simp add: update_run_projection_def)
qed

lemma reserve_keeps:
  assumes "reserve_idempotency C ctx d key h rid cl op ts = Inr (d', rid')" "audit_inv d" "ledger_ok d"
  shows "audit_inv d' \<and> ledger_ok d'"
proof -
  have "d' = d \<or> d' = insert_idempotency d cl op key h rid ts"
    using assms(1) by (auto simp: reserve_idempotency_def result_simps split: option.splits if_splits)
  then show ?thesis
    using assms(2,3)
    by (auto simp: insert_idempotency_def audit_inv_def ledger_ok_def states_def events_of_def
        last_sequence_def run_audit_ok_def processed_count_def revision_of_def)
qed

subsection \<open>Every reachable database\<close>

lemma step_keeps:
  assumes "step E d d'" "audit_inv d" "ledger_ok d"
  shows "audit_inv d' \<and> ledger_ok d'"
  using assms(1)
proof cases
  case step_apply
  then show ?thesis using apply_audit_inv apply_ledger_ok assms(2,3) by blast
next
  case step_create_run
  then show ?thesis using create_run_keeps assms(2,3) by blast
next
  case step_create_state
  then show ?thesis using create_state_keeps assms(2,3) by blast
next
  case step_reserve
  then show ?thesis using reserve_keeps assms(2,3) by blast
qed

lemma reachable_inv: "reachable E d \<Longrightarrow> audit_inv d \<and> ledger_ok d"
proof (induction rule: reachable.induct)
  case (reachable_init sinks gens)
  show ?case
    by (simp add: empty_db_def audit_inv_def ledger_ok_def states_def events_of_def last_sequence_def
        gapless_def run_audit_ok_def processed_count_def count_rows_def revision_of_def ledger_inv_def
        operation_rows_ok_def attempt_rows_ok_def one_active_effect_def)
next
  case (reachable_step d d')
  then show ?case using step_keeps by blast
qed



text \<open>
  C16. Every state that is ever stored satisfies the lifecycle validator: FINALIZING names its target,
  a normal terminal state matches its target, has an end time and a finished execution.
\<close>

theorem stored_states_are_valid:
  assumes "reachable E d" "state_in d i = Inr st"
  shows "validate_lifecycle st"
proof -
  have "st \<in> set (states d)"
    using assms(2) by (auto simp: state_in_states result_simps find_Some_iff)
  then show ?thesis using reachable_inv [OF assms(1)] by (auto simp: audit_inv_def)
qed

text \<open>
  Creating a run is idempotent: the same request sent again under the same idempotency key, by any
  gateway and at any time, stores nothing and returns the run that was created first.
\<close>

theorem create_run_idempotent:
  assumes "create_run C ctx d q x = Inr (d1, st, False)"
    and "nr_client_id q2 = nr_client_id q" "nr_workload_kind q2 = nr_workload_kind q"
    and "nr_idempotency_key q2 = nr_idempotency_key q" "nr_request_hash q2 = nr_request_hash q"
  shows "create_run C2 ctx2 d1 q2 x2 = Inr (d1, st, True)"
proof -
  let ?kind = "workload_kind_value (nr_workload_kind q)"
  have none: "find_idempotency d (nr_client_id q) ?kind (nr_idempotency_key q) = None"
    using assms(1) by (auto simp: create_run_def Let_def result_simps split: option.splits if_splits)
  obtain d1' d2 d3 e where st: "st = new_state C q (cx_now x)"
    and r: "insert_run d (run_row_of q (cx_now x)) = Inr d1'" and i: "insert_state d1' st = Inr d2"
    and b: "bind_generation (ct_env C)
       (insert_idempotency d2 (nr_client_id q) ?kind (nr_idempotency_key q)
          (nr_request_hash q) (nr_run_id q) (cx_now x))
       (nr_run_id q) (nr_runtime_generation_id q) (cx_now x) = Inr d3"
    and c: "created_event C (update_run_projection d3 st) st x = Inr (d1, e)"
    using assms(1) none by (rule create_run_fresh)
  note w = write_event_Inr [OF c [unfolded created_event_def]]
    and I = insert_state_Inr [OF i] and B = bind_generation_tables [OF b]
  have "idempotency_records d1' = idempotency_records d"
    using r by (auto simp: insert_run_def split: if_splits)
  moreover have "idempotency_records d2 = idempotency_records d1'" by (subst I(3), simp)
  moreover have "idempotency_records d3 = idempotency_records (insert_idempotency d2 (nr_client_id q) ?kind
      (nr_idempotency_key q) (nr_request_hash q) (nr_run_id q) (cx_now x))" by (subst B, simp)
  moreover have "agent_states d3 = agent_states d2" by (subst B, simp add: insert_idempotency_def)
  then have "states d1 = states d2" using w(4) by (simp add: states_def update_run_projection_def)
  then have "state_in d1 (nr_run_id q) = Inr st"
    using I(1,2) st by (simp add: state_in_states find_append)
  ultimately show ?thesis
    using none w(11) assms(2-5)
    by (simp add: create_run_def Let_def find_idempotency_def update_run_projection_def
        insert_idempotency_def idempotency_key_of_def)
qed

end
