(* ===== verification/Gate_Safety.thy ===== *)
theory Gate_Safety
  imports Write_Gate
begin

section \<open>What the write gate guarantees\<close>

text \<open>
  The gate as a step relation over its public operations: entering and leaving a work scope, a control
  scope or a database transaction, and the maintenance steps of the coordinator. \<open>gate_inv\<close> says that the
  durable history is a legal path of the lifecycle with one row per revision and that a frozen home
  (QUIESCED, RESTORING, RESUMING) has no active ordinary work.
\<close>

abbreviation frozen :: "MaintenanceState \<Rightarrow> bool" where
  "frozen s \<equiv> s \<in> {QUIESCED, RESTORING, RESUMING}"

definition scope_frozen_ok :: "nat \<Rightarrow> WriteScope \<Rightarrow> bool" where
  "scope_frozen_ok epoch s \<longleftrightarrow>
     ws_kind s = ''db'' \<and> ws_writer_id s = ''sqlite'' \<or>
     ws_maintenance s \<and> ws_maintenance_epoch s = Some epoch"

text \<open>A history from \<open>s\<close> to \<open>t\<close>: consecutive revisions from \<open>n + 1\<close>, every move in the table.\<close>

fun history_ok :: "MaintenanceState \<Rightarrow> nat \<Rightarrow> (nat \<times> MaintenanceState \<times> MaintenanceState) list
     \<Rightarrow> MaintenanceState \<Rightarrow> bool" where
  "history_ok s n [] t \<longleftrightarrow> s = t"
| "history_ok s n ((r, a, b) # h) t \<longleftrightarrow> r = Suc n \<and> a = s \<and> b \<in> set (allowed s) \<and> history_ok b (Suc n) h t"

lemma history_ok_snoc:
  "history_ok s n h t \<Longrightarrow> b \<in> set (allowed t) \<Longrightarrow>
     history_ok s n (h @ [(Suc (n + length h), t, b)]) b"
  by (induction s n h t rule: history_ok.induct) auto

lemma history_ok_revisions: "history_ok s n h t \<Longrightarrow> map fst h = [Suc n..<Suc (n + length h)]"
  by (induction s n h t rule: history_ok.induct) (auto simp: upt_rec)

definition store_inv :: "LifecycleStore \<Rightarrow> bool" where
  "store_inv s \<longleftrightarrow>
     lc_revision s = ms_revision (lc_snapshot s) \<and> lc_revision s = length (lc_transitions s) \<and>
     history_ok RUNNING 0 (lc_transitions s) (ms_state (lc_snapshot s))"

definition gate_inv :: "gate \<Rightarrow> bool" where
  "gate_inv g \<longleftrightarrow>
     (\<forall>s. gt_store g = Some s \<longrightarrow> store_inv s) \<and>
     (\<forall>s. snapshot g = Inr s \<longrightarrow> frozen (ms_state s) \<longrightarrow>
        (\<forall>w \<in> set (gt_active g). scope_frozen_ok (ms_maintenance_epoch s) w))"

subsection \<open>Transitions\<close>

lemma set_metadata_keeps:
  "ms_revision (set_metadata m s) = ms_revision s" "ms_state (set_metadata m s) = ms_state s"
  by (cases m; simp)+

lemma fold_metadata_keeps: "ms_revision (fold set_metadata meta s) = ms_revision s"
  by (induction meta arbitrary: s) (simp_all add: set_metadata_keeps)

definition is_epoch :: "metadata \<Rightarrow> bool" where
  "is_epoch m \<longleftrightarrow> (\<exists>n. m = MaintenanceEpoch n)"

lemma fold_metadata_epoch:
  "list_all (\<lambda>m. \<not> is_epoch m) meta \<Longrightarrow>
     ms_maintenance_epoch (fold set_metadata meta s) = ms_maintenance_epoch s"
proof (induction meta arbitrary: s)
  case (Cons m ms)
  then show ?case by (cases m) (auto simp: is_epoch_def)
qed simp

lemma transition_Inr:
  assumes "transition disk now g src tgt reason meta rv = (g', Inr new)" "gate_inv g"
  obtains old where "snapshot g = Inr old" "ms_state old = src" "tgt \<in> set (allowed src)"
    "tgt \<in> {QUIESCED, RESUMING, RUNNING} \<Longrightarrow> gt_active g = []"
    "snapshot g' = Inr new" "ms_state new = tgt" "gt_active g' = gt_active g"
    "ms_maintenance_epoch new = ms_maintenance_epoch (fold set_metadata meta old)"
    "\<And>s. gt_store g' = Some s \<Longrightarrow> store_inv s"
proof -
  obtain old where old: "snapshot g = Inr old" "ms_state old = src" "tgt \<in> set (allowed src)"
    and drained: "tgt \<in> {QUIESCED, RESUMING, RUNNING} \<Longrightarrow> gt_active g = []"
    and res: "save_snapshot disk g old (next_snapshot now old tgt reason meta) = (g', Inr new)"
    using assms(1) by (auto simp: transition_def split: sum.splits if_splits)
  define nw where "nw = next_snapshot now old tgt reason meta"
  have nw: "ms_state nw = tgt" "ms_revision nw = ms_revision old + 1"
    "ms_maintenance_epoch nw = ms_maintenance_epoch (fold set_metadata meta old)"
    by (simp_all add: nw_def next_snapshot_def)
  show thesis
  proof (cases "gt_store g")
    case None
    with res have "g' = g\<lparr>gt_initial := nw\<rparr>" "new = nw" by (auto simp: save_snapshot_def nw_def)
    with None nw show thesis by (intro that [OF old drained]) (simp_all add: snapshot_def)
  next
    case (Some s)
    with res obtain s' where s': "store_save disk s old nw = Inr s'" "g' = g\<lparr>gt_store := Some s'\<rparr>" "new = nw"
      by (auto simp: save_snapshot_def nw_def split: sum.splits error.splits)
    have inv: "store_inv s" using assms(2) Some by (simp add: gate_inv_def)
    have eq: "s' = \<lparr>lc_revision = ms_revision nw, lc_snapshot = nw,
        lc_transitions = lc_transitions s @ [(ms_revision nw, ms_state old, ms_state nw)]\<rparr>"
      using s'(1) by (auto simp: store_save_def split: if_splits)
    have "lc_snapshot s = old" using old(1) Some by (auto simp: snapshot_def store_read_def split: if_splits)
    then have "ms_revision old = length (lc_transitions s)" "history_ok RUNNING 0 (lc_transitions s) src"
      using inv old(2) by (auto simp: store_inv_def)
    then have "store_inv s'"
      using old(2,3) history_ok_snoc [of RUNNING 0 "lc_transitions s" src tgt] nw
      by (simp add: store_inv_def eq)
    with s' nw show thesis
      by (intro that [OF old drained]) (simp_all add: snapshot_def store_read_def eq)
  qed
qed

lemma transition_Inl:
  assumes "transition disk now g src tgt reason meta rv = (g', Inl e)"
  shows "snapshot g' = snapshot g" "gt_active g' = gt_active g" "gt_store g' = gt_store g"
proof -
  have "g' = g \<or> g' = g\<lparr>gt_storage_fault := True\<rparr>"
    using assms
    by (auto simp: transition_def save_snapshot_def split: sum.splits if_splits option.splits error.splits)
  then show "snapshot g' = snapshot g" "gt_active g' = gt_active g" "gt_store g' = gt_store g"
    by (auto simp: snapshot_def split: option.splits)
qed

lemma transition_keeps:
  assumes t: "transition disk now g src tgt reason meta rv = (g', r)" and inv: "gate_inv g"
    and epoch: "list_all (\<lambda>m. \<not> is_epoch m) meta \<or> tgt = QUIESCING"
    and keep: "tgt = RESTORING \<Longrightarrow> src = QUIESCED"
  shows "gate_inv g'"
proof (cases r)
  case (Inl e)
  with transition_Inl [of disk now g src tgt reason meta rv g' e] t inv show ?thesis
    by (simp add: gate_inv_def)
next
  case (Inr new)
  with t have tr: "transition disk now g src tgt reason meta rv = (g', Inr new)" by simp
  obtain old where o: "snapshot g = Inr old" "ms_state old = src" "tgt \<in> set (allowed src)"
    "tgt \<in> {QUIESCED, RESUMING, RUNNING} \<Longrightarrow> gt_active g = []"
    "snapshot g' = Inr new" "ms_state new = tgt" "gt_active g' = gt_active g"
    "ms_maintenance_epoch new = ms_maintenance_epoch (fold set_metadata meta old)"
    "\<And>s. gt_store g' = Some s \<Longrightarrow> store_inv s"
    using tr inv by (rule transition_Inr) blast
  have "scope_frozen_ok (ms_maintenance_epoch new) w" if "frozen tgt" "w \<in> set (gt_active g')" for w
  proof (cases "tgt = RESTORING")
    case True
    with keep epoch have "src = QUIESCED" "list_all (\<lambda>m. \<not> is_epoch m) meta" by auto
    with inv o that(2) fold_metadata_epoch [of meta old] show ?thesis by (auto simp: gate_inv_def)
  next
    case False
    with that o(4,7) show ?thesis by auto
  qed
  with o show ?thesis by (simp add: gate_inv_def)
qed

subsection \<open>Scopes\<close>

interpretation scopes: row_table ws_scope_id "replace_row :: WriteScope \<Rightarrow> WriteScope \<Rightarrow> WriteScope"
  by unfold_locales (simp add: replace_row_def)

lemma upsert_replace_subset: "set (upsert_row key replace_row r rows) \<subseteq> insert r (set rows)"
  by (induction rows) (auto simp: replace_row_def)

lemma snapshot_active [simp]: "snapshot (g\<lparr>gt_active := ws\<rparr>) = snapshot g"
  by (simp add: snapshot_def split: option.split)

lemma add_scope_keeps:
  assumes "gate_inv g"
    and "\<And>s. snapshot g = Inr s \<Longrightarrow> frozen (ms_state s) \<Longrightarrow> scope_frozen_ok (ms_maintenance_epoch s) w"
  shows "gate_inv (add_scope w g)"
proof -
  have "snapshot (add_scope w g) = snapshot g" by (simp add: add_scope_def)
  moreover have "set (gt_active (add_scope w g)) \<subseteq> insert w (set (gt_active g))"
    using upsert_replace_subset by (simp add: add_scope_def)
  moreover have "gt_store (add_scope w g) = gt_store g" by (simp add: add_scope_def)
  ultimately show ?thesis using assms unfolding gate_inv_def by (metis (lifting) insert_iff subsetD)
qed

lemma drop_scope_keeps: "gate_inv g \<Longrightarrow> gate_inv (drop_scope w g)"
  by (auto simp: gate_inv_def drop_scope_def)

lemma work_keeps:
  assumes "work g ctx u wid oid kd ep cont = Inr (g', w)" "gate_inv g"
  shows "gate_inv g'"
proof -
  obtain state where s: "snapshot g = Inr state"
    "admit_work state (current_scope g ctx) ep cont = Inr ()" "g' = add_scope w g"
    "ws_maintenance_epoch w = ep" "ws_maintenance w \<longleftrightarrow> ep \<noteq> None"
    using assms(1) by (auto simp: work_def Let_def result_simps)
  have "scope_frozen_ok (ms_maintenance_epoch state) w" if "frozen (ms_state state)"
    using s(2,4,5) that
    by (auto simp: admit_work_def scope_frozen_ok_def result_simps split: option.splits if_splits)
  then show ?thesis using add_scope_keeps [OF assms(2)] s(1,3) by simp
qed

lemma control_keeps:
  assumes "existing_work_control g u oid = Inr (g', w)" "gate_inv g"
  shows "gate_inv g'"
proof -
  obtain state where s: "snapshot g = Inr state" "ms_state state \<in> {RUNNING, QUIESCING, FAILED}"
    "g' = add_scope w g"
    using assms(1) by (auto simp: existing_work_control_def Let_def result_simps split: if_splits)
  then show ?thesis using add_scope_keeps [OF assms(2)] by auto
qed

lemma database_transaction_keeps:
  assumes "database_transaction g ctx u ro = Inr (g', w)" "gate_inv g"
  shows "gate_inv g'"
  using assms(1) add_scope_keeps [OF assms(2), of w]
  by (auto simp: database_transaction_def Let_def result_simps scope_frozen_ok_def)

subsection \<open>Histories of the gate\<close>

inductive gate_step :: "gate \<Rightarrow> gate \<Rightarrow> bool" where
  enter_work: "work g ctx u wid oid kd ep cont = Inr (g', w) \<Longrightarrow> gate_step g g'"
| enter_control: "existing_work_control g u oid = Inr (g', w) \<Longrightarrow> gate_step g g'"
| enter_transaction: "database_transaction g ctx u ro = Inr (g', w) \<Longrightarrow> gate_step g g'"
| leave_scope: "gate_step g (drop_scope w g)"
| begin_drain: "begin_draining disk now u g epoch = (g', r) \<Longrightarrow> gate_step g g'"
| freeze_home: "freeze disk now g epoch = (g', r) \<Longrightarrow> gate_step g g'"
| restore_home: "begin_restore disk now g epoch = (g', r) \<Longrightarrow> gate_step g g'"
| resume_home: "begin_resuming disk now g epoch = (g', r) \<Longrightarrow> gate_step g g'"
| run_home: "running disk now g epoch = (g', r) \<Longrightarrow> gate_step g g'"
| fail_home: "fail disk now g epoch reason = (g', r) \<Longrightarrow> gate_step g g'"

lemma guarded_keeps:
  "guarded check g nx = (g', r) \<Longrightarrow> gate_inv g \<Longrightarrow> (\<And>h q. nx = (h, q) \<Longrightarrow> gate_inv h) \<Longrightarrow> gate_inv g'"
  by (cases nx) (auto simp: guarded_def split: sum.splits)

lemma fail_keeps: "fail disk now g epoch reason = (g', r) \<Longrightarrow> gate_inv g \<Longrightarrow> gate_inv g'"
  unfolding fail_def
  by (erule guarded_keeps, assumption)
     (auto split: sum.splits if_splits elim: transition_keeps simp: is_epoch_def)

lemma gate_step_keeps: "gate_step g g' \<Longrightarrow> gate_inv g \<Longrightarrow> gate_inv g'"
proof (induction rule: gate_step.induct)
  case (enter_work g ctx u wid oid kd ep cont g' w)
  then show ?case by (rule work_keeps)
next
  case (enter_control g u oid g' w)
  then show ?case by (rule control_keeps)
next
  case (enter_transaction g ctx u ro g' w)
  then show ?case by (rule database_transaction_keeps)
next
  case (leave_scope g w)
  then show ?case by (rule drop_scope_keeps)
next
  case (fail_home disk now g epoch reason g' r)
  then show ?case by (rule fail_keeps)
next
  case (begin_drain disk now u g epoch g' r)
  then show ?case unfolding begin_draining_def
    by (elim guarded_keeps transition_keeps) (simp_all add: is_epoch_def)
next
  case (freeze_home disk now g epoch g' r)
  then show ?case unfolding freeze_def
    by (elim guarded_keeps transition_keeps) (simp_all add: is_epoch_def)
next
  case (restore_home disk now g epoch g' r)
  then show ?case unfolding begin_restore_def
    by (elim guarded_keeps transition_keeps) (simp_all add: is_epoch_def)
next
  case (resume_home disk now g epoch g' r)
  then show ?case unfolding begin_resuming_def
    by (elim guarded_keeps transition_keeps) (simp_all add: is_epoch_def)
next
  case (run_home disk now g epoch g' r)
  then show ?case unfolding running_def
    by (elim guarded_keeps transition_keeps) (simp_all add: is_epoch_def)
qed

lemma initial_gate_inv: "bind_store (new_gate i) (new_store now) = Inr g \<Longrightarrow> gate_inv g"
  by (auto simp: bind_store_def new_gate_def new_store_def initial_snapshot_def gate_inv_def store_inv_def
      snapshot_def store_read_def split: if_splits)

lemma gate_history_inv: "gate_step\<^sup>*\<^sup>* g g' \<Longrightarrow> gate_inv g \<Longrightarrow> gate_inv g'"
  by (induction rule: rtranclp_induct) (auto intro: gate_step_keeps)


text \<open>
  C14. The durable maintenance history is complete and legal: after any history of the gate the store's
  transition rows are numbered 1, 2, \<dots>, one per revision, and form a path of the lifecycle table from
  RUNNING to the stored state.
\<close>

theorem maintenance_history_legal:
  assumes "bind_store (new_gate i) (new_store now) = Inr g0" "gate_step\<^sup>*\<^sup>* g0 g"
    and "gt_store g = Some s"
  shows "map fst (lc_transitions s) = [1..<lc_revision s + 1] \<and>
    history_ok RUNNING 0 (lc_transitions s) (ms_state (lc_snapshot s)) \<and>
    ms_revision (lc_snapshot s) = lc_revision s"
proof -
  have "store_inv s"
    using assms initial_gate_inv gate_history_inv by (metis gate_inv_def)
  then show ?thesis
    using history_ok_revisions [of RUNNING 0 "lc_transitions s" "ms_state (lc_snapshot s)"]
    by (auto simp: store_inv_def simp del: upt_Suc)
qed

end
