(* ===== verification/Json_Text.thy ===== *)
theory Json_Text
  imports Audit_Text
begin

section \<open>Reading JSON text\<close>

text \<open>
  \<^verbatim>\<open>json.loads\<close> as the standard library scans it: white space between tokens, the escapes of a string,
  integers without leading zeros, duplicate keys where the last value wins and the first place is kept, and
  nothing but white space after the value. Text outside the value type of \<open>Audit_Text\<close> (a number with a
  fraction or an exponent, a code point above 255) reads as \<open>None\<close>, like text that is not JSON. The fuel is
  the length of the text: every recursive call follows a character that was read, and the round trip shows
  that it is enough.
\<close>

subsection \<open>The scanner\<close>

definition json_ws :: "char \<Rightarrow> bool" where
  "json_ws c \<longleftrightarrow> of_char c \<in> {32, 9, 10, 13 :: nat}"

definition skip_ws :: "string \<Rightarrow> string" where
  "skip_ws s = dropWhile json_ws s"

definition is_digit :: "char \<Rightarrow> bool" where
  "is_digit c \<longleftrightarrow> 48 \<le> (of_char c :: nat) \<and> (of_char c :: nat) \<le> 57"

definition digit_value :: "char \<Rightarrow> nat" where
  "digit_value c = of_char c - 48"

definition digits_value :: "string \<Rightarrow> nat" where
  "digits_value ds = foldl (\<lambda>n c. 10 * n + digit_value c) 0 ds"

definition hex_value :: "char \<Rightarrow> nat option" where
  "hex_value c = (let n = (of_char c :: nat) in
     if 48 \<le> n \<and> n \<le> 57 then Some (n - 48)
     else if 97 \<le> n \<and> n \<le> 102 then Some (n - 87)
     else if 65 \<le> n \<and> n \<le> 70 then Some (n - 55)
     else None)"

definition hex4 :: "char \<Rightarrow> char \<Rightarrow> char \<Rightarrow> char \<Rightarrow> nat option" where
  "hex4 a b c d = (case (hex_value a, hex_value b, hex_value c, hex_value d) of
     (Some i, Some j, Some k, Some l) \<Rightarrow> Some (((i * 16 + j) * 16 + k) * 16 + l)
   | _ \<Rightarrow> None)"

definition escaped_char :: "char \<Rightarrow> char option" where
  "escaped_char c =
     (if of_char c \<in> {34, 92, 47 :: nat} then Some c
      else if c = CHR ''n'' then Some (char_of (10::nat))
      else if c = CHR ''r'' then Some (char_of (13::nat))
      else if c = CHR ''t'' then Some (char_of (9::nat))
      else if c = CHR ''f'' then Some (char_of (12::nat))
      else if c = CHR ''b'' then Some (char_of (8::nat))
      else None)"

definition prepend :: "char \<Rightarrow> (string \<times> string) option \<Rightarrow> (string \<times> string) option" where
  "prepend c r = map_option (\<lambda>(t, rest). (c # t, rest)) r"

text \<open>A string after its opening quote, and the text behind the closing one.\<close>

fun scan_string :: "string \<Rightarrow> (string \<times> string) option" where
  "scan_string [] = None"
| "scan_string (c # s) =
     (if of_char c = (34::nat) then Some ([], s)
      else if of_char c = (92::nat) then
        (case s of
           [] \<Rightarrow> None
         | e # s1 \<Rightarrow>
             if e = CHR ''u'' then
               (case s1 of
                  x1 # x2 # x3 # x4 # s2 \<Rightarrow>
                    (case hex4 x1 x2 x3 x4 of
                       None \<Rightarrow> None
                     | Some n \<Rightarrow> if n < 256 then prepend (char_of n) (scan_string s2) else None)
                | _ \<Rightarrow> None)
             else (case escaped_char e of None \<Rightarrow> None | Some x \<Rightarrow> prepend x (scan_string s1)))
      else if of_char c < (32::nat) then None
      else prepend c (scan_string s))"

definition float_tail :: "string \<Rightarrow> bool" where
  "float_tail r = (case r of
     [] \<Rightarrow> False
   | c # t \<Rightarrow>
       if c = CHR ''.'' then t \<noteq> [] \<and> is_digit (hd t)
       else if c \<in> set ''eE'' then
         (case t of [] \<Rightarrow> False
          | x # u \<Rightarrow> if x \<in> set ''+-'' then u \<noteq> [] \<and> is_digit (hd u) else is_digit x)
       else False)"

definition scan_digits :: "string \<Rightarrow> (nat \<times> string) option" where
  "scan_digits s =
     (let all = takeWhile is_digit s; ds = (if all \<noteq> [] \<and> hd all = CHR ''0'' then ''0'' else all);
          r = drop (length ds) s
      in if ds = [] \<or> float_tail r then None else Some (digits_value ds, r))"

definition scan_number :: "string \<Rightarrow> (json \<times> string) option" where
  "scan_number s =
     (if s \<noteq> [] \<and> hd s = CHR ''-''
      then map_option (\<lambda>(n, r). (JInt (- int n), r)) (scan_digits (tl s))
      else map_option (\<lambda>(n, r). (JInt (int n), r)) (scan_digits s))"

subsection \<open>Values\<close>

fun parse_value :: "nat \<Rightarrow> string \<Rightarrow> (json \<times> string) option"
  and parse_elements :: "nat \<Rightarrow> json list \<Rightarrow> string \<Rightarrow> (json \<times> string) option"
  and parse_members :: "nat \<Rightarrow> dict \<Rightarrow> string \<Rightarrow> (json \<times> string) option" where
  "parse_value 0 s = None"
| "parse_value (Suc n) s =
     (case s of
        [] \<Rightarrow> None
      | c # t \<Rightarrow>
          if of_char c = (34::nat) then map_option (\<lambda>(x, r). (JStr x, r)) (scan_string t)
          else if c = CHR ''{'' then
            (case skip_ws t of
               [] \<Rightarrow> None
             | e # r \<Rightarrow> if e = CHR ''}'' then Some (JObj [], r) else parse_members n [] (e # r))
          else if c = CHR ''['' then
            (case skip_ws t of
               [] \<Rightarrow> None
             | e # r \<Rightarrow> if e = CHR '']'' then Some (JArr [], r) else parse_elements n [] (e # r))
          else if take 4 s = ''null'' then Some (JNull, drop 4 s)
          else if take 4 s = ''true'' then Some (JBool True, drop 4 s)
          else if take 5 s = ''false'' then Some (JBool False, drop 5 s)
          else scan_number s)"
| "parse_elements 0 xs s = None"
| "parse_elements (Suc n) xs s =
     (case parse_value n s of
        None \<Rightarrow> None
      | Some (v, r) \<Rightarrow>
          (case skip_ws r of
             [] \<Rightarrow> None
           | c # r1 \<Rightarrow>
               if c = CHR '']'' then Some (JArr (xs @ [v]), r1)
               else if c = CHR '','' then parse_elements n (xs @ [v]) (skip_ws r1)
               else None))"
| "parse_members 0 d s = None"
| "parse_members (Suc n) d s =
     (case s of
        [] \<Rightarrow> None
      | q # t \<Rightarrow>
          if of_char q \<noteq> (34::nat) then None
          else
            (case scan_string t of
               None \<Rightarrow> None
             | Some (k, r) \<Rightarrow>
                 (case skip_ws r of
                    [] \<Rightarrow> None
                  | c # r1 \<Rightarrow>
                      if c \<noteq> CHR '':'' then None
                      else
                        (case parse_value n (skip_ws r1) of
                           None \<Rightarrow> None
                         | Some (v, r2) \<Rightarrow>
                             (case skip_ws r2 of
                                [] \<Rightarrow> None
                              | e # r3 \<Rightarrow>
                                  if e = CHR ''}'' then Some (JObj (dict_set k v d), r3)
                                  else if e = CHR '','' then parse_members n (dict_set k v d) (skip_ws r3)
                                  else None)))))"

definition json_parse :: "string \<Rightarrow> json option" where
  "json_parse s =
     (case parse_value (length s) (skip_ws s) of
        None \<Rightarrow> None
      | Some (v, r) \<Rightarrow> if skip_ws r = [] then Some v else None)"

text \<open>The value canonical text stands for: the keys of every object in order.\<close>

fun sort_keys :: "json \<Rightarrow> json" where
  "sort_keys (JObj kvs) = JObj (sort_key fst (map (\<lambda>(k, v). (k, sort_keys v)) kvs))"
| "sort_keys (JArr xs) = JArr (map sort_keys xs)"
| "sort_keys (JStr s) = JStr s"
| "sort_keys JNull = JNull"
| "sort_keys (JBool b) = JBool b"
| "sort_keys (JInt i) = JInt i"

text \<open>A Python dictionary holds a key once, at every depth of the value.\<close>

fun unique_keys :: "json \<Rightarrow> bool" where
  "unique_keys (JObj kvs) \<longleftrightarrow> distinct (map fst kvs) \<and> list_all (\<lambda>(k, v). unique_keys v) kvs"
| "unique_keys (JArr xs) \<longleftrightarrow> list_all unique_keys xs"
| "unique_keys _ \<longleftrightarrow> True"

subsection \<open>Strings\<close>

lemma quote_char: "char_of (34::nat) = CHR 0x22" "char_of (92::nat) = CHR 0x5C"
  by code_simp+

lemma hex_digit_value: "n < 16 \<Longrightarrow> hex_value (hex_digit n) = Some n"
  by (auto simp: hex_value_def hex_digit_def of_char_of Let_def)

lemma hex_value_zero [simp]: "hex_value (CHR ''0'') = Some 0"
  by (simp add: hex_value_def)

lemma scan_escaped: "scan_string (escape_char c @ t) = prepend c (scan_string t)"
proof -
  let ?n = "of_char c :: nat"
  have same: "char_of ?n = c" by simp
  consider "?n \<in> {34, 92, 10, 13, 9, 12, 8}" | "?n < 32" "?n \<notin> {10, 13, 9, 12, 8}" | "32 \<le> ?n" "?n \<notin> {34, 92}"
    by (cases "?n < 32") auto
  then show ?thesis
  proof cases
    case 1
    then have "char_of ?n \<in> char_of ` {34, 92, 10, 13, 9, 12, 8 :: nat}" by (rule imageI)
    then have "c \<in> char_of ` {34, 92, 10, 13, 9, 12, 8 :: nat}" unfolding same .
    then show ?thesis by (auto simp: escape_char_def escaped_char_def quote_char)
  next
    case 2
    have "hex4 (CHR ''0'') (CHR ''0'') (hex_digit (?n div 16)) (hex_digit (?n mod 16)) = Some ?n"
      using 2 by (simp add: hex4_def hex_digit_value)
    then show ?thesis using 2 by (simp add: escape_char_def Let_def)
  next
    case 3
    then have "escape_char c = [c]" by (simp add: escape_char_def Let_def)
    then show ?thesis using 3 by simp
  qed
qed

lemma scan_quoted: "scan_string (concat (map escape_char s) @ char_of (34::nat) # r) = Some (s, r)"
  by (induction s) (simp_all add: scan_escaped prepend_def del: scan_string.simps(2), simp)

subsection \<open>Numbers\<close>

definition ends_value :: "string \<Rightarrow> bool" where
  "ends_value r \<longleftrightarrow> r = [] \<or> hd r \<in> set '',]}''"

lemma ends_value_ws: "ends_value r \<Longrightarrow> skip_ws r = r"
  by (cases r) (auto simp: ends_value_def skip_ws_def json_ws_def)

lemma ends_value_number: "ends_value r \<Longrightarrow> \<not> float_tail r \<and> (r = [] \<or> \<not> is_digit (hd r))"
  by (cases r) (auto simp: ends_value_def float_tail_def is_digit_def)

lemma is_digit_char: "n < 10 \<Longrightarrow> is_digit (char_of (48 + n :: nat)) \<and> digit_value (char_of (48 + n :: nat)) = n"
  by (simp add: is_digit_def digit_value_def of_char_of)

lemma nat_text_digits_value: "digits_value (nat_text n) = n \<and> list_all is_digit (nat_text n)"
proof (induction n rule: nat_text.induct)
  case (1 n)
  show ?case
  proof (cases "n < 10")
    case True
    then show ?thesis using is_digit_char by (subst (1 2) nat_text.simps) (simp add: digits_value_def)
  next
    case False
    have "10 * (n div 10) + n mod 10 = n" by simp
    then show ?thesis
      using 1 [OF False] False is_digit_char [of "n mod 10"]
      by (subst (1 2) nat_text.simps) (simp add: digits_value_def)
  qed
qed

lemma nat_text_head: "nat_text n = d # ds \<Longrightarrow> d = CHR ''0'' \<Longrightarrow> ds = []"
proof (induction n arbitrary: d ds rule: nat_text.induct)
  case (1 n)
  show ?case
  proof (cases "n < 10")
    case True
    then show ?thesis using 1(2) by (subst (asm) nat_text.simps) simp
  next
    case False
    obtain e es where e: "nat_text (n div 10) = e # es"
      by (cases "nat_text (n div 10)") (auto simp: nat_text.simps [of "n div 10"] split: if_splits)
    have "nat_text n = e # es @ [char_of (48 + n mod 10)]"
      using False e by (subst nat_text.simps) simp
    then have "e = CHR ''0''" using 1(2,3) by simp
    then have "es = []" using 1(1) [OF False e] by blast
    then have "n div 10 = 0"
      using e \<open>e = CHR ''0''\<close> nat_text_digits_value [of "n div 10"] by (simp add: digits_value_def digit_value_def)
    then show ?thesis using False by simp
  qed
qed

lemma nat_text_nonempty: "nat_text n \<noteq> []"
  by (subst nat_text.simps) simp

lemma scan_digits_text:
  assumes "ends_value r"
  shows "scan_digits (nat_text n @ r) = Some (n, r)"
proof -
  have r: "\<not> float_tail r" "r = [] \<or> \<not> is_digit (hd r)" using ends_value_number [OF assms] by auto
  have all: "takeWhile is_digit (nat_text n @ r) = nat_text n"
    using nat_text_digits_value [of n] r(2) by (cases r) (auto simp: list_all_iff takeWhile_append2)
  obtain d ds where d: "nat_text n = d # ds" using nat_text_nonempty by (cases "nat_text n") auto
  have "(if hd (nat_text n) = CHR ''0'' then ''0'' else nat_text n) = nat_text n"
    using d nat_text_head [OF d] by simp
  then show ?thesis
    unfolding scan_digits_def all Let_def using r(1) nat_text_digits_value [of n] nat_text_nonempty [of n] by simp
qed

lemma nat_text_starts: "is_digit (hd (nat_text n))"
  using nat_text_digits_value [of n] nat_text_nonempty [of n] by (cases "nat_text n") auto

lemma scan_int_text:
  assumes "ends_value r"
  shows "scan_number (int_text i @ r) = Some (JInt i, r)"
proof (cases "i < 0")
  case True
  then show ?thesis using scan_digits_text [OF assms] by (simp add: scan_number_def int_text_def)
next
  case False
  have "hd (nat_text (nat i)) \<noteq> CHR ''-''" using nat_text_starts [of "nat i"] by (auto simp: is_digit_def)
  then show ?thesis
    using False scan_digits_text [OF assms] nat_text_nonempty [of "nat i"]
    by (simp add: scan_number_def int_text_def)
qed

subsection \<open>The first character of a printed value\<close>

lemma int_text_head:
  obtains c t where "int_text i = c # t" "is_digit c \<or> c = CHR ''-''"
proof (cases "i < 0")
  case True
  then show ?thesis using that by (simp add: int_text_def)
next
  case False
  obtain c t where "nat_text (nat i) = c # t" using nat_text_nonempty by (cases "nat_text (nat i)") auto
  then show ?thesis using that [of c t] nat_text_starts [of "nat i"] False by (simp add: int_text_def)
qed

lemma parse_int:
  assumes "ends_value r"
  shows "parse_value (Suc n) (int_text i @ r) = Some (JInt i, r)"
proof (rule int_text_head [of i])
  fix c t
  assume t: "int_text i = c # t" and c: "is_digit c \<or> c = CHR ''-''"
  from c have "of_char c \<noteq> (34::nat)" "c \<noteq> CHR ''{''" "c \<noteq> CHR ''[''" "c \<noteq> CHR ''n''" "c \<noteq> CHR ''t''" "c \<noteq> CHR ''f''"
    by (auto simp: is_digit_def)
  then show ?thesis using scan_int_text [OF assms, of i] unfolding t by simp
qed

lemma canonical_head:
  obtains c t where "canonical_json v = c # t" "\<not> json_ws c" "c \<noteq> CHR '']''" "c \<noteq> CHR ''}''"
proof (cases v)
  case (JInt i)
  show ?thesis
  proof (rule int_text_head [of i])
    fix c t
    assume t: "int_text i = c # t" and c: "is_digit c \<or> c = CHR ''-''"
    from c have "\<not> json_ws c" "c \<noteq> CHR '']''" "c \<noteq> CHR ''}''" by (auto simp: is_digit_def json_ws_def)
    then show ?thesis using that [of c t] JInt t by simp
  qed
next
  case (JBool b)
  then show ?thesis using that by (cases b) (simp_all add: json_ws_def)
qed (use that in \<open>simp_all add: json_ws_def quote_text_def quote_char\<close>)

lemma skip_ws_canonical: "skip_ws (canonical_json v @ r) = canonical_json v @ r"
  by (rule canonical_head [of v]) (simp add: skip_ws_def)

lemma skip_ws_quote [simp]: "skip_ws (quote_text k @ r) = quote_text k @ r"
  by (simp add: quote_text_def skip_ws_def json_ws_def)

lemma skip_ws_token [simp]:
  "skip_ws (CHR '','' # r) = CHR '','' # r" "skip_ws (CHR '']'' # r) = CHR '']'' # r"
  "skip_ws (CHR ''}'' # r) = CHR ''}'' # r" "skip_ws (CHR '':'' # r) = CHR '':'' # r"
  by (simp_all add: skip_ws_def json_ws_def)

lemma ends_value_token [simp]:
  "ends_value []" "ends_value (CHR '','' # r)" "ends_value (CHR '']'' # r)" "ends_value (CHR ''}'' # r)"
  by (simp_all add: ends_value_def)

subsection \<open>Arrays and objects\<close>

text \<open>The value \<open>v\<close>, printed before any text that can follow a value, is read back with fuel for its length.\<close>

definition reads_back :: "json \<Rightarrow> bool" where
  "reads_back v \<longleftrightarrow> (\<forall>n r. length (canonical_json v) \<le> n \<longrightarrow> ends_value r \<longrightarrow>
     parse_value n (canonical_json v @ r) = Some (sort_keys v, r))"

lemma reads_backD:
  "reads_back v \<Longrightarrow> length (canonical_json v) \<le> n \<Longrightarrow> ends_value r \<Longrightarrow>
     parse_value n (canonical_json v @ r) = Some (sort_keys v, r)"
  by (simp add: reads_back_def)

lemma parse_elements_text:
  assumes "xs \<noteq> []" "\<forall>v \<in> set xs. reads_back v" "length (join_text '','' (map canonical_json xs)) < n"
  shows "parse_elements n acc (join_text '','' (map canonical_json xs) @ '']'' @ r)
     = Some (JArr (acc @ map sort_keys xs), r)"
  using assms
proof (induction xs arbitrary: n acc)
  case (Cons v vs)
  then obtain m where n: "n = Suc m" by (cases n) auto
  show ?case
  proof (cases vs)
    case Nil
    then show ?thesis using Cons.prems n reads_backD [of v m "'']'' @ r"] by simp
  next
    case (Cons w ws)
    let ?rest = "join_text '','' (map canonical_json vs) @ '']'' @ r"
    have len: "length (canonical_json v) \<le> m" "length (join_text '','' (map canonical_json vs)) < m"
      using Cons.prems(3) n Cons by auto
    have "parse_value m (canonical_json v @ CHR '','' # ?rest) = Some (sort_keys v, CHR '','' # ?rest)"
      using Cons.prems(2) len(1) by (intro reads_backD) simp_all
    moreover have "skip_ws ?rest = ?rest"
      using Cons skip_ws_canonical [of w] by (cases ws) simp_all
    moreover have "parse_elements m (acc @ [sort_keys v]) ?rest = Some (JArr ((acc @ [sort_keys v]) @ map sort_keys vs), r)"
      using Cons.IH [of m] Cons.prems(2) len(2) Cons by simp
    ultimately show ?thesis using n Cons by simp
  qed
qed simp

definition member_text :: "string \<times> json \<Rightarrow> string" where
  "member_text m = quote_text (fst m) @ '':'' @ canonical_json (snd m)"

lemma parse_one_member:
  assumes "reads_back v" "length (member_text (k, v)) \<le> n" "ends_value (e # r)"
  shows "parse_members (Suc n) d (member_text (k, v) @ e # r) =
    (if e = CHR ''}'' then Some (JObj (dict_set k (sort_keys v) d), r)
     else if e = CHR '','' then parse_members n (dict_set k (sort_keys v) d) (skip_ws r) else None)"
proof -
  have "length (canonical_json v) \<le> n" using assms(2) by (simp add: member_text_def)
  then have v: "parse_value n (canonical_json v @ e # r) = Some (sort_keys v, e # r)"
    using assms(1,3) by (intro reads_backD)
  have k: "scan_string (concat (map escape_char k) @ char_of (34::nat) # CHR '':'' # canonical_json v @ e # r)
      = Some (k, CHR '':'' # canonical_json v @ e # r)"
    by (rule scan_quoted)
  show ?thesis
    using v k ends_value_ws [OF assms(3)] skip_ws_canonical [of v "e # r"]
    by (simp add: member_text_def quote_text_def)
qed

lemma dict_set_new: "k \<notin> fst ` set d \<Longrightarrow> dict_set k v d = d @ [(k, v)]"
  by (induction d) (auto simp: dict_set_def)

lemma parse_members_text:
  assumes "ms \<noteq> []" "\<forall>m \<in> set ms. reads_back (snd m)" "length (join_text '','' (map member_text ms)) < n"
    and "distinct (map fst (acc @ ms))"
  shows "parse_members n acc (join_text '','' (map member_text ms) @ ''}'' @ r)
     = Some (JObj (acc @ map (\<lambda>(k, v). (k, sort_keys v)) ms), r)"
  using assms
proof (induction ms arbitrary: n acc)
  case (Cons m ms)
  obtain k v where m: "m = (k, v)" by (cases m)
  from Cons obtain q where n: "n = Suc q" by (cases n) auto
  have set: "dict_set k x acc = acc @ [(k, x)]" for x
    using Cons.prems(4) m by (intro dict_set_new) auto
  have v: "reads_back v" using Cons.prems(2) m by simp
  show ?case
  proof (cases ms)
    case Nil
    then show ?thesis
      using Cons.prems(3) n m set parse_one_member [OF v, of k q "CHR ''}''" r acc] by simp
  next
    case (Cons w ws)
    let ?rest = "join_text '','' (map member_text ms) @ ''}'' @ r"
    have len: "length (member_text m) \<le> q" "length (join_text '','' (map member_text ms)) < q"
      using Cons.prems(3) n Cons by auto
    have "skip_ws ?rest = ?rest" using Cons by (cases ws) (simp_all add: member_text_def)
    moreover have "parse_members q (acc @ [(k, sort_keys v)]) ?rest
        = Some (JObj ((acc @ [(k, sort_keys v)]) @ map (\<lambda>(k, v). (k, sort_keys v)) ms), r)"
      using Cons.IH [of q "acc @ [(k, sort_keys v)]"] Cons.prems(2,4) len(2) Cons m by simp
    ultimately show ?thesis
      using parse_one_member [OF v, of k q "CHR '',''" ?rest acc] len(1) n m set Cons by simp
  qed
qed simp

subsection \<open>The round trip\<close>

lemma insort_key_map:
  "(\<And>y. fst (f y) = fst y) \<Longrightarrow> insort_key fst (f x) (map f xs) = map f (insort_key fst x xs)"
  by (induction xs) simp_all

lemma sort_key_map:
  assumes "\<And>y. fst (f y) = fst y"
  shows "sort_key fst (map f xs) = map f (sort_key fst xs)"
  by (induction xs) (simp_all add: insort_key_map assms)

lemma canonical_object:
  "canonical_json (JObj kvs) = ''{'' @ join_text '','' (map member_text (sort_key fst kvs)) @ ''}''"
proof -
  have "sort_key fst (map (\<lambda>(k, v). (k, canonical_json v)) kvs)
      = map (\<lambda>(k, v). (k, canonical_json v)) (sort_key fst kvs)"
    by (rule sort_key_map) auto
  then show ?thesis by (simp add: member_text_def [abs_def] case_prod_unfold o_def)
qed

lemma sort_keys_object: "sort_keys (JObj kvs) = JObj (map (\<lambda>(k, v). (k, sort_keys v)) (sort_key fst kvs))"
  by (simp add: sort_key_map case_prod_unfold)

lemma canonical_reads_back: "unique_keys v \<Longrightarrow> reads_back v"
proof (induction v rule: canonical_json.induct)
  case (4 s)
  show ?case
    unfolding reads_back_def
  proof (intro allI impI)
    fix n r
    assume n: "length (canonical_json (JStr s)) \<le> n"
    then obtain m where "n = Suc m" by (cases n) (auto simp: quote_text_def)
    then show "parse_value n (canonical_json (JStr s) @ r) = Some (sort_keys (JStr s), r)"
      by (simp add: quote_text_def scan_quoted)
  qed
next
  case (5 xs)
  then have xs: "\<forall>v \<in> set xs. reads_back v" by (simp add: list_all_iff)
  show ?case
    unfolding reads_back_def
  proof (intro allI impI)
    fix n r
    assume n: "length (canonical_json (JArr xs)) \<le> n"
    then obtain m where m: "n = Suc m" by (cases n) auto
    show "parse_value n (canonical_json (JArr xs) @ r) = Some (sort_keys (JArr xs), r)"
    proof (cases xs)
      case (Cons y ys)
      have e: "parse_elements m [] (join_text '','' (map canonical_json xs) @ '']'' @ r) = Some (JArr (map sort_keys xs), r)"
        using parse_elements_text [of xs m "[]" r] xs n m Cons by simp
      obtain c t where c: "canonical_json y = c # t" "\<not> json_ws c" "c \<noteq> CHR '']''"
        by (rule canonical_head [of y])
      then obtain u where "join_text '','' (map canonical_json xs) = c # u" using Cons by (cases ys) auto
      then show ?thesis using e m c(2,3) by (simp add: skip_ws_def)
    qed (simp add: m)
  qed
next
  case (6 kvs)
  have ms: "\<forall>m \<in> set (sort_key fst kvs). reads_back (snd m)" using 6 by (auto simp: list_all_iff)
  have "mset (map fst (sort_key fst kvs)) = mset (map fst kvs)" by (metis mset_map mset_sort)
  then have dist: "distinct (map fst (sort_key fst kvs))"
    using 6(2) by (metis mset_eq_imp_distinct_iff unique_keys.simps(1))
  show ?case
    unfolding reads_back_def canonical_object sort_keys_object
  proof (intro allI impI)
    fix n r
    let ?ms = "sort_key fst kvs"
    assume n: "length (''{'' @ join_text '','' (map member_text ?ms) @ ''}'') \<le> n"
    then obtain m where m: "n = Suc m" by (cases n) auto
    show "parse_value n ((''{'' @ join_text '','' (map member_text ?ms) @ ''}'') @ r)
        = Some (JObj (map (\<lambda>(k, v). (k, sort_keys v)) ?ms), r)"
    proof (cases ?ms)
      case (Cons y ys)
      have e: "parse_members m [] (join_text '','' (map member_text ?ms) @ ''}'' @ r)
          = Some (JObj (map (\<lambda>(k, v). (k, sort_keys v)) ?ms), r)"
        using parse_members_text [of ?ms m "[]" r] ms dist n m Cons by simp
      obtain t where "join_text '','' (map member_text ?ms) = char_of (34::nat) # t"
        using Cons by (cases ys) (auto simp: member_text_def quote_text_def)
      then show ?thesis using e m by (simp add: skip_ws_def json_ws_def quote_char)
    qed (simp add: m)
  qed
next
  case (3 i)
  show ?case
    unfolding reads_back_def
  proof (intro allI impI)
    fix n r
    assume n: "length (canonical_json (JInt i)) \<le> n" and r: "ends_value r"
    obtain c t where "int_text i = c # t" by (rule int_text_head [of i])
    then obtain m where "n = Suc m" using n by (cases n) auto
    then show "parse_value n (canonical_json (JInt i) @ r) = Some (sort_keys (JInt i), r)"
      using parse_int [OF r] by simp
  qed
qed (auto simp: reads_back_def dest!: Suc_le_D less_imp_Suc_add split: if_splits)

lemma canonical_json_reads:
  assumes "unique_keys v"
  shows "json_parse (canonical_json v) = Some (sort_keys v)"
proof -
  have "parse_value (length (canonical_json v)) (canonical_json v @ []) = Some (sort_keys v, [])"
    using canonical_reads_back [OF assms] by (rule reads_backD) simp_all
  then show ?thesis using skip_ws_canonical [of v "[]"] by (simp add: json_parse_def skip_ws_def)
qed

text \<open>
  C38. Canonical text is read back without loss: parsing what \<^verbatim>\<open>canonical_json\<close> prints gives the value with
  the keys of its objects in order, for every value whose dictionaries hold a key once.
\<close>

theorem canonical_json_round_trip:
  assumes "unique_keys v"
  shows "json_parse (canonical_json v) = Some (sort_keys v)"
  using assms by (rule canonical_json_reads)

lemma sort_keys_fst: "map fst (map (\<lambda>(k, v). (k, sort_keys v)) d) = map fst d"
  by (induction d) auto

lemma canonical_sort_keys: "canonical_json (sort_keys v) = canonical_json v"
proof (induction v rule: sort_keys.induct)
  case (1 kvs)
  let ?f = "\<lambda>(k, v). (k, sort_keys v)"
  have "map member_text (map ?f (sort_key fst kvs)) = map member_text (sort_key fst kvs)"
    using 1 by (auto simp: member_text_def)
  moreover have "sort_key fst (map ?f (sort_key fst kvs)) = map ?f (sort_key fst kvs)"
    by (intro sort_key_id_if_sorted) (simp only: sort_keys_fst sorted_sort_key)
  ultimately show ?case by (simp only: sort_keys_object canonical_object)
next
  case (2 xs)
  then have "map canonical_json (map sort_keys xs) = map canonical_json xs" by simp
  then show ?case by (simp only: sort_keys.simps canonical_json.simps)
qed simp_all

text \<open>
  Canonical text is canonical: two values print the same text exactly when they are the same value up to
  the order of the keys in their objects, so equal hashes of equal texts never confuse two requests.
\<close>

theorem canonical_json_identifies:
  assumes "unique_keys v" "unique_keys w"
  shows "canonical_json v = canonical_json w \<longleftrightarrow> sort_keys v = sort_keys w"
proof
  assume "canonical_json v = canonical_json w"
  then have "parse_value (length (canonical_json v)) (canonical_json v @ []) =
      parse_value (length (canonical_json w)) (canonical_json w @ [])" by simp
  then show "sort_keys v = sort_keys w"
    using reads_backD [OF canonical_reads_back [OF assms(1)] order_refl, of "[]"]
      reads_backD [OF canonical_reads_back [OF assms(2)] order_refl, of "[]"] by simp
next
  assume "sort_keys v = sort_keys w"
  then show "canonical_json v = canonical_json w" using canonical_sort_keys by metis
qed

subsection \<open>Witnesses\<close>

definition sample_value :: json where
  "sample_value = JObj [(''b'', JArr [JInt (- 12), JNull]), (''a'', JStr ''x'')]"

lemma sample_value_unique: "unique_keys sample_value"
  by (simp add: sample_value_def)

theorem canonical_json_round_trip_witness:
  "json_parse (canonical_json sample_value) = Some (JObj [(''a'', JStr ''x''), (''b'', JArr [JInt (- 12), JNull])])"
  using canonical_json_round_trip [OF sample_value_unique] by (simp add: sample_value_def)

theorem canonical_json_identifies_witness:
  "canonical_json (JObj [(''a'', JNull), (''b'', JNull)]) = canonical_json (JObj [(''b'', JNull), (''a'', JNull)])"
  using canonical_json_identifies [of "JObj [(''a'', JNull), (''b'', JNull)]" "JObj [(''b'', JNull), (''a'', JNull)]"]
  by simp

end
