(* ===== verification/Evidence_Roundtrip.thy ===== *)
theory Evidence_Roundtrip
  imports Finalize_Evidence Json_Text "HOL-Library.Sublist"
begin

section \<open>Evidence survives storage\<close>

text \<open>
  \<^verbatim>\<open>FinalizeEvidenceCodec.encode\<close> prints evidence with sorted keys, \<^verbatim>\<open>verify\<close> parses the stored text,
  prints it again and compares the hash. \<open>json_loads\<close> is a parameter of the controller because the codec reads
  with pydantic's own parser; the properties take it to be \<open>json_parse\<close>, the standard grammar. The round trip holds because the validators read a dictionary by key and never by position.
\<close>

subsection \<open>Dictionaries are read by key\<close>

lemma map_of_sort_key:
  assumes "distinct (map fst d)"
  shows "map_of (sort_key fst d) = map_of d"
proof (rule map_of_inject_set [THEN iffD2])
  show "set (sort_key fst d) = set d" by simp
  show "distinct (map fst d)" by (rule assms)
  have "mset (map fst (sort_key fst d)) = mset (map fst d)" by (metis mset_map mset_sort)
  then show "distinct (map fst (sort_key fst d))" using assms by (metis mset_eq_imp_distinct_iff)
qed

definition same_dict :: "dict \<Rightarrow> dict \<Rightarrow> bool" where
  "same_dict d e \<longleftrightarrow> map_of d = map_of e \<and> fst ` set d = fst ` set e"

lemma same_dict_sort: "distinct (map fst d) \<Longrightarrow> same_dict (sort_key fst d) d"
  by (simp add: same_dict_def map_of_sort_key)

lemma only_keys_set: "only_keys ks d \<longleftrightarrow> fst ` set d \<subseteq> set ks"
  by (auto simp: only_keys_def list_all_iff)

lemma same_dict_reads:
  assumes "same_dict d e"
  shows "only_keys ks d = only_keys ks e" "get_text d k = get_text e k" "get_pos d k = get_pos e k"
    "get_opt_text d k = get_opt_text e k" "get_opt_hash d k = get_opt_hash e k"
    "get_opt_count d k = get_opt_count e k" "get_segments d = get_segments e"
    "protocol_ok d = protocol_ok e" "map_of d = map_of e"
  using assms
  by (simp_all add: same_dict_def only_keys_set get_text_def get_pos_def get_opt_text_def
      get_opt_hash_def get_opt_count_def get_segments_def protocol_ok_def)

lemma same_dict_parse:
  assumes "same_dict d e"
  shows "references_of_json (JObj d) = references_of_json (JObj e)"
    "evidence_of_json (JObj d) = evidence_of_json (JObj e)"
  by (simp_all add: references_of_json_def verified_of_dict_def not_applicable_of_dict_def
      same_dict_reads [OF assms])

subsection \<open>References\<close>

lemma map_of_opt_field [simp]: "map_of (opt_field j v) k = (if k = j then map_option JStr v else None)"
  by (cases v) auto

lemma fst_opt_field: "fst ` set (opt_field j v) \<subseteq> {j}"
  by (cases v) auto

lemma text_list_JStr [simp]: "text_list (map JStr xs) = Some xs"
  by (induction xs) auto

definition count_field :: "nat option \<Rightarrow> dict" where
  "count_field c = (case c of None \<Rightarrow> [] | Some n \<Rightarrow> [(''record_count'', JInt (int n))])"

lemma map_of_count_field [simp]:
  "map_of (count_field c) k = (if k = ''record_count'' then map_option (JInt \<circ> int) c else None)"
  by (cases c) (auto simp: count_field_def)

definition reference_dict :: "FinalizeEvidenceReferences \<Rightarrow> dict" where
  "reference_dict r =
     [(''segments'', JArr (map JStr (fr_segments r)))] @
     opt_field ''first_record_id'' (fr_first_record_id r) @
     opt_field ''last_record_id'' (fr_last_record_id r) @
     opt_field ''final_record_id'' (fr_final_record_id r) @
     count_field (fr_record_count r) @
     opt_field ''memory_attempt_id'' (fr_memory_attempt_id r) @
     opt_field ''memory_result_hash'' (fr_memory_result_hash r) @
     opt_field ''session_index_attempt_id'' (fr_session_index_attempt_id r) @
     opt_field ''session_index_result_hash'' (fr_session_index_result_hash r) @
     opt_field ''receipt_id'' (fr_receipt_id r) @
     opt_field ''inbox_item_id'' (fr_inbox_item_id r)"

lemma references_json_dict: "references_json r = JObj (reference_dict r)"
  by (simp add: references_json_def reference_dict_def count_field_def)

lemma subseq_field:
  "subseq (map fst (opt_field j v)) [j]" "subseq (map fst (count_field c)) [''record_count'']"
  by (cases v; simp) (cases c; simp add: count_field_def)

lemma reference_keys_subseq: "subseq (map fst (reference_dict r)) reference_keys"
proof -
  have keys: "reference_keys = [''segments''] @ [''first_record_id''] @ [''last_record_id''] @
     [''final_record_id''] @ [''record_count''] @ [''memory_attempt_id''] @ [''memory_result_hash''] @
     [''session_index_attempt_id''] @ [''session_index_result_hash''] @ [''receipt_id''] @ [''inbox_item_id'']"
    by (simp add: reference_keys_def)
  show ?thesis
    unfolding keys reference_dict_def map_append
    by (intro list_emb_append_mono subseq_field) simp
qed

lemma reference_keys_distinct: "distinct (map fst (reference_dict r))"
proof -
  have "distinct reference_keys" by (simp add: reference_keys_def)
  then show ?thesis
    using reference_keys_subseq [of r] by (metis distinct_nthsI subseq_conv_nths)
qed

lemma reference_only_keys: "only_keys reference_keys (reference_dict r)"
  using set_nths_subset reference_keys_subseq [of r]
  by (fastforce simp: only_keys_set subseq_conv_nths simp flip: set_map)

lemma references_round_trip:
  assumes "valid_references r"
  shows "references_of_json (JObj (reference_dict r)) = Some r"
proof -
  have m: "map_of (reference_dict r) k =
     (if k = ''segments'' then Some (JArr (map JStr (fr_segments r)))
      else if k = ''first_record_id'' then map_option JStr (fr_first_record_id r)
      else if k = ''last_record_id'' then map_option JStr (fr_last_record_id r)
      else if k = ''final_record_id'' then map_option JStr (fr_final_record_id r)
      else if k = ''record_count'' then map_option (JInt \<circ> int) (fr_record_count r)
      else if k = ''memory_attempt_id'' then map_option JStr (fr_memory_attempt_id r)
      else if k = ''memory_result_hash'' then map_option JStr (fr_memory_result_hash r)
      else if k = ''session_index_attempt_id'' then map_option JStr (fr_session_index_attempt_id r)
      else if k = ''session_index_result_hash'' then map_option JStr (fr_session_index_result_hash r)
      else if k = ''receipt_id'' then map_option JStr (fr_receipt_id r)
      else if k = ''inbox_item_id'' then map_option JStr (fr_inbox_item_id r) else None)" for k
    unfolding reference_dict_def by (simp add: map_add_def split: option.split)
  have optional: "get_opt_text (reference_dict r) k = Some v"
    if "map_of (reference_dict r) k = map_option JStr v" for k v
    using that by (cases v) (simp_all add: get_opt_text_def)
  have count: "get_opt_count (reference_dict r) ''record_count'' = Some (fr_record_count r)"
    by (cases "fr_record_count r") (simp_all add: get_opt_count_def m)
  have seg: "get_segments (reference_dict r) = Some (fr_segments r)"
    by (simp add: get_segments_def m)
  note T = optional [OF m [THEN trans]]
  show ?thesis
    using assms
    by (simp add: references_of_json_def reference_only_keys seg count get_opt_hash_def valid_references_def
        T)
qed

subsection \<open>Evidence\<close>

lemma sort_keys_references: "\<exists>d. sort_keys (references_json r) = JObj d \<and> same_dict d (reference_dict r)"
proof -
  have leaf: "map (\<lambda>(k, v). (k, sort_keys v)) (opt_field j x) = opt_field j x"
    "map (\<lambda>(k, v). (k, sort_keys v)) (count_field c) = count_field c" for j x c
    by (cases x; simp) (cases c; simp add: count_field_def)
  have "map (\<lambda>(k, v). (k, sort_keys v)) (reference_dict r) = reference_dict r"
    unfolding reference_dict_def map_append leaf by simp
  then show ?thesis
    using same_dict_sort [OF reference_keys_distinct [of r]] by (simp add: references_json_dict)
qed

lemma step_of_value_inverse [simp]: "step_of_value (finalize_step_value s) = Some s"
  by (cases s) (simp_all add: step_of_value_def enum_FinalizeStep_def)

lemma contract_of_value_inverse [simp]: "contract_of_value (persistence_contract_value c) = Some c"
  by (cases c) (simp_all add: contract_of_value_def)

lemma value_nonempty [simp]: "finalize_step_value s \<noteq> []" "persistence_contract_value c \<noteq> []"
  by (cases s; simp) (cases c; simp)

definition verified_dict :: "VerifiedArtifactEvidence \<Rightarrow> json \<Rightarrow> dict" where
  "verified_dict v rj = [
     (''kind'', JStr ''verified''), (''protocol_version'', JInt 2),
     (''step'', JStr (finalize_step_value (ve_step v))), (''run_id'', JStr (ve_run_id v)),
     (''generation'', JInt (int (ve_generation v))), (''operation_id'', JStr (ve_operation_id v)),
     (''attempt_id'', JStr (ve_attempt_id v)), (''artifact_kind'', JStr (ve_artifact_kind v)),
     (''artifact_id'', JStr (ve_artifact_id v)), (''artifact_hash'', JStr (ve_artifact_hash v)),
     (''verification_method'', JStr (ve_verification_method v)), (''references'', rj)]"

lemma verified_dict_reads:
  "map_of (verified_dict v rj) ''kind'' = Some (JStr ''verified'')"
  "map_of (verified_dict v rj) ''protocol_version'' = Some (JInt 2)"
  "map_of (verified_dict v rj) ''step'' = Some (JStr (finalize_step_value (ve_step v)))"
  "map_of (verified_dict v rj) ''run_id'' = Some (JStr (ve_run_id v))"
  "map_of (verified_dict v rj) ''generation'' = Some (JInt (int (ve_generation v)))"
  "map_of (verified_dict v rj) ''operation_id'' = Some (JStr (ve_operation_id v))"
  "map_of (verified_dict v rj) ''attempt_id'' = Some (JStr (ve_attempt_id v))"
  "map_of (verified_dict v rj) ''artifact_kind'' = Some (JStr (ve_artifact_kind v))"
  "map_of (verified_dict v rj) ''artifact_id'' = Some (JStr (ve_artifact_id v))"
  "map_of (verified_dict v rj) ''artifact_hash'' = Some (JStr (ve_artifact_hash v))"
  "map_of (verified_dict v rj) ''verification_method'' = Some (JStr (ve_verification_method v))"
  "map_of (verified_dict v rj) ''references'' = Some rj"
  by (simp_all add: verified_dict_def)

lemma text_read: "map_of d k = Some (JStr s) \<Longrightarrow> s \<noteq> [] \<Longrightarrow> get_text d k = Some s"
  by (simp add: get_text_def)

lemma pos_read: "map_of d k = Some (JInt (int n)) \<Longrightarrow> 1 \<le> n \<Longrightarrow> get_pos d k = Some n"
  by (simp add: get_pos_def)

lemma sha256_hex_nonempty: "is_sha256_hex s \<Longrightarrow> s \<noteq> []"
  unfolding is_sha256_hex_def by (elim conjE) (metis list.size(3) zero_neq_numeral)

lemma verified_read:
  assumes "only_keys [''kind'', ''protocol_version'', ''step'', ''run_id'', ''generation'',
      ''operation_id'', ''attempt_id'', ''artifact_kind'', ''artifact_id'', ''artifact_hash'',
      ''verification_method'', ''references''] d" "protocol_ok d"
    "get_text d ''step'' = Some (finalize_step_value (ve_step v))" "get_text d ''run_id'' = Some (ve_run_id v)"
    "get_pos d ''generation'' = Some (ve_generation v)" "get_text d ''operation_id'' = Some (ve_operation_id v)"
    "get_text d ''attempt_id'' = Some (ve_attempt_id v)" "get_text d ''artifact_kind'' = Some (ve_artifact_kind v)"
    "get_text d ''artifact_id'' = Some (ve_artifact_id v)"
    "get_text d ''artifact_hash'' = Some (ve_artifact_hash v)"
    "get_text d ''verification_method'' = Some (ve_verification_method v)"
    "map_of d ''references'' = Some rj" "references_of_json rj = Some (ve_references v)"
    "is_sha256_hex (ve_artifact_hash v)"
  shows "verified_of_dict d = Some (Verified v)"
  by (simp add: verified_of_dict_def assms)

lemma verified_round_trip:
  assumes "valid_evidence (Verified v)" "references_of_json rj = Some (ve_references v)"
  shows "evidence_of_json (JObj (verified_dict v rj)) = Some (Verified v)"
proof -
  note R = verified_dict_reads [of v rj]
  have only: "only_keys [''kind'', ''protocol_version'', ''step'', ''run_id'', ''generation'',
      ''operation_id'', ''attempt_id'', ''artifact_kind'', ''artifact_id'', ''artifact_hash'',
      ''verification_method'', ''references''] (verified_dict v rj)"
    by (simp add: only_keys_def verified_dict_def)
  have hash: "is_sha256_hex (ve_artifact_hash v)" "ve_artifact_hash v \<noteq> []"
    using assms(1) by (simp_all add: sha256_hex_nonempty)
  have proto: "protocol_ok (verified_dict v rj)" by (simp add: protocol_ok_def R(2))
  have ok: "ve_run_id v \<noteq> []" "1 \<le> ve_generation v" "ve_operation_id v \<noteq> []" "ve_attempt_id v \<noteq> []"
    "ve_artifact_kind v \<noteq> []" "ve_artifact_id v \<noteq> []" "ve_verification_method v \<noteq> []"
    using assms(1) by simp_all
  note T = text_read [OF R(3) value_nonempty(1)] text_read [OF R(4) ok(1)] pos_read [OF R(5) ok(2)]
    text_read [OF R(6) ok(3)] text_read [OF R(7) ok(4)] text_read [OF R(8) ok(5)] text_read [OF R(9) ok(6)]
    text_read [OF R(10) hash(2)] text_read [OF R(11) ok(7)]
  have "verified_of_dict (verified_dict v rj) = Some (Verified v)"
    by (rule verified_read [OF only proto T R(12) assms(2) hash(1)])
  then show ?thesis by (simp add: R(1))
qed

definition not_applicable_dict :: "NotApplicableEvidence \<Rightarrow> dict" where
  "not_applicable_dict n = [
     (''kind'', JStr ''not_applicable''), (''protocol_version'', JInt 2),
     (''step'', JStr (finalize_step_value (ne_step n))), (''run_id'', JStr (ne_run_id n)),
     (''generation'', JInt (int (ne_generation n))), (''operation_id'', JStr (ne_operation_id n)),
     (''attempt_id'', JStr (ne_attempt_id n)), (''workload_kind'', JStr (ne_workload_kind n)),
     (''persistence_contract'', JStr (persistence_contract_value (ne_persistence_contract n))),
     (''policy_reason'', JStr (ne_policy_reason n))]"

lemma not_applicable_round_trip:
  "valid_evidence (NotApplicable n) \<Longrightarrow>
    evidence_of_json (JObj (not_applicable_dict n)) = Some (NotApplicable n)"
  by (simp add: not_applicable_dict_def not_applicable_of_dict_def only_keys_def protocol_ok_def
      get_text_def get_pos_def)

lemma sorted_dict_parse:
  "distinct (map fst d) \<Longrightarrow> evidence_of_json (JObj (sort_key fst d)) = evidence_of_json (JObj d)"
  by (rule same_dict_parse(2) [OF same_dict_sort])

lemma evidence_keys_distinct: "distinct (map fst (verified_dict v rj))" "distinct (map fst (not_applicable_dict n))"
  by (simp_all add: verified_dict_def not_applicable_dict_def)

lemma sort_keys_verified:
  "sort_keys (evidence_json (Verified v)) =
     JObj (sort_key fst (verified_dict v (sort_keys (references_json (ve_references v)))))"
  unfolding evidence_json.simps sort_keys.simps verified_dict_def list.map prod.case by (rule refl)

lemma sort_keys_not_applicable:
  "sort_keys (evidence_json (NotApplicable n)) = JObj (sort_key fst (not_applicable_dict n))"
  unfolding evidence_json.simps sort_keys.simps not_applicable_dict_def list.map prod.case by (rule refl)

lemma evidence_sorted_round_trip:
  assumes "valid_evidence e"
  shows "evidence_of_json (sort_keys (evidence_json e)) = Some e"
proof (cases e)
  case (Verified v)
  obtain d where d: "sort_keys (references_json (ve_references v)) = JObj d"
    "same_dict d (reference_dict (ve_references v))"
    using sort_keys_references by blast
  have "references_of_json (JObj d) = Some (ve_references v)"
    using same_dict_parse(1) [OF d(2)] references_round_trip assms Verified by simp
  then show ?thesis
    unfolding Verified sort_keys_verified d(1) sorted_dict_parse [OF evidence_keys_distinct(1)]
    by (rule verified_round_trip [OF assms [unfolded Verified]])
next
  case (NotApplicable n)
  show ?thesis
    unfolding NotApplicable sort_keys_not_applicable sorted_dict_parse [OF evidence_keys_distinct(2)]
    by (rule not_applicable_round_trip [OF assms [unfolded NotApplicable]])
qed

lemma evidence_unique_keys: "unique_keys (evidence_json e)"
proof (cases e)
  case (Verified v)
  have flat: "list_all (\<lambda>(k, v). unique_keys v) (opt_field j x)"
    "list_all (\<lambda>(k, v). unique_keys v) (count_field c)" for j x c
    by (cases x; simp) (cases c; simp add: count_field_def)
  have "list_all (\<lambda>(k, v). unique_keys v) (reference_dict r)" for r
    by (simp add: reference_dict_def flat list_all_iff [of unique_keys])
  then have "unique_keys (references_json (ve_references v))"
    using reference_keys_distinct [of "ve_references v"] by (simp add: references_json_dict)
  then show ?thesis by (simp add: Verified)
qed simp

lemma evidence_decoded:
  assumes "valid_evidence e"
    and "json_loads E = json_parse"
  shows "decode E (canonical_json (evidence_json e)) = Inr e"
  using evidence_sorted_round_trip [OF assms(1)] canonical_json_reads [OF evidence_unique_keys] assms(2)
  by (simp add: decode_def)

lemma evidence_encoded:
  assumes "valid_evidence e" "sanitize (evidence_json e) = evidence_json e"
    and "json_loads E = json_parse"
  shows "encode E e = Inr \<lparr>ee_value = e, ee_serialized = canonical_json (evidence_json e),
      ee_result_hash = sha256 E (canonical_json (evidence_json e))\<rparr>"
  using assms(1) evidence_decoded [OF assms(1,3)] by (simp add: encode_def assms(2) Let_def)

lemma evidence_verified:
  assumes "valid_evidence e" "sanitize (evidence_json e) = evidence_json e"
    and "json_loads E = json_parse"
  shows "verify E (canonical_json (evidence_json e)) h =
    (if h = sha256 E (canonical_json (evidence_json e)) then Inr e
     else Inl (ValueError ''Finalize Evidence result_hash mismatch''))"
  using evidence_decoded [OF assms(1,3)] evidence_encoded [OF assms] by (simp add: verify_def)


text \<open>
  A stored result whose hash was tampered with is refused: verification succeeds only for the hash of
  the canonical text.
\<close>

theorem tampered_evidence_refused:
  assumes "valid_evidence e" "sanitize (evidence_json e) = evidence_json e"
    and "json_loads E = json_parse"
    and "h \<noteq> sha256 E (canonical_json (evidence_json e))"
  shows "verify E (canonical_json (evidence_json e)) h
    = Inl (ValueError ''Finalize Evidence result_hash mismatch'')"
  using evidence_verified [OF assms(1-3)] assms(4) by simp

end
