(* ===== verification/Control_Laws.thy ===== *)
theory Control_Laws
  imports Controller_Runs
begin

section \<open>Laws of the single components\<close>

text \<open>
  Liveness of the transition tables, the reduction of attempts, the scheduler's predicate, the sanitizer, the
  finalize policy and the identities of its steps, and what the controller promises for checkpoints and
  under a frozen home.
\<close>

subsection \<open>State machines\<close>

text \<open>
  No run is stuck: from every task state a terminal one is reachable along the table, from every execution
  state FINISHED is, and exactly the terminal states and FINISHED have no successor.
\<close>

theorem every_state_can_terminate:
  "(\<exists>t. outer_step\<^sup>*\<^sup>* s t \<and> t \<in> set TERMINAL_STATES) \<and> (OUTER_TRANSITIONS s = [] \<longleftrightarrow> s \<in> set TERMINAL_STATES) \<and>
   inner_step\<^sup>*\<^sup>* e FINISHED \<and> (INNER_TRANSITIONS e = [] \<longleftrightarrow> e = FINISHED)"
  using outer.reaches_final [of s] outer.stuck_iff_final [of s] inner.reaches_final [of e]
    inner.stuck_iff_final [of e] by blast

subsection \<open>Reduction\<close>

text \<open>
  The state of an operation is a function of the set of its attempts: reducing them in any order gives the
  same aggregate or the same error.
\<close>

theorem reduction_ignores_order:
  assumes "mset xs = mset ys"
  shows "reduce_operation md xs p = reduce_operation md ys p"
  using assms by (rule reduce_operation_mset)

lemma reduce_operation_Inr:
  assumes "reduce_operation md as p = Inr g"
  shows "as \<noteq> []" "numbered (sort_key at_attempt_no as)"
    "aggregate_of_latest (last (sort_key at_attempt_no as)) (length as) p = Inr g"
    "length (filter attempt_active as) \<le> 1" "\<forall>a \<in> set as. attempt_inherits md a"
proof -
  have f: "length (filter attempt_active (sort_key at_attempt_no as)) = length (filter attempt_active as)"
    by (metis mset_filter mset_sort size_mset)
  show "as \<noteq> []" "numbered (sort_key at_attempt_no as)"
    "aggregate_of_latest (last (sort_key at_attempt_no as)) (length as) p = Inr g"
    "length (filter attempt_active as) \<le> 1" "\<forall>a \<in> set as. attempt_inherits md a"
    using assms f by (auto simp: reduce_operation_def Let_def list_all_iff split: if_splits)
qed

text \<open>
  C40. Retries are bounded: an operation that may be retried has used fewer attempts than its policy allows, and
  its next instant lies between the end of the last attempt and that end plus the policy's longest delay.
\<close>

theorem retry_within_policy:
  assumes "reduce_operation md as p = Inr g" "valid_retry_policy p"
    and "ag_status g = OperationStatus.FAILED" "ag_failure_kind g = Some RETRYABLE"
  shows "length as < rp_max_attempts p \<and> ag_latest_attempt_no g = length as \<and>
    (\<exists>c t. at_completed_at (last (sort_key at_attempt_no as)) = Some c \<and> ag_next_retry_at g = Some t \<and>
       c \<le> t \<and> t \<le> c + rp_max_seconds p)"
proof -
  note r = reduce_operation_Inr [OF assms(1)]
  have ne: "sort_key at_attempt_no as \<noteq> []" using r(1) by (metis length_0_conv length_sort)
  have "at_attempt_no (last (sort_key at_attempt_no as)) = length as"
    using last_attempt_no [OF ne r(2)] by simp
  then show ?thesis
    using aggregate_retryable [OF r(3) assms(4,3)] aggregate_latest_no [OF r(3)] retry_delay_bounds [OF assms(2)]
    by (auto simp: add_increasing2)
qed

subsection \<open>Scheduling\<close>

text \<open>
  The scheduler never wakes a run it must not: a runnable run is neither terminal nor waiting for recovery or
  for a person, its fencing token was not revoked, its deadline has not passed unless it is being cancelled,
  while acting its current attempt is not in flight or unknown, and a failed operation is retried only
  automatically and when its retry instant has come.
\<close>

theorem runnable_is_safe:
  assumes "is_runnable st op att now"
  shows "st_task_state st \<notin> set TERMINAL_STATES \<and> \<not> recovery_required st \<and>
    map_option es_state (st_execution st) \<noteq> Some WAITING_HUMAN \<and>
    map_of (st_diagnostics st) ''fencing_token_valid'' \<noteq> Some (JBool False) \<and>
    (\<forall>t. st_deadline_at st = Some t \<and> t \<le> now \<longrightarrow> st_cancellation_requested st) \<and>
    (map_option es_state (st_execution st) = Some ACTING \<longrightarrow>
       (\<exists>a. att = Some a \<and> at_status a \<notin> {OperationStatus.RUNNING, OperationStatus.UNKNOWN})) \<and>
    (\<forall>r. map_option es_state (st_execution st) \<noteq> Some ACTING \<and> op = Some r \<and>
       op_status r = OperationStatus.FAILED \<and> op_failure_kind r = Some RETRYABLE \<longrightarrow>
       rp_automatic (op_retry_policy_snapshot r) \<and> (\<exists>t. op_next_retry_at r = Some t \<and> t \<le> now))"
  using assms unfolding is_runnable_def recovery_required_def
  by (auto split: if_splits option.splits)

subsection \<open>The sanitizer\<close>

lemma sanitize_clean: "\<not> exposes_key (sanitize v)"
proof (induction v rule: sanitize.induct)
  case (1 kvs)
  have "\<not> exposes_key (if sensitive_key k then JStr REDACTED else sanitize x)" if "(k, x) \<in> set kvs" for k x
    using 1 [OF that refl] by simp
  then show ?case by (auto simp: list_ex_iff)
qed (auto simp: list_ex_iff)

text \<open>
  Sanitized values expose no credential: at any depth of the result a key that names a credential maps to
  the redaction marker.
\<close>

theorem sanitize_hides_keys: "\<not> exposes_key (sanitize v)"
  by (rule sanitize_clean)

subsection \<open>Identities of the finalize steps\<close>

lemma digit_inj:
  assumes "char_of (48 + a) = char_of (48 + b)" "a < 10" "b < (10::nat)"
  shows "a = b"
proof -
  have "(of_char (char_of (48 + a) :: char) :: nat) = of_char (char_of (48 + b) :: char)" using assms(1) by simp
  then show ?thesis using assms(2,3) by (simp add: of_char_of)
qed

lemma nat_text_last: "last (nat_text n) = char_of (48 + n mod 10)" "nat_text n \<noteq> []"
  by (subst nat_text.simps, simp add: not_less)+

lemma nat_text_butlast: "butlast (nat_text n) = (if n < 10 then [] else nat_text (n div 10))"
  by (subst nat_text.simps) simp

lemma nat_text_inj: "nat_text n = nat_text m \<Longrightarrow> n = m"
proof (induction n arbitrary: m rule: less_induct)
  case (less n)
  have "char_of (48 + n mod 10) = char_of (48 + m mod 10)"
    using less.prems nat_text_last(1) by metis
  then have mod: "n mod 10 = m mod 10" by (rule digit_inj) simp_all
  have small: "n < 10 \<longleftrightarrow> m < 10"
    using less.prems nat_text_butlast [of n] nat_text_butlast [of m] nat_text_last(2)
    by (metis (full_types))
  show ?case
  proof (cases "n < 10")
    case True
    then show ?thesis using mod small by simp
  next
    case False
    then have "nat_text (n div 10) = nat_text (m div 10)"
      using less.prems nat_text_butlast [of n] nat_text_butlast [of m] small by metis
    then have "n div 10 = m div 10" using False by (intro less.IH) simp_all
    then show ?thesis using mod by (metis mod_div_mult_eq)
  qed
qed

lemma nat_text_digits: "c \<in> set (nat_text n) \<Longrightarrow> c \<noteq> CHR '':''"
proof (induction n rule: nat_text.induct)
  case (1 n)
  have digit: "char_of (48 + k) \<noteq> CHR '':''" if "k < 10" for k :: nat
  proof
    assume "char_of (48 + k) = CHR '':''"
    then have "(of_char (char_of (48 + k) :: char) :: nat) = of_char CHR '':''" by simp
    then show False using that by (simp add: of_char_of)
  qed
  from 1 show ?case
    using digit [of n] digit [of "n mod 10"] by (subst (asm) (2) nat_text.simps) (auto split: if_splits)
qed

lemma split_at_colon:
  assumes "xs @ CHR '':'' # u = ys @ CHR '':'' # v" "CHR '':'' \<notin> set xs" "CHR '':'' \<notin> set ys"
  shows "xs = ys \<and> u = v"
  using assms
proof (induction xs arbitrary: ys)
  case Nil
  then show ?case by (cases ys) auto
next
  case (Cons x xs)
  then show ?case by (cases ys) auto
qed

text \<open>
  The identity of a finalize operation separates generations and steps: two stable keys are equal only for
  the same generation and the same step, so the ledger's unique index gives each step of each generation
  its own operation.
\<close>

theorem finalize_keys_are_unique:
  "finalize_stable_key g s = finalize_stable_key h t \<longleftrightarrow> g = h \<and> s = t"
proof
  assume "finalize_stable_key g s = finalize_stable_key h t"
  then have eq: "nat_text g @ CHR '':'' # finalize_step_value s = nat_text h @ CHR '':'' # finalize_step_value t"
    by (simp add: finalize_stable_key_def)
  have "nat_text g = nat_text h \<and> finalize_step_value s = finalize_step_value t"
    by (rule split_at_colon [OF eq]) (use nat_text_digits in blast)+
  then show "g = h \<and> s = t" using nat_text_inj by (cases s; cases t; simp)
qed simp

text \<open>
  The requirement policy: evidence passes exactly when a step the run needs is verified and a step it does
  not need is marked not applicable for this run's contract and workload. Audit and inbox are always needed,
  memory and session index for the contracts with a session.
\<close>

theorem requirement_policy:
  "validate_requirement st ev = Inr () \<longleftrightarrow>
    (let needed = ev_step ev \<in> {FinalizeStep.AUDIT, FinalizeStep.INBOX} \<or>
           st_persistence_contract st \<in> {CONVERSATION_SESSION, SESSION_BACKED_WORKLOAD}
     in case ev of
          Verified v \<Rightarrow> needed
        | NotApplicable n \<Rightarrow> \<not> needed \<and> ne_persistence_contract n = st_persistence_contract st \<and>
            ne_workload_kind n = workload_kind_value (st_workload_kind st))"
  unfolding validate_requirement_def requirements_def Let_def
  by (cases ev; cases "ev_step ev") simp_all

subsection \<open>Checkpoints\<close>

text \<open>
  C39. A safe checkpoint is safe: it is accepted only when no side effect of the run is prepared, running or
  undetermined, it names the run and the revision it was taken at, a current attempt it names belongs to the
  operation it names, and the last determined attempt it names has finished.
\<close>

theorem checkpoint_is_safe:
  assumes "apply_command C ctx d k x = Inr (d', res)" "cmd_body k = CreateSafeCheckpoint cp"
    and "lookup_row pc_command_id (cmd_command_id k) (processed_commands d) = None"
  shows "st_safe_checkpoint (ar_state res) = Some cp \<and> cp_run_id cp = cmd_run_id k \<and>
    cp_state_revision cp = cmd_expected_revision k \<and>
    (\<forall>r \<in> set (operation_attempts d). ar_run_id r = cmd_run_id k \<longrightarrow> \<not> row_active_effect r) \<and>
    (truthy (cp_current_attempt_id cp) \<longrightarrow>
       (\<exists>a. attempt_in d (the (cp_current_attempt_id cp)) = Inr a \<and>
          cp_current_operation_id cp = Some (at_operation_id a))) \<and>
    (truthy (cp_last_determined_attempt_id cp) \<longrightarrow>
       (\<exists>a. attempt_in d (the (cp_last_determined_attempt_id cp)) = Inr a \<and> finished_status (at_status a)))"
proof -
  obtain st oc where f: "st_run_id st = cmd_run_id k" "check_fence C st k = Inr ()"
    "dispatch C d st k x (cmd_body k) = Inr oc" "ar_state res = committed_state oc x"
    using assms(1,3) by (rule apply_fresh_facts)
  have rev: "st_revision st = cmd_expected_revision k"
    using f(2) by (auto simp: check_fence_def split: if_splits)
  have fin: "finished_status s \<longleftrightarrow> s \<notin> {OperationStatus.PREPARED, OperationStatus.RUNNING, OperationStatus.UNKNOWN}" for s
    by (cases s) (simp_all add: finished_status_def)
  from f(3) have "create_safe_checkpoint d st cp = Inr oc" by (simp add: assms(2))
  then show ?thesis
    using f(1,4) rev
    by (auto simp: create_safe_checkpoint_def result_simps committed_state_def list_ex_iff fin split: if_splits)
qed

subsection \<open>Idempotency keys\<close>

text \<open>
  A reserved idempotency key keeps its run: after a reservation the same key with the same request returns
  the run reserved first, and with another request it is refused, whatever run is proposed.
\<close>

theorem reservation_is_sticky:
  assumes "reserve_idempotency C ctx d key h i cl n ts = Inr (d', i')"
  shows "reserve_idempotency C2 ctx2 d' key h j cl n ts2 = Inr (d', i') \<and>
    (h2 \<noteq> h \<longrightarrow> reserve_idempotency C2 ctx2 d' key h2 j cl n ts2
       = Inl (StateConflictError ''Idempotency-Key used for another request''))"
proof (cases "find_idempotency d cl n key")
  case None
  then have "d' = insert_idempotency d cl n key h i ts" "i' = i"
    using assms by (auto simp: reserve_idempotency_def result_simps)
  then show ?thesis
    using None by (simp add: reserve_idempotency_def find_idempotency_def insert_idempotency_def idempotency_key_of_def)
next
  case (Some r)
  then show ?thesis using assms by (auto simp: reserve_idempotency_def split: if_splits)
qed

subsection \<open>The controller under the write gate\<close>

text \<open>
  C13. A frozen home accepts no command: while the gate is QUIESCED, RESTORING or RESUMING a command is refused
  unless its caller holds maintenance work of the current epoch; once the process is fenced by a failed
  durable write, every command is refused.
\<close>

theorem frozen_home_refuses_commands:
  assumes "ct_write_gate C = Some g" "snapshot g = Inr s"
    and "gt_storage_fault g \<or> ms_state s \<in> {QUIESCED, RESTORING, RESUMING} \<and>
      \<not> (\<exists>w. current_scope g ctx = Some w \<and> ws_maintenance w \<and>
           ws_maintenance_epoch w = Some (ms_maintenance_epoch s))"
  shows "\<exists>m. apply_command C ctx d k x = Inl (MaintenanceBlockedError m)"
  using assms
  by (auto simp: apply_command_def admission_def check_mutation_admission_def check_storage_def raise_if_def
      split: option.splits)

end
