(* ===== verification/Approval_Safety.thy ===== *)
theory Approval_Safety
  imports Controller_Runs
begin

section \<open>Approvals\<close>

text \<open>
  A durable approval is decided once: a person approves or denies it, or it expires, and afterwards no command
  changes it. Only the three approval commands write the table \<^verbatim>\<open>durable_approvals\<close>.
\<close>

subsection \<open>Branches that leave the approvals alone\<close>

definition same_approvals :: "db \<Rightarrow> db \<Rightarrow> bool" where
  "same_approvals d d' \<longleftrightarrow> durable_approvals d' = durable_approvals d"

lemma same_approvals_refl [simp]: "same_approvals d d"
  by (simp add: same_approvals_def)

lemma same_approvals_trans: "same_approvals d d1 \<Longrightarrow> same_approvals d1 d2 \<Longrightarrow> same_approvals d d2"
  by (simp add: same_approvals_def)

definition no_approval :: "db \<Rightarrow> outcome \<Rightarrow> bool" where
  "no_approval d oc \<longleftrightarrow> oc_approval oc = None \<and> same_approvals d (oc_db oc)"

fun approval_command :: "Command \<Rightarrow> bool" where
  "approval_command (CreateApproval _) = True"
| "approval_command (DecideApproval _ _ _ _) = True"
| "approval_command (ExpireApproval _) = True"
| "approval_command _ = False"

lemma insert_same_approvals:
  "insert_finalize_generation d g = Inr d' \<Longrightarrow> same_approvals d d'"
  "insert_decision d r = Inr d' \<Longrightarrow> same_approvals d d'"
  "insert_receipt d rc = Inr d' \<Longrightarrow> same_approvals d d'"
  "set_current_receipt d i j = Inr d' \<Longrightarrow> same_approvals d d'"
  "insert_inbox d b = Inr (d', b') \<Longrightarrow> same_approvals d d'"
  "save_operation d op = Inr d' \<Longrightarrow> same_approvals d d'"
  "save_attempt d a = Inr d' \<Longrightarrow> same_approvals d d'"
  "save_operation_opt d opo = Inr d' \<Longrightarrow> same_approvals d d'"
  "save_attempt_opt d ao = Inr d' \<Longrightarrow> same_approvals d d'"
  by (auto simp: insert_finalize_generation_def insert_decision_def insert_receipt_def set_current_receipt_def
      insert_inbox_def save_operation_def save_attempt_def save_operation_opt_def save_attempt_opt_def Let_def
      same_approvals_def split: if_splits option.splits)

lemma state_branch_approvals:
  "adopt_gateway_epoch C d st e ts = Inr oc \<Longrightarrow> no_approval d oc"
  "transition_command d st tc ts = Inr oc \<Longrightarrow> no_approval d oc"
  "update_state_metadata d st um = Inr oc \<Longrightarrow> no_approval d oc"
  "record_runtime_event d st b ts = Inr oc \<Longrightarrow> no_approval d oc"
  "bind_session d st s = Inr oc \<Longrightarrow> no_approval d oc"
  "upgrade_persistence_contract d st = Inr oc \<Longrightarrow> no_approval d oc"
  "request_cancellation d st r = Inr oc \<Longrightarrow> no_approval d oc"
  "finalize_terminal E d st g r ts = Inr oc \<Longrightarrow> no_approval d oc"
  "create_safe_checkpoint d st cp = Inr oc \<Longrightarrow> no_approval d oc"
  "start_replacement_finalize_generation d st g j ts = Inr oc \<Longrightarrow> no_approval d oc"
  "start_finalize_generation d st g sp ts = Inr oc \<Longrightarrow> no_approval d oc"
  by (auto simp: adopt_gateway_epoch_def transition_command_def update_state_metadata_def record_runtime_event_def
      bind_session_def upgrade_persistence_contract_def request_cancellation_def finalize_terminal_def
      create_safe_checkpoint_def start_replacement_finalize_generation_def start_finalize_generation_def
      result_simps no_approval_def dest: insert_same_approvals
      split: if_splits option.splits)

lemma invalidate_approvals:
  "invalidate_finalize_generation d st cid g r ts = Inr oc \<Longrightarrow> no_approval d oc"
  by (auto simp: invalidate_finalize_generation_def no_approval_def same_approvals_def split: if_splits)

lemma attempt_command_approvals: "attempt_command d st i ts ss u ch = Inr oc \<Longrightarrow> no_approval d oc"
  by (auto simp: branch_simps no_approval_def)

lemma attempt_branch_approvals:
  "start_attempt_command d st i e ts = Inr oc \<Longrightarrow> no_approval d oc"
  "fail_attempt_command d st i kd r ts = Inr oc \<Longrightarrow> no_approval d oc"
  "mark_attempt_unknown_command d st i r ts = Inr oc \<Longrightarrow> no_approval d oc"
  "skip_attempt_command d st i r ts = Inr oc \<Longrightarrow> no_approval d oc"
  "abandon_attempt_command d st i r ts = Inr oc \<Longrightarrow> no_approval d oc"
  "heartbeat_attempt_command d st i b e' ts = Inr oc \<Longrightarrow> no_approval d oc"
  "complete_attempt_command E d st i r h s ts = Inr oc \<Longrightarrow> no_approval d oc"
  "start_operation_command d st i e ts = Inr oc \<Longrightarrow> no_approval d oc"
  "complete_operation_command d st i r h s ts = Inr oc \<Longrightarrow> no_approval d oc"
  "fail_operation_command d st i r kd ts = Inr oc \<Longrightarrow> no_approval d oc"
  "mark_operation_unknown_command d st i r ts = Inr oc \<Longrightarrow> no_approval d oc"
  "heartbeat_operation_command d st i b e' ts = Inr oc \<Longrightarrow> no_approval d oc"
  "abandon_operation_command d st i r ts = Inr oc \<Longrightarrow> no_approval d oc"
  by (auto simp: attempt_branch_defs complete_attempt_command_def abandon_operation_command_def result_simps
      intro: attempt_command_approvals split: if_splits)

lemma operation_branch_approvals:
  "create_operation_command d st co ts = Inr oc \<Longrightarrow> no_approval d oc"
  "begin_attempt_command d st ba ts = Inr oc \<Longrightarrow> no_approval d oc"
  "reconcile_attempt_command E d st i rr ts = Inr oc \<Longrightarrow> no_approval d oc"
  "reconcile_operation_command E d st i rr ts = Inr oc \<Longrightarrow> no_approval d oc"
  by (auto simp: create_operation_command_def begin_attempt_command_def reconcile_attempt_command_def
      reconcile_operation_command_def result_simps no_approval_def)

lemma finalize_branch_approvals:
  "attempt_pair_outcome st (finalize_audit E d st fa ts) = Inr oc \<Longrightarrow> no_approval d oc"
  "attempt_pair_outcome st (finalize_inbox E d st fi ts) = Inr oc \<Longrightarrow> no_approval d oc"
  by (auto simp: branch_simps finalize_audit_def finalize_inbox_def result_simps no_approval_def
      dest!: insert_same_approvals intro: same_approvals_trans)

lemma begin_operation_approvals: "begin_operation_command d st bo ts = Inr oc \<Longrightarrow> no_approval d oc"
  by (auto simp: begin_operation_command_def begin_operation_def Let_def result_simps no_approval_def
      dest!: insert_same_approvals intro: same_approvals_trans split: option.splits if_splits)

lemma recovery_effect_approvals:
  "recovery_effect E d st c x op a = Inr (d', st', op', a') \<Longrightarrow> same_approvals d d'"
  by (cases "rd_action c"; cases op; cases a)
     (auto simp: recovery_effect_def recovery_retry_def Let_def rbind_eq_Inr split: if_splits
        dest!: insert_same_approvals intro: same_approvals_trans)

lemma recovery_approvals:
  "apply_recovery E d st cid c x = Inr (d', st', op', a') \<Longrightarrow> same_approvals d d'"
proof (erule apply_recovery_Inr)
  fix op a d1 st1 d2 d3 row
  assume "recovery_effect E d st c x op a = Inr (d1, st1, op', a')"
    "save_operation_opt d1 op' = Inr d2" "save_attempt_opt d2 a' = Inr d3" "insert_decision d3 row = Inr d'"
  then show ?thesis
    using recovery_effect_approvals insert_same_approvals(2,8,9) by (meson same_approvals_trans)
qed

lemmas branch_approvals =
  state_branch_approvals attempt_branch_approvals operation_branch_approvals begin_operation_approvals
  finalize_branch_approvals invalidate_approvals

lemma dispatch_approvals:
  "dispatch C d st k x c = Inr oc \<Longrightarrow> \<not> approval_command c \<Longrightarrow> no_approval d oc"
proof (cases c)
  case (RecoveryDecision rd)
  then show "dispatch C d st k x c = Inr oc \<Longrightarrow> ?thesis"
    by (auto simp: result_simps no_approval_def dest: recovery_approvals)
qed (simp_all only: dispatch.simps approval_command.simps not_True_eq_False, (erule branch_approvals)+)

subsection \<open>Decided approvals are kept\<close>

definition approval_ids_ok :: "db \<Rightarrow> bool" where
  "approval_ids_ok d \<longleftrightarrow> (\<forall>r \<in> set (durable_approvals d). ap_approval_id (dr_document r) = dr_approval_id r)"

definition decided_kept :: "db \<Rightarrow> db \<Rightarrow> bool" where
  "decided_kept d d' \<longleftrightarrow>
     (\<forall>i r. lookup_row dr_approval_id i (durable_approvals d) = Some r \<longrightarrow>
        ap_status (dr_document r) \<noteq> ApprovalStatus.PENDING \<longrightarrow>
        (\<exists>y. lookup_row dr_approval_id i (durable_approvals d') = Some y \<and> dr_document y = dr_document r))"

lemma decided_kept_trans: "decided_kept d d1 \<Longrightarrow> decided_kept d1 d2 \<Longrightarrow> decided_kept d d2"
  unfolding decided_kept_def by metis

lemma same_approvals_keep:
  assumes "same_approvals d d'"
  shows "decided_kept d d'" "approval_ids_ok d' = approval_ids_ok d"
  using assms by (simp_all add: same_approvals_def decided_kept_def approval_ids_ok_def)

lemma upsert_all:
  assumes "\<forall>x \<in> set rows. P x" "P r" "\<And>x. P x \<Longrightarrow> key x = key r \<Longrightarrow> P (merge x r)"
  shows "\<forall>x \<in> set (upsert_row key merge r rows). P x"
  using assms by (induction rows) auto

lemma save_approval_table:
  assumes "save_approval d ap = Inr d'"
  obtains ts where "durable_approvals d' =
    upsert_row dr_approval_id merge_approval_row (approval_row_of ap ts) (durable_approvals d)"
  using assms by (auto simp: save_approval_def Let_def split: if_splits)

lemma save_approval_ids:
  assumes "save_approval d ap = Inr d'" "approval_ids_ok d"
  shows "approval_ids_ok d'"
proof -
  obtain ts where d': "durable_approvals d' =
      upsert_row dr_approval_id merge_approval_row (approval_row_of ap ts) (durable_approvals d)"
    using assms(1) by (rule save_approval_table)
  show ?thesis
    unfolding approval_ids_ok_def d'
    by (rule upsert_all) (use assms(2) in \<open>simp_all add: approval_ids_ok_def approval_row_of_def merge_approval_row_def\<close>)
qed

text \<open>Saving a document over a decided row keeps the row when it is the same document.\<close>

lemma save_approval_keeps:
  assumes "save_approval d ap = Inr d'"
    and same: "\<And>r. lookup_row dr_approval_id (ap_approval_id ap) (durable_approvals d) = Some r \<Longrightarrow>
      ap_status (dr_document r) \<noteq> ApprovalStatus.PENDING \<Longrightarrow> dr_document r = ap"
  shows "decided_kept d d'"
  unfolding decided_kept_def
proof (intro allI impI)
  fix i r
  assume l: "lookup_row dr_approval_id i (durable_approvals d) = Some r"
    and s: "ap_status (dr_document r) \<noteq> ApprovalStatus.PENDING"
  obtain ts where d': "durable_approvals d' =
      upsert_row dr_approval_id merge_approval_row (approval_row_of ap ts) (durable_approvals d)"
    using assms(1) by (rule save_approval_table)
  have k: "dr_approval_id (approval_row_of ap ts) = ap_approval_id ap" "dr_document (approval_row_of ap ts) = ap"
    by (simp_all add: approval_row_of_def)
  show "\<exists>y. lookup_row dr_approval_id i (durable_approvals d') = Some y \<and> dr_document y = dr_document r"
  proof (cases "i = ap_approval_id ap")
    case True
    then have "lookup_row dr_approval_id i (durable_approvals d') = Some (merge_approval_row r (approval_row_of ap ts))"
      using approvals.lookup_upsert_same [of "approval_row_of ap ts" "durable_approvals d"] l d' k by simp
    then show ?thesis using same [of r] l s True k by (simp add: merge_approval_row_def)
  next
    case False
    then show ?thesis
      using approvals.lookup_upsert_other [of i "approval_row_of ap ts" "durable_approvals d"] l d' k by simp
  qed
qed

lemma insert_approval_keeps:
  assumes "insert_approval d ap ts = Inr d'"
  shows "decided_kept d d'" "approval_ids_ok d \<Longrightarrow> approval_ids_ok d'"
    "\<And>r. lookup_row dr_approval_id (ap_approval_id ap) (durable_approvals d') = Some r \<Longrightarrow> dr_document r = ap"
proof -
  have n: "lookup_row dr_approval_id (ap_approval_id ap) (durable_approvals d) = None"
    and d': "durable_approvals d' = durable_approvals d @ [approval_row_of ap ts]"
    using assms by (auto simp: insert_approval_def split: if_splits)
  have app: "lookup_row dr_approval_id i (xs @ [r]) = (case lookup_row dr_approval_id i xs of
      Some y \<Rightarrow> Some y | None \<Rightarrow> if dr_approval_id r = i then Some r else None)" for i xs r
    by (induction xs) auto
  show "decided_kept d d'" unfolding decided_kept_def d' app by simp
  show "approval_ids_ok d \<Longrightarrow> approval_ids_ok d'"
    by (auto simp: approval_ids_ok_def d' approval_row_of_def)
  show "dr_document r = ap" if "lookup_row dr_approval_id (ap_approval_id ap) (durable_approvals d') = Some r" for r
    using that n unfolding d' app by (auto simp: approval_row_of_def split: if_splits)
qed

text \<open>What a branch offers to save: nothing, or a document that agrees with a decided row of the same id.\<close>

definition offers_decided :: "db \<Rightarrow> outcome \<Rightarrow> bool" where
  "offers_decided d oc \<longleftrightarrow>
     decided_kept d (oc_db oc) \<and> (approval_ids_ok d \<longrightarrow> approval_ids_ok (oc_db oc)) \<and>
     (\<forall>ap r. oc_approval oc = Some ap \<longrightarrow>
        lookup_row dr_approval_id (ap_approval_id ap) (durable_approvals (oc_db oc)) = Some r \<longrightarrow>
        ap_status (dr_document r) \<noteq> ApprovalStatus.PENDING \<longrightarrow> dr_document r = ap)"

lemma no_approval_offers: "no_approval d oc \<Longrightarrow> offers_decided d oc"
  using same_approvals_keep by (auto simp: no_approval_def offers_decided_def)

lemma approval_in_id:
  assumes "approval_in d i = Inr ap" "approval_ids_ok d"
  shows "ap_approval_id ap = i"
    "lookup_row dr_approval_id i (durable_approvals d) = Some r \<Longrightarrow> dr_document r = ap"
  using assms lookup_row_Some_mem [of dr_approval_id i "durable_approvals d"]
  by (auto simp: approval_in_def result_simps approval_ids_ok_def)

lemma decision_document:
  "decide_approval d st i b w r ts = Inr oc \<Longrightarrow>
     \<exists>ap. approval_in d i = Inr ap \<and> oc_db oc = d \<and> map_option ap_approval_id (oc_approval oc) = Some (ap_approval_id ap) \<and>
       (ap_status ap \<noteq> ApprovalStatus.PENDING \<longrightarrow> oc_approval oc = Some ap)"
  "expire_approval d st i ts = Inr oc \<Longrightarrow>
     \<exists>ap. approval_in d i = Inr ap \<and> oc_db oc = d \<and> map_option ap_approval_id (oc_approval oc) = Some (ap_approval_id ap) \<and>
       (ap_status ap \<noteq> ApprovalStatus.PENDING \<longrightarrow> oc_approval oc = Some ap)"
  by (auto simp: decide_approval_def expire_approval_def Let_def result_simps split: if_splits)

lemma decision_offers:
  assumes "approval_in d i = Inr ap \<and> oc_db oc = d \<and> map_option ap_approval_id (oc_approval oc) = Some (ap_approval_id ap) \<and>
       (ap_status ap \<noteq> ApprovalStatus.PENDING \<longrightarrow> oc_approval oc = Some ap)" "approval_ids_ok d"
  shows "offers_decided d oc"
  unfolding offers_decided_def
proof (intro conjI allI impI)
  show "decided_kept d (oc_db oc)" using assms(1) same_approvals_keep(1) [of d d] by simp
  show "approval_ids_ok (oc_db oc)" using assms by simp
  fix ap' r
  assume o: "oc_approval oc = Some ap'"
    and l: "lookup_row dr_approval_id (ap_approval_id ap') (durable_approvals (oc_db oc)) = Some r"
    and s: "ap_status (dr_document r) \<noteq> ApprovalStatus.PENDING"
  have a: "approval_in d i = Inr ap" using assms(1) by blast
  have "ap_approval_id ap' = i" using assms(1) o approval_in_id(1) [OF a assms(2)] by simp
  then have "dr_document r = ap" using l assms(1) approval_in_id(2) [OF a assms(2)] by simp
  then show "dr_document r = ap'" using s o assms(1) by simp
qed

lemma create_offers:
  assumes "create_approval d st ap ts = Inr oc"
  shows "offers_decided d oc"
proof -
  obtain d1 where "insert_approval d ap ts = Inr d1" "oc_db oc = d1" "oc_approval oc = Some ap"
    using assms by (auto simp: create_approval_def result_simps split: if_splits)
  then show ?thesis using insert_approval_keeps by (auto simp: offers_decided_def)
qed

lemma dispatch_offers:
  assumes "dispatch C d st k x c = Inr oc" "approval_ids_ok d"
  shows "offers_decided d oc"
proof (cases "approval_command c")
  case True
  with assms show ?thesis
    by (cases c) (auto dest: create_offers dest!: decision_document intro: decision_offers)
qed (rule no_approval_offers [OF dispatch_approvals [OF assms(1)]])

lemma apply_decided_kept:
  assumes "apply_command C ctx d k x = Inr (d', res)" "approval_ids_ok d"
  shows "decided_kept d d' \<and> approval_ids_ok d'"
proof (cases "lookup_row pc_command_id (cmd_command_id k) (processed_commands d)")
  case (Some r)
  then show ?thesis
    using apply_command_duplicate(1) [OF assms(1) Some] same_approvals_keep [of d d] assms(2) by simp
next
  case None
  obtain st oc where f: "dispatch C d st k x (cmd_body k) = Inr oc" "commit_outcome C st k x oc = Inr (d', res)"
    using assms(1) None by (rule apply_command_fresh)
  obtain d1 d2 d3 where s: "save_operation_opt (oc_db oc) (oc_operation oc) = Inr d1"
    "save_attempt_opt d1 (oc_attempt oc) = Inr d2" "save_approval_opt d2 (oc_approval oc) = Inr d3"
    "durable_approvals d' = durable_approvals d3"
    using f(2) dispatch_frame(1) [OF f(1)] by (rule commit_outcome_Inr)
  note o = dispatch_offers [OF f(1) assms(2), unfolded offers_decided_def]
  have same: "same_approvals (oc_db oc) d2"
    using insert_same_approvals(8) [OF s(1)] insert_same_approvals(9) [OF s(2)] by (rule same_approvals_trans)
  have "decided_kept d2 d3 \<and> approval_ids_ok d3"
  proof (cases "oc_approval oc")
    case None
    then show ?thesis using s(3) o same_approvals_keep [OF same] same_approvals_keep(1) [of d2 d2] assms(2)
      by (simp add: save_approval_opt_def)
  next
    case (Some ap)
    then have sv: "save_approval d2 ap = Inr d3" using s(3) by (simp add: save_approval_opt_def)
    have "approval_ids_ok d2" using o same_approvals_keep(2) [OF same] assms(2) by simp
    moreover have "decided_kept d2 d3"
      by (rule save_approval_keeps [OF sv]) (use o Some same in \<open>simp add: same_approvals_def\<close>)
    ultimately show ?thesis using save_approval_ids [OF sv] by simp
  qed
  moreover have "decided_kept d d2"
    using o same_approvals_keep(1) [OF same] decided_kept_trans by blast
  moreover have "decided_kept d3 d'" "approval_ids_ok d' = approval_ids_ok d3"
    using same_approvals_keep [of d3 d'] s(4) by (simp_all add: same_approvals_def)
  ultimately show ?thesis using decided_kept_trans by blast
qed

subsection \<open>Histories\<close>

lemma create_run_approvals: "create_run C ctx d q x = Inr (d', st, dup) \<Longrightarrow> same_approvals d d'"
  by (auto simp: create_run_def insert_run_def insert_state_def insert_idempotency_def bind_generation_def
      update_run_projection_def created_event_def Let_def result_simps same_approvals_def
      split: if_splits option.splits dest!: write_event_Inr(9))

lemma create_state_approvals: "create_state C ctx d q x = Inr (d', st) \<Longrightarrow> same_approvals d d'"
  by (auto simp: create_state_def insert_state_def update_run_projection_def created_event_def Let_def result_simps
      same_approvals_def split: if_splits option.splits dest!: write_event_Inr(9))

lemma reserve_approvals: "reserve_idempotency C ctx d key h i cl n ts = Inr (d', i') \<Longrightarrow> same_approvals d d'"
  by (auto simp: reserve_idempotency_def insert_idempotency_def result_simps same_approvals_def
      split: if_splits option.splits)

lemma step_decided_kept:
  assumes "step E d d'" "approval_ids_ok d"
  shows "decided_kept d d' \<and> approval_ids_ok d'"
  using assms(1)
proof cases
  case (step_apply C k x ctx res)
  then show ?thesis using apply_decided_kept assms(2) by blast
qed (use assms(2) same_approvals_keep in \<open>blast dest: create_run_approvals create_state_approvals reserve_approvals\<close>)+

lemma reachable_approval_ids: "reachable E d \<Longrightarrow> approval_ids_ok d"
proof (induction rule: reachable.induct)
  case (reachable_init sinks gens)
  then show ?case by (simp add: approval_ids_ok_def empty_db_def)
next
  case (reachable_step d d')
  then show ?case using step_decided_kept by blast
qed

lemma history_decided_kept: "(step E)\<^sup>*\<^sup>* d d' \<Longrightarrow> approval_ids_ok d \<Longrightarrow> decided_kept d d' \<and> approval_ids_ok d'"
proof (induction rule: rtranclp_induct)
  case base
  then show ?case using same_approvals_keep(1) [of d d] by simp
next
  case (step y z)
  then show ?case using step_decided_kept decided_kept_trans by blast
qed

text \<open>
  C11. A decision is final: an approval that was approved, denied or timed out is never changed again. Its
  document is the same in every database that any further history of commands and gateways leads to. The
  hypothesis \<open>approval_ids_ok\<close> holds in every reachable database (\<open>reachable_approval_ids\<close>).
\<close>

theorem decided_approval_is_final:
  assumes "approval_ids_ok d" "(step E)\<^sup>*\<^sup>* d d'"
    and "lookup_row dr_approval_id i (durable_approvals d) = Some r"
    and "ap_status (dr_document r) \<noteq> ApprovalStatus.PENDING"
  shows "\<exists>y. lookup_row dr_approval_id i (durable_approvals d') = Some y \<and> dr_document y = dr_document r"
  using history_decided_kept [OF assms(2,1)] assms(3,4)
  by (simp add: decided_kept_def)

end
