(* ===== verification/Sample.thy ===== *)
theory Sample
  imports Controller_Apply
begin

section \<open>A small concrete gateway\<close>

text \<open>
  A controller, an empty database and a few commands on which the definitions evaluate. They show that
  the hypotheses of the properties are satisfiable: \<open>sample_hash\<close> stands for SHA-256, the instants are
  small numbers.
\<close>

fun nibble :: "char \<Rightarrow> char" where
  "nibble (Char b0 b1 b2 b3 b4 b5 b6 b7) =
     (if b3 \<and> (b1 \<or> b2) then Char (\<not> b0) (b1 = b0) (b2 \<and> (b1 \<or> b0)) False False True True False
      else Char b0 b1 b2 b3 True True False False)"

definition sample_hash :: "string \<Rightarrow> string" where
  "sample_hash s = take 64 (map nibble (rev s) @ replicate 64 (CHR ''0''))"

definition sample_env :: env where
  "sample_env = \<lparr>sha256 = sample_hash, json_loads = (\<lambda>_. None), iso = (\<lambda>_. ''2026-01-01T00:00:00+00:00''),
     iso_utc = (\<lambda>_. ''2026-01-01T00:00:00+00:00'')\<rparr>"

definition sample_controller :: controller where
  "sample_controller = \<lparr>ct_env = sample_env, ct_gateway_epoch = ''g1'', ct_write_gate = None,
     ct_dump_json = cmd_command_id\<rparr>"

definition sample_request :: run_request where
  "sample_request = \<lparr>nr_run_id = ''r1'', nr_workload_kind = CRON, nr_project_id = ''p'',
     nr_client_id = ''c'', nr_task = ''t'', nr_idempotency_key = ''i'',
     nr_request_hash = replicate 64 (CHR ''a''), nr_persistence_contract = None,
     nr_session_id = None, nr_parent_run_id = None, nr_deadline_at = None,
     nr_runtime_generation_id = None, nr_model_profile_id = ''default'',
     nr_reasoning_effort = ''none'', nr_ui_context_json = None\<rparr>"

definition sample_call :: "nat \<Rightarrow> call" where
  "sample_call n = \<lparr>cx_now = of_nat n, cx_event_now = of_nat n, cx_attempt_uuid = ''ua'',
     cx_call_uuid = ''uc''\<rparr>"

definition sample_command :: "string \<Rightarrow> nat \<Rightarrow> Command \<Rightarrow> StateCommand" where
  "sample_command cid n body = \<lparr>cmd_command_id = cid, cmd_event_key = ''primary'',
     cmd_causation_id = None, cmd_correlation_id = None, cmd_run_id = ''r1'',
     cmd_expected_revision = n, cmd_gateway_epoch = ''g1'', cmd_body = body\<rparr>"

definition sample_state :: AgentState where
  "sample_state = new_state sample_controller sample_request 1"

text \<open>A database that holds one run in a given state, and nothing else.\<close>

definition sample_db :: "AgentState \<Rightarrow> db" where
  "sample_db st = empty_db\<lparr>agent_states := [\<lparr>sr_state = st, sr_snapshot_sequence = 0\<rparr>],
     runs := [run_row_of sample_request 1]\<rparr>"

subsection \<open>When the log accepts an event and a commit succeeds\<close>

definition event_id_of :: "env \<Rightarrow> string \<Rightarrow> string \<Rightarrow> string \<Rightarrow> string" where
  "event_id_of E i cid key = sha256 E (''gateway-event:v2'' @ newline @ cid @ newline @ key @ newline @ i)"

definition delivery_id_of :: "env \<Rightarrow> string \<Rightarrow> string \<Rightarrow> string" where
  "delivery_id_of E i sink = sha256 E (''event-delivery:v2:'' @ i @ '':'' @ sink)"

definition delivery_ids :: "env \<Rightarrow> db \<Rightarrow> string \<Rightarrow> string list" where
  "delivery_ids E d i = map (\<lambda>s. delivery_id_of E i (sk_sink_id s)) (enabled_sinks d)"

definition log_accepts :: "env \<Rightarrow> db \<Rightarrow> string \<Rightarrow> string \<Rightarrow> string \<Rightarrow> bool" where
  "log_accepts E d i cid key \<longleftrightarrow>
     distinct (delivery_ids E d (event_id_of E i cid key)) \<and>
     list_all (\<lambda>x. dl_delivery_id x \<notin> set (delivery_ids E d (event_id_of E i cid key))) (event_deliveries d) \<and>
     list_all (\<lambda>x. ev_event_id x \<noteq> event_id_of E i cid key \<and> ev_command_id x \<noteq> cid \<and>
       ev_stream_sequence x < next_sequence d i) (gateway_events d) \<and>
     list_all (\<lambda>x. ob_outbox_id x \<noteq> sha256 E (''event-outbox:v2:'' @ event_id_of E i cid key) \<and>
       ob_event_id x \<noteq> event_id_of E i cid key) (event_outbox d)"

lemma log_accepts_cong:
  assumes "gateway_events d' = gateway_events d" "event_outbox d' = event_outbox d"
    and "event_deliveries d' = event_deliveries d" "event_sinks d' = event_sinks d"
    and "event_sequences d' = event_sequences d"
  shows "log_accepts E d' i cid key = log_accepts E d i cid key"
  using assms by (simp add: log_accepts_def next_sequence_def delivery_ids_def enabled_sinks_def)

lemma event_of_ids:
  assumes "cid \<noteq> []"
  shows "ev_event_id (event_of E d st t p (Some cid) key cause corr now) = event_id_of E (st_run_id st) cid key"
    and "ev_command_id (event_of E d st t p (Some cid) key cause corr now) = cid"
  using assms by (cases cid; simp add: event_of_def Let_def event_id_of_def)+

lemma write_event_succeeds:
  assumes "log_accepts E d (st_run_id st) cid key" "cid \<noteq> []"
  shows "\<exists>d' e. write_event E d st t p (Some cid) key cause corr now = Inr (d', e)"
proof -
  let ?e = "event_of E d st t p (Some cid) key cause corr now"
  have "event_index_ok d ?e"
    using assms unfolding event_index_ok_def log_accepts_def
    by (auto simp: event_of_ids [OF assms(2)] event_of_columns list_all_iff)
  moreover have "map dl_delivery_id (map (delivery_of E oid ?e) (enabled_sinks d)) = delivery_ids E d (event_id_of E (st_run_id st) cid key)" for oid
    by (simp add: delivery_ids_def delivery_id_of_def delivery_of_def event_of_ids [OF assms(2)])
  then have "outbox_index_ok d (sha256 E (''event-outbox:v2:'' @ ev_event_id ?e)) ?e
      (map (delivery_of E (sha256 E (''event-outbox:v2:'' @ ev_event_id ?e)) ?e) (enabled_sinks d))"
    using assms(1) unfolding outbox_index_ok_def log_accepts_def by (simp only: event_of_ids [OF assms(2)])
  ultimately show ?thesis unfolding write_event_def Let_def by simp
qed

lemma cas_state_succeeds:
  assumes "lookup_row sr_run_id (st_run_id st) (agent_states d) = Some r" "st_revision (sr_state r) = n"
    and "normal_terminal (st_task_state st) \<Longrightarrow> st_task_state (sr_state r) = TaskState.FINALIZING"
  shows "\<exists>rows. cas_state d st n = Inr (d\<lparr>agent_states := rows\<rparr>)"
  using assms by (auto simp: cas_state_def)

lemma commit_succeeds:
  assumes "save_operation_opt (oc_db oc) (oc_operation oc) = Inr d1"
    and "save_attempt_opt d1 (oc_attempt oc) = Inr d2" "save_approval_opt d2 (oc_approval oc) = Inr d3"
    and "log_accepts (ct_env C) d3 (st_run_id (oc_state oc)) (cmd_command_id k) (cmd_event_key k)"
    and "cmd_command_id k \<noteq> []" "validate_lifecycle (committed_state oc x)"
    and "lookup_row sr_run_id (st_run_id (oc_state oc)) (agent_states d3) = Some r"
    and "st_revision (sr_state r) = st_revision b"
    and "normal_terminal (st_task_state (oc_state oc)) \<Longrightarrow> st_task_state (sr_state r) = TaskState.FINALIZING"
    and "run_exists d3 (st_run_id (oc_state oc))"
  shows "\<exists>d' res. commit_outcome C b k x oc = Inr (d', res)"
proof -
  let ?st = "committed_state oc x"
  obtain rows where cas: "cas_state d3 ?st (st_revision b) = Inr (d3\<lparr>agent_states := rows\<rparr>)"
    using cas_state_succeeds [of ?st d3 r] assms(7-9) by auto
  define d4 where "d4 = update_run_projection (d3\<lparr>agent_states := rows\<rparr>) ?st"
  have runs4: "run_exists d4 (st_run_id ?st)"
    using assms(10) by (auto simp: d4_def update_run_projection_def run_exists_def update_rows_def project_run_def)
  obtain d5 where log: "log_transition d4 b ?st (cmd_command_id k) (oc_transition oc) (cx_now x) = Inr d5"
    using runs4 by (cases "oc_transition oc") (auto simp: log_transition_def insert_transition_def)
  have "gateway_events d5 = gateway_events d3" "event_outbox d5 = event_outbox d3"
    "event_deliveries d5 = event_deliveries d3" "event_sinks d5 = event_sinks d3"
    "event_sequences d5 = event_sequences d3"
    using log by (auto simp: d4_def update_run_projection_def log_transition_def insert_transition_def
        split: option.splits if_splits)
  then have acc: "log_accepts (ct_env C) d5 (st_run_id ?st) (cmd_command_id k) (cmd_event_key k)"
    using assms(4) by (simp add: log_accepts_cong [of d5 d3])
  obtain d6 e where "write_event (ct_env C) d5 ?st (event_type (cmd_body k))
       (event_payload k b ?st (oc_operation oc) (oc_attempt oc) (oc_approval oc))
       (Some (cmd_command_id k)) (cmd_event_key k) (cmd_causation_id k)
       (Some (or_text (cmd_correlation_id k) (st_run_id ?st))) (cx_event_now x) = Inr (d6, e)"
    using write_event_succeeds [OF acc assms(5)] by blast
  then show ?thesis
    unfolding commit_outcome_def Let_def committed_state_def [symmetric]
    using assms(1-3,6) cas log by (simp add: d4_def)
qed

lemma apply_succeeds:
  assumes "state_in d (cmd_run_id k) = Inr st" "check_fence C st k = Inr ()" "admission C ctx = Inr ()"
    and "dispatch C d st k x (cmd_body k) = Inr oc"
    and "save_operation_opt (oc_db oc) (oc_operation oc) = Inr d1"
    and "save_attempt_opt d1 (oc_attempt oc) = Inr d2" "save_approval_opt d2 (oc_approval oc) = Inr d3"
    and "untouched d d3" "cmd_command_id k \<noteq> []"
    and "validate_lifecycle (committed_state oc x)"
    and "normal_terminal (st_task_state (oc_state oc)) \<Longrightarrow> st_task_state st = TaskState.FINALIZING"
    and "log_accepts (ct_env C) d (cmd_run_id k) (cmd_command_id k) (cmd_event_key k)"
    and "lookup_row pc_command_id (cmd_command_id k) (processed_commands d) = None"
    and "run_exists d (cmd_run_id k)" "st_run_id st = cmd_run_id k"
  shows "\<exists>d' res. apply_command C ctx d k x = Inr (d', res)"
proof -
  have id: "st_run_id (oc_state oc) = cmd_run_id k" "st_revision (oc_state oc) = st_revision st"
    using dispatch_frame(2) [OF assms(4)] assms(15) by (simp_all add: same_identity_def)
  note u = assms(8) [unfolded untouched_def]
  obtain r where r: "lookup_row sr_run_id (cmd_run_id k) (agent_states d) = Some r" "sr_state r = st"
    using assms(1) by (auto simp: state_in_def result_simps)
  have "\<exists>d' res. commit_outcome C st k x oc = Inr (d', res)"
  proof (rule commit_succeeds [OF assms(5-7) _ assms(9,10)])
    show "log_accepts (ct_env C) d3 (st_run_id (oc_state oc)) (cmd_command_id k) (cmd_event_key k)"
      using assms(12) u id log_accepts_cong [of d3 d] by simp
    show "lookup_row sr_run_id (st_run_id (oc_state oc)) (agent_states d3) = Some r"
      using r u id by simp
    show "run_exists d3 (st_run_id (oc_state oc))" using assms(14) u id by (simp add: run_exists_def)
  qed (use r assms(11) in simp_all)
  then show ?thesis using assms(1-4,13) by (auto simp: apply_command_def)
qed

text \<open>The common case on \<open>sample_db\<close>: a command that writes no operation, attempt or approval.\<close>

lemma sample_apply:
  assumes "cmd_run_id k = ''r1''" "check_fence C st k = Inr ()" "admission C ctx = Inr ()"
    and "dispatch C d st k x (cmd_body k) = Inr oc" "untouched d (oc_db oc)"
    and "oc_operation oc = None" "oc_attempt oc = None" "oc_approval oc = None"
    and "cmd_command_id k \<noteq> []" "validate_lifecycle (committed_state oc x)"
    and "normal_terminal (st_task_state (oc_state oc)) \<Longrightarrow> st_task_state st = TaskState.FINALIZING"
    and "st_run_id st = ''r1''" "processed_commands d = []" "gateway_events d = []"
    and "event_outbox d = []" "event_deliveries d = []" "event_sinks d = []"
    and "agent_states d = agent_states (sample_db st)" "runs d = runs (sample_db st)"
  shows "\<exists>d' res. apply_command C ctx d k x = Inr (d', res)"
proof (rule apply_succeeds)
  show "state_in d (cmd_run_id k) = Inr st"
    using assms(1,12,18) by (simp add: state_in_def sample_db_def sr_run_id_def)
  show "run_exists d (cmd_run_id k)"
    using assms(1,19) by (simp add: run_exists_def sample_db_def run_row_of_def sample_request_def)
  show "log_accepts (ct_env C) d (cmd_run_id k) (cmd_command_id k) (cmd_event_key k)"
    using assms by (simp add: log_accepts_def delivery_ids_def enabled_sinks_def)
qed (use assms in \<open>simp_all add: save_operation_opt_def save_attempt_opt_def save_approval_opt_def\<close>)

end
