(* ===== verification/Witnesses.thy ===== *)
theory Witnesses
  imports Sample Controller_Runs Gate_Safety
begin

section \<open>Witnesses\<close>

text \<open>
  Concrete inputs at which the hypotheses of the properties hold, on the small gateway of \<open>Sample\<close>.
\<close>

subsection \<open>A cancellation, an adoption and a wait\<close>

definition cancel :: StateCommand where
  "cancel = sample_command ''k1'' 0 (RequestCancellation ''stop'')"

definition cancel_again :: StateCommand where
  "cancel_again = sample_command ''k2'' 0 (RequestCancellation ''again'')"

definition next_controller :: controller where
  "next_controller = sample_controller\<lparr>ct_gateway_epoch := ''g2''\<rparr>"

definition adopt :: StateCommand where
  "adopt = (sample_command ''k1'' 0 (AdoptGatewayEpoch ''g1'' ''restart''))\<lparr>cmd_gateway_epoch := ''g2''\<rparr>"

lemma cancel_fields [simp]:
  "cmd_command_id cancel = ''k1''" "cmd_run_id cancel = ''r1''" "cmd_expected_revision cancel = 0"
  "cmd_body cancel = RequestCancellation ''stop''"
  "cmd_command_id cancel_again = ''k2''" "cmd_run_id cancel_again = ''r1''"
  "cmd_expected_revision cancel_again = 0" "cmd_body cancel_again = RequestCancellation ''again''"
  "cmd_command_id adopt = ''k1''" "cmd_run_id adopt = ''r1''" "cmd_expected_revision adopt = 0"
  "cmd_body adopt = AdoptGatewayEpoch ''g1'' ''restart''" "cmd_gateway_epoch adopt = ''g2''"
  by (simp_all add: cancel_def cancel_again_def adopt_def sample_command_def)

lemma sample_state_fields [simp]:
  "st_run_id sample_state = ''r1''" "st_revision sample_state = 0" "st_gateway_epoch sample_state = ''g1''"
  "st_task_state sample_state = TaskState.CREATED"
  by (simp_all add: sample_state_def new_state_def sample_controller_def sample_request_def)

lemma sample_db_fields [simp]:
  "processed_commands (sample_db st) = []" "gateway_events (sample_db st) = []"
  "event_outbox (sample_db st) = []" "event_deliveries (sample_db st) = []" "event_sinks (sample_db st) = []"
  "operation_ledger (sample_db st) = []" "operation_attempts (sample_db st) = []"
  "durable_approvals (sample_db st) = []"
  by (simp_all add: sample_db_def empty_db_def)

lemma state_in_sample [simp]: "st_run_id st = ''r1'' \<Longrightarrow> state_in (sample_db st) ''r1'' = Inr st"
  by (simp add: state_in_def sample_db_def sr_run_id_def)

lemma admission_sample [simp]: "admission sample_controller ctx = Inr ()" "admission next_controller ctx = Inr ()"
  by (simp_all add: admission_def sample_controller_def next_controller_def)

text \<open>A cancellation is accepted in every state of the sample run that its fence and the validator accept.\<close>

lemma cancel_applies:
  assumes "st_run_id st = ''r1''" "st_revision st = 0" "st_gateway_epoch st = ''g1''"
    and "validate_lifecycle st" "\<not> normal_terminal (st_task_state st)"
    and "agent_states d = agent_states (sample_db st)" "runs d = runs (sample_db st)"
    and "processed_commands d = []" "gateway_events d = []" "event_outbox d = []"
    and "event_deliveries d = []" "event_sinks d = []"
  shows "\<exists>d' res. apply_command sample_controller None d cancel (sample_call 2) = Inr (d', res)"
proof (rule sample_apply)
  show "check_fence sample_controller st cancel = Inr ()"
    using assms(2,3) by (simp add: check_fence_def is_adopt_def cancel_def sample_command_def sample_controller_def)
  show "dispatch sample_controller d st cancel (sample_call 2) (cmd_body cancel)
      = Inr (state_outcome d (st\<lparr>st_cancellation_requested := True, st_recovery_reason := Some (sanitize_text ''stop'')\<rparr>))"
    by (simp add: request_cancellation_def)
qed (use assms in \<open>simp_all add: state_outcome_def committed_state_def validate_lifecycle_def\<close>)

lemma cancel_applied: "\<exists>d' res. apply_command sample_controller None (sample_db sample_state) cancel (sample_call 2) = Inr (d', res)"
  by (rule cancel_applies [of sample_state])
    (simp_all add: validate_lifecycle_def normal_terminal_def TERMINAL_STATES_def)

lemma adopt_applied: "\<exists>d' res. apply_command next_controller None (sample_db sample_state) adopt (sample_call 2) = Inr (d', res)"
proof -
  obtain oc where oc: "dispatch next_controller (sample_db sample_state) sample_state adopt (sample_call 2)
      (cmd_body adopt) = Inr oc"
    "oc_db oc = sample_db sample_state" "oc_operation oc = None" "oc_attempt oc = None" "oc_approval oc = None"
    "st_task_state (oc_state oc) = TaskState.CREATED"
    by (simp add: adopt_gateway_epoch_def state_outcome_def)
  have "check_fence next_controller sample_state adopt = Inr ()"
    by (simp add: check_fence_def is_adopt_def adopted_epoch_def next_controller_def raise_if_def)
  then show ?thesis
    using oc by (intro sample_apply [of adopt next_controller sample_state None _ "sample_call 2" oc])
      (simp_all add: committed_state_def validate_lifecycle_def normal_terminal_def TERMINAL_STATES_def)
qed

subsection \<open>The controller\<close>

theorem apply_moves_legally_witness:
  "\<exists>d' res st st'. apply_command sample_controller None (sample_db sample_state) cancel (sample_call 2) = Inr (d', res)
    \<and> state_in d' ''r1'' = Inr st' \<and> st_revision st' = 1 \<and> validate_lifecycle st' \<and> legal_move st st'"
proof -
  obtain d' res where a: "apply_command sample_controller None (sample_db sample_state) cancel (sample_call 2) = Inr (d', res)"
    using cancel_applied by blast
  then show ?thesis using apply_moves_legally [OF a] by auto
qed

theorem apply_other_runs_witness:
  "\<exists>d' res. apply_command sample_controller None (sample_db sample_state) cancel (sample_call 2) = Inr (d', res)
    \<and> state_in d' ''r2'' = state_in (sample_db sample_state) ''r2''"
proof -
  obtain d' res where a: "apply_command sample_controller None (sample_db sample_state) cancel (sample_call 2) = Inr (d', res)"
    using cancel_applied by blast
  then show ?thesis using apply_other_runs [OF a, of "''r2''"] by auto
qed

theorem apply_replay_witness:
  "\<exists>d' res. apply_command sample_controller None (sample_db sample_state) cancel (sample_call 2) = Inr (d', res)
    \<and> apply_command sample_controller None d' cancel (sample_call 9) = Inr (d', res\<lparr>ar_duplicate := True\<rparr>)"
proof -
  obtain d' res where a: "apply_command sample_controller None (sample_db sample_state) cancel (sample_call 2) = Inr (d', res)"
    using cancel_applied by blast
  then show ?thesis using apply_replay [OF a admission_sample(1), of None "sample_call 9"] by blast
qed

text \<open>The commands recorded after a first command on the sample run.\<close>

lemma processed_after:
  assumes "apply_command C ctx (sample_db st) k x = Inr (d', res)"
  shows "lookup_row pc_command_id i (processed_commands d') \<noteq> None \<longleftrightarrow> i = cmd_command_id k"
proof -
  have "lookup_row pc_command_id (cmd_command_id k) (processed_commands (sample_db st)) = None" by simp
  then obtain oc e where "processed_commands d' = processed_commands (sample_db st) @ [processed_row_of C k oc x e]"
    using apply_fresh_facts [OF assms] by metis
  then show ?thesis by (simp add: processed_row_of_def)
qed

theorem apply_no_lost_update_witness:
  "\<exists>d' res. apply_command sample_controller None (sample_db sample_state) cancel (sample_call 2) = Inr (d', res)
    \<and> apply_command sample_controller None d' cancel_again (sample_call 3)
      = Inl (StateConflictError ''State revision conflict'')"
proof -
  obtain d' res where a: "apply_command sample_controller None (sample_db sample_state) cancel (sample_call 2) = Inr (d', res)"
    using cancel_applied by blast
  have "lookup_row pc_command_id (cmd_command_id cancel_again) (processed_commands d') = None"
    using processed_after [OF a, of "''k2''"] by auto
  then show ?thesis
    using a apply_no_lost_update [OF a _ _ _ _ admission_sample(1), of cancel_again None "sample_call 3"] by auto
qed


definition interrupted_state :: AgentState where
  "interrupted_state = sample_state\<lparr>st_task_state := TaskState.INTERRUPTED\<rparr>"

theorem terminal_state_absorbs_witness:
  "\<exists>d' res. apply_command sample_controller None (sample_db interrupted_state) cancel (sample_call 2) = Inr (d', res)
    \<and> st_task_state (ar_state res) = TaskState.INTERRUPTED"
proof -
  have st: "st_run_id interrupted_state = ''r1''" "st_task_state interrupted_state = TaskState.INTERRUPTED"
    by (simp_all add: interrupted_state_def)
  obtain d' res where a: "apply_command sample_controller None (sample_db interrupted_state) cancel (sample_call 2) = Inr (d', res)"
    using cancel_applies [of interrupted_state "sample_db interrupted_state"]
    by (auto simp: interrupted_state_def validate_lifecycle_def normal_terminal_def)
  then show ?thesis
    using terminal_state_absorbs [OF a, of interrupted_state] st by (auto simp: TERMINAL_STATES_def)
qed

subsection \<open>A run with one tool operation\<close>

text \<open>
  A history of two transactions on the empty database: a run is created, then a side-effecting tool operation
  with its first attempt. Here the hash function is the identity, which keeps the identifiers apart.
\<close>

definition plain_env :: env where
  "plain_env = sample_env\<lparr>sha256 := (\<lambda>s. s)\<rparr>"

definition plain_controller :: controller where
  "plain_controller = sample_controller\<lparr>ct_env := plain_env\<rparr>"

lemma plain_controller_fields [simp]:
  "ct_env plain_controller = plain_env" "ct_gateway_epoch plain_controller = ''g1''"
  "admission plain_controller ctx = Inr ()" "sha256 plain_env s = s"
  by (simp_all add: plain_controller_def sample_controller_def admission_def plain_env_def)

definition first_state :: AgentState where
  "first_state = new_state plain_controller sample_request (cx_now (sample_call 1))"

lemma first_state_fields [simp]:
  "st_run_id first_state = ''r1''" "st_revision first_state = 0" "st_gateway_epoch first_state = ''g1''"
  "st_task_state first_state = TaskState.CREATED"
  by (simp_all add: first_state_def new_state_def sample_request_def)

lemma first_state_valid: "valid_new_state first_state"
  by (simp add: first_state_def valid_new_state_def new_state_def sample_request_def is_sha256_hex_def)

text \<open>The empty database with a list of sinks, and the database in which the first event is written.\<close>

definition sink_db :: "sink_row list \<Rightarrow> db" where
  "sink_db sinks = empty_db\<lparr>event_sinks := sinks\<rparr>"

definition before_event :: "sink_row list \<Rightarrow> db" where
  "before_event sinks = update_run_projection ((sink_db sinks)\<lparr>runs := [run_row_of sample_request (cx_now (sample_call 1))],
     event_sequences := [(''r1'', 0)], agent_states := [\<lparr>sr_state = first_state, sr_snapshot_sequence = 0\<rparr>],
     idempotency_records := [\<lparr>ir_client_id = ''c'', ir_operation_name = ''cron'', ir_idempotency_key = ''i'',
        ir_request_hash = replicate 64 (CHR ''a''), ir_run_id = ''r1'', ir_created_at = cx_now (sample_call 1)\<rparr>]\<rparr>)
     first_state"

lemma create_run_is_event:
  assumes "ct_gateway_epoch C = ''g1''" "admission C None = Inr ()"
  shows "create_run C None (sink_db sinks) sample_request (sample_call 1) =
     rbind (created_event C (before_event sinks) first_state (sample_call 1))
       (\<lambda>(d, _). Inr (d, first_state, False))"
proof -
  have req: "nr_client_id sample_request = ''c''" "nr_workload_kind sample_request = CRON"
    "nr_idempotency_key sample_request = ''i''" "nr_request_hash sample_request = replicate 64 (CHR ''a'')"
    "nr_run_id sample_request = ''r1''" "nr_runtime_generation_id sample_request = None"
    by (simp_all add: sample_request_def)
  have row: "ru_run_id (run_row_of sample_request ts) = ''r1''" for ts
    by (simp add: run_row_of_def req)
  have st: "new_state C sample_request (cx_now (sample_call 1)) = first_state"
    by (simp add: first_state_def new_state_def assms(1))
  have "insert_run (sink_db sinks) (run_row_of sample_request (cx_now (sample_call 1))) = Inr ((sink_db sinks)\<lparr>
      runs := [run_row_of sample_request (cx_now (sample_call 1))], event_sequences := [(''r1'', 0)]\<rparr>)"
    by (simp add: insert_run_def run_exists_def row sink_db_def empty_db_def)
  moreover have "insert_state ((sink_db sinks)\<lparr>runs := [run_row_of sample_request (cx_now (sample_call 1))],
      event_sequences := [(''r1'', 0)]\<rparr>) first_state = Inr ((sink_db sinks)\<lparr>
      runs := [run_row_of sample_request (cx_now (sample_call 1))], event_sequences := [(''r1'', 0)],
      agent_states := [\<lparr>sr_state = first_state, sr_snapshot_sequence = 0\<rparr>]\<rparr>)"
    by (simp add: insert_state_def run_exists_def row sink_db_def empty_db_def)
  ultimately show ?thesis
    unfolding create_run_def Let_def st before_event_def
    by (simp add: req first_state_valid find_idempotency_def bind_generation_def insert_idempotency_def
        sink_db_def empty_db_def rbind_def assms(2))
qed

lemma before_event_fields [simp]:
  "gateway_events (before_event sinks) = []" "event_outbox (before_event sinks) = []"
  "event_deliveries (before_event sinks) = []" "event_sinks (before_event sinks) = sinks"
  "event_sequences (before_event sinks) = [(''r1'', 0)]"
  "operation_ledger (before_event sinks) = []" "operation_attempts (before_event sinks) = []"
  "processed_commands (before_event sinks) = []" "run_exists (before_event sinks) ''r1''"
  "map sr_state (agent_states (before_event sinks)) = [first_state]"
  "event_delivery_attempts (before_event sinks) = []"
  by (simp_all add: before_event_def update_run_projection_def sink_db_def empty_db_def run_exists_def update_rows_def
      project_run_def run_row_of_def sample_request_def)

text \<open>The database after the run was created.\<close>

lemma run_created:
  obtains d where "create_run plain_controller None empty_db sample_request (sample_call 1) = Inr (d, first_state, False)"
    "state_in d ''r1'' = Inr first_state" "operation_ledger d = []" "operation_attempts d = []"
    "processed_commands d = []" "run_exists d ''r1''"
    "log_accepts plain_env d ''r1'' ''k1'' ''primary''"
proof -
  let ?cid = "''run:'' @ ''r1'' @ '':create''"
  have acc: "log_accepts plain_env (before_event []) (st_run_id first_state) ?cid ''primary''"
    by (simp add: log_accepts_def delivery_ids_def enabled_sinks_def)
  have cid: "?cid \<noteq> []" by simp
  obtain d e where w: "write_event plain_env (before_event []) first_state ''state_created''
      [(''task_state'', JStr (task_state_value (st_task_state first_state)))] (Some ?cid) ''primary'' None
      (Some ''r1'') (cx_event_now (sample_call 1)) = Inr (d, e)"
    using write_event_succeeds [OF acc cid] by blast
  note W = write_event_Inr [OF w]
  have e: "ev_event_id e = event_id_of plain_env ''r1'' ?cid ''primary''" "ev_command_id e = ?cid"
    "ev_stream_sequence e = 1"
    unfolding W(1) using event_of_ids [OF cid, where key = "''primary''" and st = first_state]
    by (simp_all add: event_of_columns next_sequence_def)
  have ob: "event_outbox d = [\<lparr>ob_outbox_id = ''event-outbox:v2:'' @ ev_event_id e, ob_event_id = ev_event_id e,
      ob_created = cx_event_now (sample_call 1), ob_completed_at = Some (cx_event_now (sample_call 1)),
      ob_outbox_revision = 1\<rparr>]" "event_deliveries d = []" "event_sinks d = []"
    using w W(1) unfolding write_event_def Let_def
    by (auto simp: enabled_sinks_def split: if_splits)
  have "map sr_state (agent_states d) = [first_state]" using W(4) by simp
  then have "state_in d ''r1'' = Inr first_state"
    by (auto simp: state_in_def sr_run_id_def)
  moreover have "next_sequence d ''r1'' = 2"
    using W(3) by (simp add: next_sequence_def replace_row_def)
  then have "log_accepts plain_env d ''r1'' ''k1'' ''primary''"
    using W(2) ob e by (simp add: log_accepts_def event_id_of_def newline_def delivery_ids_def enabled_sinks_def)
  moreover have "create_run plain_controller None (sink_db []) sample_request (sample_call 1) = Inr (d, first_state, False)"
    using w create_run_is_event [of plain_controller "[]"] by (simp add: created_event_def)
  then have "create_run plain_controller None empty_db sample_request (sample_call 1) = Inr (d, first_state, False)"
    by (simp add: sink_db_def empty_db_def)
  ultimately show thesis
    using W(5-8) that [of d] before_event_fields(9) [of "[]"] by (simp add: run_exists_def)
qed

definition tool_operation :: CreateOperationWithAttemptCommand where
  "tool_operation = \<lparr>co_operation_id = ''o1'', co_attempt_id = ''a1'', co_parent_operation_id = None,
     co_turn_id = None, co_kind = TOOL, co_name = ''write'', co_stable_key = ''s'', co_request_hash = ''h'',
     co_idempotency = NON_IDEMPOTENT, co_side_effecting = True, co_logical_model_call_id = None,
     co_source_model_call_id = None, co_tool_call_id = None, co_tool_batch_id = None,
     co_tool_call_position = None, co_model_call_id = None, co_external_request_id = None,
     co_external_idempotency_key = None, co_retry_policy_snapshot = no_retry_policy\<rparr>"

definition tool_command :: StateCommand where
  "tool_command = sample_command ''k1'' 0 (CreateOperationWithAttempt tool_operation)"

lemma tool_command_fields [simp]:
  "cmd_command_id tool_command = ''k1''" "cmd_run_id tool_command = ''r1''" "cmd_event_key tool_command = ''primary''"
  "cmd_body tool_command = CreateOperationWithAttempt tool_operation"
  by (simp_all add: tool_command_def sample_command_def)

lemma tool_applied:
  assumes d: "state_in d ''r1'' = Inr first_state" "operation_ledger d = []" "operation_attempts d = []"
    "processed_commands d = []" "run_exists d ''r1''" "log_accepts plain_env d ''r1'' ''k1'' ''primary''"
  obtains d' res op a where "apply_command plain_controller None d tool_command (sample_call 2) = Inr (d', res)"
    "operation_ledger d' = [operation_row_of op]" "operation_attempts d' = [attempt_row_of a]"
    "op_operation_id op = ''o1''" "at_operation_id a = ''o1''" "at_side_effecting a" "attempt_active a"
    "at_run_id a = ''r1''" "at_attempt_id a = ''a1''"
proof -
  let ?x = "sample_call 2"
  define a where "a = new_attempt ''a1'' ''o1'' ''r1'' 1 ''h'' True (cx_now ?x)"
  obtain op where op: "create_operation_with_attempt d first_state tool_operation (cx_now ?x) = Inr (op, a)"
    "op_operation_id op = ''o1''" "op_run_id op = ''r1''" "op_kind op = TOOL"
    by (simp add: create_operation_with_attempt_def d tool_operation_def a_def aggregate_operation_def
        new_operation_def new_attempt_def reduce_operation_def attempt_inherits_def immutable_metadata_def
        attempt_active_def aggregate_of_latest_def mk_aggregate_def validate_aggregate_evidence_def
        numbered_def)
  obtain st where disp: "dispatch plain_controller d first_state tool_command ?x (cmd_body tool_command)
      = Inr (attempt_outcome d st op a)" "st_task_state st = TaskState.CREATED"
    "st_run_id st = ''r1''"
    using op by (simp add: create_operation_command_def)
  let ?d1 = "d\<lparr>operation_ledger := [operation_row_of op]\<rparr>"
  let ?d2 = "?d1\<lparr>operation_attempts := [attempt_row_of a]\<rparr>"
  have s1: "save_operation d op = Inr ?d1"
    using d op by (simp add: save_operation_def)
  have s2: "save_attempt ?d1 a = Inr ?d2"
    using d op by (simp add: save_attempt_def a_def new_attempt_def attempt_row_of_def operation_row_of_def
        row_check_def attempt_index_ok_def run_exists_def)
  have oc: "oc_db (attempt_outcome d st op a) = d" "oc_operation (attempt_outcome d st op a) = Some op"
    "oc_attempt (attempt_outcome d st op a) = Some a" "oc_approval (attempt_outcome d st op a) = None"
    "oc_state (attempt_outcome d st op a) = st"
    by (simp_all add: attempt_outcome_def state_outcome_def)
  have fence: "check_fence plain_controller first_state tool_command = Inr ()"
    by (simp add: check_fence_def is_adopt_def tool_command_def sample_command_def raise_if_def)
  have valid: "validate_lifecycle (committed_state (attempt_outcome d st op a) ?x)"
    using disp oc by (simp add: committed_state_def validate_lifecycle_def normal_terminal_def TERMINAL_STATES_def)
  have "\<exists>d' res. apply_command plain_controller None d tool_command ?x = Inr (d', res)"
    by (rule apply_succeeds [OF _ fence _ disp(1), where ?d3.0 = ?d2 and ?d2.0 = ?d2 and ?d1.0 = ?d1])
      (use d disp oc s1 s2 valid in \<open>simp_all add: save_operation_opt_def save_attempt_opt_def
        save_approval_opt_def untouched_def normal_terminal_def\<close>)
  then obtain d' res where ap: "apply_command plain_controller None d tool_command ?x = Inr (d', res)" by blast
  have fresh: "lookup_row pc_command_id (cmd_command_id tool_command) (processed_commands d) = None"
    by (simp add: d)
  obtain st0 oc0 where c: "state_in d ''r1'' = Inr st0"
    "dispatch plain_controller d st0 tool_command ?x (cmd_body tool_command) = Inr oc0"
    "commit_outcome plain_controller st0 tool_command ?x oc0 = Inr (d', res)"
    using ap fresh by (rule apply_command_fresh) simp
  have oc0: "oc0 = attempt_outcome d st op a" "st0 = first_state" using c(1,2) d(1) disp(1) by simp_all
  obtain e1 e2 e3 where "save_operation_opt (oc_db oc0) (oc_operation oc0) = Inr e1"
    "save_attempt_opt e1 (oc_attempt oc0) = Inr e2" "save_approval_opt e2 (oc_approval oc0) = Inr e3"
    "operation_ledger d' = operation_ledger e3" "operation_attempts d' = operation_attempts e3"
    using c(3) dispatch_frame(1) [OF c(2)] by (rule commit_outcome_Inr)
  then have "operation_ledger d' = [operation_row_of op]" "operation_attempts d' = [attempt_row_of a]"
    using s1 s2 unfolding oc0 oc
    by (auto simp: save_operation_opt_def save_attempt_opt_def save_approval_opt_def)
  then show thesis
    using that [OF ap] op by (simp add: a_def new_attempt_def attempt_active_def)
qed

lemma tool_fresh: "operation_ledger d = [] \<Longrightarrow> operation_attempts d = [] \<Longrightarrow> fresh_ids d tool_command x"
  by (simp add: fresh_ids_def)

lemma ledger_ok_empty: "operation_ledger d = [] \<Longrightarrow> operation_attempts d = [] \<Longrightarrow> ledger_ok d"
  by (simp add: ledger_ok_def ledger_inv_def operation_rows_ok_def attempt_rows_ok_def one_active_effect_def docs_def)

text \<open>The history as a whole.\<close>

lemma tool_history:
  obtains d d' res op a where "reachable plain_env d" "fresh_ids d tool_command (sample_call 2)" "ledger_ok d"
    "apply_command plain_controller None d tool_command (sample_call 2) = Inr (d', res)"
    "reachable plain_env d'" "operation_ledger d' = [operation_row_of op]"
    "operation_attempts d' = [attempt_row_of a]" "op_operation_id op = ''o1''" "at_operation_id a = ''o1''"
    "at_side_effecting a" "attempt_active a" "at_run_id a = ''r1''" "at_attempt_id a = ''a1''"
    "state_in d ''r1'' = Inr first_state"
    "create_run plain_controller None empty_db sample_request (sample_call 1) = Inr (d, first_state, False)"
proof -
  obtain d where c: "create_run plain_controller None empty_db sample_request (sample_call 1) = Inr (d, first_state, False)"
    and d: "state_in d ''r1'' = Inr first_state" "operation_ledger d = []" "operation_attempts d = []"
      "processed_commands d = []" "run_exists d ''r1''" "log_accepts plain_env d ''r1'' ''k1'' ''primary''"
    by (rule run_created)
  have "empty_db\<lparr>event_sinks := [], runtime_resource_generations := []\<rparr> = empty_db" by (simp add: empty_db_def)
  then have "reachable plain_env empty_db"
    using reachable_init [of plain_env "[]" "[]"] by simp
  then have r: "reachable plain_env d"
    using reachable_step step_create_run [OF _ c] by (metis plain_controller_fields(1))
  obtain d' res op a where t: "apply_command plain_controller None d tool_command (sample_call 2) = Inr (d', res)"
    "operation_ledger d' = [operation_row_of op]" "operation_attempts d' = [attempt_row_of a]"
    "op_operation_id op = ''o1''" "at_operation_id a = ''o1''" "at_side_effecting a" "attempt_active a"
    "at_run_id a = ''r1''" "at_attempt_id a = ''a1''"
    using d by (rule tool_applied)
  have "reachable plain_env d'"
    using reachable_step [OF r] step_apply [OF plain_controller_fields(1) tool_fresh [OF d(2,3)] t(1)] by blast
  then show thesis
    using that [OF r tool_fresh [OF d(2,3)] ledger_ok_empty [OF d(2,3)] t(1)] t(2-) d(1) c by blast
qed

theorem apply_keeps_ledger_witness:
  "\<exists>d d' res. apply_command plain_controller None d tool_command (sample_call 2) = Inr (d', res) \<and> ledger_ok d \<and>
    fresh_ids d tool_command (sample_call 2) \<and> ledger_ok d' \<and> operation_ledger d' \<noteq> []"
proof (rule tool_history)
  fix d d' res op a
  assume f: "fresh_ids d tool_command (sample_call 2)" and ok: "ledger_ok d"
    and ap: "apply_command plain_controller None d tool_command (sample_call 2) = Inr (d', res)"
    and rows: "operation_ledger d' = [operation_row_of op]"
  show ?thesis using ap ok f rows apply_keeps_ledger [OF ap ok f] by fastforce
qed




theorem stored_states_are_valid_witness:
  "\<exists>d. reachable plain_env d \<and> state_in d ''r1'' = Inr first_state \<and> validate_lifecycle first_state"
proof (rule tool_history)
  fix d d' res op a
  assume r: "reachable plain_env d" and st: "state_in d ''r1'' = Inr first_state"
  show ?thesis using r st stored_states_are_valid [OF r st] by blast
qed

theorem create_run_idempotent_witness:
  "\<exists>d. create_run plain_controller None empty_db sample_request (sample_call 1) = Inr (d, first_state, False) \<and>
    create_run sample_controller None d sample_request (sample_call 5) = Inr (d, first_state, True)"
proof (rule tool_history)
  fix d d' res op a
  assume c: "create_run plain_controller None empty_db sample_request (sample_call 1) = Inr (d, first_state, False)"
  show ?thesis using c create_run_idempotent [OF c, of sample_request] by blast
qed

text \<open>A run whose only attempt has completed.\<close>

definition finished_row :: attempt_row where
  "finished_row = attempt_row_of ((new_attempt ''a1'' ''o1'' ''r1'' 1 ''h'' True 1)\<lparr>at_status := OperationStatus.COMPLETED\<rparr>)"

lemma finished_row_fields: "ar_attempt_id finished_row = ''a1''" "ar_status finished_row = OperationStatus.COMPLETED"
  by (simp_all add: finished_row_def attempt_row_of_def new_attempt_def)

theorem finished_attempt_is_final_witness:
  "\<exists>d' res y. apply_command sample_controller None ((sample_db sample_state)\<lparr>operation_attempts := [finished_row]\<rparr>)
      cancel (sample_call 2) = Inr (d', res) \<and>
    lookup_row ar_attempt_id ''a1'' (operation_attempts d') = Some y \<and> ar_status y = OperationStatus.COMPLETED"
proof -
  let ?d = "(sample_db sample_state)\<lparr>operation_attempts := [finished_row]\<rparr>"
  have "\<exists>d' res. apply_command sample_controller None ?d cancel (sample_call 2) = Inr (d', res)"
    by (rule cancel_applies [of sample_state])
      (simp_all add: validate_lifecycle_def normal_terminal_def TERMINAL_STATES_def)
  then obtain d' res where a: "apply_command sample_controller None ?d cancel (sample_call 2) = Inr (d', res)"
    by blast
  have r: "lookup_row ar_attempt_id ''a1'' (operation_attempts ?d) = Some finished_row"
    by (simp add: finished_row_fields)
  show ?thesis
    using a finished_attempt_is_final [OF a r] by (auto simp: finished_row_fields finished_status_def)
qed

subsection \<open>The write gate\<close>

definition bound_gate :: gate where
  "bound_gate = (new_gate 1)\<lparr>gt_store := Some (new_store 0)\<rparr>"

definition drained_gate :: gate where
  "drained_gate = fst (begin_draining True 1 ''u'' bound_gate 1)"

definition frozen_gate :: gate where
  "frozen_gate = fst (freeze True 2 drained_gate 1)"

lemma gate_bound: "bind_store (new_gate 1) (new_store 0) = Inr bound_gate"
  by (simp add: bind_store_def new_gate_def bound_gate_def)

lemma gate_frozen: "gate_step\<^sup>*\<^sup>* bound_gate frozen_gate"
proof -
  have "gate_step bound_gate drained_gate" "gate_step drained_gate frozen_gate"
    unfolding drained_gate_def frozen_gate_def
    by (rule begin_drain, rule surjective_pairing) (rule freeze_home, rule surjective_pairing)
  then show ?thesis by (meson converse_rtranclp_into_rtranclp rtranclp.rtrancl_refl)
qed

lemma gate_frozen_snapshot:
  "\<exists>m. snapshot frozen_gate = Inr m \<and> ms_state m = QUIESCED \<and> ms_maintenance_epoch m = 1"
  "\<exists>t. gt_store frozen_gate = Some t \<and> lc_revision t = 2"
  by (simp_all add: frozen_gate_def drained_gate_def bound_gate_def new_gate_def new_store_def
      initial_snapshot_def begin_draining_def freeze_def guarded_def transition_def snapshot_def store_read_def
      check_epoch_def state_of_def raise_if_def save_snapshot_def store_save_def next_snapshot_def)


theorem maintenance_history_legal_witness:
  "\<exists>t. gt_store frozen_gate = Some t \<and> map fst (lc_transitions t) = [1, 2] \<and>
    history_ok RUNNING 0 (lc_transitions t) (ms_state (lc_snapshot t))"
proof -
  obtain t where t: "gt_store frozen_gate = Some t" "lc_revision t = 2"
    using gate_frozen_snapshot(2) by blast
  from maintenance_history_legal [OF gate_bound gate_frozen t(1)] t show ?thesis
    by (simp add: upt_rec numeral_2_eq_2)
qed

end
