(* ===== verification/Law_Witnesses.thy ===== *)
theory Law_Witnesses
  imports Witnesses Control_Laws Approval_Safety
begin

section \<open>Witnesses for the component laws\<close>

text \<open>Inputs at which the hypotheses of \<open>Control_Laws\<close> and \<open>Approval_Safety\<close> hold.\<close>

subsection \<open>Attempts of one operation\<close>

definition tool_metadata :: ImmutableOperationMetadata where
  "tool_metadata = \<lparr>md_operation_id = ''op'', md_parent_operation_id = None, md_run_id = ''r1'', md_turn_id = None,
     md_kind = OperationKind.TOOL, md_name = ''n'', md_stable_key = ''s'', md_request_hash = ''h'',
     md_idempotency = IDEMPOTENT, md_side_effecting = False, md_logical_model_call_id = None,
     md_source_model_call_id = None, md_tool_call_id = None, md_tool_batch_id = None,
     md_tool_call_position = None, md_external_idempotency_key = None\<rparr>"

definition tool_policy :: RetryPolicySnapshot where
  "tool_policy = \<lparr>rp_max_attempts = 3, rp_base_seconds = 2, rp_max_seconds = 10, rp_automatic = True,
     rp_requires_reconcile = False, rp_requires_human_confirmation = False\<rparr>"

definition failed_attempt :: "nat \<Rightarrow> OperationAttempt" where
  "failed_attempt n = (new_attempt ''a'' ''op'' ''r1'' n ''h'' False 1)\<lparr>at_status := OperationStatus.FAILED,
     at_failure_kind := Some RETRYABLE, at_completed_at := Some 5\<rparr>"

lemma failed_attempt_fields [simp]:
  "at_attempt_no (failed_attempt n) = n" "at_operation_id (failed_attempt n) = ''op''"
  "at_run_id (failed_attempt n) = ''r1''" "at_request_hash (failed_attempt n) = ''h''"
  "at_status (failed_attempt n) = OperationStatus.FAILED" "at_failure_kind (failed_attempt n) = Some RETRYABLE"
  "at_completed_at (failed_attempt n) = Some 5" "\<not> at_side_effecting (failed_attempt n)"
  by (simp_all add: failed_attempt_def new_attempt_def)

theorem reduction_ignores_order_witness:
  "mset [failed_attempt 2, failed_attempt 1] = mset [failed_attempt 1, failed_attempt 2] \<and>
   reduce_operation tool_metadata [failed_attempt 2, failed_attempt 1] tool_policy =
   reduce_operation tool_metadata [failed_attempt 1, failed_attempt 2] tool_policy"
proof -
  have m: "mset [failed_attempt 2, failed_attempt 1] = mset [failed_attempt 1, failed_attempt 2]"
    by (simp add: add_mset_commute)
  then show ?thesis using reduction_ignores_order [OF m] by blast
qed

lemma retry_due:
  obtains g where "reduce_operation tool_metadata [failed_attempt 1] tool_policy = Inr g"
    "ag_status g = OperationStatus.FAILED" "ag_failure_kind g = Some RETRYABLE"
  by (simp add: reduce_operation_def numbered_def attempt_inherits_def tool_metadata_def attempt_active_def
      mk_aggregate_def validate_aggregate_evidence_def
      aggregate_of_latest_def tool_policy_def Let_def)

theorem retry_within_policy_witness:
  "\<exists>g t. reduce_operation tool_metadata [failed_attempt 1] tool_policy = Inr g \<and>
     ag_next_retry_at g = Some t \<and> 5 \<le> t \<and> t \<le> 15"
proof (rule retry_due)
  fix g
  assume g: "reduce_operation tool_metadata [failed_attempt 1] tool_policy = Inr g"
    "ag_status g = OperationStatus.FAILED" "ag_failure_kind g = Some RETRYABLE"
  have "valid_retry_policy tool_policy" by (simp add: valid_retry_policy_def tool_policy_def)
  from retry_within_policy [OF g(1) this g(2,3)] g(1) show ?thesis by (auto simp: tool_policy_def)
qed

theorem runnable_is_safe_witness:
  "is_runnable sample_state None None 7 \<and> st_task_state sample_state \<notin> set TERMINAL_STATES \<and>
   \<not> recovery_required sample_state"
proof -
  have r: "is_runnable sample_state None None 7"
    by (simp add: is_runnable_def TERMINAL_STATES_def sample_state_def new_state_def sample_request_def)
  then show ?thesis using runnable_is_safe [OF r] by blast
qed

subsection \<open>A checkpoint, a reservation and a frozen home\<close>

definition sample_checkpoint :: SafeCheckpoint where
  "sample_checkpoint = \<lparr>cp_checkpoint_id = ''cp'', cp_run_id = ''r1'', cp_turn_id = None, cp_state_revision = 0,
     cp_last_determined_operation_id = None, cp_last_determined_attempt_id = None, cp_current_operation_id = None,
     cp_current_attempt_id = None, cp_session_segment = ''s'', cp_last_record_id = ''l'', cp_created_at = 1\<rparr>"

definition checkpoint :: StateCommand where
  "checkpoint = sample_command ''k1'' 0 (CreateSafeCheckpoint sample_checkpoint)"

lemma checkpoint_applied:
  "\<exists>d' res. apply_command sample_controller None (sample_db sample_state) checkpoint (sample_call 2) = Inr (d', res)"
proof (rule sample_apply)
  show "check_fence sample_controller sample_state checkpoint = Inr ()"
    by (simp add: check_fence_def is_adopt_def checkpoint_def sample_command_def sample_controller_def)
  show "dispatch sample_controller (sample_db sample_state) sample_state checkpoint (sample_call 2) (cmd_body checkpoint)
      = Inr (state_outcome (sample_db sample_state) (sample_state\<lparr>st_safe_checkpoint := Some sample_checkpoint\<rparr>))"
    by (simp add: checkpoint_def sample_command_def create_safe_checkpoint_def sample_checkpoint_def)
qed (simp_all add: state_outcome_def committed_state_def validate_lifecycle_def checkpoint_def sample_command_def
    normal_terminal_def TERMINAL_STATES_def)

theorem checkpoint_is_safe_witness:
  "\<exists>d' res. apply_command sample_controller None (sample_db sample_state) checkpoint (sample_call 2) = Inr (d', res) \<and>
     st_safe_checkpoint (ar_state res) = Some sample_checkpoint"
proof -
  obtain d' res where a: "apply_command sample_controller None (sample_db sample_state) checkpoint (sample_call 2) = Inr (d', res)"
    using checkpoint_applied by blast
  have k: "cmd_body checkpoint = CreateSafeCheckpoint sample_checkpoint"
    by (simp add: checkpoint_def sample_command_def)
  show ?thesis using a checkpoint_is_safe [OF a k] by auto
qed

theorem reservation_is_sticky_witness:
  "\<exists>d'. reserve_idempotency sample_controller None empty_db ''key'' ''h'' ''r1'' ''c'' ''op'' 1 = Inr (d', ''r1'') \<and>
     reserve_idempotency sample_controller None d' ''key'' ''h'' ''r2'' ''c'' ''op'' 2 = Inr (d', ''r1'') \<and>
     reserve_idempotency sample_controller None d' ''key'' ''other'' ''r2'' ''c'' ''op'' 2
       = Inl (StateConflictError ''Idempotency-Key used for another request'')"
proof -
  obtain d' where a: "reserve_idempotency sample_controller None empty_db ''key'' ''h'' ''r1'' ''c'' ''op'' 1 = Inr (d', ''r1'')"
    by (simp add: reserve_idempotency_def find_idempotency_def empty_db_def)
  then show ?thesis using reservation_is_sticky [OF a] by auto
qed

theorem frozen_home_refuses_commands_witness:
  "\<exists>m. apply_command (sample_controller\<lparr>ct_write_gate := Some frozen_gate\<rparr>) None (sample_db sample_state) cancel
     (sample_call 2) = Inl (MaintenanceBlockedError m)"
proof -
  obtain m where m: "snapshot frozen_gate = Inr m" "ms_state m = QUIESCED"
    using gate_frozen_snapshot(1) by blast
  have c: "current_scope frozen_gate None = None" by (simp add: current_scope_def)
  show ?thesis
    by (rule frozen_home_refuses_commands [of _ frozen_gate m]) (use m c in simp_all)
qed

subsection \<open>A decided approval\<close>

definition decided_approval :: DurableApproval where
  "decided_approval = \<lparr>ap_approval_id = ''ap'', ap_operation_id = ''op'', ap_attempt_id = ''a'', ap_attempt_no = 1,
     ap_stable_key = ''s'', ap_request_hash = ''h'', ap_run_id = ''r1'', ap_client_id = ''c'', ap_tool_name = ''t'',
     ap_arguments_hash = ''h'', ap_arguments_json = ''{}'', ap_status = ApprovalStatus.DENIED, ap_created_at = 1,
     ap_expires_at = 9, ap_decided_at = Some 1, ap_decided_by = Some ''u'', ap_reason = None\<rparr>"

definition decided_row :: approval_row where
  "decided_row = \<lparr>dr_approval_id = ''ap'', dr_run_id = ''r1'', dr_operation_id = ''op'', dr_status = ApprovalStatus.DENIED,
     dr_document = decided_approval, dr_expires_at = 9, dr_updated_at = 1, dr_attempt_id = ''a''\<rparr>"

definition decided_db :: db where
  "decided_db = (sample_db sample_state)\<lparr>durable_approvals := [decided_row]\<rparr>"

theorem decided_approval_is_final_witness:
  "\<exists>d' y. (step sample_env)\<^sup>*\<^sup>* decided_db d' \<and> d' \<noteq> decided_db \<and>
     lookup_row dr_approval_id ''ap'' (durable_approvals d') = Some y \<and> dr_document y = decided_approval"
proof -
  obtain d' res where a: "apply_command sample_controller None decided_db cancel (sample_call 2) = Inr (d', res)"
    using cancel_applies [of sample_state decided_db]
    by (auto simp: decided_db_def validate_lifecycle_def normal_terminal_def TERMINAL_STATES_def)
  have s: "step sample_env decided_db d'"
    by (rule step_apply [OF _ _ a]) (simp_all add: sample_controller_def fresh_ids_def)
  have ids: "approval_ids_ok decided_db" by (simp add: approval_ids_ok_def decided_db_def decided_row_def decided_approval_def)
  have l: "lookup_row dr_approval_id ''ap'' (durable_approvals decided_db) = Some decided_row"
    "ap_status (dr_document decided_row) \<noteq> ApprovalStatus.PENDING" "dr_document decided_row = decided_approval"
    by (simp_all add: decided_db_def decided_row_def decided_approval_def)
  have "lookup_row pc_command_id ''k1'' (processed_commands decided_db) = None" by (simp add: decided_db_def)
  then have "processed_commands d' \<noteq> processed_commands decided_db"
    using apply_fresh_facts [OF a] by (metis cancel_fields(1) append_self_conv not_Cons_self2)
  then show ?thesis
    using decided_approval_is_final [OF ids _ l(1,2), of sample_env d'] s l(3) by (metis r_into_rtranclp)
qed

end
