(* ===== verification/Evidence_Sample.thy ===== *)
theory Evidence_Sample
  imports Evidence_Roundtrip
begin

section \<open>Four pieces of evidence\<close>

text \<open>
  Well-formed evidence of the four finalize steps of one control-only run, for which the hypotheses of the
  storage properties hold.
\<close>

definition memory_evidence :: FinalizeStepEvidence where
  "memory_evidence = NotApplicable \<lparr>ne_step = FinalizeStep.MEMORY, ne_run_id = ''r1'', ne_generation = 1,
     ne_operation_id = ''memory'', ne_attempt_id = ''am'', ne_workload_kind = ''cron'',
     ne_persistence_contract = CONTROL_ONLY, ne_policy_reason = ''p''\<rparr>"

definition index_evidence :: FinalizeStepEvidence where
  "index_evidence = NotApplicable \<lparr>ne_step = FinalizeStep.SESSION_INDEX, ne_run_id = ''r1'', ne_generation = 1,
     ne_operation_id = ''session_index'', ne_attempt_id = ''as'', ne_workload_kind = ''cron'',
     ne_persistence_contract = CONTROL_ONLY, ne_policy_reason = ''p''\<rparr>"

definition digest :: string where
  "digest = replicate 64 (CHR ''a'')"

definition audit_step_evidence :: FinalizeStepEvidence where
  "audit_step_evidence = Verified \<lparr>ve_step = FinalizeStep.AUDIT, ve_run_id = ''r1'', ve_generation = 1,
     ve_operation_id = ''audit'', ve_attempt_id = ''aa'', ve_artifact_kind = ''k'', ve_artifact_id = ''rc'',
     ve_artifact_hash = digest, ve_verification_method = ''m'',
     ve_references = empty_references\<lparr>fr_receipt_id := Some ''rc'', fr_memory_attempt_id := Some ''am'',
       fr_memory_result_hash := Some digest, fr_session_index_attempt_id := Some ''as'',
       fr_session_index_result_hash := Some digest\<rparr>\<rparr>"

definition inbox_step_evidence :: FinalizeStepEvidence where
  "inbox_step_evidence = Verified \<lparr>ve_step = FinalizeStep.INBOX, ve_run_id = ''r1'', ve_generation = 1,
     ve_operation_id = ''inbox'', ve_attempt_id = ''ai'', ve_artifact_kind = ''k'', ve_artifact_id = ''ib'',
     ve_artifact_hash = digest, ve_verification_method = ''m'',
     ve_references = empty_references\<lparr>fr_inbox_item_id := Some ''ib''\<rparr>\<rparr>"

definition all_evidence :: "FinalizeStepEvidence list" where
  "all_evidence = [memory_evidence, index_evidence, audit_step_evidence, inbox_step_evidence]"

text \<open>The hash keeps the identity texts of the four operations apart.\<close>

definition evidence_env :: env where
  "evidence_env = \<lparr>sha256 = (\<lambda>s. if take 1 s = ''r'' then drop 18 s else digest),
     json_loads = json_parse,
     iso = (\<lambda>_. ''t''), iso_utc = (\<lambda>_. ''t'')\<rparr>"

lemma evidence_valid: "list_all valid_evidence all_evidence"
  by (simp add: all_evidence_def memory_evidence_def index_evidence_def audit_step_evidence_def
      inbox_step_evidence_def valid_references_def opt_hash_ok_def empty_references_def digest_def is_sha256_hex_def)

lemma memory_clean: "sanitize (evidence_json memory_evidence) = evidence_json memory_evidence"
  by code_simp

lemma index_clean: "sanitize (evidence_json index_evidence) = evidence_json index_evidence"
  by code_simp

lemma audit_clean: "sanitize (evidence_json audit_step_evidence) = evidence_json audit_step_evidence"
  by code_simp

lemma inbox_clean: "sanitize (evidence_json inbox_step_evidence) = evidence_json inbox_step_evidence"
  by code_simp

lemma evidence_facts:
  assumes "e \<in> set all_evidence"
  shows "valid_evidence e" "sanitize (evidence_json e) = evidence_json e"
    "json_loads evidence_env = json_parse"
proof -
  show "valid_evidence e" using assms evidence_valid by (simp only: list_all_iff)
  show "sanitize (evidence_json e) = evidence_json e"
    using assms memory_clean index_clean audit_clean inbox_clean by (auto simp: all_evidence_def)
  show "json_loads evidence_env = json_parse" by (simp add: evidence_env_def)
qed

lemma memory_listed: "memory_evidence \<in> set all_evidence"
  by (simp add: all_evidence_def)


theorem tampered_evidence_refused_witness:
  "verify evidence_env (canonical_json (evidence_json memory_evidence)) ''forged''
    = Inl (ValueError ''Finalize Evidence result_hash mismatch'')"
proof -
  have "''forged'' \<noteq> sha256 evidence_env (canonical_json (evidence_json memory_evidence))"
    by (simp add: evidence_env_def memory_evidence_def digest_def numeral_eq_Suc)
  then show ?thesis using tampered_evidence_refused [OF evidence_facts [OF memory_listed]] by simp
qed

end
