(* ===== verification/Terminal_Witness.thy ===== *)
theory Terminal_Witness
  imports Witnesses Evidence_Sample
begin

section \<open>A run that reaches its terminal state\<close>

text \<open>
  A control-only run in FINALIZING whose ledger holds completed operations with accepted evidence of the four
  finalize steps, a current audit receipt and an inbox row: \<open>FinalizeTerminal\<close> is applied to it.
\<close>

definition final_state :: AgentState where
  "final_state = sample_state\<lparr>st_task_state := TaskState.FINALIZING,
     st_terminal_target := Some TerminalTarget.SUCCEEDED, st_finalize_generation := Some 1\<rparr>"

definition final_controller :: controller where
  "final_controller = sample_controller\<lparr>ct_env := evidence_env\<rparr>"

definition step_operation :: "FinalizeStepEvidence \<Rightarrow> operation_row" where
  "step_operation e = operation_row_of ((new_operation (ev_operation_id e) ''r1''
     (finalize_operation_kind (ev_step e)) ''n'' (finalize_stable_key 1 (ev_step e)) digest IDEMPOTENT False
     no_retry_policy 1)\<lparr>op_status := OperationStatus.COMPLETED\<rparr>)"

definition step_attempt :: "FinalizeStepEvidence \<Rightarrow> OperationAttempt" where
  "step_attempt e = (new_attempt (ev_attempt_id e) (ev_operation_id e) ''r1'' 1 digest False 1)\<lparr>
     at_status := OperationStatus.COMPLETED, at_result := Some (canonical_json (evidence_json e)),
     at_result_hash := Some digest\<rparr>"

definition final_receipt :: receipt_row where
  "final_receipt = \<lparr>rc_receipt_id = ''rc'', rc_run_id = ''r1'', rc_finalize_generation = 1,
     rc_receipt_generation = 1, rc_receipt_json = ''{}'', rc_receipt_hash = digest, rc_created_at = 1\<rparr>"

definition final_inbox :: inbox_row where
  "final_inbox = \<lparr>ib_item_id = ''ib'', ib_run_id = ''r1'', ib_project_id = ''p'', ib_session_id = None,
     ib_title = ''t'', ib_summary = ''s'', ib_status = ''completed'', ib_created_at = 1, ib_is_read = False\<rparr>"

definition final_db :: db where
  "final_db = (sample_db final_state)\<lparr>
     operation_ledger := map step_operation all_evidence,
     operation_attempts := map (attempt_row_of \<circ> step_attempt) all_evidence,
     finalize_generations := [\<lparr>fg_run_id = ''r1'', fg_generation = 1, fg_terminal_target = TerminalTarget.SUCCEEDED,
       fg_persistence_contract = CONTROL_ONLY, fg_created_at = 1, fg_supersedes_generation = None\<rparr>],
     run_audit_receipts := [final_receipt], run_current_audit_receipt := [(''r1'', ''rc'')],
     inbox := [final_inbox]\<rparr>"

lemma final_state_fields [simp]:
  "st_run_id final_state = ''r1''" "st_revision final_state = 0" "st_gateway_epoch final_state = ''g1''"
  "st_task_state final_state = TaskState.FINALIZING" "st_finalize_generation final_state = Some 1"
  "st_terminal_target final_state = Some TerminalTarget.SUCCEEDED" "st_execution final_state = None"
  "st_persistence_contract final_state = CONTROL_ONLY" "st_workload_kind final_state = CRON"
  by (simp_all add: final_state_def sample_state_def new_state_def sample_request_def or_keep_def
      default_persistence_contract_def sample_controller_def)

lemma hash_of_text: "sha256 evidence_env (canonical_json (JObj d)) = digest"
  by (simp add: evidence_env_def)

lemma hash_of_identity: "sha256 evidence_env (''r1:finalize:v2:g1:'' @ s) = s"
  by (simp add: evidence_env_def)

lemma evidence_object: "\<exists>d. evidence_json e = JObj d"
  by (cases e) simp_all

lemma final_identity:
  "for_step evidence_env final_state 1 fs = \<lparr>id_stable_key = finalize_stable_key 1 fs,
     id_operation_id = finalize_step_value fs, id_request_hash = digest\<rparr>"
proof -
  have one: "nat_text 1 = ''1''" by code_simp
  have "''r1'' @ '':'' @ finalize_stable_key 1 fs = ''r1:finalize:v2:g1:'' @ finalize_step_value fs"
    by (simp only: finalize_stable_key_def one append.simps append_assoc)
  then show ?thesis
    using hash_of_identity by (simp only: for_step_def Let_def finalize_request_def hash_of_text final_state_fields)
qed

lemma evidence_of_each:
  assumes "e \<in> set all_evidence"
  shows "ev_run_id e = ''r1''" "ev_generation e = 1" "ev_operation_id e = finalize_step_value (ev_step e)"
    "validate_requirement final_state e = Inr ()"
  using assms
  by (auto simp: all_evidence_def memory_evidence_def index_evidence_def audit_step_evidence_def
      inbox_step_evidence_def validate_requirement_def requirements_def)

lemma evidence_ids [simp]:
  "ev_step memory_evidence = FinalizeStep.MEMORY" "ev_step index_evidence = FinalizeStep.SESSION_INDEX"
  "ev_step audit_step_evidence = FinalizeStep.AUDIT" "ev_step inbox_step_evidence = FinalizeStep.INBOX"
  "ev_operation_id memory_evidence = ''memory''" "ev_operation_id index_evidence = ''session_index''"
  "ev_operation_id audit_step_evidence = ''audit''" "ev_operation_id inbox_step_evidence = ''inbox''"
  by (simp_all add: memory_evidence_def index_evidence_def audit_step_evidence_def inbox_step_evidence_def)

lemma step_row_columns [simp]:
  "or_run_id (step_operation e) = ''r1''" "or_kind (step_operation e) = finalize_operation_kind (ev_step e)"
  "or_stable_key (step_operation e) = finalize_stable_key 1 (ev_step e)"
  "ar_operation_id (attempt_row_of a) = at_operation_id a" "ar_document (attempt_row_of a) = a"
  "at_operation_id (step_attempt e) = ev_operation_id e" "\<not> attempt_active (step_attempt e)"
  by (simp_all add: step_operation_def operation_row_of_def new_operation_def step_attempt_def new_attempt_def
      attempt_row_of_def attempt_active_def)

lemma final_db_ledger [simp]:
  "operation_ledger final_db = [step_operation memory_evidence, step_operation index_evidence,
     step_operation audit_step_evidence, step_operation inbox_step_evidence]"
  "operation_attempts final_db = [attempt_row_of (step_attempt memory_evidence),
     attempt_row_of (step_attempt index_evidence), attempt_row_of (step_attempt audit_step_evidence),
     attempt_row_of (step_attempt inbox_step_evidence)]"
  by (simp_all add: final_db_def all_evidence_def)

lemma step_rows_found:
  assumes "e \<in> set all_evidence"
  shows "find (\<lambda>r. or_run_id r = ''r1'' \<and> or_kind r = finalize_operation_kind (ev_step e)
      \<and> or_stable_key r = finalize_stable_key 1 (ev_step e)) (operation_ledger final_db) = Some (step_operation e)"
    "current_attempt_in final_db (ev_operation_id e) = Inr (step_attempt e)"
proof -
  have e: "e = memory_evidence \<or> e = index_evidence \<or> e = audit_step_evidence \<or> e = inbox_step_evidence"
    using assms unfolding all_evidence_def by simp
  then show "find (\<lambda>r. or_run_id r = ''r1'' \<and> or_kind r = finalize_operation_kind (ev_step e)
      \<and> or_stable_key r = finalize_stable_key 1 (ev_step e)) (operation_ledger final_db) = Some (step_operation e)"
    by (elim disjE) simp_all
  show "current_attempt_in final_db (ev_operation_id e) = Inr (step_attempt e)"
    using e
    by (elim disjE) (simp_all add: current_attempt_in_def attempts_in_def attempt_rows_of_def current_attempt_def)
qed

lemma step_evidence_accepted:
  assumes "e \<in> set all_evidence"
  shows "finalize_step_evidence evidence_env final_db final_state 1 (ev_step e) = Inr (e, step_attempt e)"
proof -
  obtain d where d: "evidence_json e = JObj d" using evidence_object by blast
  have h: "sha256 evidence_env (canonical_json (evidence_json e)) = digest"
    unfolding d by (rule hash_of_text)
  have v: "verify evidence_env (canonical_json (evidence_json e)) digest = Inr e"
    using evidence_verified [OF evidence_facts [OF assms]] h by simp
  have op: "op_operation_id (or_record (step_operation e)) = ev_operation_id e"
    "op_status (or_record (step_operation e)) = OperationStatus.COMPLETED"
    "op_stable_key (or_record (step_operation e)) = finalize_stable_key 1 (ev_step e)"
    "op_request_hash (or_record (step_operation e)) = digest"
    by (simp_all add: step_operation_def operation_row_of_def new_operation_def)
  have a: "at_result (step_attempt e) = Some (canonical_json (evidence_json e))"
    "at_result_hash (step_attempt e) = Some digest" "at_attempt_id (step_attempt e) = ev_attempt_id e"
    by (simp_all add: step_attempt_def new_attempt_def)
  have t: "truthy (Some (canonical_json (evidence_json e)))" "truthy (Some digest)"
    unfolding d by (simp_all add: digest_def)
  show ?thesis
    unfolding finalize_step_evidence_def Let_def final_identity
    using step_rows_found [OF assms] evidence_of_each [OF assms] op a t v
    by (simp add: validate_finalize_evidence_def as_invariant_error_def final_identity [unfolded One_nat_def]
        raise_if_def)
qed

lemma evidence_collected:
  "collect_finalize_evidence evidence_env final_db final_state 1 enum_class.enum =
     Inr [(FinalizeStep.MEMORY, memory_evidence, step_attempt memory_evidence),
          (FinalizeStep.SESSION_INDEX, index_evidence, step_attempt index_evidence),
          (FinalizeStep.AUDIT, audit_step_evidence, step_attempt audit_step_evidence),
          (FinalizeStep.INBOX, inbox_step_evidence, step_attempt inbox_step_evidence)]"
proof -
  have "memory_evidence \<in> set all_evidence" "index_evidence \<in> set all_evidence"
    "audit_step_evidence \<in> set all_evidence" "inbox_step_evidence \<in> set all_evidence"
    by (simp_all add: all_evidence_def)
  note A = this [THEN step_evidence_accepted]
  show ?thesis
    using A by (simp add: enum_FinalizeStep_def)
qed

lemma final_links:
  "session_index_linked index_evidence (step_attempt memory_evidence)"
  "audit_linked audit_step_evidence (Some final_receipt) 1 (step_attempt memory_evidence) (step_attempt index_evidence)"
  "inbox_check evidence_env final_db inbox_step_evidence = Inr ()"
  "current_receipt final_db ''r1'' = Some final_receipt"
proof -
  have "canonical_hash evidence_env (inbox_json evidence_env final_inbox) = digest"
    by (simp only: canonical_hash_def inbox_json_def sanitize_JObj hash_of_text)
  then show "inbox_check evidence_env final_db inbox_step_evidence = Inr ()"
    by (simp add: inbox_check_def inbox_step_evidence_def empty_references_def final_db_def final_inbox_def)
qed (simp_all add: session_index_linked_def index_evidence_def audit_linked_def audit_step_evidence_def
    final_receipt_def step_attempt_def new_attempt_def memory_evidence_def empty_references_def
    current_receipt_def final_db_def)

lemma final_gate_open: "validate_terminal_finalize evidence_env final_db final_state 1 = Inr ()"
proof -
  have g: "finalize_generations final_db = [\<lparr>fg_run_id = ''r1'', fg_generation = 1, fg_terminal_target = TerminalTarget.SUCCEEDED,
       fg_persistence_contract = CONTROL_ONLY, fg_created_at = 1, fg_supersedes_generation = None\<rparr>]"
    "finalize_generation_invalidations final_db = []"
    by (simp_all add: final_db_def sample_db_def empty_db_def)
  show ?thesis
    unfolding validate_terminal_finalize_def
    by (simp add: evidence_collected [unfolded One_nat_def] final_links [unfolded One_nat_def] g raise_if_def Let_def)
qed

definition finish :: StateCommand where
  "finish = sample_command ''k1'' 0 (FinalizeTerminal 1 ''done'')"

lemma finish_applied:
  obtains d' res where "apply_command final_controller None final_db finish (sample_call 2) = Inr (d', res)"
    "st_task_state (ar_state res) = TaskState.SUCCEEDED"
proof -
  obtain st where t: "apply_transition final_state (terminal_transition TerminalTarget.SUCCEEDED ''done'') (cx_now (sample_call 2)) = Inr st"
    "st_task_state st = TaskState.SUCCEEDED" "st_terminal_target st = Some TerminalTarget.SUCCEEDED"
    "st_finished_at st \<noteq> None" "st_execution st = None"
    by (simp add: apply_transition_def transition_task_def transition_execution_def terminal_transition_def
        validate_terminal_mapping_def validate_outer_transition_def normal_terminal_def Let_def)
  let ?oc = "(state_outcome final_db st)\<lparr>oc_transition := Some ''done''\<rparr>"
  have fin: "cmd_body finish = FinalizeTerminal 1 ''done''" "cmd_run_id finish = ''r1''" "cmd_command_id finish = ''k1''"
    by (simp_all add: finish_def sample_command_def)
  have c: "ct_env final_controller = evidence_env" "admission final_controller None = Inr ()"
    by (simp_all add: final_controller_def sample_controller_def admission_def)
  have disp: "dispatch final_controller final_db final_state finish (sample_call 2) (cmd_body finish) = Inr ?oc"
    unfolding fin using t(1) by (simp add: finalize_terminal_def c final_gate_open [unfolded One_nat_def])
  have fence: "check_fence final_controller final_state finish = Inr ()"
    by (simp add: check_fence_def is_adopt_def finish_def sample_command_def final_controller_def
        sample_controller_def raise_if_def)
  have db: "processed_commands final_db = []" "gateway_events final_db = []" "event_outbox final_db = []"
    "event_deliveries final_db = []" "event_sinks final_db = []"
    "agent_states final_db = agent_states (sample_db final_state)" "runs final_db = runs (sample_db final_state)"
    by (simp_all add: final_db_def)
  have valid: "validate_lifecycle (committed_state ?oc (sample_call 2))"
    using t by (simp add: committed_state_def state_outcome_def validate_lifecycle_def)
  have "\<exists>d' res. apply_command final_controller None final_db finish (sample_call 2) = Inr (d', res)"
    by (rule sample_apply [OF _ fence c(2) disp]) (use fin db valid in \<open>simp_all add: state_outcome_def\<close>)
  then obtain d' res where ap: "apply_command final_controller None final_db finish (sample_call 2) = Inr (d', res)"
    by blast
  have pre: "lookup_row pc_command_id (cmd_command_id finish) (processed_commands final_db) = None"
    "state_in final_db (cmd_run_id finish) = Inr final_state"
    using state_in_sample [of final_state] db by (simp_all add: state_in_def fin)
  obtain s0 oc where "state_in final_db (cmd_run_id finish) = Inr s0"
    "dispatch final_controller final_db s0 finish (sample_call 2) (cmd_body finish) = Inr oc"
    "ar_state res = committed_state oc (sample_call 2)"
    using ap pre(1) by (rule apply_fresh_facts)
  then have "ar_state res = committed_state ?oc (sample_call 2)" using disp pre(2) by simp
  then show thesis using that [OF ap] t(2) by (simp add: committed_state_def state_outcome_def)
qed

theorem normal_terminal_needs_evidence_witness:
  "\<exists>d' res. apply_command final_controller None final_db finish (sample_call 2) = Inr (d', res) \<and>
    normal_terminal (st_task_state (ar_state res)) \<and>
    (\<exists>ev a. finalize_step_evidence (ct_env final_controller) final_db final_state 1 FinalizeStep.AUDIT = Inr (ev, a))"
proof (rule finish_applied)
  fix d' res
  assume ap: "apply_command final_controller None final_db finish (sample_call 2) = Inr (d', res)"
    and s: "st_task_state (ar_state res) = TaskState.SUCCEEDED"
  have pre: "lookup_row pc_command_id (cmd_command_id finish) (processed_commands final_db) = None"
    "state_in final_db (cmd_run_id finish) = Inr final_state"
    using state_in_sample [of final_state]
    by (simp_all add: final_db_def state_in_def finish_def sample_command_def)
  have n: "\<not> normal_terminal (st_task_state final_state)" "normal_terminal (st_task_state (ar_state res))"
    using s by (simp_all add: normal_terminal_def)
  from normal_terminal_needs_evidence [OF ap pre n] ap n(2) show ?thesis
    by (auto simp: finish_def sample_command_def)
qed

end
