(* ===== verification/Event_Envelope.thy ===== *)
theory Event_Envelope
  imports Event_Log Evidence_Roundtrip
begin

section \<open>Event envelopes\<close>

text \<open>
  \<^verbatim>\<open>GatewayEventEnvelope\<close> of \<^verbatim>\<open>gateway/models.py\<close> and the parts of \<^verbatim>\<open>gateway/event_store.py\<close> that read it:
  strict parsing of canonical text, the upcast of historical envelopes in memory, the schema registry, and
  the check that a stored body is the one its index row names. The lemmas at the end read back what
  \<open>write_event\<close> stored.
\<close>

subsection \<open>Definitions\<close>

record GatewayEventEnvelope =
  en_version :: nat
  en_event_id :: string
  en_sequence :: nat
  en_timestamp :: string
  en_project_id :: string
  en_session_id :: "string option"
  en_run_id :: "string option"
  en_type :: string
  en_payload :: dict
  en_command_id :: "string option"
  en_event_key :: "string option"
  en_stream_id :: "string option"
  en_stream_sequence :: "nat option"
  en_event_type :: "string option"
  en_schema_version :: nat
  en_causation_id :: "string option"
  en_correlation_id :: "string option"
  en_payload_hash :: "string option"

definition envelope_keys :: "string list" where
  "envelope_keys = [''version'', ''event_id'', ''sequence'', ''timestamp'', ''project_id'', ''session_id'',
     ''run_id'', ''type'', ''payload'', ''command_id'', ''event_key'', ''stream_id'', ''stream_sequence'',
     ''event_type'', ''schema_version'', ''causation_id'', ''correlation_id'', ''payload_hash'']"

text \<open>Fields with a default: the version, the payload, an optional sequence.\<close>

definition get_version :: "dict \<Rightarrow> nat option" where
  "get_version d =
     (case map_of d ''version'' of None \<Rightarrow> Some 1
      | Some (JInt i) \<Rightarrow> if i \<in> {1, 2, 3} then Some (nat i) else None | _ \<Rightarrow> None)"

definition get_payload :: "dict \<Rightarrow> dict option" where
  "get_payload d = (case map_of d ''payload'' of None \<Rightarrow> Some [] | Some (JObj p) \<Rightarrow> Some p | _ \<Rightarrow> None)"

definition get_opt_pos :: "dict \<Rightarrow> string \<Rightarrow> nat option option" where
  "get_opt_pos d k =
     (case map_of d k of None \<Rightarrow> Some None | Some JNull \<Rightarrow> Some None
      | Some (JInt i) \<Rightarrow> if 1 \<le> i then Some (Some (nat i)) else None | _ \<Rightarrow> None)"

definition get_schema_version :: "dict \<Rightarrow> nat option" where
  "get_schema_version d = (if map_of d ''schema_version'' = None then Some 1 else get_pos d ''schema_version'')"

definition envelope_of_json :: "json \<Rightarrow> GatewayEventEnvelope option" where
  "envelope_of_json j =
    (case j of
       JObj d \<Rightarrow>
         if \<not> only_keys envelope_keys d then None
         else Option.bind (get_version d) (\<lambda>version.
              Option.bind (get_text d ''event_id'') (\<lambda>event_id.
              Option.bind (get_pos d ''sequence'') (\<lambda>sequence.
              Option.bind (get_text d ''timestamp'') (\<lambda>timestamp.
              Option.bind (get_text d ''project_id'') (\<lambda>project_id.
              Option.bind (get_opt_text d ''session_id'') (\<lambda>session_id.
              Option.bind (get_opt_text d ''run_id'') (\<lambda>run_id.
              Option.bind (get_text d ''type'') (\<lambda>type_name.
              Option.bind (get_payload d) (\<lambda>payload.
              Option.bind (get_opt_text d ''command_id'') (\<lambda>command_id.
              Option.bind (get_opt_text d ''event_key'') (\<lambda>event_key.
              Option.bind (get_opt_text d ''stream_id'') (\<lambda>stream_id.
              Option.bind (get_opt_pos d ''stream_sequence'') (\<lambda>stream_sequence.
              Option.bind (get_opt_text d ''event_type'') (\<lambda>event_type.
              Option.bind (get_schema_version d) (\<lambda>schema_version.
              Option.bind (get_opt_text d ''causation_id'') (\<lambda>causation_id.
              Option.bind (get_opt_text d ''correlation_id'') (\<lambda>correlation_id.
              Option.bind (get_opt_hash d ''payload_hash'') (\<lambda>payload_hash.
              Some \<lparr>en_version = version, en_event_id = event_id, en_sequence = sequence,
                    en_timestamp = timestamp, en_project_id = project_id, en_session_id = session_id,
                    en_run_id = run_id, en_type = type_name, en_payload = payload,
                    en_command_id = command_id, en_event_key = event_key, en_stream_id = stream_id,
                    en_stream_sequence = stream_sequence, en_event_type = event_type,
                    en_schema_version = schema_version, en_causation_id = causation_id,
                    en_correlation_id = correlation_id, en_payload_hash = payload_hash\<rparr>))))))))))))))))))
     | _ \<Rightarrow> None)"

definition parse_canonical_event :: "env \<Rightarrow> string \<Rightarrow> GatewayEventEnvelope result" where
  "parse_canonical_event E raw = or_raise (Option.bind (json_loads E raw) envelope_of_json)
     (ValueError ''invalid event envelope'')"

definition upcast_envelope :: "GatewayEventEnvelope \<Rightarrow> GatewayEventEnvelope" where
  "upcast_envelope event =
     (if 2 \<le> en_version event then event
      else event\<lparr>en_stream_id := en_run_id event, en_stream_sequence := Some (en_sequence event),
             en_event_type := Some (en_type event), en_schema_version := 1\<rparr>)"

definition project_event :: "env \<Rightarrow> string \<Rightarrow> GatewayEventEnvelope result" where
  "project_event E raw = rbind (parse_canonical_event E raw) (\<lambda>event. Inr (upcast_envelope event))"

text \<open>The schema registry is its dictionary of versions.\<close>

definition register_schema :: "(string \<times> nat) list \<Rightarrow> string \<Rightarrow> int \<Rightarrow> (string \<times> nat) list result" where
  "register_schema versions event_type version =
     (if version < 1 then Inl (ValueError ''Event schema version must be positive'')
      else case map_of versions event_type of
             Some existing \<Rightarrow>
               if int existing \<noteq> version then Inl (ValueError ''Event schema already registered'')
               else Inr (AList.update event_type (nat version) versions)
           | None \<Rightarrow> Inr (AList.update event_type (nat version) versions))"

definition current_version :: "(string \<times> nat) list \<Rightarrow> string \<Rightarrow> nat" where
  "current_version versions event_type =
     (case map_of versions event_type of None \<Rightarrow> 1 | Some n \<Rightarrow> n)"

record CanonicalEventRecord =
  ce_event_id :: string
  ce_stream_id :: string
  ce_stream_sequence :: nat
  ce_canonical_event_json :: string
  ce_canonical_hash :: string

definition event_stream :: "GatewayEventEnvelope \<Rightarrow> string option" where
  "event_stream event = or_else (en_stream_id event) (en_run_id event)"

definition event_sequence :: "GatewayEventEnvelope \<Rightarrow> nat" where
  "event_sequence event = (case en_stream_sequence event of None \<Rightarrow> en_sequence event | Some n \<Rightarrow> n)"

definition validate_row :: "env \<Rightarrow> event_row \<Rightarrow> string \<Rightarrow> CanonicalEventRecord result" where
  "validate_row E row raw =
     rbind (raise_if (sha256 E raw \<noteq> ev_canonical_hash row)
              (EventStoreIntegrityError ''Canonical hash mismatch'')) (\<lambda>_.
     rbind (parse_canonical_event E raw) (\<lambda>event.
     rbind (raise_if (en_event_id event \<noteq> ev_event_id row \<or> event_stream event \<noteq> Some (ev_stream_id row)
                \<or> event_sequence event \<noteq> ev_stream_sequence row)
              (EventStoreIntegrityError ''Canonical envelope identity differs from its index row'')) (\<lambda>_.
     Inr \<lparr>ce_event_id = ev_event_id row, ce_stream_id = ev_stream_id row,
          ce_stream_sequence = ev_stream_sequence row, ce_canonical_event_json = raw,
          ce_canonical_hash = sha256 E raw\<rparr>)))"

subsection \<open>Reading back a written event\<close>

definition event_dict :: "env \<Rightarrow> AgentState \<Rightarrow> event_row \<Rightarrow> dict" where
  "event_dict E st e = (case event_json E st e of JObj d \<Rightarrow> d | _ \<Rightarrow> [])"

lemma event_json_dict: "event_json E st e = JObj (event_dict E st e)"
  by (simp add: event_dict_def event_json_def)

lemma event_dict_keys: "map fst (event_dict E st e) = envelope_keys" "distinct envelope_keys"
  by (simp_all add: event_dict_def event_json_def envelope_keys_def)

lemma opt_str_unique [simp]: "unique_keys (opt_str x)" "sort_keys (opt_str x) = opt_str x"
  by (cases x; simp add: opt_str_def)+

lemma event_unique_keys: "unique_keys (event_json E st e) \<longleftrightarrow> unique_keys (JObj (ev_payload e))"
  by (simp add: event_json_def)

text \<open>The dictionary a parser returns for the text of an event, and its fields.\<close>

definition read_dict :: "env \<Rightarrow> AgentState \<Rightarrow> event_row \<Rightarrow> dict" where
  "read_dict E st e = sort_key fst (map (\<lambda>(k, v). (k, sort_keys v)) (event_dict E st e))"

lemma event_text_reads:
  assumes "json_loads E = json_parse" "unique_keys (JObj (ev_payload e))"
  shows "json_loads E (canonical_json (event_json E st e)) = Some (JObj (read_dict E st e))"
  using canonical_json_reads [of "event_json E st e"] assms(2)
  by (simp add: event_unique_keys assms(1)) (simp add: event_json_dict read_dict_def)

lemma read_dict_fields:
  "map_of (read_dict E st e) k = map_option sort_keys (map_of (event_dict E st e) k)"
proof -
  have "map fst (map (\<lambda>(k, v). (k, sort_keys v)) (event_dict E st e)) = envelope_keys"
    using event_dict_keys(1) [of E st e] by (simp add: case_prod_unfold comp_def)
  then have "map_of (read_dict E st e) = map_of (map (\<lambda>(k, v). (k, sort_keys v)) (event_dict E st e))"
    unfolding read_dict_def using event_dict_keys(2) by (intro map_of_sort_key) simp
  then show ?thesis by (simp add: map_of_map)
qed

lemma read_dict_only: "only_keys envelope_keys (read_dict E st e)"
proof -
  have "set envelope_keys = fst ` set (event_dict E st e)"
    using event_dict_keys(1) [of E st e] by (metis list.set_map)
  then show ?thesis by (auto simp: only_keys_def list_all_iff read_dict_def rev_image_eqI)
qed

lemma get_opt_str: "map_of d k = Some (opt_str x) \<Longrightarrow> get_opt_text d k = Some x"
  by (cases x) (simp_all add: get_opt_text_def opt_str_def)

text \<open>When an event's text parses, the envelope carries the identity of its row.\<close>

lemma parsed_event_ids:
  assumes "json_loads E = json_parse" "unique_keys (JObj (ev_payload e))"
    and "parse_canonical_event E (canonical_json (event_json E st e)) = Inr v"
  shows "en_event_id v = ev_event_id e" "en_run_id v = Some (st_run_id st)"
    "en_stream_id v = Some (ev_stream_id e)" "en_stream_sequence v = Some (ev_stream_sequence e)"
proof -
  let ?d = "read_dict E st e"
  have v: "envelope_of_json (JObj ?d) = Some v"
    using assms(3) event_text_reads [OF assms(1,2), of st] by (simp add: parse_canonical_event_def result_simps)
  have f: "map_of ?d ''event_id'' = Some (JStr (ev_event_id e))" "map_of ?d ''run_id'' = Some (JStr (st_run_id st))"
    "map_of ?d ''stream_id'' = Some (JStr (ev_stream_id e))"
    "map_of ?d ''stream_sequence'' = Some (JInt (int (ev_stream_sequence e)))"
    unfolding read_dict_fields by (simp_all add: event_dict_def event_json_def)
  then show "en_event_id v = ev_event_id e" "en_run_id v = Some (st_run_id st)"
    "en_stream_id v = Some (ev_stream_id e)" "en_stream_sequence v = Some (ev_stream_sequence e)"
    using v
    by (auto simp: envelope_of_json_def get_text_def get_opt_text_def get_opt_pos_def bind_eq_Some_conv
        split: if_splits)
qed

text \<open>An event whose columns satisfy the envelope's field constraints parses.\<close>

definition envelope_fields_ok :: "env \<Rightarrow> AgentState \<Rightarrow> event_row \<Rightarrow> bool" where
  "envelope_fields_ok E st e \<longleftrightarrow>
     ev_event_id e \<noteq> [] \<and> 1 \<le> ev_stream_sequence e \<and> iso E (ev_occurred_at e) \<noteq> [] \<and> st_project_id st \<noteq> [] \<and>
     ev_event_type e \<noteq> [] \<and> is_sha256_hex (ev_payload_hash e)"

lemma event_parses:
  assumes "json_loads E = json_parse" "unique_keys (JObj (ev_payload e))" "envelope_fields_ok E st e"
  obtains v where "parse_canonical_event E (canonical_json (event_json E st e)) = Inr v"
proof -
  let ?d = "read_dict E st e"
  have ok: "ev_event_id e \<noteq> []" "1 \<le> ev_stream_sequence e" "iso E (ev_occurred_at e) \<noteq> []" "st_project_id st \<noteq> []"
    "ev_event_type e \<noteq> []" "is_sha256_hex (ev_payload_hash e)"
    using assms(3) by (simp_all add: envelope_fields_ok_def)
  note F = read_dict_fields [of E st e]
  have "get_version ?d = Some 2" unfolding get_version_def F by (simp add: event_dict_def event_json_def)
  moreover have "get_text ?d ''event_id'' = Some (ev_event_id e)"
    using ok(1) unfolding get_text_def F by (simp add: event_dict_def event_json_def)
  moreover have "get_pos ?d ''sequence'' = Some (ev_stream_sequence e)"
    using ok(2) unfolding get_pos_def F by (simp add: event_dict_def event_json_def)
  moreover have "get_text ?d ''timestamp'' = Some (iso E (ev_occurred_at e))"
    using ok(3) unfolding get_text_def F by (simp add: event_dict_def event_json_def)
  moreover have "get_text ?d ''project_id'' = Some (st_project_id st)"
    using ok(4) unfolding get_text_def F by (simp add: event_dict_def event_json_def)
  moreover have "get_opt_text ?d ''session_id'' = Some (st_session_id st)"
    by (rule get_opt_str, unfold F) (simp add: event_dict_def event_json_def)
  moreover have "get_opt_text ?d ''run_id'' = Some (Some (st_run_id st))"
    unfolding get_opt_text_def F by (simp add: event_dict_def event_json_def)
  moreover have "get_text ?d ''type'' = Some (ev_event_type e)"
    using ok(5) unfolding get_text_def F by (simp add: event_dict_def event_json_def)
  moreover obtain p where "get_payload ?d = Some p"
    unfolding get_payload_def F by (simp add: event_dict_def event_json_def)
  moreover have "get_opt_text ?d ''command_id'' = Some (Some (ev_command_id e))"
    unfolding get_opt_text_def F by (simp add: event_dict_def event_json_def)
  moreover have "get_opt_text ?d ''event_key'' = Some (Some (ev_event_key e))"
    unfolding get_opt_text_def F by (simp add: event_dict_def event_json_def)
  moreover have "get_opt_text ?d ''stream_id'' = Some (Some (ev_stream_id e))"
    unfolding get_opt_text_def F by (simp add: event_dict_def event_json_def)
  moreover have "get_opt_pos ?d ''stream_sequence'' = Some (Some (ev_stream_sequence e))"
    using ok(2) unfolding get_opt_pos_def F by (simp add: event_dict_def event_json_def)
  moreover have "get_opt_text ?d ''event_type'' = Some (Some (ev_event_type e))"
    unfolding get_opt_text_def F by (simp add: event_dict_def event_json_def)
  moreover have "get_schema_version ?d = Some 1"
    unfolding get_schema_version_def get_pos_def F by (simp add: event_dict_def event_json_def)
  moreover have "get_opt_text ?d ''causation_id'' = Some (ev_causation_id e)"
    by (rule get_opt_str, unfold F) (simp add: event_dict_def event_json_def)
  moreover have "get_opt_text ?d ''correlation_id'' = Some (Some (ev_correlation_id e))"
    unfolding get_opt_text_def F by (simp add: event_dict_def event_json_def)
  moreover have "get_opt_hash ?d ''payload_hash'' = Some (Some (ev_payload_hash e))"
    using ok(6) unfolding get_opt_hash_def get_opt_text_def F
    by (simp add: event_dict_def event_json_def opt_hash_ok_def)
  ultimately have "\<exists>v. envelope_of_json (JObj ?d) = Some v"
    using read_dict_only [of E st e] by (simp add: envelope_of_json_def)
  then show thesis
    using that event_text_reads [OF assms(1,2), of st] by (auto simp: parse_canonical_event_def or_raise_def)
qed

end
