(* ===== verification/Outbox.thy ===== *)
theory Outbox
  imports Event_Envelope "HOL-Library.Product_Lexorder"
begin

section \<open>The outbox dispatcher and its sinks\<close>

text \<open>
  \<^verbatim>\<open>gateway/outbox.py\<close> and the event bus of \<^verbatim>\<open>gateway/events.py\<close>. A delivery is claimed in one transaction
  (compare and set on its revision, one attempt row), handed to its sink outside of any transaction, and
  settled in another. Between two of these the process may die, so every operation is its own definition;
  \<open>drain_once\<close> is their composition.

  A JSONL file is the list of its lines, and appending a line is atomic (a torn last line is what
  \<^verbatim>\<open>_load_index\<close> reports as damaged and is not produced by the model). The derived \<^verbatim>\<open>.events.idx\<close> files are
  written and never read, so they are not part of the state. The retry instants of a delivery are the
  texts the code stores, because SQL compares the texts.
\<close>

subsection \<open>The JSONL sink\<close>

record jsonl_sink =
  js_files :: "(string \<times> string list) list"
  js_known :: "(string \<times> (string \<times> string) list) list"

definition jsonl_lines :: "jsonl_sink \<Rightarrow> string \<Rightarrow> string list" where
  "jsonl_lines s run_id = (case map_of (js_files s) run_id of None \<Rightarrow> [] | Some ls \<Rightarrow> ls)"

definition blank_line :: "string \<Rightarrow> bool" where
  "blank_line s \<longleftrightarrow> list_all is_space s"

fun load_index :: "env \<Rightarrow> (string \<times> string) list \<Rightarrow> string list \<Rightarrow> (string \<times> string) list result" where
  "load_index E values [] = Inr values"
| "load_index E values (line # lines) =
     (if blank_line line then load_index E values lines
      else case parse_canonical_event E line of
             Inl _ \<Rightarrow> Inl (RuntimeError ''Gateway Event JSONL contains a damaged record'')
           | Inr event \<Rightarrow>
               (case map_of values (en_event_id event) of
                  Some existing \<Rightarrow>
                    if existing \<noteq> sha256 E line then Inl (ProjectionConflict ''Duplicate JSONL event identity'')
                    else load_index E (AList.update (en_event_id event) (sha256 E line) values) lines
                | None \<Rightarrow> load_index E (AList.update (en_event_id event) (sha256 E line) values) lines))"

definition known_index :: "env \<Rightarrow> jsonl_sink \<Rightarrow> string \<Rightarrow> (string \<times> string) list result" where
  "known_index E s run_id =
     (case map_of (js_known s) run_id of Some known \<Rightarrow> Inr known | None \<Rightarrow> load_index E [] (jsonl_lines s run_id))"

text \<open>\<^verbatim>\<open>f"{selected_run_id}.jsonl"\<close>: a missing run id prints as \<^verbatim>\<open>None\<close>.\<close>

definition file_of_run :: "string option \<Rightarrow> string" where
  "file_of_run r = (case r of None \<Rightarrow> ''None'' | Some i \<Rightarrow> i)"

definition append_once ::
  "env \<Rightarrow> jsonl_sink \<Rightarrow> string \<Rightarrow> string \<Rightarrow> string option \<Rightarrow> jsonl_sink \<times> bool result" where
  "append_once E s raw canonical_hash run_id =
     (case parse_canonical_event E raw of
        Inl e \<Rightarrow> (s, Inl e)
      | Inr event \<Rightarrow>
          let file = file_of_run (or_else run_id (en_run_id event)) in
          if sha256 E raw \<noteq> canonical_hash
          then (s, Inl (ProjectionConflict ''JSONL input hash does not match canonical content''))
          else case known_index E s file of
                 Inl e \<Rightarrow> (s, Inl e)
               | Inr known \<Rightarrow>
                   let s1 = s\<lparr>js_known := AList.update file known (js_known s)\<rparr> in
                   (case map_of known (en_event_id event) of
                      Some existing \<Rightarrow>
                        if existing \<noteq> canonical_hash
                        then (s1, Inl (ProjectionConflict ''event_id already has different canonical content''))
                        else (s1, Inr False)
                    | None \<Rightarrow>
                        (s1\<lparr>js_files := AList.update file (jsonl_lines s file @ [raw]) (js_files s),
                            js_known := AList.update file
                              (AList.update (en_event_id event) canonical_hash known) (js_known s)\<rparr>,
                         Inr True)))"

subsection \<open>The event bus\<close>

record subscription =
  su_subscription_id :: nat
  su_client_id :: string
  su_queue :: "GatewayEventEnvelope list"
  su_stream_ids :: "string list"

record event_bus =
  eb_queue_size :: nat
  eb_subscriptions :: "subscription list"
  eb_next_id :: nat
  eb_client_counts :: "(string \<times> nat) list"
  eb_published_ids :: "string list"

definition new_bus :: "nat \<Rightarrow> event_bus" where
  "new_bus n = \<lparr>eb_queue_size = n, eb_subscriptions = [], eb_next_id = 0, eb_client_counts = [],
     eb_published_ids = []\<rparr>"

definition client_count :: "event_bus \<Rightarrow> string \<Rightarrow> nat" where
  "client_count b c = (case map_of (eb_client_counts b) c of None \<Rightarrow> 0 | Some n \<Rightarrow> n)"

definition subscribe :: "event_bus \<Rightarrow> string \<Rightarrow> string option \<Rightarrow> string list \<Rightarrow> event_bus \<times> nat" where
  "subscribe b client run_id stream_ids =
     (let n = eb_next_id b + 1;
          streams = (if stream_ids \<noteq> [] then stream_ids else if truthy run_id then [the run_id] else [])
      in (b\<lparr>eb_next_id := n,
            eb_subscriptions := eb_subscriptions b @ [\<lparr>su_subscription_id = n, su_client_id = client,
              su_queue = [], su_stream_ids = streams\<rparr>],
            eb_client_counts := AList.update client (client_count b client + 1) (eb_client_counts b)\<rparr>, n))"

definition unsubscribe :: "event_bus \<Rightarrow> nat \<Rightarrow> event_bus" where
  "unsubscribe b i =
     (case find (\<lambda>s. su_subscription_id s = i) (eb_subscriptions b) of
        None \<Rightarrow> b
      | Some s \<Rightarrow>
          let remaining = int (case map_of (eb_client_counts b) (su_client_id s) of None \<Rightarrow> 1 | Some n \<Rightarrow> n) - 1 in
          b\<lparr>eb_subscriptions := filter (\<lambda>x. su_subscription_id x \<noteq> i) (eb_subscriptions b),
            eb_client_counts := (if remaining \<le> 0 then AList.delete (su_client_id s) (eb_client_counts b)
              else AList.update (su_client_id s) (nat remaining) (eb_client_counts b))\<rparr>)"

definition is_connected :: "event_bus \<Rightarrow> string \<Rightarrow> bool" where
  "is_connected b client \<longleftrightarrow> 0 < client_count b client"

text \<open>\<^verbatim>\<open>put_nowait\<close> on a queue with room for this stream; a full queue drops the event. Size 0 is unbounded.\<close>

definition offer :: "nat \<Rightarrow> GatewayEventEnvelope \<Rightarrow> subscription \<Rightarrow> subscription" where
  "offer room event s =
     (if su_stream_ids s \<noteq> [] \<and> event_stream event \<notin> Some ` set (su_stream_ids s) then s
      else if 0 < room \<and> room \<le> length (su_queue s) then s
      else s\<lparr>su_queue := su_queue s @ [event]\<rparr>)"

definition deliver_from_outbox :: "event_bus \<Rightarrow> GatewayEventEnvelope \<Rightarrow> event_bus" where
  "deliver_from_outbox b event =
     (if en_event_id event \<in> set (eb_published_ids b) then b
      else let ids = eb_published_ids b @ [en_event_id event] in
        b\<lparr>eb_published_ids := (if 100000 < length ids then [en_event_id event] else ids),
          eb_subscriptions := map (offer (eb_queue_size b) event) (eb_subscriptions b)\<rparr>)"

subsection \<open>Claiming a delivery\<close>

record dispatcher_config =
  dc_gateway_epoch :: string
  dc_retry_max_attempts :: nat
  dc_retry_base_seconds :: seconds
  dc_retry_max_seconds :: seconds
  dc_dead_letter_enabled :: bool

record ClaimedDelivery =
  cl_delivery_id :: string
  cl_attempt_id :: string
  cl_attempt_no :: nat
  cl_revision :: nat
  cl_sink_id :: string
  cl_event_id :: string
  cl_canonical_event_json :: string
  cl_canonical_hash :: string

definition event_in :: "db \<Rightarrow> string \<Rightarrow> event_row option" where
  "event_in d i = lookup_row ev_event_id i (gateway_events d)"

definition settled :: "DeliveryStatus \<Rightarrow> bool" where
  "settled s \<longleftrightarrow> s = Delivered \<or> s = DeadLettered"

definition waiting :: "delivery_row \<Rightarrow> string \<Rightarrow> bool" where
  "waiting x now \<longleftrightarrow>
     dl_status x \<in> {Pending, Retrying} \<and>
     (case dl_next_retry_at x of None \<Rightarrow> True | Some t \<Rightarrow> t \<le> now)"

text \<open>An earlier event of the same stream is not settled yet for the same sink.\<close>

definition blocked_by_prior :: "db \<Rightarrow> delivery_row \<Rightarrow> event_row \<Rightarrow> bool" where
  "blocked_by_prior d x e =
     list_ex (\<lambda>p. dl_sink_id p = dl_sink_id x \<and> \<not> settled (dl_status p) \<and>
       (case event_in d (dl_event_id p) of None \<Rightarrow> False
        | Some pe \<Rightarrow> ev_stream_id pe = ev_stream_id e \<and> ev_stream_sequence pe < ev_stream_sequence e))
     (event_deliveries d)"

definition due_rows :: "db \<Rightarrow> string \<Rightarrow> (delivery_row \<times> outbox_row \<times> event_row) list" where
  "due_rows d now =
     List.map_filter (\<lambda>x.
       case (lookup_row ob_outbox_id (dl_outbox_id x) (event_outbox d), event_in d (dl_event_id x)) of
         (Some ob, Some e) \<Rightarrow> if waiting x now \<and> \<not> blocked_by_prior d x e then Some (x, ob, e) else None
       | _ \<Rightarrow> None)
     (event_deliveries d)"

definition due_deliveries :: "env \<Rightarrow> db \<Rightarrow> timestamp \<Rightarrow> (string \<times> nat) list" where
  "due_deliveries E d now =
     take 100 (map (\<lambda>(x, ob, e). (dl_delivery_id x, dl_revision x))
       (sort_key (\<lambda>(x, ob, e). (iso E (ob_created ob), ev_stream_id e, ev_stream_sequence e, dl_sink_id x))
         (due_rows d (iso E now))))"

definition delivery_attempt_id :: "env \<Rightarrow> string \<Rightarrow> nat \<Rightarrow> string" where
  "delivery_attempt_id E i n = sha256 E (''event-delivery-attempt:'' @ i @ '':'' @ nat_text n)"

definition insert_delivery_attempt :: "db \<Rightarrow> delivery_attempt_row \<Rightarrow> db result" where
  "insert_delivery_attempt d r =
     (if list_ex (\<lambda>a. da_attempt_id a = da_attempt_id r \<or>
           (da_delivery_id a = da_delivery_id r \<and> da_attempt_no a = da_attempt_no r) \<or>
           (da_delivery_id a = da_delivery_id r \<and> da_status a = AttemptDelivering \<and> da_status r = AttemptDelivering))
         (event_delivery_attempts d)
      then Inl (IntegrityError ''event_delivery_attempts'')
      else Inr (d\<lparr>event_delivery_attempts := event_delivery_attempts d @ [r]\<rparr>))"

definition claimable :: "delivery_row \<Rightarrow> string \<Rightarrow> nat \<Rightarrow> string \<Rightarrow> bool" where
  "claimable x i n now \<longleftrightarrow> dl_delivery_id x = i \<and> dl_revision x = n \<and> waiting x now"

definition claimed :: "delivery_row \<Rightarrow> delivery_row" where
  "claimed x = x\<lparr>dl_status := Delivering, dl_attempt_count := dl_attempt_count x + 1, dl_revision := dl_revision x + 1\<rparr>"

definition claim_delivery ::
  "dispatcher_config \<Rightarrow> env \<Rightarrow> db \<Rightarrow> string \<Rightarrow> nat \<Rightarrow> timestamp \<Rightarrow> (db \<times> ClaimedDelivery option) result" where
  "claim_delivery K E d i expected_revision now =
     (let p = (\<lambda>x. claimable x i expected_revision (iso E now)) in
      if count_rows p (event_deliveries d) \<noteq> 1 then Inr (d, None)
      else
        let d1 = d\<lparr>event_deliveries := update_rows p claimed (event_deliveries d)\<rparr> in
        case lookup_row dl_delivery_id i (event_deliveries d1) of
          None \<Rightarrow> Inl (RuntimeError ''Due delivery has no hot canonical event body'')
        | Some x \<Rightarrow>
            (case event_in d1 (dl_event_id x) of
               None \<Rightarrow> Inl (RuntimeError ''Due delivery has no hot canonical event body'')
             | Some e \<Rightarrow>
                 (case ev_canonical_event_json e of
                    None \<Rightarrow> Inl (RuntimeError ''Due delivery has no hot canonical event body'')
                  | Some raw \<Rightarrow>
                      let n = dl_attempt_count x; aid = delivery_attempt_id E i n in
                      rbind (insert_delivery_attempt d1 \<lparr>da_attempt_id = aid, da_delivery_id = i,
                        da_attempt_no = n, da_gateway_epoch = dc_gateway_epoch K, da_status = AttemptDelivering,
                        da_started_at = now, da_completed_at = None, da_error_type = None,
                        da_error_summary = None\<rparr>) (\<lambda>d2.
                      Inr (d2, Some \<lparr>cl_delivery_id = i, cl_attempt_id = aid, cl_attempt_no = n,
                        cl_revision = dl_revision x, cl_sink_id = dl_sink_id x, cl_event_id = dl_event_id x,
                        cl_canonical_event_json = raw, cl_canonical_hash = ev_canonical_hash e\<rparr>)))))"

subsection \<open>Settling a claim\<close>

definition settle_attempt ::
  "db \<Rightarrow> ClaimedDelivery \<Rightarrow> DeliveryAttemptStatus \<Rightarrow> timestamp \<Rightarrow> string option \<Rightarrow> string option \<Rightarrow> db result" where
  "settle_attempt d c status ts error_type summary =
     (let p = (\<lambda>a. da_attempt_id a = cl_attempt_id c \<and> da_status a = AttemptDelivering) in
      if count_rows p (event_delivery_attempts d) \<noteq> 1
      then Inl (RuntimeError ''Delivery attempt is no longer active'')
      else Inr (d\<lparr>event_delivery_attempts := update_rows p (\<lambda>a. a\<lparr>da_status := status, da_completed_at := Some ts,
             da_error_type := error_type, da_error_summary := summary\<rparr>) (event_delivery_attempts d)\<rparr>))"

definition required_delivered :: "db \<Rightarrow> string \<Rightarrow> bool" where
  "required_delivered d event_id \<longleftrightarrow>
     \<not> list_ex (\<lambda>x. dl_event_id x = event_id \<and> dl_required x \<and> dl_status x \<noteq> Delivered) (event_deliveries d)"

definition completed_now :: "timestamp \<Rightarrow> outbox_row \<Rightarrow> outbox_row" where
  "completed_now ts r = r\<lparr>ob_completed_at := Some ts, ob_outbox_revision := ob_outbox_revision r + 1\<rparr>"

definition complete_outbox_if_ready :: "db \<Rightarrow> string \<Rightarrow> timestamp \<Rightarrow> db" where
  "complete_outbox_if_ready d event_id ts =
     d\<lparr>event_outbox := update_rows (\<lambda>r. ob_event_id r = event_id \<and> ob_completed_at r = None
         \<and> required_delivered d event_id) (completed_now ts) (event_outbox d)\<rparr>"

definition active_claim :: "ClaimedDelivery \<Rightarrow> delivery_row \<Rightarrow> bool" where
  "active_claim c x \<longleftrightarrow> dl_delivery_id x = cl_delivery_id c \<and> dl_revision x = cl_revision c \<and> dl_status x = Delivering"

definition update_claimed :: "db \<Rightarrow> ClaimedDelivery \<Rightarrow> (delivery_row \<Rightarrow> delivery_row) \<Rightarrow> string \<Rightarrow> db result" where
  "update_claimed d c f label =
     (if count_rows (active_claim c) (event_deliveries d) \<noteq> 1 then Inl (RuntimeError label)
      else Inr (d\<lparr>event_deliveries := update_rows (active_claim c) f (event_deliveries d)\<rparr>))"

definition delivered_row :: "timestamp \<Rightarrow> delivery_row \<Rightarrow> delivery_row" where
  "delivered_row ts x = x\<lparr>dl_status := Delivered, dl_next_retry_at := None, dl_last_error_type := None,
     dl_last_error := None, dl_delivered_at := Some ts, dl_revision := dl_revision x + 1\<rparr>"

definition finish_success :: "db \<Rightarrow> ClaimedDelivery \<Rightarrow> timestamp \<Rightarrow> db result" where
  "finish_success d c ts =
     rbind (settle_attempt d c AttemptSucceeded ts None None) (\<lambda>d1.
     rbind (update_claimed d1 c (delivered_row ts) ''Delivery completion CAS failed'') (\<lambda>d2.
     Inr (complete_outbox_if_ready d2 (cl_event_id c) ts)))"

definition dead_letter :: "dispatcher_config \<Rightarrow> nat \<Rightarrow> bool" where
  "dead_letter K n \<longleftrightarrow> dc_dead_letter_enabled K \<and> dc_retry_max_attempts K \<le> n"

definition delivery_delay :: "dispatcher_config \<Rightarrow> nat \<Rightarrow> seconds" where
  "delivery_delay K n = min (dc_retry_max_seconds K) (dc_retry_base_seconds K * 2 ^ (n - 1))"

definition failed_row ::
  "dispatcher_config \<Rightarrow> env \<Rightarrow> nat \<Rightarrow> string \<Rightarrow> string \<Rightarrow> timestamp \<Rightarrow> timestamp \<Rightarrow> delivery_row \<Rightarrow> delivery_row" where
  "failed_row K E n error_type summary ts utc_now x =
     (let dead = dead_letter K n in
      x\<lparr>dl_status := (if dead then DeadLettered else Retrying),
        dl_next_retry_at := (if dead then None else Some (iso_utc E (utc_now + delivery_delay K n))),
        dl_last_error_type := Some error_type, dl_last_error := Some summary,
        dl_dead_lettered_at := (if dead then Some ts else None), dl_revision := dl_revision x + 1\<rparr>)"

text \<open>An exception is its class name and its text; the summary is sanitized and cut.\<close>

definition error_summary :: "string \<Rightarrow> string \<Rightarrow> string" where
  "error_summary error_type text = take 2000 (sanitize_text (if text \<noteq> [] then text else error_type))"

definition finish_failure ::
  "dispatcher_config \<Rightarrow> env \<Rightarrow> db \<Rightarrow> ClaimedDelivery \<Rightarrow> string \<Rightarrow> string \<Rightarrow> timestamp \<Rightarrow> timestamp \<Rightarrow> db result" where
  "finish_failure K E d c error_type text ts utc_now =
     (let summary = error_summary error_type text in
      rbind (settle_attempt d c AttemptFailed ts (Some error_type) (Some summary)) (\<lambda>d1.
      update_claimed d1 c (failed_row K E (cl_attempt_no c) error_type summary ts utc_now)
        ''Delivery failure CAS failed''))"

subsection \<open>Restart\<close>

definition delivery_orphans :: "db \<Rightarrow> bool" where
  "delivery_orphans d \<longleftrightarrow>
     list_ex (\<lambda>a. lookup_row dl_delivery_id (da_delivery_id a) (event_deliveries d) = None) (event_delivery_attempts d) \<or>
     list_ex (\<lambda>r. event_in d (ob_event_id r) = None) (event_outbox d) \<or>
     list_ex (\<lambda>x. lookup_row ob_outbox_id (dl_outbox_id x) (event_outbox d) = None \<or> event_in d (dl_event_id x) = None)
       (event_deliveries d)"

definition interrupt_attempt :: "timestamp \<Rightarrow> delivery_attempt_row \<Rightarrow> delivery_attempt_row" where
  "interrupt_attempt ts a = a\<lparr>da_status := AttemptInterrupted, da_completed_at := Some ts,
     da_error_type := Some ''GatewayRestart'', da_error_summary := Some ''delivery interrupted before durable result''\<rparr>"

definition interrupt_delivery :: "env \<Rightarrow> timestamp \<Rightarrow> delivery_row \<Rightarrow> delivery_row" where
  "interrupt_delivery E ts x = x\<lparr>dl_status := Retrying, dl_next_retry_at := Some (iso E ts),
     dl_last_error_type := Some ''GatewayRestart'', dl_last_error := Some ''delivery interrupted'',
     dl_revision := dl_revision x + 1\<rparr>"

definition interrupt_one :: "env \<Rightarrow> timestamp \<Rightarrow> db \<Rightarrow> delivery_attempt_row \<Rightarrow> db" where
  "interrupt_one E ts d a = d\<lparr>
     event_delivery_attempts := update_rows (\<lambda>r. da_attempt_id r = da_attempt_id a \<and> da_status r = AttemptDelivering)
       (interrupt_attempt ts) (event_delivery_attempts d),
     event_deliveries := update_rows (\<lambda>x. dl_delivery_id x = da_delivery_id a \<and> dl_status x = Delivering)
       (interrupt_delivery E ts) (event_deliveries d)\<rparr>"

definition complete_ready :: "db \<Rightarrow> timestamp \<Rightarrow> db \<times> nat" where
  "complete_ready d ts =
     (let p = (\<lambda>r. ob_completed_at r = None \<and> required_delivered d (ob_event_id r)) in
      (d\<lparr>event_outbox := update_rows p (completed_now ts) (event_outbox d)\<rparr>, count_rows p (event_outbox d)))"

definition reconcile_startup :: "env \<Rightarrow> db \<Rightarrow> timestamp \<Rightarrow> (db \<times> nat \<times> nat) result" where
  "reconcile_startup E d ts =
     (if delivery_orphans d then Inl (RuntimeError ''Gateway Event delivery invariant violation'')
      else
        let active = filter (\<lambda>a. da_status a = AttemptDelivering) (event_delivery_attempts d);
            d1 = foldl (interrupt_one E ts) d active;
            (d2, completed) = complete_ready d1 ts
        in Inr (d2, length active, completed))"

subsection \<open>One pass of the dispatcher\<close>

record dispatcher =
  dp_jsonl :: jsonl_sink
  dp_bus :: event_bus
  dp_paused_epoch :: "int option"

text \<open>The name and the text of an exception, as \<^verbatim>\<open>type(error).__name__\<close> and \<^verbatim>\<open>str(error)\<close>.\<close>

fun error_name :: "error \<Rightarrow> string \<times> string" where
  "error_name (ProjectionConflict m) = (''ProjectionConflict'', m)"
| "error_name (RuntimeError m) = (''RuntimeError'', m)"
| "error_name (ValueError m) = (''ValidationError'', m)"
| "error_name _ = (''Exception'', [])"

definition deliver_claim :: "env \<Rightarrow> dispatcher \<Rightarrow> ClaimedDelivery \<Rightarrow> dispatcher \<times> unit result" where
  "deliver_claim E p c =
     (if cl_sink_id c = ''eventbus'' then
        (case parse_canonical_event E (cl_canonical_event_json c) of
           Inl e \<Rightarrow> (p, Inl e)
         | Inr event \<Rightarrow> (p\<lparr>dp_bus := deliver_from_outbox (dp_bus p) event\<rparr>, Inr ()))
      else if cl_sink_id c = ''jsonl'' then
        (let (s, r) = append_once E (dp_jsonl p) (cl_canonical_event_json c) (cl_canonical_hash c) None
         in (p\<lparr>dp_jsonl := s\<rparr>, rbind r (\<lambda>_. Inr ())))
      else (p, Inl (RuntimeError ''No registered Event sink'')))"

definition finish ::
  "dispatcher_config \<Rightarrow> env \<Rightarrow> db \<Rightarrow> ClaimedDelivery \<Rightarrow> unit result \<Rightarrow> timestamp \<Rightarrow> timestamp \<Rightarrow> db result" where
  "finish K E d c r ts utc_now =
     (case r of
        Inl e \<Rightarrow> (let (name, text) = error_name e in finish_failure K E d c name text ts utc_now)
      | Inr _ \<Rightarrow> finish_success d c ts)"

text \<open>The clock readings of one candidate: at its claim, at its completion and for its retry instant.\<close>

record delivery_clock =
  ck_claim :: timestamp
  ck_finish :: timestamp
  ck_retry :: timestamp

fun drain_candidates ::
  "dispatcher_config \<Rightarrow> env \<Rightarrow> db \<Rightarrow> dispatcher \<Rightarrow> (string \<times> nat) list \<Rightarrow> delivery_clock list \<Rightarrow> nat
     \<Rightarrow> db \<times> dispatcher \<times> nat result" where
  "drain_candidates K E d p ((i, expected) # due) (t # ts) n =
     (case claim_delivery K E d i expected (ck_claim t) of
        Inl e \<Rightarrow> (d, p, Inl e)
      | Inr (d1, None) \<Rightarrow> drain_candidates K E d1 p due ts n
      | Inr (d1, Some c) \<Rightarrow>
          (case deliver_claim E p c of (p1, r) \<Rightarrow>
             (case finish K E d1 c r (ck_finish t) (ck_retry t) of
                Inl e \<Rightarrow> (d1, p1, Inl e)
              | Inr d2 \<Rightarrow> drain_candidates K E d2 p1 due ts (n + 1))))"
| "drain_candidates K E d p _ _ n = (d, p, Inr n)"

definition drain_once ::
  "dispatcher_config \<Rightarrow> env \<Rightarrow> db \<Rightarrow> dispatcher \<Rightarrow> timestamp \<Rightarrow> delivery_clock list \<Rightarrow> db \<times> dispatcher \<times> nat result" where
  "drain_once K E d p now clocks =
     (if dp_paused_epoch p \<noteq> None then (d, p, Inr 0)
      else drain_candidates K E d p (due_deliveries E d now) clocks 0)"

text \<open>The maintenance participant: a pause keeps the backlog, an older epoch neither pauses nor resumes.\<close>

definition quiesce_outbox :: "dispatcher \<Rightarrow> int \<Rightarrow> dispatcher \<times> bool" where
  "quiesce_outbox p epoch =
     (case dp_paused_epoch p of
        Some e \<Rightarrow> if epoch < e then (p, False) else (p\<lparr>dp_paused_epoch := Some epoch\<rparr>, True)
      | None \<Rightarrow> (p\<lparr>dp_paused_epoch := Some epoch\<rparr>, True))"

definition resume_outbox :: "dispatcher \<Rightarrow> int \<Rightarrow> dispatcher" where
  "resume_outbox p epoch =
     (if dp_paused_epoch p = Some epoch then p\<lparr>dp_paused_epoch := None\<rparr> else p)"

end
