(* ===== verification/Event_Steps.thy ===== *)
theory Event_Steps
  imports Outbox Controller_Runs
begin

section \<open>What the controller does to the event log\<close>

text \<open>
  Seen from the event tables a committed transaction of the controller is nothing or one \<open>write_event\<close>.
  \<open>log_inv\<close> is what the log's readers rely on: identities are unique, every stored body is the canonical
  text of its row, the sequence counter bounds every stream, each delivery belongs to a stored event and is
  the only one for its sink.
\<close>

definition same_log :: "db \<Rightarrow> db \<Rightarrow> bool" where
  "same_log d d' \<longleftrightarrow>
     gateway_events d' = gateway_events d \<and> event_outbox d' = event_outbox d \<and>
     event_deliveries d' = event_deliveries d \<and> event_delivery_attempts d' = event_delivery_attempts d \<and>
     event_sinks d' = event_sinks d \<and> gateway_event_archives d' = gateway_event_archives d \<and>
     gateway_event_archive_members d' = gateway_event_archive_members d \<and>
     (\<forall>j. last_sequence d' j = last_sequence d j)"

lemma same_log_refl [simp]: "same_log d d"
  by (simp add: same_log_def)

lemma same_log_trans: "same_log d d1 \<Longrightarrow> same_log d1 d2 \<Longrightarrow> same_log d d2"
  by (simp add: same_log_def)

lemma untouched_same_log: "untouched d d' \<Longrightarrow> same_log d d'"
  by (simp add: untouched_def same_log_def last_sequence_def)

text \<open>The rows a successful \<open>write_event\<close> adds.\<close>

definition outbox_id_of :: "env \<Rightarrow> event_row \<Rightarrow> string" where
  "outbox_id_of E e = sha256 E (''event-outbox:v2:'' @ ev_event_id e)"

definition new_deliveries :: "env \<Rightarrow> db \<Rightarrow> event_row \<Rightarrow> delivery_row list" where
  "new_deliveries E d e = map (delivery_of E (outbox_id_of E e) e) (enabled_sinks d)"

definition new_outbox :: "env \<Rightarrow> db \<Rightarrow> event_row \<Rightarrow> timestamp \<Rightarrow> outbox_row" where
  "new_outbox E d e now = (let done = \<not> list_ex dl_required (new_deliveries E d e) in
     \<lparr>ob_outbox_id = outbox_id_of E e, ob_event_id = ev_event_id e, ob_created = now,
      ob_completed_at = (if done then Some now else None), ob_outbox_revision = (if done then 1 else 0)\<rparr>)"

definition log_appended :: "env \<Rightarrow> db \<Rightarrow> event_row \<Rightarrow> timestamp \<Rightarrow> db \<Rightarrow> bool" where
  "log_appended E d e now d' \<longleftrightarrow>
     gateway_events d' = gateway_events d @ [e] \<and> event_outbox d' = event_outbox d @ [new_outbox E d e now] \<and>
     event_deliveries d' = event_deliveries d @ new_deliveries E d e \<and>
     event_delivery_attempts d' = event_delivery_attempts d \<and> event_sinks d' = event_sinks d \<and>
     gateway_event_archives d' = gateway_event_archives d \<and>
     gateway_event_archive_members d' = gateway_event_archive_members d \<and>
     (\<forall>j. last_sequence d' j = (if j = ev_stream_id e then last_sequence d j + 1 else last_sequence d j)) \<and>
     ev_stream_sequence e = last_sequence d (ev_stream_id e) + 1 \<and>
     event_index_ok d e \<and> outbox_index_ok d (outbox_id_of E e) e (new_deliveries E d e)"

text \<open>The row of an event is determined by the state and the payload it was written with.\<close>

definition event_row_ok :: "env \<Rightarrow> event_row \<Rightarrow> bool" where
  "event_row_ok E e \<longleftrightarrow> (\<exists>st. ev_stream_id e = st_run_id st \<and> ev_row_run_id e = st_run_id st \<and>
     ev_canonical_hash e = sha256 E (canonical_json (event_json E st e)) \<and>
     (ev_canonical_event_json e = Some (canonical_json (event_json E st e)) \<or> ev_storage_tier e = Archived))"

lemma event_of_body:
  fixes E d st t p cid key cause corr now
  defines "e \<equiv> event_of E d st t p cid key cause corr now"
  shows "ev_canonical_event_json e = Some (canonical_json (event_json E st e))"
    "ev_canonical_hash e = sha256 E (canonical_json (event_json E st e))" "ev_row_run_id e = st_run_id st"
    "ev_storage_tier e = Hot" "ev_archive_id e = None"
proof -
  have same: "event_json E st (a\<lparr>ev_canonical_event_json := x, ev_canonical_hash := y\<rparr>) = event_json E st a" for a x y
    by (simp add: event_json_def)
  have "\<exists>a. e = a\<lparr>ev_canonical_event_json := Some (canonical_json (event_json E st a)),
      ev_canonical_hash := sha256 E (canonical_json (event_json E st a))\<rparr> \<and>
    ev_row_run_id a = st_run_id st \<and> ev_storage_tier a = Hot \<and> ev_archive_id a = None"
    unfolding e_def event_of_def Let_def by (intro exI conjI, rule refl) simp_all
  then obtain a where e: "e = a\<lparr>ev_canonical_event_json := Some (canonical_json (event_json E st a)),
      ev_canonical_hash := sha256 E (canonical_json (event_json E st a))\<rparr>"
    "ev_row_run_id a = st_run_id st" "ev_storage_tier a = Hot" "ev_archive_id a = None" by blast
  show "ev_canonical_event_json e = Some (canonical_json (event_json E st e))"
    "ev_canonical_hash e = sha256 E (canonical_json (event_json E st e))" "ev_row_run_id e = st_run_id st"
    "ev_storage_tier e = Hot" "ev_archive_id e = None"
    unfolding e(1) same by (simp_all add: e(2-4))
qed

lemma write_event_log:
  assumes "write_event E d st t p cid key cause corr now = Inr (d', e)"
  shows "log_appended E d e now d'" "event_row_ok E e" "ev_storage_tier e = Hot" "ev_archive_id e = None"
    "ev_canonical_event_json e \<noteq> None" "event_sinks d' = event_sinks d"
proof -
  note w = write_event_Inr [OF assms]
  have s: "ev_stream_id e = st_run_id st" "ev_stream_sequence e = last_sequence d (st_run_id st) + 1"
    by (simp_all add: w(1) event_of_columns next_sequence_last)
  have "last_sequence d' j = (if j = st_run_id st then last_sequence d j + 1 else last_sequence d j)" for j
    using last_sequence_upsert [OF w(3), of j] by (simp add: next_sequence_last)
  moreover have "event_outbox d' = event_outbox d @ [new_outbox E d e now] \<and>
     event_deliveries d' = event_deliveries d @ new_deliveries E d e \<and>
     event_delivery_attempts d' = event_delivery_attempts d \<and> event_sinks d' = event_sinks d \<and>
     gateway_event_archives d' = gateway_event_archives d \<and>
     gateway_event_archive_members d' = gateway_event_archive_members d \<and>
     outbox_index_ok d (outbox_id_of E e) e (new_deliveries E d e)"
    using assms unfolding write_event_def Let_def outbox_id_of_def new_outbox_def new_deliveries_def
    by (auto split: if_splits)
  ultimately show "log_appended E d e now d'" "event_sinks d' = event_sinks d"
    using w(2,12) s by (simp_all add: log_appended_def)
  show "event_row_ok E e" "ev_storage_tier e = Hot" "ev_archive_id e = None" "ev_canonical_event_json e \<noteq> None"
    using event_of_body [of E d st t p cid key cause corr now] s unfolding w(1) event_row_ok_def by auto
qed

subsection \<open>One controller step\<close>

definition appends :: "env \<Rightarrow> db \<Rightarrow> db \<Rightarrow> bool" where
  "appends E d d' \<longleftrightarrow> (\<exists>e now. log_appended E d e now d' \<and> event_row_ok E e \<and> ev_storage_tier e = Hot \<and>
     ev_archive_id e = None \<and> ev_canonical_event_json e \<noteq> None)"

lemma new_rows_cong: "event_sinks d = event_sinks d0 \<Longrightarrow>
    new_deliveries E d e = new_deliveries E d0 e \<and> new_outbox E d e now = new_outbox E d0 e now"
  by (simp add: new_deliveries_def new_outbox_def enabled_sinks_def)

lemma write_event_appends:
  assumes "same_log d d0" "write_event E d0 st t p cid key cause corr now = Inr (d1, e)" "same_log d1 d'"
  shows "appends E d d'"
proof -
  note w = write_event_log [OF assms(2)]
  have n: "new_deliveries E d e = new_deliveries E d0 e" "new_outbox E d e now = new_outbox E d0 e now"
    using new_rows_cong [of d d0] assms(1) by (simp_all add: same_log_def)
  have i: "event_index_ok d e = event_index_ok d0 e"
    "outbox_index_ok d (outbox_id_of E e) e ds = outbox_index_ok d0 (outbox_id_of E e) e ds" for ds
    using assms(1) by (simp_all add: same_log_def event_index_ok_def outbox_index_ok_def)
  have "log_appended E d e now d'"
    using w(1) assms(1,3) unfolding log_appended_def i n by (simp add: same_log_def)
  then show ?thesis using w unfolding appends_def by blast
qed

lemma commit_log:
  assumes "commit_outcome C b k x oc = Inr (d', res)" "same_log d (oc_db oc)"
  shows "appends (ct_env C) d d'"
proof -
  let ?st = "committed_state oc x"
  obtain d1 d2 d3 d4 d5 d6 e where s1: "save_operation_opt (oc_db oc) (oc_operation oc) = Inr d1"
    and s2: "save_attempt_opt d1 (oc_attempt oc) = Inr d2"
    and s3: "save_approval_opt d2 (oc_approval oc) = Inr d3"
    and s4: "cas_state d3 ?st (st_revision b) = Inr d4"
    and s5: "log_transition (update_run_projection d4 ?st) b ?st (cmd_command_id k)
      (oc_transition oc) (cx_now x) = Inr d5"
    and s6: "write_event (ct_env C) d5 ?st (event_type (cmd_body k))
       (event_payload k b ?st (oc_operation oc) (oc_attempt oc) (oc_approval oc))
       (Some (cmd_command_id k)) (cmd_event_key k) (cmd_causation_id k)
       (Some (or_text (cmd_correlation_id k) (st_run_id ?st))) (cx_event_now x) = Inr (d6, e)"
    and d': "d' = d6\<lparr>processed_commands := processed_commands d6 @ [processed_row_of C k oc x e]\<rparr>"
    using assms(1) [unfolded commit_outcome_def Let_def, folded committed_state_def]
    by (auto simp: result_simps processed_row_of_def result_of_def split: if_splits)
  have "same_log (oc_db oc) d3"
    using save_opt_untouched s1 s2 s3 by (meson untouched_trans untouched_same_log)
  moreover have "same_log d3 d4"
  proof (rule cas_state_Inr [OF s4])
    assume r: "d4 = d3\<lparr>agent_states := agent_states d4\<rparr>"
    show ?thesis by (subst r) (simp add: same_log_def last_sequence_def)
  qed
  moreover have "same_log d4 d5"
    by (subst log_transition_Inr(1) [OF s5]) (simp add: same_log_def last_sequence_def update_run_projection_def)
  ultimately have "same_log d d5" using assms(2) by (meson same_log_trans)
  moreover have "same_log d6 d'" by (simp add: d' same_log_def last_sequence_def)
  ultimately show ?thesis using write_event_appends [OF _ s6] by blast
qed

lemma apply_log: "apply_command C ctx d k x = Inr (d', res) \<Longrightarrow> d' = d \<or> appends (ct_env C) d d'"
proof (cases "lookup_row pc_command_id (cmd_command_id k) (processed_commands d)")
  case None
  assume a: "apply_command C ctx d k x = Inr (d', res)"
  from a None show ?thesis
  proof (rule apply_command_fresh)
    fix st oc
    assume "dispatch C d st k x (cmd_body k) = Inr oc" "commit_outcome C st k x oc = Inr (d', res)"
    then show ?thesis using commit_log untouched_same_log dispatch_frame(1) by blast
  qed
qed (auto dest: apply_command_duplicate(1))

lemma insert_log:
  "insert_state d st = Inr d' \<Longrightarrow> same_log d d'"
  "insert_run d r = Inr d' \<Longrightarrow> same_log d d'"
  "bind_generation E d i g ts = Inr d' \<Longrightarrow> same_log d d'"
  by (auto simp: insert_state_def same_log_def last_sequence_def split: if_splits)
    (auto simp: insert_run_def same_log_def last_sequence_def split: if_splits option.splits,
     auto simp: bind_generation_def Let_def same_log_def last_sequence_def split: if_splits option.splits)

lemma update_log [simp]:
  "same_log d (update_run_projection d st)" "same_log d (insert_idempotency d cl op key h i ts)"
  by (simp_all add: update_run_projection_def insert_idempotency_def same_log_def last_sequence_def)

lemma created_log:
  "created_event C d0 st x = Inr (d', e) \<Longrightarrow> same_log d d0 \<Longrightarrow> appends (ct_env C) d d'"
  unfolding created_event_def by (erule write_event_appends [rotated]) simp_all

lemma create_run_log: "create_run C ctx d q x = Inr (d', st, dup) \<Longrightarrow> d' = d \<or> appends (ct_env C) d d'"
proof (cases "find_idempotency d (nr_client_id q) (workload_kind_value (nr_workload_kind q)) (nr_idempotency_key q)")
  case None
  assume a: "create_run C ctx d q x = Inr (d', st, dup)"
  from a None show ?thesis
  proof (rule create_run_fresh)
    fix d1 d2 d3 e
    let ?i = "insert_idempotency d2 (nr_client_id q) (workload_kind_value (nr_workload_kind q)) (nr_idempotency_key q)
          (nr_request_hash q) (nr_run_id q) (cx_now x)"
    assume s: "insert_run d (run_row_of q (cx_now x)) = Inr d1" "insert_state d1 st = Inr d2"
      "bind_generation (ct_env C) ?i (nr_run_id q) (nr_runtime_generation_id q) (cx_now x) = Inr d3"
      and c: "created_event C (update_run_projection d3 st) st x = Inr (d', e)"
    have "same_log d1 d2" "same_log d d1" "same_log ?i d3"
      by (rule insert_log(1) [OF s(2)], rule insert_log(2) [OF s(1)], rule insert_log(3) [OF s(3)])
    then have "same_log d (update_run_projection d3 st)"
      using update_log by (meson same_log_trans)
    then show ?thesis using created_log [OF c] by blast
  qed
qed (auto simp: create_run_def Let_def result_simps split: if_splits)

lemma create_state_log: "create_state C ctx d q x = Inr (d', st) \<Longrightarrow> d' = d \<or> appends (ct_env C) d d'"
proof (cases "lookup_row sr_run_id (nr_run_id q) (agent_states d)")
  case None
  assume a: "create_state C ctx d q x = Inr (d', st)"
  let ?st = "new_state C q (cx_now x)"
  obtain d1 e where i: "insert_state d ?st = Inr d1"
    and c: "created_event C (update_run_projection d1 ?st) ?st x = Inr (d', e)"
    using a None by (auto simp: create_state_def Let_def result_simps split: if_splits)
  have "same_log d (update_run_projection d1 ?st)"
    using insert_log(1) [OF i] update_log(1) by (rule same_log_trans)
  then show ?thesis using created_log [OF c] by blast
qed (auto simp: create_state_def Let_def split: if_splits)

lemma step_log: "step E d d' \<Longrightarrow> same_log d d' \<or> appends E d d'"
proof (induction rule: step.cases)
  case (step_reserve C ctx d1 key h rid cl op ts d2 rid')
  have "d2 = d1 \<or> d2 = insert_idempotency d1 cl op key h rid ts"
    using step_reserve(4) by (auto simp: reserve_idempotency_def result_simps split: option.splits if_splits)
  then show ?case using step_reserve(1,2) by auto
qed (auto dest: apply_log create_run_log create_state_log)

subsection \<open>The invariant of the log\<close>

definition log_inv :: "env \<Rightarrow> db \<Rightarrow> bool" where
  "log_inv E d \<longleftrightarrow>
     (\<forall>e \<in> set (gateway_events d). event_row_ok E e \<and> 1 \<le> ev_stream_sequence e \<and>
        ev_stream_sequence e \<le> last_sequence d (ev_stream_id e)) \<and>
     distinct (map ev_event_id (gateway_events d)) \<and>
     distinct (map (\<lambda>e. (ev_stream_id e, ev_stream_sequence e)) (gateway_events d)) \<and>
     distinct (map dl_delivery_id (event_deliveries d)) \<and>
     distinct (map (\<lambda>x. (dl_event_id x, dl_sink_id x)) (event_deliveries d)) \<and>
     (\<forall>x \<in> set (event_deliveries d). dl_event_id x \<in> ev_event_id ` set (gateway_events d) \<and>
        dl_outbox_id x \<in> ob_outbox_id ` set (event_outbox d)) \<and>
     (\<forall>r \<in> set (event_outbox d). ob_event_id r \<in> ev_event_id ` set (gateway_events d)) \<and>
     distinct (map ob_outbox_id (event_outbox d)) \<and> distinct (map ob_event_id (event_outbox d)) \<and>
     (\<forall>i. gapless ev_stream_sequence (events_of d i) (last_sequence d i))"

lemma new_delivery_columns:
  assumes "x \<in> set (new_deliveries E d e)"
  shows "dl_event_id x = ev_event_id e" "dl_status x = Pending" "dl_attempt_count x = 0" "dl_revision x = 0"
    "dl_outbox_id x = outbox_id_of E e" "dl_next_retry_at x = None"
    "dl_delivery_id x = sha256 E (''event-delivery:v2:'' @ ev_event_id e @ '':'' @ dl_sink_id x)"
  using assms by (auto simp: new_deliveries_def delivery_of_def)

lemma new_deliveries_sinks:
  assumes "distinct (map dl_delivery_id (new_deliveries E d e))"
  shows "distinct (map dl_sink_id (new_deliveries E d e))"
proof -
  have "map dl_delivery_id (new_deliveries E d e) =
      map (\<lambda>s. sha256 E (''event-delivery:v2:'' @ ev_event_id e @ '':'' @ s)) (map dl_sink_id (new_deliveries E d e))"
    by (simp add: new_deliveries_def delivery_of_def)
  then show ?thesis using assms by (metis distinct_map)
qed

lemma log_inv_same: "same_log d d' \<Longrightarrow> log_inv E d' = log_inv E d"
  by (simp add: same_log_def log_inv_def events_of_def)

lemma log_inv_append:
  assumes inv: "log_inv E d" and a: "log_appended E d e now d'" and ok: "event_row_ok E e"
  shows "log_inv E d'"
proof -
  note A = a [unfolded log_appended_def]
  let ?n = "new_deliveries E d e"
  have idx: "\<forall>x \<in> set (gateway_events d). ev_event_id x \<noteq> ev_event_id e \<and>
      \<not> (ev_stream_id x = ev_stream_id e \<and> ev_stream_sequence x = ev_stream_sequence e)"
    using A by (auto simp: event_index_ok_def list_all_iff)
  have obx: "\<forall>x \<in> set (event_outbox d). ob_outbox_id x \<noteq> outbox_id_of E e \<and> ob_event_id x \<noteq> ev_event_id e"
    "distinct (map dl_delivery_id ?n)" "\<forall>x \<in> set (event_deliveries d). dl_delivery_id x \<notin> dl_delivery_id ` set ?n"
    using A by (auto simp: outbox_index_ok_def list_all_iff)
  have sinks: "distinct (map dl_sink_id ?n)" by (rule new_deliveries_sinks [OF obx(2)])
  have ev: "\<forall>e' \<in> set (gateway_events d'). event_row_ok E e' \<and> 1 \<le> ev_stream_sequence e' \<and>
        ev_stream_sequence e' \<le> last_sequence d' (ev_stream_id e')"
    using inv A ok by (auto simp: log_inv_def)
  have dist: "distinct (map ev_event_id (gateway_events d'))"
    "distinct (map (\<lambda>e. (ev_stream_id e, ev_stream_sequence e)) (gateway_events d'))"
    using inv A idx by (auto simp: log_inv_def)
  have did: "distinct (map dl_delivery_id (event_deliveries d'))"
    using inv A obx(2,3) by (auto simp: log_inv_def)
  have "inj_on (\<lambda>x. (dl_event_id x, dl_sink_id x)) (set ?n)" "distinct ?n"
    using sinks by (auto simp: inj_on_def distinct_map)
  then have "distinct (map (\<lambda>x. (dl_event_id x, dl_sink_id x)) ?n)" by (simp add: distinct_map)
  moreover have "dl_event_id x \<noteq> ev_event_id e" if "x \<in> set (event_deliveries d)" for x
    using inv idx that unfolding log_inv_def by fastforce
  ultimately have pair: "distinct (map (\<lambda>x. (dl_event_id x, dl_sink_id x)) (event_deliveries d'))"
    using inv A by (auto simp: log_inv_def dest: new_delivery_columns(1))
  have own: "\<forall>x \<in> set (event_deliveries d'). dl_event_id x \<in> ev_event_id ` set (gateway_events d') \<and>
        dl_outbox_id x \<in> ob_outbox_id ` set (event_outbox d')"
    using inv A by (auto simp: log_inv_def new_outbox_def Let_def dest: new_delivery_columns(1,5))
  have obe: "\<forall>r \<in> set (event_outbox d'). ob_event_id r \<in> ev_event_id ` set (gateway_events d')"
    "distinct (map ob_outbox_id (event_outbox d'))" "distinct (map ob_event_id (event_outbox d'))"
    using inv A obx(1) by (auto simp: log_inv_def new_outbox_def Let_def)
  have "gapless ev_stream_sequence (events_of d' i) (last_sequence d' i)" for i
    using inv A by (auto simp: log_inv_def events_of_def gapless_def dest: spec [of _ i])
  with ev dist did pair own obe show ?thesis by (simp add: log_inv_def)
qed

lemma log_inv_empty: "log_inv E (empty_db\<lparr>event_sinks := sinks, runtime_resource_generations := gens\<rparr>)"
  by (simp add: log_inv_def empty_db_def events_of_def gapless_def last_sequence_def)

lemma step_log_inv: "step E d d' \<Longrightarrow> log_inv E d \<Longrightarrow> log_inv E d'"
  using step_log log_inv_same log_inv_append unfolding appends_def by metis

end
