(* ===== verification/Delivery_Safety.thy ===== *)
theory Delivery_Safety
  imports Event_Steps
begin

section \<open>Ordered delivery, exactly once in the file\<close>

text \<open>
  The dispatcher and the controller as one system. A step is a committed transaction of the controller, one
  operation of the dispatcher (read the due list, claim, hand to the sink, settle), a change of the bus or of
  the pause, or a restart that loses all memory at any point between two operations. The invariant says that
  a delivery is attempted only after all earlier events of its stream are settled for its sink, and that a
  JSONL file holds canonical texts of its run in stream order, each at most once.
\<close>

subsection \<open>The system\<close>

record system =
  sy_db :: db
  sy_dp :: dispatcher
  sy_due :: "(string \<times> nat) list"
  sy_claim :: "(ClaimedDelivery \<times> unit result option) option"

definition dicts_ok :: "db \<Rightarrow> bool" where
  "dicts_ok d \<longleftrightarrow> (\<forall>e \<in> set (gateway_events d). unique_keys (JObj (ev_payload e)))"

definition restarted :: "dispatcher \<Rightarrow> nat \<Rightarrow> dispatcher" where
  "restarted p n = p\<lparr>dp_jsonl := (dp_jsonl p)\<lparr>js_known := []\<rparr>, dp_bus := new_bus n, dp_paused_epoch := None\<rparr>"

inductive sys_step :: "dispatcher_config \<Rightarrow> env \<Rightarrow> system \<Rightarrow> system \<Rightarrow> bool" for K :: dispatcher_config and E :: env where
  sys_control: "step E (sy_db s) d' \<Longrightarrow> dicts_ok d' \<Longrightarrow> sys_step K E s (s\<lparr>sy_db := d'\<rparr>)"
| sys_poll: "sy_due s = [] \<Longrightarrow> sy_claim s = None \<Longrightarrow> dp_paused_epoch (sy_dp s) = None \<Longrightarrow>
    sys_step K E s (s\<lparr>sy_due := due_deliveries E (sy_db s) now\<rparr>)"
| sys_skip: "sy_due s = (i, n) # due \<Longrightarrow> sy_claim s = None \<Longrightarrow>
    claim_delivery K E (sy_db s) i n now = Inr (d', None) \<Longrightarrow> sys_step K E s (s\<lparr>sy_db := d', sy_due := due\<rparr>)"
| sys_claim: "sy_due s = (i, n) # due \<Longrightarrow> sy_claim s = None \<Longrightarrow>
    claim_delivery K E (sy_db s) i n now = Inr (d', Some c) \<Longrightarrow>
    sys_step K E s (s\<lparr>sy_db := d', sy_due := due, sy_claim := Some (c, None)\<rparr>)"
| sys_deliver: "sy_claim s = Some (c, None) \<Longrightarrow> deliver_claim E (sy_dp s) c = (p, r) \<Longrightarrow>
    sys_step K E s (s\<lparr>sy_dp := p, sy_claim := Some (c, Some r)\<rparr>)"
| sys_finish: "sy_claim s = Some (c, Some r) \<Longrightarrow> finish K E (sy_db s) c r ts utc_now = Inr d' \<Longrightarrow>
    sys_step K E s (s\<lparr>sy_db := d', sy_claim := None\<rparr>)"
| sys_pause: "sys_step K E s (s\<lparr>sy_dp := (sy_dp s)\<lparr>dp_paused_epoch := epoch\<rparr>\<rparr>)"
| sys_bus: "sys_step K E s (s\<lparr>sy_dp := (sy_dp s)\<lparr>dp_bus := b\<rparr>\<rparr>)"
| sys_restart: "reconcile_startup E (sy_db s) ts = Inr (d', n, m) \<Longrightarrow>
    sys_step K E s (s\<lparr>sy_db := d', sy_dp := restarted (sy_dp s) room, sy_due := [], sy_claim := None\<rparr>)"

definition initial_system :: "sink_row list \<Rightarrow> generation_row list \<Rightarrow> nat \<Rightarrow> system" where
  "initial_system sinks gens room = \<lparr>sy_db = empty_db\<lparr>event_sinks := sinks, runtime_resource_generations := gens\<rparr>,
     sy_dp = \<lparr>dp_jsonl = \<lparr>js_files = [], js_known = []\<rparr>, dp_bus = new_bus room, dp_paused_epoch = None\<rparr>,
     sy_due = [], sy_claim = None\<rparr>"

definition sys_reachable :: "dispatcher_config \<Rightarrow> env \<Rightarrow> system \<Rightarrow> bool" where
  "sys_reachable K E s \<longleftrightarrow> (\<exists>sinks gens room. (sys_step K E)\<^sup>*\<^sup>* (initial_system sinks gens room) s)"

subsection \<open>How a delivery row evolves\<close>

definition row_evolves :: "delivery_row \<Rightarrow> delivery_row \<Rightarrow> bool" where
  "row_evolves x y \<longleftrightarrow>
     dl_delivery_id y = dl_delivery_id x \<and> dl_sink_id y = dl_sink_id x \<and> dl_event_id y = dl_event_id x \<and>
     dl_outbox_id y = dl_outbox_id x \<and> dl_required y = dl_required x \<and>
     (settled (dl_status x) \<longrightarrow> y = x) \<and> dl_attempt_count x \<le> dl_attempt_count y \<and>
     dl_revision x \<le> dl_revision y \<and> (dl_revision y = dl_revision x \<longrightarrow> y = x) \<and>
     (dl_status y \<noteq> Pending \<longrightarrow> dl_status x \<noteq> Pending \<or> 0 < dl_attempt_count y)"

definition evolves :: "db \<Rightarrow> db \<Rightarrow> bool" where
  "evolves d d' \<longleftrightarrow> list_all2 row_evolves (event_deliveries d) (event_deliveries d') \<and>
     gateway_events d' = gateway_events d \<and> event_sinks d' = event_sinks d \<and>
     map ob_outbox_id (event_outbox d') = map ob_outbox_id (event_outbox d) \<and>
     map ob_event_id (event_outbox d') = map ob_event_id (event_outbox d) \<and>
     (\<forall>j. last_sequence d' j = last_sequence d j)"

lemma row_evolves_refl [simp]: "row_evolves x x"
  by (simp add: row_evolves_def)

lemma row_evolves_keys:
  assumes "row_evolves x y"
  shows "dl_delivery_id y = dl_delivery_id x" "dl_sink_id y = dl_sink_id x" "dl_event_id y = dl_event_id x"
    "dl_outbox_id y = dl_outbox_id x" "dl_required y = dl_required x"
  using assms unfolding row_evolves_def by blast+

lemma row_evolves_changed:
  assumes "row_evolves x y" "y \<noteq> x"
  shows "dl_revision x < dl_revision y" "\<not> settled (dl_status x)"
  using assms unfolding row_evolves_def by (metis le_neq_implies_less, blast)

lemma row_evolves_trans:
  assumes "row_evolves x y" "row_evolves y z"
  shows "row_evolves x z"
proof (cases "y = x \<or> z = y")
  case False
  then have "dl_revision x < dl_revision y" "dl_revision y < dl_revision z" "\<not> settled (dl_status x)"
    using row_evolves_changed [OF assms(1)] row_evolves_changed [OF assms(2)] by auto
  then show ?thesis using assms unfolding row_evolves_def by auto
qed (use assms in auto)

lemma evolves_refl [simp]: "evolves d d"
  by (simp add: evolves_def list.rel_refl)

lemma evolves_trans: "evolves d d1 \<Longrightarrow> evolves d1 d2 \<Longrightarrow> evolves d d2"
  unfolding evolves_def by (auto intro: list_all2_trans [OF row_evolves_trans])

lemma evolves_update:
  assumes "\<And>x. p x \<Longrightarrow> row_evolves x (f x)" "event_deliveries d' = update_rows p f (event_deliveries d)"
    and "gateway_events d' = gateway_events d" "event_sinks d' = event_sinks d"
    and "event_outbox d' = event_outbox d" "event_sequences d' = event_sequences d"
  shows "evolves d d'"
  using assms by (auto simp: evolves_def update_rows_def list_all2_conv_all_nth last_sequence_def)

lemma evolves_keep:
  assumes "event_deliveries d' = event_deliveries d" "gateway_events d' = gateway_events d"
    and "event_sinks d' = event_sinks d" "map ob_outbox_id (event_outbox d') = map ob_outbox_id (event_outbox d)"
    and "map ob_event_id (event_outbox d') = map ob_event_id (event_outbox d)"
    and "event_sequences d' = event_sequences d"
  shows "evolves d d'"
  using assms by (simp add: evolves_def list.rel_refl last_sequence_def)

lemma claimed_evolves: "waiting x now \<Longrightarrow> row_evolves x (claimed x)"
  by (auto simp: waiting_def row_evolves_def claimed_def settled_def)

lemma finished_evolves:
  "dl_status x = Delivering \<Longrightarrow> row_evolves x (delivered_row ts x)"
  "dl_status x = Delivering \<Longrightarrow> row_evolves x (failed_row K E n a b ts u x)"
  "dl_status x = Delivering \<Longrightarrow> row_evolves x (interrupt_delivery E ts x)"
  by (simp_all add: row_evolves_def delivered_row_def failed_row_def interrupt_delivery_def settled_def Let_def)

lemma claim_delivery_Inr:
  assumes "claim_delivery K E d i n now = Inr (d', r)"
  shows "evolves d d'"
    and "r = None \<Longrightarrow> d' = d"
    and "r = Some c \<Longrightarrow> event_deliveries d' = update_rows (\<lambda>x. claimable x i n (iso E now)) claimed (event_deliveries d) \<and>
      (\<exists>x e. count_rows (\<lambda>x. claimable x i n (iso E now)) (event_deliveries d) = 1 \<and>
        lookup_row dl_delivery_id i (event_deliveries d') = Some x \<and> event_in d (dl_event_id x) = Some e \<and>
        ev_canonical_event_json e = Some (cl_canonical_event_json c) \<and> cl_canonical_hash c = ev_canonical_hash e \<and>
        cl_delivery_id c = i \<and> cl_event_id c = dl_event_id x \<and> cl_sink_id c = dl_sink_id x \<and>
        cl_revision c = dl_revision x)"
proof -
  have a: "r = None \<and> d' = d \<or> (\<exists>c x e. r = Some c \<and>
      event_deliveries d' = update_rows (\<lambda>x. claimable x i n (iso E now)) claimed (event_deliveries d) \<and>
      gateway_events d' = gateway_events d \<and> event_sinks d' = event_sinks d \<and> event_outbox d' = event_outbox d \<and>
      event_sequences d' = event_sequences d \<and>
      count_rows (\<lambda>x. claimable x i n (iso E now)) (event_deliveries d) = 1 \<and>
      lookup_row dl_delivery_id i (event_deliveries d') = Some x \<and> event_in d (dl_event_id x) = Some e \<and>
      ev_canonical_event_json e = Some (cl_canonical_event_json c) \<and> cl_canonical_hash c = ev_canonical_hash e \<and>
      cl_delivery_id c = i \<and> cl_event_id c = dl_event_id x \<and> cl_sink_id c = dl_sink_id x \<and>
      cl_revision c = dl_revision x)"
  proof (cases "count_rows (\<lambda>x. claimable x i n (iso E now)) (event_deliveries d) = 1")
    case True
    define d1 where "d1 = d\<lparr>event_deliveries := update_rows (\<lambda>x. claimable x i n (iso E now)) claimed (event_deliveries d)\<rparr>"
    have "\<exists>x e raw d2. lookup_row dl_delivery_id i (event_deliveries d1) = Some x \<and> event_in d1 (dl_event_id x) = Some e \<and>
        ev_canonical_event_json e = Some raw \<and> d' = d1\<lparr>event_delivery_attempts := d2\<rparr> \<and>
        (\<exists>a. r = Some \<lparr>cl_delivery_id = i, cl_attempt_id = a, cl_attempt_no = dl_attempt_count x,
          cl_revision = dl_revision x, cl_sink_id = dl_sink_id x, cl_event_id = dl_event_id x,
          cl_canonical_event_json = raw, cl_canonical_hash = ev_canonical_hash e\<rparr>)"
      using assms [unfolded claim_delivery_def Let_def, folded d1_def] True
      by (simp split: option.splits) (auto simp: insert_delivery_attempt_def result_simps split: if_splits)
    moreover have "event_in d1 = event_in d" by (rule ext) (simp add: event_in_def d1_def)
    ultimately show ?thesis using True by (auto simp: d1_def)
  next
    case False
    then show ?thesis using assms by (simp add: claim_delivery_def Let_def)
  qed
  then have b: "d' = d \<or>
      event_deliveries d' = update_rows (\<lambda>x. claimable x i n (iso E now)) claimed (event_deliveries d) \<and>
      gateway_events d' = gateway_events d \<and> event_sinks d' = event_sinks d \<and> event_outbox d' = event_outbox d \<and>
      event_sequences d' = event_sequences d" by blast
  have c: "claimable x i n (iso E now) \<Longrightarrow> row_evolves x (claimed x)" for x
    unfolding claimable_def using claimed_evolves by blast
  from b show "evolves d d'" by (elim disjE conjE) (simp, rule evolves_update [OF c])
  show "r = None \<Longrightarrow> d' = d" using a by auto
  show "event_deliveries d' = update_rows (\<lambda>x. claimable x i n (iso E now)) claimed (event_deliveries d) \<and>
      (\<exists>x e. count_rows (\<lambda>x. claimable x i n (iso E now)) (event_deliveries d) = 1 \<and>
        lookup_row dl_delivery_id i (event_deliveries d') = Some x \<and> event_in d (dl_event_id x) = Some e \<and>
        ev_canonical_event_json e = Some (cl_canonical_event_json c) \<and> cl_canonical_hash c = ev_canonical_hash e \<and>
        cl_delivery_id c = i \<and> cl_event_id c = dl_event_id x \<and> cl_sink_id c = dl_sink_id x \<and>
        cl_revision c = dl_revision x)" if "r = Some c"
    using a that by auto
qed

lemma update_claimed_Inr:
  assumes "update_claimed d c f l = Inr d'" "\<And>x. dl_status x = Delivering \<Longrightarrow> row_evolves x (f x)"
  shows "evolves d d'" "event_deliveries d' = update_rows (active_claim c) f (event_deliveries d)"
proof -
  have d': "d' = d\<lparr>event_deliveries := update_rows (active_claim c) f (event_deliveries d)\<rparr>"
    using assms(1) by (auto simp: update_claimed_def split: if_splits)
  show "evolves d d'"
    by (rule evolves_update [of "active_claim c" f]) (use assms(2) in \<open>auto simp: d' active_claim_def\<close>)
  show "event_deliveries d' = update_rows (active_claim c) f (event_deliveries d)" by (simp add: d')
qed

lemma settle_attempt_Inr:
  assumes "settle_attempt d c s ts a b = Inr d'"
  shows "evolves d d'" "event_deliveries d' = event_deliveries d"
proof -
  obtain rows where d': "d' = d\<lparr>event_delivery_attempts := rows\<rparr>"
    using assms by (auto simp: settle_attempt_def Let_def split: if_splits)
  show "evolves d d'" by (rule evolves_keep) (simp_all add: d')
  show "event_deliveries d' = event_deliveries d" by (simp add: d')
qed

lemma complete_outbox_evolves: "evolves d (complete_outbox_if_ready d i ts)"
  by (rule evolves_keep) (auto simp: complete_outbox_if_ready_def completed_now_def update_rows_def)

lemma finish_Inr:
  assumes "finish K E d c r ts u = Inr d'"
  shows "evolves d d'"
    and "\<exists>f. event_deliveries d' = update_rows (active_claim c) f (event_deliveries d) \<and>
      (\<forall>x. dl_status (f x) = Delivered \<longrightarrow> r = Inr ())"
proof -
  have "evolves d d' \<and> (\<exists>f. event_deliveries d' = update_rows (active_claim c) f (event_deliveries d) \<and>
      (\<forall>x. dl_status (f x) = Delivered \<longrightarrow> r = Inr ()))"
  proof (cases r)
    case (Inl e)
    obtain name t where n: "error_name e = (name, t)" by (cases "error_name e")
    obtain d1 where s: "settle_attempt d c AttemptFailed ts (Some name) (Some (error_summary name t)) = Inr d1"
      and u: "update_claimed d1 c (failed_row K E (cl_attempt_no c) name (error_summary name t) ts u)
        ''Delivery failure CAS failed'' = Inr d'"
      using assms by (auto simp: finish_def Inl n finish_failure_def Let_def result_simps)
    note S = settle_attempt_Inr [OF s] and U = update_claimed_Inr [OF u finished_evolves(2)]
    have "evolves d d'" using evolves_trans [OF S(1) U(1)] by blast
    then show ?thesis using S(2) U(2) by (auto simp: failed_row_def Let_def Inl intro!: exI)
  next
    case (Inr v)
    obtain d1 d2 where s: "settle_attempt d c AttemptSucceeded ts None None = Inr d1"
      and u: "update_claimed d1 c (delivered_row ts) ''Delivery completion CAS failed'' = Inr d2"
      and d': "d' = complete_outbox_if_ready d2 (cl_event_id c) ts"
      using assms by (auto simp: finish_def Inr finish_success_def result_simps)
    note S = settle_attempt_Inr [OF s] and U = update_claimed_Inr [OF u finished_evolves(1)]
    have "evolves d d'" using S(1) U(1) complete_outbox_evolves evolves_trans d' by blast
    moreover have "event_deliveries d' = event_deliveries d2" by (simp add: d' complete_outbox_if_ready_def)
    ultimately show ?thesis using S(2) U(2) Inr by auto
  qed
  then show "evolves d d'" "\<exists>f. event_deliveries d' = update_rows (active_claim c) f (event_deliveries d) \<and>
      (\<forall>x. dl_status (f x) = Delivered \<longrightarrow> r = Inr ())" by blast+
qed

lemma interrupt_one_evolves: "evolves d (interrupt_one E ts d a)"
  by (rule evolves_update [of "\<lambda>x. dl_delivery_id x = da_delivery_id a \<and> dl_status x = Delivering" "interrupt_delivery E ts"])
    (simp_all add: interrupt_one_def finished_evolves(3))

lemma interrupt_all_evolves: "evolves d (foldl (interrupt_one E ts) d as)"
proof (induction as arbitrary: d)
  case (Cons a as)
  then show ?case using interrupt_one_evolves evolves_trans by fastforce
qed simp

lemma interrupt_all_delivered:
  "x \<in> set (event_deliveries (foldl (interrupt_one E ts) d as)) \<Longrightarrow> dl_status x = Delivered \<Longrightarrow>
    x \<in> set (event_deliveries d)"
proof (induction as arbitrary: d)
  case (Cons a as)
  have "x \<in> set (event_deliveries (interrupt_one E ts d a))" using Cons by simp
  then show ?case using Cons.prems(2) by (auto simp: interrupt_one_def set_update_rows interrupt_delivery_def split: if_splits)
qed simp

lemma reconcile_Inr:
  assumes "reconcile_startup E d ts = Inr (d', n, m)"
  shows "evolves d d'" "\<And>x. x \<in> set (event_deliveries d') \<Longrightarrow> dl_status x = Delivered \<Longrightarrow> x \<in> set (event_deliveries d)"
proof -
  obtain d1 as where d1: "d1 = foldl (interrupt_one E ts) d as"
    and d': "d' = fst (complete_ready d1 ts)"
    using assms by (auto simp: reconcile_startup_def Let_def split: if_splits prod.splits) (metis fst_conv)
  have "evolves d1 d'"
    by (rule evolves_keep) (auto simp: d' complete_ready_def Let_def completed_now_def update_rows_def)
  then show "evolves d d'" using interrupt_all_evolves evolves_trans d1 by blast
  have "event_deliveries d' = event_deliveries d1" by (simp add: d' complete_ready_def Let_def)
  then show "x \<in> set (event_deliveries d') \<Longrightarrow> dl_status x = Delivered \<Longrightarrow> x \<in> set (event_deliveries d)" for x
    using interrupt_all_delivered d1 by metis
qed

lemma interrupt_all_counts:
  "map (\<lambda>x. (dl_delivery_id x, dl_attempt_count x)) (event_deliveries (foldl (interrupt_one E ts) d as))
     = map (\<lambda>x. (dl_delivery_id x, dl_attempt_count x)) (event_deliveries d)"
proof (induction as arbitrary: d)
  case (Cons a as)
  have "map (\<lambda>x. (dl_delivery_id x, dl_attempt_count x)) (event_deliveries (interrupt_one E ts d a))
     = map (\<lambda>x. (dl_delivery_id x, dl_attempt_count x)) (event_deliveries d)"
    by (simp add: interrupt_one_def update_rows_def interrupt_delivery_def)
  then show ?case using Cons by simp
qed simp

lemma reconcile_counts:
  assumes "reconcile_startup E d ts = Inr (d', n, m)"
  shows "map (\<lambda>x. (dl_delivery_id x, dl_attempt_count x)) (event_deliveries d')
     = map (\<lambda>x. (dl_delivery_id x, dl_attempt_count x)) (event_deliveries d)"
  using assms interrupt_all_counts
  by (auto simp: reconcile_startup_def complete_ready_def Let_def split: if_splits)

subsection \<open>Order of the deliveries\<close>

text \<open>\<open>p\<close> delivers an earlier event of the stream of \<open>x\<close> to the same sink.\<close>

definition before :: "db \<Rightarrow> delivery_row \<Rightarrow> delivery_row \<Rightarrow> bool" where
  "before d p x \<longleftrightarrow> dl_sink_id p = dl_sink_id x \<and>
     (\<exists>pe e. pe \<in> set (gateway_events d) \<and> e \<in> set (gateway_events d) \<and> ev_event_id pe = dl_event_id p \<and>
        ev_event_id e = dl_event_id x \<and> ev_stream_id pe = ev_stream_id e \<and>
        ev_stream_sequence pe < ev_stream_sequence e)"

definition ordered_from :: "db \<Rightarrow> delivery_row \<Rightarrow> bool" where
  "ordered_from d x \<longleftrightarrow> (\<forall>p \<in> set (event_deliveries d). before d p x \<longrightarrow> settled (dl_status p))"

definition delivery_inv :: "db \<Rightarrow> (string \<times> nat) list \<Rightarrow> bool" where
  "delivery_inv d due \<longleftrightarrow>
     (\<forall>x \<in> set (event_deliveries d). (0 < dl_attempt_count x \<longrightarrow> ordered_from d x) \<and>
        (dl_status x \<noteq> Pending \<longrightarrow> 0 < dl_attempt_count x)) \<and>
     (\<forall>(i, n) \<in> set due. i \<in> dl_delivery_id ` set (event_deliveries d) \<and>
        (\<forall>x \<in> set (event_deliveries d). dl_delivery_id x = i \<longrightarrow> n \<le> dl_revision x \<and>
           (dl_revision x = n \<longrightarrow> ordered_from d x)))"

lemma before_evolves: "row_evolves p p' \<Longrightarrow> row_evolves x x' \<Longrightarrow> gateway_events d' = gateway_events d \<Longrightarrow>
    before d' p' x' = before d p x"
  by (simp only: before_def row_evolves_keys)

lemma list_all2_back:
  assumes "list_all2 P xs ys" "y \<in> set ys"
  shows "\<exists>x \<in> set xs. P x y"
proof -
  obtain i where "i < length ys" "y = ys ! i" using assms(2) by (metis in_set_conv_nth)
  then show ?thesis using list_all2_nthD2 [OF assms(1)] list_all2_lengthD [OF assms(1)] by (metis nth_mem)
qed

lemma list_all2_forth:
  assumes "list_all2 P xs ys" "x \<in> set xs"
  shows "\<exists>y \<in> set ys. P x y"
proof -
  obtain i where "i < length xs" "x = xs ! i" using assms(2) by (metis in_set_conv_nth)
  then show ?thesis using list_all2_nthD [OF assms(1)] list_all2_lengthD [OF assms(1)] by (metis nth_mem)
qed

lemma evolves_back: "evolves d d' \<Longrightarrow> y \<in> set (event_deliveries d') \<Longrightarrow> \<exists>x \<in> set (event_deliveries d). row_evolves x y"
  by (rule list_all2_back [of row_evolves]) (simp_all add: evolves_def)

lemma evolves_forth: "evolves d d' \<Longrightarrow> x \<in> set (event_deliveries d) \<Longrightarrow> \<exists>y \<in> set (event_deliveries d'). row_evolves x y"
  by (rule list_all2_forth [of row_evolves]) (simp_all add: evolves_def)

lemma ordered_evolves:
  assumes "evolves d d'" "row_evolves x x'" "ordered_from d x"
  shows "ordered_from d' x'"
  unfolding ordered_from_def
proof (intro ballI impI)
  fix p'
  assume p': "p' \<in> set (event_deliveries d')" and b: "before d' p' x'"
  obtain p where p: "p \<in> set (event_deliveries d)" "row_evolves p p'" using evolves_back [OF assms(1) p'] by blast
  have g: "gateway_events d' = gateway_events d" using assms(1) by (simp add: evolves_def)
  have "before d p x" using before_evolves [OF p(2) assms(2) g] b by blast
  then have "settled (dl_status p)" using assms(3) p(1) by (simp add: ordered_from_def)
  then show "settled (dl_status p')" using p(2) by (simp add: row_evolves_def)
qed

text \<open>An operation of the dispatcher keeps the invariant if it attempts only deliveries whose turn it is.\<close>

lemma delivery_inv_evolves:
  assumes e: "evolves d d'" and inv: "delivery_inv d due" and sub: "set due' \<subseteq> set due"
    and turn: "\<And>x y. x \<in> set (event_deliveries d) \<Longrightarrow> row_evolves x y \<Longrightarrow> y \<in> set (event_deliveries d') \<Longrightarrow>
      dl_attempt_count x = 0 \<Longrightarrow> 0 < dl_attempt_count y \<Longrightarrow> ordered_from d x"
  shows "delivery_inv d' due'"
proof -
  have rows: "(0 < dl_attempt_count y \<longrightarrow> ordered_from d' y) \<and> (dl_status y \<noteq> Pending \<longrightarrow> 0 < dl_attempt_count y)"
    if y: "y \<in> set (event_deliveries d')" for y
  proof -
  obtain x where x: "x \<in> set (event_deliveries d)" "row_evolves x y" using evolves_back [OF e y] by blast
  have xi: "0 < dl_attempt_count x \<longrightarrow> ordered_from d x" "dl_status x \<noteq> Pending \<longrightarrow> 0 < dl_attempt_count x"
    using inv x(1) by (auto simp: delivery_inv_def)
  show ?thesis
    using xi turn [OF x y] ordered_evolves [OF e x(2)] x(2) by (cases "dl_attempt_count x") (auto simp: row_evolves_def)
  qed
  have batch: "i \<in> dl_delivery_id ` set (event_deliveries d') \<and>
      (\<forall>x \<in> set (event_deliveries d'). dl_delivery_id x = i \<longrightarrow> n \<le> dl_revision x \<and>
           (dl_revision x = n \<longrightarrow> ordered_from d' x))" if "(i, n) \<in> set due'" for i n
  proof -
  have b: "(i, n) \<in> set due" using that sub by blast
  have I: "i \<in> dl_delivery_id ` set (event_deliveries d)"
    "\<And>x. x \<in> set (event_deliveries d) \<Longrightarrow> dl_delivery_id x = i \<Longrightarrow> n \<le> dl_revision x \<and>
       (dl_revision x = n \<longrightarrow> ordered_from d x)"
    using inv b by (auto simp: delivery_inv_def)
  obtain x0 where "x0 \<in> set (event_deliveries d)" "dl_delivery_id x0 = i" using I(1) by auto
  then obtain y0 where "y0 \<in> set (event_deliveries d')" "dl_delivery_id y0 = i"
    using evolves_forth [OF e] row_evolves_keys(1) by metis
  moreover have "n \<le> dl_revision y \<and> (dl_revision y = n \<longrightarrow> ordered_from d' y)"
    if y: "y \<in> set (event_deliveries d')" "dl_delivery_id y = i" for y
  proof -
    obtain x where x: "x \<in> set (event_deliveries d)" "row_evolves x y" using evolves_back [OF e y(1)] by blast
    have ix: "dl_delivery_id x = i" "dl_revision x \<le> dl_revision y" using x(2) y(2) by (simp_all add: row_evolves_def)
    show ?thesis using I(2) [OF x(1) ix(1)] ix(2) x(2) ordered_evolves [OF e x(2)] by auto
  qed
  ultimately show ?thesis by auto
  qed
  show ?thesis using rows batch by (auto simp: delivery_inv_def)
qed

subsection \<open>The due list\<close>

lemma event_in_iff:
  assumes "distinct (map ev_event_id (gateway_events d))"
  shows "event_in d i = Some e \<longleftrightarrow> e \<in> set (gateway_events d) \<and> ev_event_id e = i"
  using assms lookup_row_distinct [of ev_event_id "gateway_events d" e]
  by (auto simp: event_in_def dest: lookup_row_Some_mem)

lemma due_rows_mem:
  "(x, ob, e) \<in> set (due_rows d now) \<Longrightarrow> x \<in> set (event_deliveries d) \<and> event_in d (dl_event_id x) = Some e \<and>
     \<not> blocked_by_prior d x e"
  by (auto simp: due_rows_def map_filter_def split: option.splits if_splits)

lemma due_deliveries_mem:
  assumes "(i, n) \<in> set (due_deliveries E d now)"
  obtains x e where "x \<in> set (event_deliveries d)" "dl_delivery_id x = i" "dl_revision x = n"
    "event_in d (dl_event_id x) = Some e" "\<not> blocked_by_prior d x e"
proof -
  have "(i, n) \<in> set (map (\<lambda>(x, ob, e). (dl_delivery_id x, dl_revision x)) (due_rows d (iso E now)))"
    using in_set_takeD [OF assms [unfolded due_deliveries_def]] by simp
  then show thesis using that due_rows_mem by force
qed

lemma unblocked_ordered:
  assumes "log_inv E d" "event_in d (dl_event_id x) = Some e" "\<not> blocked_by_prior d x e"
  shows "ordered_from d x"
proof -
  have dist: "distinct (map ev_event_id (gateway_events d))" using assms(1) by (simp add: log_inv_def)
  show ?thesis
    unfolding ordered_from_def before_def
  proof (intro ballI impI, elim conjE exE)
    fix p pe e'
    assume p: "p \<in> set (event_deliveries d)" "dl_sink_id p = dl_sink_id x" "pe \<in> set (gateway_events d)"
      "ev_event_id pe = dl_event_id p" "e' \<in> set (gateway_events d)" "ev_event_id e' = dl_event_id x"
      "ev_stream_id pe = ev_stream_id e'" "ev_stream_sequence pe < ev_stream_sequence e'"
    then have "event_in d (dl_event_id x) = Some e'" "event_in d (dl_event_id p) = Some pe"
      using event_in_iff [OF dist] by auto
    then show "settled (dl_status p)"
      using assms(2,3) p by (auto simp: blocked_by_prior_def list_ex_iff)
  qed
qed

lemma same_row:
  assumes "log_inv E d" "x \<in> set (event_deliveries d)" "y \<in> set (event_deliveries d)" "dl_delivery_id x = dl_delivery_id y"
  shows "x = y"
proof -
  have "inj_on dl_delivery_id (set (event_deliveries d))" using assms(1) by (simp add: log_inv_def distinct_map)
  then show ?thesis using assms(2-4) by (meson inj_onD)
qed

lemma delivery_inv_poll:
  assumes "log_inv E d" "delivery_inv d []"
  shows "delivery_inv d (due_deliveries E d now)"
proof -
  have "i \<in> dl_delivery_id ` set (event_deliveries d) \<and> (\<forall>x \<in> set (event_deliveries d). dl_delivery_id x = i \<longrightarrow>
      n \<le> dl_revision x \<and> (dl_revision x = n \<longrightarrow> ordered_from d x))"
    if "(i, n) \<in> set (due_deliveries E d now)" for i n
    using that
  proof (rule due_deliveries_mem)
    fix x e
    assume x: "x \<in> set (event_deliveries d)" "dl_delivery_id x = i" "dl_revision x = n"
      "event_in d (dl_event_id x) = Some e" "\<not> blocked_by_prior d x e"
    have "ordered_from d x" using assms(1) x(4,5) by (rule unblocked_ordered)
    moreover have "y = x" if "y \<in> set (event_deliveries d)" "dl_delivery_id y = i" for y
      using same_row [OF assms(1) that(1) x(1)] that(2) x(2) by simp
    moreover have "i \<in> dl_delivery_id ` set (event_deliveries d)" using x(1,2) by blast
    ultimately show ?thesis using x(3) by blast
  qed
  then show ?thesis using assms(2) by (auto simp: delivery_inv_def)
qed

lemma log_inv_delivery:
  assumes "log_inv E d" "x \<in> set (event_deliveries d)"
  shows "\<exists>e \<in> set (gateway_events d). ev_event_id e = dl_event_id x"
proof -
  have "dl_event_id x \<in> ev_event_id ` set (gateway_events d)" using assms by (simp add: log_inv_def)
  then show ?thesis by (metis imageE)
qed

lemma before_append:
  assumes "log_inv E d" "log_appended E d e now d'" "x \<in> set (event_deliveries d)" "p \<in> set (event_deliveries d')"
    and "before d' p x"
  shows "p \<in> set (event_deliveries d) \<and> before d p x"
proof -
  note A = assms(2) [unfolded log_appended_def]
  have ids: "\<forall>a \<in> set (gateway_events d). ev_event_id a \<noteq> ev_event_id e"
    using A by (auto simp: event_index_ok_def list_all_iff)
  note old = log_inv_delivery [OF assms(1)]
  obtain pe xe where b: "dl_sink_id p = dl_sink_id x" "pe \<in> set (gateway_events d) \<union> {e}" "xe \<in> set (gateway_events d) \<union> {e}"
    "ev_event_id pe = dl_event_id p" "ev_event_id xe = dl_event_id x" "ev_stream_id pe = ev_stream_id xe"
    "ev_stream_sequence pe < ev_stream_sequence xe"
    using assms(5) A by (auto simp: before_def)
  have xe: "xe \<in> set (gateway_events d)" using b(3,5) old [OF assms(3)] ids by auto
  then have "ev_stream_sequence xe \<le> last_sequence d (ev_stream_id xe)" using assms(1) by (simp add: log_inv_def)
  then have pe: "pe \<in> set (gateway_events d)" using b(2,6,7) A by auto
  then have "p \<in> set (event_deliveries d)"
    using assms(4) A b(4) ids new_delivery_columns(1) by fastforce
  then show ?thesis using b pe xe by (auto simp: before_def)
qed

lemma delivery_inv_append:
  assumes "log_inv E d" "log_appended E d e now d'" "delivery_inv d due"
  shows "delivery_inv d' due"
proof -
  note A = assms(2) [unfolded log_appended_def]
  have ord: "ordered_from d' x" if "x \<in> set (event_deliveries d)" "ordered_from d x" for x
    using before_append [OF assms(1,2) that(1)] that(2) by (auto simp: ordered_from_def)
  have new: "dl_attempt_count x = 0 \<and> dl_status x = Pending" if "x \<in> set (new_deliveries E d e)" for x
    using new_delivery_columns(2,3) [OF that] by simp
  have other: "dl_delivery_id x \<noteq> dl_delivery_id y" if "x \<in> set (new_deliveries E d e)" "y \<in> set (event_deliveries d)" for x y
  proof -
    have "dl_delivery_id y \<notin> dl_delivery_id ` set (new_deliveries E d e)"
      using A that(2) by (auto simp: outbox_index_ok_def list_all_iff)
    then show ?thesis using that(1) by (metis imageI)
  qed
  have del: "event_deliveries d' = event_deliveries d @ new_deliveries E d e" using A by blast
  have rows: "(0 < dl_attempt_count x \<longrightarrow> ordered_from d' x) \<and> (dl_status x \<noteq> Pending \<longrightarrow> 0 < dl_attempt_count x)"
    if "x \<in> set (event_deliveries d')" for x
    using that assms(3) ord [of x] new [of x] unfolding del delivery_inv_def by auto
  have batch: "i \<in> dl_delivery_id ` set (event_deliveries d') \<and> (\<forall>x \<in> set (event_deliveries d'). dl_delivery_id x = i \<longrightarrow>
      n \<le> dl_revision x \<and> (dl_revision x = n \<longrightarrow> ordered_from d' x))" if "(i, n) \<in> set due" for i n
  proof -
    have b: "i \<in> dl_delivery_id ` set (event_deliveries d)"
      "\<And>x. x \<in> set (event_deliveries d) \<Longrightarrow> dl_delivery_id x = i \<Longrightarrow> n \<le> dl_revision x \<and> (dl_revision x = n \<longrightarrow> ordered_from d x)"
      using assms(3) that by (auto simp: delivery_inv_def)
    obtain y where "y \<in> set (event_deliveries d)" "dl_delivery_id y = i" using b(1) by auto
    then have "dl_delivery_id x \<noteq> i" if "x \<in> set (new_deliveries E d e)" for x using other [OF that] by metis
    then show ?thesis using b ord unfolding del by auto
  qed
  show ?thesis using rows batch by (auto simp: delivery_inv_def)
qed

end
