(* ===== verification/Delivery_File.thy ===== *)
theory Delivery_File
  imports Delivery_Safety
begin

section \<open>The JSONL file of a run is its event stream\<close>

text \<open>
  The invariant of the whole system and what it gives the readers of a JSONL file: the lines are canonical
  texts of the run's events in stream order, each at most once, whatever crashes and retries happened; and
  once every event of the run is delivered the file is exactly the stream.
\<close>

subsection \<open>Events as lines\<close>

definition body :: "event_row \<Rightarrow> string" where
  "body e = the (ev_canonical_event_json e)"

definition readable :: "env \<Rightarrow> event_row \<Rightarrow> bool" where
  "readable E e \<longleftrightarrow> sha256 E (body e) = ev_canonical_hash e \<and> \<not> blank_line (body e) \<and>
     (\<exists>v. parse_canonical_event E (body e) = Inr v \<and> en_event_id v = ev_event_id e \<and>
        file_of_run (en_run_id v) = ev_stream_id e)"

definition hot_ok :: "env \<Rightarrow> db \<Rightarrow> bool" where
  "hot_ok E d \<longleftrightarrow> log_inv E d \<and> dicts_ok d \<and> (\<forall>e \<in> set (gateway_events d). ev_canonical_event_json e \<noteq> None
     \<and> ev_storage_tier e = Hot)"

lemma body_text:
  assumes "hot_ok E d" "e \<in> set (gateway_events d)"
  obtains st where "body e = canonical_json (event_json E st e)" "st_run_id st = ev_stream_id e"
    "ev_canonical_hash e = sha256 E (body e)"
proof -
  have "event_row_ok E e" "ev_canonical_event_json e \<noteq> None" "ev_storage_tier e = Hot"
    using assms by (simp_all add: hot_ok_def log_inv_def)
  then show thesis using that by (auto simp: event_row_ok_def body_def)
qed

lemma event_text_not_blank: "\<not> blank_line (canonical_json (event_json E st e))"
  by (simp add: event_json_def blank_line_def is_space_def)

text \<open>A stored body that parses is readable: the parsed identity is the identity of its row.\<close>

lemma parsed_readable:
  assumes "json_loads E = json_parse" "hot_ok E d" "e \<in> set (gateway_events d)"
    and "parse_canonical_event E (body e) = Inr v"
  shows "readable E e" "en_event_id v = ev_event_id e" "en_run_id v = Some (ev_stream_id e)"
proof -
  obtain st where st: "body e = canonical_json (event_json E st e)" "st_run_id st = ev_stream_id e"
    "ev_canonical_hash e = sha256 E (body e)"
    by (rule body_text [OF assms(2,3)])
  have u: "unique_keys (JObj (ev_payload e))" using assms(2,3) by (simp add: hot_ok_def dicts_ok_def)
  note ids = parsed_event_ids [OF assms(1) u assms(4) [unfolded st(1)]]
  show "en_event_id v = ev_event_id e" "en_run_id v = Some (ev_stream_id e)" using ids st(2) by simp_all
  then show "readable E e"
    using assms(4) st event_text_not_blank by (auto simp: readable_def file_of_run_def)
qed

definition index_of :: "event_row list \<Rightarrow> (string \<times> string) list" where
  "index_of es = map (\<lambda>e. (ev_event_id e, ev_canonical_hash e)) es"

lemma update_new: "k \<notin> fst ` set m \<Longrightarrow> AList.update k v m = m @ [(k, v)]"
  by (induction m) auto

lemma load_index_events:
  assumes "\<forall>e \<in> set es. readable E e" "distinct (map ev_event_id es)"
    and "\<forall>e \<in> set es. ev_event_id e \<notin> fst ` set m"
  shows "load_index E m (map body es) = Inr (m @ index_of es)"
  using assms
proof (induction es arbitrary: m)
  case (Cons e es)
  obtain v where v: "parse_canonical_event E (body e) = Inr v" "en_event_id v = ev_event_id e"
    using Cons.prems(1) by (auto simp: readable_def)
  have new: "map_of m (ev_event_id e) = None" using Cons.prems(3) by (simp add: map_of_eq_None_iff)
  have "load_index E (m @ [(ev_event_id e, ev_canonical_hash e)]) (map body es)
      = Inr ((m @ [(ev_event_id e, ev_canonical_hash e)]) @ index_of es)"
    using Cons.prems by (intro Cons.IH) (auto simp: image_iff)
  then show ?case
    using v new Cons.prems(1,3) by (simp add: readable_def update_new index_of_def)
qed (simp add: index_of_def)

subsection \<open>The file\<close>

definition seq_less :: "event_row \<Rightarrow> event_row \<Rightarrow> bool" where
  "seq_less a b \<longleftrightarrow> ev_stream_sequence a < ev_stream_sequence b"

definition stream_part :: "env \<Rightarrow> db \<Rightarrow> string \<Rightarrow> event_row list \<Rightarrow> bool" where
  "stream_part E d run es \<longleftrightarrow> sorted_wrt seq_less es \<and>
     (\<forall>e \<in> set es. e \<in> set (gateway_events d) \<and> ev_stream_id e = run \<and> readable E e \<and>
        (\<exists>x \<in> set (event_deliveries d). dl_sink_id x = ''jsonl'' \<and> dl_event_id x = ev_event_id e \<and>
           0 < dl_attempt_count x))"

definition file_inv :: "env \<Rightarrow> db \<Rightarrow> jsonl_sink \<Rightarrow> bool" where
  "file_inv E d js \<longleftrightarrow> (\<forall>run. \<exists>es. jsonl_lines js run = map body es \<and> stream_part E d run es \<and>
     (\<forall>m. map_of (js_known js) run = Some m \<longrightarrow> m = index_of es))"

definition claim_ok :: "db \<Rightarrow> jsonl_sink \<Rightarrow> (ClaimedDelivery \<times> unit result option) option \<Rightarrow> bool" where
  "claim_ok d js cl \<longleftrightarrow> (\<forall>c r. cl = Some (c, r) \<longrightarrow>
     (\<exists>x e. x \<in> set (event_deliveries d) \<and> e \<in> set (gateway_events d) \<and> dl_event_id x = ev_event_id e \<and>
        dl_delivery_id x = cl_delivery_id c \<and> dl_sink_id x = cl_sink_id c \<and> dl_status x = Delivering \<and>
        cl_canonical_event_json c = body e \<and> cl_canonical_hash c = ev_canonical_hash e \<and>
        (r = Some (Inr ()) \<longrightarrow> cl_sink_id c = ''jsonl'' \<longrightarrow> body e \<in> set (jsonl_lines js (ev_stream_id e)))))"

definition delivered_ok :: "db \<Rightarrow> jsonl_sink \<Rightarrow> bool" where
  "delivered_ok d js \<longleftrightarrow> (\<forall>x \<in> set (event_deliveries d). dl_sink_id x = ''jsonl'' \<longrightarrow> dl_status x = Delivered \<longrightarrow>
     (\<exists>e \<in> set (gateway_events d). ev_event_id e = dl_event_id x \<and> body e \<in> set (jsonl_lines js (ev_stream_id e))))"

definition sys_inv :: "env \<Rightarrow> system \<Rightarrow> bool" where
  "sys_inv E s \<longleftrightarrow> hot_ok E (sy_db s) \<and> delivery_inv (sy_db s) (sy_due s) \<and>
     file_inv E (sy_db s) (dp_jsonl (sy_dp s)) \<and> claim_ok (sy_db s) (dp_jsonl (sy_dp s)) (sy_claim s) \<and>
     delivered_ok (sy_db s) (dp_jsonl (sy_dp s))"

lemma sorted_seq_distinct: "sorted_wrt seq_less es \<Longrightarrow> distinct es"
  by (induction es) (auto simp: seq_less_def)

lemma event_ids_inj:
  assumes "log_inv E d" "e \<in> set (gateway_events d)" "e' \<in> set (gateway_events d)" "ev_event_id e = ev_event_id e'"
  shows "e = e'"
proof -
  have "inj_on ev_event_id (set (gateway_events d))" using assms(1) by (simp add: log_inv_def distinct_map)
  then show ?thesis using assms(2-4) by (meson inj_onD)
qed

lemma event_places_inj:
  assumes "log_inv E d" "e \<in> set (gateway_events d)" "e' \<in> set (gateway_events d)"
    and "ev_stream_id e = ev_stream_id e'" "ev_stream_sequence e = ev_stream_sequence e'"
  shows "e = e'"
proof -
  have "inj_on (\<lambda>e. (ev_stream_id e, ev_stream_sequence e)) (set (gateway_events d))"
    using assms(1) by (simp add: log_inv_def distinct_map)
  then show ?thesis using assms(2-5) by (simp add: inj_on_def)
qed

lemma stream_part_ids:
  assumes "log_inv E d" "stream_part E d run es"
  shows "distinct (map ev_event_id es)"
proof -
  have "inj_on ev_event_id (set es)"
    using event_ids_inj [OF assms(1)] assms(2) by (auto simp: stream_part_def inj_on_def)
  then show ?thesis using assms(2) sorted_seq_distinct by (simp add: stream_part_def distinct_map)
qed

subsection \<open>Appending a line\<close>

lemma known_index_events:
  assumes "log_inv E d" "file_inv E d js"
  obtains es where "jsonl_lines js run = map body es" "stream_part E d run es"
    "known_index E js run = Inr (index_of es)"
proof -
  obtain es where es: "jsonl_lines js run = map body es" "stream_part E d run es"
    "\<forall>m. map_of (js_known js) run = Some m \<longrightarrow> m = index_of es"
    using assms(2) by (auto simp: file_inv_def)
  have "load_index E [] (map body es) = Inr (index_of es)"
    using load_index_events [of es E "[]"] es(2) stream_part_ids [OF assms(1) es(2)] by (auto simp: stream_part_def)
  then show thesis using that [OF es(1,2)] es(1,3) by (auto simp: known_index_def split: option.splits)
qed

text \<open>The next line belongs behind all lines of its file: its delivery's turn came after theirs.\<close>

lemma next_line_last:
  assumes "log_inv E d" "delivery_inv d due" "stream_part E d (ev_stream_id e) es" "e \<in> set (gateway_events d)"
    and "x \<in> set (event_deliveries d)" "dl_event_id x = ev_event_id e" "dl_sink_id x = ''jsonl''"
    and "\<not> settled (dl_status x)" "e \<notin> set es" "y \<in> set es"
  shows "seq_less y e"
proof (rule ccontr)
  assume n: "\<not> seq_less y e"
  have y: "y \<in> set (gateway_events d)" "ev_stream_id y = ev_stream_id e" using assms(3,10) by (auto simp: stream_part_def)
  obtain z where z: "z \<in> set (event_deliveries d)" "dl_sink_id z = ''jsonl''" "dl_event_id z = ev_event_id y"
    "0 < dl_attempt_count z"
    using assms(3,10) by (auto simp: stream_part_def)
  have "ev_stream_sequence y \<noteq> ev_stream_sequence e"
    using event_places_inj [OF assms(1) y(1) assms(4) y(2)] assms(9,10) by auto
  then have "before d x z"
    unfolding before_def
    by (intro conjI exI [of _ e] exI [of _ y]) (use n y z assms(4,6,7) in \<open>auto simp: seq_less_def\<close>)
  moreover have "ordered_from d z" using assms(2) z(1,4) by (auto simp: delivery_inv_def)
  ultimately show False using assms(5,8) by (auto simp: ordered_from_def)
qed

lemma jsonl_lines_update [simp]:
  "jsonl_lines (js\<lparr>js_files := AList.update f ls (js_files js)\<rparr>) run
     = (if run = f then ls else jsonl_lines js run)"
  "jsonl_lines (js\<lparr>js_known := k\<rparr>) run = jsonl_lines js run"
  by (simp_all add: jsonl_lines_def update_conv)

lemma append_once_keeps:
  assumes "json_loads E = json_parse" "hot_ok E d" "delivery_inv d due" "file_inv E d js"
    and "e \<in> set (gateway_events d)" "x \<in> set (event_deliveries d)" "dl_event_id x = ev_event_id e"
    and "dl_sink_id x = ''jsonl''" "dl_status x = Delivering"
    and "append_once E js (body e) (ev_canonical_hash e) None = (js', r)"
  shows "file_inv E d js'" "set (jsonl_lines js run) \<subseteq> set (jsonl_lines js' run)"
    "\<And>b. r = Inr b \<Longrightarrow> body e \<in> set (jsonl_lines js' (ev_stream_id e))"
proof -
  have log: "log_inv E d" using assms(2) by (simp add: hot_ok_def)
  have "file_inv E d js' \<and> (\<forall>run. set (jsonl_lines js run) \<subseteq> set (jsonl_lines js' run)) \<and>
      (\<forall>b. r = Inr b \<longrightarrow> body e \<in> set (jsonl_lines js' (ev_stream_id e)))"
  proof (cases "parse_canonical_event E (body e)")
    case (Inl a)
    then show ?thesis using assms(4,10) by (auto simp: append_once_def)
  next
    case (Inr v)
    note v = parsed_readable [OF assms(1,2,5) Inr]
    have name: "file_of_run (or_else None (en_run_id v)) = ev_stream_id e"
      using v(3) by (simp add: or_else_def file_of_run_def)
    have hash: "sha256 E (body e) = ev_canonical_hash e" using v(1) by (simp add: readable_def)
    let ?f = "ev_stream_id e"
    obtain es where es: "jsonl_lines js ?f = map body es" "stream_part E d ?f es"
      "known_index E js ?f = Inr (index_of es)"
      by (rule known_index_events [OF log assms(4), of ?f])
    have known: "map_of (index_of es) (ev_event_id e) = (if e \<in> set es then Some (ev_canonical_hash e) else None)"
    proof (cases "e \<in> set es")
      case True
      then have "(ev_event_id e, ev_canonical_hash e) \<in> set (index_of es)" by (auto simp: index_of_def)
      then show ?thesis
        using True stream_part_ids [OF log es(2)] by (simp add: index_of_def comp_def)
    next
      case False
      have "ev_event_id y \<noteq> ev_event_id e" if "y \<in> set es" for y
        using event_ids_inj [OF log _ assms(5), of y] es(2) that False by (auto simp: stream_part_def)
      then show ?thesis using False by (auto simp: map_of_eq_None_iff index_of_def) metis
    qed
    show ?thesis
    proof (cases "e \<in> set es")
      case True
      then have js': "js' = js\<lparr>js_known := AList.update ?f (index_of es) (js_known js)\<rparr>"
        using assms(10) Inr name hash es(3) v(2) known by (simp add: append_once_def Let_def)
      have "file_inv E d js'"
        unfolding file_inv_def
      proof
        fix g
        show "\<exists>es. jsonl_lines js' g = map body es \<and> stream_part E d g es \<and>
          (\<forall>m. map_of (js_known js') g = Some m \<longrightarrow> m = index_of es)"
          using assms(4) es by (cases "g = ?f") (auto simp: js' file_inv_def update_conv)
      qed
      then show ?thesis using True es(1) by (auto simp: js')
    next
      case False
      then have js': "js' = js\<lparr>js_files := AList.update ?f (jsonl_lines js ?f @ [body e]) (js_files js),
          js_known := AList.update ?f (AList.update (ev_event_id e) (ev_canonical_hash e) (index_of es)) (js_known js)\<rparr>"
        using assms(10) Inr name hash es(3) v(2) known by (simp add: append_once_def Let_def)
      have new: "ev_event_id e \<notin> fst ` set (index_of es)"
        using known False by (simp add: map_of_eq_None_iff)
      have "0 < dl_attempt_count x" using assms(3,6,9) by (auto simp: delivery_inv_def)
      then have part: "stream_part E d ?f (es @ [e])"
        using es(2) v(1) assms(5-8) next_line_last [OF log assms(3) es(2) assms(5,6,7,8) _ False] assms(9)
        by (auto simp: stream_part_def sorted_wrt_append settled_def)
      have "file_inv E d js'"
        unfolding file_inv_def
      proof
        fix g
        show "\<exists>es. jsonl_lines js' g = map body es \<and> stream_part E d g es \<and>
          (\<forall>m. map_of (js_known js') g = Some m \<longrightarrow> m = index_of es)"
        proof (cases "g = ?f")
          case True
          then show ?thesis using part es(1) new
            by (intro exI [of _ "es @ [e]"]) (auto simp: js' update_conv update_new index_of_def)
        next
          case False
          then show ?thesis using assms(4) by (auto simp: js' file_inv_def update_conv)
        qed
      qed
      then show ?thesis by (auto simp: js')
    qed
  qed
  then show "file_inv E d js'" "set (jsonl_lines js run) \<subseteq> set (jsonl_lines js' run)"
    "\<And>b. r = Inr b \<Longrightarrow> body e \<in> set (jsonl_lines js' (ev_stream_id e))" by blast+
qed

subsection \<open>Every step keeps the invariant\<close>

lemma stream_part_grows:
  assumes "stream_part E d run es" "set (gateway_events d) \<subseteq> set (gateway_events d')"
    and "\<And>x. x \<in> set (event_deliveries d) \<Longrightarrow> \<exists>y \<in> set (event_deliveries d'). dl_sink_id y = dl_sink_id x \<and>
      dl_event_id y = dl_event_id x \<and> dl_attempt_count x \<le> dl_attempt_count y"
  shows "stream_part E d' run es"
  unfolding stream_part_def
proof (intro conjI ballI)
  fix e
  assume e: "e \<in> set es"
  then obtain x where x: "x \<in> set (event_deliveries d)" "dl_sink_id x = ''jsonl''" "dl_event_id x = ev_event_id e"
    "0 < dl_attempt_count x" using assms(1) by (auto simp: stream_part_def)
  obtain y where "y \<in> set (event_deliveries d')" "dl_sink_id y = dl_sink_id x" "dl_event_id y = dl_event_id x"
    "dl_attempt_count x \<le> dl_attempt_count y" using assms(3) [OF x(1)] by blast
  then show "\<exists>x \<in> set (event_deliveries d'). dl_sink_id x = ''jsonl'' \<and> dl_event_id x = ev_event_id e \<and>
      0 < dl_attempt_count x" using x by (intro bexI [of _ y]) auto
qed (use assms(1,2) in \<open>auto simp: stream_part_def\<close>)

lemma file_inv_grows:
  assumes "file_inv E d js" "set (gateway_events d) \<subseteq> set (gateway_events d')"
    and "\<And>x. x \<in> set (event_deliveries d) \<Longrightarrow> \<exists>y \<in> set (event_deliveries d'). dl_sink_id y = dl_sink_id x \<and>
      dl_event_id y = dl_event_id x \<and> dl_attempt_count x \<le> dl_attempt_count y"
  shows "file_inv E d' js"
  unfolding file_inv_def
proof
  fix run
  obtain es where "jsonl_lines js run = map body es" "stream_part E d run es"
    "\<forall>m. map_of (js_known js) run = Some m \<longrightarrow> m = index_of es"
    using assms(1) by (auto simp: file_inv_def)
  then show "\<exists>es. jsonl_lines js run = map body es \<and> stream_part E d' run es \<and>
      (\<forall>m. map_of (js_known js) run = Some m \<longrightarrow> m = index_of es)"
    using stream_part_grows [OF _ assms(2,3)] by blast
qed

lemma row_evolves_count: "row_evolves x y \<Longrightarrow> dl_attempt_count x \<le> dl_attempt_count y"
  unfolding row_evolves_def by blast

lemma file_inv_evolves: "file_inv E d js \<Longrightarrow> evolves d d' \<Longrightarrow> file_inv E d' js"
proof (rule file_inv_grows)
  assume ev: "evolves d d'"
  then show "set (gateway_events d) \<subseteq> set (gateway_events d')" by (simp add: evolves_def)
  fix x
  assume "x \<in> set (event_deliveries d)"
  then obtain y where "y \<in> set (event_deliveries d')" "row_evolves x y" using evolves_forth [OF ev] by blast
  then show "\<exists>y \<in> set (event_deliveries d'). dl_sink_id y = dl_sink_id x \<and> dl_event_id y = dl_event_id x \<and>
      dl_attempt_count x \<le> dl_attempt_count y"
    using row_evolves_keys [of x y] row_evolves_count [of x y] by blast
qed

lemma hot_ok_evolves:
  assumes "hot_ok E d" "evolves d d'"
  shows "hot_ok E d'"
proof -
  have e: "gateway_events d' = gateway_events d" "map ob_outbox_id (event_outbox d') = map ob_outbox_id (event_outbox d)"
    "map ob_event_id (event_outbox d') = map ob_event_id (event_outbox d)" "\<forall>j. last_sequence d' j = last_sequence d j"
    "list_all2 row_evolves (event_deliveries d) (event_deliveries d')"
    using assms(2) by (simp_all add: evolves_def)
  have m: "map dl_delivery_id (event_deliveries d') = map dl_delivery_id (event_deliveries d)"
    "map dl_event_id (event_deliveries d') = map dl_event_id (event_deliveries d)"
    "map dl_outbox_id (event_deliveries d') = map dl_outbox_id (event_deliveries d)"
    "map (\<lambda>x. (dl_event_id x, dl_sink_id x)) (event_deliveries d') = map (\<lambda>x. (dl_event_id x, dl_sink_id x)) (event_deliveries d)"
    using e(5) by (auto simp: list_all2_conv_all_nth list_eq_iff_nth_eq row_evolves_keys)
  have img: "dl_event_id ` set (event_deliveries d') = dl_event_id ` set (event_deliveries d)"
    "dl_outbox_id ` set (event_deliveries d') = dl_outbox_id ` set (event_deliveries d)"
    "ob_outbox_id ` set (event_outbox d') = ob_outbox_id ` set (event_outbox d)"
    "ob_event_id ` set (event_outbox d') = ob_event_id ` set (event_outbox d)"
    using m e(2,3) by (metis list.set_map)+
  have sub: "dl_event_id ` set (event_deliveries d') \<subseteq> ev_event_id ` set (gateway_events d')"
    "dl_outbox_id ` set (event_deliveries d') \<subseteq> ob_outbox_id ` set (event_outbox d')"
    "ob_event_id ` set (event_outbox d') \<subseteq> ev_event_id ` set (gateway_events d')"
    unfolding img e(1) using assms(1) by (auto simp: hot_ok_def log_inv_def)
  have "\<forall>x \<in> set (event_deliveries d'). dl_event_id x \<in> ev_event_id ` set (gateway_events d') \<and>
        dl_outbox_id x \<in> ob_outbox_id ` set (event_outbox d')"
    "\<forall>r \<in> set (event_outbox d'). ob_event_id r \<in> ev_event_id ` set (gateway_events d')"
    using sub by blast+
  moreover have "events_of d' = events_of d" by (rule ext) (simp add: events_of_def e(1))
  ultimately show ?thesis
    using assms(1) unfolding hot_ok_def log_inv_def dicts_ok_def m e(1-3) using e(4) by simp
qed

lemma claim_ok_none [simp]: "claim_ok d js None"
  by (simp add: claim_ok_def)

lemma same_log_inv:
  assumes "same_log d d'" "dicts_ok d'"
  shows "hot_ok E d \<Longrightarrow> hot_ok E d'" "delivery_inv d due \<Longrightarrow> delivery_inv d' due"
    "file_inv E d js \<Longrightarrow> file_inv E d' js" "claim_ok d js cl \<Longrightarrow> claim_ok d' js cl"
    "delivered_ok d js \<Longrightarrow> delivered_ok d' js"
proof -
  have e: "gateway_events d' = gateway_events d" "event_deliveries d' = event_deliveries d"
    using assms(1) by (simp_all add: same_log_def)
  show "hot_ok E d \<Longrightarrow> hot_ok E d'"
    using log_inv_same [OF assms(1), of E] assms(2) e by (simp add: hot_ok_def)
  show "delivery_inv d due \<Longrightarrow> delivery_inv d' due"
    by (simp add: delivery_inv_def ordered_from_def before_def e)
  show "file_inv E d js \<Longrightarrow> file_inv E d' js" by (simp add: file_inv_def stream_part_def e)
  show "claim_ok d js cl \<Longrightarrow> claim_ok d' js cl" by (simp add: claim_ok_def e)
  show "delivered_ok d js \<Longrightarrow> delivered_ok d' js" by (simp add: delivered_ok_def e)
qed

lemma append_inv:
  assumes a: "log_appended E d e now d'" and row: "event_row_ok E e" "ev_storage_tier e = Hot" "ev_canonical_event_json e \<noteq> None"
    and d: "dicts_ok d'" and hot: "hot_ok E d"
  shows "hot_ok E d'" "delivery_inv d due \<Longrightarrow> delivery_inv d' due" "file_inv E d js \<Longrightarrow> file_inv E d' js"
    "claim_ok d js cl \<Longrightarrow> claim_ok d' js cl" "delivered_ok d js \<Longrightarrow> delivered_ok d' js"
proof -
  have e: "gateway_events d' = gateway_events d @ [e]" "event_deliveries d' = event_deliveries d @ new_deliveries E d e"
    using a by (simp_all add: log_appended_def)
  have log: "log_inv E d" using hot by (simp add: hot_ok_def)
  show "hot_ok E d'" using log_inv_append [OF log a row(1)] hot d row(2,3) e(1) by (auto simp: hot_ok_def)
  show "delivery_inv d due \<Longrightarrow> delivery_inv d' due" by (rule delivery_inv_append [OF log a])
  show "file_inv E d js \<Longrightarrow> file_inv E d' js" by (erule file_inv_grows) (auto simp: e)
  show "claim_ok d js cl \<Longrightarrow> claim_ok d' js cl" unfolding claim_ok_def e set_append by blast
  show "delivered_ok d js \<Longrightarrow> delivered_ok d' js"
    using new_delivery_columns(2) [of _ E d e] unfolding delivered_ok_def e set_append by fastforce
qed

text \<open>Rows that an operation did not touch, by identity.\<close>

lemma updated_row:
  assumes "log_inv E d" "event_deliveries d' = update_rows p f (event_deliveries d)"
    and "\<And>x. p x \<Longrightarrow> dl_delivery_id (f x) = dl_delivery_id x"
    and "x \<in> set (event_deliveries d)" "y \<in> set (event_deliveries d')" "dl_delivery_id y = dl_delivery_id x"
  shows "y = (if p x then f x else x)"
proof -
  obtain z where z: "z \<in> set (event_deliveries d)" "y = (if p z then f z else z)"
    using assms(2,5) by (auto simp: set_update_rows)
  then have "dl_delivery_id z = dl_delivery_id x" using assms(3,6) by (cases "p z") auto
  then have "z = x" using same_row [OF assms(1) z(1) assms(4)] by blast
  then show ?thesis using z(2) by simp
qed

lemma claim_step:
  assumes "hot_ok E d" "delivery_inv d ((i, n) # due)" "claim_delivery K E d i n now = Inr (d', Some c)"
  shows "delivery_inv d' due" "claim_ok d' js (Some (c, None))"
    "delivered_ok d js \<Longrightarrow> delivered_ok d' js" "evolves d d'"
proof -
  let ?p = "\<lambda>x. claimable x i n (iso E now)"
  have log: "log_inv E d" using assms(1) by (simp add: hot_ok_def)
  show ev: "evolves d d'" using claim_delivery_Inr(1) [OF assms(3)] .
  obtain x e where C: "event_deliveries d' = update_rows ?p claimed (event_deliveries d)"
    "count_rows ?p (event_deliveries d) = 1" "lookup_row dl_delivery_id i (event_deliveries d') = Some x"
    "event_in d (dl_event_id x) = Some e" "ev_canonical_event_json e = Some (cl_canonical_event_json c)"
    "cl_canonical_hash c = ev_canonical_hash e" "cl_delivery_id c = i" "cl_event_id c = dl_event_id x"
    "cl_sink_id c = dl_sink_id x" "cl_revision c = dl_revision x"
    using claim_delivery_Inr(3) [OF assms(3)] by blast
  have keep: "dl_delivery_id (claimed x) = dl_delivery_id x" for x by (simp add: claimed_def)
  have row: "y = (if ?p x then claimed x else x)"
    if "x \<in> set (event_deliveries d)" "y \<in> set (event_deliveries d')" "dl_delivery_id y = dl_delivery_id x" for x y
    using updated_row [OF log C(1) _ that] keep by simp
  show "delivery_inv d' due"
  proof (rule delivery_inv_evolves [OF ev assms(2)])
    fix x y
    assume x: "x \<in> set (event_deliveries d)" "row_evolves x y" "y \<in> set (event_deliveries d')"
      "dl_attempt_count x = 0" "0 < dl_attempt_count y"
    then have "?p x" using row [OF x(1,3) row_evolves_keys(1) [OF x(2)]] by (auto split: if_splits)
    then show "ordered_from d x" using assms(2) x(1) by (auto simp: delivery_inv_def claimable_def)
  qed auto
  have mem: "x \<in> set (event_deliveries d')" "dl_delivery_id x = i"
    using lookup_row_Some_mem [OF C(3)] by auto
  have "filter ?p (event_deliveries d) \<noteq> []" using C(2) by (auto simp: count_rows_def)
  then obtain z where z: "z \<in> set (event_deliveries d)" "?p z" by (auto simp: filter_empty_conv)
  have "x = claimed z" using row [OF z(1) mem(1)] z(2) mem(2) by (simp add: claimable_def)
  then have st: "dl_status x = Delivering" by (simp add: claimed_def)
  have e: "e \<in> set (gateway_events d')" "ev_event_id e = dl_event_id x"
    using lookup_row_Some_mem [OF C(4) [unfolded event_in_def]] ev by (auto simp: evolves_def)
  show "claim_ok d' js (Some (c, None))"
    unfolding claim_ok_def
    by (intro allI impI exI [of _ x] exI [of _ e]) (use mem st e C(5-9) in \<open>auto simp: body_def\<close>)
  show "delivered_ok d' js" if "delivered_ok d js"
    unfolding delivered_ok_def
  proof (intro ballI impI)
    fix y
    assume y: "y \<in> set (event_deliveries d')" "dl_sink_id y = ''jsonl''" "dl_status y = Delivered"
    then have "y \<in> set (event_deliveries d)" using C(1) by (auto simp: set_update_rows claimed_def split: if_splits)
    then show "\<exists>e\<in>set (gateway_events d'). ev_event_id e = dl_event_id y \<and> body e \<in> set (jsonl_lines js (ev_stream_id e))"
      using that y(2,3) ev by (auto simp: delivered_ok_def evolves_def)
  qed
qed

lemma finish_step:
  assumes "hot_ok E d" "delivery_inv d due" "finish K E d c r ts u = Inr d'"
    and "claim_ok d js (Some (c, Some r))" "delivered_ok d js"
  shows "delivery_inv d' due" "delivered_ok d' js" "evolves d d'"
proof -
  have log: "log_inv E d" using assms(1) by (simp add: hot_ok_def)
  show ev: "evolves d d'" using finish_Inr(1) [OF assms(3)] .
  obtain f where f: "event_deliveries d' = update_rows (active_claim c) f (event_deliveries d)"
    "\<forall>x. dl_status (f x) = Delivered \<longrightarrow> r = Inr ()"
    using finish_Inr(2) [OF assms(3)] by blast
  have row: "\<exists>x \<in> set (event_deliveries d). row_evolves x y \<and> (y = x \<or> active_claim c x \<and> y = f x)"
    if y: "y \<in> set (event_deliveries d')" for y
  proof -
    obtain i where i: "i < length (event_deliveries d')" "y = event_deliveries d' ! i" using y by (metis in_set_conv_nth)
    have l: "list_all2 row_evolves (event_deliveries d) (event_deliveries d')" using ev by (simp add: evolves_def)
    then have "i < length (event_deliveries d)" "row_evolves (event_deliveries d ! i) y"
      using i list_all2_lengthD [OF l] list_all2_nthD2 [OF l] by auto
    moreover have "y = (if active_claim c (event_deliveries d ! i) then f (event_deliveries d ! i) else event_deliveries d ! i)"
      using i f(1) by (simp add: update_rows_def)
    ultimately show ?thesis by (intro bexI [of _ "event_deliveries d ! i"]) (auto split: if_splits)
  qed
  show "delivery_inv d' due"
  proof (rule delivery_inv_evolves [OF ev assms(2)])
    fix x y
    assume x: "x \<in> set (event_deliveries d)" "row_evolves x y" "y \<in> set (event_deliveries d')"
      "dl_attempt_count x = 0" "0 < dl_attempt_count y"
    obtain z where z: "z \<in> set (event_deliveries d)" "row_evolves z y" "y = z \<or> active_claim c z" using row [OF x(3)] by blast
    have "z = x" using same_row [OF log z(1) x(1)] row_evolves_keys(1) [OF z(2)] row_evolves_keys(1) [OF x(2)] by simp
    moreover have "dl_status x \<noteq> Delivering" using assms(2) x(1,4) by (auto simp: delivery_inv_def)
    ultimately have "y = x" using z(3) by (auto simp: active_claim_def)
    then show "ordered_from d x" using x(4,5) by simp
  qed auto
  show "delivered_ok d' js"
    unfolding delivered_ok_def
  proof (intro ballI impI)
    fix y
    assume y: "y \<in> set (event_deliveries d')" "dl_sink_id y = ''jsonl''" "dl_status y = Delivered"
    have g: "gateway_events d' = gateway_events d" using ev by (simp add: evolves_def)
    obtain x where x: "x \<in> set (event_deliveries d)" "row_evolves x y" "y = x \<or> active_claim c x \<and> y = f x"
      using row [OF y(1)] by blast
    show "\<exists>e\<in>set (gateway_events d'). ev_event_id e = dl_event_id y \<and> body e \<in> set (jsonl_lines js (ev_stream_id e))"
    proof (cases "y = x")
      case True
      then show ?thesis using assms(5) x(1) y(2,3) g by (auto simp: delivered_ok_def)
    next
      case False
      then have a: "active_claim c x" "y = f x" using x(3) by auto
      then have r: "r = Inr ()" using f(2) y(3) by blast
      obtain z e where z: "z \<in> set (event_deliveries d)" "e \<in> set (gateway_events d)" "dl_event_id z = ev_event_id e"
        "dl_delivery_id z = cl_delivery_id c" "dl_sink_id z = cl_sink_id c"
        "cl_sink_id c = ''jsonl'' \<longrightarrow> body e \<in> set (jsonl_lines js (ev_stream_id e))"
        using assms(4) r unfolding claim_ok_def by blast
      have "z = x" using same_row [OF log z(1) x(1)] z(4) a(1) by (simp add: active_claim_def)
      then show ?thesis
        using z(2,3,5,6) g y(2) row_evolves_keys(2,3) [OF x(2)] by (intro bexI [of _ e]) auto
    qed
  qed
qed

lemma restart_step:
  assumes "hot_ok E d" "delivery_inv d due" "reconcile_startup E d ts = Inr (d', n, m)" "delivered_ok d js"
  shows "delivery_inv d' []" "delivered_ok d' js" "evolves d d'"
proof -
  have log: "log_inv E d" using assms(1) by (simp add: hot_ok_def)
  show ev: "evolves d d'" using reconcile_Inr(1) [OF assms(3)] .
  have c: "map (\<lambda>x. (dl_delivery_id x, dl_attempt_count x)) (event_deliveries d')
      = map (\<lambda>x. (dl_delivery_id x, dl_attempt_count x)) (event_deliveries d)"
    using reconcile_counts [OF assms(3)] .
  show "delivery_inv d' []"
  proof (rule delivery_inv_evolves [OF ev assms(2)])
    fix x y
    assume x: "x \<in> set (event_deliveries d)" "row_evolves x y" "y \<in> set (event_deliveries d')"
      "dl_attempt_count x = 0" "0 < dl_attempt_count y"
    have "(dl_delivery_id y, dl_attempt_count y) \<in> set (map (\<lambda>x. (dl_delivery_id x, dl_attempt_count x)) (event_deliveries d))"
      unfolding c [symmetric] using x(3) by auto
    then obtain z where "z \<in> set (event_deliveries d)" "dl_delivery_id z = dl_delivery_id y" "dl_attempt_count z = dl_attempt_count y"
      by auto
    moreover then have "z = x" using same_row [OF log _ x(1), of z] row_evolves_keys(1) [OF x(2)] by simp
    ultimately show "ordered_from d x" using x(4,5) by simp
  qed simp
  show "delivered_ok d' js"
    using assms(4) reconcile_Inr(2) [OF assms(3)] ev unfolding delivered_ok_def evolves_def by metis
qed

lemma deliver_step:
  assumes "json_loads E = json_parse" "hot_ok E d" "delivery_inv d due" "file_inv E d (dp_jsonl p)"
    and "claim_ok d (dp_jsonl p) (Some (c, None))" "delivered_ok d (dp_jsonl p)" "deliver_claim E p c = (p', r)"
  shows "file_inv E d (dp_jsonl p')" "claim_ok d (dp_jsonl p') (Some (c, Some r))" "delivered_ok d (dp_jsonl p')"
proof -
  obtain x e where x: "x \<in> set (event_deliveries d)" "e \<in> set (gateway_events d)" "dl_event_id x = ev_event_id e"
    "dl_delivery_id x = cl_delivery_id c" "dl_sink_id x = cl_sink_id c" "dl_status x = Delivering"
    "cl_canonical_event_json c = body e" "cl_canonical_hash c = ev_canonical_hash e"
    using assms(5) unfolding claim_ok_def by blast
  have "file_inv E d (dp_jsonl p') \<and> (\<forall>run. set (jsonl_lines (dp_jsonl p) run) \<subseteq> set (jsonl_lines (dp_jsonl p') run)) \<and>
      (r = Inr () \<longrightarrow> cl_sink_id c = ''jsonl'' \<longrightarrow> body e \<in> set (jsonl_lines (dp_jsonl p') (ev_stream_id e)))"
  proof (cases "cl_sink_id c = ''jsonl''")
    case True
    obtain js' b where a: "append_once E (dp_jsonl p) (body e) (ev_canonical_hash e) None = (js', b)"
      by (cases "append_once E (dp_jsonl p) (body e) (ev_canonical_hash e) None")
    have p': "dp_jsonl p' = js'" "r = rbind b (\<lambda>_. Inr ())"
      using assms(7) True x(7,8) a by (auto simp: deliver_claim_def)
    note A = append_once_keeps [OF assms(1-4) x(2,1,3) _ x(6) a]
    have s: "dl_sink_id x = ''jsonl''" using x(5) True by simp
    have "\<exists>v. b = Inr v" if "r = Inr ()" using that p'(2) by (cases b) auto
    then show ?thesis using A [OF s] p'(1) by auto
  next
    case False
    then have "dp_jsonl p' = dp_jsonl p"
      using assms(7) by (auto simp: deliver_claim_def split: if_splits sum.splits)
    then show ?thesis using assms(4) False by simp
  qed
  note D = this
  show "file_inv E d (dp_jsonl p')" using D by blast
  show "claim_ok d (dp_jsonl p') (Some (c, Some r))"
    unfolding claim_ok_def by (intro allI impI exI [of _ x] exI [of _ e]) (use x D in auto)
  show "delivered_ok d (dp_jsonl p')" using assms(6) D unfolding delivered_ok_def by blast
qed

lemma sys_step_keeps:
  assumes "sys_step K E s s'" "json_loads E = json_parse" "sys_inv E s"
  shows "sys_inv E s'"
  using assms(1)
proof cases
  case (sys_control d')
  have I: "hot_ok E (sy_db s)" "delivery_inv (sy_db s) (sy_due s)" "file_inv E (sy_db s) (dp_jsonl (sy_dp s))"
    "claim_ok (sy_db s) (dp_jsonl (sy_dp s)) (sy_claim s)" "delivered_ok (sy_db s) (dp_jsonl (sy_dp s))"
    using assms(3) by (simp_all add: sys_inv_def)
  have s': "sy_db s' = d'" "sy_due s' = sy_due s" "sy_dp s' = sy_dp s" "sy_claim s' = sy_claim s"
    by (simp_all add: sys_control(1))
  from step_log [OF sys_control(2)] show ?thesis
  proof
    assume l: "same_log (sy_db s) d'"
    note S = same_log_inv [OF l sys_control(3)]
    show ?thesis unfolding sys_inv_def s' using S(1) [OF I(1)] S(2) [OF I(2)] S(3) [OF I(3)] S(4) [OF I(4)] S(5) [OF I(5)]
      by (intro conjI)
  next
    assume "appends E (sy_db s) d'"
    then obtain e now where a: "log_appended E (sy_db s) e now d'" "event_row_ok E e" "ev_storage_tier e = Hot"
      "ev_canonical_event_json e \<noteq> None" unfolding appends_def by blast
    note A = append_inv [OF a sys_control(3) I(1)]
    show ?thesis unfolding sys_inv_def s' using A(1) A(2) [OF I(2)] A(3) [OF I(3)] A(4) [OF I(4)] A(5) [OF I(5)]
      by (intro conjI)
  qed
next
  case (sys_poll now)
  have "log_inv E (sy_db s)" using assms(3) by (simp add: sys_inv_def hot_ok_def)
  then show ?thesis using delivery_inv_poll [of E "sy_db s" now] assms(3) sys_poll by (simp add: sys_inv_def)
next
  case (sys_skip i n due now d')
  have "d' = sy_db s" using claim_delivery_Inr(2) [OF sys_skip(4)] by simp
  moreover have "delivery_inv (sy_db s) due" using assms(3) sys_skip(2) by (auto simp: sys_inv_def delivery_inv_def)
  ultimately show ?thesis using assms(3) sys_skip by (simp add: sys_inv_def)
next
  case (sys_claim i n due now d' c)
  have inv: "hot_ok E (sy_db s)" "delivery_inv (sy_db s) ((i, n) # due)" using assms(3) sys_claim(2) by (simp_all add: sys_inv_def)
  note C = claim_step [OF inv sys_claim(4)]
  show ?thesis
    using C assms(3) hot_ok_evolves [OF inv(1) C(4)] file_inv_evolves [OF _ C(4)] sys_claim(1) by (simp add: sys_inv_def)
next
  case (sys_deliver c p r)
  have inv: "hot_ok E (sy_db s)" "delivery_inv (sy_db s) (sy_due s)" "file_inv E (sy_db s) (dp_jsonl (sy_dp s))"
    "claim_ok (sy_db s) (dp_jsonl (sy_dp s)) (Some (c, None))" "delivered_ok (sy_db s) (dp_jsonl (sy_dp s))"
    using assms(3) sys_deliver(2) by (simp_all add: sys_inv_def)
  show ?thesis using deliver_step [OF assms(2) inv sys_deliver(3)] inv(1,2) sys_deliver(1) by (simp add: sys_inv_def)
next
  case (sys_finish c r ts u d')
  have inv: "hot_ok E (sy_db s)" "delivery_inv (sy_db s) (sy_due s)" "delivered_ok (sy_db s) (dp_jsonl (sy_dp s))"
    "claim_ok (sy_db s) (dp_jsonl (sy_dp s)) (Some (c, Some r))" using assms(3) sys_finish(2) by (simp_all add: sys_inv_def)
  note F = finish_step [OF inv(1,2) sys_finish(3) inv(4,3)]
  show ?thesis
    using F assms(3) hot_ok_evolves [OF inv(1) F(3)] file_inv_evolves [OF _ F(3)] sys_finish(1) by (simp add: sys_inv_def)
next
  case (sys_restart ts d' n m room)
  have inv: "hot_ok E (sy_db s)" "delivery_inv (sy_db s) (sy_due s)" "delivered_ok (sy_db s) (dp_jsonl (sy_dp s))"
    "file_inv E (sy_db s) (dp_jsonl (sy_dp s))" using assms(3) by (simp_all add: sys_inv_def)
  note R = restart_step [OF inv(1,2) sys_restart(2) inv(3)]
  have "file_inv E d' (dp_jsonl (restarted (sy_dp s) room))"
    using file_inv_evolves [OF inv(4) R(3)] by (auto simp: file_inv_def restarted_def)
  moreover have "delivered_ok d' (dp_jsonl (restarted (sy_dp s) room))"
    using R(2) by (simp add: delivered_ok_def restarted_def)
  ultimately show ?thesis using R hot_ok_evolves [OF inv(1) R(3)] sys_restart(1) by (simp add: sys_inv_def)
qed (use assms(3) in \<open>simp_all add: sys_inv_def\<close>)

lemma initial_sys_inv: "sys_inv E (initial_system sinks gens room)"
proof -
  have "log_inv E (sy_db (initial_system sinks gens room))" using log_inv_empty by (simp add: initial_system_def)
  then show ?thesis
    by (simp add: sys_inv_def hot_ok_def initial_system_def empty_db_def dicts_ok_def delivery_inv_def file_inv_def
        jsonl_lines_def stream_part_def delivered_ok_def)
qed

lemma reachable_sys_inv: "sys_reachable K E s \<Longrightarrow> json_loads E = json_parse \<Longrightarrow> sys_inv E s"
  unfolding sys_reachable_def
proof (elim exE)
  fix sinks gens room
  assume p: "json_loads E = json_parse" and r: "(sys_step K E)\<^sup>*\<^sup>* (initial_system sinks gens room) s"
  from r show "sys_inv E s"
    by (induction rule: rtranclp_induct) (auto intro: sys_step_keeps p initial_sys_inv)
qed

subsection \<open>What a reader of the file relies on\<close>

text \<open>
  C23. The JSONL file of a run is an ordered part of its stream: in every history of commands, deliveries,
  failures, retries and restarts its lines are the canonical texts of stored events of that run, in strictly
  increasing stream order, so no event is written twice and none out of order.
\<close>

theorem jsonl_file_is_ordered:
  assumes "sys_reachable K E s" "json_loads E = json_parse"
  shows "\<exists>es. jsonl_lines (dp_jsonl (sy_dp s)) run = map body es \<and>
    set es \<subseteq> set (events_of (sy_db s) run) \<and> sorted_wrt (<) (map ev_stream_sequence es)"
proof -
  have "file_inv E (sy_db s) (dp_jsonl (sy_dp s))" using reachable_sys_inv [OF assms] by (simp add: sys_inv_def)
  then obtain es where es: "jsonl_lines (dp_jsonl (sy_dp s)) run = map body es" "stream_part E (sy_db s) run es"
    unfolding file_inv_def by blast
  have "set es \<subseteq> set (events_of (sy_db s) run)" using es(2) by (auto simp: stream_part_def events_of_def)
  moreover have "sorted_wrt (<) (map ev_stream_sequence es)"
    using es(2) by (simp add: stream_part_def sorted_wrt_map seq_less_def [abs_def])
  ultimately show ?thesis using es(1) by blast
qed

text \<open>
  C24. Deliveries to a sink follow the stream: once a delivery was attempted, every earlier event of the same
  stream is delivered or dead-lettered for that sink, in every history, and whatever the controller appends
  meanwhile.
\<close>

theorem deliveries_follow_the_stream:
  assumes "sys_reachable K E s" "json_loads E = json_parse"
    and "x \<in> set (event_deliveries (sy_db s))" "0 < dl_attempt_count x"
    and "p \<in> set (event_deliveries (sy_db s))" "before (sy_db s) p x"
  shows "settled (dl_status p)"
  using reachable_sys_inv [OF assms(1,2)] assms(3-6) by (auto simp: sys_inv_def delivery_inv_def ordered_from_def)

lemma sorted_part_is_all:
  assumes "sorted_wrt seq_less xs" "sorted_wrt seq_less ys" "set xs = set ys"
  shows "xs = ys"
  using assms
proof (induction xs arbitrary: ys)
  case (Cons x xs)
  then obtain y zs where ys: "ys = y # zs" by (cases ys) auto
  have "x = y"
  proof (rule ccontr)
    assume "x \<noteq> y"
    then have "x \<in> set zs" "y \<in> set xs" using Cons.prems(3) ys by auto
    then have "seq_less y x" "seq_less x y" using Cons.prems(1,2) ys by auto
    then show False by (simp add: seq_less_def)
  qed
  moreover have "x \<notin> set xs" "y \<notin> set zs"
    using sorted_seq_distinct [OF Cons.prems(1)] sorted_seq_distinct [OF Cons.prems(2)] ys by auto
  ultimately have "set xs = set zs" using Cons.prems(3) ys by auto
  then have "xs = zs" using Cons ys by simp
  then show ?case using ys \<open>x = y\<close> by simp
qed simp

lemma events_sorted:
  assumes "log_inv E d"
  shows "sorted_wrt seq_less (events_of d run)"
proof -
  have "map ev_stream_sequence (events_of d run) = [1..<last_sequence d run + 1]"
    using assms by (auto simp: log_inv_def gapless_def dest: spec [of _ run])
  then have "sorted_wrt (<) (map ev_stream_sequence (events_of d run))" by (simp del: upt_Suc)
  then show ?thesis by (simp add: sorted_wrt_map seq_less_def [abs_def])
qed

lemma delivered_events:
  assumes "sys_reachable K E s" "json_loads E = json_parse"
    and "\<And>e. e \<in> set (events_of (sy_db s) run) \<Longrightarrow> \<exists>x \<in> set (event_deliveries (sy_db s)).
      dl_event_id x = ev_event_id e \<and> dl_sink_id x = ''jsonl'' \<and> dl_status x = Delivered"
  shows "jsonl_lines (dp_jsonl (sy_dp s)) run = map body (events_of (sy_db s) run)"
    "\<And>e. e \<in> set (events_of (sy_db s) run) \<Longrightarrow> readable E e"
proof -
  let ?d = "sy_db s" and ?js = "dp_jsonl (sy_dp s)"
  have inv: "hot_ok E ?d" "file_inv E ?d ?js" "delivered_ok ?d ?js"
    using reachable_sys_inv [OF assms(1,2)] by (simp_all add: sys_inv_def)
  have log: "log_inv E ?d" using inv(1) by (simp add: hot_ok_def)
  obtain es where es: "jsonl_lines ?js run = map body es" "stream_part E ?d run es"
    using inv(2) unfolding file_inv_def by blast
  have part: "sorted_wrt seq_less es" "set es \<subseteq> set (events_of ?d run)" "\<forall>e \<in> set es. readable E e"
    using es(2) by (auto simp: stream_part_def events_of_def)
  have "e \<in> set es" if e: "e \<in> set (events_of ?d run)" for e
  proof -
    obtain x where x: "x \<in> set (event_deliveries ?d)" "dl_event_id x = ev_event_id e" "dl_sink_id x = ''jsonl''"
      "dl_status x = Delivered" using assms(3) [OF e] by blast
    obtain e' where e': "e' \<in> set (gateway_events ?d)" "ev_event_id e' = dl_event_id x"
      "body e' \<in> set (jsonl_lines ?js (ev_stream_id e'))"
      using inv(3) x unfolding delivered_ok_def by blast
    have "e \<in> set (gateway_events ?d)" "ev_stream_id e = run" using e by (auto simp: events_of_def)
    moreover then have "e' = e" using event_ids_inj [OF log e'(1)] e'(2) x(2) by simp
    ultimately have "body e \<in> set (map body es)" using e'(3) es(1) by simp
    then obtain a where a: "a \<in> set es" "body a = body e" by auto
    obtain v where v: "parse_canonical_event E (body a) = Inr v" "en_event_id v = ev_event_id a"
      using part(3) a(1) by (auto simp: readable_def)
    have g: "e \<in> set (gateway_events ?d)" "a \<in> set (gateway_events ?d)"
      using e a(1) es(2) by (auto simp: events_of_def stream_part_def)
    have "parse_canonical_event E (body e) = Inr v" using v(1) a(2) by simp
    then have "en_event_id v = ev_event_id e" by (rule parsed_readable(2) [OF assms(2) inv(1) g(1)])
    then have "a = e" using event_ids_inj [OF log g(2,1)] v(2) by simp
    then show ?thesis using a(1) by simp
  qed
  then have "set es = set (events_of ?d run)" using part(2) by blast
  then have "es = events_of ?d run" using sorted_part_is_all [OF part(1) events_sorted [OF log]] by blast
  then show "jsonl_lines ?js run = map body (events_of ?d run)"
    "\<And>e. e \<in> set (events_of ?d run) \<Longrightarrow> readable E e" using es(1) part(3) by simp_all
qed


text \<open>
  C25. A delivered stream is complete in the file: when every event of a run has a JSONL delivery marked as
  delivered, the file of the run holds exactly the canonical texts of its events, all of them, once, in
  order.
\<close>

theorem delivered_stream_is_the_file:
  assumes "sys_reachable K E s" "json_loads E = json_parse"
    and "\<And>e. e \<in> set (events_of (sy_db s) run) \<Longrightarrow> \<exists>x \<in> set (event_deliveries (sy_db s)).
      dl_event_id x = ev_event_id e \<and> dl_sink_id x = ''jsonl'' \<and> dl_status x = Delivered"
  shows "jsonl_lines (dp_jsonl (sy_dp s)) run = map body (events_of (sy_db s) run)"
  using assms by (rule delivered_events(1))

end
