(* ===== verification/Delivery_Witness.thy ===== *)
theory Delivery_Witness
  imports Delivery_File Witnesses
begin

section \<open>A delivered run\<close>

text \<open>
  A home with the JSONL sink: a run is created, its event is delivered, then the run is cancelled and the
  second event is claimed. The hypotheses of the delivery properties hold along this history. The hash keeps
  identity texts apart and maps every JSON text to one hexadecimal digest.
\<close>

definition hex_digest :: string where
  "hex_digest = replicate 64 (CHR ''a'')"

definition delivery_env :: env where
  "delivery_env = \<lparr>sha256 = (\<lambda>s. if take 1 s = ''{'' then hex_digest else s), json_loads = json_parse,
     iso = (\<lambda>_. ''t''), iso_utc = (\<lambda>_. ''t'')\<rparr>"

definition delivery_controller :: controller where
  "delivery_controller = sample_controller\<lparr>ct_env := delivery_env\<rparr>"

definition jsonl_row :: sink_row where
  "jsonl_row = \<lparr>sk_sink_id = ''jsonl'', sk_enabled = True, sk_config_version = 1, sk_config_hash = ''h'',
     sk_required_by_default = True\<rparr>"

definition config :: dispatcher_config where
  "config = \<lparr>dc_gateway_epoch = ''g1'', dc_retry_max_attempts = 12, dc_retry_base_seconds = 2,
     dc_retry_max_seconds = 900, dc_dead_letter_enabled = True\<rparr>"

lemma delivery_fields [simp]:
  "ct_env delivery_controller = delivery_env" "ct_gateway_epoch delivery_controller = ''g1''"
  "admission delivery_controller ctx = Inr ()" "json_loads delivery_env = json_parse"
  "iso delivery_env = (\<lambda>_. ''t'')" "enabled_sinks (before_event [jsonl_row]) = [jsonl_row]"
  by (simp_all add: delivery_controller_def sample_controller_def admission_def delivery_env_def enabled_sinks_def
      jsonl_row_def)

lemma hash_of_object: "sha256 delivery_env (canonical_json (JObj d)) = hex_digest"
  by (simp add: delivery_env_def)

lemma hash_of_plain: "c \<noteq> CHR ''{'' \<Longrightarrow> sha256 delivery_env (c # s) = c # s"
  by (simp add: delivery_env_def)

lemma hex_digest_ok: "is_sha256_hex hex_digest"
  by (simp add: is_sha256_hex_def hex_digest_def)

text \<open>Identities in this environment are the identity texts.\<close>

definition id_text :: "string \<Rightarrow> string" where
  "id_text cid = ''gateway-event:v2'' @ newline @ cid @ newline @ ''primary'' @ newline @ ''r1''"

lemma event_id_text: "event_id_of delivery_env ''r1'' cid ''primary'' = id_text cid"
  by (simp add: event_id_of_def id_text_def delivery_env_def)

lemma delivery_id_text: "delivery_id_of delivery_env i s = ''event-delivery:v2:'' @ i @ '':'' @ s"
  by (simp add: delivery_id_of_def delivery_env_def)

lemma outbox_id_text: "outbox_id_of delivery_env e = ''event-outbox:v2:'' @ ev_event_id e"
  by (simp add: outbox_id_of_def delivery_env_def)

text \<open>The sanitizer changes texts, never keys.\<close>

lemma unique_keys_sanitize: "unique_keys v \<Longrightarrow> unique_keys (sanitize v)"
proof (induction v rule: sanitize.induct)
  case (1 kvs)
  have "fst \<circ> (\<lambda>(k, v). (k, if sensitive_key k then JStr REDACTED else sanitize v)) = fst" by (auto simp: fun_eq_iff)
  then show ?case using 1 by (auto simp: list_all_iff)
qed (auto simp: list_all_iff)

lemma unique_keys_sanitize_dict: "unique_keys (JObj d) \<Longrightarrow> unique_keys (JObj (sanitize_dict d))"
  using unique_keys_sanitize [of "JObj d"] by (simp only: sanitize_JObj)

text \<open>An event written on this home: its columns, its delivery and its envelope.\<close>

definition small_payload :: "dict \<Rightarrow> bool" where
  "small_payload p \<longleftrightarrow> unique_keys (JObj (sanitize_dict p))"

lemma written_event:
  assumes "write_event delivery_env d st t p (Some (c # cid)) ''primary'' cause corr now = Inr (d', e)"
    and "enabled_sinks d = [jsonl_row]" "st_run_id st = ''r1''" "st_project_id st = ''p''" "t \<noteq> []" "small_payload p"
  shows "ev_event_id e = id_text (c # cid)" "ev_command_id e = c # cid" "ev_stream_id e = ''r1''"
    "ev_stream_sequence e = next_sequence d ''r1''"
    "new_deliveries delivery_env d e = [delivery_of delivery_env (outbox_id_of delivery_env e) e jsonl_row]"
    "\<exists>v. parse_canonical_event delivery_env (body e) = Inr v" "ev_canonical_event_json e = Some (body e)"
    "sha256 delivery_env (body e) = ev_canonical_hash e" "unique_keys (JObj (ev_payload e))"
proof -
  note W = write_event_Inr(1) [OF assms(1)]
  have c: "c # cid \<noteq> []" by simp
  show ids: "ev_event_id e = id_text (c # cid)" "ev_command_id e = c # cid"
    using event_of_ids [OF c, where key = "''primary''" and st = st] assms(3)
    by (simp_all add: W event_id_text)
  show cols: "ev_stream_id e = ''r1''" "ev_stream_sequence e = next_sequence d ''r1''"
    using assms(3) by (simp_all add: W event_of_columns)
  show "new_deliveries delivery_env d e = [delivery_of delivery_env (outbox_id_of delivery_env e) e jsonl_row]"
    by (simp add: new_deliveries_def assms(2))
  show u: "unique_keys (JObj (ev_payload e))"
    using assms(6) by (simp add: W event_of_columns small_payload_def)
  have b: "ev_canonical_event_json e = Some (canonical_json (event_json delivery_env st e))"
    "ev_canonical_hash e = sha256 delivery_env (canonical_json (event_json delivery_env st e))"
    unfolding W by (rule event_of_body)+
  then show "ev_canonical_event_json e = Some (body e)" "sha256 delivery_env (body e) = ev_canonical_hash e"
    by (simp_all add: body_def)
  have "ev_payload_hash e = hex_digest"
    unfolding W event_of_def Let_def using hash_of_object by simp
  then have "envelope_fields_ok delivery_env st e"
    using ids cols assms(4,5) hex_digest_ok
    by (simp add: envelope_fields_ok_def id_text_def W event_of_columns next_sequence_def split: option.splits)
  then obtain v where "parse_canonical_event delivery_env (canonical_json (event_json delivery_env st e)) = Inr v"
    using event_parses [of delivery_env e st] u by auto
  then show "\<exists>v. parse_canonical_event delivery_env (body e) = Inr v" using b(1) by (simp add: body_def)
qed

subsection \<open>The first event\<close>

definition first_delivery :: "event_row \<Rightarrow> delivery_row" where
  "first_delivery e = delivery_of delivery_env (outbox_id_of delivery_env e) e jsonl_row"

lemma first_delivery_columns [simp]:
  "dl_delivery_id (first_delivery e) = ''event-delivery:v2:'' @ ev_event_id e @ '':'' @ ''jsonl''"
  "dl_outbox_id (first_delivery e) = outbox_id_of delivery_env e" "dl_event_id (first_delivery e) = ev_event_id e"
  "dl_sink_id (first_delivery e) = ''jsonl''" "dl_status (first_delivery e) = Pending"
  "dl_attempt_count (first_delivery e) = 0" "dl_revision (first_delivery e) = 0"
  "dl_next_retry_at (first_delivery e) = None" "dl_required (first_delivery e)"
  by (simp_all add: first_delivery_def delivery_of_def jsonl_row_def delivery_env_def)

lemma run_with_sink:
  obtains d e where "create_run delivery_controller None (sink_db [jsonl_row]) sample_request (sample_call 1)
      = Inr (d, first_state, False)" "gateway_events d = [e]" "event_deliveries d = [first_delivery e]"
    "event_outbox d = [new_outbox delivery_env (before_event [jsonl_row]) e (cx_event_now (sample_call 1))]"
    "event_delivery_attempts d = []" "event_sinks d = [jsonl_row]" "state_in d ''r1'' = Inr first_state"
    "run_exists d ''r1''" "processed_commands d = []" "ev_event_id e = id_text ''run:r1:create''"
    "ev_command_id e = ''run:r1:create''" "ev_stream_id e = ''r1''" "ev_stream_sequence e = 1"
    "\<exists>v. parse_canonical_event delivery_env (body e) = Inr v" "ev_canonical_event_json e = Some (body e)"
    "sha256 delivery_env (body e) = ev_canonical_hash e" "unique_keys (JObj (ev_payload e))"
    "next_sequence d ''r1'' = 2"
proof -
  let ?cid = "''run:'' @ ''r1'' @ '':create''" and ?p = "[(''task_state'', JStr (task_state_value (st_task_state first_state)))]"
  have "log_accepts delivery_env (before_event [jsonl_row]) (st_run_id first_state) ?cid ''primary''"
    by (simp add: log_accepts_def delivery_ids_def)
  then obtain d e where w: "write_event delivery_env (before_event [jsonl_row]) first_state ''state_created'' ?p
      (Some ?cid) ''primary'' None (Some ''r1'') (cx_event_now (sample_call 1)) = Inr (d, e)"
    using write_event_succeeds [of delivery_env "before_event [jsonl_row]" first_state ?cid] by fastforce
  have w': "write_event delivery_env (before_event [jsonl_row]) first_state ''state_created'' ?p
      (Some (CHR ''r'' # ''un:r1:create'')) ''primary'' None (Some ''r1'') (cx_event_now (sample_call 1)) = Inr (d, e)"
    using w by simp
  have pr: "st_project_id first_state = ''p''" by (simp add: first_state_def new_state_def sample_request_def)
  have sp: "small_payload ?p" by (simp add: small_payload_def sanitize_dict_def)
  have ne: "''state_created'' \<noteq> []" by simp
  note E = written_event [OF w' delivery_fields(6) first_state_fields(1) pr ne sp]
  note W = write_event_Inr [OF w] and L = write_event_log(1) [OF w, unfolded log_appended_def]
  have "map sr_state (agent_states d) = [first_state]" using W(4) by simp
  then have "state_in d ''r1'' = Inr first_state" by (auto simp: state_in_def sr_run_id_def)
  moreover have "next_sequence d ''r1'' = 2" using W(3) by (simp add: next_sequence_def replace_row_def)
  moreover have "create_run delivery_controller None (sink_db [jsonl_row]) sample_request (sample_call 1)
      = Inr (d, first_state, False)"
    using w create_run_is_event [of delivery_controller "[jsonl_row]"] by (simp add: created_event_def)
  moreover have "run_exists d ''r1''" using W(6) before_event_fields(9) by (simp add: run_exists_def)
  moreover have "ev_stream_sequence e = 1" using E(4) by (simp add: next_sequence_def)
  ultimately show thesis
    using that [of d e] E L W(5) by (simp add: first_delivery_def)
qed

lemma finish_only_claim:
  assumes "event_deliveries d = [x]" "active_claim c x" "event_delivery_attempts d = [a]" "da_status a = AttemptDelivering"
    and "da_attempt_id a = cl_attempt_id c" "event_outbox d = [o1]"
  obtains a' o2 where "finish K E d c (Inr ()) ts utc_now = Inr (d\<lparr>event_delivery_attempts := [a'],
      event_deliveries := [delivered_row ts x], event_outbox := [o2]\<rparr>)"
    "da_delivery_id a' = da_delivery_id a" "da_attempt_id a' = da_attempt_id a"
    "ob_outbox_id o2 = ob_outbox_id o1" "ob_event_id o2 = ob_event_id o1"
proof -
  let ?a = "a\<lparr>da_status := AttemptSucceeded, da_completed_at := Some ts, da_error_type := None, da_error_summary := None\<rparr>"
  let ?d1 = "d\<lparr>event_delivery_attempts := [?a]\<rparr>"
  let ?d2 = "?d1\<lparr>event_deliveries := [delivered_row ts x]\<rparr>"
  have 1: "settle_attempt d c AttemptSucceeded ts None None = Inr ?d1"
    by (simp add: settle_attempt_def Let_def count_rows_def update_rows_def assms(3-5))
  have 2: "update_claimed ?d1 c (delivered_row ts) label = Inr ?d2" for label
    by (simp add: update_claimed_def count_rows_def update_rows_def assms(1,2))
  obtain o2 where 3: "complete_outbox_if_ready ?d2 (cl_event_id c) ts = ?d2\<lparr>event_outbox := [o2]\<rparr>"
    "ob_outbox_id o2 = ob_outbox_id o1" "ob_event_id o2 = ob_event_id o1"
    by (simp add: complete_outbox_if_ready_def update_rows_def assms(6) completed_now_def)
  have "finish K E d c (Inr ()) ts utc_now = Inr (?d2\<lparr>event_outbox := [o2]\<rparr>)"
    by (simp add: finish_def finish_success_def 1 2 3)
  then show thesis using that [of o2 ?a] 3 by simp
qed

text \<open>One round of the dispatcher over a home whose only event is not delivered yet.\<close>

lemma first_round:
  assumes "gateway_events d = [e]" "event_deliveries d = [first_delivery e]" "event_outbox d = [o1]"
    and "ob_outbox_id o1 = outbox_id_of delivery_env e" "event_delivery_attempts d = []" "sy_due s = []"
    and "sy_claim s = None" "dp_paused_epoch (sy_dp s) = None" "sy_db s = d" "ev_canonical_event_json e = Some (body e)"
    and "parse_canonical_event delivery_env (body e) = Inr v" "sha256 delivery_env (body e) = ev_canonical_hash e"
    and "dp_jsonl (sy_dp s) = \<lparr>js_files = [], js_known = []\<rparr>"
  shows "\<exists>s' x a o2. (sys_step config delivery_env)\<^sup>*\<^sup>* s s' \<and> sy_due s' = [] \<and> sy_claim s' = None \<and>
    dp_paused_epoch (sy_dp s') = None \<and>
    sy_db s' = d\<lparr>event_deliveries := [x], event_delivery_attempts := [a], event_outbox := [o2]\<rparr> \<and>
    dl_status x = Delivered \<and> dl_event_id x = ev_event_id e \<and> dl_sink_id x = ''jsonl'' \<and>
    dl_delivery_id x = dl_delivery_id (first_delivery e) \<and> da_delivery_id a = dl_delivery_id (first_delivery e) \<and>
    da_attempt_id a = delivery_attempt_id delivery_env (dl_delivery_id x) 1 \<and>
    ob_outbox_id o2 = ob_outbox_id o1 \<and> ob_event_id o2 = ob_event_id o1"
proof -
  let ?x = "first_delivery e" and ?i = "dl_delivery_id (first_delivery e)"
  have ev: "event_in d (ev_event_id e) = Some e" by (simp add: event_in_def assms(1))
  have "due_rows d ''t'' = [(?x, o1, e)]"
    by (simp add: due_rows_def map_filter_def assms(1-5) ev waiting_def blocked_by_prior_def)
  then have due: "due_deliveries delivery_env d 1 = [(?i, 0)]" by (simp add: due_deliveries_def)
  let ?a = "\<lparr>da_attempt_id = delivery_attempt_id delivery_env ?i 1, da_delivery_id = ?i, da_attempt_no = 1,
     da_gateway_epoch = ''g1'', da_status = AttemptDelivering, da_started_at = 1, da_completed_at = None,
     da_error_type = None, da_error_summary = None\<rparr>"
  let ?c = "\<lparr>cl_delivery_id = ?i, cl_attempt_id = delivery_attempt_id delivery_env ?i 1, cl_attempt_no = 1,
     cl_revision = 1, cl_sink_id = ''jsonl'', cl_event_id = ev_event_id e, cl_canonical_event_json = body e,
     cl_canonical_hash = ev_canonical_hash e\<rparr>"
  let ?dc = "d\<lparr>event_deliveries := [claimed ?x], event_delivery_attempts := [?a]\<rparr>"
  have claim: "claim_delivery config delivery_env d ?i 0 1 = Inr (?dc, Some ?c)"
    using ev assms(5,10)
    by (simp add: claim_delivery_def Let_def count_rows_def assms(2) claimable_def waiting_def update_rows_def claimed_def
        event_in_def insert_delivery_attempt_def config_def)
  obtain p where p: "deliver_claim delivery_env (sy_dp s) ?c = (p, Inr ())" "dp_paused_epoch p = None"
    using assms(8,11,12,13)
    by (simp add: deliver_claim_def append_once_def Let_def known_index_def jsonl_lines_def)
  let ?s1 = "s\<lparr>sy_due := [(?i, 0)]\<rparr>"
  let ?s2 = "s\<lparr>sy_db := ?dc, sy_due := [], sy_claim := Some (?c, None)\<rparr>"
  let ?s3 = "?s2\<lparr>sy_dp := p, sy_claim := Some (?c, Some (Inr ()))\<rparr>"
  have d1: "sys_step config delivery_env s ?s1"
    using sys_poll [of s config delivery_env 1] assms(6-9) due by simp
  have d2: "sys_step config delivery_env ?s1 ?s2"
    using sys_claim [of ?s1 ?i 0 "[]" config delivery_env 1 ?dc ?c] assms(7,9) claim by simp
  have d3: "sys_step config delivery_env ?s2 ?s3"
    using sys_deliver [of ?s2 ?c delivery_env p "Inr ()" config] p(1) by simp
  have act: "active_claim ?c (claimed ?x)" by (simp add: active_claim_def claimed_def)
  obtain a o2 where fin: "finish config delivery_env ?dc ?c (Inr ()) 2 2 = Inr (?dc\<lparr>event_delivery_attempts := [a],
      event_deliveries := [delivered_row 2 (claimed ?x)], event_outbox := [o2]\<rparr>)"
    "da_delivery_id a = ?i" "da_attempt_id a = delivery_attempt_id delivery_env ?i 1"
    "ob_outbox_id o2 = ob_outbox_id o1" "ob_event_id o2 = ob_event_id o1"
    by (rule finish_only_claim [of ?dc "claimed ?x" ?c ?a o1 config delivery_env 2 2]) (use act assms(3) in simp_all)
  let ?d' = "?dc\<lparr>event_delivery_attempts := [a], event_deliveries := [delivered_row 2 (claimed ?x)], event_outbox := [o2]\<rparr>"
  have d4: "sys_step config delivery_env ?s3 (?s3\<lparr>sy_db := ?d', sy_claim := None\<rparr>)"
    by (rule sys_finish [of ?s3 ?c "Inr ()"]) (use fin(1) in simp_all)
  have "(sys_step config delivery_env)\<^sup>*\<^sup>* s (?s3\<lparr>sy_db := ?d', sy_claim := None\<rparr>)"
    using d1 d2 d3 d4 by (meson converse_rtranclp_into_rtranclp rtranclp.rtrancl_refl)
  then show ?thesis
    using p(2) assms(5) fin(2-5)
    by (intro exI [of _ "?s3\<lparr>sy_db := ?d', sy_claim := None\<rparr>"] exI [of _ "delivered_row 2 (claimed ?x)"] exI [of _ a]
          exI [of _ o2] conjI) (simp_all add: delivered_row_def claimed_def)
qed

lemma first_system:
  obtains s d e x a o2 where "sys_reachable config delivery_env s" "sy_due s = []" "sy_claim s = None"
    "dp_paused_epoch (sy_dp s) = None" "sy_db s = d\<lparr>event_deliveries := [x], event_delivery_attempts := [a], event_outbox := [o2]\<rparr>"
    "gateway_events d = [e]" "dl_status x = Delivered" "dl_event_id x = ev_event_id e" "dl_sink_id x = ''jsonl''"
    "dl_delivery_id x = dl_delivery_id (first_delivery e)" "da_delivery_id a = dl_delivery_id x"
    "da_attempt_id a = delivery_attempt_id delivery_env (dl_delivery_id x) 1"
    "ob_outbox_id o2 = outbox_id_of delivery_env e" "ob_event_id o2 = ev_event_id e" "state_in d ''r1'' = Inr first_state"
    "run_exists d ''r1''" "processed_commands d = []" "ev_event_id e = id_text ''run:r1:create''"
    "ev_command_id e = ''run:r1:create''" "ev_stream_id e = ''r1''" "ev_stream_sequence e = 1"
    "next_sequence d ''r1'' = 2" "event_sinks d = [jsonl_row]" "unique_keys (JObj (ev_payload e))"
proof (rule run_with_sink)
  fix d e
  assume d: "create_run delivery_controller None (sink_db [jsonl_row]) sample_request (sample_call 1)
      = Inr (d, first_state, False)" "gateway_events d = [e]" "event_deliveries d = [first_delivery e]"
    "event_outbox d = [new_outbox delivery_env (before_event [jsonl_row]) e (cx_event_now (sample_call 1))]"
    "event_delivery_attempts d = []" "event_sinks d = [jsonl_row]" "state_in d ''r1'' = Inr first_state"
    "run_exists d ''r1''" "processed_commands d = []" "ev_event_id e = id_text ''run:r1:create''"
    "ev_command_id e = ''run:r1:create''" "ev_stream_id e = ''r1''" "ev_stream_sequence e = 1"
    "\<exists>v. parse_canonical_event delivery_env (body e) = Inr v" "ev_canonical_event_json e = Some (body e)"
    "sha256 delivery_env (body e) = ev_canonical_hash e" "unique_keys (JObj (ev_payload e))"
    "next_sequence d ''r1'' = 2"
  obtain v where v: "parse_canonical_event delivery_env (body e) = Inr v" using d(14) by blast
  let ?s0 = "initial_system [jsonl_row] [] 10"
  let ?s1 = "?s0\<lparr>sy_db := d\<rparr>"
  have db: "sy_db ?s0 = sink_db [jsonl_row]"
    by (simp add: initial_system_def sink_db_def empty_db_def)
  have "step delivery_env (sy_db ?s0) d"
    unfolding db by (rule step_create_run [OF _ d(1)]) simp
  moreover have "dicts_ok d" using d(17) by (simp add: dicts_ok_def d(2))
  ultimately have 1: "sys_step config delivery_env ?s0 ?s1" by (rule sys_control)
  have o1: "ob_outbox_id (new_outbox E0 d0 e ts) = outbox_id_of E0 e" "ob_event_id (new_outbox E0 d0 e ts) = ev_event_id e"
    for E0 d0 ts by (simp_all add: new_outbox_def Let_def)
  have "\<exists>s' x a o2. (sys_step config delivery_env)\<^sup>*\<^sup>* ?s1 s' \<and> sy_due s' = [] \<and> sy_claim s' = None \<and>
    dp_paused_epoch (sy_dp s') = None \<and>
    sy_db s' = d\<lparr>event_deliveries := [x], event_delivery_attempts := [a], event_outbox := [o2]\<rparr> \<and>
    dl_status x = Delivered \<and> dl_event_id x = ev_event_id e \<and> dl_sink_id x = ''jsonl'' \<and>
    dl_delivery_id x = dl_delivery_id (first_delivery e) \<and> da_delivery_id a = dl_delivery_id (first_delivery e) \<and>
    da_attempt_id a = delivery_attempt_id delivery_env (dl_delivery_id x) 1 \<and>
    ob_outbox_id o2 = outbox_id_of delivery_env e \<and> ob_event_id o2 = ev_event_id e"
    using first_round [OF d(2-4) o1(1) d(5) _ _ _ _ d(15) v d(16), of ?s1]
    by (simp add: initial_system_def o1)
  then obtain s' x a o2 where r: "(sys_step config delivery_env)\<^sup>*\<^sup>* ?s1 s'" "sy_due s' = []" "sy_claim s' = None"
    "dp_paused_epoch (sy_dp s') = None"
    "sy_db s' = d\<lparr>event_deliveries := [x], event_delivery_attempts := [a], event_outbox := [o2]\<rparr>"
    "dl_status x = Delivered" "dl_event_id x = ev_event_id e" "dl_sink_id x = ''jsonl''"
    "dl_delivery_id x = dl_delivery_id (first_delivery e)" "da_delivery_id a = dl_delivery_id (first_delivery e)"
    "da_attempt_id a = delivery_attempt_id delivery_env (dl_delivery_id x) 1"
    "ob_outbox_id o2 = outbox_id_of delivery_env e" "ob_event_id o2 = ev_event_id e"
    by blast
  have "sys_reachable config delivery_env s'"
    unfolding sys_reachable_def using converse_rtranclp_into_rtranclp [OF 1 r(1)] by blast
  then show thesis
    by (rule that [OF _ r(2-5) d(2) r(6-9) _ r(11-13) d(7-13,18,6,17)]) (simp_all add: r(9,10))
qed

theorem jsonl_file_is_ordered_witness:
  "\<exists>s es. sys_reachable config delivery_env s \<and> length (event_deliveries (sy_db s)) = 1 \<and>
     jsonl_lines (dp_jsonl (sy_dp s)) ''r1'' = map body es \<and> set es \<subseteq> set (events_of (sy_db s) ''r1'') \<and>
     sorted_wrt (<) (map ev_stream_sequence es)"
proof (rule first_system)
  fix s d x and a :: delivery_attempt_row and o2
  assume s: "sys_reachable config delivery_env s"
    "sy_db s = d\<lparr>event_deliveries := [x], event_delivery_attempts := [a], event_outbox := [o2]\<rparr>"
  then have "length (event_deliveries (sy_db s)) = 1" by simp
  then show ?thesis
    using jsonl_file_is_ordered [OF s(1), of "''r1''"] s(1) by (intro exI [of _ s]) (simp only: simp_thms delivery_fields)
qed

theorem delivered_stream_is_the_file_witness:
  "\<exists>s e. sys_reachable config delivery_env s \<and> gateway_events (sy_db s) = [e] \<and>
     jsonl_lines (dp_jsonl (sy_dp s)) ''r1'' = [body e]"
proof (rule first_system)
  fix s d e x and a :: delivery_attempt_row and o2
  assume s: "sys_reachable config delivery_env s" "gateway_events d = [e]" "dl_status x = Delivered"
    "dl_event_id x = ev_event_id e" "dl_sink_id x = ''jsonl''" "ev_stream_id e = ''r1''"
    "sy_db s = d\<lparr>event_deliveries := [x], event_delivery_attempts := [a], event_outbox := [o2]\<rparr>"
  have "events_of (sy_db s) ''r1'' = [e]" by (simp add: events_of_def s)
  moreover have "jsonl_lines (dp_jsonl (sy_dp s)) ''r1'' = map body (events_of (sy_db s) ''r1'')"
    by (rule delivered_stream_is_the_file [OF s(1)]) (simp_all add: events_of_def s)
  ultimately show ?thesis using s(1,2,7) by auto
qed

subsection \<open>The second event\<close>

lemma cancel_second:
  assumes "gateway_events d = [e]" "event_deliveries d = [x]" "event_outbox d = [o2]" "event_sinks d = [jsonl_row]"
    and "dl_delivery_id x = dl_delivery_id (first_delivery e)" "ob_outbox_id o2 = outbox_id_of delivery_env e"
    and "ob_event_id o2 = ev_event_id e" "state_in d ''r1'' = Inr first_state" "run_exists d ''r1''"
    and "processed_commands d = []" "ev_event_id e = id_text ''run:r1:create''" "ev_command_id e = ''run:r1:create''"
    and "ev_stream_id e = ''r1''" "ev_stream_sequence e = 1" "next_sequence d ''r1'' = 2"
  obtains d' res e2 o3 where "apply_command delivery_controller None d cancel (sample_call 2) = Inr (d', res)"
    "gateway_events d' = [e, e2]" "event_deliveries d' = [x, first_delivery e2]" "event_outbox d' = [o2, o3]"
    "event_delivery_attempts d' = event_delivery_attempts d" "ob_outbox_id o3 = outbox_id_of delivery_env e2"
    "ev_stream_id e2 = ''r1''" "ev_stream_sequence e2 = 2" "ev_event_id e2 = id_text ''k1''"
    "ev_canonical_event_json e2 = Some (body e2)" "unique_keys (JObj (ev_payload e2))"
proof -
  let ?x = "sample_call 2"
  let ?oc = "state_outcome d (first_state\<lparr>st_cancellation_requested := True, st_recovery_reason := Some (sanitize_text ''stop'')\<rparr>)"
  have oc: "oc_db ?oc = d" "oc_operation ?oc = None" "oc_attempt ?oc = None" "oc_approval ?oc = None"
    "st_run_id (oc_state ?oc) = ''r1''" "st_revision (oc_state ?oc) = 0"
    "st_task_state (oc_state ?oc) = TaskState.CREATED" by (simp_all add: state_outcome_def)
  have disp: "dispatch delivery_controller d first_state cancel ?x (cmd_body cancel) = Inr ?oc"
    by (simp add: request_cancellation_def)
  have fence: "check_fence delivery_controller first_state cancel = Inr ()"
    by (simp add: check_fence_def is_adopt_def cancel_def sample_command_def)
  have sinks: "enabled_sinks d = [jsonl_row]" by (simp add: enabled_sinks_def assms(4) jsonl_row_def)
  have idne: "id_text ''k1'' \<noteq> id_text ''run:r1:create''" by (simp add: id_text_def newline_def)
  have acc: "log_accepts delivery_env d ''r1'' ''k1'' ''primary''"
    using idne by (simp add: log_accepts_def delivery_ids_def sinks event_id_text assms delivery_id_text outbox_id_text
        jsonl_row_def hash_of_plain)
  have valid: "validate_lifecycle (committed_state ?oc ?x)"
    by (simp add: committed_state_def validate_lifecycle_def normal_terminal_def TERMINAL_STATES_def oc)
  have "\<exists>d' res. apply_command delivery_controller None d cancel ?x = Inr (d', res)"
    by (rule apply_succeeds [OF _ fence _ disp, where ?d3.0 = d and ?d2.0 = d and ?d1.0 = d])
      (use assms oc acc valid in \<open>simp_all add: save_operation_opt_def save_attempt_opt_def save_approval_opt_def
        untouched_def normal_terminal_def cancel_def sample_command_def\<close>)
  then obtain d' res where ap: "apply_command delivery_controller None d cancel ?x = Inr (d', res)" by blast
  have fresh: "lookup_row pc_command_id (cmd_command_id cancel) (processed_commands d) = None" by (simp add: assms)
  obtain st oc' e2 where f: "state_in d ''r1'' = Inr st" "dispatch delivery_controller d st cancel ?x (cmd_body cancel) = Inr oc'"
    "e2 = committed_event delivery_controller d st cancel oc' ?x" "gateway_events d' = gateway_events d @ [e2]"
    using ap fresh by (rule apply_fresh_facts) simp
  have "appends delivery_env d d'" using apply_log [OF ap] f(4) by auto
  then obtain e' now where l: "log_appended delivery_env d e' now d'" "ev_canonical_event_json e' \<noteq> None"
    by (auto simp: appends_def)
  note L = l(1) [unfolded log_appended_def]
  have e': "e' = e2" using L f(4) by simp
  have st: "st = first_state" "oc' = ?oc" using f(1,2) assms(8) disp by simp_all
  note E = f(3) [unfolded st committed_event_def]
  have cols: "ev_stream_id e2 = ''r1''" "ev_stream_sequence e2 = 2" "ev_event_id e2 = id_text ''k1''"
    unfolding E using assms(15) oc event_of_ids(1) [of "''k1''"]
    by (simp_all add: event_of_columns event_id_text cancel_def sample_command_def)
  let ?p = "event_payload cancel first_state (committed_state ?oc ?x) (oc_operation ?oc) (oc_attempt ?oc) (oc_approval ?oc)"
  have "ev_payload e2 = sanitize_dict ?p" unfolding E by (rule event_of_columns)
  moreover have "unique_keys (JObj ?p)"
    by (simp add: event_payload_def transition_payload_def execution_text_def opt_str_def oc first_state_def new_state_def split: option.splits)
  ultimately have u: "unique_keys (JObj (ev_payload e2))" using unique_keys_sanitize_dict by simp
  have new: "new_deliveries delivery_env d e2 = [first_delivery e2]"
    by (simp add: new_deliveries_def sinks first_delivery_def)
  have "event_deliveries d' = event_deliveries d @ new_deliveries delivery_env d e2"
    "event_outbox d' = event_outbox d @ [new_outbox delivery_env d e2 now]"
    "event_delivery_attempts d' = event_delivery_attempts d"
    using L unfolding e' by blast+
  moreover have "ev_canonical_event_json e2 = Some (body e2)" using l(2) unfolding e' by (auto simp: body_def)
  moreover have "ob_outbox_id (new_outbox delivery_env d e2 now) = outbox_id_of delivery_env e2"
    by (simp add: new_outbox_def Let_def)
  ultimately show thesis
    using assms(1-3) new cols u f(4) by (intro that [OF ap]) simp_all
qed

theorem deliveries_follow_the_stream_witness:
  "\<exists>s p x. sys_reachable config delivery_env s \<and> p \<in> set (event_deliveries (sy_db s)) \<and>
     x \<in> set (event_deliveries (sy_db s)) \<and> 0 < dl_attempt_count x \<and> before (sy_db s) p x \<and> settled (dl_status p)"
proof (rule first_system)
  fix s0 and D :: db and x and a :: delivery_attempt_row and o2 e
  let ?d = "D\<lparr>event_deliveries := [x], event_delivery_attempts := [a], event_outbox := [o2]\<rparr>"
  assume s0: "sys_reachable config delivery_env s0" "sy_due s0 = []" "sy_claim s0 = None"
    "dp_paused_epoch (sy_dp s0) = None" "sy_db s0 = ?d"
    "gateway_events D = [e]" "dl_status x = Delivered" "dl_event_id x = ev_event_id e" "dl_sink_id x = ''jsonl''"
    "dl_delivery_id x = dl_delivery_id (first_delivery e)" "da_delivery_id a = dl_delivery_id x"
    "da_attempt_id a = delivery_attempt_id delivery_env (dl_delivery_id x) 1"
    "ob_outbox_id o2 = outbox_id_of delivery_env e" "ob_event_id o2 = ev_event_id e" "state_in D ''r1'' = Inr first_state"
    "run_exists D ''r1''" "processed_commands D = []" "ev_event_id e = id_text ''run:r1:create''"
    "ev_command_id e = ''run:r1:create''" "ev_stream_id e = ''r1''" "ev_stream_sequence e = 1"
    "next_sequence D ''r1'' = 2" "event_sinks D = [jsonl_row]" "unique_keys (JObj (ev_payload e))"
  have same: "state_in ?d i = state_in D i" "run_exists ?d i = run_exists D i" "next_sequence ?d i = next_sequence D i" for i
    by (simp_all add: state_in_def run_exists_def next_sequence_def)
  obtain d' res e2 o3 where c: "apply_command delivery_controller None ?d cancel (sample_call 2) = Inr (d', res)"
    "gateway_events d' = [e, e2]" "event_deliveries d' = [x, first_delivery e2]" "event_outbox d' = [o2, o3]"
    "event_delivery_attempts d' = event_delivery_attempts ?d" "ob_outbox_id o3 = outbox_id_of delivery_env e2"
    "ev_stream_id e2 = ''r1''" "ev_stream_sequence e2 = 2" "ev_event_id e2 = id_text ''k1''"
    "ev_canonical_event_json e2 = Some (body e2)" "unique_keys (JObj (ev_payload e2))"
    by (rule cancel_second [of ?d e x o2]) (use s0 same in simp_all)
  let ?y = "first_delivery e2" and ?i = "dl_delivery_id (first_delivery e2)"
  have ids: "ev_event_id e2 \<noteq> ev_event_id e" "dl_delivery_id x \<noteq> ?i" "ob_outbox_id o2 \<noteq> ob_outbox_id o3"
    using c(6,9) s0(8,10,13,18) by (simp_all add: id_text_def newline_def outbox_id_text)
  have ev: "event_in d' (ev_event_id e2) = Some e2" "event_in d' (ev_event_id e) = Some e"
    using ids(1) by (simp_all add: event_in_def c(2))
  let ?s1 = "s0\<lparr>sy_db := d'\<rparr>"
  have "step delivery_env ?d d'"
    by (rule step_apply [OF _ _ c(1)]) (simp_all add: fresh_ids_def)
  moreover have "dicts_ok d'" using c(11) s0(24) by (simp add: dicts_ok_def c(2))
  ultimately have 1: "sys_step config delivery_env s0 ?s1" using s0(5) by (intro sys_control) simp_all
  have "due_rows d' ''t'' = [(?y, o3, e2)]"
    using ids ev s0(7-9) by (simp add: due_rows_def map_filter_def c(3,4,6) waiting_def blocked_by_prior_def settled_def)
  then have due: "due_deliveries delivery_env d' 1 = [(?i, 0)]" by (simp add: due_deliveries_def)
  have 2: "sys_step config delivery_env ?s1 (?s1\<lparr>sy_due := [(?i, 0)]\<rparr>)"
    using sys_poll [of ?s1 config delivery_env 1] s0(2-5) due by simp
  have aid: "da_attempt_id a \<noteq> delivery_attempt_id delivery_env ?i 1" "da_delivery_id a \<noteq> ?i"
    using ids(2) s0(10-12) by (simp_all add: delivery_attempt_id_def hash_of_plain)
  obtain d2 cl where cl: "claim_delivery config delivery_env d' ?i 0 1 = Inr (d2, Some cl)"
    "event_deliveries d2 = [x, claimed ?y]" "gateway_events d2 = [e, e2]"
    using ev aid ids(2) c(3,5,10)
    by (simp add: claim_delivery_def Let_def count_rows_def claimable_def waiting_def update_rows_def claimed_def
        event_in_def insert_delivery_attempt_def config_def c(2))
  let ?s2 = "?s1\<lparr>sy_due := [(?i, 0)]\<rparr>"
  let ?s3 = "?s2\<lparr>sy_db := d2, sy_due := [], sy_claim := Some (cl, None)\<rparr>"
  have 3: "sys_step config delivery_env ?s2 ?s3"
    using sys_claim [of ?s2 ?i 0 "[]" config delivery_env 1 d2 cl] s0(3) cl(1) by simp
  have r: "sys_reachable config delivery_env ?s3"
    using s0(1) 1 2 3 unfolding sys_reachable_def by (meson rtranclp.rtrancl_into_rtrancl)
  have b: "before (sy_db ?s3) x (claimed ?y)"
    unfolding before_def using s0(8,9,20,21) c(7,8) cl(3)
    by (intro conjI exI [of _ e] exI [of _ e2]) (simp_all add: claimed_def)
  have "settled (dl_status x)"
    by (rule deliveries_follow_the_stream [OF r _ _ _ _ b]) (simp_all add: cl(2), simp add: claimed_def)
  then show ?thesis
    using r b cl(2) by (intro exI [of _ ?s3] exI [of _ x] exI [of _ "claimed ?y"]) (simp add: claimed_def)
qed

end
