(* ===== verification/Byte_Text.thy ===== *)
theory Byte_Text
  imports Json_Text "HOL-Library.Word"
begin

section \<open>Text as bytes\<close>

text \<open>
  Files hold bytes. \<open>utf8\<close> and \<open>utf8_decode\<close> are \<^verbatim>\<open>str.encode("utf-8")\<close> and \<^verbatim>\<open>bytes.decode("utf-8")\<close> on the
  texts of this development, whose code points are below 256: one byte below 128, two from 128 on. A byte
  sequence of a code point above 255 is outside the model and does not decode. The second part reads one
  member back out of a file that holds a header line and then one line per text.
\<close>

type_synonym byte = "8 word"
type_synonym bytes = "byte list"

definition utf8_char :: "char \<Rightarrow> bytes" where
  "utf8_char c = (let n = of_char c :: nat in
     if n < 128 then [of_nat n] else [of_nat (192 + n div 64), of_nat (128 + n mod 64)])"

definition utf8 :: "string \<Rightarrow> bytes" where
  "utf8 s = concat (map utf8_char s)"

fun utf8_decode :: "bytes \<Rightarrow> string option" where
  "utf8_decode [] = Some []"
| "utf8_decode (b # bs) =
     (if unat b < 128 then map_option (Cons (char_of (unat b))) (utf8_decode bs)
      else case bs of
             [] \<Rightarrow> None
           | c # cs \<Rightarrow>
               if unat b \<in> {194, 195} \<and> 128 \<le> unat c \<and> unat c < 192
               then map_option (Cons (char_of ((unat b - 192) * 64 + (unat c - 128)))) (utf8_decode cs)
               else None)"

definition newline_byte :: byte where
  "newline_byte = 10"

lemma utf8_simps [simp]: "utf8 [] = []" "utf8 (c # s) = utf8_char c @ utf8 s" "utf8 (s @ t) = utf8 s @ utf8 t"
  by (simp_all add: utf8_def)

lemma unat_byte: "n < 256 \<Longrightarrow> unat (of_nat n :: byte) = n"
  by (simp add: unat_of_nat)

lemma char_code_bound: "(of_char c :: nat) < 256"
proof -
  have "(of_char c :: nat) mod 256 = of_char c" using of_char_of [of "of_char c :: nat"] by simp
  then show ?thesis using mod_less_divisor [of 256 "of_char c :: nat"] by linarith
qed

lemma utf8_decode_char: "utf8_decode (utf8_char c @ bs) = map_option (Cons c) (utf8_decode bs)"
proof -
  let ?n = "of_char c :: nat"
  have n: "?n < 256" by (rule char_code_bound)
  show ?thesis
  proof (cases "?n < 128")
    case True
    then show ?thesis by (simp add: utf8_char_def unat_byte)
  next
    case False
    then have "?n div 64 = 2 \<or> ?n div 64 = 3" using n by linarith
    define b k :: byte where "b = of_nat (192 + ?n div 64)" and "k = of_nat (128 + ?n mod 64)"
    have d: "?n div 64 = 2 \<or> ?n div 64 = 3" "(?n div 64) * 64 + ?n mod 64 = ?n" using n False by linarith auto
    have u: "unat b = 192 + ?n div 64" "unat k = 128 + ?n mod 64"
      unfolding b_def k_def using d(1) by (intro unat_byte; auto)+
    have "utf8_char c = [b, k]" using False by (simp add: utf8_char_def Let_def b_def k_def)
    moreover have "char_of ((unat b - 192) * 64 + (unat k - 128)) = c" unfolding u using d(2) by simp
    moreover have "\<not> unat b < 128" "unat b \<in> {194, 195}" "128 \<le> unat k" "unat k < 192"
      unfolding u using d(1) by auto
    ultimately show ?thesis by (simp only: append.simps utf8_decode.simps if_False if_True list.case simp_thms)
  qed
qed

lemma utf8_round_trip: "utf8_decode (utf8 s) = Some s"
  by (induction s) (simp_all add: utf8_decode_char)

subsection \<open>Lines of a file\<close>

definition first_newline :: "bytes \<Rightarrow> nat option" where
  "first_newline data =
     (let n = length (takeWhile (\<lambda>b. b \<noteq> newline_byte) data) in if n < length data then Some n else None)"

text \<open>Canonical text is one line: control characters are escaped.\<close>

definition printable :: "string \<Rightarrow> bool" where
  "printable s \<longleftrightarrow> list_all (\<lambda>c. 32 \<le> (of_char c :: nat)) s"

lemma printable_simps [simp]: "printable []" "printable (c # s) \<longleftrightarrow> 32 \<le> (of_char c :: nat) \<and> printable s"
  "printable (s @ t) \<longleftrightarrow> printable s \<and> printable t"
  by (simp_all add: printable_def)

lemma printable_nat_text: "printable (nat_text n)"
proof (induction n rule: nat_text.induct)
  case (1 n)
  have d: "32 \<le> (48 + n mod 10) mod 256" for n :: nat by (simp add: mod_less)
  show ?case
  proof (cases "n < 10")
    case True
    then show ?thesis by (subst nat_text.simps) simp
  next
    case False
    then show ?thesis using 1 d [of n] by (subst nat_text.simps) simp
  qed
qed

lemma printable_escape: "printable (escape_char c)"
proof -
  have "(of_char c :: nat) < 32 \<Longrightarrow> of_char c div 16 < (2 :: nat) \<and> of_char c mod 16 < (16 :: nat)" by auto
  then show ?thesis
    by (auto simp: escape_char_def Let_def hex_digit_def)
qed

lemma printable_quote: "printable (quote_text s)"
proof -
  have "printable (concat (map escape_char s))" by (induction s) (simp_all add: printable_escape)
  then show ?thesis by (simp add: quote_text_def)
qed

lemma printable_join: "printable sep \<Longrightarrow> (\<And>x. x \<in> set xs \<Longrightarrow> printable x) \<Longrightarrow> printable (join_text sep xs)"
  by (induction sep xs rule: join_text.induct) auto

lemma printable_canonical: "printable (canonical_json v)"
proof (induction v rule: canonical_json.induct)
  case (6 kvs)
  have "printable (join_text '','' (map (\<lambda>(k, t). quote_text k @ '':'' @ t)
      (sort_key fst (map (\<lambda>(k, v). (k, canonical_json v)) kvs))))"
    by (rule printable_join) (use 6 in \<open>auto simp: printable_quote\<close>)
  then show ?case by simp
next
  case (5 xs)
  then have "printable (join_text '','' (map canonical_json xs))" by (auto intro!: printable_join)
  then show ?case by simp
qed (simp_all add: int_text_def printable_nat_text printable_quote)

lemma newline_not_printed: "printable s \<Longrightarrow> newline_byte \<notin> set (utf8 s)"
proof (induction s)
  case (Cons c s)
  let ?n = "of_char c :: nat"
  have n: "?n < 256" by (rule char_code_bound)
  have "b \<noteq> newline_byte" if "b \<in> set (utf8_char c)" for b
  proof -
    have u: "unat (of_nat (192 + ?n div 64) :: byte) = 192 + ?n div 64"
      "unat (of_nat (128 + ?n mod 64) :: byte) = 128 + ?n mod 64" "unat (of_nat ?n :: byte) = ?n"
      using n by (intro unat_byte; linarith)+
    have "utf8_char c = [of_nat ?n] \<or> utf8_char c = [of_nat (192 + ?n div 64), of_nat (128 + ?n mod 64)]"
      by (simp only: utf8_char_def Let_def if_cancel split: if_split) blast
    then have "b = of_nat ?n \<or> b = of_nat (192 + ?n div 64) \<or> b = of_nat (128 + ?n mod 64)"
      using that by (metis empty_iff empty_set set_ConsD)
    moreover have "32 \<le> ?n" using Cons.prems by simp
    ultimately have "unat b \<ge> 32" using u by (elim disjE; hypsubst; linarith)
    then show ?thesis by (auto simp: newline_byte_def)
  qed
  then show ?case using Cons by auto
qed simp

lemma first_newline_line:
  assumes "printable s"
  shows "first_newline (utf8 s @ newline_byte # r) = Some (length (utf8 s))"
proof -
  have "takeWhile (\<lambda>b. b \<noteq> newline_byte) (utf8 s @ newline_byte # r) = utf8 s"
    using newline_not_printed [OF assms] by (auto simp: takeWhile_tail takeWhile_eq_all_conv)
  then show ?thesis by (simp add: first_newline_def)
qed

end
