(* ===== verification/Event_Archive.thy ===== *)
theory Event_Archive
  imports Event_Envelope Byte_Text
begin

section \<open>The event store and its archive\<close>

text \<open>
  \<^verbatim>\<open>EventStore\<close>, \<^verbatim>\<open>EventConsumerCursorStore\<close> and \<^verbatim>\<open>GatewayEventArchiveService\<close> of \<^verbatim>\<open>gateway/event_store.py\<close>.
  A body is read from its row or, when the row is archived, from the verified archive file. The archive
  service freezes a member set in one transaction, writes the file outside of any transaction, verifies it
  and releases the bodies in another; each part is a definition of its own, so that a crash may fall between
  them. A file appears whole, as \<^verbatim>\<open>os.replace\<close> of the finished partial file makes it; the partial file is never
  read. \<open>H\<close> is \<^verbatim>\<open>hashlib.sha256(...).hexdigest()\<close> on bytes.
\<close>

subsection \<open>Files\<close>

type_synonym files = "(string \<times> bytes) list"
type_synonym byte_hash = "bytes \<Rightarrow> string"

definition read_bytes :: "files \<Rightarrow> string \<Rightarrow> bytes result" where
  "read_bytes fs path = or_raise (map_of fs path) (FileNotFoundError path)"

subsection \<open>Reading a body\<close>

definition get_or_null :: "dict \<Rightarrow> string \<Rightarrow> json" where
  "get_or_null d k = (case map_of d k of None \<Rightarrow> JNull | Some v \<Rightarrow> v)"

definition header_ok :: "env \<Rightarrow> byte_hash \<Rightarrow> archive_row \<Rightarrow> dict \<Rightarrow> bytes \<Rightarrow> bool" where
  "header_ok E H a header region \<longleftrightarrow>
     (case get_or_null header ''archive_manifest'' of
        JObj manifest \<Rightarrow>
          get_or_null header ''manifest_hash'' = opt_str (av_manifest_hash a) \<and>
          Some (sha256 E (canonical_json (JObj manifest))) = av_manifest_hash a \<and>
          get_or_null manifest ''members_hash'' = opt_str (av_members_hash a) \<and>
          Some (H region) = av_events_content_hash a
      | _ \<Rightarrow> False)"

definition member_of :: "db \<Rightarrow> string \<Rightarrow> string \<Rightarrow> member_row option" where
  "member_of d archive_id event_id =
     find (\<lambda>m. mb_archive_id m = archive_id \<and> mb_event_id m = event_id) (gateway_event_archive_members d)"

definition archive_of :: "db \<Rightarrow> string \<Rightarrow> archive_row option" where
  "archive_of d i = lookup_row av_archive_id i (gateway_event_archives d)"

definition read_member ::
  "env \<Rightarrow> byte_hash \<Rightarrow> files \<Rightarrow> archive_row \<Rightarrow> nat \<Rightarrow> nat \<Rightarrow> string result" where
  "read_member E H fs a offset len =
     rbind (read_bytes fs (av_archive_path a)) (\<lambda>data.
     case first_newline data of
       None \<Rightarrow> Inl (EventStoreIntegrityError ''Archive manifest is missing'')
     | Some n \<Rightarrow>
         (case Option.bind (utf8_decode (take n data)) (json_loads E) of
            None \<Rightarrow> Inl (EventStoreIntegrityError ''Archive manifest is invalid'')
          | Some (JObj header) \<Rightarrow>
              if \<not> header_ok E H a header (drop (n + 1) data)
              then Inl (EventStoreIntegrityError ''Archive integrity evidence mismatch'')
              else or_raise (utf8_decode (take len (drop offset data)))
                     (EventStoreIntegrityError ''Archive member is not UTF-8'')
          | Some _ \<Rightarrow> Inl (AttributeError ''get'')))"

definition read_archive_member ::
  "env \<Rightarrow> byte_hash \<Rightarrow> files \<Rightarrow> db \<Rightarrow> event_row \<Rightarrow> string result" where
  "read_archive_member E H fs d e =
     (if \<not> truthy (ev_archive_id e) then Inl (EventStoreIntegrityError ''Archived event has no archive identity'')
      else case (member_of d (the (ev_archive_id e)) (ev_event_id e), archive_of d (the (ev_archive_id e))) of
        (Some m, Some a) \<Rightarrow>
          if av_status a \<noteq> ArchiveVerified
          then Inl (EventStoreIntegrityError ''Archived event has no verified member evidence'')
          else (case (mb_byte_offset m, mb_byte_length m) of
                  (Some offset, Some len) \<Rightarrow> read_member E H fs a offset len
                | _ \<Rightarrow> Inl (EventStoreIntegrityError ''Verified archive member has no byte location''))
      | _ \<Rightarrow> Inl (EventStoreIntegrityError ''Archived event has no verified member evidence''))"

definition canonical_body :: "env \<Rightarrow> byte_hash \<Rightarrow> files \<Rightarrow> db \<Rightarrow> event_row \<Rightarrow> string result" where
  "canonical_body E H fs d e =
     (case ev_canonical_event_json e of Some raw \<Rightarrow> Inr raw | None \<Rightarrow> read_archive_member E H fs d e)"

definition read_row :: "env \<Rightarrow> byte_hash \<Rightarrow> files \<Rightarrow> db \<Rightarrow> event_row \<Rightarrow> CanonicalEventRecord result" where
  "read_row E H fs d e = rbind (canonical_body E H fs d e) (validate_row E e)"

definition read_canonical ::
  "env \<Rightarrow> byte_hash \<Rightarrow> files \<Rightarrow> db \<Rightarrow> string \<Rightarrow> CanonicalEventRecord result" where
  "read_canonical E H fs d i =
     rbind (or_raise (lookup_row ev_event_id i (gateway_events d)) (KeyError i)) (read_row E H fs d)"

fun read_rows ::
  "env \<Rightarrow> byte_hash \<Rightarrow> files \<Rightarrow> db \<Rightarrow> nat \<Rightarrow> event_row list \<Rightarrow> CanonicalEventRecord list result" where
  "read_rows E H fs d previous [] = Inr []"
| "read_rows E H fs d previous (e # es) =
     rbind (read_row E H fs d e) (\<lambda>r.
     if ce_stream_sequence r \<le> previous
     then Inl (EventStoreIntegrityError ''Event stream is not strictly ordered'')
     else rbind (read_rows E H fs d (ce_stream_sequence r) es) (\<lambda>rs. Inr (r # rs)))"

definition stream_rows :: "db \<Rightarrow> string \<Rightarrow> nat \<Rightarrow> nat option \<Rightarrow> event_row list" where
  "stream_rows d stream_id after limit =
     (let rows = sort_key ev_stream_sequence
            (filter (\<lambda>e. ev_stream_id e = stream_id \<and> after < ev_stream_sequence e) (gateway_events d))
      in case limit of None \<Rightarrow> rows | Some n \<Rightarrow> take n rows)"

definition read_stream ::
  "env \<Rightarrow> byte_hash \<Rightarrow> files \<Rightarrow> db \<Rightarrow> string \<Rightarrow> nat \<Rightarrow> nat option \<Rightarrow> CanonicalEventRecord list result" where
  "read_stream E H fs d stream_id after limit = read_rows E H fs d after (stream_rows d stream_id after limit)"

fun project_records :: "env \<Rightarrow> CanonicalEventRecord list \<Rightarrow> GatewayEventEnvelope list result" where
  "project_records E [] = Inr []"
| "project_records E (r # rs) =
     rbind (project_event E (ce_canonical_event_json r)) (\<lambda>v.
     rbind (project_records E rs) (\<lambda>vs. Inr (v # vs)))"

definition read_projection_stream ::
  "env \<Rightarrow> byte_hash \<Rightarrow> files \<Rightarrow> db \<Rightarrow> string \<Rightarrow> nat \<Rightarrow> nat option \<Rightarrow> GatewayEventEnvelope list result" where
  "read_projection_stream E H fs d stream_id after limit =
     rbind (read_stream E H fs d stream_id after limit) (project_records E)"

definition max_sequence :: "db \<Rightarrow> string \<Rightarrow> nat" where
  "max_sequence d stream_id =
     foldr max (map ev_stream_sequence (filter (\<lambda>e. ev_stream_id e = stream_id) (gateway_events d))) 0"

subsection \<open>Consumer cursors\<close>

definition cursor_at :: "db \<Rightarrow> string \<Rightarrow> string \<Rightarrow> cursor_row option" where
  "cursor_at d consumer_id stream_id =
     find (\<lambda>c. cu_consumer_id c = consumer_id \<and> cu_stream_id c = stream_id) (event_consumer_cursors d)"

definition advance_in_transaction ::
  "db \<Rightarrow> string \<Rightarrow> string \<Rightarrow> nat \<Rightarrow> nat \<Rightarrow> timestamp \<Rightarrow> (db \<times> nat) result" where
  "advance_in_transaction d consumer_id stream_id expected_revision processed_sequence ts =
     (case cursor_at d consumer_id stream_id of
        None \<Rightarrow>
          if expected_revision \<noteq> 0 then Inl (EventStoreIntegrityError ''Consumer cursor revision conflict'')
          else Inr (d\<lparr>event_consumer_cursors := event_consumer_cursors d @
             [\<lparr>cu_consumer_id = consumer_id, cu_stream_id = stream_id, cu_last_sequence = processed_sequence,
               cu_revision = 1, cu_updated_at = ts\<rparr>]\<rparr>, 1)
      | Some c \<Rightarrow>
          if cu_revision c \<noteq> expected_revision
          then Inl (EventStoreIntegrityError ''Consumer cursor revision conflict'')
          else if processed_sequence < cu_last_sequence c
          then Inl (EventStoreIntegrityError ''Consumer cursor cannot move backwards'')
          else
            let p = (\<lambda>x. cu_consumer_id x = consumer_id \<and> cu_stream_id x = stream_id
                         \<and> cu_revision x = expected_revision) in
            if count_rows p (event_consumer_cursors d) \<noteq> 1
            then Inl (EventStoreIntegrityError ''Consumer cursor CAS failed'')
            else Inr (d\<lparr>event_consumer_cursors := update_rows p (\<lambda>x. x\<lparr>cu_last_sequence := processed_sequence,
               cu_revision := cu_revision x + 1, cu_updated_at := ts\<rparr>) (event_consumer_cursors d)\<rparr>,
               expected_revision + 1))"

end
