(* ===== verification/Archive_Service.thy ===== *)
theory Archive_Service
  imports Event_Archive
begin

section \<open>The archive service\<close>

text \<open>
  \<^verbatim>\<open>GatewayEventArchiveService\<close>: select and freeze, plan the file from the frozen members, write it once,
  verify it as it is on disk, release the bodies. \<open>write_and_verify\<close> and \<open>recover_preparing\<close> are the
  compositions of the code. The random archive identity and the clock are arguments.
\<close>

subsection \<open>Freezing members\<close>

fun reserve_members :: "db \<Rightarrow> string \<Rightarrow> event_row list \<Rightarrow> db result" where
  "reserve_members d archive_id [] = Inr d"
| "reserve_members d archive_id (e # es) =
     (if list_ex (\<lambda>m. mb_event_id m = ev_event_id e) (gateway_event_archive_members d)
      then Inl (IntegrityError ''gateway_event_archive_members'')
      else
        let p = (\<lambda>x. ev_event_id x = ev_event_id e \<and> ev_storage_tier x = Hot \<and> ev_archive_id x = None);
            m = \<lparr>mb_archive_id = archive_id, mb_event_id = ev_event_id e, mb_stream_sequence = ev_stream_sequence e,
                 mb_canonical_hash = ev_canonical_hash e, mb_byte_offset = None, mb_byte_length = None\<rparr> in
        if count_rows p (gateway_events d) \<noteq> 1
        then Inl (EventStoreIntegrityError ''Archive member reservation CAS failed'')
        else reserve_members (d\<lparr>gateway_event_archive_members := gateway_event_archive_members d @ [m],
               gateway_events := update_rows p (\<lambda>x. x\<lparr>ev_archive_id := Some archive_id,
                 ev_row_revision := ev_row_revision x + 1\<rparr>) (gateway_events d)\<rparr>) archive_id es)"

definition archive_path_of :: "env \<Rightarrow> string \<Rightarrow> string \<Rightarrow> string \<Rightarrow> string" where
  "archive_path_of E directory stream_id archive_id =
     directory @ ''/'' @ sha256 E stream_id @ ''/'' @ archive_id @ ''.events.jsonl''"

definition insert_preparing ::
  "env \<Rightarrow> string \<Rightarrow> db \<Rightarrow> string \<Rightarrow> event_row list \<Rightarrow> string \<Rightarrow> timestamp \<Rightarrow> db result" where
  "insert_preparing E directory d stream_id rows archive_id ts =
     (let path = archive_path_of E directory stream_id archive_id in
      if rows = [] \<or> list_ex (\<lambda>a. av_archive_id a = archive_id \<or> av_archive_path a = path) (gateway_event_archives d)
      then Inl (IntegrityError ''gateway_event_archives'')
      else reserve_members (d\<lparr>gateway_event_archives := gateway_event_archives d @
             [\<lparr>av_archive_id = archive_id, av_stream_id = stream_id,
               av_first_sequence = ev_stream_sequence (hd rows), av_last_sequence = ev_stream_sequence (last rows),
               av_event_count = length rows, av_events_content_hash = None, av_manifest_hash = None,
               av_members_hash = None, av_archive_path = path, av_status = ArchivePreparing,
               av_created_at = ts, av_verified_at = None, av_revision = 0\<rparr>]\<rparr>) archive_id rows)"

text \<open>\<^verbatim>\<open>prepare\<close>: an explicit selection, which has to be a contiguous hot range of one stream.\<close>

definition prepare ::
  "env \<Rightarrow> string \<Rightarrow> db \<Rightarrow> string \<Rightarrow> string list \<Rightarrow> string \<Rightarrow> timestamp \<Rightarrow> db result" where
  "prepare E directory d stream_id event_ids archive_id ts =
     (if event_ids = [] then Inl (ValueError ''Archive requires at least one event'')
      else
        let rows = sort_key ev_stream_sequence (filter (\<lambda>e. ev_event_id e \<in> set event_ids) (gateway_events d)) in
        if length rows \<noteq> length event_ids
        then Inl (EventStoreIntegrityError ''Archive selection contains missing events'')
        else if list_ex (\<lambda>e. ev_stream_id e \<noteq> stream_id \<or> ev_storage_tier e \<noteq> Hot) rows
        then Inl (EventStoreIntegrityError ''Archive members must be hot events from one stream'')
        else if map ev_stream_sequence rows \<noteq>
          [ev_stream_sequence (hd rows)..<ev_stream_sequence (last rows) + 1]
        then Inl (EventStoreIntegrityError ''Archive members must form a contiguous stream range'')
        else insert_preparing E directory d stream_id rows archive_id ts)"

text \<open>\<^verbatim>\<open>_prepare_eligible_stream\<close>: old events of a finished run whose required deliveries are done.\<close>

definition run_finished :: "db \<Rightarrow> string \<Rightarrow> bool" where
  "run_finished d i \<longleftrightarrow>
     list_ex (\<lambda>r. ru_run_id r = i \<and> ru_status r \<in> {''completed'', ''failed'', ''cancelled'', ''interrupted''}) (runs d) \<and>
     list_ex (\<lambda>s. sr_run_id s = i \<and> \<not> recovery_required (sr_state s)) (agent_states d)"

definition archivable :: "env \<Rightarrow> db \<Rightarrow> string \<Rightarrow> event_row \<Rightarrow> bool" where
  "archivable E d cutoff e \<longleftrightarrow>
     ev_storage_tier e = Hot \<and> ev_archive_id e = None \<and> iso E (ev_occurred_at e) < cutoff \<and>
     run_finished d (ev_row_run_id e)"

definition deliveries_done :: "db \<Rightarrow> event_row \<Rightarrow> bool" where
  "deliveries_done d e \<longleftrightarrow>
     \<not> list_ex (\<lambda>x. dl_event_id x = ev_event_id e \<and> dl_required x \<and> dl_status x \<noteq> Delivered) (event_deliveries d) \<and>
     \<not> list_ex (\<lambda>a. da_status a = AttemptDelivering \<and>
         list_ex (\<lambda>x. dl_delivery_id x = da_delivery_id a \<and> dl_event_id x = ev_event_id e) (event_deliveries d))
       (event_delivery_attempts d)"

fun contiguous_prefix :: "event_row list \<Rightarrow> event_row list" where
  "contiguous_prefix (e # f # es) =
     (if ev_stream_sequence f = ev_stream_sequence e + 1 then e # contiguous_prefix (f # es) else [e])"
| "contiguous_prefix es = es"

definition prepare_eligible_stream ::
  "env \<Rightarrow> string \<Rightarrow> db \<Rightarrow> string \<Rightarrow> string \<Rightarrow> nat \<Rightarrow> string \<Rightarrow> timestamp \<Rightarrow> db option result" where
  "prepare_eligible_stream E directory d stream_id cutoff segment_max archive_id ts =
     (let rows = take segment_max (sort_key ev_stream_sequence (filter (\<lambda>e. ev_stream_id e = stream_id
            \<and> archivable E d cutoff e \<and> deliveries_done d e) (gateway_events d)));
          hot = map ev_stream_sequence (filter (\<lambda>e. ev_stream_id e = stream_id \<and> ev_storage_tier e = Hot
            \<and> ev_archive_id e = None) (gateway_events d))
      in if rows = [] \<or> hot = [] \<or> ev_stream_sequence (hd rows) \<noteq> Min (set hot) then Inr None
         else rbind (insert_preparing E directory d stream_id (contiguous_prefix rows) archive_id ts)
                (\<lambda>d'. Inr (Some d')))"

subsection \<open>The file of an archive\<close>

record archive_plan =
  pl_archive_id :: string
  pl_path :: string
  pl_members :: "(member_row \<times> string) list"
  pl_manifest :: dict
  pl_manifest_hash :: string
  pl_members_hash :: string
  pl_content_hash :: string

definition frozen_members :: "db \<Rightarrow> string \<Rightarrow> (member_row \<times> event_row) list" where
  "frozen_members d archive_id =
     sort_key (\<lambda>(m, e). mb_stream_sequence m) (List.map_filter (\<lambda>m.
       if mb_archive_id m = archive_id
       then map_option (Pair m) (lookup_row ev_event_id (mb_event_id m) (gateway_events d)) else None)
     (gateway_event_archive_members d))"

definition line_bytes :: "string \<Rightarrow> bytes" where
  "line_bytes raw = utf8 raw @ [newline_byte]"

definition member_json :: "member_row \<Rightarrow> json" where
  "member_json m = JObj [(''event_id'', JStr (mb_event_id m)), (''stream_sequence'', JInt (int (mb_stream_sequence m))),
     (''canonical_hash'', JStr (mb_canonical_hash m))]"

definition manifest_of :: "env \<Rightarrow> archive_row \<Rightarrow> string \<Rightarrow> string \<Rightarrow> dict" where
  "manifest_of E a members_hash content_hash =
     [(''archive_id'', JStr (av_archive_id a)), (''format_version'', JInt 1), (''stream_id'', JStr (av_stream_id a)),
      (''first_sequence'', JInt (int (av_first_sequence a))), (''last_sequence'', JInt (int (av_last_sequence a))),
      (''event_count'', JInt (int (av_event_count a))), (''members_hash'', JStr members_hash),
      (''events_content_hash'', JStr content_hash), (''created_at'', JStr (iso E (av_created_at a)))]"

definition plan_of :: "env \<Rightarrow> byte_hash \<Rightarrow> archive_row \<Rightarrow> (member_row \<times> string) list \<Rightarrow> archive_plan" where
  "plan_of E H a members =
     (let content_hash = H (concat (map (\<lambda>(m, raw). line_bytes raw) members));
          members_hash = sha256 E (canonical_json (JArr (map (\<lambda>(m, raw). member_json m) members)));
          manifest = manifest_of E a members_hash content_hash
      in \<lparr>pl_archive_id = av_archive_id a, pl_path = av_archive_path a, pl_members = members, pl_manifest = manifest,
          pl_manifest_hash = sha256 E (canonical_json (JObj manifest)), pl_members_hash = members_hash,
          pl_content_hash = content_hash\<rparr>)"

definition archive_plan :: "env \<Rightarrow> byte_hash \<Rightarrow> db \<Rightarrow> archive_row \<Rightarrow> archive_plan result" where
  "archive_plan E H d a =
     (let members = frozen_members d (av_archive_id a) in
      if length members \<noteq> av_event_count a
      then Inl (EventStoreIntegrityError ''Frozen archive member count changed'')
      else if list_ex (\<lambda>(m, e). ev_canonical_event_json e = None) members
      then Inl (EventStoreIntegrityError ''PREPARING member lost its hot canonical body'')
      else Inr (plan_of E H a (map (\<lambda>(m, e). (m, the (ev_canonical_event_json e))) members)))"

definition header_json :: "archive_plan \<Rightarrow> json" where
  "header_json p = JObj [(''archive_manifest'', JObj (pl_manifest p)), (''manifest_hash'', JStr (pl_manifest_hash p))]"

definition header_bytes :: "archive_plan \<Rightarrow> bytes" where
  "header_bytes p = line_bytes (canonical_json (header_json p))"

definition archive_bytes :: "archive_plan \<Rightarrow> bytes" where
  "archive_bytes p = header_bytes p @ concat (map (\<lambda>(m, raw). line_bytes raw) (pl_members p))"

text \<open>Identity, offset and length of every member.\<close>

fun member_offsets :: "nat \<Rightarrow> (member_row \<times> string) list \<Rightarrow> (string \<times> nat \<times> nat) list" where
  "member_offsets offset [] = []"
| "member_offsets offset ((m, raw) # ms) =
     (mb_event_id m, offset, length (utf8 raw)) # member_offsets (offset + length (utf8 raw) + 1) ms"

definition plan_offsets :: "archive_plan \<Rightarrow> (string \<times> nat \<times> nat) list" where
  "plan_offsets p = member_offsets (length (header_bytes p)) (pl_members p)"

text \<open>A formal file that is already there is evidence and never overwritten.\<close>

definition write_archive_file :: "files \<Rightarrow> archive_plan \<Rightarrow> files" where
  "write_archive_file fs p =
     (if map_of fs (pl_path p) \<noteq> None then fs else AList.update (pl_path p) (archive_bytes p) fs)"

definition verify_file :: "env \<Rightarrow> byte_hash \<Rightarrow> files \<Rightarrow> archive_plan \<Rightarrow> unit result" where
  "verify_file E H fs p =
     rbind (read_bytes fs (pl_path p)) (\<lambda>data.
     case first_newline data of
       None \<Rightarrow> Inl (EventStoreIntegrityError ''Archive manifest line is missing'')
     | Some n \<Rightarrow>
         (case Option.bind (utf8_decode (take n data)) (json_loads E) of
            None \<Rightarrow> Inl (ValueError ''Archive manifest'')
          | Some header \<Rightarrow>
              rbind (raise_if (sort_keys header \<noteq> sort_keys (header_json p))
                       (EventStoreIntegrityError ''Archive manifest differs after fsync'')) (\<lambda>_.
              rbind (raise_if (sha256 E (canonical_json (JObj (pl_manifest p))) \<noteq> pl_manifest_hash p)
                       (EventStoreIntegrityError ''Archive manifest hash mismatch'')) (\<lambda>_.
              rbind (raise_if (H (drop (n + 1) data) \<noteq> pl_content_hash p)
                       (EventStoreIntegrityError ''Archive events content hash mismatch'')) (\<lambda>_.
              raise_if (list_ex (\<lambda>((i, offset, len), (m, raw)). H (take len (drop offset data)) \<noteq> mb_canonical_hash m)
                          (zip (plan_offsets p) (pl_members p)))
                (EventStoreIntegrityError ''Archive member hash mismatch''))))))"

subsection \<open>Releasing the bodies\<close>

fun place_members :: "string \<Rightarrow> (string \<times> nat \<times> nat) list \<Rightarrow> member_row list \<Rightarrow> member_row list" where
  "place_members archive_id [] ms = ms"
| "place_members archive_id ((i, offset, len) # os) ms =
     place_members archive_id os (update_rows (\<lambda>m. mb_archive_id m = archive_id \<and> mb_event_id m = i)
       (\<lambda>m. m\<lparr>mb_byte_offset := Some offset, mb_byte_length := Some len\<rparr>) ms)"

definition verified_row :: "archive_plan \<Rightarrow> timestamp \<Rightarrow> archive_row \<Rightarrow> archive_row" where
  "verified_row p ts a = a\<lparr>av_events_content_hash := Some (pl_content_hash p), av_manifest_hash := Some (pl_manifest_hash p),
     av_members_hash := Some (pl_members_hash p), av_status := ArchiveVerified, av_verified_at := Some ts,
     av_revision := av_revision a + 1\<rparr>"

definition released_event :: "event_row \<Rightarrow> event_row" where
  "released_event e = e\<lparr>ev_storage_tier := Archived, ev_canonical_event_json := None,
     ev_row_revision := ev_row_revision e + 1\<rparr>"

definition complete_archive :: "db \<Rightarrow> archive_plan \<Rightarrow> timestamp \<Rightarrow> db result" where
  "complete_archive d p ts =
     (case archive_of d (pl_archive_id p) of
        None \<Rightarrow> Inl (EventStoreIntegrityError ''Archive state changed during file write'')
      | Some a \<Rightarrow>
          if av_status a \<noteq> ArchivePreparing
          then Inl (EventStoreIntegrityError ''Archive state changed during file write'')
          else Inr (d\<lparr>
            gateway_event_archive_members :=
              place_members (pl_archive_id p) (plan_offsets p) (gateway_event_archive_members d),
            gateway_event_archives := update_rows (\<lambda>x. av_archive_id x = pl_archive_id p \<and> av_revision x = av_revision a)
              (verified_row p ts) (gateway_event_archives d),
            gateway_events := update_rows (\<lambda>e. ev_archive_id e = Some (pl_archive_id p) \<and> ev_storage_tier e = Hot)
              released_event (gateway_events d)\<rparr>))"

definition start_archive :: "env \<Rightarrow> byte_hash \<Rightarrow> db \<Rightarrow> string \<Rightarrow> archive_plan option result" where
  "start_archive E H d archive_id =
     (case archive_of d archive_id of
        None \<Rightarrow> Inl (KeyError archive_id)
      | Some a \<Rightarrow>
          if av_status a = ArchiveVerified then Inr None
          else if av_status a \<noteq> ArchivePreparing then Inl (EventStoreIntegrityError ''Archive is not writable'')
          else rbind (archive_plan E H d a) (\<lambda>p. Inr (Some p)))"

definition write_and_verify ::
  "env \<Rightarrow> byte_hash \<Rightarrow> files \<Rightarrow> db \<Rightarrow> string \<Rightarrow> timestamp \<Rightarrow> files \<times> db \<times> unit result" where
  "write_and_verify E H fs d archive_id ts =
     (case start_archive E H d archive_id of
        Inl e \<Rightarrow> (fs, d, Inl e)
      | Inr None \<Rightarrow> (fs, d, Inr ())
      | Inr (Some p) \<Rightarrow>
          let fs1 = write_archive_file fs p in
          case rbind (verify_file E H fs1 p) (\<lambda>_. complete_archive d p ts) of
            Inl e \<Rightarrow> (fs1, d, Inl e)
          | Inr d1 \<Rightarrow> (fs1, d1, Inr ()))"

definition set_archive_status :: "db \<Rightarrow> string \<Rightarrow> ArchiveStatus \<Rightarrow> db" where
  "set_archive_status d archive_id status = d\<lparr>gateway_event_archives :=
     update_rows (\<lambda>a. av_archive_id a = archive_id)
       (\<lambda>a. a\<lparr>av_status := status, av_revision := av_revision a + 1\<rparr>) (gateway_event_archives d)\<rparr>"

subsection \<open>Recovery and the scheduled pass\<close>

fun recover_archives ::
  "env \<Rightarrow> byte_hash \<Rightarrow> (string \<times> string) list \<Rightarrow> files \<Rightarrow> db \<Rightarrow> timestamp \<Rightarrow> files \<times> db \<times> (string \<times> string) list" where
  "recover_archives E H [] fs d ts = (fs, d, [])"
| "recover_archives E H ((i, path) # rows) fs d ts =
     (if map_of fs path = None
      then (case recover_archives E H rows fs (set_archive_status d i ArchiveFailed) ts of
              (fs2, d2, out) \<Rightarrow> (fs2, d2, (i, ''failed'') # out))
      else case write_and_verify E H fs d i ts of
             (fs1, d1, Inl e) \<Rightarrow>
               (case recover_archives E H rows fs1 (set_archive_status d1 i ArchiveRecoveryRequired) ts of
                  (fs2, d2, out) \<Rightarrow> (fs2, d2, (i, ''recovery_required'') # out))
           | (fs1, d1, Inr _) \<Rightarrow>
               (case recover_archives E H rows fs1 d1 ts of (fs2, d2, out) \<Rightarrow> (fs2, d2, (i, ''verified'') # out)))"

definition recover_preparing ::
  "env \<Rightarrow> byte_hash \<Rightarrow> files \<Rightarrow> db \<Rightarrow> timestamp \<Rightarrow> files \<times> db \<times> (string \<times> string) list" where
  "recover_preparing E H fs d ts = recover_archives E H (map (\<lambda>a. (av_archive_id a, av_archive_path a))
     (filter (\<lambda>a. av_status a = ArchivePreparing) (gateway_event_archives d))) fs d ts"

definition eligible_streams :: "env \<Rightarrow> db \<Rightarrow> string \<Rightarrow> string list" where
  "eligible_streams E d cutoff =
     sort (remdups (map ev_stream_id (filter (archivable E d cutoff) (gateway_events d))))"

fun process_streams ::
  "env \<Rightarrow> byte_hash \<Rightarrow> string \<Rightarrow> string \<Rightarrow> nat \<Rightarrow> (string \<times> string) list \<Rightarrow> files \<Rightarrow> db \<Rightarrow> timestamp
     \<Rightarrow> files \<times> db \<times> string list result" where
  "process_streams E H directory cutoff segment_max [] fs d ts = (fs, d, Inr [])"
| "process_streams E H directory cutoff segment_max ((stream_id, archive_id) # streams) fs d ts =
     (case prepare_eligible_stream E directory d stream_id cutoff segment_max archive_id ts of
        Inl e \<Rightarrow> (fs, d, Inl e)
      | Inr None \<Rightarrow> process_streams E H directory cutoff segment_max streams fs d ts
      | Inr (Some d1) \<Rightarrow>
          (case write_and_verify E H fs d1 archive_id ts of
             (fs2, d2, Inl e) \<Rightarrow> (fs2, d2, Inl e)
           | (fs2, d2, Inr _) \<Rightarrow>
               (case process_streams E H directory cutoff segment_max streams fs2 d2 ts of
                  (fs3, d3, r) \<Rightarrow> (fs3, d3, rbind r (\<lambda>done. Inr (archive_id # done))))))"

definition process_eligible ::
  "env \<Rightarrow> byte_hash \<Rightarrow> string \<Rightarrow> timestamp \<Rightarrow> nat \<Rightarrow> nat \<Rightarrow> string list \<Rightarrow> files \<Rightarrow> db \<Rightarrow> files \<times> db \<times> string list result" where
  "process_eligible E H directory now retention_days segment_max archive_ids fs d =
     (let cutoff = iso E (now - of_nat (retention_days * 86400)) in
      process_streams E H directory cutoff segment_max (zip (eligible_streams E d cutoff) archive_ids) fs d now)"

end
