(* ===== verification/Archive_Safety.thy ===== *)
theory Archive_Safety
  imports Archive_Service Delivery_Safety "HOL-Library.Multiset"
begin

section \<open>Archiving keeps history\<close>

text \<open>
  The home as the archive sees it: the database, the archive files, and the plan of the worker that is writing
  one. A step is a controller transaction, a transaction of the dispatcher, one part of the archive service, or
  a crash that forgets the plan. The invariant says that the bodies of an archive that is not verified are hot,
  that the file of a preparing archive is the one its frozen members determine, and that every event of a
  verified archive is read back.
\<close>

record home =
  hm_db :: db
  hm_files :: files
  hm_plan :: "archive_plan option"

inductive home_step :: "env \<Rightarrow> byte_hash \<Rightarrow> home \<Rightarrow> home \<Rightarrow> bool" for E :: env and H :: byte_hash where
  home_control: "step E (hm_db s) d' \<Longrightarrow> home_step E H s (s\<lparr>hm_db := d'\<rparr>)"
| home_claim: "claim_delivery K E (hm_db s) i n ts = Inr (d', c) \<Longrightarrow> home_step E H s (s\<lparr>hm_db := d'\<rparr>)"
| home_settle: "finish K E (hm_db s) c r ts utc_now = Inr d' \<Longrightarrow> home_step E H s (s\<lparr>hm_db := d'\<rparr>)"
| home_reconcile: "reconcile_startup E (hm_db s) ts = Inr (d', n, m) \<Longrightarrow> home_step E H s (s\<lparr>hm_db := d'\<rparr>)"
| home_prepare: "archive_id \<noteq> [] \<Longrightarrow> prepare E directory (hm_db s) stream_id event_ids archive_id ts = Inr d' \<Longrightarrow>
    home_step E H s (s\<lparr>hm_db := d'\<rparr>)"
| home_prepare_eligible: "archive_id \<noteq> [] \<Longrightarrow>
    prepare_eligible_stream E directory (hm_db s) stream_id cutoff segment_max archive_id ts = Inr (Some d') \<Longrightarrow>
    home_step E H s (s\<lparr>hm_db := d'\<rparr>)"
| home_plan: "start_archive E H (hm_db s) archive_id = Inr (Some p) \<Longrightarrow> home_step E H s (s\<lparr>hm_plan := Some p\<rparr>)"
| home_write: "hm_plan s = Some p \<Longrightarrow> home_step E H s (s\<lparr>hm_files := write_archive_file (hm_files s) p\<rparr>)"
| home_release: "hm_plan s = Some p \<Longrightarrow> verify_file E H (hm_files s) p = Inr () \<Longrightarrow>
    complete_archive (hm_db s) p ts = Inr d' \<Longrightarrow> home_step E H s (s\<lparr>hm_db := d', hm_plan := None\<rparr>)"
| home_mark: "archive_of (hm_db s) archive_id = Some a \<Longrightarrow> av_status a = ArchivePreparing \<Longrightarrow>
    status \<in> {ArchiveFailed, ArchiveRecoveryRequired} \<Longrightarrow>
    home_step E H s (s\<lparr>hm_db := set_archive_status (hm_db s) archive_id status\<rparr>)"
| home_crash: "home_step E H s (s\<lparr>hm_plan := None\<rparr>)"

definition initial_home :: "sink_row list \<Rightarrow> generation_row list \<Rightarrow> home" where
  "initial_home sinks gens = \<lparr>hm_db = empty_db\<lparr>event_sinks := sinks, runtime_resource_generations := gens\<rparr>,
     hm_files = [], hm_plan = None\<rparr>"

definition home_reachable :: "env \<Rightarrow> byte_hash \<Rightarrow> home \<Rightarrow> bool" where
  "home_reachable E H s \<longleftrightarrow> (\<exists>sinks gens. (home_step E H)\<^sup>*\<^sup>* (initial_home sinks gens) s)"

subsection \<open>What belongs to one archive\<close>

definition events_of_archive :: "db \<Rightarrow> string \<Rightarrow> event_row list" where
  "events_of_archive d i = filter (\<lambda>e. ev_archive_id e = Some i) (gateway_events d)"

definition members_of_archive :: "db \<Rightarrow> string \<Rightarrow> member_row list" where
  "members_of_archive d i = filter (\<lambda>m. mb_archive_id m = i) (gateway_event_archive_members d)"

definition keys_ok :: "env \<Rightarrow> db \<Rightarrow> bool" where
  "keys_ok E d \<longleftrightarrow>
     distinct (map ev_event_id (gateway_events d)) \<and> distinct (map av_archive_id (gateway_event_archives d)) \<and>
     distinct (map av_archive_path (gateway_event_archives d)) \<and>
     distinct (map mb_event_id (gateway_event_archive_members d)) \<and>
     (\<forall>m \<in> set (gateway_event_archive_members d). archive_of d (mb_archive_id m) \<noteq> None) \<and>
     (\<forall>e \<in> set (gateway_events d). (case ev_archive_id e of
        None \<Rightarrow> ev_storage_tier e = Hot \<and> ev_canonical_event_json e \<noteq> None | Some i \<Rightarrow> archive_of d i \<noteq> None) \<and>
        (\<forall>raw. ev_canonical_event_json e = Some raw \<longrightarrow> ev_canonical_hash e = sha256 E raw))"

text \<open>The members of an archive are its events, in the order of the stream, with the same hashes.\<close>

definition members_ok :: "db \<Rightarrow> archive_row \<Rightarrow> bool" where
  "members_ok d a \<longleftrightarrow> (let i = av_archive_id a in i \<noteq> [] \<and> length (members_of_archive d i) = av_event_count a \<and>
     mset (map (\<lambda>m. (mb_event_id m, mb_canonical_hash m)) (members_of_archive d i)) =
     mset (map (\<lambda>e. (ev_event_id e, ev_canonical_hash e)) (events_of_archive d i)))"

definition archive_ok :: "env \<Rightarrow> byte_hash \<Rightarrow> files \<Rightarrow> db \<Rightarrow> archive_row \<Rightarrow> bool" where
  "archive_ok E H fs d a \<longleftrightarrow> members_ok d a \<and>
     (\<forall>e \<in> set (events_of_archive d (av_archive_id a)).
        if av_status a = ArchiveVerified
        then ev_canonical_event_json e = None \<and> (\<exists>raw. read_archive_member E H fs d e = Inr raw)
        else ev_storage_tier e = Hot \<and> ev_canonical_event_json e \<noteq> None) \<and>
     (av_status a = ArchivePreparing \<longrightarrow> (\<forall>data. map_of fs (av_archive_path a) = Some data \<longrightarrow>
        (\<exists>p. archive_plan E H d a = Inr p \<and> data = archive_bytes p)))"

definition plan_ok :: "env \<Rightarrow> byte_hash \<Rightarrow> db \<Rightarrow> archive_plan \<Rightarrow> bool" where
  "plan_ok E H d p \<longleftrightarrow> (\<exists>a. archive_of d (pl_archive_id p) = Some a \<and> pl_path p = av_archive_path a \<and>
     (av_status a = ArchivePreparing \<longrightarrow> archive_plan E H d a = Inr p))"

definition home_inv :: "env \<Rightarrow> byte_hash \<Rightarrow> home \<Rightarrow> bool" where
  "home_inv E H s \<longleftrightarrow> keys_ok E (hm_db s) \<and>
     (\<forall>a \<in> set (gateway_event_archives (hm_db s)). archive_ok E H (hm_files s) (hm_db s) a) \<and>
     fst ` set (hm_files s) \<subseteq> av_archive_path ` set (gateway_event_archives (hm_db s)) \<and>
     (\<forall>p. hm_plan s = Some p \<longrightarrow> plan_ok E H (hm_db s) p)"

subsection \<open>Other archives\<close>

definition same_archive :: "db \<Rightarrow> files \<Rightarrow> db \<Rightarrow> files \<Rightarrow> string \<Rightarrow> bool" where
  "same_archive d fs d' fs' i \<longleftrightarrow> archive_of d' i = archive_of d i \<and>
     members_of_archive d' i = members_of_archive d i \<and> events_of_archive d' i = events_of_archive d i \<and>
     (\<forall>a. archive_of d i = Some a \<longrightarrow> map_of fs' (av_archive_path a) = map_of fs (av_archive_path a))"

lemma distinct_map_inj: "distinct (map f xs) \<Longrightarrow> x \<in> set xs \<Longrightarrow> y \<in> set xs \<Longrightarrow> f x = f y \<Longrightarrow> x = y"
  by (auto simp: distinct_map inj_on_def)

lemma member_of_archive: "member_of d i j = find (\<lambda>m. mb_event_id m = j) (members_of_archive d i)"
proof -
  have "find (\<lambda>m. mb_archive_id m = i \<and> mb_event_id m = j) ms
      = find (\<lambda>m. mb_event_id m = j) (filter (\<lambda>m. mb_archive_id m = i) ms)" for ms
    by (induction ms) auto
  then show ?thesis by (simp add: member_of_def members_of_archive_def)
qed

lemma archive_of_iff:
  "distinct (map av_archive_id (gateway_event_archives d)) \<Longrightarrow>
     archive_of d i = Some a \<longleftrightarrow> a \<in> set (gateway_event_archives d) \<and> av_archive_id a = i"
  unfolding archive_of_def using lookup_row_distinct lookup_row_Some_mem by metis

lemma mset_map_partner:
  assumes "mset (map f xs) = mset (map g ys)" "x \<in> set xs"
  shows "\<exists>y \<in> set ys. g y = f x"
proof -
  have "f x \<in> set (map f xs)" using assms(2) by simp
  then have "f x \<in> set (map g ys)" unfolding mset_eq_setD [OF assms(1)] .
  then show ?thesis by auto
qed

lemma members_mset:
  assumes "members_ok d a"
  shows "mset (map (\<lambda>m. (mb_event_id m, mb_canonical_hash m)) (members_of_archive d (av_archive_id a))) =
     mset (map (\<lambda>e. (ev_event_id e, ev_canonical_hash e)) (events_of_archive d (av_archive_id a)))"
  using assms by (simp add: members_ok_def Let_def)

lemma member_event:
  assumes "members_ok d a" "m \<in> set (members_of_archive d (av_archive_id a))"
  obtains e where "e \<in> set (events_of_archive d (av_archive_id a))" "ev_event_id e = mb_event_id m"
    "ev_canonical_hash e = mb_canonical_hash m"
  using mset_map_partner [OF members_mset [OF assms(1)] assms(2)] that by auto

lemma event_member:
  assumes "members_ok d a" "e \<in> set (events_of_archive d (av_archive_id a))"
  obtains m where "m \<in> set (members_of_archive d (av_archive_id a))" "mb_event_id m = ev_event_id e"
    "mb_canonical_hash m = ev_canonical_hash e"
  using mset_map_partner [OF members_mset [OF assms(1), symmetric] assms(2)] that by auto

lemma event_lookup:
  assumes "keys_ok E d" "e \<in> set (gateway_events d)"
  shows "lookup_row ev_event_id (ev_event_id e) (gateway_events d) = Some e"
  using assms lookup_row_distinct [of ev_event_id "gateway_events d"] by (auto simp: keys_ok_def)

text \<open>The frozen members of an archive: its members in stream order, each with its event.\<close>

definition event_of_member :: "db \<Rightarrow> member_row \<Rightarrow> event_row" where
  "event_of_member d m = the (lookup_row ev_event_id (mb_event_id m) (gateway_events d))"

lemma member_event_of:
  assumes "keys_ok E d" "members_ok d a" "m \<in> set (members_of_archive d (av_archive_id a))"
  shows "event_of_member d m \<in> set (events_of_archive d (av_archive_id a))"
    "ev_event_id (event_of_member d m) = mb_event_id m" "ev_canonical_hash (event_of_member d m) = mb_canonical_hash m"
    "lookup_row ev_event_id (mb_event_id m) (gateway_events d) = Some (event_of_member d m)"
proof -
  obtain e where e: "e \<in> set (events_of_archive d (av_archive_id a))" "ev_event_id e = mb_event_id m"
    "ev_canonical_hash e = mb_canonical_hash m" using assms(2,3) by (rule member_event)
  have "e \<in> set (gateway_events d)" using e(1) by (simp add: events_of_archive_def)
  then have "lookup_row ev_event_id (mb_event_id m) (gateway_events d) = Some e"
    using event_lookup [OF assms(1)] e(2) by metis
  with e show "event_of_member d m \<in> set (events_of_archive d (av_archive_id a))"
    "ev_event_id (event_of_member d m) = mb_event_id m" "ev_canonical_hash (event_of_member d m) = mb_canonical_hash m"
    "lookup_row ev_event_id (mb_event_id m) (gateway_events d) = Some (event_of_member d m)"
    by (simp_all add: event_of_member_def)
qed

lemma frozen_members_eq:
  assumes "keys_ok E d" "members_ok d a"
  shows "frozen_members d (av_archive_id a) = sort_key (\<lambda>(m, e). mb_stream_sequence m)
     (map (\<lambda>m. (m, event_of_member d m)) (members_of_archive d (av_archive_id a)))"
proof -
  let ?i = "av_archive_id a"
  have "List.map_filter (\<lambda>m. if mb_archive_id m = ?i
         then map_option (Pair m) (lookup_row ev_event_id (mb_event_id m) (gateway_events d)) else None) ms
     = map (\<lambda>m. (m, event_of_member d m)) (filter (\<lambda>m. mb_archive_id m = ?i) ms)"
    if "set (filter (\<lambda>m. mb_archive_id m = ?i) ms) \<subseteq> set (members_of_archive d ?i)" for ms
    using that by (induction ms) (auto simp: map_filter_simps member_event_of(4) [OF assms] split: if_splits)
  then show ?thesis by (simp add: frozen_members_def members_of_archive_def)
qed

lemma archive_plan_same:
  assumes "keys_ok E d" "keys_ok E d'" "members_ok d a" "same_archive d fs d' fs' (av_archive_id a)"
  shows "members_ok d' a" "archive_plan E H d' a = archive_plan E H d a"
proof -
  let ?i = "av_archive_id a"
  have s: "members_of_archive d' ?i = members_of_archive d ?i" "events_of_archive d' ?i = events_of_archive d ?i"
    using assms(4) by (simp_all add: same_archive_def)
  show m: "members_ok d' a" using assms(3) s by (simp add: members_ok_def Let_def)
  have "event_of_member d' m = event_of_member d m" if x: "m \<in> set (members_of_archive d ?i)" for m
  proof -
    have "event_of_member d m \<in> set (gateway_events d')"
      using member_event_of(1) [OF assms(1,3) x] unfolding s(2) [symmetric] by (simp add: events_of_archive_def)
    then have "lookup_row ev_event_id (mb_event_id m) (gateway_events d') = Some (event_of_member d m)"
      using event_lookup [OF assms(2)] member_event_of(2) [OF assms(1,3) x] by metis
    then show ?thesis by (simp add: event_of_member_def [of d'])
  qed
  then have "map (\<lambda>m. (m, event_of_member d' m)) (members_of_archive d' ?i)
      = map (\<lambda>m. (m, event_of_member d m)) (members_of_archive d ?i)" using s(1) by auto
  then have "frozen_members d' ?i = frozen_members d ?i"
    using frozen_members_eq [OF assms(1,3)] frozen_members_eq [OF assms(2) m] by simp
  then show "archive_plan E H d' a = archive_plan E H d a" by (simp add: archive_plan_def)
qed

lemma read_member_same:
  assumes "same_archive d fs d' fs' i" "ev_archive_id e = Some i"
  shows "read_archive_member E H fs' d' e = read_archive_member E H fs d e"
  using assms by (auto simp: read_archive_member_def same_archive_def member_of_archive read_member_def read_bytes_def
      split: option.splits)

lemma archive_ok_same:
  assumes "keys_ok E d" "keys_ok E d'" "archive_ok E H fs d a" "archive_of d (av_archive_id a) = Some a"
    and "same_archive d fs d' fs' (av_archive_id a)"
  shows "archive_ok E H fs' d' a"
proof -
  have m: "members_ok d a" using assms(3) by (simp add: archive_ok_def)
  note p = archive_plan_same [OF assms(1,2) m assms(5)]
  have "map_of fs' (av_archive_path a) = map_of fs (av_archive_path a)"
    "events_of_archive d' (av_archive_id a) = events_of_archive d (av_archive_id a)"
    using assms(4,5) by (simp_all add: same_archive_def)
  moreover have "read_archive_member E H fs' d' e = read_archive_member E H fs d e"
    if "e \<in> set (events_of_archive d (av_archive_id a))" for e
    using that by (intro read_member_same [OF assms(5)]) (simp add: events_of_archive_def)
  ultimately show ?thesis using assms(3) p unfolding archive_ok_def by auto
qed

subsection \<open>Steps that leave every archive alone\<close>

definition log_extends :: "env \<Rightarrow> db \<Rightarrow> db \<Rightarrow> bool" where
  "log_extends E d d' \<longleftrightarrow> gateway_event_archives d' = gateway_event_archives d \<and>
     gateway_event_archive_members d' = gateway_event_archive_members d \<and>
     (\<exists>new. gateway_events d' = gateway_events d @ new \<and> distinct (map ev_event_id (gateway_events d @ new)) \<and>
       (\<forall>e \<in> set new. ev_archive_id e = None \<and> ev_storage_tier e = Hot \<and>
          (\<exists>raw. ev_canonical_event_json e = Some raw \<and> ev_canonical_hash e = sha256 E raw)))"

lemma control_extends:
  assumes "step E d d'" "keys_ok E d"
  shows "log_extends E d d'"
  using step_log [OF assms(1)]
proof
  assume "same_log d d'"
  then show ?thesis using assms(2) by (auto simp: log_extends_def same_log_def keys_ok_def)
next
  assume "appends E d d'"
  then obtain e now where a: "log_appended E d e now d'" "event_row_ok E e" "ev_storage_tier e = Hot" "ev_archive_id e = None"
    "ev_canonical_event_json e \<noteq> None" by (auto simp: appends_def)
  have "event_index_ok d e" "gateway_events d' = gateway_events d @ [e]"
    "gateway_event_archives d' = gateway_event_archives d"
    "gateway_event_archive_members d' = gateway_event_archive_members d"
    using a(1) unfolding log_appended_def by blast+
  moreover have "\<exists>raw. ev_canonical_event_json e = Some raw \<and> ev_canonical_hash e = sha256 E raw"
    using a(2,3) by (auto simp: event_row_ok_def)
  moreover have "distinct (map ev_event_id (gateway_events d @ [e]))"
    using assms(2) \<open>event_index_ok d e\<close> by (auto simp: keys_ok_def event_index_ok_def list_all_iff)
  ultimately show ?thesis using a(3,4) unfolding log_extends_def by (intro conjI exI [of _ "[e]"]) auto
qed

lemma quiet_extends:
  assumes "gateway_event_archives d' = gateway_event_archives d" "gateway_events d' = gateway_events d"
    "gateway_event_archive_members d' = gateway_event_archive_members d" "keys_ok E d"
  shows "log_extends E d d'"
  using assms by (auto simp: log_extends_def keys_ok_def intro: exI [of _ "[]"])

lemma interrupt_all_tables:
  "gateway_event_archives (foldl (interrupt_one E ts) d as) = gateway_event_archives d"
  "gateway_events (foldl (interrupt_one E ts) d as) = gateway_events d"
  "gateway_event_archive_members (foldl (interrupt_one E ts) d as) = gateway_event_archive_members d"
  by (induction as arbitrary: d) (simp_all add: interrupt_one_def)

lemma dispatcher_extends:
  "claim_delivery K E d i n ts = Inr (d', c) \<Longrightarrow> keys_ok E d \<Longrightarrow> log_extends E d d'"
  "finish K E d cl r ts utc_now = Inr d' \<Longrightarrow> keys_ok E d \<Longrightarrow> log_extends E d d'"
  "reconcile_startup E d ts = Inr (d', k, m) \<Longrightarrow> keys_ok E d \<Longrightarrow> log_extends E d d'"
proof -
  show "claim_delivery K E d i n ts = Inr (d', c) \<Longrightarrow> keys_ok E d \<Longrightarrow> log_extends E d d'"
    by (rule quiet_extends) (auto simp: claim_delivery_def Let_def insert_delivery_attempt_def result_simps
        split: option.splits if_splits)
  show "finish K E d cl r ts utc_now = Inr d' \<Longrightarrow> keys_ok E d \<Longrightarrow> log_extends E d d'"
    by (rule quiet_extends) (auto simp: finish_def finish_success_def finish_failure_def settle_attempt_def
        update_claimed_def complete_outbox_if_ready_def Let_def result_simps split: sum.splits prod.splits if_splits)
  show "reconcile_startup E d ts = Inr (d', k, m) \<Longrightarrow> keys_ok E d \<Longrightarrow> log_extends E d d'"
    by (rule quiet_extends) (auto simp: reconcile_startup_def complete_ready_def Let_def interrupt_all_tables
        split: if_splits)
qed

lemma extends_archive:
  assumes "log_extends E d d'"
  shows "same_archive d fs d' fs i" "keys_ok E d \<Longrightarrow> keys_ok E d'"
proof -
  obtain new where n: "gateway_event_archives d' = gateway_event_archives d"
    "gateway_event_archive_members d' = gateway_event_archive_members d" "gateway_events d' = gateway_events d @ new"
    "distinct (map ev_event_id (gateway_events d @ new))"
    "\<And>e. e \<in> set new \<Longrightarrow> ev_archive_id e = None \<and> ev_storage_tier e = Hot \<and>
       (\<exists>raw. ev_canonical_event_json e = Some raw \<and> ev_canonical_hash e = sha256 E raw)"
    using assms unfolding log_extends_def by auto
  have "filter (\<lambda>e. ev_archive_id e = Some i) new = []" using n(5) by (simp add: filter_empty_conv)
  then show "same_archive d fs d' fs i"
    by (simp add: same_archive_def n(1-3) archive_of_def members_of_archive_def events_of_archive_def)
  have a: "archive_of d' i = archive_of d i" for i by (simp add: archive_of_def n(1))
  show "keys_ok E d \<Longrightarrow> keys_ok E d'"
    using n(4) unfolding keys_ok_def a n(1-3) by (auto split: option.splits dest!: n(5))
qed

subsection \<open>The invariant under such steps\<close>

lemma home_archive_of:
  assumes "home_inv E H s" "archive_of (hm_db s) i = Some a"
  shows "a \<in> set (gateway_event_archives (hm_db s))" "av_archive_id a = i"
    "archive_ok E H (hm_files s) (hm_db s) a" "members_ok (hm_db s) a"
proof -
  show a: "a \<in> set (gateway_event_archives (hm_db s))" "av_archive_id a = i"
    using assms(2) unfolding archive_of_def by (metis lookup_row_Some_mem)+
  show "archive_ok E H (hm_files s) (hm_db s) a" using assms(1) a(1) by (auto simp: home_inv_def)
  then show "members_ok (hm_db s) a" by (simp add: archive_ok_def)
qed

lemma plan_ok_same:
  assumes "keys_ok E d" "keys_ok E d'" "plan_ok E H d p" "\<And>a. archive_of d (pl_archive_id p) = Some a \<Longrightarrow> members_ok d a"
    and "same_archive d fs d' fs' (pl_archive_id p)"
  shows "plan_ok E H d' p"
proof -
  obtain a where a: "archive_of d (pl_archive_id p) = Some a" "pl_path p = av_archive_path a"
    "av_status a = ArchivePreparing \<Longrightarrow> archive_plan E H d a = Inr p" using assms(3) by (auto simp: plan_ok_def)
  have i: "av_archive_id a = pl_archive_id p" using a(1) unfolding archive_of_def by (metis lookup_row_Some_mem)
  have "archive_plan E H d' a = archive_plan E H d a"
    using archive_plan_same(2) [OF assms(1,2) assms(4) [OF a(1)]] assms(5) i by metis
  then show ?thesis using a assms(5) by (auto simp: plan_ok_def same_archive_def)
qed

definition keeps_reads :: "env \<Rightarrow> byte_hash \<Rightarrow> home \<Rightarrow> home \<Rightarrow> bool" where
  "keeps_reads E H s s' \<longleftrightarrow> (\<forall>e \<in> set (gateway_events (hm_db s)). \<exists>e' \<in> set (gateway_events (hm_db s')).
     ev_event_id e' = ev_event_id e \<and> ev_stream_id e' = ev_stream_id e \<and>
     ev_stream_sequence e' = ev_stream_sequence e \<and> ev_canonical_hash e' = ev_canonical_hash e \<and>
     (\<forall>raw. canonical_body E H (hm_files s) (hm_db s) e = Inr raw \<longrightarrow>
        canonical_body E H (hm_files s') (hm_db s') e' = Inr raw))"

lemma same_body:
  assumes "keys_ok E d" "e \<in> set (gateway_events d)" "\<And>i. ev_archive_id e = Some i \<Longrightarrow> same_archive d fs d' fs' i"
  shows "canonical_body E H fs' d' e = canonical_body E H fs d e"
proof (cases "ev_archive_id e")
  case None
  then have "ev_canonical_event_json e \<noteq> None" using assms(1,2) by (auto simp: keys_ok_def)
  then show ?thesis by (auto simp: canonical_body_def)
next
  case (Some i)
  then show ?thesis using read_member_same [OF assms(3) Some] by (auto simp: canonical_body_def split: option.splits)
qed

lemma extends_keeps:
  assumes "home_inv E H s" "log_extends E (hm_db s) d'"
  shows "home_inv E H (s\<lparr>hm_db := d'\<rparr>)" "keeps_reads E H s (s\<lparr>hm_db := d'\<rparr>)"
proof -
  let ?d = "hm_db s"
  note X = extends_archive [OF assms(2)]
  have k: "keys_ok E ?d" "keys_ok E d'" using assms(1) X(2) by (simp_all add: home_inv_def)
  have av: "gateway_event_archives d' = gateway_event_archives ?d" using assms(2) by (simp add: log_extends_def)
  have "archive_ok E H (hm_files s) d' a" if a: "a \<in> set (gateway_event_archives ?d)" for a
  proof (rule archive_ok_same [OF k _ _ X(1)])
    show "archive_ok E H (hm_files s) ?d a" using assms(1) a by (simp add: home_inv_def)
    show "archive_of ?d (av_archive_id a) = Some a" using k(1) a archive_of_iff by (auto simp: keys_ok_def)
  qed
  moreover have "plan_ok E H d' p" if "hm_plan s = Some p" for p
    using that assms(1) home_archive_of(4) [OF assms(1)]
    by (intro plan_ok_same [OF k _ _ X(1)]) (auto simp: home_inv_def)
  ultimately show "home_inv E H (s\<lparr>hm_db := d'\<rparr>)" using assms(1) k(2) av by (simp add: home_inv_def)
  have "set (gateway_events ?d) \<subseteq> set (gateway_events d')" using assms(2) by (auto simp: log_extends_def)
  then show "keeps_reads E H s (s\<lparr>hm_db := d'\<rparr>)"
    using same_body [OF k(1) _ X(1)] unfolding keeps_reads_def by (auto intro!: bexI)
qed

end
