(* ===== verification/Archive_History.thy ===== *)
theory Archive_History
  imports Archive_Safety
begin

section \<open>Every step of the archive keeps history\<close>

text \<open>
  The remaining steps: freezing members, writing the file, releasing the bodies, marking a failed archive.
  Each keeps the invariant of the home and every body that could be read before.
\<close>

subsection \<open>Freezing\<close>

definition frozen_member :: "string \<Rightarrow> event_row \<Rightarrow> member_row" where
  "frozen_member i e = \<lparr>mb_archive_id = i, mb_event_id = ev_event_id e, mb_stream_sequence = ev_stream_sequence e,
     mb_canonical_hash = ev_canonical_hash e, mb_byte_offset = None, mb_byte_length = None\<rparr>"

definition reserved_event :: "string \<Rightarrow> event_row \<Rightarrow> event_row" where
  "reserved_event i e = e\<lparr>ev_archive_id := Some i, ev_row_revision := ev_row_revision e + 1\<rparr>"

lemma reserved_event_fields [simp]:
  "ev_event_id (reserved_event i e) = ev_event_id e" "ev_stream_id (reserved_event i e) = ev_stream_id e"
  "ev_stream_sequence (reserved_event i e) = ev_stream_sequence e"
  "ev_canonical_hash (reserved_event i e) = ev_canonical_hash e" "ev_archive_id (reserved_event i e) = Some i"
  "ev_canonical_event_json (reserved_event i e) = ev_canonical_event_json e"
  "ev_storage_tier (reserved_event i e) = ev_storage_tier e"
  "mb_archive_id (frozen_member i e) = i" "mb_event_id (frozen_member i e) = ev_event_id e"
  "mb_canonical_hash (frozen_member i e) = ev_canonical_hash e"
  by (simp_all add: reserved_event_def frozen_member_def)

lemma reserve_members_Inr:
  assumes "reserve_members d i rows = Inr d'" "distinct (map ev_event_id (gateway_events d))"
  shows "gateway_event_archives d' = gateway_event_archives d"
    "gateway_event_archive_members d' = gateway_event_archive_members d @ map (frozen_member i) rows"
    "gateway_events d' = map (\<lambda>x. if ev_event_id x \<in> ev_event_id ` set rows then reserved_event i x else x) (gateway_events d)"
    "distinct (map ev_event_id rows)" "ev_event_id ` set rows \<inter> mb_event_id ` set (gateway_event_archive_members d) = {}"
    "\<forall>r \<in> set rows. \<exists>x \<in> set (gateway_events d). ev_event_id x = ev_event_id r \<and> ev_storage_tier x = Hot \<and> ev_archive_id x = None"
proof -
  have "gateway_event_archives d' = gateway_event_archives d \<and>
    gateway_event_archive_members d' = gateway_event_archive_members d @ map (frozen_member i) rows \<and>
    gateway_events d' = map (\<lambda>x. if ev_event_id x \<in> ev_event_id ` set rows then reserved_event i x else x) (gateway_events d) \<and>
    distinct (map ev_event_id rows) \<and> ev_event_id ` set rows \<inter> mb_event_id ` set (gateway_event_archive_members d) = {} \<and>
    (\<forall>r \<in> set rows. \<exists>x \<in> set (gateway_events d). ev_event_id x = ev_event_id r \<and> ev_storage_tier x = Hot \<and> ev_archive_id x = None)"
    using assms
  proof (induction rows arbitrary: d)
    case (Cons e es)
    let ?p = "\<lambda>x. ev_event_id x = ev_event_id e \<and> ev_storage_tier x = Hot \<and> ev_archive_id x = None"
    let ?d1 = "d\<lparr>gateway_event_archive_members := gateway_event_archive_members d @ [frozen_member i e],
      gateway_events := update_rows ?p (reserved_event i) (gateway_events d)\<rparr>"
    have fresh: "\<not> list_ex (\<lambda>m. mb_event_id m = ev_event_id e) (gateway_event_archive_members d)"
      and one: "count_rows ?p (gateway_events d) = 1" and rest: "reserve_members ?d1 i es = Inr d'"
      using Cons.prems(1) by (auto simp: Let_def frozen_member_def reserved_event_def [abs_def] split: if_splits)
    have "filter ?p (gateway_events d) \<noteq> []" using one by (auto simp: count_rows_def)
    then obtain x where x: "x \<in> set (gateway_events d)" "?p x" unfolding filter_empty_conv by blast
    have only: "y = x" if "y \<in> set (gateway_events d)" "ev_event_id y = ev_event_id e" for y
      using that x Cons.prems(2) by (auto simp: distinct_map inj_on_def)
    have ids: "map ev_event_id (gateway_events ?d1) = map ev_event_id (gateway_events d)"
      by (simp add: update_rows_def)
    have IH: "gateway_event_archives d' = gateway_event_archives ?d1"
      "gateway_event_archive_members d' = gateway_event_archive_members ?d1 @ map (frozen_member i) es"
      "gateway_events d' = map (\<lambda>x. if ev_event_id x \<in> ev_event_id ` set es then reserved_event i x else x) (gateway_events ?d1)"
      "distinct (map ev_event_id es)" "ev_event_id ` set es \<inter> mb_event_id ` set (gateway_event_archive_members ?d1) = {}"
      "\<forall>r \<in> set es. \<exists>x \<in> set (gateway_events ?d1). ev_event_id x = ev_event_id r \<and> ev_storage_tier x = Hot \<and> ev_archive_id x = None"
      using Cons.IH [OF rest] ids Cons.prems(2) by auto
    have e: "ev_event_id e \<notin> ev_event_id ` set es" using IH(5) by auto
    have upd: "update_rows ?p (reserved_event i) (gateway_events d)
        = map (\<lambda>y. if ev_event_id y = ev_event_id e then reserved_event i y else y) (gateway_events d)"
      using only x by (auto simp: update_rows_def)
    have "gateway_events d' = map (\<lambda>y. if ev_event_id y \<in> ev_event_id ` set (e # es) then reserved_event i y else y) (gateway_events d)"
      using e unfolding IH(3) by (auto simp: upd)
    moreover have "\<exists>y \<in> set (gateway_events d). ev_event_id y = ev_event_id r \<and> ev_storage_tier y = Hot \<and> ev_archive_id y = None"
      if "r \<in> set (e # es)" for r
    proof (cases "r \<in> set es")
      case True
      then obtain y where "y \<in> set (gateway_events ?d1)" "ev_event_id y = ev_event_id r" "ev_storage_tier y = Hot"
        "ev_archive_id y = None" using IH(6) by blast
      then show ?thesis by (auto simp: upd split: if_splits)
    qed (use that x in auto)
    ultimately show ?case using IH(1,2,4,5) e fresh by (auto simp: list_ex_iff)
  qed simp
  then show "gateway_event_archives d' = gateway_event_archives d"
    "gateway_event_archive_members d' = gateway_event_archive_members d @ map (frozen_member i) rows"
    "gateway_events d' = map (\<lambda>x. if ev_event_id x \<in> ev_event_id ` set rows then reserved_event i x else x) (gateway_events d)"
    "distinct (map ev_event_id rows)" "ev_event_id ` set rows \<inter> mb_event_id ` set (gateway_event_archive_members d) = {}"
    "\<forall>r \<in> set rows. \<exists>x \<in> set (gateway_events d). ev_event_id x = ev_event_id r \<and> ev_storage_tier x = Hot \<and> ev_archive_id x = None"
    by blast+
qed

text \<open>The archive row a preparation adds.\<close>

definition preparing_row :: "env \<Rightarrow> string \<Rightarrow> string \<Rightarrow> event_row list \<Rightarrow> string \<Rightarrow> timestamp \<Rightarrow> archive_row" where
  "preparing_row E directory stream_id rows i ts = \<lparr>av_archive_id = i, av_stream_id = stream_id,
     av_first_sequence = ev_stream_sequence (hd rows), av_last_sequence = ev_stream_sequence (last rows),
     av_event_count = length rows, av_events_content_hash = None, av_manifest_hash = None,
     av_members_hash = None, av_archive_path = archive_path_of E directory stream_id i, av_status = ArchivePreparing,
     av_created_at = ts, av_verified_at = None, av_revision = 0\<rparr>"

lemma preparing_row_fields [simp]:
  "av_archive_id (preparing_row E dir sid rows i ts) = i" "av_status (preparing_row E dir sid rows i ts) = ArchivePreparing"
  "av_event_count (preparing_row E dir sid rows i ts) = length rows"
  by (simp_all add: preparing_row_def)

lemma insert_preparing_Inr:
  assumes "insert_preparing E dir d sid rows i ts = Inr d'"
  shows "rows \<noteq> []" "i \<notin> av_archive_id ` set (gateway_event_archives d)"
    "av_archive_path (preparing_row E dir sid rows i ts) \<notin> av_archive_path ` set (gateway_event_archives d)"
    "reserve_members (d\<lparr>gateway_event_archives := gateway_event_archives d @ [preparing_row E dir sid rows i ts]\<rparr>) i rows = Inr d'"
  using assms by (auto simp: insert_preparing_def Let_def preparing_row_def list_ex_iff split: if_splits)

lemma archive_of_snoc:
  "archive_of (d\<lparr>gateway_event_archives := gateway_event_archives d @ [a]\<rparr>) j =
     (if archive_of d j \<noteq> None then archive_of d j else if av_archive_id a = j then Some a else None)"
  by (simp add: archive_of_def lookup_row_append split: option.splits)

lemma mset_filter_rows:
  assumes "distinct xs" "distinct rows" "set rows \<subseteq> set xs"
  shows "mset (filter (\<lambda>x. x \<in> set rows) xs) = mset rows"
  using assms by (intro set_eq_iff_mset_eq_distinct [THEN iffD1]) auto

lemma prepared_keeps:
  assumes inv: "home_inv E H s" and ins: "insert_preparing E dir (hm_db s) sid rows i ts = Inr d'"
    and rows: "set rows \<subseteq> set (gateway_events (hm_db s))" and i: "i \<noteq> []"
  shows "home_inv E H (s\<lparr>hm_db := d'\<rparr>)" "keeps_reads E H s (s\<lparr>hm_db := d'\<rparr>)"
proof -
  let ?d = "hm_db s" and ?fs = "hm_files s"
  define a where "a = preparing_row E dir sid rows i ts"
  note P = insert_preparing_Inr [OF ins, folded a_def]
  have k: "keys_ok E ?d" using inv by (simp add: home_inv_def)
  note K = k [unfolded keys_ok_def]
  have R: "gateway_event_archives d' = gateway_event_archives ?d @ [a]"
    "gateway_event_archive_members d' = gateway_event_archive_members ?d @ map (frozen_member i) rows"
    "gateway_events d' = map (\<lambda>x. if ev_event_id x \<in> ev_event_id ` set rows then reserved_event i x else x) (gateway_events ?d)"
    "distinct (map ev_event_id rows)" "ev_event_id ` set rows \<inter> mb_event_id ` set (gateway_event_archive_members ?d) = {}"
    "\<forall>r \<in> set rows. \<exists>x \<in> set (gateway_events ?d). ev_event_id x = ev_event_id r \<and> ev_storage_tier x = Hot \<and> ev_archive_id x = None"
    using reserve_members_Inr [OF P(4)] K by simp_all
  have inj: "x = y" if "x \<in> set (gateway_events ?d)" "y \<in> set (gateway_events ?d)" "ev_event_id x = ev_event_id y" for x y
    using that K by (auto simp: distinct_map inj_on_def)
  have in_rows: "ev_event_id x \<in> ev_event_id ` set rows \<longleftrightarrow> x \<in> set rows" if "x \<in> set (gateway_events ?d)" for x
    using that rows inj by blast
  have hot: "ev_storage_tier r = Hot" "ev_archive_id r = None" if "r \<in> set rows" for r
    using R(6) that rows inj by (metis subsetD)+
  have evs: "gateway_events d' = map (\<lambda>x. if x \<in> set rows then reserved_event i x else x) (gateway_events ?d)"
    unfolding R(3) using in_rows by simp
  have new_id: "archive_of ?d i = None" using P(2) by (auto simp: archive_of_def lookup_row_None_iff)
  have ao: "archive_of d' j = (if archive_of ?d j \<noteq> None then archive_of ?d j else if i = j then Some a else None)" for j
    using archive_of_snoc [of ?d a j] by (simp add: archive_of_def R(1) a_def)
  have none_i: "members_of_archive ?d i = []" "events_of_archive ?d i = []"
    using K new_id by (auto simp: members_of_archive_def events_of_archive_def filter_empty_conv split: option.splits)
  have same: "same_archive ?d ?fs d' ?fs j" if "j \<noteq> i" for j
  proof -
    have "filter (\<lambda>e. ev_archive_id e = Some j) (map (\<lambda>x. if x \<in> set rows then reserved_event i x else x) xs)
        = filter (\<lambda>e. ev_archive_id e = Some j) xs" for xs
      using that hot by (induction xs) auto
    then show ?thesis
      using that by (auto simp: same_archive_def ao members_of_archive_def events_of_archive_def R(2) evs filter_empty_conv)
  qed
  have k': "keys_ok E d'"
  proof -
    have ids: "map ev_event_id (gateway_events d') = map ev_event_id (gateway_events ?d)" by (simp add: R(3))
    have "distinct (map mb_event_id (map (frozen_member i) rows))" using R(4) by (simp add: o_def)
    moreover have "\<forall>m \<in> set (gateway_event_archive_members d'). archive_of d' (mb_archive_id m) \<noteq> None"
      using K by (auto simp: R(2) ao)
    moreover have "\<forall>e \<in> set (gateway_events d'). (case ev_archive_id e of
        None \<Rightarrow> ev_storage_tier e = Hot \<and> ev_canonical_event_json e \<noteq> None | Some j \<Rightarrow> archive_of d' j \<noteq> None) \<and>
        (\<forall>raw. ev_canonical_event_json e = Some raw \<longrightarrow> ev_canonical_hash e = sha256 E raw)"
      using K by (auto simp: evs ao split: option.splits)
    ultimately show ?thesis
      using K P(2,3) R(5) unfolding keys_ok_def ids R(1,2) by (auto simp: a_def)
  qed
  have ev_i: "events_of_archive d' i = map (reserved_event i) (filter (\<lambda>x. x \<in> set rows) (gateway_events ?d))"
  proof -
    have "filter (\<lambda>e. ev_archive_id e = Some i) (map (\<lambda>x. if x \<in> set rows then reserved_event i x else x) xs)
        = map (reserved_event i) (filter (\<lambda>x. x \<in> set rows) xs)" if "\<forall>x \<in> set xs. ev_archive_id x \<noteq> Some i" for xs
      using that by (induction xs) auto
    moreover have "\<forall>x \<in> set (gateway_events ?d). ev_archive_id x \<noteq> Some i"
      using none_i(2) by (simp add: events_of_archive_def filter_empty_conv)
    ultimately show ?thesis by (simp add: events_of_archive_def evs)
  qed
  have mem_i: "members_of_archive d' i = map (frozen_member i) rows"
    using none_i(1) by (simp add: members_of_archive_def R(2) filter_empty_conv)
  have "mset (filter (\<lambda>x. x \<in> set rows) (gateway_events ?d)) = mset rows"
    using K R(4) rows by (intro mset_filter_rows) (auto simp: distinct_map)
  then have "mset (map f (filter (\<lambda>x. x \<in> set rows) (gateway_events ?d))) = mset (map f rows)" for f :: "event_row \<Rightarrow> string \<times> string"
    by simp
  then have "members_ok d' a"
    by (simp add: members_ok_def Let_def a_def ev_i mem_i i multiset.map_comp comp_def)
  moreover have "map_of ?fs (av_archive_path a) = None"
    using inv P(3) by (auto simp: home_inv_def map_of_eq_None_iff)
  ultimately have "archive_ok E H ?fs d' a"
    using hot K rows by (auto simp: archive_ok_def a_def ev_i split: option.splits)
  moreover have "archive_ok E H ?fs d' b" if b: "b \<in> set (gateway_event_archives ?d)" for b
  proof (rule archive_ok_same [OF k k'])
    show "archive_ok E H ?fs ?d b" using inv b by (simp add: home_inv_def)
    show "archive_of ?d (av_archive_id b) = Some b" using k b archive_of_iff by (auto simp: keys_ok_def)
    show "same_archive ?d ?fs d' ?fs (av_archive_id b)" using b P(2) by (intro same) auto
  qed
  moreover have "plan_ok E H d' p" if p: "hm_plan s = Some p" for p
  proof (rule plan_ok_same [OF k k'])
    show "plan_ok E H ?d p" using inv p by (simp add: home_inv_def)
    then have "pl_archive_id p \<noteq> i" using new_id by (auto simp: plan_ok_def)
    then show "same_archive ?d ?fs d' ?fs (pl_archive_id p)" by (rule same)
  qed (use home_archive_of(4) [OF inv] in auto)
  ultimately show "home_inv E H (s\<lparr>hm_db := d'\<rparr>)" using inv k' by (auto simp: home_inv_def R(1))
  show "keeps_reads E H s (s\<lparr>hm_db := d'\<rparr>)"
    unfolding keeps_reads_def
  proof
    fix e assume e: "e \<in> set (gateway_events ?d)"
    show "\<exists>e' \<in> set (gateway_events (hm_db (s\<lparr>hm_db := d'\<rparr>))). ev_event_id e' = ev_event_id e \<and> ev_stream_id e' = ev_stream_id e \<and>
     ev_stream_sequence e' = ev_stream_sequence e \<and> ev_canonical_hash e' = ev_canonical_hash e \<and>
     (\<forall>raw. canonical_body E H (hm_files s) (hm_db s) e = Inr raw \<longrightarrow>
        canonical_body E H (hm_files (s\<lparr>hm_db := d'\<rparr>)) (hm_db (s\<lparr>hm_db := d'\<rparr>)) e' = Inr raw)"
    proof (cases "e \<in> set rows")
      case True
      then have "ev_canonical_event_json e \<noteq> None" using hot(2) e K by (fastforce split: option.splits)
      then show ?thesis
        using True e by (intro bexI [of _ "reserved_event i e"]) (auto simp: canonical_body_def evs)
    next
      case False
      have "j \<noteq> i" if "ev_archive_id e = Some j" for j
        using K [THEN conjunct2, THEN conjunct2, THEN conjunct2, THEN conjunct2, THEN conjunct2] e that new_id by auto
      then have "canonical_body E H ?fs d' e = canonical_body E H ?fs ?d e"
        using same by (intro same_body [OF k e]) blast
      then show ?thesis using False e by (intro bexI [of _ e]) (auto simp: evs image_iff)
    qed
  qed
qed

subsection \<open>The file of a plan is read back\<close>

lemma member_bytes:
  assumes "data = pre @ concat (map (\<lambda>(m, raw). line_bytes raw) ms)" "distinct (map (\<lambda>(m, raw). mb_event_id m) ms)"
    and "(m, raw) \<in> set ms"
  shows "\<exists>offset. map_of (member_offsets (length pre) ms) (mb_event_id m) = Some (offset, length (utf8 raw)) \<and>
    take (length (utf8 raw)) (drop offset data) = utf8 raw"
  using assms
proof (induction ms arbitrary: pre)
  case (Cons p ms)
  obtain n r where p: "p = (n, r)" by (cases p)
  show ?case
  proof (cases "(m, raw) = p")
    case True
    then show ?thesis using p Cons.prems(1) by (simp add: line_bytes_def)
  next
    case False
    then have "(m, raw) \<in> set ms" "mb_event_id n \<noteq> mb_event_id m" using Cons.prems(2,3) p by (auto simp: image_iff)
    moreover have "data = (pre @ line_bytes r) @ concat (map (\<lambda>(m, raw). line_bytes raw) ms)"
      using Cons.prems(1) p by simp
    ultimately obtain offset where "map_of (member_offsets (length (pre @ line_bytes r)) ms) (mb_event_id m) = Some (offset, length (utf8 raw))"
      "take (length (utf8 raw)) (drop offset data) = utf8 raw"
      using Cons.IH [of "pre @ line_bytes r"] Cons.prems(2) p by auto
    then show ?thesis
      using p \<open>mb_event_id n \<noteq> mb_event_id m\<close> by (auto simp: line_bytes_def add.assoc)
  qed
qed simp

text \<open>A sorted dictionary has the fields of the dictionary.\<close>

lemma sorted_fields:
  assumes "distinct (map fst d)"
  shows "\<exists>d'. sort_keys (JObj d) = JObj d' \<and> (\<forall>k. map_of d' k = map_option sort_keys (map_of d k))"
proof -
  have "map fst (map (\<lambda>(k, v). (k, sort_keys v)) d) = map fst d" by (rule sort_keys_fst)
  then have "map_of (sort_key fst (map (\<lambda>(k, v). (k, sort_keys v)) d)) = map_of (map (\<lambda>(k, v). (k, sort_keys v)) d)"
    using assms by (intro map_of_sort_key) metis
  then show ?thesis by (simp add: map_of_map)
qed

lemma plan_of_fields:
  "pl_archive_id (plan_of E H a ms) = av_archive_id a" "pl_path (plan_of E H a ms) = av_archive_path a"
  "pl_members (plan_of E H a ms) = ms" "pl_content_hash (plan_of E H a ms) = H (concat (map (\<lambda>(m, raw). line_bytes raw) ms))"
  "pl_manifest_hash (plan_of E H a ms) = sha256 E (canonical_json (JObj (pl_manifest (plan_of E H a ms))))"
  "map_of (pl_manifest (plan_of E H a ms)) ''members_hash'' = Some (JStr (pl_members_hash (plan_of E H a ms)))"
  "distinct (map fst (pl_manifest (plan_of E H a ms)))" "unique_keys (JObj (pl_manifest (plan_of E H a ms)))"
  by (simp_all add: plan_of_def Let_def manifest_of_def)

lemma header_unique: "unique_keys (header_json (plan_of E H a ms))"
  using plan_of_fields(8) [of E H a ms] by (simp add: header_json_def)

lemma header_line: "first_newline (archive_bytes p) = Some (length (utf8 (canonical_json (header_json p))))"
  "take (length (utf8 (canonical_json (header_json p)))) (archive_bytes p) = utf8 (canonical_json (header_json p))"
  "drop (length (utf8 (canonical_json (header_json p))) + 1) (archive_bytes p)
     = concat (map (\<lambda>(m, raw). line_bytes raw) (pl_members p))"
proof -
  have b: "archive_bytes p = utf8 (canonical_json (header_json p)) @ newline_byte #
      concat (map (\<lambda>(m, raw). line_bytes raw) (pl_members p))"
    by (simp add: archive_bytes_def header_bytes_def line_bytes_def)
  show "first_newline (archive_bytes p) = Some (length (utf8 (canonical_json (header_json p))))"
    unfolding b by (rule first_newline_line [OF printable_canonical])
  show "take (length (utf8 (canonical_json (header_json p)))) (archive_bytes p) = utf8 (canonical_json (header_json p))"
    "drop (length (utf8 (canonical_json (header_json p))) + 1) (archive_bytes p)
     = concat (map (\<lambda>(m, raw). line_bytes raw) (pl_members p))"
    by (simp_all add: b)
qed

lemma header_accepted:
  assumes p: "p = plan_of E H a ms"
  obtains header where "sort_keys (header_json p) = JObj header"
    "header_ok E H (verified_row p ts b) header (concat (map (\<lambda>(m, raw). line_bytes raw) (pl_members p)))"
proof -
  note F = plan_of_fields [of E H a ms, folded p]
  obtain header where h: "sort_keys (header_json p) = JObj header"
    "\<And>k. map_of header k = map_option sort_keys (map_of [(''archive_manifest'', JObj (pl_manifest p)),
       (''manifest_hash'', JStr (pl_manifest_hash p))] k)"
    using sorted_fields [of "[(''archive_manifest'', JObj (pl_manifest p)), (''manifest_hash'', JStr (pl_manifest_hash p))]"]
    by (auto simp: header_json_def)
  obtain manifest where m: "sort_keys (JObj (pl_manifest p)) = JObj manifest"
    "\<And>k. map_of manifest k = map_option sort_keys (map_of (pl_manifest p) k)"
    using sorted_fields [OF F(7)] by blast
  have "canonical_json (JObj manifest) = canonical_json (JObj (pl_manifest p))"
    using canonical_sort_keys [of "JObj (pl_manifest p)"] m(1) by simp
  then have "header_ok E H (verified_row p ts b) header (concat (map (\<lambda>(m, raw). line_bytes raw) (pl_members p)))"
    using F by (simp add: header_ok_def get_or_null_def h(2) m(1) [simplified] m(2) verified_row_def opt_str_def)
  then show thesis using that h(1) by blast
qed

lemma released_member_read:
  assumes "json_loads E = json_parse" "p = plan_of E H a ms" "map_of fs (av_archive_path b) = Some (archive_bytes p)"
    and "distinct (map (\<lambda>(m, raw). mb_event_id m) ms)" "(m, raw) \<in> set ms"
  obtains offset where "map_of (plan_offsets p) (mb_event_id m) = Some (offset, length (utf8 raw))"
    "read_member E H fs (verified_row p ts b) offset (length (utf8 raw)) = Inr raw"
proof -
  obtain header where h: "sort_keys (header_json p) = JObj header"
    "header_ok E H (verified_row p ts b) header (concat (map (\<lambda>(m, raw). line_bytes raw) (pl_members p)))"
    using header_accepted [OF assms(2)] by blast
  have ms: "pl_members p = ms" by (simp add: assms(2) plan_of_fields)
  obtain offset where o: "map_of (plan_offsets p) (mb_event_id m) = Some (offset, length (utf8 raw))"
    "take (length (utf8 raw)) (drop offset (archive_bytes p)) = utf8 raw"
    using member_bytes [OF _ assms(4,5), of "archive_bytes p" "header_bytes p"] by (auto simp: archive_bytes_def plan_offsets_def ms)
  have "json_loads E (canonical_json (header_json p)) = Some (JObj header)"
    using canonical_json_reads [OF header_unique, of E H a ms] h(1) by (simp add: assms(1,2))
  moreover have "av_archive_path (verified_row p ts b) = av_archive_path b" by (simp add: verified_row_def)
  ultimately have "read_member E H fs (verified_row p ts b) offset (length (utf8 raw)) = Inr raw"
    using assms(3) h(2) o(2) by (simp add: read_member_def read_bytes_def header_line header_line(3) [simplified] utf8_round_trip)
  then show thesis using that o(1) by blast
qed

subsection \<open>Releasing\<close>

lemma place_members_map:
  assumes "distinct (map fst os)"
  shows "place_members i os ms = map (\<lambda>m. if mb_archive_id m = i then (case map_of os (mb_event_id m) of
      None \<Rightarrow> m | Some (offset, len) \<Rightarrow> m\<lparr>mb_byte_offset := Some offset, mb_byte_length := Some len\<rparr>) else m) ms"
  using assms
proof (induction os arbitrary: ms)
  case (Cons x os)
  obtain j o1 l where x: "x = (j, o1, l)" by (cases x) auto
  have "map_of os j = None" using Cons.prems x by (simp add: map_of_eq_None_iff)
  then show ?case using Cons x by (auto simp: update_rows_def)
qed (simp add: map_idI)

lemma offsets_ids: "map fst (member_offsets n ms) = map (\<lambda>(m, raw). mb_event_id m) ms"
  by (induction n ms rule: member_offsets.induct) auto

lemma verified_row_fields [simp]:
  "av_archive_id (verified_row p ts a) = av_archive_id a" "av_status (verified_row p ts a) = ArchiveVerified"
  "av_archive_path (verified_row p ts a) = av_archive_path a" "av_event_count (verified_row p ts a) = av_event_count a"
  by (simp_all add: verified_row_def)

lemma released_event_fields [simp]:
  "ev_event_id (released_event e) = ev_event_id e" "ev_stream_id (released_event e) = ev_stream_id e"
  "ev_stream_sequence (released_event e) = ev_stream_sequence e"
  "ev_canonical_hash (released_event e) = ev_canonical_hash e" "ev_archive_id (released_event e) = ev_archive_id e"
  "ev_canonical_event_json (released_event e) = None" "ev_storage_tier (released_event e) = Archived"
  by (simp_all add: released_event_def)

text \<open>The plan of a preparing archive lists each of its events with the body the row holds.\<close>

lemma plan_members:
  assumes k: "keys_ok E d" and m: "members_ok d a" and p: "archive_plan E H d a = Inr p"
  shows "p = plan_of E H a (pl_members p)" "distinct (map (\<lambda>(m, raw). mb_event_id m) (pl_members p))"
    "\<And>x. x \<in> set (members_of_archive d (av_archive_id a)) \<Longrightarrow>
       (x, the (ev_canonical_event_json (event_of_member d x))) \<in> set (pl_members p)"
proof -
  let ?f = "frozen_members d (av_archive_id a)" and ?g = "\<lambda>(m, e). (m, the (ev_canonical_event_json e))"
  have P: "p = plan_of E H a (map ?g ?f)" using p by (auto simp: archive_plan_def Let_def split: if_splits)
  have ms: "pl_members p = map ?g ?f" unfolding P by (rule plan_of_fields)
  show "p = plan_of E H a (pl_members p)" using P ms by simp
  have F: "?f = sort_key (\<lambda>(m, e). mb_stream_sequence m)
     (map (\<lambda>m. (m, event_of_member d m)) (members_of_archive d (av_archive_id a)))"
    by (rule frozen_members_eq [OF k m])
  have "distinct (map mb_event_id (members_of_archive d (av_archive_id a)))"
    using k by (auto simp: keys_ok_def members_of_archive_def distinct_map inj_on_def)
  then have "distinct (map (mb_event_id \<circ> fst) (map (\<lambda>m. (m, event_of_member d m)) (members_of_archive d (av_archive_id a))))"
    by (simp add: o_def)
  then have "distinct (map (mb_event_id \<circ> fst) ?f)"
    unfolding F by (auto simp: distinct_map inj_on_def)
  then show "distinct (map (\<lambda>(m, raw). mb_event_id m) (pl_members p))"
    by (simp add: ms case_prod_unfold comp_def)
  show "(x, the (ev_canonical_event_json (event_of_member d x))) \<in> set (pl_members p)"
    if "x \<in> set (members_of_archive d (av_archive_id a))" for x
    using that by (force simp: ms F)
qed

lemma complete_archive_Inr:
  assumes "complete_archive d p ts = Inr d'" "keys_ok E d"
  obtains a where "archive_of d (pl_archive_id p) = Some a" "av_status a = ArchivePreparing"
    "gateway_event_archive_members d' = place_members (pl_archive_id p) (plan_offsets p) (gateway_event_archive_members d)"
    "gateway_event_archives d' = map (\<lambda>x. if av_archive_id x = pl_archive_id p then verified_row p ts x else x) (gateway_event_archives d)"
    "gateway_events d' = map (\<lambda>e. if ev_archive_id e = Some (pl_archive_id p) \<and> ev_storage_tier e = Hot
       then released_event e else e) (gateway_events d)"
proof -
  obtain a where a: "archive_of d (pl_archive_id p) = Some a" "av_status a = ArchivePreparing"
    using assms(1) by (auto simp: complete_archive_def split: option.splits if_splits)
  have "x = a" if "x \<in> set (gateway_event_archives d)" "av_archive_id x = pl_archive_id p" for x
    using that a(1) archive_of_iff [of d] assms(2) by (auto simp: keys_ok_def distinct_map inj_on_def)
  then have "update_rows (\<lambda>x. av_archive_id x = pl_archive_id p \<and> av_revision x = av_revision a) (verified_row p ts)
      (gateway_event_archives d) = map (\<lambda>x. if av_archive_id x = pl_archive_id p then verified_row p ts x else x)
      (gateway_event_archives d)" by (auto simp: update_rows_def)
  then show thesis
    using assms(1) a by (intro that [OF a]) (auto simp: complete_archive_def update_rows_def)
qed

lemma archive_of_map:
  assumes "\<And>x. av_archive_id (f x) = av_archive_id x" "gateway_event_archives d' = map f (gateway_event_archives d)"
  shows "archive_of d' j = map_option f (archive_of d j)"
proof -
  have "lookup_row av_archive_id j (map f xs) = map_option f (lookup_row av_archive_id j xs)" for xs
    by (induction xs) (auto simp: assms(1))
  then show ?thesis by (simp add: archive_of_def assms(2))
qed

lemma placed_member:
  assumes "distinct (map fst os)" "map_of os (mb_event_id m) = Some (offset, len)" "mb_archive_id m = i" "m \<in> set ms"
    and "distinct (map mb_event_id ms)"
  shows "find (\<lambda>x. mb_archive_id x = i \<and> mb_event_id x = mb_event_id m) (place_members i os ms)
    = Some (m\<lparr>mb_byte_offset := Some offset, mb_byte_length := Some len\<rparr>)"
  unfolding place_members_map [OF assms(1)] using assms(2-5)
proof (induction ms)
  case (Cons x ms)
  then show ?case by (cases "x = m") (auto simp: rev_image_eqI split: option.splits)
qed simp

lemma placed_members_other:
  assumes "distinct (map fst os)" "j \<noteq> i"
  shows "filter (\<lambda>m. mb_archive_id m = j) (place_members i os ms) = filter (\<lambda>m. mb_archive_id m = j) ms"
  unfolding place_members_map [OF assms(1)] using assms(2) by (induction ms) (auto split: option.splits)

lemma placed_members_ids:
  assumes "distinct (map fst os)"
  shows "map mb_event_id (place_members i os ms) = map mb_event_id ms"
    "map mb_archive_id (place_members i os ms) = map mb_archive_id ms"
    "map (\<lambda>m. (mb_event_id m, mb_canonical_hash m)) (filter (\<lambda>m. mb_archive_id m = i) (place_members i os ms))
       = map (\<lambda>m. (mb_event_id m, mb_canonical_hash m)) (filter (\<lambda>m. mb_archive_id m = i) ms)"
  unfolding place_members_map [OF assms] by (induction ms) (auto split: option.splits)

lemma release_facts:
  assumes inv: "home_inv E H s" and plan: "hm_plan s = Some p" and ver: "verify_file E H (hm_files s) p = Inr ()"
    and com: "complete_archive (hm_db s) p ts = Inr d'"
  obtains a where "archive_of (hm_db s) (pl_archive_id p) = Some a" "av_archive_id a = pl_archive_id p"
    "members_ok (hm_db s) a" "archive_plan E H (hm_db s) a = Inr p"
    "map_of (hm_files s) (av_archive_path a) = Some (archive_bytes p)" "distinct (map fst (plan_offsets p))"
    "\<And>e. e \<in> set (events_of_archive (hm_db s) (pl_archive_id p)) \<Longrightarrow>
       ev_storage_tier e = Hot \<and> ev_canonical_event_json e \<noteq> None"
    "archive_of d' j = (if j = pl_archive_id p then Some (verified_row p ts a) else archive_of (hm_db s) j)"
proof -
  let ?d = "hm_db s" and ?i = "pl_archive_id p"
  have k: "keys_ok E ?d" using inv by (simp add: home_inv_def)
  obtain a where a: "archive_of ?d ?i = Some a" "av_status a = ArchivePreparing"
    "gateway_event_archives d' = map (\<lambda>x. if av_archive_id x = ?i then verified_row p ts x else x) (gateway_event_archives ?d)"
    using com k by (rule complete_archive_Inr)
  note A = home_archive_of [OF inv a(1)]
  have pl: "pl_path p = av_archive_path a" "archive_plan E H ?d a = Inr p"
    using inv plan a(1,2) by (auto simp: home_inv_def plan_ok_def)
  obtain data where data: "map_of (hm_files s) (av_archive_path a) = Some data"
    using ver pl(1) by (auto simp: verify_file_def read_bytes_def result_simps split: option.splits)
  have ok: "\<forall>data. map_of (hm_files s) (av_archive_path a) = Some data \<longrightarrow> (\<exists>p. archive_plan E H ?d a = Inr p \<and> data = archive_bytes p)"
    "\<forall>e \<in> set (events_of_archive ?d (av_archive_id a)). ev_storage_tier e = Hot \<and> ev_canonical_event_json e \<noteq> None"
    using A(3) a(2) by (auto simp: archive_ok_def)
  have "data = archive_bytes p" using ok(1) data pl(2) by auto
  moreover have "distinct (map fst (plan_offsets p))"
    using plan_members(2) [OF k A(4) pl(2)] by (simp add: plan_offsets_def offsets_ids)
  moreover have "archive_of d' j = (if j = ?i then Some (verified_row p ts a) else archive_of ?d j)"
  proof -
    have "archive_of d' j = map_option (\<lambda>x. if av_archive_id x = ?i then verified_row p ts x else x) (archive_of ?d j)"
      by (rule archive_of_map [OF _ a(3)]) simp
    moreover have "av_archive_id x = j" if "archive_of ?d j = Some x" for x
      using that unfolding archive_of_def by (metis lookup_row_Some_mem)
    ultimately show ?thesis using a(1) by (cases "archive_of ?d j") auto
  qed
  ultimately show thesis using that [of a] a(1) A(2,4) pl(2) data ok(2) by auto
qed

lemma released_event_read:
  assumes inv: "home_inv E H s" and json: "json_loads E = json_parse" and plan: "hm_plan s = Some p"
    and ver: "verify_file E H (hm_files s) p = Inr ()" and com: "complete_archive (hm_db s) p ts = Inr d'"
    and e: "e \<in> set (events_of_archive (hm_db s) (pl_archive_id p))"
  shows "read_archive_member E H (hm_files s) d' (released_event e) = Inr (the (ev_canonical_event_json e))"
proof -
  let ?d = "hm_db s" and ?i = "pl_archive_id p"
  have k: "keys_ok E ?d" using inv by (simp add: home_inv_def)
  obtain a where a: "archive_of ?d ?i = Some a" "av_archive_id a = ?i"
    "members_ok ?d a" "archive_plan E H ?d a = Inr p" "map_of (hm_files s) (av_archive_path a) = Some (archive_bytes p)"
    "distinct (map fst (plan_offsets p))" "archive_of d' ?i = Some (verified_row p ts a)"
    using release_facts [OF inv plan ver com, of ?i] by auto
  have ms: "gateway_event_archive_members d' = place_members ?i (plan_offsets p) (gateway_event_archive_members ?d)"
    using com k by (rule complete_archive_Inr)
  obtain m where m: "m \<in> set (members_of_archive ?d (av_archive_id a))" "mb_event_id m = ev_event_id e"
    using event_member [OF a(3)] e a(2) by metis
  have "event_of_member ?d m = e"
    using member_event_of(4) [OF k a(3) m(1)] event_lookup [OF k, of e] e m(2) by (simp add: events_of_archive_def)
  then have "(m, the (ev_canonical_event_json e)) \<in> set (pl_members p)"
    using plan_members(3) [OF k a(3,4) m(1)] by simp
  then obtain offset where o: "map_of (plan_offsets p) (mb_event_id m) = Some (offset, length (utf8 (the (ev_canonical_event_json e))))"
    "read_member E H (hm_files s) (verified_row p ts a) offset (length (utf8 (the (ev_canonical_event_json e))))
       = Inr (the (ev_canonical_event_json e))"
    using released_member_read [OF json plan_members(1) [OF k a(3,4)] a(5) plan_members(2) [OF k a(3,4)]] by blast
  have "member_of d' ?i (ev_event_id e) = Some (m\<lparr>mb_byte_offset := Some offset,
      mb_byte_length := Some (length (utf8 (the (ev_canonical_event_json e))))\<rparr>)"
    unfolding member_of_def ms m(2) [symmetric] using m(1) k a(2)
    by (intro placed_member [OF a(6) o(1)]) (auto simp: members_of_archive_def keys_ok_def)
  moreover have "ev_archive_id e = Some ?i" "?i \<noteq> []"
    using e a(2,3) by (auto simp: events_of_archive_def members_ok_def Let_def)
  ultimately show ?thesis using a(7) o(2) by (simp add: read_archive_member_def truthy_iff)
qed

lemma released_tables:
  assumes inv: "home_inv E H s" and plan: "hm_plan s = Some p" and ver: "verify_file E H (hm_files s) p = Inr ()"
    and com: "complete_archive (hm_db s) p ts = Inr d'"
  shows "gateway_events d' = map (\<lambda>e. if ev_archive_id e = Some (pl_archive_id p) then released_event e else e) (gateway_events (hm_db s))"
    and "j \<noteq> pl_archive_id p \<Longrightarrow> same_archive (hm_db s) fs d' fs j"
    and "events_of_archive d' (pl_archive_id p) = map released_event (events_of_archive (hm_db s) (pl_archive_id p))"
    and "map (\<lambda>m. (mb_event_id m, mb_canonical_hash m)) (members_of_archive d' (pl_archive_id p)) =
       map (\<lambda>m. (mb_event_id m, mb_canonical_hash m)) (members_of_archive (hm_db s) (pl_archive_id p))"
    and "keys_ok E d'"
proof -
  let ?d = "hm_db s" and ?i = "pl_archive_id p"
  have k: "keys_ok E ?d" using inv by (simp add: home_inv_def)
  obtain a where a: "archive_of ?d ?i = Some a" "distinct (map fst (plan_offsets p))"
    "\<And>e. e \<in> set (events_of_archive ?d ?i) \<Longrightarrow> ev_storage_tier e = Hot \<and> ev_canonical_event_json e \<noteq> None"
    using release_facts [OF inv plan ver com] by metis
  have ar: "\<exists>b. archive_of d' j = (if j = ?i then Some b else archive_of ?d j)" for j
    by (rule release_facts [OF inv plan ver com, of j]) blast
  then have ao: "archive_of d' j \<noteq> None \<longleftrightarrow> archive_of ?d j \<noteq> None" "j \<noteq> ?i \<Longrightarrow> archive_of d' j = archive_of ?d j" for j
    using a(1) ar [of j] by (cases "j = ?i"; auto)+
  have T: "gateway_event_archive_members d' = place_members ?i (plan_offsets p) (gateway_event_archive_members ?d)"
    "gateway_event_archives d' = map (\<lambda>x. if av_archive_id x = ?i then verified_row p ts x else x) (gateway_event_archives ?d)"
    "gateway_events d' = map (\<lambda>e. if ev_archive_id e = Some ?i \<and> ev_storage_tier e = Hot then released_event e else e) (gateway_events ?d)"
    using com k by (rule complete_archive_Inr; simp)+
  show ev: "gateway_events d' = map (\<lambda>e. if ev_archive_id e = Some ?i then released_event e else e) (gateway_events ?d)"
    unfolding T(3) using a(3) by (auto simp: events_of_archive_def)
  have fil: "filter (\<lambda>e. ev_archive_id e = Some j) (map (\<lambda>e. if ev_archive_id e = Some ?i then released_event e else e) es)
      = (if j = ?i then map released_event (filter (\<lambda>e. ev_archive_id e = Some j) es) else filter (\<lambda>e. ev_archive_id e = Some j) es)"
    for j es by (induction es) auto
  show "same_archive ?d fs d' fs j" if "j \<noteq> ?i"
    using that placed_members_other [OF a(2) that]
    by (simp add: same_archive_def ao(2) members_of_archive_def events_of_archive_def T(1) ev fil)
  show "events_of_archive d' ?i = map released_event (events_of_archive ?d ?i)"
    by (simp add: events_of_archive_def ev fil)
  show "map (\<lambda>m. (mb_event_id m, mb_canonical_hash m)) (members_of_archive d' ?i) =
       map (\<lambda>m. (mb_event_id m, mb_canonical_hash m)) (members_of_archive ?d ?i)"
    unfolding members_of_archive_def T(1) by (rule placed_members_ids(3) [OF a(2)])
  have ids: "map ev_event_id (gateway_events d') = map ev_event_id (gateway_events ?d)"
    "map av_archive_id (gateway_event_archives d') = map av_archive_id (gateway_event_archives ?d)"
    "map av_archive_path (gateway_event_archives d') = map av_archive_path (gateway_event_archives ?d)"
    "map mb_event_id (gateway_event_archive_members d') = map mb_event_id (gateway_event_archive_members ?d)"
    "mb_archive_id ` set (gateway_event_archive_members d') = mb_archive_id ` set (gateway_event_archive_members ?d)"
    using placed_members_ids(1,2) [OF a(2), of ?i "gateway_event_archive_members ?d"]
    by (simp_all add: ev T(1,2)) (metis list.set_map)
  have "\<forall>m \<in> set (gateway_event_archive_members d'). archive_of d' (mb_archive_id m) \<noteq> None"
    using k ids(5) ao(1) unfolding keys_ok_def by (metis image_iff)
  moreover have "\<forall>e \<in> set (gateway_events d'). (case ev_archive_id e of
        None \<Rightarrow> ev_storage_tier e = Hot \<and> ev_canonical_event_json e \<noteq> None | Some i \<Rightarrow> archive_of d' i \<noteq> None) \<and>
        (\<forall>raw. ev_canonical_event_json e = Some raw \<longrightarrow> ev_canonical_hash e = sha256 E raw)"
  proof
    fix e' assume "e' \<in> set (gateway_events d')"
    then obtain e where e: "e \<in> set (gateway_events ?d)" "e' = (if ev_archive_id e = Some ?i then released_event e else e)"
      by (auto simp: ev)
    then have "(case ev_archive_id e of None \<Rightarrow> ev_storage_tier e = Hot \<and> ev_canonical_event_json e \<noteq> None
        | Some i \<Rightarrow> archive_of ?d i \<noteq> None)" "\<forall>raw. ev_canonical_event_json e = Some raw \<longrightarrow> ev_canonical_hash e = sha256 E raw"
      using k by (auto simp: keys_ok_def)
    then show "(case ev_archive_id e' of None \<Rightarrow> ev_storage_tier e' = Hot \<and> ev_canonical_event_json e' \<noteq> None
        | Some i \<Rightarrow> archive_of d' i \<noteq> None) \<and> (\<forall>raw. ev_canonical_event_json e' = Some raw \<longrightarrow> ev_canonical_hash e' = sha256 E raw)"
      using e(2) ao(1) by (simp split: option.splits if_splits)
  qed
  ultimately show "keys_ok E d'" using k unfolding keys_ok_def ids by blast
qed

lemma released_keeps:
  assumes inv: "home_inv E H s" and json: "json_loads E = json_parse" and plan: "hm_plan s = Some p"
    and ver: "verify_file E H (hm_files s) p = Inr ()" and com: "complete_archive (hm_db s) p ts = Inr d'"
  shows "home_inv E H (s\<lparr>hm_db := d', hm_plan := None\<rparr>)" "keeps_reads E H s (s\<lparr>hm_db := d', hm_plan := None\<rparr>)"
proof -
  let ?d = "hm_db s" and ?i = "pl_archive_id p" and ?fs = "hm_files s"
  have k: "keys_ok E ?d" using inv by (simp add: home_inv_def)
  note T = released_tables [OF inv plan ver com]
  obtain a where a: "archive_of ?d ?i = Some a" "av_archive_id a = ?i" "members_ok ?d a"
    "\<And>e. e \<in> set (events_of_archive ?d ?i) \<Longrightarrow> ev_storage_tier e = Hot \<and> ev_canonical_event_json e \<noteq> None"
    using release_facts [OF inv plan ver com] by metis
  have av: "gateway_event_archives d' = map (\<lambda>x. if av_archive_id x = ?i then verified_row p ts x else x) (gateway_event_archives ?d)"
    using com k by (rule complete_archive_Inr)
  note R = released_event_read [OF inv json plan ver com]
  have "archive_ok E H ?fs d' b" if b: "b \<in> set (gateway_event_archives d')" for b
  proof -
    obtain c where c: "c \<in> set (gateway_event_archives ?d)" "b = (if av_archive_id c = ?i then verified_row p ts c else c)"
      using b by (auto simp: av)
    have "archive_of ?d (av_archive_id c) = Some c" using k c(1) archive_of_iff by (auto simp: keys_ok_def)
    show ?thesis
    proof (cases "av_archive_id c = ?i")
      case True
      then have "c = a" using \<open>archive_of ?d (av_archive_id c) = Some c\<close> a(1) by simp
      then have b': "b = verified_row p ts a" using c(2) True by simp
      have "map (\<lambda>e. (ev_event_id e, ev_canonical_hash e)) (events_of_archive d' ?i)
          = map (\<lambda>e. (ev_event_id e, ev_canonical_hash e)) (events_of_archive ?d ?i)" by (simp add: T(3))
      moreover have "length (members_of_archive d' ?i) = length (members_of_archive ?d ?i)"
        using T(4) by (metis length_map)
      moreover have "mset (map (\<lambda>m. (mb_event_id m, mb_canonical_hash m)) (members_of_archive d' ?i)) =
          mset (map (\<lambda>e. (ev_event_id e, ev_canonical_hash e)) (events_of_archive d' ?i))"
        unfolding T(4) calculation(1) using members_mset [OF a(3)] by (simp only: a(2))
      ultimately have "members_ok d' b" using a(2,3) by (simp add: members_ok_def Let_def b' del: mset_map)
      then show ?thesis using R a(2) by (auto simp: archive_ok_def b' T(3))
    next
      case False
      then have "archive_ok E H ?fs ?d b" "archive_of ?d (av_archive_id b) = Some b"
        using inv c \<open>archive_of ?d (av_archive_id c) = Some c\<close> by (auto simp: home_inv_def)
      then show ?thesis using False c(2) T(2) by (intro archive_ok_same [OF k T(5)]) auto
    qed
  qed
  moreover have "av_archive_path ` set (gateway_event_archives d') = av_archive_path ` set (gateway_event_archives ?d)"
    unfolding av set_map image_image by (rule image_cong) simp_all
  ultimately show "home_inv E H (s\<lparr>hm_db := d', hm_plan := None\<rparr>)" using inv T(5) by (simp add: home_inv_def)
  show "keeps_reads E H s (s\<lparr>hm_db := d', hm_plan := None\<rparr>)"
    unfolding keeps_reads_def
  proof
    fix e assume e: "e \<in> set (gateway_events ?d)"
    let ?e = "if ev_archive_id e = Some ?i then released_event e else e"
    have "canonical_body E H ?fs d' ?e = Inr raw" if raw: "canonical_body E H ?fs ?d e = Inr raw" for raw
    proof (cases "ev_archive_id e = Some ?i")
      case True
      then have m: "e \<in> set (events_of_archive ?d ?i)" using e by (simp add: events_of_archive_def)
      then obtain t where "ev_canonical_event_json e = Some t" using a(4) by blast
      then have "ev_canonical_event_json e = Some raw" using raw by (simp add: canonical_body_def)
      then show ?thesis using R [OF m] True by (simp add: canonical_body_def)
    next
      case False
      then have "canonical_body E H ?fs d' e = canonical_body E H ?fs ?d e" using T(2) by (intro same_body [OF k e]) auto
      then show ?thesis using False raw by simp
    qed
    moreover have "?e \<in> set (gateway_events d')" using e by (auto simp: T(1))
    ultimately show "\<exists>e' \<in> set (gateway_events (hm_db (s\<lparr>hm_db := d', hm_plan := None\<rparr>))). ev_event_id e' = ev_event_id e \<and>
     ev_stream_id e' = ev_stream_id e \<and> ev_stream_sequence e' = ev_stream_sequence e \<and> ev_canonical_hash e' = ev_canonical_hash e \<and>
     (\<forall>raw. canonical_body E H (hm_files s) (hm_db s) e = Inr raw \<longrightarrow>
        canonical_body E H (hm_files (s\<lparr>hm_db := d', hm_plan := None\<rparr>)) (hm_db (s\<lparr>hm_db := d', hm_plan := None\<rparr>)) e' = Inr raw)"
      by (intro bexI [of _ ?e]) simp_all
  qed
qed

subsection \<open>Planning, writing, marking\<close>

lemma start_archive_Inr:
  assumes "start_archive E H d i = Inr (Some p)"
  obtains a where "archive_of d i = Some a" "av_status a = ArchivePreparing" "archive_plan E H d a = Inr p"
  using assms by (auto simp: start_archive_def result_simps split: option.splits if_splits)

lemma plan_identity:
  assumes "archive_plan E H d a = Inr p"
  shows "pl_archive_id p = av_archive_id a" "pl_path p = av_archive_path a"
  using assms by (auto simp: archive_plan_def Let_def plan_of_fields split: if_splits)

lemma planned_keeps:
  assumes "home_inv E H s" "start_archive E H (hm_db s) i = Inr (Some p)"
  shows "home_inv E H (s\<lparr>hm_plan := Some p\<rparr>)"
proof -
  obtain a where a: "archive_of (hm_db s) i = Some a" "archive_plan E H (hm_db s) a = Inr p"
    using assms(2) by (rule start_archive_Inr)
  have "pl_archive_id p = i" "pl_path p = av_archive_path a"
    using plan_identity [OF a(2)] home_archive_of(2) [OF assms(1) a(1)] by simp_all
  then show ?thesis using assms(1) a by (auto simp: home_inv_def plan_ok_def)
qed

lemma same_reads:
  assumes "keys_ok E (hm_db s)" "hm_db s' = hm_db s"
    and "\<And>e i. e \<in> set (gateway_events (hm_db s)) \<Longrightarrow> ev_archive_id e = Some i \<Longrightarrow> ev_canonical_event_json e = None \<Longrightarrow>
      same_archive (hm_db s) (hm_files s) (hm_db s') (hm_files s') i"
  shows "keeps_reads E H s s'"
proof -
  have "canonical_body E H (hm_files s') (hm_db s') e = canonical_body E H (hm_files s) (hm_db s) e"
    if e: "e \<in> set (gateway_events (hm_db s))" for e
  proof (cases "ev_canonical_event_json e")
    case None
    then show ?thesis using assms(3) e by (intro same_body [OF assms(1) e]) auto
  qed (simp add: canonical_body_def)
  then show ?thesis using assms(2) unfolding keeps_reads_def by auto
qed

lemma written_keeps:
  assumes inv: "home_inv E H s" and plan: "hm_plan s = Some p"
  shows "home_inv E H (s\<lparr>hm_files := write_archive_file (hm_files s) p\<rparr>)"
    "keeps_reads E H s (s\<lparr>hm_files := write_archive_file (hm_files s) p\<rparr>)"
proof -
  let ?d = "hm_db s" and ?i = "pl_archive_id p" and ?fs = "hm_files s" and ?fs' = "write_archive_file (hm_files s) p"
  have k: "keys_ok E ?d" using inv by (simp add: home_inv_def)
  obtain a where a: "archive_of ?d ?i = Some a" "pl_path p = av_archive_path a"
    "av_status a = ArchivePreparing \<longrightarrow> archive_plan E H ?d a = Inr p"
    using inv plan by (auto simp: home_inv_def plan_ok_def)
  note A = home_archive_of [OF inv a(1)]
  have files: "map_of ?fs' q = (if q = pl_path p \<and> map_of ?fs q = None then Some (archive_bytes p) else map_of ?fs q)" for q
    by (auto simp: write_archive_file_def update_conv')
  have same: "same_archive ?d ?fs ?d ?fs' j" if "j \<noteq> ?i \<or> map_of ?fs (pl_path p) \<noteq> None" for j
  proof -
    have "av_archive_path b \<noteq> pl_path p \<or> map_of ?fs (pl_path p) \<noteq> None" if b: "archive_of ?d j = Some b" for b
    proof (cases "j = ?i")
      case False
      have "b \<in> set (gateway_event_archives ?d)" "av_archive_id b = j" using home_archive_of [OF inv b] by simp_all
      then have "av_archive_path b \<noteq> av_archive_path a"
        using distinct_map_inj [of av_archive_path "gateway_event_archives ?d" b a] False A(1,2) k
        by (auto simp: keys_ok_def)
      then show ?thesis using a(2) by simp
    qed (use \<open>j \<noteq> ?i \<or> _\<close> in simp)
    then show ?thesis by (auto simp: same_archive_def files)
  qed
  have "archive_ok E H ?fs' ?d b" if b: "b \<in> set (gateway_event_archives ?d)" for b
  proof (cases "av_archive_id b \<noteq> ?i \<or> map_of ?fs (pl_path p) \<noteq> None")
    case True
    have "archive_of ?d (av_archive_id b) = Some b" using k b archive_of_iff by (auto simp: keys_ok_def)
    moreover have "archive_ok E H ?fs ?d b" using inv b by (simp add: home_inv_def)
    ultimately show ?thesis using same [OF True] archive_ok_same [OF k k] by blast
  next
    case False
    then have ab: "b = a"
      using distinct_map_inj [of av_archive_id "gateway_event_archives ?d" b a] A(1,2) b k by (auto simp: keys_ok_def)
    have "\<nexists>raw. read_archive_member E H ?fs ?d e = Inr raw" if e: "e \<in> set (events_of_archive ?d ?i)" for e
    proof -
      have "ev_archive_id e = Some ?i" using e by (simp add: events_of_archive_def)
      then show ?thesis
        using a(1,2) False by (auto simp: read_archive_member_def read_member_def read_bytes_def split: option.splits)
    qed
    then show ?thesis using A(3,2) a(3) False by (auto simp: archive_ok_def ab files a(2))
  qed
  moreover have "fst ` set ?fs' \<subseteq> av_archive_path ` set (gateway_event_archives ?d)"
  proof -
    have "fst ` set ?fs' \<subseteq> insert (pl_path p) (fst ` set ?fs)"
      by (simp add: write_archive_file_def dom_update subset_insertI)
    moreover have "insert (pl_path p) (fst ` set ?fs) \<subseteq> av_archive_path ` set (gateway_event_archives ?d)"
      using inv a(2) A(1) by (simp add: home_inv_def)
    ultimately show ?thesis by (rule subset_trans)
  qed
  ultimately show "home_inv E H (s\<lparr>hm_files := ?fs'\<rparr>)" using inv by (simp add: home_inv_def)
  show "keeps_reads E H s (s\<lparr>hm_files := ?fs'\<rparr>)"
  proof (rule same_reads [OF k])
    fix e j assume e: "e \<in> set (gateway_events ?d)" "ev_archive_id e = Some j" "ev_canonical_event_json e = None"
    have "j \<noteq> ?i \<or> map_of ?fs (pl_path p) \<noteq> None"
    proof (rule disjCI)
      assume f: "\<not> map_of ?fs (pl_path p) \<noteq> None"
      show "j \<noteq> ?i"
      proof
        assume "j = ?i"
        then have m: "e \<in> set (events_of_archive ?d ?i)" using e by (simp add: events_of_archive_def)
        then have "\<exists>raw. read_archive_member E H ?fs ?d e = Inr raw"
          using A(2,3) e(3) by (auto simp: archive_ok_def split: if_splits)
        then show False
          using a(1,2) f \<open>j = ?i\<close> e(2) by (auto simp: read_archive_member_def read_member_def read_bytes_def split: option.splits if_splits)
      qed
    qed
    then show "same_archive (hm_db s) (hm_files s) (hm_db (s\<lparr>hm_files := ?fs'\<rparr>)) (hm_files (s\<lparr>hm_files := ?fs'\<rparr>)) j"
      using same by simp
  qed simp
qed

lemma marked_keeps:
  assumes inv: "home_inv E H s" and a: "archive_of (hm_db s) i = Some a" "av_status a = ArchivePreparing"
    and st: "status \<in> {ArchiveFailed, ArchiveRecoveryRequired}"
  shows "home_inv E H (s\<lparr>hm_db := set_archive_status (hm_db s) i status\<rparr>)"
    "keeps_reads E H s (s\<lparr>hm_db := set_archive_status (hm_db s) i status\<rparr>)"
proof -
  let ?d = "hm_db s" and ?d' = "set_archive_status (hm_db s) i status" and ?fs = "hm_files s"
  let ?m = "\<lambda>x. if av_archive_id x = i then x\<lparr>av_status := status, av_revision := av_revision x + 1\<rparr> else x"
  have k: "keys_ok E ?d" using inv by (simp add: home_inv_def)
  note A = home_archive_of [OF inv a(1)]
  have av: "gateway_event_archives ?d' = map ?m (gateway_event_archives ?d)" "gateway_events ?d' = gateway_events ?d"
    "gateway_event_archive_members ?d' = gateway_event_archive_members ?d"
    by (simp_all add: set_archive_status_def update_rows_def)
  have ao: "archive_of ?d' j = map_option ?m (archive_of ?d j)" for j
    by (rule archive_of_map [OF _ av(1)]) simp
  have ids: "map av_archive_id (gateway_event_archives ?d') = map av_archive_id (gateway_event_archives ?d)"
    "map av_archive_path (gateway_event_archives ?d') = map av_archive_path (gateway_event_archives ?d)"
    by (simp_all add: av(1))
  have tabs: "members_of_archive ?d' j = members_of_archive ?d j" "events_of_archive ?d' j = events_of_archive ?d j" for j
    by (simp_all add: members_of_archive_def events_of_archive_def av)
  have k': "keys_ok E ?d'"
    using k unfolding keys_ok_def ids av(2,3) ao by (auto split: option.splits)
  have same: "same_archive ?d fs ?d' fs j" if "j \<noteq> i" for fs j
  proof -
    have "av_archive_id b = j" if "archive_of ?d j = Some b" for b using home_archive_of(2) [OF inv that] .
    then show ?thesis using that by (cases "archive_of ?d j") (simp_all add: same_archive_def ao tabs)
  qed
  have "archive_ok E H ?fs ?d' b" if b: "b \<in> set (gateway_event_archives ?d')" for b
  proof -
    obtain c where c: "c \<in> set (gateway_event_archives ?d)" "b = ?m c" using b by (auto simp: av(1))
    have cd: "archive_of ?d (av_archive_id c) = Some c" using k c(1) archive_of_iff by (auto simp: keys_ok_def)
    show ?thesis
    proof (cases "av_archive_id c = i")
      case True
      then have "c = a" using cd a(1) by simp
      then have b': "b = a\<lparr>av_status := status, av_revision := av_revision a + 1\<rparr>" using c(2) True by simp
      have "members_ok ?d' b" using A(4) by (simp add: members_ok_def Let_def b' tabs)
      then show ?thesis using A(3) a(2) st by (auto simp: archive_ok_def b' tabs)
    next
      case False
      then have "b = c" "archive_ok E H ?fs ?d c" using inv c by (auto simp: home_inv_def)
      then show ?thesis using archive_ok_same [OF k k' _ cd same [OF False]] by simp
    qed
  qed
  moreover have "plan_ok E H ?d' p" if p: "hm_plan s = Some p" for p
  proof (cases "pl_archive_id p = i")
    case True
    then show ?thesis using inv p a st by (auto simp: home_inv_def plan_ok_def ao A(2))
  next
    case False
    then show ?thesis
      using plan_ok_same [OF k k' _ _ same [OF False]] inv p home_archive_of(4) [OF inv] by (auto simp: home_inv_def)
  qed
  moreover have "av_archive_path ` set (gateway_event_archives ?d') = av_archive_path ` set (gateway_event_archives ?d)"
    using ids(2) by (metis list.set_map)
  ultimately show "home_inv E H (s\<lparr>hm_db := ?d'\<rparr>)" using inv k' by (simp add: home_inv_def)
  have "canonical_body E H ?fs ?d' e = canonical_body E H ?fs ?d e" if e: "e \<in> set (gateway_events ?d)" for e
  proof (cases "ev_archive_id e = Some i")
    case True
    then have "e \<in> set (events_of_archive ?d (av_archive_id a))" using e A(2) by (simp add: events_of_archive_def)
    then have "ev_canonical_event_json e \<noteq> None" using A(3) a(2) by (auto simp: archive_ok_def)
    then show ?thesis by (auto simp: canonical_body_def)
  next
    case False
    then show ?thesis using same by (intro same_body [OF k e]) auto
  qed
  then show "keeps_reads E H s (s\<lparr>hm_db := ?d'\<rparr>)" unfolding keeps_reads_def by (auto simp: av(2))
qed

subsection \<open>Every step\<close>

lemma prepare_rows:
  assumes "prepare E dir d sid ids i ts = Inr d'"
  obtains rows where "insert_preparing E dir d sid rows i ts = Inr d'" "set rows \<subseteq> set (gateway_events d)"
  using assms that [of "sort_key ev_stream_sequence (filter (\<lambda>e. ev_event_id e \<in> set ids) (gateway_events d))"]
  by (auto simp: prepare_def Let_def split: if_splits)

lemma contiguous_prefix_subset: "set (contiguous_prefix rows) \<subseteq> set rows"
  by (induction rows rule: contiguous_prefix.induct) auto

lemma prepare_eligible_rows:
  assumes "prepare_eligible_stream E dir d sid cutoff n i ts = Inr (Some d')"
  obtains rows where "insert_preparing E dir d sid (contiguous_prefix rows) i ts = Inr d'"
    "set (contiguous_prefix rows) \<subseteq> set (gateway_events d)"
proof -
  define rows where "rows = take n (sort_key ev_stream_sequence (filter (\<lambda>e. ev_stream_id e = sid
            \<and> archivable E d cutoff e \<and> deliveries_done d e) (gateway_events d)))"
  have "insert_preparing E dir d sid (contiguous_prefix rows) i ts = Inr d'"
    using assms unfolding prepare_eligible_stream_def Let_def rows_def [symmetric]
    by (simp add: result_simps split: if_splits)
  moreover have "set rows \<subseteq> set (gateway_events d)" by (auto simp: rows_def dest: in_set_takeD)
  ultimately show thesis using that contiguous_prefix_subset subset_trans by blast
qed

lemma keeps_reads_refl: "keeps_reads E H s s"
  by (auto simp: keeps_reads_def)

lemma keeps_reads_trans:
  assumes "keeps_reads E H s t" "keeps_reads E H t u"
  shows "keeps_reads E H s u"
  unfolding keeps_reads_def
proof
  fix e assume "e \<in> set (gateway_events (hm_db s))"
  then obtain e1 where 1: "e1 \<in> set (gateway_events (hm_db t))" "ev_event_id e1 = ev_event_id e" "ev_stream_id e1 = ev_stream_id e"
    "ev_stream_sequence e1 = ev_stream_sequence e" "ev_canonical_hash e1 = ev_canonical_hash e"
    "\<And>raw. canonical_body E H (hm_files s) (hm_db s) e = Inr raw \<Longrightarrow> canonical_body E H (hm_files t) (hm_db t) e1 = Inr raw"
    using assms(1) unfolding keeps_reads_def by blast
  obtain e2 where 2: "e2 \<in> set (gateway_events (hm_db u))" "ev_event_id e2 = ev_event_id e1" "ev_stream_id e2 = ev_stream_id e1"
    "ev_stream_sequence e2 = ev_stream_sequence e1" "ev_canonical_hash e2 = ev_canonical_hash e1"
    "\<And>raw. canonical_body E H (hm_files t) (hm_db t) e1 = Inr raw \<Longrightarrow> canonical_body E H (hm_files u) (hm_db u) e2 = Inr raw"
    using assms(2) 1(1) unfolding keeps_reads_def by blast
  show "\<exists>e' \<in> set (gateway_events (hm_db u)). ev_event_id e' = ev_event_id e \<and> ev_stream_id e' = ev_stream_id e \<and>
     ev_stream_sequence e' = ev_stream_sequence e \<and> ev_canonical_hash e' = ev_canonical_hash e \<and>
     (\<forall>raw. canonical_body E H (hm_files s) (hm_db s) e = Inr raw \<longrightarrow> canonical_body E H (hm_files u) (hm_db u) e' = Inr raw)"
    using 1 2 by (intro bexI [OF _ 2(1)]) simp
qed

lemma home_step_keeps:
  assumes "home_step E H s s'" "home_inv E H s" "json_loads E = json_parse"
  shows "home_inv E H s' \<and> keeps_reads E H s s'"
  using assms
proof (induction rule: home_step.induct)
  case (home_control s d')
  have "log_extends E (hm_db s) d'"
    using control_extends home_control(1,2) by (simp add: home_inv_def)
  then show ?case using extends_keeps home_control(2) by blast
next
  case (home_claim K s i n ts d' c)
  have "log_extends E (hm_db s) d'"
    using dispatcher_extends(1) home_claim(1,2) by (simp add: home_inv_def)
  then show ?case using extends_keeps home_claim(2) by blast
next
  case (home_settle K s c r ts utc_now d')
  have "log_extends E (hm_db s) d'"
    using dispatcher_extends(2) home_settle(1,2) by (simp add: home_inv_def)
  then show ?case using extends_keeps home_settle(2) by blast
next
  case (home_reconcile s ts d' n m)
  have "log_extends E (hm_db s) d'"
    using dispatcher_extends(3) home_reconcile(1,2) by (simp add: home_inv_def)
  then show ?case using extends_keeps home_reconcile(2) by blast
next
  case (home_prepare i dir s sid ids ts d')
  obtain rows where "insert_preparing E dir (hm_db s) sid rows i ts = Inr d'" "set rows \<subseteq> set (gateway_events (hm_db s))"
    using home_prepare(2) by (rule prepare_rows)
  then show ?case using prepared_keeps home_prepare(1,3) by blast
next
  case (home_prepare_eligible i dir s sid cutoff n ts d')
  obtain rows where "insert_preparing E dir (hm_db s) sid (contiguous_prefix rows) i ts = Inr d'"
    "set (contiguous_prefix rows) \<subseteq> set (gateway_events (hm_db s))"
    using home_prepare_eligible(2) by (rule prepare_eligible_rows)
  then show ?case using prepared_keeps home_prepare_eligible(1,3) by blast
next
  case (home_plan s i p)
  have "keeps_reads E H s (s\<lparr>hm_plan := Some p\<rparr>)" by (auto simp: keeps_reads_def)
  then show ?case using planned_keeps home_plan by blast
next
  case (home_write s p)
  then show ?case using written_keeps by blast
next
  case (home_release s p ts d')
  then show ?case using released_keeps by blast
next
  case (home_mark s i a status)
  then show ?case using marked_keeps by blast
next
  case (home_crash s)
  then show ?case by (auto simp: home_inv_def keeps_reads_def)
qed

lemma home_steps_keep:
  assumes "(home_step E H)\<^sup>*\<^sup>* s s'" "home_inv E H s" "json_loads E = json_parse"
  shows "home_inv E H s' \<and> keeps_reads E H s s'"
  using assms
proof (induction rule: rtranclp_induct)
  case (step t u)
  then show ?case using home_step_keeps keeps_reads_trans by blast
qed (simp add: keeps_reads_refl)

lemma initial_home_inv: "home_inv E H (initial_home sinks gens)"
  by (simp add: home_inv_def initial_home_def keys_ok_def empty_db_def)

lemma reachable_home_inv: "home_reachable E H s \<Longrightarrow> json_loads E = json_parse \<Longrightarrow> home_inv E H s"
  unfolding home_reachable_def using home_steps_keep initial_home_inv by blast

end
