(* ===== verification/Archive_Laws.thy ===== *)
theory Archive_Laws
  imports Archive_History
begin

section \<open>Laws of the event archive\<close>

text \<open>
  What a reader of the event store relies on: archiving changes no record that could be read, in every history
  with crashes at every point; a preparing archive can always be completed; a whole run of the service or of its
  recovery is such a history.
\<close>

subsection \<open>A record that could be read is read for ever\<close>

lemma read_canonical_event:
  assumes "keys_ok E d"
  shows "read_canonical E H fs d i = Inr r \<longleftrightarrow>
    (\<exists>e \<in> set (gateway_events d). ev_event_id e = i \<and> (\<exists>raw. canonical_body E H fs d e = Inr raw \<and> validate_row E e raw = Inr r))"
  using event_lookup [OF assms] lookup_row_Some_mem [of ev_event_id i "gateway_events d"]
  by (auto simp: read_canonical_def read_row_def result_simps)

lemma validate_row_cong:
  assumes "ev_event_id e' = ev_event_id e" "ev_stream_id e' = ev_stream_id e"
    "ev_stream_sequence e' = ev_stream_sequence e" "ev_canonical_hash e' = ev_canonical_hash e"
  shows "validate_row E e' raw = validate_row E e raw"
  using assms by (simp add: validate_row_def)

lemma history_keeps_records:
  assumes "home_reachable E H s" "json_loads E = json_parse" "(home_step E H)\<^sup>*\<^sup>* s s'"
    and "read_canonical E H (hm_files s) (hm_db s) i = Inr r"
  shows "read_canonical E H (hm_files s') (hm_db s') i = Inr r"
proof -
  have inv: "home_inv E H s" using reachable_home_inv assms(1,2) .
  have k: "home_inv E H s'" "keeps_reads E H s s'" using home_steps_keep [OF assms(3) inv assms(2)] by simp_all
  have keys: "keys_ok E (hm_db s)" "keys_ok E (hm_db s')" using inv k(1) by (simp_all add: home_inv_def)
  obtain e raw where e: "e \<in> set (gateway_events (hm_db s))" "ev_event_id e = i"
    "canonical_body E H (hm_files s) (hm_db s) e = Inr raw" "validate_row E e raw = Inr r"
    using assms(4) by (auto simp: read_canonical_event [OF keys(1)])
  obtain e' where e': "e' \<in> set (gateway_events (hm_db s'))" "ev_event_id e' = ev_event_id e"
    "ev_stream_id e' = ev_stream_id e" "ev_stream_sequence e' = ev_stream_sequence e"
    "ev_canonical_hash e' = ev_canonical_hash e" "canonical_body E H (hm_files s') (hm_db s') e' = Inr raw"
    using k(2) e(1,3) unfolding keeps_reads_def by blast
  have "validate_row E e' raw = Inr r" using validate_row_cong [OF e'(2-5)] e(4) by metis
  then show ?thesis using e' e(2) by (auto simp: read_canonical_event [OF keys(2)])
qed

text \<open>
  C26. Archiving never changes history: an event that could be read from the store is read with the same
  canonical text after any history of commands, deliveries, freezing, writing, verification, release, failed
  archives and crashes between any two of them.
\<close>

theorem archiving_keeps_history:
  assumes "home_reachable E H s" "json_loads E = json_parse" "(home_step E H)\<^sup>*\<^sup>* s s'"
    and "read_canonical E H (hm_files s) (hm_db s) i = Inr r"
  shows "read_canonical E H (hm_files s') (hm_db s') i = Inr r"
  using assms by (rule history_keeps_records)

subsection \<open>A preparing archive can be completed\<close>

lemma sort_keys_twice: "sort_keys (sort_keys v) = sort_keys v"
proof (induction v rule: sort_keys.induct)
  case (1 kvs)
  let ?f = "\<lambda>(k, v). (k, sort_keys v)"
  have "map ?f (map ?f kvs) = map ?f kvs" using 1 by auto
  moreover have "map ?f (sort_key fst (map ?f kvs)) = sort_key fst (map ?f (map ?f kvs))"
    by (rule sort_key_map [symmetric]) auto
  moreover have "sort_key fst (sort_key fst (map ?f kvs)) = sort_key fst (map ?f kvs)"
    by (rule sort_key_id_if_sorted) (rule sorted_sort_key)
  ultimately show ?case by (simp only: sort_keys.simps)
next
  case (2 xs)
  then show ?case by simp
qed simp_all

lemma zip_offsets:
  assumes "data = pre @ concat (map (\<lambda>(m, raw). line_bytes raw) ms)"
    and "((i, offset, len), (m, raw)) \<in> set (zip (member_offsets (length pre) ms) ms)"
  shows "take len (drop offset data) = utf8 raw"
  using assms
proof (induction ms arbitrary: pre)
  case (Cons p ms)
  obtain n r where p: "p = (n, r)" by (cases p)
  show ?case
  proof (cases "((i, offset, len), (m, raw)) \<in> set (zip (member_offsets (length (pre @ line_bytes r)) ms) ms)")
    case True
    then show ?thesis using Cons.IH [of "pre @ line_bytes r"] Cons.prems(1) p by simp
  next
    case False
    then show ?thesis using Cons.prems p by (auto simp: line_bytes_def add.assoc)
  qed
qed simp

lemma plan_succeeds:
  assumes k: "keys_ok E d" and m: "members_ok d a"
    and hot: "\<And>e. e \<in> set (events_of_archive d (av_archive_id a)) \<Longrightarrow> ev_canonical_event_json e \<noteq> None"
  obtains p where "archive_plan E H d a = Inr p"
    "\<And>x raw. (x, raw) \<in> set (pl_members p) \<Longrightarrow> mb_canonical_hash x = sha256 E raw"
proof -
  let ?i = "av_archive_id a"
  have F: "frozen_members d ?i = sort_key (\<lambda>(m, e). mb_stream_sequence m)
     (map (\<lambda>m. (m, event_of_member d m)) (members_of_archive d ?i))"
    by (rule frozen_members_eq [OF k m])
  have len: "length (frozen_members d ?i) = av_event_count a" using m by (simp add: F members_ok_def Let_def)
  have el: "e = event_of_member d x \<and> x \<in> set (members_of_archive d ?i)" if "(x, e) \<in> set (frozen_members d ?i)" for x e
    using that by (auto simp: F)
  have "ev_canonical_event_json e \<noteq> None" if "(x, e) \<in> set (frozen_members d ?i)" for x e
    using el [OF that] member_event_of(1) [OF k m] hot by blast
  then have "\<not> list_ex (\<lambda>(m, e). ev_canonical_event_json e = None) (frozen_members d ?i)"
    by (force simp: list_ex_iff)
  then have p: "archive_plan E H d a = Inr (plan_of E H a (map (\<lambda>(m, e). (m, the (ev_canonical_event_json e))) (frozen_members d ?i)))"
    using len by (simp add: archive_plan_def Let_def)
  show thesis
  proof (rule that [OF p])
    fix x raw assume "(x, raw) \<in> set (pl_members (plan_of E H a (map (\<lambda>(m, e). (m, the (ev_canonical_event_json e))) (frozen_members d ?i))))"
    then obtain e where e: "(x, e) \<in> set (frozen_members d ?i)" "raw = the (ev_canonical_event_json e)"
      by (auto simp: plan_of_fields)
    have x: "e = event_of_member d x" "x \<in> set (members_of_archive d ?i)" using el e(1) by simp_all
    have "e \<in> set (events_of_archive d ?i)" "ev_canonical_hash e = mb_canonical_hash x"
      using member_event_of [OF k m x(2)] x(1) by simp_all
    moreover from this(1) have "e \<in> set (gateway_events d)" by (simp add: events_of_archive_def)
    ultimately show "mb_canonical_hash x = sha256 E raw" using hot [of e] k e(2) by (auto simp: keys_ok_def)
  qed
qed

lemma verify_succeeds:
  assumes "json_loads E = json_parse" "\<And>s. sha256 E s = H (utf8 s)" "archive_plan E H d a = Inr p"
    and "\<And>x raw. (x, raw) \<in> set (pl_members p) \<Longrightarrow> mb_canonical_hash x = sha256 E raw"
    and "map_of fs (pl_path p) = Some (archive_bytes p)"
  shows "verify_file E H fs p = Inr ()"
proof -
  obtain ms where p: "p = plan_of E H a ms" using assms(3) by (auto simp: archive_plan_def Let_def split: if_splits)
  have "json_loads E (canonical_json (header_json p)) = Some (sort_keys (header_json p))"
    using canonical_json_reads [OF header_unique, of E H a ms] by (simp add: assms(1) p)
  moreover have "\<not> list_ex (\<lambda>((i, offset, len), (m, raw)). H (take len (drop offset (archive_bytes p))) \<noteq> mb_canonical_hash m)
      (zip (plan_offsets p) (pl_members p))"
  proof -
    have "H (take len (drop offset (archive_bytes p))) = mb_canonical_hash m"
      if "((i, offset, len), (m, raw)) \<in> set (zip (plan_offsets p) (pl_members p))" for i offset len m raw
    proof -
      have "take len (drop offset (archive_bytes p)) = utf8 raw"
        using zip_offsets [of "archive_bytes p" "header_bytes p" "pl_members p"] that
        by (simp add: archive_bytes_def plan_offsets_def)
      moreover have "(m, raw) \<in> set (pl_members p)" using that by (meson set_zip_rightD)
      ultimately show ?thesis using assms(2,4) by simp
    qed
    then show ?thesis by (fastforce simp: list_ex_iff)
  qed
  moreover have "pl_manifest_hash p = sha256 E (canonical_json (JObj (pl_manifest p)))"
    "pl_content_hash p = H (concat (map (\<lambda>(m, raw). line_bytes raw) (pl_members p)))"
    unfolding p by (simp_all only: plan_of_fields)
  ultimately show ?thesis
    using assms(5) by (simp add: verify_file_def read_bytes_def header_line header_line(3) [simplified] utf8_round_trip sort_keys_twice)
qed

lemma archive_completes_facts:
  assumes inv: "home_inv E H s" and json: "json_loads E = json_parse" and hash: "\<And>s. sha256 E s = H (utf8 s)"
    and a: "archive_of (hm_db s) i = Some a" "av_status a = ArchivePreparing"
  obtains p d' where "start_archive E H (hm_db s) i = Inr (Some p)"
    "verify_file E H (write_archive_file (hm_files s) p) p = Inr ()" "complete_archive (hm_db s) p ts = Inr d'"
    "write_and_verify E H (hm_files s) (hm_db s) i ts = (write_archive_file (hm_files s) p, d', Inr ())"
    "pl_archive_id p = i" "pl_path p = av_archive_path a"
    "home_inv E H \<lparr>hm_db = d', hm_files = write_archive_file (hm_files s) p, hm_plan = None\<rparr>"
    "\<And>j. j \<noteq> i \<Longrightarrow> archive_of d' j = archive_of (hm_db s) j"
    "\<exists>a'. archive_of d' i = Some a' \<and> av_status a' = ArchiveVerified"
proof -
  note A = home_archive_of [OF inv a(1)]
  have k: "keys_ok E (hm_db s)" using inv by (simp add: home_inv_def)
  have hot: "ev_canonical_event_json e \<noteq> None" if "e \<in> set (events_of_archive (hm_db s) (av_archive_id a))" for e
    using A(3) a(2) that by (simp add: archive_ok_def)
  obtain p where p: "archive_plan E H (hm_db s) a = Inr p" "\<And>x raw. (x, raw) \<in> set (pl_members p) \<Longrightarrow> mb_canonical_hash x = sha256 E raw"
    using plan_succeeds [OF k A(4) hot] by blast
  have pl: "pl_archive_id p = i" "pl_path p = av_archive_path a" using plan_identity [OF p(1)] A(2) by simp_all
  have st: "start_archive E H (hm_db s) i = Inr (Some p)" using a p(1) by (simp add: start_archive_def)
  have "map_of (write_archive_file (hm_files s) p) (pl_path p) = Some (archive_bytes p)"
  proof (cases "map_of (hm_files s) (pl_path p)")
    case None
    then show ?thesis by (simp add: write_archive_file_def update_conv')
  next
    case (Some data)
    then show ?thesis using A(3) a(2) p(1) pl(2) by (auto simp: archive_ok_def write_archive_file_def)
  qed
  then have ver: "verify_file E H (write_archive_file (hm_files s) p) p = Inr ()"
    using verify_succeeds [OF json hash p(1)] p(2) by blast
  obtain d' where com: "complete_archive (hm_db s) p ts = Inr d'" using a pl(1) by (simp add: complete_archive_def)
  let ?s2 = "s\<lparr>hm_plan := Some p, hm_files := write_archive_file (hm_files s) p\<rparr>"
  have "home_inv E H (s\<lparr>hm_plan := Some p\<rparr>)" by (rule planned_keeps [OF inv st])
  then have inv2: "home_inv E H ?s2" using written_keeps(1) [of E H "s\<lparr>hm_plan := Some p\<rparr>" p] by simp
  have ready: "hm_plan ?s2 = Some p" "verify_file E H (hm_files ?s2) p = Inr ()" "complete_archive (hm_db ?s2) p ts = Inr d'"
    using ver com by simp_all
  have "home_inv E H (?s2\<lparr>hm_db := d', hm_plan := None\<rparr>)" using released_keeps(1) [OF inv2 json ready] .
  then have inv3: "home_inv E H \<lparr>hm_db = d', hm_files = write_archive_file (hm_files s) p, hm_plan = None\<rparr>"
    by (simp add: home_inv_def)
  have "\<exists>b. archive_of d' j = (if j = i then Some (verified_row p ts b) else archive_of (hm_db s) j)" for j
    by (rule release_facts [OF inv2 ready, of j]) (use pl(1) in auto)
  then have "j \<noteq> i \<Longrightarrow> archive_of d' j = archive_of (hm_db s) j"
    "\<exists>a'. archive_of d' i = Some a' \<and> av_status a' = ArchiveVerified" for j by (metis verified_row_fields)+
  then show thesis using that [OF st ver com] pl inv3 by (simp add: write_and_verify_def st ver com)
qed

lemma write_and_verify_steps:
  assumes "start_archive E H d i = Inr (Some p)" "verify_file E H (write_archive_file fs p) p = Inr ()"
    and "complete_archive d p ts = Inr d'"
  shows "(home_step E H)\<^sup>*\<^sup>* \<lparr>hm_db = d, hm_files = fs, hm_plan = None\<rparr>
    \<lparr>hm_db = d', hm_files = write_archive_file fs p, hm_plan = None\<rparr>"
proof -
  let ?s = "\<lparr>hm_db = d, hm_files = fs, hm_plan = None\<rparr>"
  let ?s1 = "?s\<lparr>hm_plan := Some p\<rparr>"
  let ?s2 = "?s1\<lparr>hm_files := write_archive_file (hm_files ?s1) p\<rparr>"
  have "home_step E H ?s ?s1" using assms(1) by (intro home_plan) simp
  moreover have "home_step E H ?s1 ?s2" by (rule home_write) simp
  moreover have "home_step E H ?s2 (?s2\<lparr>hm_db := d', hm_plan := None\<rparr>)"
    using assms(2,3) by (intro home_release [of ?s2 p]) simp_all
  ultimately have "(home_step E H)\<^sup>*\<^sup>* ?s (?s2\<lparr>hm_db := d', hm_plan := None\<rparr>)"
    by (meson converse_rtranclp_into_rtranclp r_into_rtranclp)
  then show ?thesis by simp
qed

text \<open>
  C27. No archive is stuck: in every reachable home a preparing archive, whether its worker died before or after
  it wrote the file, is completed by one call of \<^verbatim>\<open>write_and_verify\<close>; it is verified then and each of its events
  is read back from the file.
\<close>

theorem archive_completes:
  assumes "home_reachable E H s" "json_loads E = json_parse" "sha256 E = (\<lambda>t. H (utf8 t))"
    and "archive_of (hm_db s) i = Some a" "av_status a = ArchivePreparing"
  shows "\<exists>fs' d' a'. write_and_verify E H (hm_files s) (hm_db s) i ts = (fs', d', Inr ()) \<and>
    archive_of d' i = Some a' \<and> av_status a' = ArchiveVerified \<and>
    (\<forall>e \<in> set (events_of_archive d' i). \<exists>raw. read_archive_member E H fs' d' e = Inr raw)"
proof -
  have inv: "home_inv E H s" using reachable_home_inv assms(1,2) .
  have hash: "sha256 E t = H (utf8 t)" for t using assms(3) by simp
  obtain p d' where w: "write_and_verify E H (hm_files s) (hm_db s) i ts = (write_archive_file (hm_files s) p, d', Inr ())"
    "home_inv E H \<lparr>hm_db = d', hm_files = write_archive_file (hm_files s) p, hm_plan = None\<rparr>"
    "\<exists>a'. archive_of d' i = Some a' \<and> av_status a' = ArchiveVerified"
    using archive_completes_facts [OF inv assms(2) hash assms(4,5)] by metis
  obtain a' where a': "archive_of d' i = Some a'" "av_status a' = ArchiveVerified" using w(3) by blast
  have "archive_ok E H (write_archive_file (hm_files s) p) d' a'" "av_archive_id a' = i"
    using a' home_archive_of [OF w(2), of i a'] by simp_all
  then show ?thesis using w(1) a' by (auto simp: archive_ok_def)
qed

end
