(* ===== verification/Archive_Runs.thy ===== *)
theory Archive_Runs
  imports Archive_Laws Delivery_File
begin

section \<open>Runs of the archive service\<close>

text \<open>
  The compositions of the code, \<^verbatim>\<open>write_and_verify\<close>, \<^verbatim>\<open>recover_preparing\<close> and \<^verbatim>\<open>process_eligible\<close>, are histories
  of home steps, so that what holds of every history holds of them; what the recovery at startup decides about
  each archive; \<^verbatim>\<open>ProjectionRebuilder\<close>, whose file is the one the delivery of the stream has written.
\<close>

subsection \<open>Recovery\<close>

lemma write_and_verify_history:
  assumes "write_and_verify E H fs d i ts = (fs', d', r)"
  shows "(home_step E H)\<^sup>*\<^sup>* \<lparr>hm_db = d, hm_files = fs, hm_plan = None\<rparr> \<lparr>hm_db = d', hm_files = fs', hm_plan = None\<rparr>"
proof (cases "\<exists>p. start_archive E H d i = Inr (Some p)")
  case False
  then show ?thesis using assms by (auto simp: write_and_verify_def split: sum.splits option.splits)
next
  case True
  then obtain p where p: "start_archive E H d i = Inr (Some p)" by blast
  let ?fs = "write_archive_file fs p"
  show ?thesis
  proof (cases "verify_file E H ?fs p = Inr () \<and> (\<exists>d1. complete_archive d p ts = Inr d1)")
    case True
    then obtain d1 where d1: "verify_file E H ?fs p = Inr ()" "complete_archive d p ts = Inr d1" by blast
    then have "d' = d1" "fs' = ?fs" using assms p by (simp_all add: write_and_verify_def Let_def)
    then show ?thesis using write_and_verify_steps [OF p d1] by simp
  next
    case False
    then have "d' = d" "fs' = ?fs" using assms p by (auto simp: write_and_verify_def Let_def result_simps split: sum.splits)
    moreover let ?s = "\<lparr>hm_db = d, hm_files = fs, hm_plan = None\<rparr>"
    have "home_step E H ?s (?s\<lparr>hm_plan := Some p\<rparr>)" using p by (intro home_plan) simp
    moreover have "home_step E H (?s\<lparr>hm_plan := Some p\<rparr>) (?s\<lparr>hm_plan := Some p, hm_files := ?fs\<rparr>)"
      using home_write [of "?s\<lparr>hm_plan := Some p\<rparr>" p E H] by simp
    moreover have "home_step E H (?s\<lparr>hm_plan := Some p, hm_files := ?fs\<rparr>) \<lparr>hm_db = d, hm_files = ?fs, hm_plan = None\<rparr>"
      using home_crash [of E H "?s\<lparr>hm_plan := Some p, hm_files := ?fs\<rparr>"] by simp
    ultimately show ?thesis by (meson converse_rtranclp_into_rtranclp r_into_rtranclp)
  qed
qed

definition decided :: "files \<Rightarrow> string \<Rightarrow> ArchiveStatus" where
  "decided fs path = (if map_of fs path = None then ArchiveFailed else ArchiveVerified)"

definition decision :: "files \<Rightarrow> string \<Rightarrow> string" where
  "decision fs path = (if map_of fs path = None then ''failed'' else ''verified'')"

lemma marked_archives:
  assumes "distinct (map av_archive_id (gateway_event_archives d))"
  shows "archive_of (set_archive_status d i st) j =
    map_option (\<lambda>a. if av_archive_id a = i then a\<lparr>av_status := st, av_revision := av_revision a + 1\<rparr> else a) (archive_of d j)"
  unfolding set_archive_status_def update_rows_def by (rule archive_of_map) simp_all

text \<open>The loop of \<^verbatim>\<open>recover_preparing\<close> over distinct preparing archives decides each of them and no other.\<close>

lemma recover_archives_decides:
  fixes d :: db
  assumes "home_inv E H \<lparr>hm_db = d, hm_files = fs, hm_plan = None\<rparr>" "json_loads E = json_parse"
    and "sha256 E = (\<lambda>t. H (utf8 t))" "distinct (map fst rows)"
    and "\<And>i path. (i, path) \<in> set rows \<Longrightarrow>
      \<exists>a. archive_of d i = Some a \<and> av_status a = ArchivePreparing \<and> av_archive_path a = path"
    and "recover_archives E H rows fs d ts = (fs', d', out)"
  shows "(home_step E H)\<^sup>*\<^sup>* \<lparr>hm_db = d, hm_files = fs, hm_plan = None\<rparr> \<lparr>hm_db = d', hm_files = fs', hm_plan = None\<rparr> \<and>
    fs' = fs \<and> out = map (\<lambda>(i, path). (i, decision fs path)) rows \<and>
    (\<forall>j. map_option av_status (archive_of d' j) =
      (case map_of rows j of None \<Rightarrow> map_option av_status (archive_of d j) | Some path \<Rightarrow> Some (decided fs path)))"
  using assms
proof (induction rows arbitrary: d d' out)
  case Nil
  then show ?case by simp
next
  case (Cons row rows)
  let ?s = "\<lparr>hm_db = d, hm_files = fs, hm_plan = None\<rparr>"
  obtain i path where row: "row = (i, path)" by (cases row)
  obtain a where a: "archive_of d i = Some a" "av_status a = ArchivePreparing" "av_archive_path a = path"
    using Cons.prems(5) row by auto
  have hash: "sha256 E t = H (utf8 t)" for t using Cons.prems(3) by simp
  have dist: "distinct (map av_archive_id (gateway_event_archives d))"
    using Cons.prems(1) by (simp add: home_inv_def keys_ok_def)
  have fresh: "i \<notin> fst ` set rows" using Cons.prems(4) row by simp
  have "\<exists>d1 out1. home_inv E H \<lparr>hm_db = d1, hm_files = fs, hm_plan = None\<rparr> \<and>
      (home_step E H)\<^sup>*\<^sup>* ?s \<lparr>hm_db = d1, hm_files = fs, hm_plan = None\<rparr> \<and>
      recover_archives E H rows fs d1 ts = (fs', d', out1) \<and> out = (i, decision fs path) # out1 \<and>
      (\<forall>j. j \<noteq> i \<longrightarrow> archive_of d1 j = archive_of d j) \<and>
      map_option av_status (archive_of d1 i) = Some (decided fs path)"
  proof (cases "map_of fs path")
    case None
    let ?d1 = "set_archive_status d i ArchiveFailed"
    have "home_step E H ?s \<lparr>hm_db = ?d1, hm_files = fs, hm_plan = None\<rparr>"
      using home_mark [of ?s i a ArchiveFailed E H] a by simp
    then have one: "(home_step E H)\<^sup>*\<^sup>* ?s \<lparr>hm_db = ?d1, hm_files = fs, hm_plan = None\<rparr>" by blast
    have ids: "av_archive_id b = j" if "archive_of d j = Some b" for j b using that archive_of_iff [OF dist] by blast
    have other: "archive_of ?d1 j = archive_of d j" if "j \<noteq> i" for j
      using ids that by (cases "archive_of d j") (auto simp: marked_archives [OF dist])
    have this_one: "map_option av_status (archive_of ?d1 i) = Some (decided fs path)"
      using ids [OF a(1)] a(1) None by (simp add: marked_archives [OF dist] decided_def)
    obtain fs2 d2 out2 where r: "recover_archives E H rows fs ?d1 ts = (fs2, d2, out2)" by (cases "recover_archives E H rows fs ?d1 ts")
    then have "fs' = fs2" "d' = d2" "out = (i, decision fs path) # out2"
      using Cons.prems(6) None by (simp_all add: row decision_def)
    moreover have "home_inv E H \<lparr>hm_db = ?d1, hm_files = fs, hm_plan = None\<rparr>"
      using home_steps_keep [OF one Cons.prems(1,2)] by simp
    ultimately show ?thesis using r one other this_one by blast
  next
    case (Some data)
    obtain p d1 where p: "write_and_verify E H fs d i ts = (write_archive_file fs p, d1, Inr ())"
      "pl_path p = av_archive_path a" "home_inv E H \<lparr>hm_db = d1, hm_files = write_archive_file fs p, hm_plan = None\<rparr>"
      "\<forall>j. j \<noteq> i \<longrightarrow> archive_of d1 j = archive_of d j" "\<exists>a'. archive_of d1 i = Some a' \<and> av_status a' = ArchiveVerified"
      using archive_completes_facts [OF Cons.prems(1,2) hash, of i a ts] a(1,2) unfolding home.simps by metis
    have same: "write_archive_file fs p = fs" using Some p(2) a(3) by (simp add: write_archive_file_def)
    obtain fs2 d2 out2 where r: "recover_archives E H rows fs d1 ts = (fs2, d2, out2)" by (cases "recover_archives E H rows fs d1 ts")
    then have "fs' = fs2" "d' = d2" "out = (i, decision fs path) # out2"
      using Cons.prems(6) Some p(1) by (simp_all add: row decision_def same)
    moreover have "map_option av_status (archive_of d1 i) = Some (decided fs path)" using p(5) Some by (auto simp: decided_def)
    ultimately show ?thesis using r p(3,4) write_and_verify_history [OF p(1)] unfolding same by blast
  qed
  then obtain d1 out1 where d1: "home_inv E H \<lparr>hm_db = d1, hm_files = fs, hm_plan = None\<rparr>"
    "(home_step E H)\<^sup>*\<^sup>* ?s \<lparr>hm_db = d1, hm_files = fs, hm_plan = None\<rparr>"
    "recover_archives E H rows fs d1 ts = (fs', d', out1)" "out = (i, decision fs path) # out1"
    "\<forall>j. j \<noteq> i \<longrightarrow> archive_of d1 j = archive_of d j" "map_option av_status (archive_of d1 i) = Some (decided fs path)"
    by blast
  have todo: "\<exists>b. archive_of d1 j = Some b \<and> av_status b = ArchivePreparing \<and> av_archive_path b = q" if "(j, q) \<in> set rows" for j q
  proof -
    have "j \<noteq> i" using fresh that by force
    then show ?thesis using Cons.prems(5) [of j q] d1(5) that by simp
  qed
  have rest: "distinct (map fst rows)" using Cons.prems(4) by simp
  have IH: "(home_step E H)\<^sup>*\<^sup>* \<lparr>hm_db = d1, hm_files = fs, hm_plan = None\<rparr> \<lparr>hm_db = d', hm_files = fs', hm_plan = None\<rparr> \<and>
    fs' = fs \<and> out1 = map (\<lambda>(i, path). (i, decision fs path)) rows \<and>
    (\<forall>j. map_option av_status (archive_of d' j) =
      (case map_of rows j of None \<Rightarrow> map_option av_status (archive_of d1 j) | Some path \<Rightarrow> Some (decided fs path)))"
    by (rule Cons.IH [OF d1(1) Cons.prems(2,3) rest todo d1(3)])
  have "map_of rows i = None" using fresh by (simp add: map_of_eq_None_iff)
  then have "map_option av_status (archive_of d' j) = (case map_of (row # rows) j of
      None \<Rightarrow> map_option av_status (archive_of d j) | Some path \<Rightarrow> Some (decided fs path))" for j
    using IH d1(5,6) by (cases "j = i") (simp_all add: row split: option.splits)
  then show ?case using IH d1(2,4) by (auto simp: row)
qed

text \<open>
  C28. Startup decides every archive: from every reachable home, \<^verbatim>\<open>recover_preparing\<close> ends with no archive left
  preparing. An archive whose file is there is verified, one without a file is failed, no file is written or
  lost, and the run is a history of the archive, so that every record stays readable.
\<close>

theorem recovery_decides_every_archive:
  assumes "home_reachable E H \<lparr>hm_db = d, hm_files = fs, hm_plan = None\<rparr>" "json_loads E = json_parse"
    and "sha256 E = (\<lambda>t. H (utf8 t))"
  shows "\<exists>d'. recover_preparing E H fs d ts = (fs, d', map (\<lambda>a. (av_archive_id a, decision fs (av_archive_path a)))
      (filter (\<lambda>a. av_status a = ArchivePreparing) (gateway_event_archives d))) \<and>
    home_reachable E H \<lparr>hm_db = d', hm_files = fs, hm_plan = None\<rparr> \<and>
    (\<forall>i. map_option av_status (archive_of d' i) = (case archive_of d i of None \<Rightarrow> None
       | Some a \<Rightarrow> Some (if av_status a = ArchivePreparing then decided fs (av_archive_path a) else av_status a)))"
proof -
  have inv: "home_inv E H \<lparr>hm_db = d, hm_files = fs, hm_plan = None\<rparr>" by (rule reachable_home_inv [OF assms(1,2)])
  then have dist: "distinct (map av_archive_id (gateway_event_archives d))" by (simp add: home_inv_def keys_ok_def)
  let ?pre = "filter (\<lambda>a. av_status a = ArchivePreparing) (gateway_event_archives d)"
  let ?rows = "map (\<lambda>a. (av_archive_id a, av_archive_path a)) ?pre"
  have "map fst ?rows = map av_archive_id ?pre" by (simp add: comp_def)
  then have rows: "distinct (map fst ?rows)" using dist by (simp only: distinct_map_filter)
  have pend: "\<exists>a. archive_of d i = Some a \<and> av_status a = ArchivePreparing \<and> av_archive_path a = path"
    if "(i, path) \<in> set ?rows" for i path
    using that archive_of_iff [OF dist] by auto
  obtain fs' d' out where r: "recover_archives E H ?rows fs d ts = (fs', d', out)" by (cases "recover_archives E H ?rows fs d ts")
  note D = recover_archives_decides [OF inv assms(2,3) rows pend r]
  have "map_of ?rows i = (case archive_of d i of None \<Rightarrow> None
      | Some a \<Rightarrow> if av_status a = ArchivePreparing then Some (av_archive_path a) else None)" for i
  proof (cases "map_of ?rows i")
    case None
    then have "i \<notin> fst ` set ?rows" by (simp add: map_of_eq_None_iff)
    then have "\<not> (a \<in> set (gateway_event_archives d) \<and> av_archive_id a = i \<and> av_status a = ArchivePreparing)" for a by force
    then show ?thesis using None by (auto simp: archive_of_iff [OF dist] split: option.splits)
  next
    case (Some path)
    then show ?thesis using pend [OF map_of_SomeD [OF Some]] by auto
  qed
  then have "\<forall>i. map_option av_status (archive_of d' i) = (case archive_of d i of None \<Rightarrow> None
       | Some a \<Rightarrow> Some (if av_status a = ArchivePreparing then decided fs (av_archive_path a) else av_status a))"
    using D by (simp split: option.splits)
  moreover have "home_reachable E H \<lparr>hm_db = d', hm_files = fs, hm_plan = None\<rparr>"
    using assms(1) D unfolding home_reachable_def by (metis rtranclp_trans)
  moreover have "recover_preparing E H fs d ts = (fs, d', map (\<lambda>a. (av_archive_id a, decision fs (av_archive_path a))) ?pre)"
    using D r by (simp add: recover_preparing_def comp_def)
  ultimately show ?thesis by blast
qed

subsection \<open>The scheduled pass\<close>

lemma process_streams_history:
  assumes "[] \<notin> snd ` set streams" "process_streams E H dir cutoff n streams fs d ts = (fs', d', r)"
  shows "(home_step E H)\<^sup>*\<^sup>* \<lparr>hm_db = d, hm_files = fs, hm_plan = None\<rparr> \<lparr>hm_db = d', hm_files = fs', hm_plan = None\<rparr>"
  using assms
proof (induction streams arbitrary: fs d r)
  case (Cons st streams)
  obtain sid i where st: "st = (sid, i)" by (cases st)
  have i: "i \<noteq> []" "[] \<notin> snd ` set streams" using Cons.prems(1) st by auto
  show ?case
  proof (cases "\<exists>d1. prepare_eligible_stream E dir d sid cutoff n i ts = Inr (Some d1)")
    case False
    then show ?thesis using Cons.prems(2) Cons.IH [OF i(2)] by (auto simp: st split: sum.splits option.splits)
  next
    case True
    then obtain d1 where d1: "prepare_eligible_stream E dir d sid cutoff n i ts = Inr (Some d1)" by blast
    let ?s = "\<lparr>hm_db = d, hm_files = fs, hm_plan = None\<rparr>"
    have one: "home_step E H ?s \<lparr>hm_db = d1, hm_files = fs, hm_plan = None\<rparr>"
      using home_prepare_eligible [OF i(1), of E dir ?s sid cutoff n ts d1 H] d1 by simp
    obtain fs2 d2 r2 where w: "write_and_verify E H fs d1 i ts = (fs2, d2, r2)"
      by (cases "write_and_verify E H fs d1 i ts")
    have two: "(home_step E H)\<^sup>*\<^sup>* ?s \<lparr>hm_db = d2, hm_files = fs2, hm_plan = None\<rparr>"
      by (rule converse_rtranclp_into_rtranclp [OF one write_and_verify_history [OF w]])
    show ?thesis
    proof (cases r2)
      case (Inl e)
      then show ?thesis using Cons.prems(2) two by (simp add: st d1 w)
    next
      case (Inr u)
      obtain fs3 d3 r3 where p: "process_streams E H dir cutoff n streams fs2 d2 ts = (fs3, d3, r3)"
        by (cases "process_streams E H dir cutoff n streams fs2 d2 ts")
      then have "fs' = fs3" "d' = d3" using Cons.prems(2) Inr by (simp_all add: st d1 w)
      then show ?thesis using rtranclp_trans [OF two Cons.IH [OF i(2)]] p by simp
    qed
  qed
qed simp

text \<open>
  C31. A scheduled archive pass is a history wherever it stops: \<^verbatim>\<open>process_eligible\<close> leads from a reachable home to
  a reachable home, also when it raises in the middle, and every record that could be read before can be read
  after it.
\<close>

theorem process_eligible_is_history:
  assumes "home_reachable E H \<lparr>hm_db = d, hm_files = fs, hm_plan = None\<rparr>" "json_loads E = json_parse"
    and "[] \<notin> set archive_ids"
    and "process_eligible E H directory now retention_days segment_max archive_ids fs d = (fs', d', r)"
  shows "home_reachable E H \<lparr>hm_db = d', hm_files = fs', hm_plan = None\<rparr> \<and>
    (\<forall>i x. read_canonical E H fs d i = Inr x \<longrightarrow> read_canonical E H fs' d' i = Inr x)"
proof -
  have "[] \<notin> snd ` set (zip streams archive_ids)" for streams :: "string list"
    using assms(3) by (auto dest: set_zip_rightD)
  then have h: "(home_step E H)\<^sup>*\<^sup>* \<lparr>hm_db = d, hm_files = fs, hm_plan = None\<rparr> \<lparr>hm_db = d', hm_files = fs', hm_plan = None\<rparr>"
    using process_streams_history assms(4) unfolding process_eligible_def Let_def by blast
  then have "home_reachable E H \<lparr>hm_db = d', hm_files = fs', hm_plan = None\<rparr>"
    using assms(1) unfolding home_reachable_def by (metis rtranclp_trans)
  moreover have "read_canonical E H fs' d' i = Inr x" if "read_canonical E H fs d i = Inr x" for i x
    using history_keeps_records [OF assms(1,2) h] that by simp
  ultimately show ?thesis by blast
qed

end
