(* ===== verification/Stream_Readers.thy ===== *)
theory Stream_Readers
  imports Event_Archive Delivery_File
begin

section \<open>Readers of a stream\<close>

text \<open>
  \<^verbatim>\<open>ProjectionRebuilder.rebuild_jsonl\<close>: the JSONL file of a stream from its canonical records. The temporary file
  replaces the target in one step, so a failed read leaves the target as it is. What a consumer cursor promises.
\<close>

definition rebuild_jsonl ::
  "env \<Rightarrow> byte_hash \<Rightarrow> files \<Rightarrow> db \<Rightarrow> jsonl_sink \<Rightarrow> string \<Rightarrow> jsonl_sink result" where
  "rebuild_jsonl E H fs d js stream_id =
     rbind (read_stream E H fs d stream_id 0 None) (\<lambda>records.
     Inr (js\<lparr>js_files := AList.update stream_id (map ce_canonical_event_json records) (js_files js)\<rparr>))"

subsection \<open>Records of hot rows\<close>

lemma parsed_row_valid:
  assumes "json_loads E = json_parse" "event_row_ok E e" "unique_keys (JObj (ev_payload e))"
    and "ev_canonical_event_json e = Some (body e)" "ev_storage_tier e = Hot"
    and "parse_canonical_event E (body e) = Inr v" "sha256 E (body e) = ev_canonical_hash e"
  obtains r where "validate_row E e (body e) = Inr r"
proof -
  obtain st where st: "body e = canonical_json (event_json E st e)" "ev_stream_id e = st_run_id st"
    using assms(2,4,5) unfolding event_row_ok_def by auto
  have "event_stream v = Some (ev_stream_id e) \<or> ev_stream_id e = []" "en_event_id v = ev_event_id e"
    "event_sequence v = ev_stream_sequence e"
    using parsed_event_ids [OF assms(1,3) assms(6) [unfolded st(1)]] st(2)
    by (simp_all add: event_stream_def or_else_def event_sequence_def)
  moreover have "event_stream v = Some (ev_stream_id e)" if "ev_stream_id e = []"
    using parsed_event_ids [OF assms(1,3) assms(6) [unfolded st(1)]] st(2) that
    by (simp add: event_stream_def or_else_def)
  ultimately show thesis using that assms(6,7) by (auto simp: validate_row_def raise_if_def result_simps)
qed

lemma readable_row:
  assumes "json_loads E = json_parse" "hot_ok E d" "e \<in> set (gateway_events d)" "readable E e"
  obtains r where "read_row E H fs d e = Inr r" "ce_canonical_event_json r = body e"
    "ce_stream_sequence r = ev_stream_sequence e"
proof -
  have e: "event_row_ok E e" "unique_keys (JObj (ev_payload e))" "ev_canonical_event_json e = Some (body e)" "ev_storage_tier e = Hot"
    using assms(2,3) by (auto simp: hot_ok_def log_inv_def dicts_ok_def body_def)
  obtain v where v: "parse_canonical_event E (body e) = Inr v" "sha256 E (body e) = ev_canonical_hash e"
    using assms(4) by (auto simp: readable_def)
  obtain r where r: "validate_row E e (body e) = Inr r"
    by (rule parsed_row_valid [OF assms(1) e v])
  then have "ce_canonical_event_json r = body e" "ce_stream_sequence r = ev_stream_sequence e"
    by (auto simp: validate_row_def raise_if_def result_simps split: if_splits)
  then show thesis using that r e(3) by (simp add: read_row_def canonical_body_def result_simps)
qed

lemma read_rows_hot:
  assumes "json_loads E = json_parse" "hot_ok E d" "sorted_wrt seq_less es"
    and "\<And>e. e \<in> set es \<Longrightarrow> e \<in> set (gateway_events d) \<and> readable E e \<and> n < ev_stream_sequence e"
  shows "\<exists>rs. read_rows E H fs d n es = Inr rs \<and> map ce_canonical_event_json rs = map body es"
  using assms(3,4)
proof (induction es arbitrary: n)
  case (Cons e es)
  obtain r where r: "read_row E H fs d e = Inr r" "ce_canonical_event_json r = body e"
    "ce_stream_sequence r = ev_stream_sequence e"
    using readable_row [OF assms(1,2), of e] Cons.prems(2) by auto
  obtain rs where "read_rows E H fs d (ev_stream_sequence e) es = Inr rs" "map ce_canonical_event_json rs = map body es"
    using Cons.IH [of "ev_stream_sequence e"] Cons.prems by (auto simp: seq_less_def)
  then show ?case using r Cons.prems(2) [of e] by (simp add: result_simps)
qed simp

lemma positive_sequence: "log_inv E d \<Longrightarrow> e \<in> set (gateway_events d) \<Longrightarrow> 0 < ev_stream_sequence e"
  by (auto simp: log_inv_def Suc_le_eq)

lemma whole_stream:
  assumes "log_inv E d"
  shows "stream_rows d run 0 None = events_of d run"
proof -
  have seq: "map ev_stream_sequence (events_of d run) = [1..<last_sequence d run + 1]"
    using assms by (auto simp: log_inv_def gapless_def dest: spec [of _ run])
  then have "sorted (map ev_stream_sequence (events_of d run))" by (simp del: upt_Suc)
  moreover have "filter (\<lambda>e. ev_stream_id e = run \<and> 0 < ev_stream_sequence e) (gateway_events d) = events_of d run"
    unfolding events_of_def using positive_sequence [OF assms] by (intro filter_cong refl) auto
  ultimately show ?thesis by (simp add: stream_rows_def sort_key_id_if_sorted)
qed


subsection \<open>Cursors\<close>

definition cursor_key :: "cursor_row \<Rightarrow> string \<times> string" where
  "cursor_key c = (cu_consumer_id c, cu_stream_id c)"

lemma cursor_at_mem:
  assumes "distinct (map cursor_key (event_consumer_cursors d))"
  shows "cursor_at d i j = Some c \<longleftrightarrow> c \<in> set (event_consumer_cursors d) \<and> cursor_key c = (i, j)"
proof -
  have "find (\<lambda>c. cu_consumer_id c = i \<and> cu_stream_id c = j) cs = Some c \<longleftrightarrow> c \<in> set cs \<and> cursor_key c = (i, j)"
    if "distinct (map cursor_key cs)" for cs
    using that by (induction cs) (auto simp: cursor_key_def image_iff)
  then show ?thesis using assms by (simp add: cursor_at_def)
qed

text \<open>A cursor moves forward and its revision counts its moves; other cursors stay.\<close>

lemma advance_Inr:
  assumes "distinct (map cursor_key (event_consumer_cursors d))" "advance_in_transaction d c s n q ts = Inr (d', m)"
  shows "distinct (map cursor_key (event_consumer_cursors d'))" "m = n + 1"
    "cursor_at d' c s = Some \<lparr>cu_consumer_id = c, cu_stream_id = s, cu_last_sequence = q, cu_revision = m, cu_updated_at = ts\<rparr>"
    "(case cursor_at d c s of None \<Rightarrow> n = 0 | Some x \<Rightarrow> cu_revision x = n \<and> cu_last_sequence x \<le> q)"
    "(i, j) \<noteq> (c, s) \<Longrightarrow> cursor_at d' i j = cursor_at d i j"
proof -
  let ?cs = "event_consumer_cursors d"
  let ?new = "\<lparr>cu_consumer_id = c, cu_stream_id = s, cu_last_sequence = q, cu_revision = n + 1, cu_updated_at = ts\<rparr>"
  have "event_consumer_cursors d' = (if cursor_at d c s = None then ?cs @ [?new]
      else map (\<lambda>x. if cursor_key x = (c, s) then ?new else x) ?cs) \<and> m = n + 1 \<and>
    (case cursor_at d c s of None \<Rightarrow> n = 0 | Some x \<Rightarrow> cu_revision x = n \<and> cu_last_sequence x \<le> q)"
  proof (cases "cursor_at d c s")
    case None
    then show ?thesis using assms(2) by (auto simp: advance_in_transaction_def split: if_splits)
  next
    case (Some x)
    have x: "x \<in> set ?cs" "cursor_key x = (c, s)" using Some cursor_at_mem [OF assms(1)] by auto
    have rev: "cu_revision x = n" "cu_last_sequence x \<le> q"
      using assms(2) Some by (auto simp: advance_in_transaction_def split: if_splits)
    have eq: "cu_consumer_id y = c \<and> cu_stream_id y = s \<and> cu_revision y = n \<longleftrightarrow> cursor_key y = (c, s)" if "y \<in> set ?cs" for y
      using that x rev distinct_map [of cursor_key ?cs] assms(1) by (auto simp: cursor_key_def inj_on_def)
    have "(if cu_consumer_id y = c \<and> cu_stream_id y = s \<and> cu_revision y = n
        then y\<lparr>cu_last_sequence := q, cu_revision := cu_revision y + 1, cu_updated_at := ts\<rparr> else y)
      = (if cursor_key y = (c, s) then ?new else y)" if "y \<in> set ?cs" for y
      using eq [OF that] by (cases y) (auto simp: cursor_key_def)
    then have "update_rows (\<lambda>x. cu_consumer_id x = c \<and> cu_stream_id x = s \<and> cu_revision x = n)
        (\<lambda>x. x\<lparr>cu_last_sequence := q, cu_revision := cu_revision x + 1, cu_updated_at := ts\<rparr>) ?cs
      = map (\<lambda>x. if cursor_key x = (c, s) then ?new else x) ?cs"
      unfolding update_rows_def by (rule map_cong [OF refl])
    then show ?thesis using assms(2) Some rev by (auto simp: advance_in_transaction_def Let_def split: if_splits)
  qed
  then have new: "event_consumer_cursors d' = (if cursor_at d c s = None then ?cs @ [?new]
      else map (\<lambda>x. if cursor_key x = (c, s) then ?new else x) ?cs)"
    and rest: "m = n + 1" "case cursor_at d c s of None \<Rightarrow> n = 0 | Some x \<Rightarrow> cu_revision x = n \<and> cu_last_sequence x \<le> q"
    by blast+
  have key: "cursor_key ?new = (c, s)" by (simp add: cursor_key_def)
  have "map cursor_key (map (\<lambda>x. if cursor_key x = (c, s) then ?new else x) ?cs) = map cursor_key ?cs"
    using key by auto
  moreover have "(c, s) \<notin> cursor_key ` set ?cs" if "cursor_at d c s = None"
    using that cursor_at_mem [OF assms(1), of c s] by force
  ultimately show dist: "distinct (map cursor_key (event_consumer_cursors d'))"
    unfolding new using assms(1) key by (simp del: map_map)
  show "m = n + 1" "case cursor_at d c s of None \<Rightarrow> n = 0 | Some x \<Rightarrow> cu_revision x = n \<and> cu_last_sequence x \<le> q"
    using rest by simp_all
  have "?new \<in> set (event_consumer_cursors d')"
    unfolding new using cursor_at_mem [OF assms(1), of c s] by (cases "cursor_at d c s") (auto intro: rev_image_eqI)
  then show "cursor_at d' c s = Some \<lparr>cu_consumer_id = c, cu_stream_id = s, cu_last_sequence = q, cu_revision = m, cu_updated_at = ts\<rparr>"
    using cursor_at_mem [OF dist] key rest(1) by simp
  show "cursor_at d' i j = cursor_at d i j" if "(i, j) \<noteq> (c, s)"
  proof -
    have "x \<in> set (event_consumer_cursors d') \<and> cursor_key x = (i, j) \<longleftrightarrow> x \<in> set ?cs \<and> cursor_key x = (i, j)" for x
      unfolding new using that key by auto
    then have "cursor_at d' i j = Some x \<longleftrightarrow> cursor_at d i j = Some x" for x
      by (simp only: cursor_at_mem [OF assms(1)] cursor_at_mem [OF dist])
    then show ?thesis by (metis option.exhaust)
  qed
qed

end
