(* ===== verification/Archive_Witness.thy ===== *)
theory Archive_Witness
  imports Archive_Runs Stream_Readers Delivery_Witness
begin

section \<open>An archived run\<close>

text \<open>
  A home with the JSONL sink: a run is created, its event is frozen in an archive, the file is written, verified
  and the body released. The hypotheses of the archive laws hold along this history. The hash on bytes is the
  hash of the environment on the text the bytes decode to.
\<close>

definition archive_hash :: byte_hash where
  "archive_hash b = sha256 delivery_env (the (utf8_decode b))"

lemma archive_hash_text: "sha256 delivery_env = (\<lambda>t. archive_hash (utf8 t))"
  by (rule ext) (simp add: archive_hash_def utf8_round_trip)

lemma first_home:
  obtains s a i r where "home_reachable delivery_env archive_hash s" "hm_plan s = None"
    "archive_of (hm_db s) ''x1'' = Some a" "av_status a = ArchivePreparing"
    "read_canonical delivery_env archive_hash (hm_files s) (hm_db s) i = Inr r"
    "hm_files s = []"
proof (rule run_with_sink)
  fix d e
  assume d: "create_run delivery_controller None (sink_db [jsonl_row]) sample_request (sample_call 1)
      = Inr (d, first_state, False)" "gateway_events d = [e]" "ev_stream_id e = ''r1''" "ev_stream_sequence e = 1"
    "\<exists>v. parse_canonical_event delivery_env (body e) = Inr v" "ev_canonical_event_json e = Some (body e)"
    "sha256 delivery_env (body e) = ev_canonical_hash e" "unique_keys (JObj (ev_payload e))"
  let ?s0 = "initial_home [jsonl_row] []"
  let ?s1 = "?s0\<lparr>hm_db := d\<rparr>"
  have db: "hm_db ?s0 = sink_db [jsonl_row]" by (simp add: initial_home_def sink_db_def empty_db_def)
  have st: "step delivery_env (hm_db ?s0) d" unfolding db by (rule step_create_run [OF _ d(1)]) simp
  have 1: "home_step delivery_env archive_hash ?s0 ?s1" by (rule home_control [OF st])
  have no_events: "gateway_events (hm_db ?s0) = []" "gateway_event_archives (hm_db ?s0) = []"
    "gateway_event_archive_members (hm_db ?s0) = []" by (simp_all add: initial_home_def empty_db_def)
  have "appends delivery_env (hm_db ?s0) d"
    using step_log [OF st] d(2) no_events by (auto simp: same_log_def)
  then obtain e' now where "log_appended delivery_env (hm_db ?s0) e' now d" "event_row_ok delivery_env e'"
    "ev_storage_tier e' = Hot" "ev_archive_id e' = None" by (auto simp: appends_def)
  then have e: "event_row_ok delivery_env e" "ev_storage_tier e = Hot" "ev_archive_id e = None"
    "gateway_event_archives d = []" "gateway_event_archive_members d = []"
    using d(2) no_events by (auto simp: log_appended_def)
  obtain v where v: "parse_canonical_event delivery_env (body e) = Inr v" using d(5) by blast
  obtain r where r: "validate_row delivery_env e (body e) = Inr r"
    by (rule parsed_row_valid [OF delivery_fields(4) e(1) d(8,6) e(2) v d(7)])
  let ?e = "e\<lparr>ev_archive_id := Some ''x1'', ev_row_revision := ev_row_revision e + 1\<rparr>"
  obtain d' a where p: "prepare delivery_env ''dir'' d ''r1'' [ev_event_id e] ''x1'' 2 = Inr d'"
    "gateway_event_archives d' = [a]" "av_archive_id a = ''x1''" "av_status a = ArchivePreparing" "gateway_events d' = [?e]"
    using d(3,4) e by (simp add: prepare_def Let_def d(2) insert_preparing_def count_rows_def update_rows_def)
  let ?s2 = "?s1\<lparr>hm_db := d'\<rparr>"
  have 2: "home_step delivery_env archive_hash ?s1 ?s2"
    by (rule home_prepare [where archive_id = "''x1''" and directory = "''dir''" and stream_id = "''r1''"
          and event_ids = "[ev_event_id e]" and ts = 2]) (simp_all add: p(1))
  have "home_reachable delivery_env archive_hash ?s2"
    unfolding home_reachable_def using 1 2 by (meson converse_rtranclp_into_rtranclp r_into_rtranclp)
  moreover have "validate_row delivery_env ?e (body e) = Inr r"
    using r validate_row_cong [of ?e e delivery_env "body e"] by simp
  then have "read_canonical delivery_env archive_hash (hm_files ?s2) (hm_db ?s2) (ev_event_id e) = Inr r"
    using d(6) by (simp add: read_canonical_def read_row_def canonical_body_def lookup_row_def p(5) result_simps)
  ultimately show thesis
    using p by (intro that [of ?s2 a "ev_event_id e" r]) (simp_all add: initial_home_def archive_of_def lookup_row_def)
qed

theorem archive_completes_witness:
  "\<exists>s fs' d' a'. home_reachable delivery_env archive_hash s \<and> hm_files s = [] \<and>
     write_and_verify delivery_env archive_hash (hm_files s) (hm_db s) ''x1'' 3 = (fs', d', Inr ()) \<and>
     archive_of d' ''x1'' = Some a' \<and> av_status a' = ArchiveVerified"
proof (rule first_home)
  fix s a
  assume s: "home_reachable delivery_env archive_hash s" "archive_of (hm_db s) ''x1'' = Some a"
    "av_status a = ArchivePreparing" "hm_files s = []"
  show ?thesis
    using archive_completes [OF s(1) delivery_fields(4) archive_hash_text s(2,3), of 3] s(1,4)
    by (intro exI [of _ s]) auto
qed

text \<open>The record of the first event before its body is released and after it.\<close>

theorem archiving_keeps_history_witness:
  "\<exists>s (s'::home) i r. home_reachable delivery_env archive_hash s \<and> hm_files s = [] \<and> hm_files s' \<noteq> [] \<and>
     read_canonical delivery_env archive_hash (hm_files s) (hm_db s) i = Inr r \<and>
     read_canonical delivery_env archive_hash (hm_files s') (hm_db s') i = Inr r"
proof (rule first_home)
  fix s a i r
  assume s: "home_reachable delivery_env archive_hash s" "hm_plan s = None"
    "archive_of (hm_db s) ''x1'' = Some a" "av_status a = ArchivePreparing"
    "read_canonical delivery_env archive_hash (hm_files s) (hm_db s) i = Inr r" "hm_files s = []"
  have inv: "home_inv delivery_env archive_hash s" by (rule reachable_home_inv [OF s(1) delivery_fields(4)])
  have hash: "sha256 delivery_env t = archive_hash (utf8 t)" for t by (simp add: archive_hash_text)
  obtain p d' where p: "start_archive delivery_env archive_hash (hm_db s) ''x1'' = Inr (Some p)"
    "verify_file delivery_env archive_hash (write_archive_file (hm_files s) p) p = Inr ()"
    "complete_archive (hm_db s) p 3 = Inr d'"
    using archive_completes_facts [OF inv delivery_fields(4) hash s(3,4)] by blast
  let ?s' = "\<lparr>hm_db = d', hm_files = write_archive_file (hm_files s) p, hm_plan = None\<rparr>"
  have "s = \<lparr>hm_db = hm_db s, hm_files = hm_files s, hm_plan = None\<rparr>" using s(2) by simp
  then have "(home_step delivery_env archive_hash)\<^sup>*\<^sup>* s ?s'" using write_and_verify_steps [OF p] by simp
  then have "read_canonical delivery_env archive_hash (hm_files ?s') (hm_db ?s') i = Inr r"
    by (rule archiving_keeps_history [OF s(1) delivery_fields(4) _ s(5)])
  moreover have "hm_files ?s' \<noteq> []" by (simp add: write_archive_file_def s(6))
  ultimately show ?thesis using s
    by - (rule exI [of _ s], rule exI [of _ ?s'], rule exI [of _ i], rule exI [of _ r], intro conjI)
qed

text \<open>The same home at a restart: its archive has no file, so the recovery fails it.\<close>

theorem recovery_decides_every_archive_witness:
  "\<exists>d d'. home_reachable delivery_env archive_hash \<lparr>hm_db = d, hm_files = [], hm_plan = None\<rparr> \<and>
     recover_preparing delivery_env archive_hash [] d 4 = ([], d', map (\<lambda>a. (av_archive_id a, decision [] (av_archive_path a)))
       (filter (\<lambda>a. av_status a = ArchivePreparing) (gateway_event_archives d))) \<and>
     map_option av_status (archive_of d' ''x1'') = Some ArchiveFailed"
proof (rule first_home)
  fix s a
  assume s: "home_reachable delivery_env archive_hash s" "hm_plan s = None"
    "archive_of (hm_db s) ''x1'' = Some a" "av_status a = ArchivePreparing" "hm_files s = []"
  have "s = \<lparr>hm_db = hm_db s, hm_files = [], hm_plan = None\<rparr>" using s(2,5) by simp
  then have r: "home_reachable delivery_env archive_hash \<lparr>hm_db = hm_db s, hm_files = [], hm_plan = None\<rparr>"
    using s(1) by simp
  obtain d' where "recover_preparing delivery_env archive_hash [] (hm_db s) 4 = ([], d',
      map (\<lambda>a. (av_archive_id a, decision [] (av_archive_path a)))
       (filter (\<lambda>a. av_status a = ArchivePreparing) (gateway_event_archives (hm_db s))))"
    "\<forall>i. map_option av_status (archive_of d' i) = (case archive_of (hm_db s) i of None \<Rightarrow> None
       | Some a \<Rightarrow> Some (if av_status a = ArchivePreparing then decided [] (av_archive_path a) else av_status a))"
    using recovery_decides_every_archive [OF r delivery_fields(4) archive_hash_text, of 4] by blast
  then show ?thesis using r s(3,4) by (intro exI [of _ "hm_db s"] exI [of _ d']) (simp add: decided_def)
qed

theorem process_eligible_is_history_witness:
  "\<exists>s fs' d' r. home_reachable delivery_env archive_hash s \<and>
     process_eligible delivery_env archive_hash ''dir'' 99 0 10 [''x2''] (hm_files s) (hm_db s) = (fs', d', r) \<and>
     home_reachable delivery_env archive_hash \<lparr>hm_db = d', hm_files = fs', hm_plan = None\<rparr>"
proof (rule first_home)
  fix s a
  assume s: "home_reachable delivery_env archive_hash s" "hm_plan s = None"
  obtain fs' d' r where p: "process_eligible delivery_env archive_hash ''dir'' 99 0 10 [''x2''] (hm_files s) (hm_db s) = (fs', d', r)"
    by (cases "process_eligible delivery_env archive_hash ''dir'' 99 0 10 [''x2''] (hm_files s) (hm_db s)")
  have "s = \<lparr>hm_db = hm_db s, hm_files = hm_files s, hm_plan = None\<rparr>" using s(2) by simp
  then have "home_reachable delivery_env archive_hash \<lparr>hm_db = hm_db s, hm_files = hm_files s, hm_plan = None\<rparr>"
    using s(1) by simp
  then have "home_reachable delivery_env archive_hash \<lparr>hm_db = d', hm_files = fs', hm_plan = None\<rparr>"
    using process_eligible_is_history [OF _ delivery_fields(4) _ p] by simp
  then show ?thesis using s(1) p by blast
qed


end
