(* ===== verification/Attempt_Lifecycle.thy ===== *)
theory Attempt_Lifecycle
  imports Controller_Runs
begin

section \<open>The lifecycle of an attempt\<close>

text \<open>
  The statuses of an attempt are ordered by what may follow: a prepared attempt may become anything, a running
  one never becomes prepared or skipped, an unknown one is only determined, a determined one stays. Every step
  of the control plane moves every attempt along this order. \<open>status_of\<close> reads the status column.
\<close>

fun attempt_after :: "OperationStatus \<Rightarrow> OperationStatus list" where
  "attempt_after OperationStatus.PREPARED = [OperationStatus.PREPARED, OperationStatus.RUNNING,
     OperationStatus.COMPLETED, OperationStatus.FAILED, OperationStatus.SKIPPED, OperationStatus.UNKNOWN,
     OperationStatus.ABANDONED]"
| "attempt_after OperationStatus.RUNNING = [OperationStatus.RUNNING, OperationStatus.COMPLETED,
     OperationStatus.FAILED, OperationStatus.UNKNOWN, OperationStatus.ABANDONED]"
| "attempt_after OperationStatus.UNKNOWN = [OperationStatus.UNKNOWN, OperationStatus.COMPLETED,
     OperationStatus.FAILED]"
| "attempt_after s = [s]"

definition attempt_le :: "OperationStatus \<Rightarrow> OperationStatus \<Rightarrow> bool" where
  "attempt_le s t \<longleftrightarrow> t \<in> set (attempt_after s)"

lemma attempt_le_refl [simp]: "attempt_le s s"
  by (cases s) (simp_all add: attempt_le_def)

lemma attempt_le_trans: "attempt_le r s \<Longrightarrow> attempt_le s t \<Longrightarrow> attempt_le r t"
  by (cases r; cases s) (auto simp: attempt_le_def)

definition status_of :: "db \<Rightarrow> string \<Rightarrow> OperationStatus option" where
  "status_of d i = map_option ar_status (lookup_row ar_attempt_id i (operation_attempts d))"

definition row_le :: "attempt_row \<Rightarrow> attempt_row \<Rightarrow> bool" where
  "row_le x y \<longleftrightarrow> attempt_le (ar_status x) (ar_status y) \<and> ar_attempt_id y = ar_attempt_id x \<and>
     ar_operation_id y = ar_operation_id x \<and> ar_run_id y = ar_run_id x \<and> ar_attempt_no y = ar_attempt_no x"

definition advances :: "db \<Rightarrow> db \<Rightarrow> bool" where
  "advances d d' \<longleftrightarrow> (\<forall>i x. lookup_row ar_attempt_id i (operation_attempts d) = Some x \<longrightarrow>
     (\<exists>y. lookup_row ar_attempt_id i (operation_attempts d') = Some y \<and> row_le x y))"

definition may_save :: "db \<Rightarrow> OperationAttempt \<Rightarrow> bool" where
  "may_save d a \<longleftrightarrow> (\<forall>s. status_of d (at_attempt_id a) = Some s \<longrightarrow> attempt_le s (at_status a))"

lemma row_le_refl [simp]: "row_le x x"
  by (simp add: row_le_def)

lemma advances_refl [simp]: "advances d d"
  by (simp add: advances_def)

lemma row_le_trans: "row_le x y \<Longrightarrow> row_le y z \<Longrightarrow> row_le x z"
  using attempt_le_trans by (auto simp: row_le_def)

lemma advances_trans: "advances d d1 \<Longrightarrow> advances d1 d2 \<Longrightarrow> advances d d2"
  unfolding advances_def by (meson row_le_trans)

lemma advances_status: "advances d d' \<Longrightarrow> status_of d i = Some s \<Longrightarrow> \<exists>t. status_of d' i = Some t \<and> attempt_le s t"
  by (fastforce simp: advances_def status_of_def row_le_def)

lemma status_of_same: "operation_attempts d' = operation_attempts d \<Longrightarrow> status_of d' = status_of d"
  by (simp add: status_of_def fun_eq_iff)

lemma advances_same: "operation_attempts d' = operation_attempts d \<Longrightarrow> advances d d'"
  by (simp add: advances_def)

lemma same_ledger_advances: "same_ledger d d' \<Longrightarrow> advances d d'"
  by (simp add: same_ledger_def advances_same)

lemma may_save_same: "operation_attempts d' = operation_attempts d \<Longrightarrow> may_save d' a \<longleftrightarrow> may_save d a"
  by (simp add: may_save_def status_of_def)

lemma save_attempt_status:
  assumes "save_attempt d a = Inr d'"
  shows "status_of d' i = (if i = at_attempt_id a then Some (at_status a) else status_of d i)"
proof (cases "lookup_row ar_attempt_id (at_attempt_id a) (operation_attempts d)")
  case None
  then have "operation_attempts d' = operation_attempts d @ [attempt_row_of a]"
    using save_attempt_tables(2) [OF assms] by simp
  moreover have "i = at_attempt_id a \<Longrightarrow> lookup_row ar_attempt_id i (operation_attempts d) = None" using None by simp
  ultimately show ?thesis
    by (auto simp: status_of_def lookup_row_append attempt_row_of_def split: option.splits)
next
  case (Some x)
  then have t: "operation_attempts d' = upsert_row ar_attempt_id merge_attempt_row (attempt_row_of a) (operation_attempts d)"
    using save_attempt_tables(3) [OF assms] by blast
  have id: "ar_attempt_id (attempt_row_of a) = at_attempt_id a" by (simp add: attempt_row_of_def)
  show ?thesis
  proof (cases "i = at_attempt_id a")
    case True
    then show ?thesis
      using attempts.lookup_upsert_same [of "attempt_row_of a" "operation_attempts d"] Some
      by (simp add: status_of_def t id merge_attempt_row_def attempt_row_of_def)
  next
    case False
    then show ?thesis
      using attempts.lookup_upsert_other [of i "attempt_row_of a" "operation_attempts d"]
      by (simp add: status_of_def t id)
  qed
qed

lemma save_attempt_advances: "save_attempt d a = Inr d' \<Longrightarrow> may_save d a \<Longrightarrow> advances d d'"
  unfolding advances_def
proof (intro allI impI)
  fix i x
  assume sv: "save_attempt d a = Inr d'" and m: "may_save d a"
    and l: "lookup_row ar_attempt_id i (operation_attempts d) = Some x"
  have id: "ar_attempt_id (attempt_row_of a) = at_attempt_id a" by (simp add: attempt_row_of_def)
  show "\<exists>y. lookup_row ar_attempt_id i (operation_attempts d') = Some y \<and> row_le x y"
  proof (cases "at_attempt_id a = i")
    case True
    then have "lookup_row ar_attempt_id i (operation_attempts d') = Some (merge_attempt_row x (attempt_row_of a))"
      using save_attempt_tables(3) [OF sv, of x] l
        attempts.lookup_upsert_same [of "attempt_row_of a" "operation_attempts d"] by simp
    moreover have "attempt_le (ar_status x) (at_status a)" using m l True by (simp add: may_save_def status_of_def)
    ultimately show ?thesis by (simp add: row_le_def merge_attempt_row_def)
  next
    case False
    then show ?thesis
      using save_attempt_tables(2,3) [OF sv] l
        attempts.lookup_upsert_other [of i "attempt_row_of a" "operation_attempts d"]
      by (cases "lookup_row ar_attempt_id (at_attempt_id a) (operation_attempts d)")
         (auto simp: lookup_row_append)
  qed
qed

lemma saved_may_save: "save_attempt d a = Inr d' \<Longrightarrow> may_save d' a"
  by (simp add: may_save_def save_attempt_status)

subsection \<open>Updates\<close>

definition moves :: "OperationStatus list \<Rightarrow> (OperationAttempt \<Rightarrow> OperationAttempt) \<Rightarrow> bool" where
  "moves ss u \<longleftrightarrow> (\<forall>a. at_attempt_id (u a) = at_attempt_id a \<and>
     (at_status a \<in> set ss \<longrightarrow> attempt_le (at_status a) (at_status (u a))))"

lemma stored_status:
  assumes "ledger_ok d" "x \<in> set (operation_attempts d)"
  shows "status_of d (at_attempt_id (ar_document x)) = Some (at_status (ar_document x))"
proof -
  have inv: "ledger_inv (operation_ledger d) (operation_attempts d)" using assms(1) by (simp add: ledger_ok_def)
  have "lookup_row ar_attempt_id (ar_attempt_id x) (operation_attempts d) = Some x"
    using lookup_row_distinct [OF _ assms(2)] inv by (metis ledger_inv_def)
  moreover have "ar_attempt_id x = at_attempt_id (ar_document x)" "ar_status x = at_status (ar_document x)"
    using attempt_row_ok(2) [OF inv assms(2)] arg_cong [OF attempt_row_ok(1) [OF inv assms(2)], of ar_status]
    by (simp_all add: attempt_row_of_def)
  ultimately show ?thesis by (simp add: status_of_def)
qed

lemma update_may_save:
  assumes "update_attempt d st i ts ss u = Inr (op, a)" "ledger_ok d" "moves ss u"
  shows "may_save d a"
proof -
  obtain a0 where a0: "attempt_in d i = Inr a0" "at_status a0 \<in> set ss" "a = (u a0)\<lparr>at_updated_at := ts\<rparr>"
    using assms(1) by (auto simp: update_attempt_def Let_def result_simps split: if_splits)
  obtain x where "x \<in> set (operation_attempts d)" "ar_document x = a0" using attempt_in_row [OF a0(1)] by blast
  then have "status_of d (at_attempt_id a0) = Some (at_status a0)" using stored_status [OF assms(2)] by blast
  then show ?thesis using assms(3) a0(2,3) by (simp add: moves_def may_save_def)
qed

lemma current_may_save:
  assumes "ledger_ok d" "current_attempt_in d i = Inr a"
  shows "may_save d a"
  using current_attempt_row [OF assms(2)] stored_status [OF assms(1)] by (auto simp: may_save_def)

lemma updates_move [simp]:
  "moves [OperationStatus.PREPARED] (start_updates ts e)"
  "moves [OperationStatus.RUNNING, OperationStatus.UNKNOWN] (complete_updates ts r h s)"
  "moves [OperationStatus.PREPARED, OperationStatus.RUNNING] (fail_updates ts kd r)"
  "moves [OperationStatus.RUNNING] (unknown_updates r)"
  "moves [OperationStatus.PREPARED] (skip_updates ts r)"
  "moves [OperationStatus.PREPARED, OperationStatus.RUNNING] (abandon_updates ts r)"
  "moves [OperationStatus.RUNNING] (heartbeat_updates b e')"
  by (auto simp: moves_def attempt_le_def start_updates_def complete_updates_def
      fail_updates_def unknown_updates_def skip_updates_def abandon_updates_def heartbeat_updates_def)

text \<open>What a branch leaves to the commit: the saved attempts have advanced, and so does the one it returns.\<close>

definition outcome_advances :: "db \<Rightarrow> outcome \<Rightarrow> bool" where
  "outcome_advances d oc \<longleftrightarrow> advances d (oc_db oc) \<and> (\<forall>a. oc_attempt oc = Some a \<longrightarrow> may_save (oc_db oc) a)"

lemma outcome_none: "same_ledger d (oc_db oc) \<Longrightarrow> oc_attempt oc = None \<Longrightarrow> outcome_advances d oc"
  by (simp add: outcome_advances_def same_ledger_advances)

lemma outcome_update:
  assumes "update_attempt d st i ts ss u = Inr (op, a)" "ledger_ok d" "moves ss u" "same_ledger d (oc_db oc)"
    and "oc_attempt oc = Some a"
  shows "outcome_advances d oc"
  using update_may_save [OF assms(1-3)] assms(4,5) may_save_same [of "oc_db oc" d a]
  by (auto simp: outcome_advances_def same_ledger_advances same_ledger_def)

lemma attempt_command_advances:
  "attempt_command d st i ts ss u ch = Inr oc \<Longrightarrow> ledger_ok d \<Longrightarrow> moves ss u \<Longrightarrow> outcome_advances d oc"
  by (auto simp: branch_simps intro: outcome_update)

subsection \<open>Branches\<close>

lemma state_branch_advances:
  "adopt_gateway_epoch C d st e ts = Inr oc \<Longrightarrow> outcome_advances d oc"
  "transition_command d st tc ts = Inr oc \<Longrightarrow> outcome_advances d oc"
  "update_state_metadata d st um = Inr oc \<Longrightarrow> outcome_advances d oc"
  "record_runtime_event d st b ts = Inr oc \<Longrightarrow> outcome_advances d oc"
  "bind_session d st s = Inr oc \<Longrightarrow> outcome_advances d oc"
  "upgrade_persistence_contract d st = Inr oc \<Longrightarrow> outcome_advances d oc"
  "request_cancellation d st r = Inr oc \<Longrightarrow> outcome_advances d oc"
  "finalize_terminal E d st g r ts = Inr oc \<Longrightarrow> outcome_advances d oc"
  "create_safe_checkpoint d st cp = Inr oc \<Longrightarrow> outcome_advances d oc"
  by (auto simp: adopt_gateway_epoch_def transition_command_def update_state_metadata_def
      record_runtime_event_def bind_session_def upgrade_persistence_contract_def
      request_cancellation_def finalize_terminal_def create_safe_checkpoint_def result_simps
      intro!: outcome_none split: if_splits option.splits)

lemma finalize_branch_advances:
  "start_replacement_finalize_generation d st g i ts = Inr oc \<Longrightarrow> outcome_advances d oc"
  "start_finalize_generation d st g sp ts = Inr oc \<Longrightarrow> outcome_advances d oc"
  "create_approval d st ap ts = Inr oc \<Longrightarrow> outcome_advances d oc"
  by (auto simp: start_replacement_finalize_generation_def start_finalize_generation_def create_approval_def result_simps
      intro!: outcome_none dest: insert_same_ledger split: if_splits option.splits)

lemma invalidate_advances:
  "invalidate_finalize_generation d st cid g r ts = Inr oc \<Longrightarrow> outcome_advances d oc"
  by (auto simp: invalidate_finalize_generation_def same_ledger_def intro!: outcome_none split: if_splits)

lemma attempt_branch_advances:
  assumes "ledger_ok d"
  shows "start_attempt_command d st i e ts = Inr oc \<Longrightarrow> outcome_advances d oc"
    "fail_attempt_command d st i kd r ts = Inr oc \<Longrightarrow> outcome_advances d oc"
    "mark_attempt_unknown_command d st i r ts = Inr oc \<Longrightarrow> outcome_advances d oc"
    "skip_attempt_command d st i r ts = Inr oc \<Longrightarrow> outcome_advances d oc"
    "abandon_attempt_command d st i r ts = Inr oc \<Longrightarrow> outcome_advances d oc"
    "heartbeat_attempt_command d st i b e' ts = Inr oc \<Longrightarrow> outcome_advances d oc"
    "complete_attempt_command E d st i r h s ts = Inr oc \<Longrightarrow> outcome_advances d oc"
    "start_operation_command d st i e ts = Inr oc \<Longrightarrow> outcome_advances d oc"
    "complete_operation_command d st i r h s ts = Inr oc \<Longrightarrow> outcome_advances d oc"
    "fail_operation_command d st i r kd ts = Inr oc \<Longrightarrow> outcome_advances d oc"
    "mark_operation_unknown_command d st i r ts = Inr oc \<Longrightarrow> outcome_advances d oc"
    "heartbeat_operation_command d st i b e' ts = Inr oc \<Longrightarrow> outcome_advances d oc"
    "abandon_operation_command d st i r ts = Inr oc \<Longrightarrow> outcome_advances d oc"
  using assms
  by (auto simp: attempt_branch_defs complete_attempt_command_def abandon_operation_command_def result_simps
      intro: attempt_command_advances split: if_splits)

lemma reconcile_attempt_moves:
  "reconcile_attempt E d st i rr ts = Inr (op, a) \<Longrightarrow>
     \<exists>ss u. update_attempt d st i ts ss u = Inr (op, a) \<and> moves ss u"
  by (cases "rr_status rr"; auto simp: reconcile_attempt_def Let_def rbind_eq_Inr split: if_splits;
      intro exI conjI, assumption, simp add: moves_def attempt_le_def reconcile_common_def)

lemma reconcile_branch_advances:
  assumes "ledger_ok d"
  shows "reconcile_attempt_command E d st i rr ts = Inr oc \<Longrightarrow> outcome_advances d oc"
    "reconcile_operation_command E d st i rr ts = Inr oc \<Longrightarrow> outcome_advances d oc"
  using assms
  by (auto simp: reconcile_attempt_command_def reconcile_operation_command_def result_simps
      dest!: reconcile_attempt_moves intro: outcome_update)

lemma approval_branch_advances:
  assumes "ledger_ok d"
  shows "decide_approval d st i b w r ts = Inr oc \<Longrightarrow> outcome_advances d oc"
    "expire_approval d st i ts = Inr oc \<Longrightarrow> outcome_advances d oc"
  using assms
  by (auto simp: decide_approval_def expire_approval_def Let_def result_simps
      intro: outcome_none outcome_update split: if_splits)

lemmas branch_advances =
  state_branch_advances finalize_branch_advances invalidate_advances attempt_branch_advances
  reconcile_branch_advances approval_branch_advances

lemma fresh_may_save: "at_attempt_id a \<notin> ar_attempt_id ` set (operation_attempts d) \<Longrightarrow> may_save d a"
  by (simp add: may_save_def status_of_def lookup_row_None_iff [THEN iffD2])

lemma create_operation_advances:
  assumes "ledger_ok d" "create_operation_command d st c ts = Inr oc"
    and "list_ex (\<lambda>r. or_run_id r = st_run_id st \<and> or_kind r = co_kind c
                    \<and> or_stable_key r = co_stable_key c) (operation_ledger d) \<or>
      co_attempt_id c \<notin> ar_attempt_id ` set (operation_attempts d)"
  shows "outcome_advances d oc"
proof -
  obtain op a where p: "create_operation_with_attempt d st c ts = Inr (op, a)"
    and oc: "oc_db oc = d" "oc_attempt oc = Some a"
    using assms(2) by (auto simp: create_operation_command_def result_simps)
  have "may_save d a"
  proof (cases "find (\<lambda>r. or_run_id r = st_run_id st \<and> or_kind r = co_kind c
        \<and> or_stable_key r = co_stable_key c) (operation_ledger d)")
    case (Some r)
    then have "current_attempt_in d (op_operation_id (or_record r)) = Inr a"
      using p by (auto simp: create_operation_with_attempt_def Let_def result_simps split: if_splits)
    then show ?thesis by (rule current_may_save [OF assms(1)])
  next
    case None
    then have "at_attempt_id a = co_attempt_id c"
      using p by (auto simp: create_operation_with_attempt_def Let_def result_simps new_attempt_def)
    moreover have "\<not> list_ex (\<lambda>r. or_run_id r = st_run_id st \<and> or_kind r = co_kind c
                    \<and> or_stable_key r = co_stable_key c) (operation_ledger d)"
      using None by (simp add: find_None_iff list_ex_iff)
    ultimately show ?thesis using assms(3) fresh_may_save by simp
  qed
  then show ?thesis using oc by (simp add: outcome_advances_def)
qed

lemma begun_attempt_id: "begin_operation_attempt d st c ts = Inr (op, a) \<Longrightarrow> at_attempt_id a = ba_attempt_id c"
  by (auto simp: begin_operation_attempt_def Let_def result_simps new_attempt_def split: if_splits)

lemma begin_attempt_advances:
  assumes "begin_attempt_command d st c ts = Inr oc" "ba_attempt_id c \<notin> ar_attempt_id ` set (operation_attempts d)"
  shows "outcome_advances d oc"
  using assms begun_attempt_id fresh_may_save
  by (auto simp: begin_attempt_command_def result_simps outcome_advances_def)

lemma begin_operation_advances:
  assumes ok: "ledger_ok d" and c: "begin_operation_command d st c ts = Inr oc"
    and fresh: "bo_operation_id c \<in> or_operation_id ` set (operation_ledger d) \<or>
      ''attempt:'' @ bo_operation_id c @ '':1'' \<notin> ar_attempt_id ` set (operation_attempts d)"
  shows "outcome_advances d oc"
proof -
  obtain op a where b: "begin_operation d st c ts = Inr (oc_db oc, op)"
    and cur: "current_attempt_in (oc_db oc) (op_operation_id op) = Inr a" and oc: "oc_attempt oc = Some a"
    using c by (auto simp: begin_operation_command_def result_simps)
  have "ledger_ok (oc_db oc)" using begin_operation_saved [OF ok b fresh] by simp
  then have "may_save (oc_db oc) a" by (rule current_may_save [OF _ cur])
  moreover have "advances d (oc_db oc)"
  proof (cases "lookup_row or_operation_id (bo_operation_id c) (operation_ledger d)")
    case (Some r)
    then show ?thesis using b by (auto simp: begin_operation_def Let_def split: if_splits)
  next
    case None
    then obtain op1 d1 a1 where s: "save_operation d op1 = Inr d1" "save_attempt d1 a1 = Inr (oc_db oc)"
      "at_attempt_id a1 = ''attempt:'' @ bo_operation_id c @ '':1''"
      using b by (auto simp: begin_operation_def Let_def result_simps new_attempt_def split: if_splits)
    have "may_save d a1" using fresh None s(3) by (intro fresh_may_save) (auto simp: lookup_row_None_iff)
    then have "may_save d1 a1" using may_save_same save_operation_tables(2) [OF s(1)] by blast
    then have "advances d1 (oc_db oc)" by (rule save_attempt_advances [OF s(2)])
    then show ?thesis using advances_same [OF save_operation_tables(2) [OF s(1)]] advances_trans by blast
  qed
  ultimately show ?thesis using oc by (simp add: outcome_advances_def)
qed

lemma finalize_pair_advances:
  "completed_sqlite_finalize_operation st oid aid key h kind nm res rh ts = Inr (op, a) \<Longrightarrow>
     oc = attempt_outcome d' st' op a \<Longrightarrow> same_ledger d d' \<Longrightarrow>
     aid \<notin> ar_attempt_id ` set (operation_attempts d) \<Longrightarrow> outcome_advances d oc"
  by (auto simp: outcome_advances_def same_ledger_advances completed_operation_Inr(4) same_ledger_def
      intro!: fresh_may_save)

lemma finalize_step_advances:
  "attempt_pair_outcome st (finalize_audit E d st fa ts) = Inr oc \<Longrightarrow>
     fa_attempt_id fa \<notin> ar_attempt_id ` set (operation_attempts d) \<Longrightarrow> outcome_advances d oc"
  "attempt_pair_outcome st (finalize_inbox E d st fi ts) = Inr oc \<Longrightarrow>
     fi_attempt_id fi \<notin> ar_attempt_id ` set (operation_attempts d) \<Longrightarrow> outcome_advances d oc"
  by (auto simp: branch_simps finalize_audit_def finalize_inbox_def result_simps dest!: insert_same_ledger
      intro: finalize_pair_advances same_ledger_trans)

lemma recovery_retry_advances:
  assumes ok: "ledger_ok d" and r: "recovery_retry d st c x op0 a0 = Inr (d', op, a)"
    and fresh: "cx_attempt_uuid x \<notin> ar_attempt_id ` set (operation_attempts d)"
  shows "advances d d' \<and> may_save d' a"
proof -
  obtain op2 ba where b: "begin_operation_attempt d' st ba (cx_now x) = Inr (op, a)"
    "ba_attempt_id ba = cx_attempt_uuid x"
    and pre: "(if at_status a0 = OperationStatus.UNKNOWN
              then rbind (update_attempt d st (at_attempt_id a0) (cx_now x) [OperationStatus.UNKNOWN]
                     (\<lambda>y. y\<lparr>at_recovery_resolution := Some RETRY_AUTHORIZED,
                            at_risk_confirmed_by := Some (rd_actor c),
                            at_risk_confirmation_reason := Some (sanitize_text (rd_reason c))\<rparr>))
                   (\<lambda>(op1, a1). rbind (save_attempt d a1) (\<lambda>d1.
                      rbind (save_operation d1 op1) (\<lambda>d2. Inr (d2, op1))))
              else Inr (d, op0)) = Inr (d', op2)"
    using r unfolding recovery_retry_def rbind_eq_Inr
    by (force split: if_splits simp: rbind_eq_Inr)
  have a: "at_attempt_id a = cx_attempt_uuid x" using begun_attempt_id [OF b(1)] b(2) by simp
  have none: "status_of d (cx_attempt_uuid x) = None"
    using fresh by (auto simp: status_of_def lookup_row_None_iff)
  show ?thesis
  proof (cases "at_status a0 = OperationStatus.UNKNOWN")
    case True
    then obtain op1 a1 d1 where u: "update_attempt d st (at_attempt_id a0) (cx_now x) [OperationStatus.UNKNOWN]
                     (\<lambda>y. y\<lparr>at_recovery_resolution := Some RETRY_AUTHORIZED,
                            at_risk_confirmed_by := Some (rd_actor c),
                            at_risk_confirmation_reason := Some (sanitize_text (rd_reason c))\<rparr>) = Inr (op1, a1)"
      "save_attempt d a1 = Inr d1" "save_operation d1 op1 = Inr d'"
      using pre by (auto simp: rbind_eq_Inr)
    have m: "may_save d a1" by (rule update_may_save [OF u(1) ok]) (simp add: moves_def)
    have s: "status_of d' = status_of d1" by (rule status_of_same [OF save_operation_tables(2) [OF u(3)]])
    have "at_attempt_id a1 \<noteq> cx_attempt_uuid x"
    proof
      assume same: "at_attempt_id a1 = cx_attempt_uuid x"
      obtain y where "attempt_in d (at_attempt_id a0) = Inr y" "at_attempt_id a1 = at_attempt_id y"
        using u(1) by (auto simp: update_attempt_def Let_def result_simps split: if_splits)
      then obtain z where "z \<in> set (operation_attempts d)" "at_attempt_id (ar_document z) = cx_attempt_uuid x"
        using attempt_in_row same by metis
      then show False using stored_status [OF ok] none by force
    qed
    then have "status_of d' (cx_attempt_uuid x) = None" using none by (simp add: s save_attempt_status [OF u(2)])
    moreover have "advances d d'"
      using save_attempt_advances [OF u(2) m] advances_same [OF save_operation_tables(2) [OF u(3)]] advances_trans
      by blast
    ultimately show ?thesis using a by (simp add: may_save_def)
  next
    case False
    then show ?thesis using pre a none by (simp add: may_save_def)
  qed
qed

lemma recovery_effect_advances:
  assumes ok: "ledger_ok d" and e: "recovery_effect E d st c x op0 a0 = Inr (d', st', op, a)"
    and sel: "\<And>o1. op0 = Some o1 \<Longrightarrow> \<exists>i a1. a0 = Some a1 \<and> current_attempt_in d i = Inr a1"
    and fresh: "cx_attempt_uuid x \<notin> ar_attempt_id ` set (operation_attempts d)"
    and none: "op0 = None \<Longrightarrow> a0 = None"
  shows "advances d d' \<and> (\<forall>a'. a = Some a' \<longrightarrow> may_save d' a')"
proof -
  have m: "moves [OperationStatus.UNKNOWN] (\<lambda>y. y\<lparr>at_recovery_resolution := Some CONFIRMED_SUCCEEDED, at_result := r1,
       at_result_hash := r2, at_result_source := r3, at_reconcile_evidence := r4,
       at_risk_confirmed_by := r5, at_risk_confirmation_reason := r6\<rparr>)"
    "moves [OperationStatus.UNKNOWN] (\<lambda>y. y\<lparr>at_recovery_resolution := Some CONFIRMED_FAILED, at_risk_confirmed_by := r5,
       at_risk_confirmation_reason := r6\<rparr>)"
    "moves [OperationStatus.PREPARED, OperationStatus.RUNNING] (\<lambda>y. y\<lparr>at_status := OperationStatus.FAILED, at_failure_kind := Some TERMINAL,
       at_failure_reason := r7, at_completed_at := r8\<rparr>)" for r1 r2 r3 r4 r5 r6 r7 r8
    by (auto simp: moves_def attempt_le_def)
  have stored: "may_save d a1" if "a0 = Some a1" for a1
    using that sel none current_may_save [OF ok] by (cases op0) auto
  show ?thesis
    using e stored fresh ok
    by (cases "rd_action c"; cases op0; cases a0)
       (auto simp: recovery_effect_def Let_def rbind_eq_Inr m split: if_splits
          intro: update_may_save dest: recovery_retry_advances)
qed

lemma recovery_advances:
  assumes ok: "ledger_ok d"
    and e: "rbind (apply_recovery E d st cid c x) (\<lambda>(d1, st1, op, a).
      Inr ((state_outcome d1 st1)\<lparr>oc_operation := op, oc_attempt := a\<rparr>)) = Inr oc"
    and fresh: "cx_attempt_uuid x \<notin> ar_attempt_id ` set (operation_attempts d)"
  shows "outcome_advances d oc"
proof -
  obtain st' where r: "apply_recovery E d st cid c x = Inr (oc_db oc, st', oc_operation oc, oc_attempt oc)"
    using e by (auto simp: rbind_eq_Inr)
  from r obtain op0 a0 d1 st1 d2 d3 row where
    f: "recovery_effect E d st c x op0 a0 = Inr (d1, st1, oc_operation oc, oc_attempt oc)"
    and s: "save_operation_opt d1 (oc_operation oc) = Inr d2" "save_attempt_opt d2 (oc_attempt oc) = Inr d3"
    and i: "insert_decision d3 row = Inr (oc_db oc)"
    and sel: "op0 = None \<and> a0 = None \<or> (\<exists>i o1 a1. rd_operation_id c = Some i \<and> operation_in d i = Inr o1 \<and>
       current_attempt_in d (op_operation_id o1) = Inr a1 \<and> op0 = Some o1 \<and> a0 = Some a1 \<and>
       op_run_id o1 = st_run_id st)"
    by (rule apply_recovery_Inr) blast
  have one: "advances d d1" "\<And>a. oc_attempt oc = Some a \<Longrightarrow> may_save d1 a"
    using recovery_effect_advances [OF ok f _ fresh] sel by blast+
  have two: "operation_attempts d2 = operation_attempts d1"
    using s(1) by (auto simp: save_operation_opt_def dest: save_operation_tables(2) split: option.splits)
  have three: "operation_attempts (oc_db oc) = operation_attempts d3"
    using insert_same_ledger(3) [OF i] by (simp add: same_ledger_def)
  have "advances d2 d3 \<and> (\<forall>a. oc_attempt oc = Some a \<longrightarrow> may_save d3 a)"
  proof (cases "oc_attempt oc")
    case None
    then show ?thesis using s(2) by (simp add: save_attempt_opt_def)
  next
    case (Some a)
    then have sv: "save_attempt d2 a = Inr d3" using s(2) by (simp add: save_attempt_opt_def)
    have "may_save d2 a" using one(2) [OF Some] may_save_same [OF two] by blast
    then show ?thesis using save_attempt_advances [OF sv] saved_may_save [OF sv] Some by simp
  qed
  then show ?thesis
    unfolding outcome_advances_def
    using one(1) advances_same [OF two] advances_same [OF three] may_save_same [OF three] advances_trans by blast
qed

subsection \<open>Commands and steps\<close>

lemma dispatch_advances:
  assumes ok: "ledger_ok d" and run: "st_run_id st = cmd_run_id k"
    and c: "dispatch C d st k x (cmd_body k) = Inr oc" and fresh: "fresh_ids d k x"
  shows "outcome_advances d oc"
proof (cases "cmd_body k")
  case (CreateOperationWithAttempt co)
  with ok run c fresh show ?thesis
    by (intro create_operation_advances [of d st co "cx_now x"]) (auto simp: fresh_ids_def Let_def)
next
  case (BeginOperationAttempt ba)
  with c fresh show ?thesis
    by (intro begin_attempt_advances [of d st ba "cx_now x"]) (simp_all add: fresh_ids_def Let_def)
next
  case (BeginOperation bo)
  with ok c fresh show ?thesis
    by (intro begin_operation_advances [of d st bo "cx_now x"]) (simp_all add: fresh_ids_def Let_def)
next
  case (FinalizeAudit fa)
  with c fresh show ?thesis
    by (intro finalize_step_advances(1) [of st "ct_env C" d fa "cx_now x"]) (simp_all add: fresh_ids_def Let_def)
next
  case (FinalizeInbox fi)
  with c fresh show ?thesis
    by (intro finalize_step_advances(2) [of st "ct_env C" d fi "cx_now x"]) (simp_all add: fresh_ids_def Let_def)
next
  case (RecoveryDecision rd)
  with ok c fresh show ?thesis
    by (intro recovery_advances [of d "ct_env C" st "cmd_command_id k" rd x]) (simp_all add: fresh_ids_def Let_def)
qed (use c ok in \<open>simp_all only: dispatch.simps\<close>, (rule branch_advances; assumption)+)

lemma apply_advances:
  assumes "apply_command C ctx d k x = Inr (d', res)" "ledger_ok d" "fresh_ids d k x"
  shows "advances d d'"
proof (cases "lookup_row pc_command_id (cmd_command_id k) (processed_commands d)")
  case None
  obtain st oc where f: "st_run_id st = cmd_run_id k" "dispatch C d st k x (cmd_body k) = Inr oc"
    "commit_outcome C st k x oc = Inr (d', res)"
    using assms(1) None by (rule apply_command_fresh)
  obtain d1 d2 d3 where s: "save_operation_opt (oc_db oc) (oc_operation oc) = Inr d1"
    "save_attempt_opt d1 (oc_attempt oc) = Inr d2" "save_approval_opt d2 (oc_approval oc) = Inr d3"
    "operation_attempts d' = operation_attempts d3"
    using f(3) dispatch_frame(1) [OF f(2)] by (rule commit_outcome_Inr)
  have o: "advances d (oc_db oc)" "\<And>a. oc_attempt oc = Some a \<Longrightarrow> may_save (oc_db oc) a"
    using dispatch_advances [OF assms(2) f(1,2) assms(3)] by (simp_all add: outcome_advances_def)
  have one: "operation_attempts d1 = operation_attempts (oc_db oc)"
    using s(1) by (auto simp: save_operation_opt_def dest: save_operation_tables(2) split: option.splits)
  have three: "operation_attempts d' = operation_attempts d2"
    using s(3,4) by (auto simp: save_approval_opt_def same_ledger_def dest!: insert_same_ledger(7) split: option.splits)
  have "advances d1 d2"
  proof (cases "oc_attempt oc")
    case (Some a)
    then have "save_attempt d1 a = Inr d2" using s(2) by (simp add: save_attempt_opt_def)
    then show ?thesis using save_attempt_advances o(2) [OF Some] may_save_same [OF one] by blast
  qed (use s(2) in \<open>simp add: save_attempt_opt_def\<close>)
  then show ?thesis using o(1) advances_same [OF one] advances_same [OF three] advances_trans by blast
next
  case (Some r)
  with apply_command_duplicate(1) [OF assms(1) Some] show ?thesis by simp
qed

lemma write_event_ledger:
  "write_event E d st t p cid key cause corr now = Inr (d', e) \<Longrightarrow>
     operation_ledger d' = operation_ledger d \<and> operation_attempts d' = operation_attempts d"
  by (intro conjI; erule write_event_Inr)

lemma create_run_attempts: "create_run C ctx d q x = Inr (d', st, dup) \<Longrightarrow> same_ledger d d'"
  by (auto simp: create_run_def insert_run_def insert_state_def insert_idempotency_def bind_generation_def
      update_run_projection_def created_event_def Let_def result_simps same_ledger_def
      split: if_splits option.splits dest!: write_event_ledger)

lemma create_state_attempts: "create_state C ctx d q x = Inr (d', st) \<Longrightarrow> same_ledger d d'"
  by (auto simp: create_state_def insert_state_def update_run_projection_def created_event_def Let_def result_simps
      same_ledger_def split: if_splits option.splits dest!: write_event_ledger)

lemma reserve_attempts: "reserve_idempotency C ctx d key h i cl n ts = Inr (d', i') \<Longrightarrow> same_ledger d d'"
  by (auto simp: reserve_idempotency_def insert_idempotency_def result_simps same_ledger_def
      split: if_splits option.splits)

lemma step_advances: "step E d d' \<Longrightarrow> ledger_ok d \<Longrightarrow> advances d d'"
  by (erule step.cases)
     (auto dest: apply_advances create_run_attempts create_state_attempts reserve_attempts same_ledger_advances)

lemma step_ledger_ok: "step E d d' \<Longrightarrow> ledger_ok d \<Longrightarrow> ledger_ok d'"
  by (erule step.cases)
     (auto dest: apply_ledger_ok create_run_attempts create_state_attempts reserve_attempts simp: ledger_ok_same)

lemma history_advances: "(step E)\<^sup>*\<^sup>* d d' \<Longrightarrow> ledger_ok d \<Longrightarrow> advances d d' \<and> ledger_ok d'"
proof (induction rule: rtranclp_induct)
  case (step y z)
  then show ?case using step_advances step_ledger_ok advances_trans by blast
qed simp


end
