(* ===== verification/Operation_Identity.thy ===== *)
theory Operation_Identity
  imports Attempt_Lifecycle
begin

section \<open>The identity of an operation\<close>

text \<open>
  What an operation is, its metadata and its retry policy, is written once: every step of the control plane
  keeps every operation and stores a record with the same metadata and policy under its identifier. The
  branches are taken as in \<open>Ledger_Safety\<close> (an update, a next attempt, a new operation). With the bounds of
  the reduction this bounds the number of attempts an operation ever gets.
\<close>

definition known :: "db \<Rightarrow> string \<Rightarrow> OperationRecord option" where
  "known d i = map_option or_record (lookup_row or_operation_id i (operation_ledger d))"

definition op_fits :: "db \<Rightarrow> OperationRecord \<Rightarrow> bool" where
  "op_fits d op \<longleftrightarrow> (\<forall>op0. known d (op_operation_id op) = Some op0 \<longrightarrow> same_operation op0 op)"

definition ops_kept :: "db \<Rightarrow> db \<Rightarrow> bool" where
  "ops_kept d d' \<longleftrightarrow> (\<forall>i op0. known d i = Some op0 \<longrightarrow> (\<exists>op1. known d' i = Some op1 \<and> same_operation op0 op1))"

lemma same_operation_refl [simp]: "same_operation op op"
  by (simp add: same_operation_def)

lemma same_operation_trans: "same_operation a b \<Longrightarrow> same_operation b c \<Longrightarrow> same_operation a c"
  by (simp add: same_operation_def)

lemma ops_kept_refl [simp]: "ops_kept d d"
  by (simp add: ops_kept_def)

lemma ops_kept_trans: "ops_kept d d1 \<Longrightarrow> ops_kept d1 d2 \<Longrightarrow> ops_kept d d2"
  unfolding ops_kept_def by (meson same_operation_trans)

lemma known_same: "operation_ledger d' = operation_ledger d \<Longrightarrow> known d' = known d"
  unfolding known_def by (rule ext) (erule arg_cong)

lemma ops_kept_same: "operation_ledger d' = operation_ledger d \<Longrightarrow> ops_kept d d'"
  unfolding ops_kept_def by (drule known_same) simp

lemma op_fits_same: "operation_ledger d' = operation_ledger d \<Longrightarrow> op_fits d' op \<longleftrightarrow> op_fits d op"
  by (drule known_same) (simp add: op_fits_def)

lemma save_operation_known:
  assumes "save_operation d op = Inr d'"
  shows "known d' i = (if i = op_operation_id op then Some op else known d i)"
proof (cases "i = op_operation_id op")
  case True
  then show ?thesis
    using operations.lookup_upsert_same [of "operation_row_of op" "operation_ledger d"]
    by (simp add: known_def save_operation_tables(1) [OF assms] merge_operation_row_def split: option.splits)
next
  case False
  then show ?thesis
    using operations.lookup_upsert_other [of i "operation_row_of op" "operation_ledger d"]
    by (simp add: known_def save_operation_tables(1) [OF assms])
qed

lemma save_operation_ops:
  "save_operation d op = Inr d' \<Longrightarrow> op_fits d op \<Longrightarrow> ops_kept d d'"
  "save_operation d op = Inr d' \<Longrightarrow> op_fits d' op"
  by (auto simp: ops_kept_def op_fits_def save_operation_known)

lemma known_stored:
  assumes "ledger_ok d" "r \<in> set (operation_ledger d)"
  shows "known d (op_operation_id (or_record r)) = Some (or_record r)"
proof -
  have inv: "ledger_inv (operation_ledger d) (operation_attempts d)" using assms(1) by (simp add: ledger_ok_def)
  then have "lookup_row or_operation_id (or_operation_id r) (operation_ledger d) = Some r"
    using lookup_row_distinct [OF _ assms(2)] by (metis ledger_inv_def)
  then show ?thesis using operation_row_ok(2) [OF inv assms(2)] by (simp add: known_def)
qed

lemma operation_in_known: "ledger_ok d \<Longrightarrow> operation_in d i = Inr op \<Longrightarrow> known d (op_operation_id op) = Some op"
  using operation_in_row known_stored by blast

lemma stored_fits: "known d (op_operation_id op) = Some op \<Longrightarrow> op_fits d op"
  by (simp add: op_fits_def)

lemma aggregate_fits:
  assumes "ledger_ok d" "operation_in d i = Inr op0" "aggregate_operation op0 as ts = Inr op"
  shows "op_fits d op"
  using operation_in_known [OF assms(1,2)] aggregate_reflects(2) [OF assms(3)] same_operationD(1)
  by (simp add: op_fits_def)

lemma update_fits: "ledger_ok d \<Longrightarrow> update_attempt d st i ts ss u = Inr (op, a) \<Longrightarrow> op_fits d op"
  by (auto simp: update_attempt_def Let_def result_simps intro: aggregate_fits split: if_splits)

lemma begin_fits: "ledger_ok d \<Longrightarrow> begin_operation_attempt d st c ts = Inr (op, a) \<Longrightarrow> op_fits d op"
  by (auto simp: begin_operation_attempt_def Let_def result_simps intro: aggregate_fits split: if_splits)

subsection \<open>Branches\<close>

definition outcome_keeps :: "db \<Rightarrow> outcome \<Rightarrow> bool" where
  "outcome_keeps d oc \<longleftrightarrow> ops_kept d (oc_db oc) \<and> (\<forall>op. oc_operation oc = Some op \<longrightarrow> op_fits (oc_db oc) op)"

lemma effect_outcome_keeps:
  assumes "ledger_ok d" "ledger_effect d st oc"
  shows "outcome_keeps d oc"
proof -
  have l: "operation_ledger (oc_db oc) = operation_ledger d" and
    c: "oc_operation oc = None \<or> (\<exists>op a i ts ss u. oc_operation oc = Some op \<and> update_attempt d st i ts ss u = Inr (op, a))"
    using assms(2) unfolding ledger_effect_def same_ledger_def by blast+
  show ?thesis
    unfolding outcome_keeps_def op_fits_same [OF l] using ops_kept_same [OF l] c update_fits [OF assms(1)] by auto
qed

lemma fresh_fits: "op_operation_id op \<notin> or_operation_id ` set (operation_ledger d) \<Longrightarrow> op_fits d op"
  by (simp add: op_fits_def known_def lookup_row_None_iff [THEN iffD2])

lemma create_operation_outcome:
  assumes ok: "ledger_ok d" and c: "create_operation_command d st c ts = Inr oc"
    and fresh: "list_ex (\<lambda>r. or_run_id r = st_run_id st \<and> or_kind r = co_kind c
                    \<and> or_stable_key r = co_stable_key c) (operation_ledger d) \<or>
      co_operation_id c \<notin> or_operation_id ` set (operation_ledger d)"
  shows "outcome_keeps d oc"
proof -
  let ?find = "find (\<lambda>r. or_run_id r = st_run_id st \<and> or_kind r = co_kind c
        \<and> or_stable_key r = co_stable_key c) (operation_ledger d)"
  obtain op a where p: "create_operation_with_attempt d st c ts = Inr (op, a)"
    and oc: "oc_db oc = d" "oc_operation oc = Some op"
    using c by (auto simp: create_operation_command_def result_simps)
  have "op_fits d op"
  proof (cases ?find)
    case (Some r)
    then have "op = or_record r"
      using p by (auto simp: create_operation_with_attempt_def Let_def result_simps split: if_splits)
    moreover have "r \<in> set (operation_ledger d)" using Some by (auto simp: find_Some_iff)
    ultimately show ?thesis using known_stored [OF ok] stored_fits by blast
  next
    case None
    then obtain op1 as where "aggregate_operation op1 as ts = Inr op" "op_operation_id op1 = co_operation_id c"
      using p by (auto simp: create_operation_with_attempt_def Let_def result_simps new_operation_def)
    moreover have "co_operation_id c \<notin> or_operation_id ` set (operation_ledger d)"
      using None fresh by (auto simp: find_None_iff list_ex_iff)
    ultimately show ?thesis using fresh_fits aggregate_reflects(2) same_operationD(1) by metis
  qed
  then show ?thesis using oc by (simp add: outcome_keeps_def)
qed

lemma begin_operation_outcome:
  assumes ok: "ledger_ok d" and c: "begin_operation_command d st c ts = Inr oc"
    and fresh: "bo_operation_id c \<in> or_operation_id ` set (operation_ledger d) \<or>
      ''attempt:'' @ bo_operation_id c @ '':1'' \<notin> ar_attempt_id ` set (operation_attempts d)"
  shows "outcome_keeps d oc"
proof -
  obtain op where b: "begin_operation d st c ts = Inr (oc_db oc, op)" and oc: "oc_operation oc = Some op"
    using c by (auto simp: begin_operation_command_def result_simps)
  have "op_fits (oc_db oc) op"
    using begin_operation_saved [OF ok b fresh] known_stored stored_fits by blast
  moreover have "ops_kept d (oc_db oc)"
  proof (cases "lookup_row or_operation_id (bo_operation_id c) (operation_ledger d)")
    case (Some r)
    then show ?thesis using b by (auto simp: begin_operation_def Let_def split: if_splits)
  next
    case None
    then obtain op1 d1 a1 where s: "save_operation d op1 = Inr d1" "save_attempt d1 a1 = Inr (oc_db oc)"
      "op_operation_id op1 = bo_operation_id c"
      using b by (auto simp: begin_operation_def Let_def result_simps new_operation_def split: if_splits)
    have "op_fits d op1" using None s(3) by (simp add: op_fits_def known_def)
    then show ?thesis
      using save_operation_ops(1) [OF s(1)] ops_kept_same [OF save_attempt_tables(1) [OF s(2)]] ops_kept_trans by blast
  qed
  ultimately show ?thesis using oc by (simp add: outcome_keeps_def)
qed

lemma finalize_pair_outcome:
  "completed_sqlite_finalize_operation st oid aid key h kind nm res rh ts = Inr (op, a) \<Longrightarrow>
     oc = attempt_outcome d' st' op a \<Longrightarrow> same_ledger d d' \<Longrightarrow>
     oid \<notin> or_operation_id ` set (operation_ledger d) \<Longrightarrow> outcome_keeps d oc"
  by (auto simp: outcome_keeps_def ops_kept_same completed_operation_Inr(2) same_ledger_def
      intro!: fresh_fits)

lemma finalize_step_outcome:
  "attempt_pair_outcome st (finalize_audit E d st fa ts) = Inr oc \<Longrightarrow>
     fa_operation_id fa \<notin> or_operation_id ` set (operation_ledger d) \<Longrightarrow> outcome_keeps d oc"
  "attempt_pair_outcome st (finalize_inbox E d st fi ts) = Inr oc \<Longrightarrow>
     fi_operation_id fi \<notin> or_operation_id ` set (operation_ledger d) \<Longrightarrow> outcome_keeps d oc"
  by (auto simp: branch_simps finalize_audit_def finalize_inbox_def result_simps dest!: insert_same_ledger
      intro: finalize_pair_outcome same_ledger_trans)

lemma recovery_retry_outcome:
  assumes ok: "ledger_ok d" and r: "recovery_retry d st c x op0 a0 = Inr (d', op, a)"
  shows "ops_kept d d' \<and> op_fits d' op"
proof -
  obtain op2 ba where b: "begin_operation_attempt d' st ba (cx_now x) = Inr (op, a)"
    and pre: "(if at_status a0 = OperationStatus.UNKNOWN
              then rbind (update_attempt d st (at_attempt_id a0) (cx_now x) [OperationStatus.UNKNOWN]
                     (\<lambda>y. y\<lparr>at_recovery_resolution := Some RETRY_AUTHORIZED,
                            at_risk_confirmed_by := Some (rd_actor c),
                            at_risk_confirmation_reason := Some (sanitize_text (rd_reason c))\<rparr>))
                   (\<lambda>(op1, a1). rbind (save_attempt d a1) (\<lambda>d1.
                      rbind (save_operation d1 op1) (\<lambda>d2. Inr (d2, op1))))
              else Inr (d, op0)) = Inr (d', op2)"
    using r unfolding recovery_retry_def rbind_eq_Inr
    by (force split: if_splits simp: rbind_eq_Inr)
  show ?thesis
  proof (cases "at_status a0 = OperationStatus.UNKNOWN")
    case True
    then obtain op1 a1 d1 where u: "update_attempt d st (at_attempt_id a0) (cx_now x) [OperationStatus.UNKNOWN]
                     (\<lambda>y. y\<lparr>at_recovery_resolution := Some RETRY_AUTHORIZED,
                            at_risk_confirmed_by := Some (rd_actor c),
                            at_risk_confirmation_reason := Some (sanitize_text (rd_reason c))\<rparr>) = Inr (op1, a1)"
      "save_attempt d a1 = Inr d1" "save_operation d1 op1 = Inr d'"
      using pre by (auto simp: rbind_eq_Inr)
    have k: "identity_kept (\<lambda>y. y\<lparr>at_recovery_resolution := Some RETRY_AUTHORIZED,
                            at_risk_confirmed_by := Some (rd_actor c),
                            at_risk_confirmation_reason := Some (sanitize_text (rd_reason c))\<rparr>)"
      by (simp add: identity_kept_def same_attempt_def)
    have "ledger_ok d'" using saved_update(1) [OF u(1) ok k] u(2,3) unfolding pair_saved_def by blast
    then have "op_fits d' op" by (rule begin_fits [OF _ b])
    moreover have "op_fits d1 op1" using update_fits [OF ok u(1)] op_fits_same [OF save_attempt_tables(1) [OF u(2)]] by blast
    then have "ops_kept d d'"
      using save_operation_ops(1) [OF u(3)] ops_kept_same [OF save_attempt_tables(1) [OF u(2)]] ops_kept_trans by blast
    ultimately show ?thesis by simp
  next
    case False
    then show ?thesis using pre begin_fits [OF ok] b by simp
  qed
qed

lemma recovery_effect_outcome:
  assumes ok: "ledger_ok d" and e: "recovery_effect E d st c x op0 a0 = Inr (d', st', op, a)"
    and sel: "\<And>o1. op0 = Some o1 \<Longrightarrow> op_fits d o1"
  shows "ops_kept d d' \<and> (\<forall>o'. op = Some o' \<longrightarrow> op_fits d' o')"
  using e sel ok
  by (cases "rd_action c"; cases op0; cases a0)
     (auto simp: recovery_effect_def Let_def rbind_eq_Inr split: if_splits
        intro: update_fits dest: recovery_retry_outcome)

lemma recovery_outcome:
  assumes ok: "ledger_ok d"
    and e: "rbind (apply_recovery E d st cid c x) (\<lambda>(d1, st1, op, a).
      Inr ((state_outcome d1 st1)\<lparr>oc_operation := op, oc_attempt := a\<rparr>)) = Inr oc"
  shows "outcome_keeps d oc"
proof -
  obtain st' where r: "apply_recovery E d st cid c x = Inr (oc_db oc, st', oc_operation oc, oc_attempt oc)"
    using e by (auto simp: rbind_eq_Inr)
  from r obtain op0 a0 d1 st1 d2 d3 row where
    f: "recovery_effect E d st c x op0 a0 = Inr (d1, st1, oc_operation oc, oc_attempt oc)"
    and s: "save_operation_opt d1 (oc_operation oc) = Inr d2" "save_attempt_opt d2 (oc_attempt oc) = Inr d3"
    and i: "insert_decision d3 row = Inr (oc_db oc)"
    and sel: "op0 = None \<and> a0 = None \<or> (\<exists>i o1 a1. rd_operation_id c = Some i \<and> operation_in d i = Inr o1 \<and>
       current_attempt_in d (op_operation_id o1) = Inr a1 \<and> op0 = Some o1 \<and> a0 = Some a1 \<and>
       op_run_id o1 = st_run_id st)"
    by (rule apply_recovery_Inr) blast
  have "op_fits d o1" if "op0 = Some o1" for o1
    using sel that operation_in_known [OF ok] stored_fits by blast
  then have one: "ops_kept d d1" "\<And>o'. oc_operation oc = Some o' \<Longrightarrow> op_fits d1 o'"
    using recovery_effect_outcome [OF ok f] by blast+
  have two: "ops_kept d1 d2 \<and> (\<forall>o'. oc_operation oc = Some o' \<longrightarrow> op_fits d2 o')"
    using s(1) one(2) by (auto simp: save_operation_opt_def dest: save_operation_ops split: option.splits)
  have "operation_ledger d3 = operation_ledger d2"
    using s(2) by (auto simp: save_attempt_opt_def dest: save_attempt_tables(1) split: option.splits)
  then have three: "operation_ledger (oc_db oc) = operation_ledger d2"
    using insert_same_ledger(3) [OF i] by (simp add: same_ledger_def)
  show ?thesis
    unfolding outcome_keeps_def op_fits_same [OF three]
    using one(1) two ops_kept_same [OF three] ops_kept_trans by blast
qed

subsection \<open>Commands and histories\<close>

lemma dispatch_outcome:
  assumes ok: "ledger_ok d" and run: "st_run_id st = cmd_run_id k"
    and c: "dispatch C d st k x (cmd_body k) = Inr oc" and fresh: "fresh_ids d k x"
  shows "outcome_keeps d oc"
proof (cases "cmd_body k")
  case (CreateOperationWithAttempt co)
  with ok run c fresh show ?thesis
    by (intro create_operation_outcome [of d st co "cx_now x"]) (auto simp: fresh_ids_def Let_def)
next
  case (BeginOperationAttempt ba)
  with ok c show ?thesis
    by (auto simp: begin_attempt_command_def result_simps outcome_keeps_def dest: begin_fits)
next
  case (BeginOperation bo)
  with ok c fresh show ?thesis
    by (intro begin_operation_outcome [of d st bo "cx_now x"]) (simp_all add: fresh_ids_def Let_def)
next
  case (FinalizeAudit fa)
  with c fresh show ?thesis
    by (intro finalize_step_outcome(1) [of st "ct_env C" d fa "cx_now x"]) (simp_all add: fresh_ids_def Let_def)
next
  case (FinalizeInbox fi)
  with c fresh show ?thesis
    by (intro finalize_step_outcome(2) [of st "ct_env C" d fi "cx_now x"]) (simp_all add: fresh_ids_def Let_def)
next
  case (RecoveryDecision rd)
  with ok c show ?thesis
    by (intro recovery_outcome [of d "ct_env C" st "cmd_command_id k" rd x]) simp_all
qed (use c in \<open>simp_all only: dispatch.simps\<close>, (rule effect_outcome_keeps [OF ok], erule branch_effect)+)

lemma apply_ops_kept:
  assumes "apply_command C ctx d k x = Inr (d', res)" "ledger_ok d" "fresh_ids d k x"
  shows "ops_kept d d'"
proof (cases "lookup_row pc_command_id (cmd_command_id k) (processed_commands d)")
  case None
  obtain st oc where f: "st_run_id st = cmd_run_id k" "dispatch C d st k x (cmd_body k) = Inr oc"
    "commit_outcome C st k x oc = Inr (d', res)"
    using assms(1) None by (rule apply_command_fresh)
  obtain d1 d2 d3 where s: "save_operation_opt (oc_db oc) (oc_operation oc) = Inr d1"
    "save_attempt_opt d1 (oc_attempt oc) = Inr d2" "save_approval_opt d2 (oc_approval oc) = Inr d3"
    "operation_ledger d' = operation_ledger d3"
    using f(3) dispatch_frame(1) [OF f(2)] by (rule commit_outcome_Inr)
  have o: "ops_kept d (oc_db oc)" "\<And>op. oc_operation oc = Some op \<Longrightarrow> op_fits (oc_db oc) op"
    using dispatch_outcome [OF assms(2) f(1,2) assms(3)] by (simp_all add: outcome_keeps_def)
  have one: "ops_kept (oc_db oc) d1"
    using s(1) o(2) by (auto simp: save_operation_opt_def dest: save_operation_ops(1) split: option.splits)
  have "operation_ledger d2 = operation_ledger d1"
    using s(2) by (auto simp: save_attempt_opt_def dest: save_attempt_tables(1) split: option.splits)
  moreover have "operation_ledger d3 = operation_ledger d2"
    using s(3) by (auto simp: save_approval_opt_def same_ledger_def dest!: insert_same_ledger(7) split: option.splits)
  ultimately have "ops_kept d1 d'" using s(4) by (intro ops_kept_same) simp
  then show ?thesis using o(1) one ops_kept_trans by blast
next
  case (Some r)
  with apply_command_duplicate(1) [OF assms(1) Some] show ?thesis by simp
qed

lemma same_ledger_ops: "same_ledger d d' \<Longrightarrow> ops_kept d d'"
  by (rule ops_kept_same) (simp add: same_ledger_def)

lemma step_ops_kept: "step E d d' \<Longrightarrow> ledger_ok d \<Longrightarrow> ops_kept d d'"
  by (erule step.cases)
     (blast dest: apply_ops_kept create_run_attempts create_state_attempts reserve_attempts same_ledger_ops)+

lemma history_ops_kept: "(step E)\<^sup>*\<^sup>* d d' \<Longrightarrow> ledger_ok d \<Longrightarrow> ops_kept d d'"
proof (induction rule: rtranclp_induct)
  case (step y z)
  then have "ledger_ok y" using history_advances by blast
  then show ?case using step ops_kept_trans step_ops_kept by blast
qed simp


end
