(* ===== verification/Durable_Tools.thy ===== *)
theory Durable_Tools
  imports Operation_Identity
begin

section \<open>The durable tool coordinator\<close>

text \<open>
  \<^verbatim>\<open>DurableToolCoordinator\<close> of \<^verbatim>\<open>gateway/durable_execution.py\<close>: the two-phase boundary around the real side
  effect of a tool. Every call of the controller is one tick: the other tasks, gateways and processes first
  do what \<open>tw_others\<close> says (any history of the control plane; the heartbeat of this tool is among them), then
  the call reads or commits. \<open>tw_uuid\<close> stands for \<^verbatim>\<open>uuid4\<close>, \<open>tw_call\<close> for the clock, \<open>tw_gate\<close> and
  \<open>tw_scope\<close> for the maintenance gate and the scope of the task at that moment, \<open>tw_interrupt\<close> for a
  cancellation that reaches one of the coordinator's own \<^verbatim>\<open>await\<close>s. An exception is a value of \<open>tool_exn\<close>,
  the state survives it. \<open>xs_invoked\<close> logs which attempt ran a tool body, with the database at that moment,
  \<open>xs_direct\<close> the bodies that a registry without a coordinator ran.
\<close>

subsection \<open>Outcomes, world and state\<close>

record tool_failure =
  tf_text :: string
  tf_class :: string
  tf_retryable :: "bool option"
  tf_transport :: bool

datatype body_outcome =
    Returned string
  | Raised tool_failure
  | Cancelled tool_failure

datatype tool_exn =
    Refused error
  | ToolRuntimeError string
  | PermissionError string
  | ToolExecutionObservationError string
  | BodyError tool_failure
  | BodyCancelled tool_failure
  | ToolRequestError error
  | Interrupted
  | AssertionError
  | OutOfFuel

record coordinator =
  dc_heartbeat_seconds :: nat
  dc_retry_max_attempts :: nat
  dc_retry_base_seconds :: seconds
  dc_retry_max_seconds :: seconds

definition new_coordinator :: "nat \<Rightarrow> nat \<Rightarrow> seconds \<Rightarrow> seconds \<Rightarrow> coordinator" where
  "new_coordinator heartbeat attempts base longest = \<lparr>dc_heartbeat_seconds = max 5 heartbeat,
     dc_retry_max_attempts = attempts, dc_retry_base_seconds = base, dc_retry_max_seconds = longest\<rparr>"

record tool_world =
  tw_controller :: controller
  tw_settings :: coordinator
  tw_gate :: "nat \<Rightarrow> gate option"
  tw_scope :: "nat \<Rightarrow> WriteScope option"
  tw_uuid :: "nat \<Rightarrow> nat \<Rightarrow> db \<Rightarrow> string"
  tw_call :: "nat \<Rightarrow> call"
  tw_others :: "nat \<Rightarrow> db \<Rightarrow> db"
  tw_interrupt :: "nat \<Rightarrow> bool"

record tool_state =
  xs_db :: db
  xs_tick :: nat
  xs_operation :: "string option"
  xs_attempt :: "string option"
  xs_invoked :: "(string \<times> db) list"
  xs_direct :: "nat list"

type_synonym 'a tool_run = "tool_world \<Rightarrow> tool_state \<Rightarrow> tool_state \<times> (tool_exn + 'a)"

definition give :: "'a \<Rightarrow> 'a tool_run" where
  "give x W s = (s, Inr x)"

definition throw :: "tool_exn \<Rightarrow> 'a tool_run" where
  "throw e W s = (s, Inl e)"

definition bind_run :: "'a tool_run \<Rightarrow> ('a \<Rightarrow> 'b tool_run) \<Rightarrow> 'b tool_run" where
  "bind_run m f W s = (case m W s of (s1, Inl e) \<Rightarrow> (s1, Inl e) | (s1, Inr x) \<Rightarrow> f x W s1)"

subsection \<open>Calls of the controller\<close>

definition observe :: "tool_world \<Rightarrow> tool_state \<Rightarrow> tool_state" where
  "observe W s = s\<lparr>xs_db := tw_others W (xs_tick s) (xs_db s), xs_tick := Suc (xs_tick s)\<rparr>"

definition ask :: "(db \<Rightarrow> 'a result) \<Rightarrow> 'a tool_run" where
  "ask f W s =
     (let s1 = observe W s in
      (s1, case f (xs_db s1) of Inl e \<Rightarrow> Inl (Refused e) | Inr x \<Rightarrow> Inr x))"

definition current_state :: "string \<Rightarrow> AgentState tool_run" where
  "current_state run_id = ask (\<lambda>d. state_in d run_id)"

record draw =
  dw_id :: "nat \<Rightarrow> string"
  dw_now :: timestamp

text \<open>
  \<^verbatim>\<open>controller.apply(Command(command_id=uuid4().hex, run_id=state.run_id, expected_revision=state.revision,
  gateway_epoch=controller.gateway_epoch, ...))\<close>; the body may use further identifiers and the clock.
\<close>

definition command_of :: "tool_world \<Rightarrow> nat \<Rightarrow> db \<Rightarrow> AgentState \<Rightarrow> (draw \<Rightarrow> Command) \<Rightarrow> StateCommand" where
  "command_of W n d st body = \<lparr>
     cmd_command_id = tw_uuid W n 0 d, cmd_event_key = ''primary'', cmd_causation_id = None,
     cmd_correlation_id = None, cmd_run_id = st_run_id st, cmd_expected_revision = st_revision st,
     cmd_gateway_epoch = ct_gateway_epoch (tw_controller W),
     cmd_body = body \<lparr>dw_id = (\<lambda>i. tw_uuid W n (Suc i) d), dw_now = cx_now (tw_call W n)\<rparr>\<rparr>"

definition controller_at :: "tool_world \<Rightarrow> nat \<Rightarrow> controller" where
  "controller_at W n = (tw_controller W)\<lparr>ct_write_gate := tw_gate W n\<rparr>"

definition submit :: "AgentState \<Rightarrow> (draw \<Rightarrow> Command) \<Rightarrow> ApplyResult tool_run" where
  "submit st body W s =
    (let n = xs_tick s; s1 = observe W s; k = command_of W n (xs_db s1) st body in
     if \<not> command_valid (cmd_body k) then (s1, Inl (Refused (ValueError ''command'')))
     else case apply_command (controller_at W n) (tw_scope W n) (xs_db s1) k (tw_call W n) of
            Inl e \<Rightarrow> (s1, Inl (Refused e))
          | Inr (d', r) \<Rightarrow> (s1\<lparr>xs_db := d'\<rparr>, Inr r))"

definition await_point :: "unit tool_run" where
  "await_point W s =
     (s\<lparr>xs_tick := Suc (xs_tick s)\<rparr>, if tw_interrupt W (xs_tick s) then Inl Interrupted else Inr ())"

text \<open>\<^verbatim>\<open>async with self._run_lock(run_id)\<close>, then a fresh state and one command on it.\<close>

definition locked_submit :: "string \<Rightarrow> (draw \<Rightarrow> Command) \<Rightarrow> ApplyResult tool_run" where
  "locked_submit run_id body =
     bind_run await_point (\<lambda>_. bind_run (current_state run_id) (\<lambda>st. submit st body))"

definition submit_now :: "string \<Rightarrow> (draw \<Rightarrow> Command) \<Rightarrow> ApplyResult tool_run" where
  "submit_now run_id body = bind_run (current_state run_id) (\<lambda>st. submit st body)"

definition move_execution :: "ExecutionState \<Rightarrow> string \<Rightarrow> Command" where
  "move_execution x reason = Transition \<lparr>tc_task_state = None, tc_execution_state = Some x,
     tc_outcome = None, tc_finish_reason = None, tc_terminal_target = None, tc_reason = reason,
     tc_error = None, tc_result_summary = None\<rparr>"

definition finish_execution :: "ExecutionOutcome \<Rightarrow> string \<Rightarrow> string \<Rightarrow> Command" where
  "finish_execution x message reason = Transition \<lparr>tc_task_state = None, tc_execution_state = Some FINISHED,
     tc_outcome = Some x, tc_finish_reason = Some message, tc_terminal_target = None, tc_reason = reason,
     tc_error = None, tc_result_summary = None\<rparr>"

definition move_task :: "TaskState \<Rightarrow> string \<Rightarrow> Command" where
  "move_task t reason = Transition \<lparr>tc_task_state = Some t, tc_execution_state = None,
     tc_outcome = None, tc_finish_reason = None, tc_terminal_target = None, tc_reason = reason,
     tc_error = None, tc_result_summary = None\<rparr>"

definition execution_of :: "AgentState \<Rightarrow> ExecutionState option" where
  "execution_of st = map_option es_state (st_execution st)"

subsection \<open>Context variables\<close>

definition set_current :: "string option \<Rightarrow> string option \<Rightarrow> unit tool_run" where
  "set_current operation attempt W s = (s\<lparr>xs_operation := operation, xs_attempt := attempt\<rparr>, Inr ())"

definition current_attempt_id :: "string \<Rightarrow> string tool_run" where
  "current_attempt_id message W s =
     (s, case xs_attempt s of None \<Rightarrow> Inl (ToolRuntimeError message) | Some i \<Rightarrow> Inr i)"

definition failure_text :: "tool_failure \<Rightarrow> string" where
  "failure_text e = (if tf_text e \<noteq> [] then tf_text e else tf_class e)"

definition is_retryable_tool_error :: "tool_failure \<Rightarrow> bool" where
  "is_retryable_tool_error e = (case tf_retryable e of Some b \<Rightarrow> b | None \<Rightarrow> tf_transport e)"

definition uncertain_class :: "ToolIdempotency \<Rightarrow> bool" where
  "uncertain_class i \<longleftrightarrow> i \<in> {EXTERNALLY_IDEMPOTENT, NON_IDEMPOTENT}"

subsection \<open>Preparing an operation\<close>

fun tool_idempotency :: "string \<Rightarrow> ToolIdempotency option" where
  "tool_idempotency v =
     (if v = ''pure'' then Some PURE
      else if v = ''idempotent'' then Some IDEMPOTENT
      else if v = ''externally_idempotent'' then Some EXTERNALLY_IDEMPOTENT
      else if v = ''non_idempotent'' then Some NON_IDEMPOTENT else None)"

definition strip_text :: "string \<Rightarrow> string" where
  "strip_text v = rev (dropWhile is_space (rev (dropWhile is_space v)))"

text \<open>A declared class is given by its text, whether it was declared as a text or as a member of the enumeration.\<close>

definition idempotency_of :: "string option \<Rightarrow> string \<Rightarrow> ToolIdempotency result" where
  "idempotency_of declared risk =
    (case declared of
       Some v \<Rightarrow> or_raise (tool_idempotency (map ascii_lower (strip_text v)))
                   (ValueError ''invalid idempotency declaration'')
     | None \<Rightarrow> Inr (if risk = ''read'' then PURE else if risk = ''write'' then IDEMPOTENT else NON_IDEMPOTENT))"

record tool_request =
  tq_name :: string
  tq_declared :: "string option"
  tq_arguments :: dict
  tq_risk :: string
  tq_workspace_root :: string
  tq_call_id :: string
  tq_batch_id :: "string option"
  tq_position :: "nat option"

record binding =
  bd_run_id :: string
  bd_turn_id :: string

definition frozen_request :: "tool_request \<Rightarrow> string" where
  "frozen_request q = canonical_json (JObj
     [(''name'', JStr (tq_name q)), (''arguments'', JObj (tq_arguments q)),
      (''workspace_root'', JStr (tq_workspace_root q)), (''risk'', JStr (tq_risk q))])"

definition tool_stable_key :: "binding \<Rightarrow> string \<Rightarrow> tool_request \<Rightarrow> string" where
  "tool_stable_key b model_call q =
     ''tool:'' @ bd_turn_id b @ '':'' @ model_call @ '':'' @ tq_call_id q"

definition tool_retry_policy :: "coordinator \<Rightarrow> ToolIdempotency \<Rightarrow> RetryPolicySnapshot" where
  "tool_retry_policy c selected = \<lparr>rp_max_attempts = dc_retry_max_attempts c,
     rp_base_seconds = dc_retry_base_seconds c, rp_max_seconds = dc_retry_max_seconds c,
     rp_automatic = (selected \<noteq> NON_IDEMPOTENT),
     rp_requires_reconcile = (selected = EXTERNALLY_IDEMPOTENT),
     rp_requires_human_confirmation = (selected = NON_IDEMPOTENT)\<rparr>"

definition create_tool_command ::
  "tool_world \<Rightarrow> binding \<Rightarrow> string option \<Rightarrow> string \<Rightarrow> ToolIdempotency \<Rightarrow> tool_request \<Rightarrow> draw \<Rightarrow> Command" where
  "create_tool_command W b parent model_call selected q w =
    (let key = tool_stable_key b model_call q; hash = sha256 (ct_env (tw_controller W)) in
     CreateOperationWithAttempt \<lparr>
       co_operation_id = dw_id w 0, co_attempt_id = dw_id w 1, co_parent_operation_id = parent,
       co_turn_id = Some (bd_turn_id b), co_kind = TOOL, co_name = tq_name q, co_stable_key = key,
       co_request_hash = hash (frozen_request q), co_idempotency = selected,
       co_side_effecting = (tq_risk q \<noteq> ''read''), co_logical_model_call_id = None,
       co_source_model_call_id = Some model_call, co_tool_call_id = Some (tq_call_id q),
       co_tool_batch_id = tq_batch_id q, co_tool_call_position = tq_position q, co_model_call_id = None,
       co_external_request_id = (if tq_risk q \<noteq> ''read'' then Some (dw_id w 2) else None),
       co_external_idempotency_key = Some (hash key),
       co_retry_policy_snapshot = tool_retry_policy (tw_settings W) selected\<rparr>)"

definition bound :: "binding option \<Rightarrow> binding tool_run" where
  "bound b = (case b of None \<Rightarrow> throw (ToolRuntimeError ''Durable Tool is not bound to a Gateway Run'') | Some x \<Rightarrow> give x)"

definition lifted :: "'a result \<Rightarrow> 'a tool_run" where
  "lifted r = (case r of Inl e \<Rightarrow> throw (Refused e) | Inr x \<Rightarrow> give x)"

definition parent_operation :: "string option tool_run" where
  "parent_operation W s = (s, Inr (xs_operation s))"

definition world :: "tool_world tool_run" where
  "world W s = (s, Inr W)"

definition prepare_tool :: "binding option \<Rightarrow> tool_request \<Rightarrow> OperationRecord tool_run" where
  "prepare_tool bind_opt q =
     bind_run (bound bind_opt) (\<lambda>b.
     bind_run parent_operation (\<lambda>parent.
     bind_run (lifted (idempotency_of (tq_declared q) (tq_risk q))) (\<lambda>selected.
     bind_run (current_state (bd_run_id b)) (\<lambda>st0.
     bind_run (if execution_of st0 = Some OBSERVING
               then bind_run (submit st0 (\<lambda>_. move_execution THINKING ''next tool call of the same reply''))
                      (\<lambda>r. give (ar_state r))
               else give st0) (\<lambda>st.
     bind_run world (\<lambda>W.
     let model_call = or_text (st_model_call_id st) ''model-call-unavailable'' in
     bind_run (submit st (create_tool_command W b parent model_call selected q)) (\<lambda>r.
     case (ar_operation r, ar_attempt r) of
       (Some op, Some _) \<Rightarrow> give op
     | _ \<Rightarrow> throw AssertionError)))))))"

subsection \<open>Approval and denial\<close>

definition request_approval ::
  "binding option \<Rightarrow> (nat \<Rightarrow> tool_exn + bool) option \<Rightarrow> OperationRecord \<Rightarrow> bool tool_run" where
  "request_approval bind_opt approval op =
    (case approval of
       None \<Rightarrow> give False
     | Some ask_human \<Rightarrow>
         bind_run (bound bind_opt) (\<lambda>b.
         if op_run_id op \<noteq> bd_run_id b
         then throw (ToolRuntimeError ''Operation does not belong to the bound Run'')
         else bind_run (ask (\<lambda>d. current_attempt_in d (op_operation_id op))) (\<lambda>_.
           \<lambda>W s. (s\<lparr>xs_tick := Suc (xs_tick s)\<rparr>, ask_human (xs_tick s)))))"

definition waiting_human :: "OperationRecord \<Rightarrow> unit tool_run" where
  "waiting_human op =
     bind_run (current_state (op_run_id op)) (\<lambda>st.
     if execution_of st \<noteq> Some THINKING
     then throw (ToolRuntimeError ''approval enters WAITING_HUMAN from THINKING only'')
     else bind_run (submit st (\<lambda>_. move_execution WAITING_HUMAN (''tool '' @ op_name op @ '' awaits approval'')))
            (\<lambda>_. give ()))"

definition not_executed :: "OperationRecord \<Rightarrow> string \<Rightarrow> string" where
  "not_executed op reason =
     ''{'' @ quote_text ''status'' @ '': '' @ quote_text ''NOT_EXECUTED'' @ '', '' @
     quote_text ''tool'' @ '': '' @ quote_text (op_name op) @ '', '' @
     quote_text ''reason'' @ '': '' @ quote_text reason @ ''}''"

definition not_executed_sorted :: "OperationRecord \<Rightarrow> string \<Rightarrow> string" where
  "not_executed_sorted op reason =
     ''{'' @ quote_text ''reason'' @ '': '' @ quote_text reason @ '', '' @
     quote_text ''status'' @ '': '' @ quote_text ''NOT_EXECUTED'' @ '', '' @
     quote_text ''tool'' @ '': '' @ quote_text (op_name op) @ ''}''"

definition approval_decided :: "OperationRecord \<Rightarrow> bool \<Rightarrow> string option tool_run" where
  "approval_decided op approved =
     bind_run (current_state (op_run_id op)) (\<lambda>st.
     if approved
     then bind_run (submit st (\<lambda>_. move_execution ACTING (''tool '' @ op_name op @ '' approved''))) (\<lambda>_. give None)
     else
       bind_run (ask (\<lambda>d. current_attempt_in d (op_operation_id op))) (\<lambda>a.
       bind_run (if at_status a = OperationStatus.SKIPPED then give st
                 else bind_run (submit st (\<lambda>_. SkipOperationAttempt (at_attempt_id a) ''approval_denied_or_timeout''))
                        (\<lambda>r. give (ar_state r))) (\<lambda>skipped.
       bind_run (submit (st\<lparr>st_revision := st_revision skipped\<rparr>)
                   (\<lambda>_. move_execution OBSERVING (''tool '' @ op_name op @ '' was not executed''))) (\<lambda>_.
       bind_run (set_current None None) (\<lambda>_.
       give (Some (not_executed op ''approval_denied_or_timeout'')))))))"

definition skip_denied :: "OperationRecord \<Rightarrow> string \<Rightarrow> string tool_run" where
  "skip_denied op reason =
     bind_run (current_state (op_run_id op)) (\<lambda>st0.
     bind_run (ask (\<lambda>d. current_attempt_in d (op_operation_id op))) (\<lambda>a.
     bind_run (if at_status a \<noteq> OperationStatus.SKIPPED
               then bind_run (submit st0 (\<lambda>_. SkipOperationAttempt (at_attempt_id a) reason)) (\<lambda>r. give (ar_state r))
               else give st0) (\<lambda>st.
     bind_run (if st_execution st \<noteq> None \<and> execution_of st \<noteq> Some OBSERVING
               then bind_run (submit st (\<lambda>_. move_execution OBSERVING (''Tool '' @ op_name op @ '' denied: '' @ reason)))
                      (\<lambda>_. give ())
               else give ()) (\<lambda>_.
     bind_run (set_current None None) (\<lambda>_.
     give (not_executed_sorted op reason))))))"

subsection \<open>Parallel groups\<close>

definition begin_parallel_group :: "binding option \<Rightarrow> unit tool_run" where
  "begin_parallel_group bind_opt =
     bind_run (bound bind_opt) (\<lambda>b.
     bind_run await_point (\<lambda>_.
     bind_run (current_state (bd_run_id b)) (\<lambda>st.
     if st_execution st = None then throw (ToolRuntimeError ''Parallel Tool group requires an execution state'')
     else if execution_of st = Some THINKING
     then bind_run (submit st (\<lambda>_. move_execution ACTING ''Begin parallel PURE Tool group'')) (\<lambda>_. give ())
     else if execution_of st \<noteq> Some ACTING
     then throw (ToolRuntimeError ''Cannot begin parallel Tool group'')
     else give ())))"

definition finish_parallel_group :: "binding option \<Rightarrow> unit tool_run" where
  "finish_parallel_group bind_opt =
     bind_run (bound bind_opt) (\<lambda>b.
     bind_run await_point (\<lambda>_.
     bind_run (current_state (bd_run_id b)) (\<lambda>st.
     if execution_of st = Some ACTING
     then bind_run (submit st (\<lambda>_. move_execution OBSERVING ''Parallel PURE Tool group settled'')) (\<lambda>_. give ())
     else give ())))"

subsection \<open>Execution\<close>

definition invoke_body :: "(nat \<Rightarrow> body_outcome) \<Rightarrow> string \<Rightarrow> body_outcome tool_run" where
  "invoke_body invoke attempt_id W s =
     (s\<lparr>xs_tick := Suc (xs_tick s), xs_invoked := xs_invoked s @ [(attempt_id, xs_db s)]\<rparr>,
      Inr (invoke (xs_tick s)))"

definition after_seconds :: "timestamp \<Rightarrow> nat \<Rightarrow> timestamp" where
  "after_seconds now n = now + of_nat n"

definition start_attempt :: "OperationRecord \<Rightarrow> string \<Rightarrow> ApplyResult tool_run" where
  "start_attempt op attempt_id =
     bind_run world (\<lambda>W. locked_submit (op_run_id op) (\<lambda>w. StartOperationAttempt attempt_id
       (Some (after_seconds (dw_now w) (dc_heartbeat_seconds (tw_settings W))))))"

definition fail_attempt ::
  "OperationRecord \<Rightarrow> string \<Rightarrow> OperationFailureKind \<Rightarrow> string \<Rightarrow> ApplyResult tool_run" where
  "fail_attempt op attempt_id kind reason =
     locked_submit (op_run_id op) (\<lambda>_. FailOperationAttempt attempt_id kind reason)"

definition next_attempt :: "OperationRecord \<Rightarrow> ApplyResult tool_run" where
  "next_attempt op =
     locked_submit (op_run_id op) (\<lambda>w. BeginOperationAttempt \<lparr>
       ba_operation_id = op_operation_id op, ba_attempt_id = dw_id w 0,
       ba_expected_latest_attempt_no = op_latest_attempt_no op, ba_request_hash = op_request_hash op,
       ba_model_call_id = None,
       ba_external_request_id = (if op_side_effecting op then Some (dw_id w 1) else None),
       ba_risk_confirmed_by = None, ba_risk_confirmation_reason = None\<rparr>)"

definition record_uncertain_or_failed ::
  "OperationRecord \<Rightarrow> tool_failure \<Rightarrow> bool \<Rightarrow> bool \<Rightarrow> unit tool_run" where
  "record_uncertain_or_failed op e cancelled manage =
    (let message = failure_text e in
     bind_run (current_state (op_run_id op)) (\<lambda>st.
     bind_run (current_attempt_id ''Tool failure without a current Attempt'') (\<lambda>attempt_id.
     if uncertain_class (op_idempotency op) then
       bind_run (submit st (\<lambda>_. MarkOperationAttemptUnknown attempt_id
         ((if cancelled then ''cancelled during external operation: '' else ''tool raised after dispatch: '') @ message))) (\<lambda>_.
       bind_run (submit_now (op_run_id op) (\<lambda>_. move_task TaskState.RECOVERY_REQUIRED ''external side effect unknown''))
         (\<lambda>_. give ()))
     else
       bind_run (fail_attempt op attempt_id RETRYABLE message) (\<lambda>_.
       if \<not> manage then give ()
       else bind_run (submit_now (op_run_id op) (\<lambda>_. finish_execution
              (if cancelled then ExecutionOutcome.CANCELLED else ExecutionOutcome.ERROR) message
              ''execution without unknown side effects ended'')) (\<lambda>_. give ())))))"

definition determined_failure :: "OperationRecord \<Rightarrow> string \<Rightarrow> bool \<Rightarrow> 'a tool_run" where
  "determined_failure op message manage =
     bind_run (current_state (op_run_id op)) (\<lambda>st.
     bind_run (if manage
               then bind_run (submit st (\<lambda>_. move_execution OBSERVING ''Determined tool failure''))
                      (\<lambda>_. give ())
               else give ()) (\<lambda>_.
     bind_run (set_current None None) (\<lambda>_. throw (ToolExecutionObservationError message))))"

definition retry_scheduled :: "OperationRecord \<Rightarrow> bool" where
  "retry_scheduled op \<longleftrightarrow> op_failure_kind op = Some RETRYABLE \<and>
     rp_automatic (op_retry_policy_snapshot op) \<and> op_next_retry_at op \<noteq> None"

text \<open>What follows a determined failure: the report, or sleep, next attempt and another round.\<close>

definition retry_or_report ::
  "OperationRecord \<Rightarrow> string \<Rightarrow> tool_failure \<Rightarrow> bool \<Rightarrow> (OperationRecord \<Rightarrow> 'a tool_run) \<Rightarrow> 'a tool_run" where
  "retry_or_report op attempt_id e manage again =
     bind_run (fail_attempt op attempt_id
       (if is_retryable_tool_error e then RETRYABLE else TERMINAL) (failure_text e)) (\<lambda>failed.
     let op2 = or_keep (ar_operation failed) op in
     if \<not> retry_scheduled op2 then determined_failure op2 (failure_text e) manage
     else
       bind_run await_point (\<lambda>_.
       bind_run (next_attempt op2) (\<lambda>begun.
       let op3 = or_keep (ar_operation begun) op2 in
       case ar_attempt begun of
         None \<Rightarrow> throw AssertionError
       | Some a \<Rightarrow>
           bind_run parent_operation (\<lambda>current.
           bind_run (set_current current (Some (at_attempt_id a))) (\<lambda>_. again op3)))))"

definition after_body ::
  "OperationRecord \<Rightarrow> string \<Rightarrow> body_outcome \<Rightarrow> bool \<Rightarrow> (OperationRecord \<Rightarrow> (string \<times> string) tool_run)
     \<Rightarrow> (string \<times> string) tool_run" where
  "after_body op attempt_id outcome manage again =
     bind_run await_point (\<lambda>_.
     case outcome of
       Returned r \<Rightarrow> give (attempt_id, r)
     | Cancelled e \<Rightarrow>
         bind_run (record_uncertain_or_failed op e True manage) (\<lambda>_. throw (BodyCancelled e))
     | Raised e \<Rightarrow>
         if uncertain_class (op_idempotency op)
         then bind_run (record_uncertain_or_failed op e False manage) (\<lambda>_. throw (BodyError e))
         else retry_or_report op attempt_id e manage again)"

text \<open>
  \<^verbatim>\<open>while True\<close>, by fuel: each round starts the current attempt, runs the body and settles its outcome; a
  determined failure with a scheduled retry begins the next attempt and the next round.
\<close>

fun attempt_loop ::
  "nat \<Rightarrow> (nat \<Rightarrow> body_outcome) \<Rightarrow> bool \<Rightarrow> OperationRecord \<Rightarrow> (string \<times> string) tool_run" where
  "attempt_loop 0 invoke manage op = throw OutOfFuel"
| "attempt_loop (Suc fuel) invoke manage op =
     bind_run (current_attempt_id ''Tool Operation without a current Attempt'') (\<lambda>attempt_id.
     bind_run (start_attempt op attempt_id) (\<lambda>started.
     bind_run (invoke_body invoke attempt_id) (\<lambda>outcome.
     after_body (or_keep (ar_operation started) op) attempt_id outcome manage
       (attempt_loop fuel invoke manage))))"

definition enter_acting :: "OperationRecord \<Rightarrow> bool \<Rightarrow> unit tool_run" where
  "enter_acting op manage =
     bind_run (current_state (op_run_id op)) (\<lambda>st.
     if st_execution st = None then throw (ToolRuntimeError ''Tool Operation without an execution state'')
     else if manage \<and> execution_of st = Some THINKING
     then bind_run (submit st (\<lambda>_. move_execution ACTING (''start tool '' @ op_name op))) (\<lambda>_. give ())
     else if execution_of st \<noteq> Some ACTING
     then throw (ToolRuntimeError ''cannot execute a tool in this state'')
     else give ())"

definition settle_result :: "OperationRecord \<Rightarrow> bool \<Rightarrow> string \<times> string \<Rightarrow> string tool_run" where
  "settle_result op manage done =
    (let attempt_id = fst done; selected = snd done in
     bind_run world (\<lambda>W.
     bind_run (locked_submit (op_run_id op) (\<lambda>_. CompleteOperationAttempt attempt_id selected
                (sha256 (ct_env (tw_controller W)) selected) ''tool_return'')) (\<lambda>_.
     bind_run (if manage
               then bind_run (submit_now (op_run_id op) (\<lambda>_. move_execution OBSERVING
                      (''result of tool '' @ op_name op @ '' committed''))) (\<lambda>_. give ())
               else give ()) (\<lambda>_.
     bind_run (set_current None None) (\<lambda>_. give selected)))))"

definition maintenance_tools :: "string list" where
  "maintenance_tools = [''subagent'', ''cronjob'', ''harness_capability'', ''harness_evolve'',
     ''harness_manual'', ''harness_error'', ''harness_dream'']"

definition gate_state :: "MaintenanceState option tool_run" where
  "gate_state W s =
     (s, case tw_gate W (xs_tick s) of
           None \<Rightarrow> Inr None
         | Some g \<Rightarrow> (case snapshot g of Inl e \<Rightarrow> Inl (Refused e) | Inr x \<Rightarrow> Inr (Some (ms_state x))))"

text \<open>The decorator \<^verbatim>\<open>lifecycle_work("tool", continuation=True)\<close>: the gate admits the call or refuses it.\<close>

definition enter_lifecycle :: "unit tool_run" where
  "enter_lifecycle W s =
    (let n = xs_tick s in
     (s\<lparr>xs_tick := Suc n\<rparr>,
      case tw_gate W n of
        None \<Rightarrow> Inr ()
      | Some g \<Rightarrow> (case work g (tw_scope W n) (tw_uuid W n 0 (xs_db s)) ''execute'' (tw_uuid W n 1 (xs_db s))
                          ''tool'' None True of
                    Inl e \<Rightarrow> Inl (Refused e) | Inr _ \<Rightarrow> Inr ())))"

definition execute :: "nat \<Rightarrow> (nat \<Rightarrow> body_outcome) \<Rightarrow> bool \<Rightarrow> OperationRecord \<Rightarrow> string tool_run" where
  "execute fuel invoke manage op =
     bind_run enter_lifecycle (\<lambda>_.
     bind_run gate_state (\<lambda>g.
     if op_name op \<in> set maintenance_tools \<and> g \<noteq> None \<and> g \<noteq> Some MaintenanceState.RUNNING
     then skip_denied op ''maintenance_new_work_denied''
     else
       bind_run (ask (\<lambda>d. current_attempt_in d (op_operation_id op))) (\<lambda>a.
       bind_run (set_current (Some (op_operation_id op)) (Some (at_attempt_id a))) (\<lambda>_.
       bind_run (enter_acting op manage) (\<lambda>_.
       bind_run (attempt_loop fuel invoke manage op) (settle_result op manage))))))"

definition preexecution_failed_if_safe :: "OperationRecord option \<Rightarrow> string \<Rightarrow> unit tool_run" where
  "preexecution_failed_if_safe op_opt message =
    (case op_opt of
       None \<Rightarrow> give ()
     | Some op \<Rightarrow>
         bind_run (ask (\<lambda>d. operation_in d (op_operation_id op))) (\<lambda>current.
         if op_status current \<noteq> OperationStatus.PREPARED then give ()
         else
           bind_run (ask (\<lambda>d. current_attempt_in d (op_operation_id op))) (\<lambda>a.
           bind_run (fail_attempt op (at_attempt_id a) TERMINAL message) (\<lambda>_.
           bind_run (current_state (op_run_id op)) (\<lambda>st.
           bind_run (if execution_of st = Some WAITING_HUMAN
                     then bind_run (submit st (\<lambda>_. finish_execution ExecutionOutcome.ERROR message
                            ''tool failed before the side effect'')) (\<lambda>_. give ())
                     else give ()) (\<lambda>_.
           set_current None None))))))"

text \<open>One round of \<^verbatim>\<open>_heartbeat_loop\<close>: whether it goes on, and what it commits.\<close>

definition heartbeat_round :: "OperationRecord \<Rightarrow> string \<Rightarrow> bool tool_run" where
  "heartbeat_round op attempt_id =
     bind_run world (\<lambda>W.
     bind_run (ask (\<lambda>d. operation_in d (op_operation_id op))) (\<lambda>current.
     if op_status current \<noteq> OperationStatus.RUNNING then give False
     else bind_run (locked_submit (op_run_id op) (\<lambda>w. HeartbeatOperationAttempt attempt_id (dw_now w)
                     (after_seconds (dw_now w) (dc_heartbeat_seconds (tw_settings W)))))
            (\<lambda>_. give True)))"

end
