(* ===== verification/Tool_Safety.thy ===== *)
theory Tool_Safety
  imports Durable_Tools
begin

section \<open>Tool bodies run at most once\<close>

text \<open>
  Every operation of the coordinator is a history of the control plane (\<open>quiet\<close>) except \<open>execute\<close>, which also
  runs bodies. \<open>chained\<close> says how: before each body a step moved its attempt from prepared to running. Since
  attempts only advance, no attempt ever gets there twice, whatever crashes, gateways and retries happen.
\<close>

definition used_ids :: "db \<Rightarrow> string set" where
  "used_ids d = pc_command_id ` set (processed_commands d) \<union> or_operation_id ` set (operation_ledger d) \<union>
     ar_attempt_id ` set (operation_attempts d)"

definition world_ok :: "env \<Rightarrow> tool_world \<Rightarrow> bool" where
  "world_ok E W \<longleftrightarrow> ct_env (tw_controller W) = E \<and> (\<forall>n d. (step E)\<^sup>*\<^sup>* d (tw_others W n d)) \<and>
     (\<forall>n i d. tw_uuid W n i d \<notin> used_ids d)"

fun chained :: "env \<Rightarrow> db \<Rightarrow> (string \<times> db) list \<Rightarrow> db \<Rightarrow> bool" where
  "chained E d [] d' \<longleftrightarrow> (step E)\<^sup>*\<^sup>* d d'"
| "chained E d ((i, e) # xs) d' \<longleftrightarrow>
     (\<exists>p. (step E)\<^sup>*\<^sup>* d p \<and> status_of p i = Some OperationStatus.PREPARED \<and> step E p e \<and>
        status_of e i = Some OperationStatus.RUNNING) \<and> chained E e xs d'"

subsection \<open>Chains\<close>

lemma chained_before: "(step E)\<^sup>*\<^sup>* d d1 \<Longrightarrow> chained E d1 xs d' \<Longrightarrow> chained E d xs d'"
  by (cases xs) (auto, meson rtranclp_trans)

lemma chained_append: "chained E d xs d1 \<Longrightarrow> chained E d1 ys d' \<Longrightarrow> chained E d (xs @ ys) d'"
  by (induction E d xs d1 rule: chained.induct) (auto intro: chained_before)

lemma chained_history: "chained E d xs d' \<Longrightarrow> (step E)\<^sup>*\<^sup>* d d'"
  by (induction E d xs d' rule: chained.induct) (auto intro: rtranclp_trans)

lemma chained_started:
  assumes "chained E d xs d'" "ledger_ok d" "(i, e) \<in> set xs"
  shows "\<exists>t. status_of d' i = Some t \<and> attempt_le OperationStatus.RUNNING t"
  using assms
proof (induction E d xs d' rule: chained.induct)
  case (2 E d j e' xs d')
  obtain p where p: "(step E)\<^sup>*\<^sup>* d p" "step E p e'" "status_of e' j = Some OperationStatus.RUNNING"
    and rest: "chained E e' xs d'" using 2(2) by auto
  have "(step E)\<^sup>*\<^sup>* d e'" using p(1,2) by (rule rtranclp.rtrancl_into_rtrancl)
  then have ok: "ledger_ok e'" using history_advances 2(3) by blast
  show ?case
  proof (cases "(i, e) \<in> set xs")
    case True
    then show ?thesis using 2(1) rest ok by blast
  next
    case False
    then have "status_of e' i = Some OperationStatus.RUNNING" using 2(4) p(3) by simp
    then show ?thesis
      using history_advances [OF chained_history [OF rest] ok] advances_status by blast
  qed
qed simp

lemma chained_not_prepared:
  assumes "chained E d xs d'" "ledger_ok d" "(i, e) \<in> set xs"
  shows "status_of d' i \<noteq> Some OperationStatus.PREPARED"
  using chained_started [OF assms] by (auto simp: attempt_le_def)

lemma chained_fresh:
  assumes "chained E d xs d'" "ledger_ok d" "status_of d i = Some t" "\<not> attempt_le t OperationStatus.PREPARED"
  shows "i \<notin> fst ` set xs"
  using assms
proof (induction E d xs d' arbitrary: t rule: chained.induct)
  case (2 E d j e xs d')
  obtain p where p: "(step E)\<^sup>*\<^sup>* d p" "status_of p j = Some OperationStatus.PREPARED" "step E p e"
    and rest: "chained E e xs d'" using 2(2) by auto
  have he: "(step E)\<^sup>*\<^sup>* d e" using p(1,3) by (rule rtranclp.rtrancl_into_rtrancl)
  obtain u where u: "status_of e i = Some u" "attempt_le t u"
    using history_advances [OF he 2(3)] advances_status 2(4) by blast
  have ok: "ledger_ok e" using history_advances [OF he 2(3)] by blast
  have "\<not> attempt_le u OperationStatus.PREPARED" using u(2) 2(5) attempt_le_trans by blast
  then have "i \<notin> fst ` set xs" using 2(1) [OF rest ok u(1)] by blast
  moreover have "i \<noteq> j"
  proof
    assume "i = j"
    then obtain v where "status_of p i = Some v" "attempt_le t v"
      using history_advances [OF p(1) 2(3)] advances_status 2(4) by blast
    then show False using p(2) 2(5) \<open>i = j\<close> by simp
  qed
  ultimately show ?case by simp
qed simp

lemma chained_distinct:
  assumes "chained E d xs d'" "ledger_ok d"
  shows "distinct (map fst xs)"
  using assms
proof (induction E d xs d' rule: chained.induct)
  case (2 E d i e xs d')
  obtain p where p: "(step E)\<^sup>*\<^sup>* d p" "step E p e" "status_of e i = Some OperationStatus.RUNNING"
    and rest: "chained E e xs d'" using 2(2) by auto
  have "(step E)\<^sup>*\<^sup>* d e" using p(1,2) by (rule rtranclp.rtrancl_into_rtrancl)
  then have ok: "ledger_ok e" using history_advances 2(3) by blast
  have "i \<notin> fst ` set xs" by (rule chained_fresh [OF rest ok p(3)]) (simp add: attempt_le_def)
  then show ?case using 2(1) [OF rest ok] by simp
qed simp

subsection \<open>Commands on an attempt\<close>

lemma unused_command: "i \<notin> used_ids d \<Longrightarrow> lookup_row pc_command_id i (processed_commands d) = None"
  by (auto simp: used_ids_def lookup_row_None_iff)

lemma applied_attempt:
  assumes ap: "apply_command C ctx d k x = Inr (d', res)" and new: "cmd_command_id k \<notin> used_ids d"
    and ok: "ledger_ok d"
    and c: "\<And>st oc. dispatch C d st k x (cmd_body k) = Inr oc \<Longrightarrow>
      \<exists>ch. attempt_command d st i (cx_now x) ss u ch = Inr oc"
  obtains st op a where "update_attempt d st i (cx_now x) ss u = Inr (op, a)"
    "ar_operation res = Some op" "ar_attempt res = Some a"
    "\<forall>j. status_of d' j = (if j = at_attempt_id a then Some (at_status a) else status_of d j)"
proof -
  obtain st oc where f: "st_run_id st = cmd_run_id k" "dispatch C d st k x (cmd_body k) = Inr oc"
    "commit_outcome C st k x oc = Inr (d', res)"
    using ap unused_command [OF new] by (rule apply_command_fresh)
  obtain ch op a where u: "update_attempt d st i (cx_now x) ss u = Inr (op, a)"
    and oc: "oc = attempt_outcome d (ch op a) op a"
    using c [OF f(2)] by (auto simp: attempt_command_def result_simps)
  obtain d1 d2 d3 e where s: "save_operation_opt (oc_db oc) (oc_operation oc) = Inr d1"
    "save_attempt_opt d1 (oc_attempt oc) = Inr d2" "save_approval_opt d2 (oc_approval oc) = Inr d3"
    "operation_attempts d' = operation_attempts d3" and res: "res = result_of oc x e"
    using f(3) dispatch_frame(1) [OF f(2)] by (rule commit_outcome_Inr)
  have s1: "save_operation d op = Inr d1" "save_attempt d1 a = Inr d2"
    using s(1,2) by (simp_all add: oc attempt_outcome_def state_outcome_def save_operation_opt_def save_attempt_opt_def)
  have "operation_attempts d3 = operation_attempts d2"
    using s(3) by (simp add: oc attempt_outcome_def state_outcome_def save_approval_opt_def)
  then have "status_of d' = status_of d2" using s(4) by (intro status_of_same) simp
  moreover have "status_of d1 = status_of d" by (rule status_of_same [OF save_operation_tables(2) [OF s1(1)]])
  ultimately have "status_of d' j = (if j = at_attempt_id a then Some (at_status a) else status_of d j)" for j
    using save_attempt_status [OF s1(2)] by simp
  moreover have "ar_operation res = Some op" "ar_attempt res = Some a"
    by (simp_all add: res oc result_of_def attempt_outcome_def)
  ultimately show thesis using that u by blast
qed

lemma updated_status:
  assumes "update_attempt d st i ts ss u = Inr (op, a)" "ledger_ok d" "identity_kept u"
  shows "at_attempt_id a = i \<and> (\<exists>s \<in> set ss. status_of d i = Some s)"
proof -
  obtain x where x: "x \<in> set (operation_attempts d)" "ar_attempt_id x = i" "ar_status x \<in> set ss"
    "same_attempt (ar_document x) a"
    by (rule update_attempt_Inr [OF assms])
  have inv: "ledger_inv (operation_ledger d) (operation_attempts d)" using assms(2) by (simp add: ledger_ok_def)
  have "ar_status x = at_status (ar_document x)" "ar_attempt_id x = at_attempt_id (ar_document x)"
    using arg_cong [OF attempt_row_ok(1) [OF inv x(1)], of ar_status] attempt_row_ok(2) [OF inv x(1)]
    by (simp_all add: attempt_row_of_def)
  then show ?thesis using stored_status [OF assms(2) x(1)] x(2-4) by (simp add: same_attempt_def)
qed

subsection \<open>Quiet runs\<close>

named_theorems quiet_runs \<open>runs that only commit histories of the control plane\<close>

definition quiet_run :: "env \<Rightarrow> tool_world \<Rightarrow> 'a tool_run \<Rightarrow> bool" where
  "quiet_run E W m \<longleftrightarrow> (\<forall>s. xs_invoked (fst (m W s)) = xs_invoked s \<and>
     (step E)\<^sup>*\<^sup>* (xs_db s) (xs_db (fst (m W s))))"

lemma fst_bind_run: "fst (bind_run m f W s) =
    (case snd (m W s) of Inl e \<Rightarrow> fst (m W s) | Inr x \<Rightarrow> fst (f x W (fst (m W s))))"
  by (simp add: bind_run_def split: prod.splits sum.splits)

lemma quiet_bind [quiet_runs]:
  assumes "quiet_run E W m" "\<And>x. quiet_run E W (f x)"
  shows "quiet_run E W (bind_run m f)"
  using assms unfolding quiet_run_def fst_bind_run
  by (auto split: sum.splits) (meson rtranclp_trans)+

lemma quiet_silent: "(\<And>s. xs_db (fst (m W s)) = xs_db s \<and> xs_invoked (fst (m W s)) = xs_invoked s) \<Longrightarrow> quiet_run E W m"
  by (simp add: quiet_run_def)

lemma quiet_simple [quiet_runs]:
  "quiet_run E W (give x)" "quiet_run E W (throw e)" "quiet_run E W await_point" "quiet_run E W (set_current oi ai)"
  "quiet_run E W (current_attempt_id msg)" "quiet_run E W parent_operation" "quiet_run E W world"
  "quiet_run E W gate_state" "quiet_run E W enter_lifecycle"
  by (rule quiet_silent; simp add: give_def throw_def await_point_def set_current_def current_attempt_id_def
      parent_operation_def world_def gate_state_def enter_lifecycle_def Let_def)+

lemma quiet_if [quiet_runs]: "quiet_run E W m \<Longrightarrow> quiet_run E W n \<Longrightarrow> quiet_run E W (if b then m else n)"
  by simp

lemma quiet_option [quiet_runs]:
  "quiet_run E W m \<Longrightarrow> (\<And>x. quiet_run E W (f x)) \<Longrightarrow> quiet_run E W (case v of None \<Rightarrow> m | Some x \<Rightarrow> f x)"
  by (cases v) simp_all

lemma quiet_lifted [quiet_runs]: "quiet_run E W (lifted r)" "quiet_run E W (bound b)"
  by (auto simp: lifted_def bound_def intro: quiet_simple split: sum.splits option.splits)

lemma quiet_ask: "world_ok E W \<Longrightarrow> quiet_run E W (ask f)"
  by (simp add: quiet_run_def ask_def observe_def world_ok_def Let_def)

lemma quiet_current_state: "world_ok E W \<Longrightarrow> quiet_run E W (current_state i)"
  by (simp add: current_state_def quiet_ask)

text \<open>What a submitted command finds and leaves.\<close>

definition new_ids_only :: "(draw \<Rightarrow> Command) \<Rightarrow> bool" where
  "new_ids_only body \<longleftrightarrow> (\<forall>W n d st x. (\<forall>m i d'. tw_uuid W m i d' \<notin> used_ids d') \<longrightarrow>
     fresh_ids d (command_of W n d st body) x)"

lemma submit_step:
  assumes "world_ok E W" "new_ids_only body" "submit st body W s = (s', r)"
  shows "xs_invoked s' = xs_invoked s" "(step E)\<^sup>*\<^sup>* (xs_db s) (xs_db s')"
    and "r = Inr res \<Longrightarrow> \<exists>C ctx d k x. (step E)\<^sup>*\<^sup>* (xs_db s) d \<and> ct_env C = E \<and>
      k = command_of W (xs_tick s) d st body \<and> x = tw_call W (xs_tick s) \<and> cmd_command_id k \<notin> used_ids d \<and>
      fresh_ids d k x \<and> apply_command C ctx d k x = Inr (xs_db s', res)"
proof -
  let ?n = "xs_tick s" and ?d = "tw_others W (xs_tick s) (xs_db s)"
  let ?k = "command_of W ?n ?d st body" and ?C = "controller_at W ?n" and ?x = "tw_call W ?n"
  have h: "(step E)\<^sup>*\<^sup>* (xs_db s) ?d" and C: "ct_env ?C = E" and u: "\<And>m i d'. tw_uuid W m i d' \<notin> used_ids d'"
    using assms(1) by (simp_all add: world_ok_def controller_at_def)
  have f: "fresh_ids ?d ?k ?x" using assms(2) u unfolding new_ids_only_def by blast
  have id: "cmd_command_id ?k \<notin> used_ids ?d" using u by (simp add: command_of_def)
  consider e where "r = Inl e" "xs_db s' = ?d" "xs_invoked s' = xs_invoked s"
    | d' x' where "apply_command ?C (tw_scope W ?n) ?d ?k ?x = Inr (d', x')" "r = Inr x'" "xs_db s' = d'"
        "xs_invoked s' = xs_invoked s"
    using assms(3) by (auto simp: submit_def observe_def Let_def split: if_splits sum.splits)
  note cs = this
  from cs show "xs_invoked s' = xs_invoked s" by cases simp_all
  from cs show "(step E)\<^sup>*\<^sup>* (xs_db s) (xs_db s')"
  proof cases
    case 2
    have "step E ?d d'" by (rule step_apply [OF C f 2(1)])
    then show ?thesis using h 2(3) by (simp add: rtranclp.rtrancl_into_rtrancl)
  qed (use h in simp)
  show "\<exists>C ctx d k x. (step E)\<^sup>*\<^sup>* (xs_db s) d \<and> ct_env C = E \<and>
      k = command_of W (xs_tick s) d st body \<and> x = tw_call W (xs_tick s) \<and> cmd_command_id k \<notin> used_ids d \<and>
      fresh_ids d k x \<and> apply_command C ctx d k x = Inr (xs_db s', res)" if "r = Inr res"
    using cs that h C f id by (cases; simp) metis
qed

lemma quiet_submit: "world_ok E W \<Longrightarrow> new_ids_only body \<Longrightarrow> quiet_run E W (submit st body)"
  unfolding quiet_run_def by (metis prod.collapse submit_step(1,2))

lemma new_ids_simple [simp]:
  "new_ids_only (\<lambda>_. move_execution x r)" "new_ids_only (\<lambda>_. finish_execution o' m r)"
  "new_ids_only (\<lambda>_. move_task t r)" "new_ids_only (\<lambda>_. SkipOperationAttempt i r)"
  "new_ids_only (\<lambda>w. StartOperationAttempt i (e w))" "new_ids_only (\<lambda>_. FailOperationAttempt i kd r)"
  "new_ids_only (\<lambda>_. MarkOperationAttemptUnknown i r)" "new_ids_only (\<lambda>_. CompleteOperationAttempt i r h src)"
  "new_ids_only (\<lambda>w. HeartbeatOperationAttempt i (b w) (c w))"
  by (simp_all add: new_ids_only_def fresh_ids_def command_of_def move_execution_def finish_execution_def
      move_task_def Let_def)

lemma new_ids_create [simp]: "new_ids_only (create_tool_command V b parent m sel q)"
  by (auto simp: new_ids_only_def fresh_ids_def command_of_def create_tool_command_def used_ids_def Let_def)

lemma quiet_locked: "world_ok E W \<Longrightarrow> new_ids_only body \<Longrightarrow> quiet_run E W (locked_submit i body)"
  "world_ok E W \<Longrightarrow> new_ids_only body \<Longrightarrow> quiet_run E W (submit_now i body)"
  by (simp_all add: locked_submit_def submit_now_def quiet_bind quiet_simple quiet_current_state quiet_submit)

lemmas quiet_calls = quiet_runs quiet_ask quiet_current_state quiet_submit quiet_locked

subsection \<open>The operations that run no body\<close>

lemma quiet_attempt_calls:
  assumes "world_ok E W"
  shows "quiet_run E W (start_attempt op i)" "quiet_run E W (fail_attempt op i kd r)" "quiet_run E W (next_attempt op)"
  unfolding start_attempt_def fail_attempt_def next_attempt_def
  by (intro quiet_calls assms new_ids_simple;
      simp add: new_ids_only_def fresh_ids_def command_of_def used_ids_def)+

lemma quiet_operations:
  assumes "world_ok E W"
  shows "quiet_run E W (prepare_tool b q)" "quiet_run E W (waiting_human op)" "quiet_run E W (approval_decided op ok)"
    "quiet_run E W (skip_denied op r)" "quiet_run E W (begin_parallel_group b)" "quiet_run E W (finish_parallel_group b)"
    "quiet_run E W (record_uncertain_or_failed op e c mg)" "quiet_run E W (determined_failure op m mg)"
    "quiet_run E W (enter_acting op mg)" "quiet_run E W (settle_result op mg done)"
    "quiet_run E W (preexecution_failed_if_safe oo m)" "quiet_run E W (heartbeat_round op i)"
  unfolding prepare_tool_def waiting_human_def approval_decided_def skip_denied_def begin_parallel_group_def
    finish_parallel_group_def record_uncertain_or_failed_def determined_failure_def enter_acting_def
    settle_result_def preexecution_failed_if_safe_def heartbeat_round_def Let_def prod.case_eq_if
  by (intro quiet_calls quiet_attempt_calls assms new_ids_simple new_ids_create)+

lemma quiet_request_approval: "world_ok E W \<Longrightarrow> quiet_run E W (request_approval b ap op)"
  unfolding request_approval_def
  by (intro quiet_calls) (auto intro: quiet_silent)

subsection \<open>Traced runs\<close>

definition traced :: "env \<Rightarrow> tool_world \<Rightarrow> 'a tool_run \<Rightarrow> bool" where
  "traced E W m \<longleftrightarrow> (\<forall>s. ledger_ok (xs_db s) \<longrightarrow>
     (\<exists>new. xs_invoked (fst (m W s)) = xs_invoked s @ new \<and> chained E (xs_db s) new (xs_db (fst (m W s)))))"

lemma quiet_traced: "quiet_run E W m \<Longrightarrow> traced E W m"
  unfolding quiet_run_def traced_def by (metis append_Nil2 chained.simps(1))

lemma traced_bind:
  assumes "traced E W m" "\<And>x. traced E W (f x)"
  shows "traced E W (bind_run m f)"
  unfolding traced_def
proof (intro allI impI)
  fix s :: tool_state assume ok: "ledger_ok (xs_db s)"
  obtain new where m: "xs_invoked (fst (m W s)) = xs_invoked s @ new" "chained E (xs_db s) new (xs_db (fst (m W s)))"
    using assms(1) ok unfolding traced_def by blast
  have ok1: "ledger_ok (xs_db (fst (m W s)))" using history_advances [OF chained_history [OF m(2)] ok] by blast
  show "\<exists>new. xs_invoked (fst (bind_run m f W s)) = xs_invoked s @ new \<and>
      chained E (xs_db s) new (xs_db (fst (bind_run m f W s)))"
  proof (cases "snd (m W s)")
    case (Inl e)
    then show ?thesis using m by (auto simp: fst_bind_run)
  next
    case (Inr x)
    obtain new2 where n: "xs_invoked (fst (f x W (fst (m W s)))) = xs_invoked (fst (m W s)) @ new2"
      "chained E (xs_db (fst (m W s))) new2 (xs_db (fst (f x W (fst (m W s)))))"
      using assms(2) ok1 unfolding traced_def by blast
    then show ?thesis using m chained_append by (auto simp: fst_bind_run Inr intro!: exI [of _ "new @ new2"])
  qed
qed

lemma bind_run_assoc: "bind_run (bind_run m f) g = bind_run m (\<lambda>x. bind_run (f x) g)"
  by (auto simp: bind_run_def fun_eq_iff split: prod.splits sum.splits)

text \<open>A started attempt: a step of this coordinator moved it from prepared to running.\<close>

lemma locked_submit_Inr:
  assumes "world_ok E W" "locked_submit i body W s = (s', Inr res)"
  obtains s1 st where "submit st body W s1 = (s', Inr res)" "(step E)\<^sup>*\<^sup>* (xs_db s) (xs_db s1)"
    "xs_invoked s1 = xs_invoked s" "xs_operation s1 = xs_operation s" "xs_attempt s1 = xs_attempt s"
  using assms
  by (auto simp: locked_submit_def bind_run_def await_point_def current_state_def ask_def observe_def
      world_ok_def Let_def split: prod.splits sum.splits if_splits)

lemma started_attempt:
  assumes w: "world_ok E W" and r: "start_attempt op i W s = (s', Inr res)" and ok: "ledger_ok (xs_db s)"
  shows "\<exists>p. (step E)\<^sup>*\<^sup>* (xs_db s) p \<and> status_of p i = Some OperationStatus.PREPARED \<and> step E p (xs_db s') \<and>
    status_of (xs_db s') i = Some OperationStatus.RUNNING"
    and "xs_invoked s' = xs_invoked s"
proof -
  let ?body = "\<lambda>w. StartOperationAttempt i (Some (after_seconds (dw_now w) (dc_heartbeat_seconds (tw_settings W))))"
  have "locked_submit (op_run_id op) ?body W s = (s', Inr res)"
    using r by (simp add: start_attempt_def bind_run_def world_def)
  then obtain s1 st where s: "submit st ?body W s1 = (s', Inr res)"
    "(step E)\<^sup>*\<^sup>* (xs_db s) (xs_db s1)" "xs_invoked s1 = xs_invoked s"
    by (rule locked_submit_Inr [OF w])
  note S = submit_step [OF w _ s(1)]
  show "xs_invoked s' = xs_invoked s" using S(1) s(3) by simp
  obtain C ctx d k x where h: "(step E)\<^sup>*\<^sup>* (xs_db s1) d" and C: "ct_env C = E"
    and k: "k = command_of W (xs_tick s1) d st ?body"
    and x: "cmd_command_id k \<notin> used_ids d" "fresh_ids d k x" "apply_command C ctx d k x = Inr (xs_db s', res)"
    using S(3) by simp metis
  have hd: "(step E)\<^sup>*\<^sup>* (xs_db s) d" using s(2) h by (rule rtranclp_trans)
  then have okd: "ledger_ok d" using history_advances ok by blast
  obtain e where b: "cmd_body k = StartOperationAttempt i e" by (simp add: k command_of_def)
  have c: "\<exists>ch. attempt_command d st' i (cx_now x) [OperationStatus.PREPARED] (start_updates (cx_now x) e) ch = Inr oc"
    if "dispatch C d st' k x (cmd_body k) = Inr oc" for st' oc
    using that by (auto simp: b start_attempt_command_def)
  obtain st2 op2 a where u: "update_attempt d st2 i (cx_now x) [OperationStatus.PREPARED] (start_updates (cx_now x) e) = Inr (op2, a)"
    "\<forall>j. status_of (xs_db s') j = (if j = at_attempt_id a then Some (at_status a) else status_of d j)"
    by (rule applied_attempt [OF x(3) x(1) okd c]) blast
  have "at_attempt_id a = i" "status_of d i = Some OperationStatus.PREPARED"
    using updated_status [OF u(1) okd] by simp_all
  moreover have "at_status a = OperationStatus.RUNNING"
    using u(1) by (auto simp: update_attempt_def Let_def result_simps start_updates_def split: if_splits)
  moreover have "step E d (xs_db s')" by (rule step_apply [OF C x(2,3)])
  ultimately show "\<exists>p. (step E)\<^sup>*\<^sup>* (xs_db s) p \<and> status_of p i = Some OperationStatus.PREPARED \<and>
      step E p (xs_db s') \<and> status_of (xs_db s') i = Some OperationStatus.RUNNING"
    using hd u(2) by auto
qed

lemma traced_body:
  assumes w: "world_ok E W" and f: "\<And>r o'. traced E W (f r o')"
  shows "traced E W (bind_run (start_attempt op i) (\<lambda>r. bind_run (invoke_body invoke i) (f r)))"
  unfolding traced_def
proof (intro allI impI)
  fix s :: tool_state assume ok: "ledger_ok (xs_db s)"
  let ?m = "bind_run (start_attempt op i) (\<lambda>r. bind_run (invoke_body invoke i) (f r))"
  obtain s1 r where st: "start_attempt op i W s = (s1, r)" by fastforce
  show "\<exists>new. xs_invoked (fst (?m W s)) = xs_invoked s @ new \<and> chained E (xs_db s) new (xs_db (fst (?m W s)))"
  proof (cases r)
    case (Inl e)
    then show ?thesis
      using quiet_traced [OF quiet_attempt_calls(1) [OF w]] ok st
      by (auto simp: fst_bind_run traced_def split: sum.splits) (metis fst_conv)
  next
    case (Inr res)
    note S = started_attempt [OF w st [unfolded Inr] ok]
    let ?s2 = "fst (invoke_body invoke i W s1)"
    have s2: "xs_db ?s2 = xs_db s1" "xs_invoked ?s2 = xs_invoked s @ [(i, xs_db s1)]"
      using S(2) by (simp_all add: invoke_body_def)
    have one: "chained E (xs_db s) [(i, xs_db s1)] (xs_db ?s2)" using S(1) by (auto simp: s2)
    then have "ledger_ok (xs_db ?s2)" using history_advances [OF chained_history ok] by blast
    then obtain new where "xs_invoked (fst (f res (invoke (xs_tick s1)) W ?s2)) = xs_invoked ?s2 @ new"
      "chained E (xs_db ?s2) new (xs_db (fst (f res (invoke (xs_tick s1)) W ?s2)))"
      using f unfolding traced_def by blast
    then have "xs_invoked (fst (?m W s)) = xs_invoked s @ ([(i, xs_db s1)] @ new) \<and>
        chained E (xs_db s) ([(i, xs_db s1)] @ new) (xs_db (fst (?m W s)))"
      using chained_append [OF one] s2(2) st Inr
      by (simp only: fst_bind_run) (simp add: invoke_body_def)
    then show ?thesis by blast
  qed
qed

lemma traced_outcome:
  "(\<And>t. traced E W (f t)) \<Longrightarrow> (\<And>e. traced E W (g e)) \<Longrightarrow> (\<And>e. traced E W (h e)) \<Longrightarrow>
     traced E W (case oc of Returned t \<Rightarrow> f t | Raised e \<Rightarrow> g e | Cancelled e \<Rightarrow> h e)"
  by (cases oc) simp_all

lemma traced_if: "traced E W m \<Longrightarrow> traced E W n \<Longrightarrow> traced E W (if b then m else n)"
  by simp

lemma traced_option:
  "traced E W m \<Longrightarrow> (\<And>x. traced E W (f x)) \<Longrightarrow> traced E W (case v of None \<Rightarrow> m | Some x \<Rightarrow> f x)"
  by (cases v) simp_all

lemma traced_after_body:
  assumes w: "world_ok E W" and again: "\<And>op. traced E W (again op)"
  shows "traced E W (after_body op i oc manage again)"
  unfolding after_body_def retry_or_report_def Let_def
  by (rule traced_bind [OF quiet_traced [OF quiet_simple(3)]], rule traced_outcome)
     (intro traced_bind traced_if traced_option again
        quiet_traced [OF quiet_operations(7) [OF w]] quiet_traced [OF quiet_operations(8) [OF w]]
        quiet_traced [OF quiet_attempt_calls(2) [OF w]] quiet_traced [OF quiet_attempt_calls(3) [OF w]]
        quiet_traced [OF quiet_simple(1)] quiet_traced [OF quiet_simple(2)] quiet_traced [OF quiet_simple(3)]
        quiet_traced [OF quiet_simple(4)] quiet_traced [OF quiet_simple(6)])+

lemma traced_loop: "world_ok E W \<Longrightarrow> traced E W (attempt_loop fuel invoke manage op)"
  by (induction fuel arbitrary: op)
     (auto intro!: quiet_traced [OF quiet_simple(2)] traced_bind [OF quiet_traced [OF quiet_simple(5)]]
        traced_body traced_after_body)

lemma traced_execute:
  assumes w: "world_ok E W"
  shows "traced E W (execute fuel invoke manage op)"
  unfolding execute_def
  by (intro traced_bind traced_if traced_loop [OF w] quiet_traced quiet_operations(4,9,10) [OF w]
      quiet_simple quiet_ask w)

text \<open>
  C18. No attempt ever runs a tool body twice. Whatever the coordinators of this and of other gateways, now and
  after crashes, have invoked so far, an execution adds only attempts that a committed step has just moved from
  prepared to running, and every attempt in the whole log is there once.
\<close>

theorem tool_bodies_run_once:
  assumes "world_ok E W" "ledger_ok d0" "chained E d0 (xs_invoked s) (xs_db s)"
    and "execute fuel invoke manage op W s = (s', r)"
  shows "chained E d0 (xs_invoked s') (xs_db s') \<and> distinct (map fst (xs_invoked s')) \<and>
    (\<forall>i t. status_of (xs_db s) i = Some t \<and> t \<noteq> OperationStatus.PREPARED \<longrightarrow>
       count_list (map fst (xs_invoked s')) i = count_list (map fst (xs_invoked s)) i)"
proof -
  have ok: "ledger_ok (xs_db s)" using history_advances [OF chained_history [OF assms(3)] assms(2)] by blast
  obtain new where new: "xs_invoked s' = xs_invoked s @ new" "chained E (xs_db s) new (xs_db s')"
    using traced_execute [OF assms(1)] ok assms(4) unfolding traced_def by (metis fst_conv)
  then have all: "chained E d0 (xs_invoked s') (xs_db s')" using assms(3) chained_append by simp
  have "count_list (map fst new) i = 0"
    if "status_of (xs_db s) i = Some t" "t \<noteq> OperationStatus.PREPARED" for i t
  proof -
    have "\<not> attempt_le t OperationStatus.PREPARED" using that(2) by (cases t) (simp_all add: attempt_le_def)
    then have "i \<notin> set (map fst new)" using chained_fresh [OF new(2) ok that(1)] by simp
    then show ?thesis by (rule count_notin)
  qed
  then show ?thesis using all chained_distinct [OF all assms(2)] new(1) by auto
qed

end
