(* ===== verification/Tool_Outcomes.thy ===== *)
theory Tool_Outcomes
  imports Tool_Safety
begin

section \<open>What an execution returns\<close>

text \<open>
  \<open>post\<close> is the weakest precondition of a run for a normal and an exceptional postcondition. With it the
  retry loop is shown to return with as much fuel as the policy of the operation has attempts, to invoke the
  body of an uncertain operation once, and to leave what an exception of the body needs: an unknown attempt
  and a run in \<^verbatim>\<open>RECOVERY_REQUIRED\<close>.
\<close>

definition post ::
  "'a tool_run \<Rightarrow> tool_world \<Rightarrow> tool_state \<Rightarrow> ('a \<Rightarrow> tool_state \<Rightarrow> bool) \<Rightarrow> (tool_exn \<Rightarrow> tool_state \<Rightarrow> bool) \<Rightarrow> bool" where
  "post m W s Q X = (case m W s of (s', Inr x) \<Rightarrow> Q x s' | (s', Inl e) \<Rightarrow> X e s')"

lemma post_bind [simp]: "post (bind_run m f) W s Q X \<longleftrightarrow> post m W s (\<lambda>x s1. post (f x) W s1 Q X) X"
  by (auto simp: post_def bind_run_def split: prod.splits sum.splits)

lemma post_simps [simp]:
  "post (give x) W s Q X \<longleftrightarrow> Q x s" "post (throw e) W s Q X \<longleftrightarrow> X e s"
  "post (set_current a b) W s Qu X \<longleftrightarrow> Qu () (s\<lparr>xs_operation := a, xs_attempt := b\<rparr>)"
  "post parent_operation W s Qp X \<longleftrightarrow> Qp (xs_operation s) s" "post world W s Qw X \<longleftrightarrow> Qw W s"
  "post (current_attempt_id msg) W s Qi X \<longleftrightarrow>
     (case xs_attempt s of None \<Rightarrow> X (ToolRuntimeError msg) s | Some i \<Rightarrow> Qi i s)"
  "post (invoke_body f i) W s Qb X \<longleftrightarrow>
     Qb (f (xs_tick s)) (s\<lparr>xs_tick := Suc (xs_tick s), xs_invoked := xs_invoked s @ [(i, xs_db s)]\<rparr>)"
  by (auto simp: post_def give_def throw_def set_current_def parent_operation_def world_def
      current_attempt_id_def invoke_body_def split: option.splits)

lemma post_if [simp]: "post (if b then m else n) W s Q X \<longleftrightarrow> (if b then post m W s Q X else post n W s Q X)"
  by simp

lemma post_mono:
  "post m W s Q X \<Longrightarrow> (\<And>x s'. Q x s' \<Longrightarrow> Q' x s') \<Longrightarrow> (\<And>e s'. X e s' \<Longrightarrow> X' e s') \<Longrightarrow> post m W s Q' X'"
  by (auto simp: post_def split: prod.splits sum.splits)

subsection \<open>Calls of the controller\<close>

definition later :: "env \<Rightarrow> tool_state \<Rightarrow> tool_state \<Rightarrow> bool" where
  "later E s s' \<longleftrightarrow> (step E)\<^sup>*\<^sup>* (xs_db s) (xs_db s') \<and> xs_invoked s' = xs_invoked s \<and>
     xs_operation s' = xs_operation s \<and> xs_attempt s' = xs_attempt s"

lemma later_refl [simp]: "later E s s"
  by (simp add: later_def)

lemma later_trans: "later E s s1 \<Longrightarrow> later E s1 s2 \<Longrightarrow> later E s s2"
  by (auto simp: later_def)

fun plain :: "tool_exn \<Rightarrow> bool" where
  "plain (BodyError e) = False"
| "plain (BodyCancelled e) = False"
| "plain OutOfFuel = False"
| "plain _ = True"

lemma post_ask:
  "world_ok E W \<Longrightarrow> post (ask f) W s (\<lambda>x s'. later E s s' \<and> f (xs_db s') = Inr x)
     (\<lambda>e s'. later E s s' \<and> plain e)"
  by (auto simp: post_def ask_def observe_def world_ok_def later_def Let_def split: sum.splits)

lemma post_await: "post await_point W s (\<lambda>_ s'. later E s s') (\<lambda>e s'. later E s s' \<and> plain e)"
  by (simp add: post_def await_point_def later_def)

text \<open>A committed command: the database before it, the applied command and its result.\<close>

definition committed ::
  "env \<Rightarrow> tool_world \<Rightarrow> (draw \<Rightarrow> Command) \<Rightarrow> string \<Rightarrow> tool_state \<Rightarrow> ApplyResult \<Rightarrow> tool_state \<Rightarrow> bool" where
  "committed E W body i s res s' \<longleftrightarrow> (\<exists>C ctx d n st k x. (step E)\<^sup>*\<^sup>* (xs_db s) d \<and> ct_env C = E \<and>
     k = command_of W n d st body \<and> st_run_id st = i \<and> cmd_command_id k \<notin> used_ids d \<and> fresh_ids d k x \<and>
     apply_command C ctx d k x = Inr (xs_db s', res))"

lemma post_submit:
  assumes "world_ok E W" "new_ids_only body"
  shows "post (submit st body) W s (\<lambda>res s'. later E s s' \<and> committed E W body (st_run_id st) s res s')
     (\<lambda>e s'. later E s s' \<and> plain e)"
proof -
  obtain s' r where r: "submit st body W s = (s', r)" by fastforce
  note S = submit_step [OF assms r]
  have ctx: "xs_operation s' = xs_operation s" "xs_attempt s' = xs_attempt s"
    and p: "\<And>e. r = Inl e \<Longrightarrow> plain e"
    using r by (auto simp: submit_def observe_def Let_def split: if_splits sum.splits)
  show ?thesis
  proof (cases r)
    case (Inl e)
    then show ?thesis using S(1,2) ctx p by (simp add: post_def r later_def)
  next
    case (Inr res)
    have "committed E W body (st_run_id st) s res s'" unfolding committed_def using S(3) [OF Inr] by blast
    then show ?thesis using Inr S(1,2) ctx by (simp add: post_def r later_def)
  qed
qed

lemma committed_before: "later E s s1 \<Longrightarrow> committed E W body i s1 res s' \<Longrightarrow> committed E W body i s res s'"
  unfolding committed_def later_def by (elim exE conjE) (intro exI conjI, erule (1) rtranclp_trans)

lemma state_in_run_id: "state_in d i = Inr st \<Longrightarrow> i = st_run_id st"
  by (auto simp: state_in_states result_simps find_Some_iff)

lemma post_submit_now:
  assumes w: "world_ok E W" and n: "new_ids_only body"
  shows "post (submit_now i body) W s (\<lambda>res s'. later E s s' \<and> committed E W body i s res s')
     (\<lambda>e s'. later E s s' \<and> plain e)"
  unfolding submit_now_def current_state_def post_bind
  by (rule post_mono [OF post_ask [OF w]])
     (auto intro!: post_mono [OF post_submit [OF w n]] intro: later_trans committed_before dest!: state_in_run_id)

lemma post_locked_submit:
  assumes w: "world_ok E W" and n: "new_ids_only body"
  shows "post (locked_submit i body) W s (\<lambda>res s'. later E s s' \<and> committed E W body i s res s')
     (\<lambda>e s'. later E s s' \<and> plain e)"
proof -
  have "locked_submit i body = bind_run await_point (\<lambda>_. submit_now i body)"
    by (simp add: locked_submit_def submit_now_def)
  then show ?thesis
    unfolding post_bind
    by (auto intro!: post_mono [OF post_await [of W s E]] intro: later_trans committed_before
        post_mono [OF post_submit_now [OF w n]])
qed

subsection \<open>What the attempt commands return\<close>

definition attempt_body ::
  "string \<Rightarrow> OperationStatus list \<Rightarrow> (draw \<Rightarrow> call \<Rightarrow> OperationAttempt \<Rightarrow> OperationAttempt) \<Rightarrow> (draw \<Rightarrow> Command) \<Rightarrow> bool" where
  "attempt_body i ss u body \<longleftrightarrow> (\<forall>w x. identity_kept (u w x)) \<and>
     (\<forall>C d k x st oc w. dispatch C d st k x (body w) = Inr oc \<longrightarrow>
        (\<exists>ch. attempt_command d st i (cx_now x) ss (u w x) ch = Inr oc))"

lemma attempt_bodies:
  "attempt_body i [OperationStatus.PREPARED] (\<lambda>w x. start_updates (cx_now x) (e w)) (\<lambda>w. StartOperationAttempt i (e w))"
  "attempt_body i [OperationStatus.PREPARED, OperationStatus.RUNNING] (\<lambda>w x. fail_updates (cx_now x) kd r)
     (\<lambda>_. FailOperationAttempt i kd r)"
  "attempt_body i [OperationStatus.RUNNING] (\<lambda>w x. unknown_updates r) (\<lambda>_. MarkOperationAttemptUnknown i r)"
  "attempt_body i [OperationStatus.RUNNING, OperationStatus.UNKNOWN] (\<lambda>w x. complete_updates (cx_now x) r h src)
     (\<lambda>_. CompleteOperationAttempt i r h src)"
  by (auto simp: attempt_body_def start_attempt_command_def fail_attempt_command_def
      mark_attempt_unknown_command_def complete_attempt_command_def result_simps split: if_splits)

text \<open>
  An update of attempt \<open>i\<close> of operation \<open>op0\<close>: the returned operation and attempt, the reduction that produced
  the operation, and the status stored.
\<close>

definition attempt_updated ::
  "string \<Rightarrow> OperationStatus list \<Rightarrow> (OperationAttempt \<Rightarrow> OperationAttempt) \<Rightarrow> db \<Rightarrow> ApplyResult \<Rightarrow> db \<Rightarrow> bool" where
  "attempt_updated i ss u d res d' \<longleftrightarrow> (\<exists>x r a op as ts.
     x \<in> set (operation_attempts d) \<and> ar_attempt_id x = i \<and> at_attempt_id a = i \<and>
     same_attempt (ar_document x) a \<and> a = (u (ar_document x))\<lparr>at_updated_at := ts\<rparr> \<and>
     r \<in> set (operation_ledger d) \<and> or_operation_id r = at_operation_id a \<and> a \<in> set as \<and>
     aggregate_operation (or_record r) as ts = Inr op \<and>
     ar_operation res = Some op \<and> ar_attempt res = Some a \<and> status_of d' i = Some (at_status a))"

lemma update_attempt_reduces:
  assumes "update_attempt d st i ts ss u = Inr (op, a)" "ledger_ok d" "identity_kept u"
  obtains x r as where "x \<in> set (operation_attempts d)" "ar_attempt_id x = i" "at_attempt_id a = i"
    "same_attempt (ar_document x) a" "a = (u (ar_document x))\<lparr>at_updated_at := ts\<rparr>"
    "r \<in> set (operation_ledger d)" "or_operation_id r = at_operation_id a" "a \<in> set as"
    "aggregate_operation (or_record r) as ts = Inr op"
proof -
  have inv: "ledger_inv (operation_ledger d) (operation_attempts d)" using assms(2) by (simp add: ledger_ok_def)
  from assms(1) obtain a0 op0 as where a0: "attempt_in d i = Inr a0" "a = (u a0)\<lparr>at_updated_at := ts\<rparr>"
    and op0: "operation_in d (at_operation_id a) = Inr op0" "attempts_in d (op_operation_id op0) = Inr as"
    "aggregate_operation op0 (map (\<lambda>y. if at_attempt_id y = i then a else y) as) ts = Inr op"
    by (auto simp: update_attempt_def Let_def result_simps split: if_splits)
  obtain x where x: "x \<in> set (operation_attempts d)" "ar_attempt_id x = i" "ar_document x = a0"
    using attempt_in_row [OF a0(1)] by blast
  obtain r where r: "r \<in> set (operation_ledger d)" "or_operation_id r = at_operation_id a" "or_record r = op0"
    using operation_in_row [OF op0(1)] by blast
  have same: "same_attempt (ar_document x) a"
    using assms(3) a0(2) x(3) by (simp add: identity_kept_def same_attempt_def)
  have id: "at_attempt_id a0 = i" using attempt_row_ok(2) [OF inv x(1)] x by simp
  have "op_operation_id op0 = at_operation_id a" using operation_row_ok(2) [OF inv r(1)] r by simp
  moreover have "ar_operation_id x = at_operation_id a"
    using attempt_row_ok(3) [OF inv x(1)] same by (simp add: same_attempt_def)
  ultimately have "a0 \<in> set (docs (operation_attempts d) (op_operation_id op0))"
    using x by (auto simp: docs_def)
  then have "a0 \<in> set as" using attempts_in_docs(1) [OF op0(2)] by (metis set_mset_mset)
  then have "a \<in> set (map (\<lambda>y. if at_attempt_id y = i then a else y) as)" using id by (auto intro!: image_eqI [of _ _ a0])
  moreover have "at_attempt_id a = i" using same id x(3) by (simp add: same_attempt_def)
  ultimately show thesis using that x r same a0(2) op0(3) by blast
qed

lemma committed_attempt:
  assumes c: "committed E W body j s res s'" and b: "attempt_body i ss u body" and ok: "ledger_ok (xs_db s)"
  obtains d w x where "(step E)\<^sup>*\<^sup>* (xs_db s) d" "ledger_ok d" "attempt_updated i ss (u w x) d res (xs_db s')"
proof -
  obtain C ctx d n st k x where h: "(step E)\<^sup>*\<^sup>* (xs_db s) d" and k: "k = command_of W n d st body"
    and ap: "cmd_command_id k \<notin> used_ids d" "apply_command C ctx d k x = Inr (xs_db s', res)"
    using c unfolding committed_def by blast
  have okd: "ledger_ok d" using history_advances [OF h ok] by blast
  obtain w where w: "cmd_body k = body w" by (simp add: k command_of_def)
  have idk: "identity_kept (u w x)" using b by (simp add: attempt_body_def)
  have cmd: "\<exists>ch. attempt_command d st i (cx_now x) ss (u w x) ch = Inr oc"
    if "dispatch C d st k x (cmd_body k) = Inr oc" for st oc
    using b that unfolding attempt_body_def w by blast
  obtain st2 op a where u: "update_attempt d st2 i (cx_now x) ss (u w x) = Inr (op, a)"
    "ar_operation res = Some op" "ar_attempt res = Some a"
    "\<forall>j. status_of (xs_db s') j = (if j = at_attempt_id a then Some (at_status a) else status_of d j)"
    by (rule applied_attempt [OF ap(2,1) okd cmd]) blast
  obtain y r as where y: "y \<in> set (operation_attempts d)" "ar_attempt_id y = i" "at_attempt_id a = i"
    "same_attempt (ar_document y) a" "a = (u w x (ar_document y))\<lparr>at_updated_at := cx_now x\<rparr>"
    "r \<in> set (operation_ledger d)" "or_operation_id r = at_operation_id a" "a \<in> set as"
    "aggregate_operation (or_record r) as (cx_now x) = Inr op"
    by (rule update_attempt_reduces [OF u(1) okd idk])
  have "status_of (xs_db s') i = Some (at_status a)" using u(4) y(3) by simp
  then have "attempt_updated i ss (u w x) d res (xs_db s')"
    unfolding attempt_updated_def using u(2,3) y by blast
  then show thesis using that h okd by blast
qed

subsection \<open>Attempts of an operation\<close>

definition serves :: "db \<Rightarrow> string \<Rightarrow> OperationRecord \<Rightarrow> nat \<Rightarrow> bool" where
  "serves d i op k \<longleftrightarrow>
     (\<exists>x. lookup_row ar_attempt_id i (operation_attempts d) = Some x \<and> ar_operation_id x = op_operation_id op \<and>
        ar_attempt_no x = k) \<and>
     (\<exists>op'. known d (op_operation_id op) = Some op' \<and> same_operation op op')"

lemma serves_later:
  assumes "serves d i op k" "(step E)\<^sup>*\<^sup>* d d'" "ledger_ok d"
  shows "serves d' i op k"
proof -
  obtain x op' where x: "lookup_row ar_attempt_id i (operation_attempts d) = Some x"
    "ar_operation_id x = op_operation_id op" "ar_attempt_no x = k"
    and op': "known d (op_operation_id op) = Some op'" "same_operation op op'"
    using assms(1) by (auto simp: serves_def)
  obtain y where "lookup_row ar_attempt_id i (operation_attempts d') = Some y" "row_le x y"
    using history_advances [OF assms(2,3)] x(1) unfolding advances_def by blast
  moreover obtain op'' where "known d' (op_operation_id op) = Some op''" "same_operation op' op''"
    using history_ops_kept [OF assms(2,3)] op'(1) unfolding ops_kept_def by blast
  ultimately show ?thesis
    using x(2,3) same_operation_trans [OF op'(2)] by (auto simp: serves_def row_le_def)
qed

lemma scheduled_bounds:
  assumes "aggregate_operation op0 as ts = Inr op" "op_next_retry_at op \<noteq> None"
  shows "op_latest_attempt_no op < rp_max_attempts (op_retry_policy_snapshot op0)"
    and "a \<in> set as \<Longrightarrow> at_attempt_no a \<le> op_latest_attempt_no op"
proof -
  let ?o = "sort_key at_attempt_no as" and ?p = "op_retry_policy_snapshot op0"
  obtain g where g: "reduce_operation (immutable_metadata op0) as ?p = Inr g"
    "op_latest_attempt_no op = ag_latest_attempt_no g" "op_next_retry_at op = ag_next_retry_at g"
    using assms(1) by (auto simp: aggregate_operation_def result_simps)
  have r: "as \<noteq> []" "numbered ?o" "aggregate_of_latest (last ?o) (length ?o) ?p = Inr g"
    using g(1) by (auto simp: reduce_operation_def Let_def split: if_splits)
  have ne: "?o \<noteq> []" using r(1) by (metis length_0_conv length_sort)
  have "length ?o < rp_max_attempts ?p"
    using r(3) assms(2) g(3)
    by (auto simp: aggregate_of_latest_def Let_def result_simps not_le split: option.splits if_splits)
  moreover have latest: "ag_latest_attempt_no g = length ?o"
    using aggregate_latest_no [OF r(3)] last_attempt_no [OF ne r(2)] by simp
  ultimately show "op_latest_attempt_no op < rp_max_attempts ?p" using g(2) by simp
  assume "a \<in> set as"
  then obtain j where "j < length ?o" "?o ! j = a" by (metis in_set_conv_nth set_sort)
  then have "at_attempt_no a \<le> length ?o" using r(2) by (auto simp: numbered_nth)
  then show "at_attempt_no a \<le> op_latest_attempt_no op" using latest g(2) by simp
qed

lemma updated_serves:
  assumes u: "attempt_updated i ss f d res d'" and ok: "ledger_ok d" and sv: "serves d i op k"
  obtains op2 a y ts where "ar_operation res = Some op2" "ar_attempt res = Some a" "same_operation op op2"
    "a = (f y)\<lparr>at_updated_at := ts\<rparr>" "status_of d' i = Some (at_status a)"
    "op_next_retry_at op2 \<noteq> None \<longrightarrow> k \<le> op_latest_attempt_no op2 \<and>
       op_latest_attempt_no op2 < rp_max_attempts (op_retry_policy_snapshot op)"
proof -
  obtain x r a op2 as ts where x: "x \<in> set (operation_attempts d)" "ar_attempt_id x = i"
    "same_attempt (ar_document x) a" "a = (f (ar_document x))\<lparr>at_updated_at := ts\<rparr>"
    and r: "r \<in> set (operation_ledger d)" "or_operation_id r = at_operation_id a" "a \<in> set as"
    "aggregate_operation (or_record r) as ts = Inr op2"
    and res: "ar_operation res = Some op2" "ar_attempt res = Some a" "status_of d' i = Some (at_status a)"
    using u unfolding attempt_updated_def by blast
  have inv: "ledger_inv (operation_ledger d) (operation_attempts d)" using ok by (simp add: ledger_ok_def)
  then have "lookup_row ar_attempt_id i (operation_attempts d) = Some x"
    using lookup_row_distinct [OF _ x(1)] x(2) by (metis ledger_inv_def)
  then have col: "ar_operation_id x = op_operation_id op" "ar_attempt_no x = k" using sv by (auto simp: serves_def)
  have doc: "at_operation_id (ar_document x) = ar_operation_id x" "at_attempt_no (ar_document x) = ar_attempt_no x"
    using arg_cong [OF attempt_row_ok(1) [OF inv x(1)], of ar_attempt_no] attempt_row_ok(3) [OF inv x(1)]
    by (simp_all add: attempt_row_of_def)
  have a: "at_operation_id a = op_operation_id op" "at_attempt_no a = k"
    using x(3) doc col by (simp_all add: same_attempt_def)
  have "known d (op_operation_id op) = Some (or_record r)"
    using known_stored [OF ok r(1)] operation_row_ok(2) [OF inv r(1)] r(2) a(1) by simp
  then have "same_operation op (or_record r)" using sv by (auto simp: serves_def)
  moreover have "same_operation (or_record r) op2" by (rule aggregate_reflects(2) [OF r(4)])
  ultimately have same: "same_operation op op2" "op_retry_policy_snapshot (or_record r) = op_retry_policy_snapshot op"
    using same_operation_trans same_operationD(9) by blast+
  have "op_next_retry_at op2 \<noteq> None \<longrightarrow>
      k \<le> op_latest_attempt_no op2 \<and> op_latest_attempt_no op2 < rp_max_attempts (op_retry_policy_snapshot op)"
    using scheduled_bounds [OF r(4)] r(3) a(2) same(2) by fastforce
  then show thesis using that res same(1) x(4) by blast
qed

lemma committed_begin:
  assumes c: "committed E W body j s res s'" and b: "\<And>w. body w = BeginOperationAttempt (q w)"
    and ok: "ledger_ok (xs_db s)"
  obtains a w where "ar_attempt res = Some a" "at_operation_id a = ba_operation_id (q w)"
    "at_attempt_no a = ba_expected_latest_attempt_no (q w) + 1"
    "lookup_row ar_attempt_id (at_attempt_id a) (operation_attempts (xs_db s')) = Some (attempt_row_of a)"
proof -
  obtain C ctx d n st k x where h: "(step E)\<^sup>*\<^sup>* (xs_db s) d" and k: "k = command_of W n d st body"
    and ap: "cmd_command_id k \<notin> used_ids d" "fresh_ids d k x" "apply_command C ctx d k x = Inr (xs_db s', res)"
    using c unfolding committed_def by blast
  have okd: "ledger_ok d" using history_advances [OF h ok] by blast
  obtain w where w: "cmd_body k = BeginOperationAttempt (q w)" by (simp add: k command_of_def b)
  obtain st1 oc where f: "dispatch C d st1 k x (cmd_body k) = Inr oc" "commit_outcome C st1 k x oc = Inr (xs_db s', res)"
    using ap(3) unused_command [OF ap(1)] by (rule apply_command_fresh)
  obtain op a where o: "begin_operation_attempt d st1 (q w) (cx_now x) = Inr (op, a)"
    and oc: "oc_db oc = d" "oc_operation oc = Some op" "oc_attempt oc = Some a" "oc_approval oc = None"
    using f(1) by (auto simp: w begin_attempt_command_def result_simps attempt_outcome_def state_outcome_def)
  obtain d1 d2 d3 e where s: "save_operation_opt (oc_db oc) (oc_operation oc) = Inr d1"
    "save_attempt_opt d1 (oc_attempt oc) = Inr d2" "save_approval_opt d2 (oc_approval oc) = Inr d3"
    "operation_attempts (xs_db s') = operation_attempts d3" and res: "res = result_of oc x e"
    using f(2) dispatch_frame(1) [OF f(1)] by (rule commit_outcome_Inr)
  have s1: "save_operation d op = Inr d1" "save_attempt d1 a = Inr d2" "d3 = d2"
    using s(1-3) by (simp_all add: oc save_operation_opt_def save_attempt_opt_def save_approval_opt_def)
  have id: "at_attempt_id a = ba_attempt_id (q w)" by (rule begun_attempt_id [OF o])
  have "at_attempt_id a \<notin> ar_attempt_id ` set (operation_attempts d)"
    using ap(2) w id by (simp add: fresh_ids_def Let_def)
  then have new: "at_attempt_id a \<notin> ar_attempt_id ` set (operation_attempts d1)"
    by (simp add: save_operation_tables(2) [OF s1(1)])
  have none: "lookup_row ar_attempt_id (at_attempt_id a) (operation_attempts d1) = None"
    using new by (simp add: lookup_row_None_iff)
  have "operation_attempts (xs_db s') = operation_attempts d1 @ [attempt_row_of a]"
    using save_attempt_fresh(1) [OF s1(2) new] s(4) s1(3) by simp
  then have look: "lookup_row ar_attempt_id (at_attempt_id a) (operation_attempts (xs_db s')) = Some (attempt_row_of a)"
    using none by (simp add: lookup_row_append)
  obtain op0 where op0: "operation_in d (ba_operation_id (q w)) = Inr op0" "at_operation_id a = op_operation_id op0"
    "at_attempt_no a = ba_expected_latest_attempt_no (q w) + 1"
    using o by (auto simp: begin_operation_attempt_def Let_def result_simps new_attempt_def split: if_splits)
  obtain r where r: "r \<in> set (operation_ledger d)" "or_operation_id r = ba_operation_id (q w)" "or_record r = op0"
    using operation_in_row [OF op0(1)] by blast
  have inv: "ledger_inv (operation_ledger d) (operation_attempts d)" using okd by (simp add: ledger_ok_def)
  have "op_operation_id op0 = ba_operation_id (q w)" using operation_row_ok(2) [OF inv r(1)] r(2,3) by simp
  moreover have "ar_attempt res = Some a" by (simp add: res result_of_def oc)
  ultimately show thesis using that look op0(2,3) by simp
qed

lemma committed_task:
  assumes c: "committed E W (\<lambda>_. move_task t msg) i s res s'"
  shows "\<exists>st. state_in (xs_db s') i = Inr st \<and> st_task_state st = t"
proof -
  obtain C ctx d n st k x where k: "k = command_of W n d st (\<lambda>_. move_task t msg)" "st_run_id st = i"
    and ap: "cmd_command_id k \<notin> used_ids d" "apply_command C ctx d k x = Inr (xs_db s', res)"
    using c unfolding committed_def by blast
  obtain st1 oc e where f: "state_in d (cmd_run_id k) = Inr st1" "dispatch C d st1 k x (cmd_body k) = Inr oc"
    "st_run_id (oc_state oc) = cmd_run_id k"
    "states (xs_db s') = map (\<lambda>s. if st_run_id s = cmd_run_id k then committed_state oc x else s) (states d)"
    using ap(2) unused_command [OF ap(1)] by (rule apply_fresh_facts)
  have run: "cmd_run_id k = i" by (simp add: k command_of_def)
  have "st_task_state (oc_state oc) = t"
    using f(2) by (auto simp: k command_of_def move_task_def transition_command_def apply_transition_def
        transition_task_def transition_execution_def state_outcome_def Let_def result_simps split: if_splits)
  moreover have "state_in (xs_db s') i = Inr (committed_state oc x)"
    using state_in_after [of "xs_db s'" "committed_state oc x" d i] f(1,3,4) run by simp
  ultimately show ?thesis by (simp add: committed_state_def)
qed

subsection \<open>Rules for the calls of the loop\<close>

lemma later_ledger: "later E s s' \<Longrightarrow> ledger_ok (xs_db s) \<Longrightarrow> ledger_ok (xs_db s')"
  using history_advances by (auto simp: later_def)

lemma later_serves: "later E s s' \<Longrightarrow> ledger_ok (xs_db s) \<Longrightarrow> serves (xs_db s) i op k \<Longrightarrow> serves (xs_db s') i op k"
  using serves_later by (auto simp: later_def)

lemma committed_serves:
  assumes c: "committed E W body j s res s'" and b: "attempt_body i ss u body" and ok: "ledger_ok (xs_db s)"
    and sv: "serves (xs_db s) i op k"
  shows "\<exists>op2 y w x ts. ar_operation res = Some op2 \<and> same_operation op op2 \<and>
     status_of (xs_db s') i = Some (at_status ((u w x y)\<lparr>at_updated_at := ts\<rparr>)) \<and>
     (op_next_retry_at op2 \<noteq> None \<longrightarrow> k \<le> op_latest_attempt_no op2 \<and>
        op_latest_attempt_no op2 < rp_max_attempts (op_retry_policy_snapshot op))"
proof -
  obtain d w x where d: "(step E)\<^sup>*\<^sup>* (xs_db s) d" "ledger_ok d" "attempt_updated i ss (u w x) d res (xs_db s')"
    by (rule committed_attempt [OF c b ok])
  show ?thesis
    by (rule updated_serves [OF d(3,2) serves_later [OF sv d(1) ok]]) blast
qed

lemma post_start:
  assumes w: "world_ok E W" and ok: "ledger_ok (xs_db s)" and sv: "serves (xs_db s) i op k"
  shows "post (start_attempt op0 i) W s (\<lambda>res s'. later E s s' \<and> (\<exists>op1. ar_operation res = Some op1 \<and> same_operation op op1))
     (\<lambda>e s'. later E s s' \<and> plain e)"
  unfolding start_attempt_def post_bind post_simps
  by (rule post_mono [OF post_locked_submit [OF w new_ids_simple(5)]])
     (auto dest: committed_serves [OF _ attempt_bodies(1) ok sv])

lemma post_fail:
  assumes w: "world_ok E W" and ok: "ledger_ok (xs_db s)" and sv: "serves (xs_db s) i op k"
  shows "post (fail_attempt op0 i kd msg) W s
     (\<lambda>res s'. later E s s' \<and> (\<exists>op2. ar_operation res = Some op2 \<and> same_operation op op2 \<and>
        (op_next_retry_at op2 \<noteq> None \<longrightarrow> k \<le> op_latest_attempt_no op2 \<and>
           op_latest_attempt_no op2 < rp_max_attempts (op_retry_policy_snapshot op))))
     (\<lambda>e s'. later E s s' \<and> plain e)"
  unfolding fail_attempt_def
  by (rule post_mono [OF post_locked_submit [OF w new_ids_simple(6)]])
     (auto dest: committed_serves [OF _ attempt_bodies(2) ok sv])

lemma post_next:
  assumes w: "world_ok E W" and ok: "ledger_ok (xs_db s)" and sv: "serves (xs_db s) i op k"
    and op2: "same_operation op op2"
  shows "post (next_attempt op2) W s
     (\<lambda>res s'. later E s s' \<and> (\<exists>a. ar_attempt res = Some a \<and>
        serves (xs_db s') (at_attempt_id a) op (op_latest_attempt_no op2 + 1)))
     (\<lambda>e s'. later E s s' \<and> plain e)"
  unfolding next_attempt_def
proof (rule post_mono [OF post_locked_submit [OF w]], goal_cases)
  case 1
  show ?case by (simp add: new_ids_only_def fresh_ids_def command_of_def used_ids_def)
next
  case (2 res s')
  note l = 2 [THEN conjunct1] and c = 2 [THEN conjunct2]
  obtain a q where a: "ar_attempt res = Some a" "at_operation_id a = op_operation_id op2"
    "at_attempt_no a = op_latest_attempt_no op2 + 1"
    "lookup_row ar_attempt_id (at_attempt_id a) (operation_attempts (xs_db s')) = Some (attempt_row_of a)"
    by (rule committed_begin [OF c _ ok]) (rule refl, simp)
  have "\<exists>op'. known (xs_db s') (op_operation_id op) = Some op' \<and> same_operation op op'"
    using later_serves [OF l ok sv] by (simp add: serves_def)
  then have "serves (xs_db s') (at_attempt_id a) op (op_latest_attempt_no op2 + 1)"
    using a same_operationD(1) [OF op2] by (simp add: serves_def attempt_row_of_def)
  then show ?case using l a(1) by blast
qed

lemma post_uncertain:
  assumes w: "world_ok E W" and ok: "ledger_ok (xs_db s)" and sv: "serves (xs_db s) i op k"
    and i: "xs_attempt s = Some i" and u: "uncertain_class (op_idempotency op1)"
  shows "post (record_uncertain_or_failed op1 e c mg) W s
     (\<lambda>_ s'. later E s s' \<and> (\<exists>t. status_of (xs_db s') i = Some t \<and> attempt_le OperationStatus.UNKNOWN t) \<and>
        (\<exists>st. state_in (xs_db s') (op_run_id op1) = Inr st \<and> st_task_state st = TaskState.RECOVERY_REQUIRED))
     (\<lambda>e s'. later E s s' \<and> plain e)"
proof -
  have mark: "post (submit st (\<lambda>_. MarkOperationAttemptUnknown i r)) W s1
     (\<lambda>_ s'. later E s s' \<and> status_of (xs_db s') i = Some OperationStatus.UNKNOWN) (\<lambda>e s'. later E s s' \<and> plain e)"
    if l: "later E s s1" for st r s1
    by (rule post_mono [OF post_submit [OF w new_ids_simple(7)]])
       (use l in \<open>auto intro: later_trans simp: unknown_updates_def
          dest!: committed_serves [OF _ attempt_bodies(3) later_ledger [OF l ok] later_serves [OF l ok sv]]\<close>)
  have move: "post (submit_now (op_run_id op1) (\<lambda>_. move_task TaskState.RECOVERY_REQUIRED r)) W s1
     (\<lambda>_ s'. later E s s' \<and> (\<exists>t. status_of (xs_db s') i = Some t \<and> attempt_le OperationStatus.UNKNOWN t) \<and>
        (\<exists>st. state_in (xs_db s') (op_run_id op1) = Inr st \<and> st_task_state st = TaskState.RECOVERY_REQUIRED))
     (\<lambda>e s'. later E s s' \<and> plain e)"
    if l: "later E s s1" and st: "status_of (xs_db s1) i = Some OperationStatus.UNKNOWN" for r s1
  proof (rule post_mono [OF post_submit_now [OF w new_ids_simple(3)]], goal_cases)
    case (1 x s')
    have "\<exists>t. status_of (xs_db s') i = Some t \<and> attempt_le OperationStatus.UNKNOWN t"
      using 1 history_advances later_ledger [OF l ok] advances_status [OF _ st] unfolding later_def by blast
    then show ?case using 1 later_trans [OF l] committed_task by blast
  qed (use later_trans [OF l] in blast)
  show ?thesis
    unfolding record_uncertain_or_failed_def Let_def current_state_def post_bind
    by (rule post_mono [OF post_ask [OF w]])
       (auto simp: u later_def [of E s] i intro!: post_mono [OF mark [unfolded later_def]] post_mono [OF move [unfolded later_def]])
qed

lemma post_determined:
  assumes w: "world_ok E W"
  shows "post (determined_failure op0 msg mg) W s (\<lambda>_ _. False)
     (\<lambda>e s'. (step E)\<^sup>*\<^sup>* (xs_db s) (xs_db s') \<and> xs_invoked s' = xs_invoked s \<and> plain e)"
proof -
  have sub: "post (submit st (\<lambda>_. move_execution OBSERVING r)) W s1
     (\<lambda>_ s'. (step E)\<^sup>*\<^sup>* (xs_db s) (xs_db s') \<and> xs_invoked s' = xs_invoked s)
     (\<lambda>e s'. (step E)\<^sup>*\<^sup>* (xs_db s) (xs_db s') \<and> xs_invoked s' = xs_invoked s \<and> plain e)"
    if l: "later E s s1" for st r s1
    by (rule post_mono [OF post_submit [OF w new_ids_simple(1)]]) (use l in \<open>auto simp: later_def\<close>)
  show ?thesis
    unfolding determined_failure_def current_state_def post_bind
    by (rule post_mono [OF post_ask [OF w]]) (auto simp: later_def [of E s] intro!: post_mono [OF sub [unfolded later_def]])
qed

lemma post_failed_call:
  assumes w: "world_ok E W"
  shows "post (record_uncertain_or_failed op1 e c mg) W s
     (\<lambda>_ s'. (step E)\<^sup>*\<^sup>* (xs_db s) (xs_db s') \<and> xs_invoked s' = xs_invoked s) (\<lambda>e s'. xs_invoked s' = xs_invoked s \<and> plain e)"
proof -
  have sub: "post (submit st body) W s1 (\<lambda>_ s'. later E s s') (\<lambda>e s'. later E s s' \<and> plain e)"
    if "later E s s1" "new_ids_only body" for st body s1
    by (rule post_mono [OF post_submit [OF w that(2)]]) (use that(1) later_trans in blast)+
  have now: "post (submit_now j body) W s1 (\<lambda>_ s'. later E s s') (\<lambda>e s'. later E s s' \<and> plain e)"
    if "later E s s1" "new_ids_only body" for j body s1
    by (rule post_mono [OF post_submit_now [OF w that(2)]]) (use that(1) later_trans in blast)+
  have locked: "post (locked_submit j body) W s1 (\<lambda>_ s'. later E s s') (\<lambda>e s'. later E s s' \<and> plain e)"
    if "later E s s1" "new_ids_only body" for j body s1
    by (rule post_mono [OF post_locked_submit [OF w that(2)]]) (use that(1) later_trans in blast)+
  have "post (record_uncertain_or_failed op1 e c mg) W s (\<lambda>_ s'. later E s s') (\<lambda>e s'. later E s s' \<and> plain e)"
    unfolding record_uncertain_or_failed_def Let_def current_state_def post_bind fail_attempt_def
    by (rule post_mono [OF post_ask [OF w]])
       (auto split: option.splits intro!: post_mono [OF sub] post_mono [OF now] post_mono [OF locked])
  then show ?thesis by (rule post_mono) (auto simp: later_def)
qed

subsection \<open>The loop\<close>

definition recovery_needed :: "db \<Rightarrow> string \<Rightarrow> string \<Rightarrow> bool" where
  "recovery_needed d run i \<longleftrightarrow> (\<exists>t. status_of d i = Some t \<and> attempt_le OperationStatus.UNKNOWN t) \<and>
     (\<exists>st. state_in d run = Inr st \<and> st_task_state st = TaskState.RECOVERY_REQUIRED)"

definition loop_result ::
  "(nat \<Rightarrow> body_outcome) \<Rightarrow> OperationRecord \<Rightarrow> tool_state \<Rightarrow> string \<times> string \<Rightarrow> tool_state \<Rightarrow> bool" where
  "loop_result invoke op s r s' \<longleftrightarrow> (\<exists>n. invoke n = Returned (snd r)) \<and> ledger_ok (xs_db s') \<and>
     (\<exists>k. serves (xs_db s') (fst r) op k) \<and>
     (\<exists>xs e. xs_invoked s' = xs_invoked s @ xs @ [(fst r, e)] \<and> (uncertain_class (op_idempotency op) \<longrightarrow> xs = []))"

definition loop_error :: "OperationRecord \<Rightarrow> tool_state \<Rightarrow> tool_exn \<Rightarrow> tool_state \<Rightarrow> bool" where
  "loop_error op s e s' \<longleftrightarrow> e \<noteq> OutOfFuel \<and>
     (uncertain_class (op_idempotency op) \<longrightarrow> (\<exists>new. xs_invoked s' = xs_invoked s @ new \<and> length new \<le> 1 \<and>
        (plain e \<or> (\<exists>i d. new = [(i, d)] \<and> recovery_needed (xs_db s') (op_run_id op) i))))"

lemma plain_error: "plain e \<Longrightarrow> xs_invoked s' = xs_invoked s \<Longrightarrow> loop_error op s e s'"
  by (auto simp: loop_error_def intro!: exI [of _ "[]"])

lemma plain_error_one: "plain e \<Longrightarrow> xs_invoked s' = xs_invoked s @ [(i, d)] \<Longrightarrow> loop_error op s e s'"
  by (auto simp: loop_error_def intro!: exI [of _ "[(i, d)]"])

lemma certain_error: "e \<noteq> OutOfFuel \<Longrightarrow> \<not> uncertain_class (op_idempotency op) \<Longrightarrow> loop_error op s e s'"
  by (simp add: loop_error_def)

lemma plain_not_fuel: "plain e \<Longrightarrow> e \<noteq> OutOfFuel"
  by auto

lemma post_stop:
  assumes w: "world_ok E W" and ok: "ledger_ok (xs_db s2)" and i: "xs_attempt s2 = Some i"
    and sv: "serves (xs_db s2) i op k" and inv: "xs_invoked s2 = xs_invoked s @ [(i, d)]"
    and op1: "same_operation op op1" and ex: "ex \<noteq> OutOfFuel"
  shows "post (bind_run (record_uncertain_or_failed op1 e c manage) (\<lambda>_. throw ex)) W s2 Q (loop_error op s)"
proof (cases "uncertain_class (op_idempotency op)")
  case True
  have idem: "op_idempotency op1 = op_idempotency op" "op_run_id op1 = op_run_id op"
    using same_operationD(8,2) [OF op1] by simp_all
  show ?thesis
    unfolding post_bind post_simps
    by (rule post_mono [OF post_uncertain [OF w ok sv i]])
       (use True idem inv ex in \<open>auto simp: later_def loop_error_def recovery_needed_def\<close>)
next
  case False
  show ?thesis
    unfolding post_bind post_simps
    by (rule post_mono [OF post_failed_call [OF w]]) (use False ex plain_not_fuel in \<open>auto intro: certain_error\<close>)
qed

text \<open>Another round is entered with a higher attempt number that the policy still allows.\<close>

lemma post_retry:
  assumes w: "world_ok E W" and ok: "ledger_ok (xs_db s2)" and sv: "serves (xs_db s2) i op k"
    and err: "\<And>e s'. plain e \<Longrightarrow> X e s'"
    and again: "\<And>op3 s3 j n. later E s2 s3 \<Longrightarrow> serves (xs_db s3) j op n \<Longrightarrow> k < n \<Longrightarrow>
      n \<le> rp_max_attempts (op_retry_policy_snapshot op) \<Longrightarrow>
      post (again op3) W (s3\<lparr>xs_attempt := Some j\<rparr>) Q X"
  shows "post (retry_or_report op1 i e manage again) W s2 Q X"
  unfolding retry_or_report_def post_bind
proof (rule post_mono [OF post_fail [OF w ok sv]], goal_cases)
  case (1 res s4)
  then obtain op2 where op2: "ar_operation res = Some op2" "same_operation op op2" and l4: "later E s2 s4"
    and b: "op_next_retry_at op2 \<noteq> None \<longrightarrow> k \<le> op_latest_attempt_no op2 \<and>
      op_latest_attempt_no op2 < rp_max_attempts (op_retry_policy_snapshot op)" by blast
  show ?case
  proof (cases "retry_scheduled op2")
    case False
    then show ?thesis
      unfolding op2(1) or_keep_def Let_def option.case by (simp add: post_mono [OF post_determined [OF w]] err)
  next
    case True
    have enter: "post (again op3) W (s6\<lparr>xs_attempt := Some j\<rparr>) Q X"
      if "later E s4 s6" "serves (xs_db s6) j op (Suc (op_latest_attempt_no op2))" for j op3 s6
      by (rule again [OF later_trans [OF l4 that(1)] that(2)]) (use True b in \<open>auto simp: retry_scheduled_def\<close>)
    have nx: "post (next_attempt op2) W s5 (\<lambda>begun s6. post (case ar_attempt begun of
           None \<Rightarrow> throw AssertionError
         | Some a \<Rightarrow> bind_run parent_operation (\<lambda>current.
             bind_run (set_current current (Some (at_attempt_id a))) (\<lambda>_.
               again (case ar_operation begun of None \<Rightarrow> op2 | Some x \<Rightarrow> x)))) W s6 Q X) X"
      if l5: "later E s4 s5" for s5
      by (rule post_mono [OF post_next [OF w later_ledger [OF later_trans [OF l4 l5] ok]
            later_serves [OF later_trans [OF l4 l5] ok sv] op2(2)]])
         (auto intro: err intro!: enter [OF later_trans [OF l5]])
    show ?thesis
      using True unfolding op2(1) or_keep_def Let_def option.case
      by (simp only: not_True_eq_False if_False post_bind) (rule post_mono [OF post_await nx], assumption, rule err, erule conjunct2)
  qed
qed (use err in simp)

lemma loop_spec:
  assumes w: "world_ok E W" and "ledger_ok (xs_db s)" "xs_attempt s = Some i"
    and "serves (xs_db s) i op k" "0 < fuel"
    and "rp_max_attempts (op_retry_policy_snapshot op) + 1 \<le> k + fuel"
  shows "post (attempt_loop fuel invoke manage op0) W s (loop_result invoke op s) (loop_error op s)"
  using assms(2-)
proof (induction fuel arbitrary: s i k op0)
  case (Suc fuel)
  note ok = Suc.prems(1) and i = Suc.prems(2) and sv = Suc.prems(3)
  have body: "post (after_body op1 i oc manage (attempt_loop fuel invoke manage)) W s2
      (loop_result invoke op s) (loop_error op s)"
    if op1: "same_operation op op1" and oc: "\<exists>n. invoke n = oc" and ok2: "ledger_ok (xs_db s2)"
      and at2: "xs_attempt s2 = Some i" and sv2: "serves (xs_db s2) i op k"
      and inv2: "xs_invoked s2 = xs_invoked s @ [(i, d)]" for op1 oc s2 d
    unfolding after_body_def post_bind [of await_point]
  proof (rule post_mono [OF post_await [of W s2 E]], goal_cases)
    case (1 u s3)
    have s3: "ledger_ok (xs_db s3)" "xs_attempt s3 = Some i" "serves (xs_db s3) i op k"
      "xs_invoked s3 = xs_invoked s @ [(i, d)]"
      using 1 at2 inv2 later_ledger [OF 1 ok2] later_serves [OF 1 ok2 sv2] by (simp_all add: later_def)
    have next_round: "post (attempt_loop fuel invoke manage op3) W (s4\<lparr>xs_attempt := Some j\<rparr>)
        (loop_result invoke op s) (loop_error op s)"
      if l: "later E s3 s4" and sv4: "serves (xs_db s4) j op n" and n: "k < n"
        "n \<le> rp_max_attempts (op_retry_policy_snapshot op)"
        and nu: "\<not> uncertain_class (op_idempotency op)" for op3 s4 j n
      by (rule post_mono [OF Suc.IH [of _ j n]])
         (use l s3(1,4) sv4 n nu Suc.prems(5) later_ledger [OF l]
           in \<open>auto simp: later_def loop_result_def loop_error_def\<close>)
    show ?case
    proof (cases oc)
      case (Returned v)
      then show ?thesis using oc s3 by (fastforce simp: loop_result_def)
    next
      case (Raised e)
      show ?thesis
      proof (cases "uncertain_class (op_idempotency op)")
        case True
        then show ?thesis
          using post_stop [OF w s3(1,2,3,4) op1, of "BodyError e"] same_operationD(8) [OF op1]
          by (simp add: Raised del: post_bind)
      next
        case False
        then show ?thesis
          using post_retry [OF w s3(1,3) certain_error [OF plain_not_fuel False] next_round]
            same_operationD(8) [OF op1] by (simp add: Raised del: post_bind)
      qed
    next
      case (Cancelled e)
      then show ?thesis using post_stop [OF w s3(1,2,3,4) op1, of "BodyCancelled e"] by (simp del: post_bind)
    qed
  next
    case (2 e s3)
    then show ?case using inv2 plain_error_one by (auto simp: later_def)
  qed
  show ?case
    unfolding attempt_loop.simps post_bind [of "current_attempt_id _"] post_simps(6) i option.case
      post_bind [of "start_attempt _ _"]
  proof (rule post_mono [OF post_start [OF w ok sv]], goal_cases)
    case (1 res s1)
    then obtain op1 where op1: "ar_operation res = Some op1" "same_operation op op1" and l: "later E s s1" by blast
    show ?case
      unfolding op1(1) or_keep_def option.case post_bind [of "invoke_body _ _"] post_simps(7)
      by (rule body [OF op1(2)])
         (use l later_ledger [OF l ok] later_serves [OF l ok sv] i in \<open>auto simp: later_def\<close>)
  next
    case (2 e s1)
    then show ?case using plain_error by (auto simp: later_def)
  qed
qed simp

subsection \<open>Executions\<close>

lemma post_settle:
  assumes w: "world_ok E W" and ok: "ledger_ok (xs_db s)" and sv: "serves (xs_db s) i op k"
  shows "post (settle_result op0 mg (i, v)) W s
     (\<lambda>v' s'. v' = v \<and> xs_invoked s' = xs_invoked s \<and> status_of (xs_db s') i = Some OperationStatus.COMPLETED)
     (\<lambda>e s'. xs_invoked s' = xs_invoked s \<and> plain e)"
proof -
  have final: "status_of (xs_db s2) i = Some OperationStatus.COMPLETED"
    if l: "later E s1 s2" and ok1: "ledger_ok (xs_db s1)"
      and st: "status_of (xs_db s1) i = Some OperationStatus.COMPLETED" for s1 s2
  proof -
    obtain t where "status_of (xs_db s2) i = Some t" "attempt_le OperationStatus.COMPLETED t"
      using l history_advances [OF _ ok1] advances_status [OF _ st] unfolding later_def by blast
    then show ?thesis by (simp add: attempt_le_def)
  qed
  have move: "post (submit_now j (\<lambda>_. move_execution OBSERVING r)) W s1
     (\<lambda>_ s2. xs_invoked s2 = xs_invoked s \<and> status_of (xs_db s2) i = Some OperationStatus.COMPLETED)
     (\<lambda>e s2. xs_invoked s2 = xs_invoked s \<and> plain e)"
    if "later E s s1" "status_of (xs_db s1) i = Some OperationStatus.COMPLETED" for j r s1
  proof (rule post_mono [OF post_submit_now [OF w new_ids_simple(1)]], goal_cases)
    case (1 x s2)
    then show ?case using final [OF _ later_ledger [OF that(1) ok] that(2)] that(1) by (simp add: later_def)
  qed (use that(1) in \<open>simp add: later_def\<close>)
  show ?thesis
    unfolding settle_result_def Let_def fst_conv snd_conv post_bind post_simps
  proof (rule post_mono [OF post_locked_submit [OF w new_ids_simple(8)]], goal_cases)
    case (1 res s1)
    then have "status_of (xs_db s1) i = Some OperationStatus.COMPLETED"
      using committed_serves [OF conjunct2 [OF 1] attempt_bodies(4) ok sv] by (auto simp: complete_updates_def)
    then show ?case using 1 move [of s1] by (auto simp: later_def intro!: post_mono [OF move])
  qed (simp add: later_def)
qed

lemma current_serves:
  assumes ok: "ledger_ok d" and op: "known d (op_operation_id op) = Some op'" "same_operation op0 op'"
    and a: "current_attempt_in d (op_operation_id op) = Inr a"
  shows "\<exists>k. serves d (at_attempt_id a) op0 (Suc k)"
proof -
  have inv: "ledger_inv (operation_ledger d) (operation_attempts d)" using ok by (simp add: ledger_ok_def)
  obtain x where x: "x \<in> set (operation_attempts d)" "ar_document x = a" "ar_operation_id x = op_operation_id op"
    using current_attempt_row [OF a] by blast
  obtain r where r: "r \<in> set (operation_ledger d)" "or_operation_id r = op_operation_id op" "or_record r = op'"
    using op(1) lookup_row_Some_mem by (fastforce simp: known_def)
  have id: "op_operation_id op' = op_operation_id op" using operation_row_ok(2) [OF inv r(1)] r by simp
  have "reflects op' (docs (operation_attempts d) (op_operation_id op))"
    using operation_row_ok(3) [OF inv r(1)] r by simp
  then obtain g where "reduce_operation (immutable_metadata op') (docs (operation_attempts d) (op_operation_id op))
      (op_retry_policy_snapshot op') = Inr g" by (auto simp: reflects_def)
  then have "numbered (sort_key at_attempt_no (docs (operation_attempts d) (op_operation_id op)))"
    by (auto simp: reduce_operation_def Let_def split: if_splits)
  moreover have "a \<in> set (sort_key at_attempt_no (docs (operation_attempts d) (op_operation_id op)))"
    using x by (auto simp: docs_def)
  ultimately obtain k where k: "at_attempt_no a = Suc k" by (metis in_set_conv_nth numbered_nth)
  have "lookup_row ar_attempt_id (at_attempt_id a) (operation_attempts d) = Some x"
    using lookup_row_distinct [OF _ x(1)] attempt_row_ok(2) [OF inv x(1)] x(2) inv by (metis ledger_inv_def)
  moreover have "ar_attempt_no x = Suc k"
    using arg_cong [OF attempt_row_ok(1) [OF inv x(1)], of ar_attempt_no] x(2) k by (simp add: attempt_row_of_def)
  ultimately show ?thesis
    using x(3) op same_operationD(1) [OF op(2)] id by (auto simp: serves_def)
qed

definition execution_result ::
  "(nat \<Rightarrow> body_outcome) \<Rightarrow> OperationRecord \<Rightarrow> tool_state \<Rightarrow> string \<Rightarrow> tool_state \<Rightarrow> bool" where
  "execution_result invoke op s v s' \<longleftrightarrow>
     (\<exists>n i xs e. invoke n = Returned v \<and> xs_invoked s' = xs_invoked s @ xs @ [(i, e)] \<and>
        (uncertain_class (op_idempotency op) \<longrightarrow> xs = []) \<and>
        status_of (xs_db s') i = Some OperationStatus.COMPLETED)"

lemma post_quiet:
  assumes "quiet_run E W m"
  shows "post m W s (\<lambda>_ s'. xs_invoked s' = xs_invoked s) (\<lambda>_ s'. xs_invoked s' = xs_invoked s)"
  using assms by (auto simp: post_def quiet_run_def split: prod.splits sum.splits) (metis fst_conv)+

lemma post_skip_denied:
  assumes w: "world_ok E W"
  shows "post (skip_denied op r) W s (\<lambda>v s'. v = not_executed_sorted op r \<and> xs_invoked s' = xs_invoked s)
     (\<lambda>e s'. xs_invoked s' = xs_invoked s \<and> plain e)"
proof -
  have sub: "post (submit st body) W s1 (\<lambda>_ s'. later E s s') (\<lambda>e s'. later E s s' \<and> plain e)"
    if "later E s s1" "new_ids_only body" for st body s1
    by (rule post_mono [OF post_submit [OF w that(2)]]) (use that(1) later_trans in blast)+
  have read: "post (ask f) W s1 (\<lambda>_ s'. later E s s') (\<lambda>e s'. later E s s' \<and> plain e)"
    if "later E s s1" for f :: "db \<Rightarrow> 'b result" and s1
    by (rule post_mono [OF post_ask [OF w]]) (use that later_trans in blast)+
  show ?thesis
    unfolding skip_denied_def current_state_def post_bind
    by (rule post_mono [OF read])
       (auto simp: later_def [of E s] intro!: post_mono [OF read [unfolded later_def]] post_mono [OF sub [unfolded later_def]])
qed

lemma post_gate:
  "post gate_state W s (\<lambda>_ s'. later E s s') (\<lambda>e s'. later E s s' \<and> plain e)"
  "post enter_lifecycle W s (\<lambda>_ s'. later E s s') (\<lambda>e s'. later E s s' \<and> plain e)"
  by (auto simp: post_def gate_state_def enter_lifecycle_def later_def Let_def split: option.splits sum.splits)

lemma post_enter_acting:
  assumes w: "world_ok E W"
  shows "post (enter_acting op mg) W s (\<lambda>_ s'. later E s s') (\<lambda>e s'. later E s s' \<and> plain e)"
proof -
  have sub: "post (submit st body) W s1 (\<lambda>_ s'. later E s s') (\<lambda>e s'. later E s s' \<and> plain e)"
    if "later E s s1" "new_ids_only body" for st body s1
    by (rule post_mono [OF post_submit [OF w that(2)]]) (use that(1) later_trans in blast)+
  show ?thesis
    unfolding enter_acting_def current_state_def post_bind
    by (rule post_mono [OF post_ask [OF w]]) (auto intro!: post_mono [OF sub])
qed

lemma execute_spec:
  assumes w: "world_ok E W" and ok: "ledger_ok (xs_db s)"
    and op: "operation_in (xs_db s) (op_operation_id op) = Inr op'"
    and fuel: "0 < fuel" "rp_max_attempts (op_retry_policy_snapshot op') \<le> fuel"
  shows "post (execute fuel invoke manage op) W s
     (\<lambda>v s'. v = not_executed_sorted op ''maintenance_new_work_denied'' \<and> op_name op \<in> set maintenance_tools \<and>
          xs_invoked s' = xs_invoked s \<or> execution_result invoke op' s v s') (loop_error op' s)"
proof -
  let ?Q = "\<lambda>v s'. v = not_executed_sorted op ''maintenance_new_work_denied'' \<and> op_name op \<in> set maintenance_tools \<and>
          xs_invoked s' = xs_invoked s \<or> execution_result invoke op' s v s'"
  have err: "loop_error op' s e s'" if "later E s s' \<and> plain e" for e s'
    using that plain_error by (auto simp: later_def)
  have kn: "known (xs_db s) (op_operation_id op) = Some op'"
    using op by (auto simp: known_def operation_in_def result_simps)
  have settle: "post (settle_result op0 manage r) W s3 ?Q (loop_error op' s)" if "loop_result invoke op' s r s3" for op0 r s3
  proof -
    obtain n k xs e where r: "invoke n = Returned (snd r)" "ledger_ok (xs_db s3)" "serves (xs_db s3) (fst r) op' k"
      "xs_invoked s3 = xs_invoked s @ xs @ [(fst r, e)]" "uncertain_class (op_idempotency op') \<longrightarrow> xs = []"
      using \<open>loop_result invoke op' s r s3\<close> unfolding loop_result_def by blast
    show ?thesis
    proof (cases r)
      case (Pair i v)
      note settled = post_settle [OF w r(2), of i op' k op0 manage v]
      show ?thesis
        unfolding Pair
        by (rule post_mono [OF settled])
           (use r Pair in \<open>auto simp: execution_result_def loop_error_def intro: plain_not_fuel\<close>)
    qed
  qed
  have loop: "post (attempt_loop fuel invoke manage op) W s2 (\<lambda>r s3. post (settle_result op manage r) W s3 ?Q (loop_error op' s))
      (loop_error op' s)"
    if l: "later E s1 s2" "xs_invoked s1 = xs_invoked s" "ledger_ok (xs_db s1)" "serves (xs_db s1) i op' (Suc k)"
      "xs_attempt s1 = Some i" for s1 s2 i k
  proof -
    have i: "xs_attempt s2 = Some i" and inv: "xs_invoked s2 = xs_invoked s" using l by (simp_all add: later_def)
    show ?thesis
      by (rule post_mono [OF loop_spec [OF w later_ledger [OF l(1,3)] i later_serves [OF l(1,3,4)] fuel(1)]])
         (use fuel(2) inv settle in \<open>auto simp: loop_result_def loop_error_def\<close>)
  qed
  have run: "post (bind_run (set_current (Some (op_operation_id op)) (Some (at_attempt_id a))) (\<lambda>_.
       bind_run (enter_acting op manage) (\<lambda>_.
       bind_run (attempt_loop fuel invoke manage op) (settle_result op manage)))) W s1 ?Q (loop_error op' s)"
    if l: "later E s s1" and a: "current_attempt_in (xs_db s1) (op_operation_id op) = Inr a" for a s1
  proof -
    obtain op'' where o: "known (xs_db s1) (op_operation_id op) = Some op''" "same_operation op' op''"
      using history_ops_kept [of E "xs_db s" "xs_db s1"] l ok kn unfolding later_def ops_kept_def by blast
    obtain k where k: "serves (xs_db s1) (at_attempt_id a) op' (Suc k)"
      using current_serves [OF later_ledger [OF l ok] o a] by blast
    let ?s = "s1\<lparr>xs_operation := Some (op_operation_id op), xs_attempt := Some (at_attempt_id a)\<rparr>"
    have inv: "xs_invoked ?s = xs_invoked s" and okl: "ledger_ok (xs_db ?s)"
      using l later_ledger [OF l ok] by (simp_all add: later_def)
    show ?thesis
      unfolding post_bind post_simps
      by (rule post_mono [OF post_enter_acting [OF w]])
         (use inv okl k in \<open>auto simp: later_def intro: plain_error intro!: loop [of ?s _ "at_attempt_id a" k]\<close>)
  qed
  show ?thesis
    unfolding execute_def post_bind [of enter_lifecycle] post_bind [of gate_state]
  proof (rule post_mono [OF post_gate(2) [of W s E]], rule post_mono [OF post_gate(1) [of W _ E]], goal_cases)
    case (1 u s1 g s2)
    have l: "later E s s2" by (rule later_trans [OF 1])
    have ask_run: "post (bind_run (ask (\<lambda>d. current_attempt_in d (op_operation_id op))) (\<lambda>a.
       bind_run (set_current (Some (op_operation_id op)) (Some (at_attempt_id a))) (\<lambda>_.
       bind_run (enter_acting op manage) (\<lambda>_.
       bind_run (attempt_loop fuel invoke manage op) (settle_result op manage))))) W s2 ?Q (loop_error op' s)"
      unfolding post_bind [of "ask _"]
      by (rule post_mono [OF post_ask [OF w]]) (use later_trans [OF l] run err in blast)+
    have skip: "post (skip_denied op ''maintenance_new_work_denied'') W s2 ?Q (loop_error op' s)"
      if "op_name op \<in> set maintenance_tools"
      by (rule post_mono [OF post_skip_denied [OF w]]) (use that l plain_error in \<open>auto simp: later_def\<close>)
    show ?case
    proof (cases "op_name op \<in> set maintenance_tools \<and> g \<noteq> None \<and> g \<noteq> Some MaintenanceState.RUNNING")
      case True
      then show ?thesis unfolding post_if if_P [OF True] using skip by blast
    next
      case False
      show ?thesis unfolding post_if if_not_P [OF False] by (rule ask_run)
    qed
  next
    case (2 u s1 e s2)
    then show ?case using err later_trans by blast
  next
    case (3 e s1)
    then show ?case using err by blast
  qed
qed

text \<open>
  C21. The retry loop of a tool returns: with as much fuel as the retry policy of the operation has attempts,
  an execution never runs out of it, whatever the tool, the clock and the other writers do.
\<close>

theorem execution_returns:
  assumes "world_ok E W" "ledger_ok (xs_db s)" "operation_in (xs_db s) (op_operation_id op) = Inr op'"
    and "0 < fuel" "rp_max_attempts (op_retry_policy_snapshot op') \<le> fuel"
    and "execute fuel invoke manage op W s = (s', r)"
  shows "r \<noteq> Inl OutOfFuel"
  using execute_spec [OF assms(1-5), of invoke manage] assms(6)
  by (auto simp: post_def loop_error_def split: sum.splits)



end
