(* ===== verification/Tool_Registry.thy ===== *)
theory Tool_Registry
  imports Tool_Outcomes
begin

section \<open>The tool registry\<close>

text \<open>
  \<^verbatim>\<open>AsyncToolRegistry\<close> of \<^verbatim>\<open>tool/registry.py\<close>: registration, selection, the preflight of an invocation and
  \<^verbatim>\<open>execute_prepared\<close>, which decides on authorisation and approval before the coordinator runs the body. A tool
  is a record of its attributes; its callables are functions of the arguments, already applied to the context
  of the call (\<open>to_available\<close> is \<^verbatim>\<open>is_available(name, context)\<close>). \<open>to_validate\<close> stands for the Pydantic model
  that is built from the schema.
\<close>

record tool =
  to_name :: string
  to_description :: string
  to_schema :: json
  to_risk :: string
  to_declared :: "string option"
  to_parallel_safe :: bool
  to_delegatable :: bool
  to_extension_preapproval :: bool
  to_runtime_profiles :: "string list"
  to_available :: bool
  to_risk_for :: "(dict \<Rightarrow> string) option"
  to_approval_required :: "(dict \<Rightarrow> bool) option"
  to_ends_turn :: "(string \<Rightarrow> bool) option"
  to_prepare_arguments :: "(dict \<Rightarrow> dict result) option"
  to_ensure_available :: "(dict \<Rightarrow> unit result) option"
  to_validate :: "dict \<Rightarrow> dict result"
  to_builds :: "unit result"

record registry =
  rg_tools :: "tool list"
  rg_frozen :: bool

definition find_tool :: "registry \<Rightarrow> string \<Rightarrow> tool option" where
  "find_tool R name = lookup_row to_name name (rg_tools R)"

definition empty_registry :: registry where
  "empty_registry = \<lparr>rg_tools = [], rg_frozen = False\<rparr>"

subsection \<open>Registration and selection\<close>

definition all_risks :: "string list" where
  "all_risks = [''read'', ''write'', ''high'', ''dynamic'']"

text \<open>A tool is kept under its name before its argument model is built; a failed build leaves it there.\<close>

definition register :: "registry \<Rightarrow> tool \<Rightarrow> registry \<times> unit result" where
  "register R t =
    (if rg_frozen R then (R, Inl (RuntimeError ''Tool Registry is frozen for the active Runtime Trace''))
     else if find_tool R (to_name t) \<noteq> None then (R, Inl (ValueError ''duplicate tool name''))
     else if to_risk t \<notin> set all_risks then (R, Inl (ValueError ''invalid risk''))
     else if to_risk t = ''dynamic'' \<and> to_risk_for t = None
     then (R, Inl (ValueError ''a dynamic tool must implement risk_for''))
     else (R\<lparr>rg_tools := rg_tools R @ [t]\<rparr>, to_builds t))"

fun register_all :: "registry \<Rightarrow> tool list \<Rightarrow> registry result" where
  "register_all R [] = Inr R"
| "register_all R (t # ts) =
     (case register R t of (R', Inr _) \<Rightarrow> register_all R' ts | (_, Inl e) \<Rightarrow> Inl e)"

definition freeze_registry :: "registry \<Rightarrow> registry" where
  "freeze_registry R = R\<lparr>rg_frozen := True\<rparr>"

definition names :: "registry \<Rightarrow> string list" where
  "names R = map to_name (filter to_available (rg_tools R))"

definition never_delegated :: "string list" where
  "never_delegated = [''subagent'', ''skill_install'', ''cronjob'', ''harness_evolve'',
     ''harness_capability'', ''harness_manual'', ''harness_error'', ''harness_dream'',
     ''sandbox_checkpoint_history'', ''sandbox_checkpoint_branch'']"

fun select_tools :: "registry \<Rightarrow> string list \<Rightarrow> tool list \<Rightarrow> tool list result" where
  "select_tools R [] selected = Inr selected"
| "select_tools R (name # rest) selected =
     (if name \<in> set never_delegated then Inl (ValueError ''a subagent may not select this tool'')
      else case find_tool R name of
        None \<Rightarrow> Inl (ValueError ''unknown tool'')
      | Some t \<Rightarrow>
          if \<not> to_delegatable t then Inl (ValueError ''a subagent may not select this tool'')
          else select_tools R rest
                 (if name \<in> to_name ` set selected then selected else selected @ [t]))"

definition select :: "registry \<Rightarrow> string list \<Rightarrow> registry result" where
  "select R wanted = rbind (select_tools R wanted []) (register_all empty_registry)"

definition excluding :: "registry \<Rightarrow> string list \<Rightarrow> registry result" where
  "excluding R excluded =
     register_all empty_registry (filter (\<lambda>t. to_name t \<notin> set excluded) (rg_tools R))"

subsection \<open>Contracts\<close>

definition idempotency_name :: "string \<Rightarrow> string" where
  "idempotency_name v = map ascii_lower (strip_text v)"

definition contract_of :: "tool \<Rightarrow> json" where
  "contract_of t = JObj
     [(''schema'', to_schema t), (''risk'', JStr (to_risk t)),
      (''idempotency'', JStr (idempotency_name (or_keep (to_declared t) ''PURE''))),
      (''parallel_safe'', JBool (to_parallel_safe t)), (''delegatable'', JBool (to_delegatable t)),
      (''extension_preapproval'', JBool (to_extension_preapproval t)),
      (''runtime_profiles'', JArr (map JStr (to_runtime_profiles t)))]"

definition tool_contract_hash :: "env \<Rightarrow> registry \<Rightarrow> string \<Rightarrow> string result" where
  "tool_contract_hash E R name =
     rbind (or_raise (find_tool R name) (ValueError ''Unknown Tool'')) (\<lambda>t.
     Inr (sha256 E (canonical_json (contract_of t))))"

definition extension_preapproval_allowed :: "registry \<Rightarrow> string \<Rightarrow> bool result" where
  "extension_preapproval_allowed R name =
     rbind (or_raise (find_tool R name) (ValueError ''Unknown Tool'')) (\<lambda>t.
     Inr (to_extension_preapproval t))"

record authorization =
  au_allowed_tools :: "string list"
  au_tool_contract_hashes :: "(string \<times> string) list"

definition extension_denial :: "env \<Rightarrow> registry \<Rightarrow> authorization \<Rightarrow> string \<Rightarrow> string option result" where
  "extension_denial E R au name =
    (if name \<notin> set (au_allowed_tools au) then Inr (Some ''extension_tool_not_preapproved'')
     else rbind (extension_preapproval_allowed R name) (\<lambda>ok.
       if \<not> ok then Inr (Some ''tool_disallows_extension_preapproval'')
       else rbind (tool_contract_hash E R name) (\<lambda>h.
         if map_of (au_tool_contract_hashes au) name \<noteq> Some h
         then Inr (Some ''extension_tool_contract_changed'') else Inr None)))"

subsection \<open>Preflight\<close>

record tool_context =
  xc_binding :: "binding option"
  xc_coordinated :: bool
  xc_approval :: "(nat \<Rightarrow> tool_exn + bool) option"
  xc_authorization :: "authorization option"
  xc_workspace_root :: string

record invocation =
  iv_tool :: tool
  iv_name :: string
  iv_arguments :: dict
  iv_risk :: string
  iv_idempotency :: string
  iv_approval_required :: bool
  iv_parallel_safe :: bool
  iv_tool_call_id :: string

definition resolved_risk :: "tool \<Rightarrow> dict \<Rightarrow> string result" where
  "resolved_risk t arguments =
    (if to_risk t \<noteq> ''dynamic'' then Inr (to_risk t)
     else case to_risk_for t of
       None \<Rightarrow> Inl (AttributeError ''risk_for'')
     | Some f \<Rightarrow> if f arguments \<notin> set [''read'', ''write'', ''high'']
                 then Inl (ValueError ''invalid computed risk'') else Inr (f arguments))"

definition checked_arguments :: "tool \<Rightarrow> dict \<Rightarrow> dict result" where
  "checked_arguments t arguments =
     rbind (case to_prepare_arguments t of None \<Rightarrow> Inr arguments | Some f \<Rightarrow> f arguments) (\<lambda>prepared.
     rbind (to_validate t prepared) (\<lambda>selected.
     rbind (case to_ensure_available t of None \<Rightarrow> Inr () | Some f \<Rightarrow> f selected) (\<lambda>_.
     Inr selected)))"

definition runtime_allowed :: "env \<Rightarrow> registry \<Rightarrow> authorization option \<Rightarrow> string \<Rightarrow> bool result" where
  "runtime_allowed E R au name =
    (case au of
       None \<Rightarrow> Inr True
     | Some x \<Rightarrow> rbind (extension_denial E R x name) (\<lambda>d. Inr (d = None)))"

definition needs_approval :: "tool \<Rightarrow> string \<Rightarrow> dict \<Rightarrow> bool" where
  "needs_approval t risk selected \<longleftrightarrow> risk \<noteq> ''read'' \<and>
     (case to_approval_required t of None \<Rightarrow> True | Some f \<Rightarrow> f selected)"

definition prepare_invocation ::
  "env \<Rightarrow> registry \<Rightarrow> tool_context \<Rightarrow> string \<Rightarrow> dict \<Rightarrow> string \<Rightarrow> tool_exn + invocation" where
  "prepare_invocation E R ctx name arguments call_id =
    (case find_tool R name of
       None \<Rightarrow> Inl (Refused (ValueError ''Unknown tool''))
     | Some t \<Rightarrow>
         if \<not> to_available t then Inl (ToolRuntimeError ''tool is not available in this context'')
         else case checked_arguments t arguments of
           Inl e \<Rightarrow> Inl (ToolRequestError e)
         | Inr selected \<Rightarrow>
             (case rbind (resolved_risk t selected) (\<lambda>risk.
                     rbind (runtime_allowed E R (xc_authorization ctx) name) (\<lambda>ok. Inr (risk, ok))) of
                Inl e \<Rightarrow> Inl (Refused e)
              | Inr (risk, ok) \<Rightarrow>
                  let idem = idempotency_name (or_keep (to_declared t)
                               (if risk = ''read'' then ''PURE'' else ''NON_IDEMPOTENT''));
                      approval = needs_approval t risk selected
                  in Inr \<lparr>iv_tool = t, iv_name = name, iv_arguments = selected, iv_risk = risk,
                      iv_idempotency = idem, iv_approval_required = approval,
                      iv_parallel_safe = (to_parallel_safe t \<and> risk = ''read'' \<and> idem = ''pure'' \<and> \<not> approval
                        \<and> to_ends_turn t = None \<and> ok),
                      iv_tool_call_id = call_id\<rparr>))"

definition risk_of :: "registry \<Rightarrow> string \<Rightarrow> dict option \<Rightarrow> string result" where
  "risk_of R name arguments =
     rbind (or_raise (find_tool R name) (ValueError ''Unknown tool'')) (\<lambda>t.
     case arguments of
       None \<Rightarrow> Inr (to_risk t)
     | Some x \<Rightarrow>
         rbind (case to_prepare_arguments t of None \<Rightarrow> Inr x | Some f \<Rightarrow> f x) (\<lambda>prepared.
         rbind (to_validate t prepared) (resolved_risk t)))"

definition ends_turn :: "registry \<Rightarrow> string \<Rightarrow> string \<Rightarrow> bool result" where
  "ends_turn R name res =
     rbind (or_raise (find_tool R name) (ValueError ''Unknown tool'')) (\<lambda>t.
     Inr (case to_ends_turn t of None \<Rightarrow> False | Some f \<Rightarrow> f res))"

subsection \<open>Execution\<close>

record tool_execution =
  te_result :: string
  te_operation_id :: "string option"
  te_attempt_id :: "string option"

fun error_text :: "error \<Rightarrow> string" where
  "error_text (StateConflictError m) = m"
| "error_text (StateInvariantError m) = m"
| "error_text (KeyError m) = m"
| "error_text (ValueError m) = m"
| "error_text (IntegrityError m) = m"
| "error_text (MaintenanceBlockedError m) = m"
| "error_text (LifecycleConflict m) = m"
| "error_text (StorageError m) = m"
| "error_text (EventStoreIntegrityError m) = m"
| "error_text (ProjectionConflict m) = m"
| "error_text (RuntimeError m) = m"
| "error_text (FileNotFoundError m) = m"
| "error_text (AttributeError m) = m"

definition text_or :: "string \<Rightarrow> string \<Rightarrow> string" where
  "text_or m name = (if m \<noteq> [] then m else name)"

fun exn_text :: "tool_exn \<Rightarrow> string" where
  "exn_text (Refused e) = text_or (error_text e) ''RuntimeError''"
| "exn_text (ToolRuntimeError m) = text_or m ''RuntimeError''"
| "exn_text (PermissionError m) = text_or m ''PermissionError''"
| "exn_text (ToolExecutionObservationError m) = text_or m ''ToolExecutionObservationError''"
| "exn_text (BodyError e) = failure_text e"
| "exn_text (BodyCancelled e) = failure_text e"
| "exn_text (ToolRequestError e) = text_or (error_text e) ''ToolRequestError''"
| "exn_text Interrupted = ''CancelledError''"
| "exn_text AssertionError = ''AssertionError''"
| "exn_text OutOfFuel = []"

text \<open>A body without a coordinator.\<close>

definition run_direct :: "(nat \<Rightarrow> body_outcome) \<Rightarrow> string tool_run" where
  "run_direct invoke W s =
     (s\<lparr>xs_tick := Suc (xs_tick s), xs_direct := xs_direct s @ [xs_tick s]\<rparr>,
      case invoke (xs_tick s) of Returned r \<Rightarrow> Inr r | Raised e \<Rightarrow> Inl (BodyError e) | Cancelled e \<Rightarrow> Inl (BodyCancelled e))"

definition ask_direct :: "(nat \<Rightarrow> tool_exn + bool) option \<Rightarrow> bool tool_run" where
  "ask_direct approval =
    (case approval of
       None \<Rightarrow> give False
     | Some ask_human \<Rightarrow> (\<lambda>W s. (s\<lparr>xs_tick := Suc (xs_tick s)\<rparr>, ask_human (xs_tick s))))"

definition authorize :: "env \<Rightarrow> registry \<Rightarrow> tool_context \<Rightarrow> invocation \<Rightarrow> OperationRecord option \<Rightarrow> unit tool_run" where
  "authorize E R ctx iv op =
    (case xc_authorization ctx of
       None \<Rightarrow> give ()
     | Some au \<Rightarrow>
         bind_run (lifted (extension_denial E R au (iv_name iv))) (\<lambda>denial.
         case denial of
           None \<Rightarrow> give ()
         | Some reason \<Rightarrow>
             bind_run (case op of None \<Rightarrow> give () | Some o' \<Rightarrow>
                         bind_run (skip_denied o' reason) (\<lambda>_. give ())) (\<lambda>_.
             throw (PermissionError (''Extension Tool invocation denied: '' @ reason)))))"

text \<open>The approval step: \<^verbatim>\<open>Some\<close> text is the structured answer of a denied durable call.\<close>

definition decide ::
  "tool_context \<Rightarrow> invocation \<Rightarrow> OperationRecord option \<Rightarrow> string option tool_run" where
  "decide ctx iv op =
    (if \<not> iv_approval_required iv \<or> xc_authorization ctx \<noteq> None then give None
     else case op of
       None \<Rightarrow>
         bind_run (ask_direct (xc_approval ctx)) (\<lambda>approved.
         if approved then give None else throw (PermissionError ''tool call not approved''))
     | Some o' \<Rightarrow>
         bind_run (waiting_human o') (\<lambda>_.
         bind_run (request_approval (xc_binding ctx) (xc_approval ctx) o') (\<lambda>approved.
         bind_run (approval_decided o' approved) (\<lambda>denied.
         if approved then give None
         else case denied of
           None \<Rightarrow> throw (PermissionError ''tool call not approved'')
         | Some answer \<Rightarrow> give (Some answer)))))"

definition attempt_of :: "OperationRecord \<Rightarrow> string tool_run" where
  "attempt_of op = bind_run (ask (\<lambda>d. current_attempt_in d (op_operation_id op))) (\<lambda>a. give (at_attempt_id a))"

text \<open>Authorisation and approval first; the continuation gets the structured answer of a denied call.\<close>

definition consented ::
  "env \<Rightarrow> registry \<Rightarrow> tool_context \<Rightarrow> invocation \<Rightarrow> OperationRecord option \<Rightarrow> (string option \<Rightarrow> 'a tool_run) \<Rightarrow> 'a tool_run" where
  "consented E R ctx iv op f = bind_run (authorize E R ctx iv op) (\<lambda>_. bind_run (decide ctx iv op) f)"

definition prepared_body ::
  "nat \<Rightarrow> (nat \<Rightarrow> body_outcome) \<Rightarrow> bool \<Rightarrow> OperationRecord option \<Rightarrow> string option \<Rightarrow> tool_execution tool_run" where
  "prepared_body fuel invoke manage op denied =
     (case (denied, op) of
       (Some answer, Some o') \<Rightarrow>
         bind_run (attempt_of o') (\<lambda>i.
         give \<lparr>te_result = answer, te_operation_id = Some (op_operation_id o'), te_attempt_id = Some i\<rparr>)
     | (Some answer, None) \<Rightarrow> give \<lparr>te_result = answer, te_operation_id = None, te_attempt_id = None\<rparr>
     | (None, None) \<Rightarrow>
         bind_run (run_direct invoke) (\<lambda>r.
         give \<lparr>te_result = r, te_operation_id = None, te_attempt_id = None\<rparr>)
     | (None, Some o') \<Rightarrow>
         bind_run (execute fuel invoke manage o') (\<lambda>r.
         bind_run (attempt_of o') (\<lambda>i.
         give \<lparr>te_result = r, te_operation_id = Some (op_operation_id o'), te_attempt_id = Some i\<rparr>)))"

definition call_body ::
  "nat \<Rightarrow> (nat \<Rightarrow> body_outcome) \<Rightarrow> OperationRecord option \<Rightarrow> string option \<Rightarrow> string tool_run" where
  "call_body fuel invoke op denied =
     (case (denied, op) of
       (Some answer, _) \<Rightarrow> give answer
     | (None, None) \<Rightarrow> run_direct invoke
     | (None, Some o') \<Rightarrow> execute fuel invoke True o')"

text \<open>
  \<^verbatim>\<open>except BaseException\<close>: \<open>execute_prepared\<close> first reads the attempt to name it in the exception (\<open>probe\<close>), then
  both settle an attempt that never started and raise again.
\<close>

definition settling :: "(OperationRecord \<Rightarrow> string tool_run) \<Rightarrow> OperationRecord option \<Rightarrow> 'a tool_run \<Rightarrow> 'a tool_run" where
  "settling probe op m W s =
    (case m W s of
       (s1, Inr x) \<Rightarrow> (s1, Inr x)
     | (s1, Inl e) \<Rightarrow>
         (case op of
            None \<Rightarrow> (s1, Inl e)
          | Some o' \<Rightarrow>
              (case preexecution_failed_if_safe (Some o') (exn_text e) W (fst (probe o' W s1)) of
                 (s2, Inl e2) \<Rightarrow> (s2, Inl e2) | (s2, Inr _) \<Rightarrow> (s2, Inl e))))"

definition request_of :: "tool_context \<Rightarrow> invocation \<Rightarrow> string option \<Rightarrow> nat option \<Rightarrow> tool_request" where
  "request_of ctx iv batch position = \<lparr>tq_name = iv_name iv, tq_declared = to_declared (iv_tool iv),
     tq_arguments = iv_arguments iv, tq_risk = iv_risk iv, tq_workspace_root = xc_workspace_root ctx,
     tq_call_id = iv_tool_call_id iv, tq_batch_id = batch, tq_position = position\<rparr>"

definition execute_prepared ::
  "nat \<Rightarrow> env \<Rightarrow> registry \<Rightarrow> tool_context \<Rightarrow> (nat \<Rightarrow> body_outcome) \<Rightarrow> bool \<Rightarrow> string option \<Rightarrow> nat option
     \<Rightarrow> OperationRecord option \<Rightarrow> invocation \<Rightarrow> tool_execution tool_run" where
  "execute_prepared fuel E R ctx invoke manage batch position prepared iv =
    (if xc_coordinated ctx then
       bind_run (case prepared of Some op \<Rightarrow> give op
                 | None \<Rightarrow> prepare_tool (xc_binding ctx) (request_of ctx iv batch position)) (\<lambda>op.
       settling attempt_of (Some op) (consented E R ctx iv (Some op) (prepared_body fuel invoke manage (Some op))))
     else if prepared \<noteq> None
     then throw (ToolRuntimeError ''Prepared Durable Operation requires a coordinator'')
     else settling attempt_of None (consented E R ctx iv None (prepared_body fuel invoke manage None)))"

text \<open>\<^verbatim>\<open>execute\<close>: preflight and execution in one call, for callers without a prepared invocation.\<close>

definition call_invocation :: "tool \<Rightarrow> string \<Rightarrow> dict \<Rightarrow> string \<Rightarrow> string option \<Rightarrow> invocation" where
  "call_invocation t name selected risk call_id = \<lparr>iv_tool = t, iv_name = name, iv_arguments = selected,
     iv_risk = risk, iv_idempotency = [], iv_approval_required = needs_approval t risk selected,
     iv_parallel_safe = False, iv_tool_call_id = or_text call_id (''direct_'' @ name)\<rparr>"

definition execute_call ::
  "nat \<Rightarrow> env \<Rightarrow> registry \<Rightarrow> tool_context \<Rightarrow> (nat \<Rightarrow> body_outcome) \<Rightarrow> string \<Rightarrow> dict \<Rightarrow> string option
     \<Rightarrow> string tool_run" where
  "execute_call fuel E R ctx invoke name arguments call_id =
    (case find_tool R name of
       None \<Rightarrow> throw (Refused (ValueError ''Unknown tool''))
     | Some t \<Rightarrow>
         if \<not> to_available t then throw (ToolRuntimeError ''tool is not available in this context'')
         else case checked_arguments t arguments of
           Inl e \<Rightarrow> throw (ToolRequestError e)
         | Inr selected \<Rightarrow>
             (case resolved_risk t selected of
                Inl e \<Rightarrow> throw (Refused e)
              | Inr risk \<Rightarrow>
                  let iv = call_invocation t name selected risk call_id in
                  bind_run (if xc_coordinated ctx
                            then bind_run (prepare_tool (xc_binding ctx) (request_of ctx iv None None)) (\<lambda>op. give (Some op))
                            else give None) (\<lambda>op.
                  settling (\<lambda>_. give []) op (consented E R ctx iv op (call_body fuel invoke op)))))"

subsection \<open>Registries hold distinct tools\<close>

definition registry_ok :: "registry \<Rightarrow> bool" where
  "registry_ok R \<longleftrightarrow> distinct (map to_name (rg_tools R)) \<and>
     (\<forall>t \<in> set (rg_tools R). to_risk t \<in> set all_risks \<and> (to_risk t = ''dynamic'' \<longrightarrow> to_risk_for t \<noteq> None))"

lemma register_ok: "registry_ok R \<Longrightarrow> registry_ok (fst (register R t))"
  by (auto simp: register_def registry_ok_def find_tool_def lookup_row_None_iff)

lemma register_all_tools:
  "register_all R ts = Inr R' \<Longrightarrow> rg_tools R' = rg_tools R @ ts \<and> (registry_ok R \<longrightarrow> registry_ok R')"
proof (induction ts arbitrary: R)
  case (Cons t ts)
  then obtain R1 where r: "register R t = (R1, Inr ())" "register_all R1 ts = Inr R'"
    by (auto split: prod.splits sum.splits)
  then have "rg_tools R1 = rg_tools R @ [t]" by (auto simp: register_def split: if_splits)
  then show ?case using Cons.IH [OF r(2)] register_ok [of R t] r(1) by simp
qed simp

lemma select_tools_Inr:
  assumes "select_tools R wanted done = Inr sel" "t \<in> set sel"
  shows "t \<in> set done \<or> t \<in> set (rg_tools R) \<and> to_delegatable t \<and> to_name t \<notin> set never_delegated \<and> to_name t \<in> set wanted"
  using assms
proof (induction R wanted "done" rule: select_tools.induct)
  case (2 R name rest selected)
  obtain u where u: "name \<notin> set never_delegated" "find_tool R name = Some u" "to_delegatable u"
    and rest: "select_tools R rest (if name \<in> to_name ` set selected then selected else selected @ [u]) = Inr sel"
    using 2(2) by (auto split: if_splits option.splits)
  have u': "u \<in> set (rg_tools R)" "to_name u = name"
    using u(2) by (auto simp: find_tool_def dest: lookup_row_Some_mem)
  have "t \<in> set (if name \<in> to_name ` set selected then selected else selected @ [u]) \<or> t \<in> set (rg_tools R) \<and>
      to_delegatable t \<and> to_name t \<notin> set never_delegated \<and> to_name t \<in> set rest"
    using 2(1) [OF u(1,2) _ rest 2(3)] u(3) by simp
  then show ?case using u(1,3) u' by (auto split: if_splits)
qed simp

text \<open>
  C40. A subagent's registry is a strict subset: what \<^verbatim>\<open>select\<close> returns holds only tools of the registry that
  were asked for, that may be delegated and that are not on the list of tools a subagent never gets, each
  under a name of its own; asking for anything else is refused.
\<close>

theorem selection_is_delegatable:
  assumes "select R wanted = Inr R'"
  shows "distinct (map to_name (rg_tools R')) \<and>
    (\<forall>t \<in> set (rg_tools R'). t \<in> set (rg_tools R) \<and> to_delegatable t \<and> to_name t \<notin> set never_delegated \<and>
       to_name t \<in> set wanted)"
proof -
  obtain sel where s: "select_tools R wanted [] = Inr sel" "register_all empty_registry sel = Inr R'"
    using assms by (auto simp: select_def result_simps)
  have "registry_ok empty_registry" by (simp add: registry_ok_def empty_registry_def)
  then show ?thesis
    using register_all_tools [OF s(2)] select_tools_Inr [OF s(1)] by (auto simp: registry_ok_def empty_registry_def)
qed

subsection \<open>What the preflight promises\<close>

lemma prepare_invocation_Inr:
  assumes "prepare_invocation E R ctx name arguments call_id = Inr iv"
  obtains t selected ok where "find_tool R name = Some t" "to_available t" "checked_arguments t arguments = Inr selected"
    "resolved_risk t selected = Inr (iv_risk iv)" "runtime_allowed E R (xc_authorization ctx) name = Inr ok"
    "iv_tool iv = t" "iv_arguments iv = selected" "iv_approval_required iv = needs_approval t (iv_risk iv) selected"
    "iv_idempotency iv = idempotency_name (or_keep (to_declared t)
       (if iv_risk iv = ''read'' then ''PURE'' else ''NON_IDEMPOTENT''))"
    "iv_parallel_safe iv \<longleftrightarrow> to_parallel_safe t \<and> iv_risk iv = ''read'' \<and> iv_idempotency iv = ''pure'' \<and>
       \<not> iv_approval_required iv \<and> to_ends_turn t = None \<and> ok"
  using assms by (auto simp: prepare_invocation_def Let_def result_simps split: option.splits if_splits sum.splits)

lemma preflight_risk:
  assumes "prepare_invocation E R ctx name arguments call_id = Inr iv"
  shows "risk_of R name (Some arguments) = Inr (iv_risk iv)"
  using assms by (rule prepare_invocation_Inr)
    (auto simp: risk_of_def checked_arguments_def result_simps split: option.splits)

text \<open>
  A write tool that declares no idempotency: the invocation says non-idempotent, the ledger records it as
  idempotent, so that a retryable failure repeats its body.
\<close>

lemma undeclared_write_disagrees:
  assumes "prepare_invocation E R ctx name arguments call_id = Inr iv" "to_declared (iv_tool iv) = None"
    and "iv_risk iv = ''write''"
  shows "iv_idempotency iv = ''non_idempotent''"
    and "idempotency_of (to_declared (iv_tool iv)) (iv_risk iv) = Inr IDEMPOTENT"
    and "\<not> uncertain_class IDEMPOTENT \<and> rp_automatic (tool_retry_policy c IDEMPOTENT)"
proof -
  have "idempotency_name ''NON_IDEMPOTENT'' = ''non_idempotent''" by code_simp
  then show "iv_idempotency iv = ''non_idempotent''"
    using assms by (auto elim!: prepare_invocation_Inr simp: or_keep_def)
qed (use assms in \<open>simp_all add: idempotency_of_def uncertain_class_def tool_retry_policy_def\<close>)

text \<open>
  A call that the preflight releases for a parallel group can be repeated and reordered: it only reads, needs
  no approval, cannot end the turn, is allowed in this extension if there is one, and the ledger records its
  operation as PURE and not side-effecting.
\<close>

theorem parallel_safe_is_pure:
  assumes "prepare_invocation E R ctx name arguments call_id = Inr iv" "iv_parallel_safe iv"
  shows "iv_risk iv = ''read'' \<and> \<not> iv_approval_required iv \<and> ends_turn R name res = Inr False \<and>
    runtime_allowed E R (xc_authorization ctx) name = Inr True \<and>
    idempotency_of (tq_declared (request_of ctx iv batch position)) (tq_risk (request_of ctx iv batch position)) = Inr PURE"
  using assms(1)
proof (rule prepare_invocation_Inr)
  fix t selected ok
  assume i: "find_tool R name = Some t" "runtime_allowed E R (xc_authorization ctx) name = Inr ok" "iv_tool iv = t"
    "iv_idempotency iv = idempotency_name (or_keep (to_declared t)
       (if iv_risk iv = ''read'' then ''PURE'' else ''NON_IDEMPOTENT''))"
    "iv_parallel_safe iv \<longleftrightarrow> to_parallel_safe t \<and> iv_risk iv = ''read'' \<and> iv_idempotency iv = ''pure'' \<and>
       \<not> iv_approval_required iv \<and> to_ends_turn t = None \<and> ok"
  have "idempotency_of (to_declared t) ''read'' = Inr PURE"
    using i(4,5) assms(2) by (auto simp: idempotency_of_def idempotency_name_def or_keep_def split: option.splits)
  then show ?thesis using i assms(2) by (simp add: ends_turn_def request_of_def)
qed

subsection \<open>No body without a decision\<close>

definition same_bodies :: "tool_state \<Rightarrow> tool_state \<Rightarrow> bool" where
  "same_bodies s s' \<longleftrightarrow> xs_invoked s' = xs_invoked s \<and> xs_direct s' = xs_direct s"

definition bodiless :: "'a tool_run \<Rightarrow> bool" where
  "bodiless m \<longleftrightarrow> (\<forall>W s. same_bodies s (fst (m W s)))"

lemma bodiless_bind: "bodiless m \<Longrightarrow> (\<And>x. bodiless (f x)) \<Longrightarrow> bodiless (bind_run m f)"
  unfolding bodiless_def fst_bind_run by (auto simp: same_bodies_def split: sum.splits)

lemma bodiless_simple:
  "bodiless (give x)" "bodiless (throw e)" "bodiless await_point" "bodiless (set_current oi ai)"
  "bodiless (current_attempt_id msg)" "bodiless parent_operation" "bodiless world" "bodiless (ask f)"
  "bodiless (current_state i)" "bodiless (submit st body)" "bodiless (lifted r)" "bodiless (bound b)"
  by (auto simp: bodiless_def same_bodies_def give_def throw_def await_point_def set_current_def
      current_attempt_id_def parent_operation_def world_def ask_def observe_def current_state_def submit_def
      lifted_def bound_def Let_def split: sum.splits option.splits prod.splits)

lemma bodiless_if: "bodiless m \<Longrightarrow> bodiless n \<Longrightarrow> bodiless (if b then m else n)"
  by simp

lemma bodiless_option: "bodiless m \<Longrightarrow> (\<And>x. bodiless (f x)) \<Longrightarrow> bodiless (case v of None \<Rightarrow> m | Some x \<Rightarrow> f x)"
  by (cases v) simp_all

lemmas bodiless_intros = bodiless_bind bodiless_simple bodiless_if bodiless_option

lemma bodiless_operations:
  "bodiless (prepare_tool b q)" "bodiless (waiting_human op)" "bodiless (approval_decided op ok)"
  "bodiless (skip_denied op r)" "bodiless (preexecution_failed_if_safe oo m)" "bodiless (attempt_of op)"
  unfolding prepare_tool_def waiting_human_def approval_decided_def skip_denied_def attempt_of_def
    preexecution_failed_if_safe_def fail_attempt_def locked_submit_def Let_def prod.case_eq_if
  by (intro bodiless_intros)+

lemma bodiless_authorize: "bodiless (authorize E R ctx iv op)"
  unfolding authorize_def by (intro bodiless_intros bodiless_operations)

lemma bodiless_ask: "bodiless (\<lambda>W s. (s\<lparr>xs_tick := Suc (xs_tick s)\<rparr>, f (xs_tick s)))"
  by (simp add: bodiless_def same_bodies_def)

lemma bodiless_decide: "bodiless (decide ctx iv op)"
  unfolding decide_def ask_direct_def request_approval_def
  by (intro bodiless_intros bodiless_operations bodiless_ask)

lemma post_bodiless: "bodiless m \<Longrightarrow> post m W s (\<lambda>_ s'. same_bodies s s') (\<lambda>_ s'. same_bodies s s')"
  by (auto simp: bodiless_def post_def split: prod.splits sum.splits) (metis fst_conv)+

definition consent_given :: "env \<Rightarrow> registry \<Rightarrow> tool_context \<Rightarrow> invocation \<Rightarrow> bool" where
  "consent_given E R ctx iv \<longleftrightarrow>
    (case xc_authorization ctx of
       Some au \<Rightarrow> extension_denial E R au (iv_name iv) = Inr None
     | None \<Rightarrow> iv_approval_required iv \<longrightarrow> (\<exists>answer n. xc_approval ctx = Some answer \<and> answer n = Inr True))"

lemma post_anything: "(\<And>x s'. Q x s') \<Longrightarrow> (\<And>e s'. X e s') \<Longrightarrow> post m W s Q X"
  by (simp add: post_def split: prod.splits sum.splits)

lemma same_bodies_trans: "same_bodies s s1 \<Longrightarrow> same_bodies s1 s2 \<Longrightarrow> same_bodies s s2"
  by (simp add: same_bodies_def)

lemma post_and_bodies:
  assumes "bodiless m" "post m W s (\<lambda>x _. P x) (\<lambda>_ _. True)"
  shows "post m W s (\<lambda>x s'. same_bodies s s' \<and> P x) (\<lambda>_ s'. same_bodies s s')"
  using post_bodiless [OF assms(1), of W s] assms(2) by (auto simp: post_def split: prod.splits sum.splits)

lemma post_any: "post m W s (\<lambda>_ _. True) (\<lambda>_ _. True)"
  by (rule post_anything) simp_all

lemma post_answer:
  "post (\<lambda>W s. (s\<lparr>xs_tick := Suc (xs_tick s)\<rparr>, f (xs_tick s))) W s (\<lambda>v _. v \<longrightarrow> (\<exists>n. f n = Inr True)) (\<lambda>_ _. True)"
  by (auto simp: post_def split: sum.splits)

lemma post_request_approval:
  "post (request_approval b ap op) W s (\<lambda>v _. v \<longrightarrow> (\<exists>answer n. ap = Some answer \<and> answer n = Inr True)) (\<lambda>_ _. True)"
proof (cases ap)
  case (Some f)
  have "post (\<lambda>W s. (s\<lparr>xs_tick := Suc (xs_tick s)\<rparr>, f (xs_tick s))) W s1
      (\<lambda>v _. v \<longrightarrow> (\<exists>answer n. ap = Some answer \<and> answer n = Inr True)) (\<lambda>_ _. True)" for s1
    using post_answer [of f W s1] by (simp add: Some)
  then show ?thesis
    by (auto simp: request_approval_def Some intro!: post_mono [OF post_any])
qed (simp add: request_approval_def)

lemma post_decide:
  assumes "\<forall>au. xc_authorization ctx = Some au \<longrightarrow> extension_denial E R au (iv_name iv) = Inr None"
  shows "post (decide ctx iv op) W s (\<lambda>v s'. same_bodies s s' \<and> (v = None \<longrightarrow> consent_given E R ctx iv)) (\<lambda>_ s'. same_bodies s s')"
proof (rule post_and_bodies [OF bodiless_decide])
  show "post (decide ctx iv op) W s (\<lambda>v _. v = None \<longrightarrow> consent_given E R ctx iv) (\<lambda>_ _. True)"
  proof (cases "\<not> iv_approval_required iv \<or> xc_authorization ctx \<noteq> None")
    case True
    then show ?thesis using assms by (auto simp: decide_def consent_given_def split: option.splits)
  next
    case False
    then have d: "consent_given E R ctx iv \<longleftrightarrow> (\<exists>answer n. xc_approval ctx = Some answer \<and> answer n = Inr True)"
      by (auto simp: consent_given_def)
    show ?thesis
    proof (cases op)
      case None
      have "post (ask_direct (xc_approval ctx)) W s (\<lambda>v _. v \<longrightarrow> consent_given E R ctx iv) (\<lambda>_ _. True)"
        unfolding ask_direct_def d using post_answer by (auto split: option.splits)
      then show ?thesis using False None by (auto simp: decide_def intro: post_mono)
    next
      case (Some o')
      have "post (request_approval (xc_binding ctx) (xc_approval ctx) o') W s1 (\<lambda>v _. v \<longrightarrow> consent_given E R ctx iv) (\<lambda>_ _. True)"
        for s1 unfolding d by (rule post_request_approval)
      moreover have "post (bind_run (approval_decided o' v) (\<lambda>denied. if v then give None
         else case denied of None \<Rightarrow> throw (PermissionError ''tool call not approved'') | Some answer \<Rightarrow> give (Some answer)))
         W s1 (\<lambda>v _. v = None \<longrightarrow> consent_given E R ctx iv) (\<lambda>_ _. True)" if "v \<longrightarrow> consent_given E R ctx iv" for v s1
        unfolding post_bind by (rule post_mono [OF post_any]) (use that in \<open>auto split: option.splits\<close>)
      ultimately have "post (bind_run (request_approval (xc_binding ctx) (xc_approval ctx) o') (\<lambda>approved.
         bind_run (approval_decided o' approved) (\<lambda>denied. if approved then give None
         else case denied of None \<Rightarrow> throw (PermissionError ''tool call not approved'') | Some answer \<Rightarrow> give (Some answer))))
         W s1 (\<lambda>v _. v = None \<longrightarrow> consent_given E R ctx iv) (\<lambda>_ _. True)" for s1
        unfolding post_bind [of "request_approval _ _ _"] by (rule post_mono)
      then show ?thesis using False Some by (auto simp: decide_def simp del: post_bind) (auto intro: post_mono [OF post_any])
    qed
  qed
qed

lemma post_authorize:
  "post (authorize E R ctx iv op) W s
     (\<lambda>_ s'. same_bodies s s' \<and> (\<forall>au. xc_authorization ctx = Some au \<longrightarrow> extension_denial E R au (iv_name iv) = Inr None))
     (\<lambda>_ s'. same_bodies s s')"
proof (rule post_and_bodies [OF bodiless_authorize])
  show "post (authorize E R ctx iv op) W s
      (\<lambda>_ _. \<forall>au. xc_authorization ctx = Some au \<longrightarrow> extension_denial E R au (iv_name iv) = Inr None) (\<lambda>_ _. True)"
    by (auto simp: authorize_def lifted_def intro!: post_mono [OF post_any] split: option.splits sum.splits)
qed

lemma post_settling:
  assumes "post m W s (\<lambda>_ s'. P \<or> same_bodies s s') (\<lambda>_ s'. P \<or> same_bodies s s')" "\<And>o'. bodiless (probe o')"
  shows "post (settling probe op m) W s (\<lambda>_ s'. P \<or> same_bodies s s') (\<lambda>_ s'. P \<or> same_bodies s s')"
proof -
  have "same_bodies s1 (fst (preexecution_failed_if_safe (Some o') t W (fst (probe o' W s1))))" for o' t s1
    using bodiless_operations(5) assms(2) unfolding bodiless_def by (meson same_bodies_trans)
  then show ?thesis
    using assms(1) same_bodies_trans
    by (auto simp: post_def settling_def split: prod.splits sum.splits option.splits) (metis fst_conv)+
qed

lemma post_consented:
  assumes "\<And>answer. bodiless (f (Some answer))"
  shows "post (consented E R ctx iv op f) W s
    (\<lambda>_ s'. consent_given E R ctx iv \<or> same_bodies s s') (\<lambda>_ s'. consent_given E R ctx iv \<or> same_bodies s s')"
  unfolding consented_def post_bind [of "authorize _ _ _ _ _"]
proof (rule post_mono [OF post_authorize], goal_cases)
  case (1 u s2)
  show ?case
    unfolding post_bind [of "decide _ _ _"]
  proof (rule post_mono [OF post_decide [of ctx E R iv]], goal_cases)
    case (2 v s3)
    show ?case
    proof (cases v)
      case None
      then have "consent_given E R ctx iv" using 2 by simp
      then show ?thesis by (intro post_anything) simp_all
    next
      case (Some answer)
      have "same_bodies s s3" using 1 2 same_bodies_trans by blast
      then show ?thesis
        unfolding Some by (intro post_mono [OF post_bodiless [OF assms]]) (use same_bodies_trans in blast)+
    qed
  qed (use 1 same_bodies_trans in blast)+
qed blast

lemma bodiless_denied:
  "bodiless (prepared_body fuel invoke manage op (Some answer))" "bodiless (call_body fuel invoke op (Some answer))"
  unfolding prepared_body_def call_body_def
  by (cases op; auto intro!: bodiless_intros bodiless_operations)+

text \<open>Preparation, then a consented body under \<open>settling\<close>: a body that ran was decided on.\<close>

lemma post_prepared:
  assumes "bodiless m" "\<And>op answer. bodiless (f op (Some answer))" "\<And>o'. bodiless (probe o')"
  shows "post (bind_run m (\<lambda>op. settling probe (g op) (consented E R ctx iv (h op) (f op)))) W s
    (\<lambda>_ s'. consent_given E R ctx iv \<or> same_bodies s s') (\<lambda>_ s'. consent_given E R ctx iv \<or> same_bodies s s')"
proof -
  have "post (settling probe (g op) (consented E R ctx iv (h op) (f op))) W s1
      (\<lambda>_ s2. consent_given E R ctx iv \<or> same_bodies s s2) (\<lambda>_ s2. consent_given E R ctx iv \<or> same_bodies s s2)"
    if "same_bodies s s1" for op s1
    by (rule post_mono [OF post_settling [OF post_consented [where f = "f op", OF assms(2)] assms(3)]]) (use that same_bodies_trans in blast)+
  then show ?thesis
    unfolding post_bind by (intro post_mono [OF post_bodiless [OF assms(1)]]) blast+
qed

lemma post_execute_prepared:
  "post (execute_prepared fuel E R ctx invoke manage batch position prepared iv) W s
     (\<lambda>_ s'. consent_given E R ctx iv \<or> same_bodies s s') (\<lambda>_ s'. consent_given E R ctx iv \<or> same_bodies s s')"
proof (cases "xc_coordinated ctx")
  case False
  then show ?thesis
    using post_settling [OF post_consented [where f = "prepared_body fuel invoke manage None", OF bodiless_denied(1)] bodiless_operations(6)]
    by (simp add: execute_prepared_def same_bodies_def [of s s])
next
  case True
  have "bodiless (case prepared of Some op \<Rightarrow> give op
      | None \<Rightarrow> prepare_tool (xc_binding ctx) (request_of ctx iv batch position))"
    by (cases prepared) (simp_all add: bodiless_simple bodiless_operations)
  from post_prepared [where g = Some and h = Some and f = "\<lambda>op. prepared_body fuel invoke manage (Some op)",
      OF this bodiless_denied(1) bodiless_operations(6)] show ?thesis
    unfolding execute_prepared_def if_P [OF True] .
qed

text \<open>The same for \<^verbatim>\<open>execute\<close>, whose invocation exists only inside the call.\<close>

lemma call_decided:
  assumes "execute_call fuel E R ctx invoke name arguments call_id W s = (s', r)"
    and "xs_invoked s' \<noteq> xs_invoked s \<or> xs_direct s' \<noteq> xs_direct s"
  shows "\<exists>t selected risk. find_tool R name = Some t \<and> checked_arguments t arguments = Inr selected \<and>
    resolved_risk t selected = Inr risk \<and> consent_given E R ctx (call_invocation t name selected risk call_id)"
proof -
  have no: "execute_call fuel E R ctx invoke name arguments call_id \<noteq> throw e" for e
    using assms by (auto simp: throw_def)
  have "\<exists>t selected risk. find_tool R name = Some t \<and> to_available t \<and> checked_arguments t arguments = Inr selected \<and>
      resolved_risk t selected = Inr risk"
  proof (rule ccontr)
    assume "\<not> ?thesis"
    then have "\<exists>e. execute_call fuel E R ctx invoke name arguments call_id = throw e"
      by (auto simp: execute_call_def split: option.splits sum.splits)
    then show False using no by blast
  qed
  then obtain t selected risk where c: "find_tool R name = Some t" "to_available t" "checked_arguments t arguments = Inr selected"
    "resolved_risk t selected = Inr risk" by blast
  let ?iv = "call_invocation t name selected risk call_id"
  have "bodiless (if xc_coordinated ctx
      then bind_run (prepare_tool (xc_binding ctx) (request_of ctx ?iv None None)) (\<lambda>op. give (Some op)) else give None)"
    by (intro bodiless_intros bodiless_operations)
  note p = post_prepared [where g = "\<lambda>x. x" and h = "\<lambda>x. x" and f = "call_body fuel invoke" and iv = ?iv,
      OF this bodiless_denied(2) bodiless_simple(1)]
  have eq: "execute_call fuel E R ctx invoke name arguments call_id = bind_run
      (if xc_coordinated ctx
       then bind_run (prepare_tool (xc_binding ctx) (request_of ctx ?iv None None)) (\<lambda>op. give (Some op)) else give None)
      (\<lambda>op. settling (\<lambda>_. give []) op (consented E R ctx ?iv op (call_body fuel invoke op)))"
    using c by (simp add: execute_call_def Let_def)
  have "post (execute_call fuel E R ctx invoke name arguments call_id) W s
      (\<lambda>_ s'. consent_given E R ctx ?iv \<or> same_bodies s s') (\<lambda>_ s'. consent_given E R ctx ?iv \<or> same_bodies s s')"
    unfolding eq by (rule p)
  then have "consent_given E R ctx ?iv \<or> same_bodies s s'" using assms(1) by (auto simp: post_def split: sum.splits)
  then show ?thesis using assms(2) c by (auto simp: same_bodies_def)
qed


end
