(* ===== verification/Tool_Witness.thy ===== *)
theory Tool_Witness
  imports Tool_Registry Event_Steps Law_Witnesses
begin

section \<open>Witnesses for the tool coordinator\<close>

text \<open>
  A running run with one prepared tool operation, and a coordinator that is alone. \<open>bench\<close> describes the
  database after any number of commands on the attempt: \<open>bench_command\<close> shows that such a command commits.
  Identifiers are drawn longer than every identifier in use.
\<close>

subsection \<open>The log accepts fresh identifiers\<close>

definition command_ids :: "db \<Rightarrow> string list" where
  "command_ids d = map pc_command_id (processed_commands d)"

definition tidy :: "db \<Rightarrow> bool" where
  "tidy d \<longleftrightarrow> event_sinks d = [] \<and> event_deliveries d = [] \<and>
     (\<forall>e \<in> set (gateway_events d). ev_command_id e \<in> set (command_ids d) \<and>
        ev_event_id e = event_id_of plain_env ''r1'' (ev_command_id e) ''primary'' \<and>
        ev_stream_sequence e < next_sequence d ''r1'') \<and>
     (\<forall>x \<in> set (event_outbox d). ob_outbox_id x = ''event-outbox:v2:'' @ ob_event_id x \<and>
        (\<exists>c \<in> set (command_ids d). ob_event_id x = event_id_of plain_env ''r1'' c ''primary''))"

lemma event_id_plain: "length (event_id_of plain_env i c key) = 19 + length c + length key + length i"
  by (simp add: event_id_of_def newline_def)

lemma tidy_accepts:
  assumes "tidy d" "\<forall>c \<in> set (command_ids d). length c < length cid"
  shows "log_accepts plain_env d ''r1'' cid ''primary''"
proof -
  have new: "event_id_of plain_env ''r1'' c ''primary'' \<noteq> event_id_of plain_env ''r1'' cid ''primary''" "c \<noteq> cid"
    if "c \<in> set (command_ids d)" for c
    using assms(2) that event_id_plain [of "''r1''" c "''primary''"] event_id_plain [of "''r1''" cid "''primary''"]
    by fastforce+
  show ?thesis
    using assms(1) new by (auto simp: tidy_def log_accepts_def list_all_iff delivery_ids_def enabled_sinks_def)
qed

lemma tidy_commit:
  assumes t: "tidy d" and a: "apply_command C ctx d k x = Inr (d', res)"
    and none: "lookup_row pc_command_id (cmd_command_id k) (processed_commands d) = None"
    and k: "ct_env C = plain_env" "cmd_run_id k = ''r1''" "cmd_event_key k = ''primary''" "cmd_command_id k \<noteq> []"
  shows "tidy d'"
proof -
  obtain st oc e where f: "st_run_id (oc_state oc) = cmd_run_id k" "e = committed_event C d st k oc x"
    "gateway_events d' = gateway_events d @ [e]" "processed_commands d' = processed_commands d @ [processed_row_of C k oc x e]"
    "event_sequences d' = upsert_row fst replace_row (cmd_run_id k, next_sequence d (cmd_run_id k)) (event_sequences d)"
    using a none by (rule apply_fresh_facts)
  have ids: "command_ids d' = command_ids d @ [cmd_command_id k]"
    by (simp add: command_ids_def f(4) processed_row_of_def)
  have "d' \<noteq> d" using f(3) by auto
  then obtain e' now where l: "log_appended (ct_env C) d e' now d'" "event_sinks d' = event_sinks d"
    using apply_log [OF a] by (auto simp: appends_def log_appended_def)
  have e': "e' = e" using l(1) f(3) by (simp add: log_appended_def)
  have ev: "ev_event_id e = event_id_of plain_env ''r1'' (cmd_command_id k) ''primary''"
    "ev_command_id e = cmd_command_id k" "ev_stream_sequence e = next_sequence d ''r1''"
    unfolding f(2) committed_event_def using k f(1) by (simp_all add: event_of_ids event_of_columns)
  have seq: "next_sequence d' ''r1'' = next_sequence d ''r1'' + 1"
    using last_sequence_upsert [OF f(5), of "''r1''"] k(2) by (simp add: next_sequence_last)
  have "event_deliveries d' = [] \<and> event_outbox d' = event_outbox d @ [new_outbox plain_env d e now]"
    using l t k(1) e' by (simp add: log_appended_def tidy_def new_deliveries_def enabled_sinks_def)
  then show ?thesis
    using t l(2) ev seq ids f(3)
    by (auto simp: tidy_def new_outbox_def outbox_id_of_def Let_def less_Suc_eq_le intro: less_imp_le)
qed

subsection \<open>A run with one attempt\<close>

text \<open>The operation and the attempt fit together; the columns of both are those of the first operation.\<close>

definition bench_pair :: "OperationRecord \<Rightarrow> OperationAttempt \<Rightarrow> bool" where
  "bench_pair op a \<longleftrightarrow> at_operation_id a = op_operation_id op \<and> op_run_id op = ''r1'' \<and> at_run_id a = ''r1'' \<and>
     at_request_hash a = op_request_hash op \<and> at_side_effecting a = op_side_effecting op \<and>
     at_attempt_no a = 1 \<and> validate_attempt_evidence a \<and> \<not> is_finalize_key (op_stable_key op)"

definition bench_state :: "AgentState \<Rightarrow> bool" where
  "bench_state st \<longleftrightarrow> st_run_id st = ''r1'' \<and> st_gateway_epoch st = ''g1'' \<and> st_task_state st = TaskState.RUNNING \<and>
     execution_of st = Some ACTING"

definition bench :: "db \<Rightarrow> AgentState \<Rightarrow> OperationRecord \<Rightarrow> OperationAttempt \<Rightarrow> bool" where
  "bench d st op a \<longleftrightarrow> tidy d \<and> states d = [st] \<and> run_exists d ''r1'' \<and>
     operation_ledger d = [operation_row_of op] \<and> operation_attempts d = [attempt_row_of a] \<and>
     bench_state st \<and> bench_pair op a"

lemma bench_reads:
  assumes "bench d st op a"
  shows "state_in d ''r1'' = Inr st" "operation_in d (op_operation_id op) = Inr op"
    "attempt_in d (at_attempt_id a) = Inr a" "attempts_in d (op_operation_id op) = Inr [a]"
    "current_attempt_in d (op_operation_id op) = Inr a"
proof -
  note b = assms [unfolded bench_def bench_pair_def bench_state_def]
  have "map sr_state (agent_states d) = [st]" using b by (simp add: states_def)
  then show "state_in d ''r1'' = Inr st" using b by (auto simp: state_in_def sr_run_id_def lookup_row_def)
  show "operation_in d (op_operation_id op) = Inr op"
    using b by (simp add: operation_in_def operation_row_of_def lookup_row_def)
  show "attempt_in d (at_attempt_id a) = Inr a"
    using b by (simp add: attempt_in_def attempt_row_of_def lookup_row_def)
  show as: "attempts_in d (op_operation_id op) = Inr [a]"
    using b by (simp add: attempts_in_def attempt_rows_of_def attempt_row_of_def)
  show "current_attempt_in d (op_operation_id op) = Inr a"
    using as by (simp add: current_attempt_in_def current_attempt_def)
qed

lemma bench_update:
  assumes b: "bench d st op a" and u: "at_status a \<in> set ss" "identity_kept u"
    and v: "validate_attempt_evidence ((u a)\<lparr>at_updated_at := ts\<rparr>)" "at_status (u a) \<noteq> OperationStatus.FAILED"
  obtains op' where "update_attempt d st (at_attempt_id a) ts ss u = Inr (op', (u a)\<lparr>at_updated_at := ts\<rparr>)"
    "bench_pair op' ((u a)\<lparr>at_updated_at := ts\<rparr>)" "immutable_metadata op' = immutable_metadata op"
proof -
  let ?a = "(u a)\<lparr>at_updated_at := ts\<rparr>"
  note r = bench_reads [OF b]
  note p = b [unfolded bench_def bench_pair_def bench_state_def]
  have i: "at_attempt_id ?a = at_attempt_id a" "at_operation_id ?a = at_operation_id a" "at_run_id ?a = at_run_id a"
    "at_attempt_no ?a = at_attempt_no a" "at_request_hash ?a = at_request_hash a"
    "at_side_effecting ?a = at_side_effecting a"
    using u(2) by (simp_all add: identity_kept_def same_attempt_def)
  obtain g where g: "aggregate_of_latest ?a 1 (op_retry_policy_snapshot op) = Inr g"
    using aggregate_of_latest_total [of ?a 1] v i p by fastforce
  have "reduce_operation (immutable_metadata op) [?a] (op_retry_policy_snapshot op) = Inr g"
    using g i p by (simp add: reduce_operation_numbered numbered_def attempt_inherits_def immutable_metadata_def)
  then obtain op' where o: "aggregate_operation op [?a] ts = Inr op'"
    by (simp add: aggregate_operation_def)
  then have m: "immutable_metadata op' = immutable_metadata op"
    by (auto simp: aggregate_operation_def immutable_metadata_def result_simps)
  have "update_attempt d st (at_attempt_id a) ts ss u = Inr (op', ?a)"
    using r p u(1) v(1) i o by (simp add: update_attempt_def)
  moreover have "bench_pair op' ?a" using m i p v(1) by (simp add: bench_pair_def immutable_metadata_def)
  ultimately show thesis using m that by blast
qed

lemma bench_save:
  assumes b: "bench d st op a" and o: "immutable_metadata op' = immutable_metadata op" "bench_pair op' a'"
    and a: "at_attempt_id a' = at_attempt_id a" "\<not> finished_status (at_status a)" "row_check (attempt_row_of a')"
  shows "save_operation d op' = Inr (d\<lparr>operation_ledger := [operation_row_of op']\<rparr>)"
    "save_attempt (d\<lparr>operation_ledger := [operation_row_of op']\<rparr>) a' =
       Inr (d\<lparr>operation_ledger := [operation_row_of op'], operation_attempts := [attempt_row_of a']\<rparr>)"
proof -
  note p = b [unfolded bench_def bench_pair_def]
  have "merge_operation_row (operation_row_of op) (operation_row_of op') = operation_row_of op'"
    using o(1) by (simp add: merge_operation_row_def operation_row_of_def immutable_metadata_def)
  then show "save_operation d op' = Inr (d\<lparr>operation_ledger := [operation_row_of op']\<rparr>)"
    using p o(1) by (simp add: save_operation_def operation_row_of_def immutable_metadata_def lookup_row_def)
  have "merge_attempt_row (attempt_row_of a) (attempt_row_of a') = attempt_row_of a'"
    using p o a(1) by (simp add: merge_attempt_row_def attempt_row_of_def bench_pair_def immutable_metadata_def)
  then show "save_attempt (d\<lparr>operation_ledger := [operation_row_of op']\<rparr>) a' =
      Inr (d\<lparr>operation_ledger := [operation_row_of op'], operation_attempts := [attempt_row_of a']\<rparr>)"
    using p a by (simp add: save_attempt_def attempt_row_of_def lookup_row_def attempt_index_ok_def)
qed

text \<open>The rows after a commit: those of the outcome, or the old ones.\<close>

definition rows_after :: "outcome \<Rightarrow> OperationRecord \<Rightarrow> OperationAttempt \<Rightarrow> OperationRecord \<Rightarrow> OperationAttempt \<Rightarrow> bool" where
  "rows_after oc op a op' a' \<longleftrightarrow>
     oc_operation oc = None \<and> oc_attempt oc = None \<and> op' = op \<and> a' = a \<or>
     oc_operation oc = Some op' \<and> oc_attempt oc = Some a' \<and> immutable_metadata op' = immutable_metadata op \<and>
       bench_pair op' a' \<and> at_attempt_id a' = at_attempt_id a \<and> \<not> finished_status (at_status a) \<and>
       row_check (attempt_row_of a')"

lemma bench_commit:
  assumes b: "bench d st op a"
    and k: "cmd_run_id k = ''r1''" "cmd_event_key k = ''primary''" "cmd_expected_revision k = st_revision st"
      "cmd_gateway_epoch k = ''g1''" "\<not> is_adopt (cmd_body k)" "cmd_command_id k \<noteq> []"
      "\<forall>c \<in> set (command_ids d). length c < length (cmd_command_id k)"
    and oc: "dispatch plain_controller d st k x (cmd_body k) = Inr oc" "oc_db oc = d" "oc_approval oc = None"
      "rows_after oc op a op' a'" "st_task_state (oc_state oc) \<in> {TaskState.RUNNING, TaskState.RECOVERY_REQUIRED}"
  obtains d' res where "apply_command plain_controller ctx d k x = Inr (d', res)" "ar_operation res = oc_operation oc"
    "ar_attempt res = oc_attempt oc" "ar_state res = committed_state oc x" "tidy d'"
    "states d' = [committed_state oc x]" "run_exists d' ''r1''" "operation_ledger d' = [operation_row_of op']"
    "operation_attempts d' = [attempt_row_of a']"
proof -
  note p = b [unfolded bench_def bench_state_def]
  note pr = bench_reads [OF b]
  obtain d1 d2 where s: "save_operation_opt d (oc_operation oc) = Inr d1" "save_attempt_opt d1 (oc_attempt oc) = Inr d2"
    "untouched d d2" "operation_ledger d2 = [operation_row_of op']" "operation_attempts d2 = [attempt_row_of a']"
    "save_approval_opt d2 (oc_approval oc) = Inr d2"
    using oc(3,4) p bench_save [OF b, of op' a'] unfolding rows_after_def
    by (auto simp: save_operation_opt_def save_attempt_opt_def save_approval_opt_def untouched_def)
  have none: "lookup_row pc_command_id (cmd_command_id k) (processed_commands d) = None"
    using k(7) by (auto simp: lookup_row_def find_None_iff command_ids_def)
  have fence: "check_fence plain_controller st k = Inr ()"
    using k p by (simp add: check_fence_def raise_if_def)
  have "\<exists>d' res. apply_command plain_controller ctx d k x = Inr (d', res)"
    by (rule apply_succeeds [OF _ fence _ oc(1), where ?d3.0 = d2 and ?d2.0 = d2 and ?d1.0 = d1])
      (use s oc k p pr none tidy_accepts [of d "cmd_command_id k"] in
        \<open>auto simp: normal_terminal_def TERMINAL_STATES_def committed_state_def validate_lifecycle_def\<close>)
  then obtain d' res where ap: "apply_command plain_controller ctx d k x = Inr (d', res)" by blast
  obtain st0 oc0 where c: "state_in d ''r1'' = Inr st0"
    "dispatch plain_controller d st0 k x (cmd_body k) = Inr oc0"
    "commit_outcome plain_controller st0 k x oc0 = Inr (d', res)"
    using ap none by (rule apply_command_fresh) (simp add: k)
  have oc0: "oc0 = oc" "st0 = st" using c(1,2) pr(1) oc(1) by simp_all
  obtain e1 e2 e3 e where f: "save_operation_opt (oc_db oc) (oc_operation oc) = Inr e1"
    "save_attempt_opt e1 (oc_attempt oc) = Inr e2" "save_approval_opt e2 (oc_approval oc) = Inr e3"
    "states d' = map (\<lambda>s. if st_run_id s = st_run_id (oc_state oc) then committed_state oc x else s) (states d)"
    "operation_ledger d' = operation_ledger e3" "operation_attempts d' = operation_attempts e3"
    "res = result_of oc x e" "runs d' = update_rows (\<lambda>r. ru_run_id r = st_run_id (oc_state oc))
       (project_run (committed_state oc x)) (runs d)"
    using c(3) dispatch_frame(1) [OF c(2)] unfolding oc0 by (rule commit_outcome_Inr) blast
  have id: "st_run_id (oc_state oc) = ''r1''"
    using dispatch_frame(2) [OF oc(1)] p by (simp add: same_identity_def)
  have e3: "e3 = d2" using f(1-3) s oc(2) by simp
  have "run_exists d' ''r1''" using f(8) p by (auto simp: run_exists_def update_rows_def project_run_def)
  moreover have "tidy d'" using tidy_commit [OF _ ap none] p k by simp
  ultimately show thesis using that [OF ap] f(4-7) s(4,5) e3 id p by (simp add: result_of_def)
qed

subsection \<open>A world with one coordinator\<close>

definition fresh_id :: "nat \<Rightarrow> nat \<Rightarrow> db \<Rightarrow> string" where
  "fresh_id n i d = replicate (Suc (sum_list (map length (command_ids d @
     map or_operation_id (operation_ledger d) @ map ar_attempt_id (operation_attempts d))))) (CHR ''u'')"

lemma fresh_id_longer:
  assumes "x \<in> set (command_ids d @ map or_operation_id (operation_ledger d) @ map ar_attempt_id (operation_attempts d))"
  shows "length x < length (fresh_id n i d)"
  unfolding fresh_id_def length_replicate less_Suc_eq_le
  by (rule member_le_sum_list) (use assms in auto)

lemma fresh_id_unused: "fresh_id n i d \<notin> used_ids d"
proof
  assume "fresh_id n i d \<in> used_ids d"
  then have "fresh_id n i d \<in> set (command_ids d @ map or_operation_id (operation_ledger d) @
      map ar_attempt_id (operation_attempts d))"
    by (auto simp: used_ids_def command_ids_def)
  from fresh_id_longer [OF this, of n i] show False by simp
qed

definition bench_world :: tool_world where
  "bench_world = \<lparr>tw_controller = plain_controller, tw_settings = new_coordinator 1 1 0 0, tw_gate = (\<lambda>_. None),
     tw_scope = (\<lambda>_. None), tw_uuid = fresh_id, tw_call = sample_call, tw_others = (\<lambda>_ d. d),
     tw_interrupt = (\<lambda>_. False)\<rparr>"

lemma bench_world_fields [simp]:
  "tw_controller bench_world = plain_controller" "tw_gate bench_world n = None" "tw_scope bench_world n = None"
  "tw_uuid bench_world = fresh_id" "tw_call bench_world = sample_call" "tw_others bench_world n d = d"
  "tw_interrupt bench_world n = False" "controller_at bench_world n = plain_controller"
  "tw_settings bench_world = new_coordinator 1 1 0 0"
  by (simp_all add: bench_world_def controller_at_def plain_controller_def sample_controller_def)

lemma bench_world_ok: "world_ok plain_env bench_world"
  by (simp add: world_ok_def fresh_id_unused)

lemma bench_submit:
  assumes b: "bench (xs_db s) st op a"
    and body: "\<And>w. command_valid (body w)" "\<And>w. \<not> is_adopt (body w)"
    and oc: "\<And>k w. dispatch plain_controller (xs_db s) st k (sample_call (xs_tick s)) (body w) = Inr (oc w)"
      "\<And>w. oc_db (oc w) = xs_db s" "\<And>w. oc_approval (oc w) = None" "\<And>w. rows_after (oc w) op a (op' w) (a' w)"
      "\<And>w. st_task_state (oc_state (oc w)) \<in> {TaskState.RUNNING, TaskState.RECOVERY_REQUIRED}"
  obtains w d' res where
    "submit st body bench_world s = (s\<lparr>xs_tick := Suc (xs_tick s), xs_db := d'\<rparr>, Inr res)"
    "ar_operation res = oc_operation (oc w)" "ar_attempt res = oc_attempt (oc w)"
    "ar_state res = committed_state (oc w) (sample_call (xs_tick s))" "tidy d'"
    "states d' = [committed_state (oc w) (sample_call (xs_tick s))]" "run_exists d' ''r1''"
    "operation_ledger d' = [operation_row_of (op' w)]" "operation_attempts d' = [attempt_row_of (a' w)]"
proof -
  let ?n = "xs_tick s" and ?d = "xs_db s"
  let ?k = "command_of bench_world ?n ?d st body"
  obtain w where w: "cmd_body ?k = body w" by (simp add: command_of_def)
  note p = b [unfolded bench_def bench_state_def]
  have long: "\<forall>c \<in> set (command_ids ?d). length c < length (cmd_command_id ?k)"
    using fresh_id_longer [of _ ?d] by (auto simp: command_of_def)
  have k: "cmd_run_id ?k = ''r1''" "cmd_event_key ?k = ''primary''" "cmd_expected_revision ?k = st_revision st"
    "cmd_gateway_epoch ?k = ''g1''" "cmd_command_id ?k \<noteq> []"
    using p by (simp_all add: command_of_def fresh_id_def)
  obtain d' res where r: "apply_command plain_controller None ?d ?k (sample_call ?n) = Inr (d', res)"
    "ar_operation res = oc_operation (oc w)" "ar_attempt res = oc_attempt (oc w)"
    "ar_state res = committed_state (oc w) (sample_call ?n)" "tidy d'" "states d' = [committed_state (oc w) (sample_call ?n)]"
    "run_exists d' ''r1''" "operation_ledger d' = [operation_row_of (op' w)]" "operation_attempts d' = [attempt_row_of (a' w)]"
    by (rule bench_commit [OF b k(1-4) _ k(5) long _ oc(2) [of w] oc(3) [of w] oc(4) [of w] oc(5) [of w], where ctx = None])
      (use w body(2) oc(1) in auto)
  have "submit st body bench_world s = (s\<lparr>xs_tick := Suc ?n, xs_db := d'\<rparr>, Inr res)"
    using r(1) body(1) w by (simp add: submit_def observe_def Let_def)
  then show thesis using that r(2-) by blast
qed

text \<open>A command that moves the attempt: what it leaves is a bench again.\<close>

lemma bench_move:
  assumes b: "bench (xs_db s) st op a" and u: "at_status a \<in> set ss" "\<And>w. identity_kept (u w)"
    and v: "\<And>w ts. validate_attempt_evidence ((u w a)\<lparr>at_updated_at := ts\<rparr>)"
      "\<And>w ts. row_check (attempt_row_of ((u w a)\<lparr>at_updated_at := ts\<rparr>))"
      "\<And>w. at_status (u w a) = t" "t \<noteq> OperationStatus.FAILED" "\<not> finished_status (at_status a)"
    and body: "\<And>w. command_valid (body w)" "\<And>w. \<not> is_adopt (body w)"
      "\<And>k w. dispatch plain_controller (xs_db s) st k (sample_call (xs_tick s)) (body w) =
         attempt_command (xs_db s) st (at_attempt_id a) (of_nat (xs_tick s)) ss (u w) ch"
    and ch: "\<And>op a. bench_state (ch op a)"
  obtains d' res st' op' a' where
    "submit st body bench_world s = (s\<lparr>xs_tick := Suc (xs_tick s), xs_db := d'\<rparr>, Inr res)"
    "bench d' st' op' a'" "ar_operation res = Some op'" "at_status a' = t" "at_attempt_id a' = at_attempt_id a"
    "immutable_metadata op' = immutable_metadata op"
proof -
  let ?n = "xs_tick s" and ?d = "xs_db s" and ?ts = "of_nat (xs_tick s) :: timestamp"
  have "\<exists>op'. update_attempt ?d st (at_attempt_id a) ?ts ss (u w) = Inr (op', (u w a)\<lparr>at_updated_at := ?ts\<rparr>) \<and>
      bench_pair op' ((u w a)\<lparr>at_updated_at := ?ts\<rparr>) \<and> immutable_metadata op' = immutable_metadata op" for w
    by (rule bench_update [OF b u(1) u(2) [of w] v(1) [of ?ts w]]) (use v(3,4) in auto)
  then obtain op' where o: "\<And>w. update_attempt ?d st (at_attempt_id a) ?ts ss (u w) =
      Inr (op' w, (u w a)\<lparr>at_updated_at := ?ts\<rparr>)" "\<And>w. bench_pair (op' w) ((u w a)\<lparr>at_updated_at := ?ts\<rparr>)"
    "\<And>w. immutable_metadata (op' w) = immutable_metadata op" by metis
  define a' where "a' w = (u w a)\<lparr>at_updated_at := ?ts\<rparr>" for w
  define oc where "oc w = attempt_outcome ?d (ch (op' w) (a' w)) (op' w) (a' w)" for w
  have id: "at_attempt_id (a' w) = at_attempt_id a" for w
    using u(2) [of w] by (simp add: a'_def identity_kept_def same_attempt_def)
  have disp: "dispatch plain_controller ?d st k (sample_call ?n) (body w) = Inr (oc w)" for k w
    by (simp add: body(3) attempt_command_def o(1) oc_def a'_def)
  have f: "oc_db (oc w) = ?d" "oc_approval (oc w) = None" "oc_state (oc w) = ch (op' w) (a' w)"
    "rows_after (oc w) op a (op' w) (a' w)" for w
    using o(2,3) id v(2,5) by (simp_all add: oc_def attempt_outcome_def state_outcome_def rows_after_def a'_def)
  have t: "st_task_state (oc_state (oc w)) \<in> {TaskState.RUNNING, TaskState.RECOVERY_REQUIRED}" for w
    using ch by (simp add: f bench_state_def)
  obtain w d' res where r:
    "submit st body bench_world s = (s\<lparr>xs_tick := Suc ?n, xs_db := d'\<rparr>, Inr res)"
    "ar_operation res = oc_operation (oc w)" "tidy d'" "states d' = [committed_state (oc w) (sample_call ?n)]"
    "run_exists d' ''r1''" "operation_ledger d' = [operation_row_of (op' w)]" "operation_attempts d' = [attempt_row_of (a' w)]"
    by (rule bench_submit [where body = body and oc = oc and op' = op' and a' = a', OF b body(1,2) disp f(1,2,4) t]) blast
  have "bench_state (committed_state (oc w) (sample_call ?n))"
    using ch [of "op' w" "a' w"] by (simp add: committed_state_def f bench_state_def execution_of_def)
  then have "bench d' (committed_state (oc w) (sample_call ?n)) (op' w) (a' w)"
    using r o(2) [of w] by (simp add: bench_def a'_def)
  then show thesis
    using that [OF r(1)] r(2) o(3) id v(3) by (simp add: oc_def attempt_outcome_def a'_def)
qed

subsection \<open>An execution on the bench\<close>

lemma bench_locked:
  assumes "bench (xs_db s) st op a"
  shows "locked_submit ''r1'' body bench_world s = submit st body bench_world (s\<lparr>xs_tick := Suc (Suc (xs_tick s))\<rparr>)"
    and "submit_now ''r1'' body bench_world s = submit st body bench_world (s\<lparr>xs_tick := Suc (xs_tick s)\<rparr>)"
    and "current_state ''r1'' bench_world s = (s\<lparr>xs_tick := Suc (xs_tick s)\<rparr>, Inr st)"
  using bench_reads(1) [OF assms]
  by (simp_all add: locked_submit_def submit_now_def bind_run_def await_point_def current_state_def ask_def observe_def Let_def)

lemma bench_start:
  assumes b: "bench (xs_db s) st op a" and p: "at_status a = OperationStatus.PREPARED" "op_run_id op0 = ''r1''"
  obtains n d' res st' op' a' where
    "start_attempt op0 (at_attempt_id a) bench_world s = (s\<lparr>xs_tick := n, xs_db := d'\<rparr>, Inr res)"
    "bench d' st' op' a'" "ar_operation res = Some op'" "at_status a' = OperationStatus.RUNNING"
    "at_attempt_id a' = at_attempt_id a" "immutable_metadata op' = immutable_metadata op"
proof -
  let ?s = "s\<lparr>xs_tick := Suc (Suc (xs_tick s))\<rparr>"
  let ?e = "\<lambda>w. Some (after_seconds (dw_now w) (dc_heartbeat_seconds (tw_settings bench_world)))"
  let ?body = "\<lambda>w :: draw. StartOperationAttempt (at_attempt_id a) (?e w)"
  let ?n = "of_nat (xs_tick ?s) :: timestamp"
  have b1: "bench (xs_db ?s) st op a" using b by simp
  have v: "validate_attempt_evidence a" using b by (simp add: bench_def bench_pair_def)
  have no: "at_attempt_no a = 1" using b by (simp add: bench_def bench_pair_def)
  have eq: "start_attempt op0 (at_attempt_id a) bench_world s = submit st ?body bench_world ?s"
    using bench_locked(1) [OF b] p(2) by (simp add: start_attempt_def bind_run_def world_def)
  show thesis
  proof (rule bench_move [OF b1, where ss = "[OperationStatus.PREPARED]" and u = "\<lambda>w. start_updates ?n (?e w)"
        and t = OperationStatus.RUNNING and body = ?body and ch = "\<lambda>op a. st\<lparr>
          st_current_operation_id := Some (op_operation_id op), st_current_attempt_id := Some (at_attempt_id a),
          st_operation_started_at := Some ?n, st_operation_heartbeat_at := Some ?n, st_last_progress_at := ?n\<rparr>"])
    fix d' res st' op' a'
    assume "submit st ?body bench_world ?s = (?s\<lparr>xs_tick := Suc (xs_tick ?s), xs_db := d'\<rparr>, Inr res)"
      "bench d' st' op' a'" "ar_operation res = Some op'" "at_status a' = OperationStatus.RUNNING"
      "at_attempt_id a' = at_attempt_id a" "immutable_metadata op' = immutable_metadata op"
    then show thesis using that eq by simp
  qed (use b v p no in \<open>auto simp: start_updates_def identity_kept_def same_attempt_def validate_attempt_evidence_def
      row_check_def attempt_row_of_def finished_status_def is_adopt_def start_attempt_command_def sample_call_def
      bench_def bench_state_def execution_of_def\<close>)
qed

lemma bench_complete:
  assumes b: "bench (xs_db s) st op a" and p: "at_status a = OperationStatus.RUNNING" "op_run_id op0 = ''r1''"
  obtains n d' where "settle_result op0 False (at_attempt_id a, v) bench_world s =
      (s\<lparr>xs_tick := n, xs_db := d', xs_operation := None, xs_attempt := None\<rparr>, Inr v)"
proof -
  let ?s = "s\<lparr>xs_tick := Suc (Suc (xs_tick s))\<rparr>"
  let ?body = "\<lambda>_ :: draw. CompleteOperationAttempt (at_attempt_id a) v v ''tool_return''"
  let ?n = "of_nat (xs_tick ?s) :: timestamp"
  have b1: "bench (xs_db ?s) st op a" using b by simp
  note r = bench_reads(2,3) [OF b]
  have opid: "at_operation_id a = op_operation_id op" "\<not> is_finalize_key (op_stable_key op)"
    using b by (simp_all add: bench_def bench_pair_def)
  have disp: "complete_attempt_command plain_env (xs_db s) st (at_attempt_id a) v v ''tool_return'' ts =
      attempt_command (xs_db s) st (at_attempt_id a) ts [OperationStatus.RUNNING, OperationStatus.UNKNOWN]
        (complete_updates ts v v ''tool_return'') (\<lambda>op a. st\<lparr>st_last_progress_at := ts\<rparr>)" for ts
    using r opid by (simp add: complete_attempt_command_def)
  have v: "validate_attempt_evidence a" using b by (simp add: bench_def bench_pair_def)
  have no: "at_attempt_no a = 1" using b by (simp add: bench_def bench_pair_def)
  show thesis
  proof (rule bench_move [OF b1, where ss = "[OperationStatus.RUNNING, OperationStatus.UNKNOWN]"
        and u = "\<lambda>_. complete_updates ?n v v ''tool_return''" and t = OperationStatus.COMPLETED
        and body = ?body and ch = "\<lambda>op a. st\<lparr>st_last_progress_at := ?n\<rparr>"])
    fix d' res st' op' a'
    assume "submit st ?body bench_world ?s = (?s\<lparr>xs_tick := Suc (xs_tick ?s), xs_db := d'\<rparr>, Inr res)"
    then show thesis
      using that bench_locked(1) [OF b] p(2)
      by (simp add: settle_result_def bind_run_def world_def set_current_def give_def)
  qed (use b v p no disp in \<open>auto simp: complete_updates_def identity_kept_def same_attempt_def validate_attempt_evidence_def
      row_check_def attempt_row_of_def finished_status_def is_adopt_def sample_call_def
      bench_def bench_state_def execution_of_def\<close>)
qed

lemma bench_unknown:
  assumes b: "bench (xs_db s) st op a" and p: "at_status a = OperationStatus.RUNNING" "r \<noteq> []"
  obtains d' res st' op' a' where
    "submit st (\<lambda>_. MarkOperationAttemptUnknown (at_attempt_id a) r) bench_world s =
       (s\<lparr>xs_tick := Suc (xs_tick s), xs_db := d'\<rparr>, Inr res)" "bench d' st' op' a'"
proof -
  let ?n = "of_nat (xs_tick s) :: timestamp"
  have v: "validate_attempt_evidence a" "at_attempt_no a = 1" using b by (simp_all add: bench_def bench_pair_def)
  show thesis
  proof (rule bench_move [OF b, where ss = "[OperationStatus.RUNNING]" and u = "\<lambda>_. unknown_updates r"
        and t = OperationStatus.UNKNOWN and body = "\<lambda>_. MarkOperationAttemptUnknown (at_attempt_id a) r"
        and ch = "\<lambda>op a. st\<lparr>st_recovery_reason := at_failure_reason a\<rparr>"])
    fix d' res st' op' a'
    assume "submit st (\<lambda>_. MarkOperationAttemptUnknown (at_attempt_id a) r) bench_world s =
       (s\<lparr>xs_tick := Suc (xs_tick s), xs_db := d'\<rparr>, Inr res)" "bench d' st' op' a'"
    then show thesis using that by blast
  qed (use b v p in \<open>auto simp: unknown_updates_def identity_kept_def same_attempt_def validate_attempt_evidence_def
      row_check_def attempt_row_of_def finished_status_def is_adopt_def mark_attempt_unknown_command_def sample_call_def
      bench_def bench_state_def execution_of_def\<close>)
qed

lemma bench_recovery:
  assumes b: "bench (xs_db s) st op a"
  obtains n d' res where
    "submit_now ''r1'' (\<lambda>_. move_task TaskState.RECOVERY_REQUIRED reason) bench_world s =
       (s\<lparr>xs_tick := n, xs_db := d'\<rparr>, Inr res)"
proof -
  let ?s = "s\<lparr>xs_tick := Suc (xs_tick s)\<rparr>"
  let ?body = "\<lambda>_ :: draw. move_task TaskState.RECOVERY_REQUIRED reason"
  have b1: "bench (xs_db ?s) st op a" using b by simp
  define oc where "oc = (state_outcome (xs_db s) (st\<lparr>st_task_state := TaskState.RECOVERY_REQUIRED,
      st_last_progress_at := cx_now (sample_call (xs_tick ?s))\<rparr>))\<lparr>oc_transition := Some reason\<rparr>"
  have oc: "oc_db oc = xs_db s" "oc_approval oc = None" "oc_operation oc = None" "oc_attempt oc = None"
    "st_task_state (oc_state oc) = TaskState.RECOVERY_REQUIRED"
    by (simp_all add: oc_def state_outcome_def)
  have disp: "dispatch plain_controller (xs_db s) st k (sample_call (xs_tick ?s))
      (move_task TaskState.RECOVERY_REQUIRED reason) = Inr oc" for k
    using b by (simp add: oc_def move_task_def transition_command_def apply_transition_def transition_task_def
        transition_execution_def validate_outer_transition_def validate_terminal_mapping_def normal_terminal_def
        bench_def bench_state_def state_outcome_def Let_def)
  show thesis
  proof (rule bench_submit [where body = ?body and oc = "\<lambda>_. oc" and op' = "\<lambda>_. op" and a' = "\<lambda>_. a", OF b1])
    fix d' res
    assume "submit st ?body bench_world ?s = (?s\<lparr>xs_tick := Suc (xs_tick ?s), xs_db := d'\<rparr>, Inr res)"
    then show thesis using that bench_locked(2) [OF b] by simp
  qed (use oc disp in \<open>simp_all add: move_task_def is_adopt_def rows_after_def has_transition_def\<close>)
qed

text \<open>One attempt, whose body returns; and one whose body raises after its dispatch.\<close>

definition bench_tool :: "db \<Rightarrow> OperationRecord \<Rightarrow> OperationAttempt \<Rightarrow> tool_state" where
  "bench_tool d op a = \<lparr>xs_db = d, xs_tick = 0, xs_operation = None, xs_attempt = None, xs_invoked = [], xs_direct = []\<rparr>"

lemma bench_execute:
  assumes b: "bench d st op a" and p: "at_status a = OperationStatus.PREPARED" "op_name op \<notin> set maintenance_tools"
  obtains n i d1 st1 op1 a1 where
    "execute (Suc fuel) invoke False op bench_world (bench_tool d op a) =
       bind_run (after_body op1 (at_attempt_id a1) (invoke n) False (attempt_loop fuel invoke False)) (settle_result op False)
         bench_world \<lparr>xs_db = d1, xs_tick = i, xs_operation = Some (op_operation_id op),
           xs_attempt = Some (at_attempt_id a1), xs_invoked = [(at_attempt_id a1, d1)], xs_direct = []\<rparr>"
    "bench d1 st1 op1 a1" "at_status a1 = OperationStatus.RUNNING" "immutable_metadata op1 = immutable_metadata op"
    "at_attempt_id a1 = at_attempt_id a"
proof -
  let ?s = "\<lparr>xs_db = d, xs_tick = Suc (Suc (Suc 0)), xs_operation = Some (op_operation_id op), xs_attempt = Some (at_attempt_id a),
     xs_invoked = [], xs_direct = []\<rparr>"
  have r: "current_attempt_in d (op_operation_id op) = Inr a" "state_in d ''r1'' = Inr st" "op_run_id op = ''r1''"
    "execution_of st = Some ACTING"
    using bench_reads [OF b] b by (simp_all add: bench_def bench_pair_def bench_state_def)
  obtain x where x: "st_execution st = Some x" "es_state x = ACTING" using r(4) by (auto simp: execution_of_def)
  have bs: "bench (xs_db ?s) st op a" using b by simp
  obtain n d1 res st1 op1 a1 where s: "start_attempt op (at_attempt_id a) bench_world ?s = (?s\<lparr>xs_tick := n, xs_db := d1\<rparr>, Inr res)"
    "bench d1 st1 op1 a1" "ar_operation res = Some op1" "at_status a1 = OperationStatus.RUNNING"
    "at_attempt_id a1 = at_attempt_id a" "immutable_metadata op1 = immutable_metadata op"
    using bs p(1) r(3) by (rule bench_start)
  have "execute (Suc fuel) invoke False op bench_world (bench_tool d op a) =
     bind_run (after_body op1 (at_attempt_id a1) (invoke n) False (attempt_loop fuel invoke False))
      (settle_result op False) bench_world \<lparr>xs_db = d1, xs_tick = Suc n, xs_operation = Some (op_operation_id op),
           xs_attempt = Some (at_attempt_id a1), xs_invoked = [(at_attempt_id a1, d1)], xs_direct = []\<rparr>"
    using p(2) r x s by (simp add: execute_def bench_tool_def bind_run_def enter_lifecycle_def gate_state_def Let_def
        ask_def observe_def set_current_def enter_acting_def current_state_def give_def execution_of_def
        current_attempt_id_def invoke_body_def or_keep_def)
  then show thesis using that s by blast
qed

subsection \<open>The concrete bench\<close>

definition bench_operation :: "ToolIdempotency \<Rightarrow> OperationRecord" where
  "bench_operation i = new_operation ''o1'' ''r1'' TOOL ''write'' ''s'' ''h'' i True no_retry_policy 0"

definition bench_attempt :: OperationAttempt where
  "bench_attempt = new_attempt ''a1'' ''o1'' ''r1'' 1 ''h'' True 0"

definition acting_state :: AgentState where
  "acting_state = first_state\<lparr>st_task_state := TaskState.RUNNING, st_execution := Some \<lparr>es_state = ACTING,
     es_outcome = None, es_finish_reason = None, es_entered_at = 0\<rparr>\<rparr>"

definition bench_db :: "ToolIdempotency \<Rightarrow> db" where
  "bench_db i = (sample_db acting_state)\<lparr>operation_ledger := [operation_row_of (bench_operation i)],
     operation_attempts := [attempt_row_of bench_attempt]\<rparr>"

lemma bench_fields [simp]:
  "op_operation_id (bench_operation i) = ''o1''" "op_idempotency (bench_operation i) = i"
  "op_name (bench_operation i) = ''write''" "at_attempt_id bench_attempt = ''a1''"
  "rp_max_attempts (op_retry_policy_snapshot (bench_operation i)) = 1" "op_run_id (bench_operation i) = ''r1''"
  "at_status bench_attempt = OperationStatus.PREPARED" "''write'' \<notin> set maintenance_tools"
  by (simp_all add: bench_operation_def bench_attempt_def new_operation_def new_attempt_def no_retry_policy_def
      maintenance_tools_def)

lemma bench_not_maintenance: "op_name (bench_operation i) \<notin> set maintenance_tools"
  by simp

lemma bench_pair_concrete: "bench_pair (bench_operation i) bench_attempt"
  by (simp add: bench_pair_def bench_operation_def bench_attempt_def new_operation_def new_attempt_def
      validate_attempt_evidence_def is_finalize_key_def)

lemma bench_concrete: "bench (bench_db i) acting_state (bench_operation i) bench_attempt"
  using bench_pair_concrete [of i]
  by (simp add: bench_def tidy_def bench_db_def sample_db_def empty_db_def states_def run_exists_def run_row_of_def
      sample_request_def bench_state_def acting_state_def execution_of_def)

lemma bench_reflects: "reflects (bench_operation i) [bench_attempt]"
  by (simp add: reflects_def bench_operation_def bench_attempt_def new_operation_def new_attempt_def
      reduce_operation_numbered numbered_def attempt_inherits_def immutable_metadata_def aggregate_of_latest_def
      mk_aggregate_def validate_aggregate_evidence_def no_retry_policy_def)

lemma bench_ledger_ok: "ledger_ok (bench_db i)"
proof -
  have "docs [attempt_row_of bench_attempt] ''o1'' = [bench_attempt]" "validate_attempt_evidence bench_attempt"
    "at_operation_id bench_attempt = ''o1''"
    using bench_pair_concrete [of i] by (simp_all add: docs_def bench_pair_def attempt_row_of_def)
  then show ?thesis
    using bench_reflects [of i]
    by (simp add: ledger_ok_def ledger_inv_def bench_db_def operation_rows_ok_def attempt_rows_ok_def
        one_active_effect_def operation_row_of_def attempt_row_of_def)
qed

lemma bench_known: "operation_in (bench_db i) ''o1'' = Inr (bench_operation i)"
  using bench_reads(2) [OF bench_concrete [of i]] by simp

definition returns :: "nat \<Rightarrow> body_outcome" where
  "returns n = Returned ''done''"

definition broken_pipe :: tool_failure where
  "broken_pipe = \<lparr>tf_text = ''broken pipe'', tf_class = ''OSError'', tf_retryable = None, tf_transport = True\<rparr>"

definition raises :: "nat \<Rightarrow> body_outcome" where
  "raises n = Raised broken_pipe"

abbreviation bench_start_state :: "ToolIdempotency \<Rightarrow> tool_state" where
  "bench_start_state i \<equiv> bench_tool (bench_db i) (bench_operation i) bench_attempt"

lemma bench_returns:
  obtains s' d where "execute 1 returns False (bench_operation idem) bench_world (bench_start_state idem) = (s', Inr ''done'')"
    "xs_invoked s' = [(''a1'', d)]"
proof -
  obtain n i d1 st1 op1 a1 where e:
    "execute (Suc 0) returns False (bench_operation idem) bench_world (bench_start_state idem) =
       bind_run (after_body op1 (at_attempt_id a1) (returns n) False (attempt_loop 0 returns False))
         (settle_result (bench_operation idem) False)
         bench_world \<lparr>xs_db = d1, xs_tick = i, xs_operation = Some (op_operation_id (bench_operation idem)),
           xs_attempt = Some (at_attempt_id a1), xs_invoked = [(at_attempt_id a1, d1)], xs_direct = []\<rparr>"
    "bench d1 st1 op1 a1" "at_status a1 = OperationStatus.RUNNING" "at_attempt_id a1 = ''a1''"
    by (rule bench_execute [OF bench_concrete [of idem] bench_fields(7) bench_not_maintenance, where fuel = 0 and invoke = returns]) simp
  let ?s = "\<lparr>xs_db = d1, xs_tick = Suc i, xs_operation = Some (op_operation_id (bench_operation idem)),
      xs_attempt = Some (at_attempt_id a1), xs_invoked = [(at_attempt_id a1, d1)], xs_direct = []\<rparr>"
  have b: "bench (xs_db ?s) st1 op1 a1" using e(2) by simp
  obtain m d' where "settle_result (bench_operation idem) False (at_attempt_id a1, ''done'') bench_world ?s =
      (?s\<lparr>xs_tick := m, xs_db := d', xs_operation := None, xs_attempt := None\<rparr>, Inr ''done'')"
    using b e(3) bench_fields(6) by (rule bench_complete)
  then show thesis
    using that e(1,4) by (simp add: after_body_def bind_run_def await_point_def returns_def give_def)
qed

lemma bench_raises:
  obtains s' d i where "execute 1 raises False (bench_operation NON_IDEMPOTENT) bench_world
      (bench_start_state NON_IDEMPOTENT) = (s', Inl (BodyError broken_pipe))"
    "xs_invoked s' = [(i, d)]"
proof -
  obtain n i d1 st1 op1 a1 where e:
    "execute (Suc 0) raises False (bench_operation NON_IDEMPOTENT) bench_world (bench_start_state NON_IDEMPOTENT) =
       bind_run (after_body op1 (at_attempt_id a1) (raises n) False (attempt_loop 0 raises False))
         (settle_result (bench_operation NON_IDEMPOTENT) False)
         bench_world \<lparr>xs_db = d1, xs_tick = i, xs_operation = Some (op_operation_id (bench_operation NON_IDEMPOTENT)),
           xs_attempt = Some (at_attempt_id a1), xs_invoked = [(at_attempt_id a1, d1)], xs_direct = []\<rparr>"
    "bench d1 st1 op1 a1" "at_status a1 = OperationStatus.RUNNING"
    "immutable_metadata op1 = immutable_metadata (bench_operation NON_IDEMPOTENT)"
    by (rule bench_execute [OF bench_concrete [of NON_IDEMPOTENT] bench_fields(7) bench_not_maintenance, where fuel = 0 and invoke = raises]) blast
  let ?s = "\<lparr>xs_db = d1, xs_tick = Suc i, xs_operation = Some (op_operation_id (bench_operation NON_IDEMPOTENT)),
      xs_attempt = Some (at_attempt_id a1), xs_invoked = [(at_attempt_id a1, d1)], xs_direct = []\<rparr>"
  let ?s1 = "?s\<lparr>xs_tick := Suc (Suc i)\<rparr>" and ?r = "''tool raised after dispatch: '' @ ''broken pipe''"
  have id: "op_run_id op1 = ''r1''" "op_idempotency op1 = NON_IDEMPOTENT"
    using e(4) bench_fields(2,6) [of NON_IDEMPOTENT] by (simp_all add: immutable_metadata_def)
  have b: "bench (xs_db ?s) st1 op1 a1" "bench (xs_db ?s1) st1 op1 a1" using e(2) by simp_all
  have st: "current_state ''r1'' bench_world ?s = (?s1, Inr st1)" using bench_locked(3) [OF b(1)] by simp
  have "?r \<noteq> []" by simp
  with b(2) e(3) obtain d' res st' op' a' where u:
    "submit st1 (\<lambda>_. MarkOperationAttemptUnknown (at_attempt_id a1) ?r) bench_world ?s1 =
       (?s1\<lparr>xs_tick := Suc (xs_tick ?s1), xs_db := d'\<rparr>, Inr res)" "bench d' st' op' a'"
    by (rule bench_unknown)
  let ?s2 = "?s1\<lparr>xs_tick := Suc (xs_tick ?s1), xs_db := d'\<rparr>"
  have "bench (xs_db ?s2) st' op' a'" using u(2) by simp
  then obtain m d2 res2 where "submit_now ''r1'' (\<lambda>_. move_task TaskState.RECOVERY_REQUIRED ''external side effect unknown'')
      bench_world ?s2 = (?s2\<lparr>xs_tick := m, xs_db := d2\<rparr>, Inr res2)"
    by (rule bench_recovery)
  then show thesis
    using that e(1) st u(1) id
    by (simp add: after_body_def bind_run_def await_point_def raises_def give_def throw_def uncertain_class_def
        record_uncertain_or_failed_def failure_text_def broken_pipe_def current_attempt_id_def)
qed

lemma bench_premises:
  "ledger_ok (xs_db (bench_start_state i))"
  "operation_in (xs_db (bench_start_state i)) (op_operation_id (bench_operation i)) = Inr (bench_operation i)"
  "rp_max_attempts (op_retry_policy_snapshot (bench_operation i)) \<le> 1"
  using bench_ledger_ok [of i] bench_known [of i] by (simp_all add: bench_tool_def)

subsection \<open>Witnesses\<close>

theorem execution_returns_witness:
  "\<exists>s' d. execute 1 returns False (bench_operation PURE) bench_world (bench_start_state PURE) = (s', Inr ''done'') \<and>
     xs_invoked s' = [(''a1'', d)] \<and> Inr ''done'' \<noteq> (Inl OutOfFuel :: tool_exn + string)"
proof -
  obtain s' d where e: "execute 1 returns False (bench_operation PURE) bench_world (bench_start_state PURE) = (s', Inr ''done'')"
    "xs_invoked s' = [(''a1'', d)]" by (rule bench_returns)
  then show ?thesis
    using execution_returns [OF bench_world_ok bench_premises(1,2) zero_less_one bench_premises(3) e(1)] by blast
qed



theorem tool_bodies_run_once_witness:
  "\<exists>s' d. execute 1 returns False (bench_operation PURE) bench_world (bench_start_state PURE) = (s', Inr ''done'') \<and>
     xs_invoked s' = [(''a1'', d)] \<and> chained plain_env (bench_db PURE) (xs_invoked s') (xs_db s')"
proof -
  obtain s' d where e: "execute 1 returns False (bench_operation PURE) bench_world (bench_start_state PURE) = (s', Inr ''done'')"
    "xs_invoked s' = [(''a1'', d)]" by (rule bench_returns)
  have "chained plain_env (bench_db PURE) (xs_invoked (bench_start_state PURE)) (xs_db (bench_start_state PURE))"
    by (simp add: bench_tool_def)
  from tool_bodies_run_once [OF bench_world_ok bench_ledger_ok this e(1)] show ?thesis using e by blast
qed

text \<open>The history of that execution up to the moment when its body starts.\<close>

lemma bench_history:
  obtains d where "(step plain_env)\<^sup>*\<^sup>* (bench_db i) d" "status_of d ''a1'' = Some OperationStatus.RUNNING"
proof -
  obtain s' d where e: "execute 1 returns False (bench_operation i) bench_world (bench_start_state i) = (s', Inr ''done'')"
    "xs_invoked s' = [(''a1'', d)]" by (rule bench_returns)
  have "traced plain_env bench_world (execute 1 returns False (bench_operation i))"
    using bench_world_ok by (rule traced_execute)
  with bench_premises(1) [of i] e have "chained plain_env (bench_db i) [(''a1'', d)] (xs_db s')"
    unfolding traced_def by (metis append_Nil bench_tool_def fst_conv tool_state.select_convs(1,5))
  then show thesis using that by (auto intro: rtranclp.rtrancl_into_rtrancl)
qed



text \<open>A registry with one reading and one writing tool.\<close>

definition sample_tool :: "string \<Rightarrow> string \<Rightarrow> bool \<Rightarrow> tool" where
  "sample_tool name risk delegatable = \<lparr>to_name = name, to_description = [], to_schema = JObj [], to_risk = risk,
     to_declared = None, to_parallel_safe = True, to_delegatable = delegatable, to_extension_preapproval = False,
     to_runtime_profiles = [], to_available = True, to_risk_for = None, to_approval_required = None,
     to_ends_turn = None, to_prepare_arguments = None, to_ensure_available = None, to_validate = Inr,
     to_builds = Inr ()\<rparr>"

definition sample_registry :: registry where
  "sample_registry = \<lparr>rg_tools = [sample_tool ''read'' ''read'' True, sample_tool ''edit'' ''write'' False], rg_frozen = True\<rparr>"

theorem selection_is_delegatable_witness:
  "\<exists>R'. select sample_registry [''read'', ''read''] = Inr R' \<and> map to_name (rg_tools R') = [''read''] \<and>
     (\<forall>t \<in> set (rg_tools R'). to_delegatable t)"
proof -
  let ?R = "\<lparr>rg_tools = [sample_tool ''read'' ''read'' True], rg_frozen = False\<rparr>"
  have s: "select sample_registry [''read'', ''read''] = Inr ?R"
    by (simp add: select_def sample_registry_def sample_tool_def find_tool_def lookup_row_def never_delegated_def
        register_def empty_registry_def all_risks_def)
  have "map to_name (rg_tools ?R) = [''read'']" by (simp add: sample_tool_def)
  moreover have "\<forall>t \<in> set (rg_tools ?R). to_delegatable t" using selection_is_delegatable [OF s] by blast
  ultimately show ?thesis using s by (intro exI [of _ ?R] conjI)
qed

definition sample_context :: tool_context where
  "sample_context = \<lparr>xc_binding = None, xc_coordinated = False, xc_approval = Some (\<lambda>_. Inr True),
     xc_authorization = None, xc_workspace_root = ''/w''\<rparr>"

definition edit_call :: invocation where
  "edit_call = \<lparr>iv_tool = sample_tool ''edit'' ''write'' False, iv_name = ''edit'', iv_arguments = [],
     iv_risk = ''write'', iv_idempotency = ''non_idempotent'', iv_approval_required = True,
     iv_parallel_safe = False, iv_tool_call_id = ''c1''\<rparr>"

lemma undeclared_name: "idempotency_name ''NON_IDEMPOTENT'' = ''non_idempotent''"
  by code_simp


theorem parallel_safe_is_pure_witness:
  "\<exists>iv. prepare_invocation plain_env sample_registry sample_context ''read'' [] ''c1'' = Inr iv \<and> iv_parallel_safe iv \<and>
     iv_risk iv = ''read'' \<and> ends_turn sample_registry ''read'' ''x'' = Inr False"
proof -
  have pure: "idempotency_name ''PURE'' = ''pure''" by code_simp
  obtain iv where iv: "prepare_invocation plain_env sample_registry sample_context ''read'' [] ''c1'' = Inr iv" "iv_parallel_safe iv"
    by (simp add: prepare_invocation_def find_tool_def lookup_row_def sample_registry_def sample_tool_def
        checked_arguments_def resolved_risk_def runtime_allowed_def sample_context_def needs_approval_def or_keep_def pure)
  then show ?thesis using parallel_safe_is_pure [OF iv] by blast
qed

end
