(* ===== verification/Runtime_Generations.thy ===== *)
theory Runtime_Generations
  imports Controller_Runs
begin

section \<open>Runtime generations\<close>

text \<open>
  The generations of runtime resources in \<^verbatim>\<open>gateway/state_controller.py\<close>: reload attempts and approvals,
  activation, references of resumable owners, plugin health and the garbage collection of artifacts. The
  connection is opened with \<^verbatim>\<open>isolation_level=None\<close> and these methods send no \<^verbatim>\<open>BEGIN\<close>, so every statement is a
  transaction of its own: an exception or a crash in the middle keeps the statements before it. A method is
  therefore a \<open>script\<close>, which takes the number of statements that still reach the disk and returns the
  database in every outcome. The lock of the write gate, held by \<^verbatim>\<open>_connection\<close>, keeps two scripts apart.
\<close>

subsection \<open>Tables\<close>

record head_row =
  hd_profile :: string
  hd_generation_id :: string
  hd_revision :: nat
  hd_updated_at :: timestamp

record reload_attempt_row =
  la_attempt_id :: string
  la_plan_hash :: "string option"
  la_generation_id :: "string option"
  la_actor :: string
  la_status :: string
  la_plan_json :: "string option"
  la_error_type :: "string option"
  la_error_summary :: "string option"
  la_created_at :: timestamp
  la_completed_at :: "timestamp option"

record reload_approval_row =
  lp_plan_hash :: string
  lp_generation_id :: string
  lp_actor :: string
  lp_approved :: bool
  lp_approved_at :: timestamp
  lp_plan_json :: string

record plugin_row =
  ph_generation_id :: string
  ph_plugin_id :: string
  ph_profile :: string
  ph_failure_count :: nat
  ph_failure_streak :: nat
  ph_ignored_failure_count :: nat
  ph_quarantined :: bool
  ph_last_failure_kind :: "string option"
  ph_last_error :: "string option"
  ph_quarantined_at :: "timestamp option"
  ph_revision :: nat
  ph_updated_at :: timestamp

text \<open>\<open>rt_cron_dispatches\<close> lists identifier and status of the dispatches, \<open>None\<close> while that table does not exist.\<close>

record runtime_db =
  rt_home :: db
  rt_heads :: "head_row list"
  rt_attempts :: "reload_attempt_row list"
  rt_approvals :: "reload_approval_row list"
  rt_plugins :: "plugin_row list"
  rt_cron_dispatches :: "(string \<times> string) list option"

abbreviation rt_generations :: "runtime_db \<Rightarrow> generation_row list" where
  "rt_generations d \<equiv> runtime_resource_generations (rt_home d)"

abbreviation rt_references :: "runtime_db \<Rightarrow> reference_row list" where
  "rt_references d \<equiv> runtime_generation_references (rt_home d)"

definition set_generations :: "generation_row list \<Rightarrow> runtime_db \<Rightarrow> runtime_db" where
  "set_generations rows d = d\<lparr>rt_home := (rt_home d)\<lparr>runtime_resource_generations := rows\<rparr>\<rparr>"

definition set_references :: "reference_row list \<Rightarrow> runtime_db \<Rightarrow> runtime_db" where
  "set_references rows d = d\<lparr>rt_home := (rt_home d)\<lparr>runtime_generation_references := rows\<rparr>\<rparr>"

record runtime_generation =
  gn_generation_id :: string
  gn_parent_generation_id :: "string option"
  gn_core_api_version :: nat
  gn_semantic_hash :: string
  gn_source_hash :: string
  gn_json :: string

record reload_plan =
  pl_plan_hash :: string
  pl_generation :: runtime_generation
  pl_reasons :: "string list"
  pl_json :: string

subsection \<open>Scripts of statements\<close>

datatype 'a reply = Done 'a | Failed error | Crashed

type_synonym 'a script = "nat \<Rightarrow> runtime_db \<Rightarrow> nat \<times> runtime_db \<times> 'a reply"

definition answer :: "'a \<Rightarrow> 'a script" where
  "answer x n d = (n, d, Done x)"

definition refuse :: "error \<Rightarrow> 'a script" where
  "refuse e n d = (n, d, Failed e)"

definition chain :: "'a script \<Rightarrow> ('a \<Rightarrow> 'b script) \<Rightarrow> 'b script" where
  "chain m f n d = (case m n d of
     (n1, d1, Done x) \<Rightarrow> f x n1 d1 | (n1, d1, Failed e) \<Rightarrow> (n1, d1, Failed e) | (n1, d1, Crashed) \<Rightarrow> (n1, d1, Crashed))"

definition query :: "(runtime_db \<Rightarrow> 'a) \<Rightarrow> 'a script" where
  "query f n d = (n, d, Done (f d))"

text \<open>A writing statement: refused by the authorizer, lost by a crash, failing on a constraint, or done.\<close>

definition exec ::
  "controller \<Rightarrow> WriteScope option \<Rightarrow> (runtime_db \<Rightarrow> (runtime_db \<times> 'a) result) \<Rightarrow> 'a script" where
  "exec C ctx f n d =
    (case admission C ctx of
       Inl e \<Rightarrow> (n, d, Failed e)
     | Inr _ \<Rightarrow>
         (case n of
            0 \<Rightarrow> (0, d, Crashed)
          | Suc m \<Rightarrow> (case f d of Inl e \<Rightarrow> (m, d, Failed e) | Inr (d1, x) \<Rightarrow> (m, d1, Done x))))"

subsection \<open>Statements\<close>

definition stored_generation :: "runtime_db \<Rightarrow> string \<Rightarrow> generation_row option" where
  "stored_generation d i = lookup_row gr_generation_id i (rt_generations d)"

definition generation_row_of ::
  "runtime_generation \<Rightarrow> GenerationStatus \<Rightarrow> timestamp \<Rightarrow> timestamp option \<Rightarrow> generation_row" where
  "generation_row_of g status now activated = \<lparr>
     gr_generation_id = gn_generation_id g, gr_parent_generation_id = gn_parent_generation_id g,
     gr_core_api_version = gn_core_api_version g, gr_semantic_hash = gn_semantic_hash g,
     gr_source_hash = gn_source_hash g, gr_status = status, gr_generation_json = gn_json g,
     gr_created_at = now, gr_activated_at = activated, gr_retired_at = None, gr_artifact_deleted_at = None\<rparr>"

definition insert_generation ::
  "runtime_generation \<Rightarrow> GenerationStatus \<Rightarrow> timestamp \<Rightarrow> timestamp option \<Rightarrow> runtime_db \<Rightarrow> (runtime_db \<times> unit) result" where
  "insert_generation g status now activated d =
    (if stored_generation d (gn_generation_id g) \<noteq> None
     then Inl (IntegrityError ''runtime_resource_generations'')
     else if gn_core_api_version g < 1 then Inl (IntegrityError ''runtime_resource_generations check'')
     else if (case gn_parent_generation_id g of None \<Rightarrow> False
              | Some p \<Rightarrow> p \<noteq> gn_generation_id g \<and> stored_generation d p = None)
     then Inl (IntegrityError ''runtime_resource_generations foreign key'')
     else Inr (set_generations (rt_generations d @ [generation_row_of g status now activated]) d, ()))"

definition update_generations ::
  "(generation_row \<Rightarrow> bool) \<Rightarrow> (generation_row \<Rightarrow> generation_row) \<Rightarrow> runtime_db \<Rightarrow> (runtime_db \<times> nat) result" where
  "update_generations p f d =
     Inr (set_generations (update_rows p f (rt_generations d)) d, count_rows p (rt_generations d))"

definition reload_statuses :: "string list" where
  "reload_statuses = [''activated'', ''unchanged'', ''awaiting_approval'', ''rejected'', ''failed'', ''rollback'']"

definition insert_attempt :: "reload_attempt_row \<Rightarrow> runtime_db \<Rightarrow> (runtime_db \<times> unit) result" where
  "insert_attempt r d =
    (if lookup_row la_attempt_id (la_attempt_id r) (rt_attempts d) \<noteq> None \<or> la_status r \<notin> set reload_statuses
        \<or> (case la_generation_id r of None \<Rightarrow> False | Some g \<Rightarrow> stored_generation d g = None)
     then Inl (IntegrityError ''runtime_reload_attempts'')
     else Inr (d\<lparr>rt_attempts := rt_attempts d @ [r]\<rparr>, ()))"

definition merge_approval :: "reload_approval_row \<Rightarrow> reload_approval_row \<Rightarrow> reload_approval_row" where
  "merge_approval x r = x\<lparr>lp_actor := lp_actor r, lp_approved := True, lp_approved_at := lp_approved_at r\<rparr>"

definition upsert_approval :: "reload_approval_row \<Rightarrow> runtime_db \<Rightarrow> (runtime_db \<times> unit) result" where
  "upsert_approval r d =
    (if lookup_row lp_plan_hash (lp_plan_hash r) (rt_approvals d) = None \<and> stored_generation d (lp_generation_id r) = None
     then Inl (IntegrityError ''runtime_reload_approvals'')
     else Inr (d\<lparr>rt_approvals := upsert_row lp_plan_hash merge_approval r (rt_approvals d)\<rparr>, ()))"

definition insert_head :: "head_row \<Rightarrow> runtime_db \<Rightarrow> (runtime_db \<times> unit) result" where
  "insert_head r d =
    (if lookup_row hd_profile (hd_profile r) (rt_heads d) \<noteq> None \<or> stored_generation d (hd_generation_id r) = None
     then Inl (IntegrityError ''runtime_resource_profile_heads'')
     else Inr (d\<lparr>rt_heads := rt_heads d @ [r]\<rparr>, ()))"

definition move_head :: "string \<Rightarrow> nat \<Rightarrow> timestamp \<Rightarrow> runtime_db \<Rightarrow> (runtime_db \<times> nat) result" where
  "move_head generation_id revision now d =
    (let p = (\<lambda>r. hd_profile r = ''global'' \<and> hd_revision r = revision) in
     if list_ex p (rt_heads d) \<and> stored_generation d generation_id = None
     then Inl (IntegrityError ''runtime_resource_profile_heads'')
     else Inr (d\<lparr>rt_heads := update_rows p (\<lambda>r. r\<lparr>hd_generation_id := generation_id,
                 hd_revision := hd_revision r + 1, hd_updated_at := now\<rparr>) (rt_heads d)\<rparr>,
               count_rows p (rt_heads d)))"

definition owner_kinds :: "string list" where
  "owner_kinds = [''run'', ''runtime'', ''operation'', ''cron'', ''harness'', ''recovery'']"

definition active_reference :: "runtime_db \<Rightarrow> string \<Rightarrow> string \<Rightarrow> reference_row option" where
  "active_reference d kind owner =
     find (\<lambda>r. rf_owner_kind r = kind \<and> rf_owner_id r = owner \<and> rf_active r) (rt_references d)"

definition reference_id_of :: "env \<Rightarrow> string \<Rightarrow> string \<Rightarrow> string \<Rightarrow> string" where
  "reference_id_of E kind owner generation_id =
     sha256 E (''runtime-generation-ref:'' @ kind @ '':'' @ owner @ '':'' @ generation_id)"

definition reactivate :: "reference_row \<Rightarrow> reference_row \<Rightarrow> reference_row" where
  "reactivate x r = x\<lparr>rf_active := True, rf_released_at := None\<rparr>"

definition upsert_reference :: "reference_row \<Rightarrow> runtime_db \<Rightarrow> (runtime_db \<times> unit) result" where
  "upsert_reference r d =
    (let rows = upsert_row rf_reference_id reactivate r (rt_references d);
         new = lookup_row rf_reference_id (rf_reference_id r) rows in
     if lookup_row rf_reference_id (rf_reference_id r) (rt_references d) = None
        \<and> (rf_owner_kind r \<notin> set owner_kinds \<or> stored_generation d (rf_generation_id r) = None)
     then Inl (IntegrityError ''runtime_generation_references'')
     else if (case new of None \<Rightarrow> False
              | Some x \<Rightarrow> list_ex (\<lambda>y. rf_active y \<and> rf_reference_id y \<noteq> rf_reference_id x \<and>
                  rf_owner_kind y = rf_owner_kind x \<and> rf_owner_id y = rf_owner_id x) rows)
     then Inl (IntegrityError ''one_active_runtime_generation_reference'')
     else Inr (set_references rows d, ()))"

definition release_rows ::
  "(reference_row \<Rightarrow> bool) \<Rightarrow> timestamp \<Rightarrow> runtime_db \<Rightarrow> (runtime_db \<times> nat) result" where
  "release_rows p now d =
    (let q = (\<lambda>r. rf_active r \<and> p r) in
     Inr (set_references (update_rows q (\<lambda>r. r\<lparr>rf_active := False, rf_released_at := Some now\<rparr>) (rt_references d)) d,
          count_rows q (rt_references d)))"

subsection \<open>Reads\<close>

definition global_head :: "runtime_db \<Rightarrow> head_row option" where
  "global_head d = lookup_row hd_profile ''global'' (rt_heads d)"

definition active_runtime_generation :: "runtime_db \<Rightarrow> string \<Rightarrow> (generation_row \<times> head_row) option" where
  "active_runtime_generation d profile =
    (case lookup_row hd_profile profile (rt_heads d) of
       None \<Rightarrow> None
     | Some h \<Rightarrow> map_option (\<lambda>g. (g, h)) (stored_generation d (hd_generation_id h)))"

definition runtime_reload_plan_is_approved :: "runtime_db \<Rightarrow> string \<Rightarrow> string \<Rightarrow> bool" where
  "runtime_reload_plan_is_approved d plan_hash generation_id =
     list_ex (\<lambda>r. lp_plan_hash r = plan_hash \<and> lp_generation_id r = generation_id \<and> lp_approved r) (rt_approvals d)"

subsection \<open>Reload attempts and approvals\<close>

definition reload_entry ::
  "string \<Rightarrow> reload_plan \<Rightarrow> string \<Rightarrow> string \<Rightarrow> (string \<times> string) option \<Rightarrow> timestamp \<Rightarrow> reload_attempt_row" where
  "reload_entry attempt_id plan actor status err now = \<lparr>
     la_attempt_id = attempt_id, la_plan_hash = Some (pl_plan_hash plan),
     la_generation_id = Some (gn_generation_id (pl_generation plan)), la_actor = actor, la_status = status,
     la_plan_json = Some (pl_json plan), la_error_type = map_option fst err,
     la_error_summary = map_option (\<lambda>e. sanitize_text (snd e)) err,
     la_created_at = now, la_completed_at = Some now\<rparr>"

text \<open>An exception is given by the name of its type and its text.\<close>

definition record_runtime_reload_attempt ::
  "controller \<Rightarrow> WriteScope option \<Rightarrow> reload_plan \<Rightarrow> string \<Rightarrow> string \<Rightarrow> (string \<times> string) option
     \<Rightarrow> string \<Rightarrow> timestamp \<Rightarrow> (string \<times> string) script" where
  "record_runtime_reload_attempt C ctx plan actor status err uuid now =
    (let g = pl_generation plan;
         attempt_id = sha256 (ct_env C) (''runtime-reload:'' @ pl_plan_hash plan @ '':'' @ actor @ '':'' @ uuid) in
     chain (query (\<lambda>d. stored_generation d (gn_generation_id g))) (\<lambda>existing.
     chain (case existing of
              None \<Rightarrow> exec C ctx (insert_generation g Preparing now None)
            | Some r \<Rightarrow> if gr_generation_json r \<noteq> gn_json g \<and> status \<noteq> ''unchanged''
                       then refuse (StateInvariantError ''reload plan conflicts with stored generation'')
                       else answer ()) (\<lambda>_.
     chain (exec C ctx (insert_attempt (reload_entry attempt_id plan actor status err now))) (\<lambda>_.
     answer (attempt_id, status)))))"

definition record_runtime_reload_failure ::
  "controller \<Rightarrow> WriteScope option \<Rightarrow> string \<Rightarrow> string \<times> string \<Rightarrow> string \<Rightarrow> timestamp \<Rightarrow> unit script" where
  "record_runtime_reload_failure C ctx actor err uuid now =
     exec C ctx (insert_attempt \<lparr>la_attempt_id = uuid, la_plan_hash = None, la_generation_id = None,
       la_actor = actor, la_status = ''failed'', la_plan_json = None, la_error_type = Some (fst err),
       la_error_summary = Some (sanitize_text (snd err)), la_created_at = now, la_completed_at = Some now\<rparr>)"

definition approve_runtime_reload_plan ::
  "controller \<Rightarrow> WriteScope option \<Rightarrow> reload_plan \<Rightarrow> string \<Rightarrow> timestamp \<Rightarrow> unit script" where
  "approve_runtime_reload_plan C ctx plan actor now =
    (let g = pl_generation plan in
     chain (query (\<lambda>d. stored_generation d (gn_generation_id g))) (\<lambda>existing.
     chain (if existing = None then exec C ctx (insert_generation g Preparing now None) else answer ()) (\<lambda>_.
     exec C ctx (upsert_approval \<lparr>lp_plan_hash = pl_plan_hash plan, lp_generation_id = gn_generation_id g,
       lp_actor = actor, lp_approved = True, lp_approved_at = now, lp_plan_json = pl_json plan\<rparr>))))"

subsection \<open>Activation\<close>

definition is_rollback :: "reload_plan \<Rightarrow> bool" where
  "is_rollback plan = list_ex (\<lambda>r. take 9 r = ''rollback:'') (pl_reasons plan)"

definition activated_row :: "timestamp \<Rightarrow> generation_row \<Rightarrow> generation_row" where
  "activated_row now r = r\<lparr>gr_status := Active, gr_activated_at := Some now, gr_retired_at := None\<rparr>"

definition store_active ::
  "controller \<Rightarrow> WriteScope option \<Rightarrow> runtime_generation \<Rightarrow> generation_row option \<Rightarrow> timestamp \<Rightarrow> unit script" where
  "store_active C ctx g existing now =
    (if existing = None then exec C ctx (insert_generation g Active now (Some now))
     else chain (exec C ctx (update_generations (\<lambda>r. gr_generation_id r = gn_generation_id g) (activated_row now)))
       (\<lambda>_. answer ()))"

definition retire_former ::
  "controller \<Rightarrow> WriteScope option \<Rightarrow> string option \<Rightarrow> string \<Rightarrow> timestamp \<Rightarrow> unit script" where
  "retire_former C ctx current i now =
    (if truthy current \<and> current \<noteq> Some i
     then chain (exec C ctx (update_generations
            (\<lambda>r. Some (gr_generation_id r) = current \<and> gr_status r = Active)
            (\<lambda>r. r\<lparr>gr_status := Retired, gr_retired_at := Some now\<rparr>))) (\<lambda>_. answer ())
     else answer ())"

definition swap_head :: "controller \<Rightarrow> WriteScope option \<Rightarrow> head_row option \<Rightarrow> string \<Rightarrow> timestamp \<Rightarrow> unit script" where
  "swap_head C ctx head i now =
    (case head of
       None \<Rightarrow> exec C ctx (insert_head \<lparr>hd_profile = ''global'', hd_generation_id = i,
                 hd_revision = 0, hd_updated_at = now\<rparr>)
     | Some h \<Rightarrow> chain (exec C ctx (move_head i (hd_revision h) now)) (\<lambda>count.
                 if count \<noteq> 1 then refuse (StateConflictError ''runtime generation CAS failed'')
                 else answer ()))"

definition activate_runtime_generation ::
  "controller \<Rightarrow> WriteScope option \<Rightarrow> reload_plan \<Rightarrow> string \<Rightarrow> string \<Rightarrow> timestamp \<Rightarrow> string script" where
  "activate_runtime_generation C ctx plan actor uuid now =
    (let g = pl_generation plan; i = gn_generation_id g in
     chain (query global_head) (\<lambda>head.
     let current = map_option hd_generation_id head in
     if gn_parent_generation_id g \<noteq> current
     then refuse (StateConflictError ''runtime resource head changed'')
     else chain (query (\<lambda>d. stored_generation d i)) (\<lambda>existing.
     if (case existing of None \<Rightarrow> False | Some r \<Rightarrow> gr_generation_json r \<noteq> gn_json g)
     then refuse (StateInvariantError ''generation identity has conflicting content'')
     else chain (store_active C ctx g existing now) (\<lambda>_.
     chain (retire_former C ctx current i now) (\<lambda>_.
     chain (swap_head C ctx head i now) (\<lambda>_.
     chain (exec C ctx (insert_attempt (reload_entry uuid plan actor
              (if is_rollback plan then ''rollback'' else ''activated'') None now))) (\<lambda>_.
     answer i)))))))"

subsection \<open>References\<close>

definition acquire_runtime_generation_reference ::
  "controller \<Rightarrow> WriteScope option \<Rightarrow> string \<Rightarrow> string \<Rightarrow> string \<Rightarrow> timestamp \<Rightarrow> reference_row script" where
  "acquire_runtime_generation_reference C ctx generation_id kind owner now =
    (let reference_id = reference_id_of (ct_env C) kind owner generation_id in
     chain (query (\<lambda>d. stored_generation d generation_id)) (\<lambda>generation.
     if (case generation of None \<Rightarrow> True | Some r \<Rightarrow> gr_artifact_deleted_at r \<noteq> None)
     then refuse (StateInvariantError ''referenced runtime generation is unavailable'')
     else chain (query (\<lambda>d. active_reference d kind owner)) (\<lambda>active.
     case active of
       Some r \<Rightarrow>
         if rf_generation_id r \<noteq> generation_id
         then refuse (StateConflictError ''runtime owner is fenced to a different generation'')
         else answer r
     | None \<Rightarrow>
         chain (exec C ctx (upsert_reference \<lparr>rf_reference_id = reference_id, rf_generation_id = generation_id,
                  rf_owner_kind = kind, rf_owner_id = owner, rf_active = True, rf_created_at = now,
                  rf_released_at = None\<rparr>)) (\<lambda>_.
         chain (query (\<lambda>d. lookup_row rf_reference_id reference_id (rt_references d))) (\<lambda>row.
         case row of None \<Rightarrow> refuse (AttributeError ''row'') | Some r \<Rightarrow> answer r)))))"

definition release_runtime_generation_reference ::
  "controller \<Rightarrow> WriteScope option \<Rightarrow> string \<Rightarrow> string \<Rightarrow> timestamp \<Rightarrow> unit script" where
  "release_runtime_generation_reference C ctx kind owner now =
     chain (exec C ctx (release_rows (\<lambda>r. rf_owner_kind r = kind \<and> rf_owner_id r = owner) now)) (\<lambda>_. answer ())"

definition release_runtime_generation_references_by_kind ::
  "controller \<Rightarrow> WriteScope option \<Rightarrow> string \<Rightarrow> timestamp \<Rightarrow> nat script" where
  "release_runtime_generation_references_by_kind C ctx kind now =
    (if kind \<noteq> ''runtime'' then refuse (ValueError ''bulk release is for runtime references only'')
     else exec C ctx (release_rows (\<lambda>r. rf_owner_kind r = kind) now))"

definition terminal_run :: "runtime_db \<Rightarrow> string \<Rightarrow> bool" where
  "terminal_run d i = list_ex (\<lambda>st. st_run_id st = i \<and> st_task_state st \<in> set TERMINAL_STATES) (states (rt_home d))"

definition ended_dispatches :: "(string \<times> string) list \<Rightarrow> string \<Rightarrow> bool" where
  "ended_dispatches rows i =
     list_ex (\<lambda>(j, s). j = i \<and> s \<in> {''succeeded'', ''failed'', ''cancelled'', ''skipped''}) rows"

definition reconcile_runtime_generation_references ::
  "controller \<Rightarrow> WriteScope option \<Rightarrow> timestamp \<Rightarrow> (nat \<times> nat \<times> nat) script" where
  "reconcile_runtime_generation_references C ctx now =
     chain (exec C ctx (release_rows (\<lambda>r. rf_owner_kind r = ''runtime'') now)) (\<lambda>runtime.
     chain (exec C ctx (\<lambda>d. release_rows (\<lambda>r. rf_owner_kind r = ''run'' \<and> terminal_run d (rf_owner_id r)) now d)) (\<lambda>run.
     chain (query rt_cron_dispatches) (\<lambda>table.
     chain (case table of
              None \<Rightarrow> answer 0
            | Some rows \<Rightarrow> exec C ctx (release_rows (\<lambda>r. rf_owner_kind r = ''cron'' \<and> ended_dispatches rows (rf_owner_id r)) now))
       (\<lambda>cron. answer (runtime, run, cron)))))"

subsection \<open>Plugin health\<close>

definition plugin_key :: "plugin_row \<Rightarrow> string \<times> string \<times> string" where
  "plugin_key r = (ph_generation_id r, ph_plugin_id r, ph_profile r)"

definition merge_plugin :: "plugin_row \<Rightarrow> plugin_row \<Rightarrow> plugin_row" where
  "merge_plugin x r = r\<lparr>ph_revision := ph_revision x + 1\<rparr>"

definition upsert_plugin :: "plugin_row \<Rightarrow> runtime_db \<Rightarrow> (runtime_db \<times> unit) result" where
  "upsert_plugin r d =
    (if lookup_row plugin_key (plugin_key r) (rt_plugins d) = None \<and> stored_generation d (ph_generation_id r) = None
     then Inl (IntegrityError ''runtime_plugin_health'')
     else Inr (d\<lparr>rt_plugins := upsert_row plugin_key merge_plugin r (rt_plugins d)\<rparr>, ()))"

text \<open>The new row after a failure, from the row before it.\<close>

definition failed_plugin ::
  "string \<times> string \<times> string \<Rightarrow> plugin_row option \<Rightarrow> string \<Rightarrow> string \<Rightarrow> bool \<Rightarrow> nat \<Rightarrow> timestamp \<Rightarrow> plugin_row" where
  "failed_plugin key row kind summary counts threshold now =
    (let before = (case row of None \<Rightarrow> False | Some r \<Rightarrow> ph_quarantined r);
         count = (\<lambda>f. case row of None \<Rightarrow> 0 | Some r \<Rightarrow> f r);
         streak = count ph_failure_streak + (if counts then 1 else 0);
         after = (max 1 threshold \<le> streak \<or> before)
     in \<lparr>ph_generation_id = fst key, ph_plugin_id = fst (snd key), ph_profile = snd (snd key),
         ph_failure_count = count ph_failure_count + (if counts then 1 else 0), ph_failure_streak = streak,
         ph_ignored_failure_count = count ph_ignored_failure_count + (if counts then 0 else 1),
         ph_quarantined = after, ph_last_failure_kind = Some kind, ph_last_error = Some summary,
         ph_quarantined_at = (if after \<and> \<not> before then Some now
                              else case row of None \<Rightarrow> None | Some r \<Rightarrow> ph_quarantined_at r),
         ph_revision = 0, ph_updated_at = now\<rparr>)"

definition quarantine_retired :: "string \<Rightarrow> runtime_db \<Rightarrow> (runtime_db \<times> nat) result" where
  "quarantine_retired generation_id = update_generations
     (\<lambda>r. gr_generation_id r = generation_id \<and> gr_status r = Retired) (\<lambda>r. r\<lparr>gr_status := Quarantined\<rparr>)"

definition record_runtime_plugin_failure ::
  "controller \<Rightarrow> WriteScope option \<Rightarrow> string \<times> string \<times> string \<Rightarrow> string \<Rightarrow> string \<Rightarrow> bool \<Rightarrow> nat \<Rightarrow> timestamp
     \<Rightarrow> (plugin_row \<times> bool) script" where
  "record_runtime_plugin_failure C ctx key kind err counts threshold now =
     chain (query (\<lambda>d. lookup_row plugin_key key (rt_plugins d))) (\<lambda>row.
     let new = failed_plugin key row kind (take 2000 (sanitize_text err)) counts threshold now;
         before = (case row of None \<Rightarrow> False | Some r \<Rightarrow> ph_quarantined r) in
     chain (exec C ctx (upsert_plugin new)) (\<lambda>_.
     chain (if ph_quarantined new then chain (exec C ctx (quarantine_retired (fst key))) (\<lambda>_. answer ()) else answer ()) (\<lambda>_.
     answer (new, ph_quarantined new \<and> \<not> before))))"

definition record_runtime_plugin_success ::
  "controller \<Rightarrow> WriteScope option \<Rightarrow> string \<times> string \<times> string \<Rightarrow> timestamp \<Rightarrow> unit script" where
  "record_runtime_plugin_success C ctx key now =
     exec C ctx (\<lambda>d. Inr (d\<lparr>rt_plugins := update_rows (\<lambda>r. plugin_key r = key \<and> \<not> ph_quarantined r)
       (\<lambda>r. r\<lparr>ph_failure_streak := 0, ph_revision := ph_revision r + 1, ph_updated_at := now\<rparr>) (rt_plugins d)\<rparr>, ()))"

definition mark_runtime_generation_quarantined ::
  "controller \<Rightarrow> WriteScope option \<Rightarrow> string \<Rightarrow> unit script" where
  "mark_runtime_generation_quarantined C ctx generation_id =
     chain (query (\<lambda>d. list_ex (\<lambda>h. hd_generation_id h = generation_id) (rt_heads d))) (\<lambda>head.
     if head then refuse (StateConflictError ''cannot quarantine the active head'')
     else chain (exec C ctx (quarantine_retired generation_id)) (\<lambda>_. answer ()))"

text \<open>
  \<^verbatim>\<open>json.loads\<close> of the stored generation and its descriptors; text that does not parse is skipped, a value of
  another shape raises.
\<close>

definition describes_plugin :: "env \<Rightarrow> string \<Rightarrow> generation_row \<Rightarrow> bool result" where
  "describes_plugin E plugin_id r =
    (case json_loads E (gr_generation_json r) of
       None \<Rightarrow> Inr False
     | Some (JObj m) \<Rightarrow>
         (case map_of m ''descriptors'' of
            None \<Rightarrow> Inr False
          | Some (JArr xs) \<Rightarrow>
              Inr (list_ex (\<lambda>x. case x of JObj i \<Rightarrow> map_of i ''plugin_id'' = Some (JStr plugin_id) | _ \<Rightarrow> False) xs)
          | Some (JObj _) \<Rightarrow> Inr False
          | Some (JStr _) \<Rightarrow> Inr False
          | Some _ \<Rightarrow> Inl (AttributeError ''descriptors''))
     | Some _ \<Rightarrow> Inl (AttributeError ''get''))"

fun first_describing :: "env \<Rightarrow> string \<Rightarrow> (string \<Rightarrow> bool) \<Rightarrow> generation_row list \<Rightarrow> string option result" where
  "first_describing E plugin_id bad [] = Inr None"
| "first_describing E plugin_id bad (r # rs) =
    (if bad (gr_generation_id r) then first_describing E plugin_id bad rs
     else rbind (describes_plugin E plugin_id r) (\<lambda>found.
       if found then Inr (Some (gr_generation_id r)) else first_describing E plugin_id bad rs))"

definition last_healthy_runtime_plugin_generation ::
  "env \<Rightarrow> runtime_db \<Rightarrow> string \<Rightarrow> string \<Rightarrow> string option result" where
  "last_healthy_runtime_plugin_generation E d plugin_id excluding =
    (let rows = filter (\<lambda>r. gr_generation_id r \<noteq> excluding \<and> gr_artifact_deleted_at r = None \<and>
           gr_status r \<in> {Active, Retired} \<and> gr_activated_at r \<noteq> None) (rt_generations d);
         bad = (\<lambda>i. list_ex (\<lambda>p. ph_generation_id p = i \<and> ph_plugin_id p = plugin_id \<and> ph_quarantined p) (rt_plugins d))
     in first_describing E plugin_id bad (sort_key (\<lambda>r. - or_keep (gr_activated_at r) (gr_created_at r)) rows))"

subsection \<open>Garbage collection\<close>

definition referenced :: "runtime_db \<Rightarrow> string \<Rightarrow> bool" where
  "referenced d i = list_ex (\<lambda>r. rf_generation_id r = i \<and> rf_active r) (rt_references d)"

definition is_head :: "runtime_db \<Rightarrow> string \<Rightarrow> bool" where
  "is_head d i = list_ex (\<lambda>h. hd_generation_id h = i) (rt_heads d)"

definition runtime_generation_gc_candidates :: "runtime_db \<Rightarrow> timestamp \<Rightarrow> nat \<Rightarrow> generation_row list" where
  "runtime_generation_gc_candidates d now retention_days =
    (let cutoff = now - of_nat (86400 * retention_days) in
     filter (\<lambda>g. gr_status g \<in> {Retired, Quarantined, Rejected} \<and> gr_artifact_deleted_at g = None \<and>
       or_keep (gr_retired_at g) (gr_created_at g) < cutoff \<and>
       \<not> referenced d (gr_generation_id g) \<and> \<not> is_head d (gr_generation_id g)) (rt_generations d))"

definition runtime_generation_pending_artifact_cleanup :: "runtime_db \<Rightarrow> generation_row list" where
  "runtime_generation_pending_artifact_cleanup d =
     sort_key (\<lambda>g. or_keep (gr_artifact_deleted_at g) 0) (filter (\<lambda>g. gr_artifact_deleted_at g \<noteq> None)
       (sort_key gr_generation_id (rt_generations d)))"

definition delete_runtime_generation_if_unreferenced ::
  "controller \<Rightarrow> WriteScope option \<Rightarrow> string \<Rightarrow> timestamp \<Rightarrow> bool script" where
  "delete_runtime_generation_if_unreferenced C ctx generation_id now =
     chain (query (\<lambda>d. referenced d generation_id)) (\<lambda>active.
     chain (query (\<lambda>d. is_head d generation_id)) (\<lambda>head.
     if active \<or> head then answer False
     else chain (exec C ctx (update_generations
            (\<lambda>r. gr_generation_id r = generation_id \<and> gr_status r \<noteq> Active \<and> gr_artifact_deleted_at r = None)
            (\<lambda>r. r\<lparr>gr_artifact_deleted_at := Some now\<rparr>))) (\<lambda>count. answer (count = 1))))"

end
