(* ===== verification/Runtime_Safety.thy ===== *)
theory Runtime_Safety
  imports Runtime_Generations
begin

section \<open>Histories of runtime generations\<close>

text \<open>
  The runtime tables together with the control plane as one step relation, with a crash after any statement,
  and what holds in every history: an active reference binds its owner to one generation whose artifact is
  kept, activation is a compare-and-swap on the head, and quarantine is final.
\<close>

subsection \<open>The control plane and the runtime tables\<close>

definition runtime_same :: "db \<Rightarrow> db \<Rightarrow> bool" where
  "runtime_same d d' \<longleftrightarrow> runtime_resource_generations d' = runtime_resource_generations d \<and>
     runtime_generation_references d' = runtime_generation_references d"

lemma runtime_same_refl [simp]: "runtime_same d d"
  by (simp add: runtime_same_def)

lemma runtime_same_trans: "runtime_same d d1 \<Longrightarrow> runtime_same d1 d2 \<Longrightarrow> runtime_same d d2"
  by (simp add: runtime_same_def)

lemma runtime_same_writes:
  "save_operation_opt d op = Inr d' \<Longrightarrow> runtime_same d d'" "save_attempt_opt d a = Inr d' \<Longrightarrow> runtime_same d d'"
  "save_approval_opt d ap = Inr d' \<Longrightarrow> runtime_same d d'" "cas_state d st n = Inr d' \<Longrightarrow> runtime_same d d'"
  "log_transition d b st i t ts = Inr d' \<Longrightarrow> runtime_same d d'"
  "write_event E d st et p ci ek ca co now = Inr (d', e) \<Longrightarrow> runtime_same d d'"
  "insert_run d r = Inr d' \<Longrightarrow> runtime_same d d'" "insert_state d st = Inr d' \<Longrightarrow> runtime_same d d'"
  "runtime_same d (update_run_projection d st)" "untouched d d' \<Longrightarrow> runtime_same d d'"
  "runtime_same d (insert_idempotency d cl ok k h rid ts)"
  by (auto simp: runtime_same_def save_operation_opt_def save_operation_def save_attempt_opt_def save_attempt_def
      save_approval_opt_def save_approval_def cas_state_def log_transition_def insert_transition_def write_event_def
      insert_run_def insert_state_def update_run_projection_def untouched_def insert_idempotency_def Let_def
      split: option.splits if_splits)

lemma apply_runtime_same:
  assumes "apply_command C ctx d k x = Inr (d', res)"
  shows "runtime_same d d'"
proof (cases "lookup_row pc_command_id (cmd_command_id k) (processed_commands d)")
  case (Some r)
  then show ?thesis using apply_command_duplicate [OF assms Some] by simp
next
  case None
  obtain st oc where c: "dispatch C d st k x (cmd_body k) = Inr oc" "commit_outcome C st k x oc = Inr (d', res)"
    using assms None by (rule apply_command_fresh)
  obtain d1 d2 d3 d4 d5 d6 e st2 p where s: "save_operation_opt (oc_db oc) (oc_operation oc) = Inr d1"
    "save_attempt_opt d1 (oc_attempt oc) = Inr d2" "save_approval_opt d2 (oc_approval oc) = Inr d3"
    "cas_state d3 st2 (st_revision st) = Inr d4"
    "log_transition (update_run_projection d4 st2) st st2 (cmd_command_id k) (oc_transition oc) (cx_now x) = Inr d5"
    "write_event (ct_env C) d5 st2 (event_type (cmd_body k)) p (Some (cmd_command_id k)) (cmd_event_key k)
       (cmd_causation_id k) (Some (or_text (cmd_correlation_id k) (st_run_id st2))) (cx_event_now x) = Inr (d6, e)"
    "runtime_same d6 d'"
    using c(2) by (auto simp: commit_outcome_def Let_def result_simps runtime_same_def split: if_splits)
  have "runtime_same d (oc_db oc)" using dispatch_frame(1) [OF c(1)] by (rule runtime_same_writes(10))
  then show ?thesis
    using runtime_same_writes(1) [OF s(1)] runtime_same_writes(2) [OF s(2)] runtime_same_writes(3) [OF s(3)]
      runtime_same_writes(4) [OF s(4)] runtime_same_writes(9) runtime_same_writes(5) [OF s(5)]
      runtime_same_writes(6) [OF s(6)] s(7)
    unfolding runtime_same_def by metis
qed

text \<open>A created run may add one active reference to a stored generation whose artifact is kept.\<close>

definition run_reference :: "db \<Rightarrow> reference_row \<Rightarrow> bool" where
  "run_reference d r \<longleftrightarrow> rf_active r \<and>
     (\<exists>g. lookup_row gr_generation_id (rf_generation_id r) (runtime_resource_generations d) = Some g \<and>
        gr_artifact_deleted_at g = None) \<and>
     (\<forall>x \<in> set (runtime_generation_references d). rf_reference_id x \<noteq> rf_reference_id r \<and>
        \<not> (rf_active x \<and> rf_owner_kind x = rf_owner_kind r \<and> rf_owner_id x = rf_owner_id r))"

lemma bind_reference:
  assumes "bind_generation E d i g ts = Inr d'"
  shows "runtime_resource_generations d' = runtime_resource_generations d \<and>
    (runtime_generation_references d' = runtime_generation_references d \<or>
     (\<exists>r. runtime_generation_references d' = runtime_generation_references d @ [r] \<and> run_reference d r))"
  using assms by (auto simp: bind_generation_def run_reference_def Let_def list_ex_iff split: option.splits if_splits)

lemma run_reference_same: "runtime_same d d1 \<Longrightarrow> run_reference d1 r = run_reference d r"
  by (simp add: run_reference_def runtime_same_def)

lemma created_event_same: "created_event C d st x = Inr (d', e) \<Longrightarrow> runtime_same d d'"
  unfolding created_event_def by (rule runtime_same_writes(6))

lemma create_run_references:
  assumes "create_run C ctx d q x = Inr (d', st, dup)"
  shows "runtime_resource_generations d' = runtime_resource_generations d \<and>
    (runtime_generation_references d' = runtime_generation_references d \<or>
     (\<exists>r. runtime_generation_references d' = runtime_generation_references d @ [r] \<and> run_reference d r))"
proof (cases "find_idempotency d (nr_client_id q) (workload_kind_value (nr_workload_kind q)) (nr_idempotency_key q)")
  case (Some r)
  with assms show ?thesis by (auto simp: create_run_def Let_def result_simps split: if_splits)
next
  case None
  let ?idem = "\<lambda>d2. insert_idempotency d2 (nr_client_id q) (workload_kind_value (nr_workload_kind q)) (nr_idempotency_key q)
          (nr_request_hash q) (nr_run_id q) (cx_now x)"
  obtain d1 d2 d3 e where s: "insert_run d (run_row_of q (cx_now x)) = Inr d1" "insert_state d1 st = Inr d2"
    "bind_generation (ct_env C) (?idem d2) (nr_run_id q) (nr_runtime_generation_id q) (cx_now x) = Inr d3"
    "created_event C (update_run_projection d3 st) st x = Inr (d', e)"
    using assms None by (rule create_run_fresh)
  have a: "runtime_same d (?idem d2)"
    using runtime_same_writes(7) [OF s(1)] runtime_same_writes(8) [OF s(2)] runtime_same_writes(11) runtime_same_trans by blast
  have b: "runtime_same d3 d'"
    using runtime_same_writes(9) created_event_same [OF s(4)] by (rule runtime_same_trans)
  show ?thesis
    using bind_reference [OF s(3)] a b unfolding run_reference_same [OF a] by (simp add: runtime_same_def)
qed

lemma step_references:
  assumes "step E d d'"
  shows "runtime_resource_generations d' = runtime_resource_generations d \<and>
    (runtime_generation_references d' = runtime_generation_references d \<or>
     (\<exists>r. runtime_generation_references d' = runtime_generation_references d @ [r] \<and> run_reference d r))"
  using assms
proof cases
  case (step_apply C k x ctx res)
  then show ?thesis using apply_runtime_same by (auto simp: runtime_same_def)
next
  case (step_create_run C ctx q x st dup)
  then show ?thesis using create_run_references by blast
next
  case (step_create_state C ctx q x st)
  then have "runtime_same d d'"
    by (auto simp: create_state_def Let_def result_simps split: if_splits option.splits)
      (metis created_event_same runtime_same_writes(8,9) runtime_same_trans)
  then show ?thesis by (simp add: runtime_same_def)
next
  case (step_reserve C ctx key h rid cl op ts rid')
  then have "runtime_same d d'"
    using runtime_same_writes(11)
    by (auto simp: reserve_idempotency_def result_simps split: option.splits if_splits)
  then show ?thesis by (simp add: runtime_same_def)
qed

subsection \<open>What a script leaves\<close>

definition left_by :: "'a script \<Rightarrow> nat \<Rightarrow> runtime_db \<Rightarrow> runtime_db" where
  "left_by m n d = fst (snd (m n d))"

lemma left_by_simps [simp]:
  "left_by (answer x) n d = d" "left_by (refuse e) n d = d" "left_by (query q) n d = d"
  "left_by (chain (query q) f) n d = left_by (f (q d)) n d" "chain (answer x) f = f x"
  "left_by (chain (refuse e) f) n d = d"
  by (simp_all add: left_by_def answer_def refuse_def query_def chain_def fun_eq_iff)

lemma chain_assoc [simp]: "chain (chain m f) g = chain m (\<lambda>x. chain (f x) g)"
  by (auto simp: chain_def fun_eq_iff split: prod.splits reply.splits)

lemma chain_if [simp]: "chain (if b then m else m') g = (if b then chain m g else chain m' g)"
  by simp

lemma left_by_if [simp]: "left_by (if b then m else m') n d = (if b then left_by m n d else left_by m' n d)"
  by simp

lemma left_by_option: "left_by (case v of None \<Rightarrow> m | Some x \<Rightarrow> f x) n d =
    (case v of None \<Rightarrow> left_by m n d | Some x \<Rightarrow> left_by (f x) n d)"
  by (cases v) simp_all

lemma chain_option [simp]: "chain (case v of None \<Rightarrow> m | Some x \<Rightarrow> f x) g = (case v of None \<Rightarrow> chain m g | Some x \<Rightarrow> chain (f x) g)"
  by (cases v) simp_all

text \<open>A script keeps a property when it holds in what the script leaves, after any number of statements.\<close>

definition keeps :: "(runtime_db \<Rightarrow> bool) \<Rightarrow> 'a script \<Rightarrow> bool" where
  "keeps P m \<longleftrightarrow> (\<forall>n d. P d \<longrightarrow> P (left_by m n d))"

lemma keepsD: "keeps P m \<Longrightarrow> P d \<Longrightarrow> P (left_by m n d)"
  by (simp add: keeps_def)

lemma keeps_pure: "keeps P (answer x)" "keeps P (refuse e)" "keeps P (query q)"
  by (simp_all add: keeps_def)

lemma keeps_exec: "(\<And>d d1 x. P d \<Longrightarrow> f d = Inr (d1, x) \<Longrightarrow> P d1) \<Longrightarrow> keeps P (exec C ctx f)"
  by (auto simp: keeps_def left_by_def exec_def split: sum.splits nat.splits)

lemma keeps_chain: "keeps P m \<Longrightarrow> (\<And>x. keeps P (f x)) \<Longrightarrow> keeps P (chain m f)"
  by (auto simp: keeps_def left_by_def chain_def split: prod.splits reply.splits) (metis fst_conv snd_conv)+

lemma keeps_if: "(b \<Longrightarrow> keeps P m) \<Longrightarrow> (\<not> b \<Longrightarrow> keeps P m') \<Longrightarrow> keeps P (if b then m else m')"
  by simp

lemma keeps_option:
  "keeps P m \<Longrightarrow> (\<And>x. keeps P (f x)) \<Longrightarrow> keeps P (case v of None \<Rightarrow> m | Some x \<Rightarrow> f x)"
  by (cases v) simp_all

lemmas keeps_rules = keeps_pure keeps_exec keeps_chain keeps_if keeps_option

text \<open>Where a guard matters, the statement is looked at in the state where it runs.\<close>

lemma left_by_chain_exec:
  assumes "I d" "\<And>d1 x. f d = Inr (d1, x) \<Longrightarrow> I d1" "\<And>x. keeps I (g x)"
  shows "I (left_by (chain (exec C ctx f) g) n d)"
  using assms by (auto simp: left_by_def exec_def chain_def keeps_def split: sum.splits nat.splits)

subsection \<open>The invariant\<close>

definition owner_of :: "reference_row \<Rightarrow> string \<times> string" where
  "owner_of r = (rf_owner_kind r, rf_owner_id r)"

definition bound_ok :: "runtime_db \<Rightarrow> bool" where
  "bound_ok d \<longleftrightarrow> distinct (map gr_generation_id (rt_generations d)) \<and>
     distinct (map rf_reference_id (rt_references d)) \<and>
     distinct (map owner_of (filter rf_active (rt_references d))) \<and>
     (\<forall>r \<in> set (rt_references d). rf_active r \<longrightarrow>
        (\<exists>g. stored_generation d (rf_generation_id r) = Some g \<and> gr_artifact_deleted_at g = None))"

lemma bound_keep:
  "bound_ok d \<Longrightarrow> rt_generations d' = rt_generations d \<Longrightarrow> rt_references d' = rt_references d \<Longrightarrow> bound_ok d'"
  by (simp add: bound_ok_def stored_generation_def)

lemma set_fields [simp]:
  "rt_generations (set_generations rows d) = rows" "rt_references (set_generations rows d) = rt_references d"
  "rt_references (set_references rs d) = rs" "rt_generations (set_references rs d) = rt_generations d"
  by (simp_all add: set_generations_def set_references_def)

lemma bound_insert_generation:
  assumes "bound_ok d" "insert_generation g s now a d = Inr (d1, x)"
  shows "bound_ok d1"
proof -
  have d1: "d1 = set_generations (rt_generations d @ [generation_row_of g s now a]) d"
    and none: "stored_generation d (gn_generation_id g) = None"
    using assms(2) by (auto simp: insert_generation_def split: if_splits)
  have "stored_generation d1 i = Some r" if "stored_generation d i = Some r" for i r
    using that by (simp add: d1 stored_generation_def lookup_row_append)
  then show ?thesis
    using assms(1) none by (auto simp: bound_ok_def d1 lookup_row_None_iff stored_generation_def generation_row_of_def)
qed

lemma bound_update_generations:
  assumes "bound_ok d" "update_generations p f d = Inr (d1, x)" "\<And>r. gr_generation_id (f r) = gr_generation_id r"
    and "\<And>r. p r \<Longrightarrow> gr_artifact_deleted_at (f r) = gr_artifact_deleted_at r \<or> \<not> referenced d (gr_generation_id r)"
  shows "bound_ok d1"
proof -
  have d1: "d1 = set_generations (update_rows p f (rt_generations d)) d"
    using assms(2) by (simp add: update_generations_def)
  have look: "stored_generation d1 i = map_option (\<lambda>r. if p r then f r else r) (stored_generation d i)" for i
    using lookup_row_update_rows [of gr_generation_id f] assms(3) by (simp add: d1 stored_generation_def)
  have "\<exists>g. stored_generation d1 (rf_generation_id r) = Some g \<and> gr_artifact_deleted_at g = None"
    if r: "r \<in> set (rt_references d)" "rf_active r" for r
  proof -
    obtain g where g: "stored_generation d (rf_generation_id r) = Some g" "gr_artifact_deleted_at g = None"
      using assms(1) r by (auto simp: bound_ok_def)
    have "gr_generation_id g = rf_generation_id r"
      using g(1) by (auto simp: stored_generation_def dest: lookup_row_Some_mem)
    then have "referenced d (gr_generation_id g)" using r by (auto simp: referenced_def list_ex_iff)
    then show ?thesis using look g assms(4) [of g] by auto
  qed
  then show ?thesis
    using assms(1) update_rows_keys [of gr_generation_id f] assms(3) by (simp add: bound_ok_def d1)
qed

interpretation references: row_table rf_reference_id reactivate
  by unfold_locales (simp add: reactivate_def)

interpretation reload_approvals: row_table lp_plan_hash merge_approval
  by unfold_locales (simp add: merge_approval_def)

interpretation plugins: row_table plugin_key merge_plugin
  by unfold_locales (simp add: merge_plugin_def plugin_key_def)

lemma active_reference_None:
  "active_reference d kind owner = None \<longleftrightarrow> (kind, owner) \<notin> owner_of ` set (filter rf_active (rt_references d))"
  by (auto simp: active_reference_def find_None_iff owner_of_def)

lemma bound_append:
  assumes "bound_ok d" "rf_reference_id r \<notin> rf_reference_id ` set (rt_references d)"
    and "rf_active r \<Longrightarrow> owner_of r \<notin> owner_of ` set (filter rf_active (rt_references d))"
    and "rf_active r \<Longrightarrow> \<exists>g. stored_generation d (rf_generation_id r) = Some g \<and> gr_artifact_deleted_at g = None"
  shows "bound_ok (set_references (rt_references d @ [r]) d)"
  using assms by (auto simp: bound_ok_def stored_generation_def)

lemma bound_release:
  assumes "bound_ok d" "release_rows p now d = Inr (d1, x)"
  shows "bound_ok d1"
proof -
  let ?q = "\<lambda>r. rf_active r \<and> p r" and ?f = "\<lambda>r. r\<lparr>rf_active := False, rf_released_at := Some now\<rparr>"
  have d1: "d1 = set_references (update_rows ?q ?f (rt_references d)) d"
    using assms(2) by (auto simp: release_rows_def Let_def)
  have "filter rf_active (update_rows ?q ?f rows) = filter (\<lambda>r. \<not> p r) (filter rf_active rows)" for rows
    by (induction rows) (auto simp: update_rows_def)
  moreover have "distinct (map owner_of (filter (\<lambda>r. rf_active r \<and> \<not> p r) rows))"
    if "distinct (map owner_of (filter rf_active rows))" for rows
    using that by (induction rows) (auto split: if_splits)
  moreover have "map rf_reference_id (update_rows ?q ?f (rt_references d)) = map rf_reference_id (rt_references d)"
    by (rule update_rows_keys) simp
  moreover have "r \<in> set (rt_references d)" if "r \<in> set (update_rows ?q ?f (rt_references d))" "rf_active r" for r
    using that by (auto simp: set_update_rows split: if_splits)
  ultimately show ?thesis
    using assms(1) by (auto simp: bound_ok_def d1 stored_generation_def)
qed

text \<open>
  Reactivating a released reference: the row keeps its own owner and generation, so the condition asks that the
  identifier was made for this owner and generation, as an injective hash makes it.
\<close>

definition own_reference :: "runtime_db \<Rightarrow> string \<Rightarrow> string \<Rightarrow> string \<Rightarrow> string \<Rightarrow> bool" where
  "own_reference d i kind owner generation_id \<longleftrightarrow>
     (\<forall>x. lookup_row rf_reference_id i (rt_references d) = Some x \<longrightarrow>
        owner_of x = (kind, owner) \<and> rf_generation_id x = generation_id)"

lemma bound_reactivate:
  assumes b: "bound_ok d" and x: "lookup_row rf_reference_id (rf_reference_id r) (rt_references d) = Some x"
    and same: "owner_of x = owner_of r" "rf_generation_id x = rf_generation_id r"
    and none: "owner_of r \<notin> owner_of ` set (filter rf_active (rt_references d))"
    and g: "stored_generation d (rf_generation_id r) = Some g" "gr_artifact_deleted_at g = None"
  shows "bound_ok (set_references (upsert_row rf_reference_id reactivate r (rt_references d)) d)"
proof -
  obtain xs ys where rows: "rt_references d = xs @ x # ys" "rf_reference_id x = rf_reference_id r"
    using lookup_row_Some_mem [OF x] split_list by metis
  have "distinct (map rf_reference_id (rt_references d))" using b by (simp add: bound_ok_def)
  then have "rf_reference_id r \<notin> rf_reference_id ` set xs" using rows by auto
  then have new: "upsert_row rf_reference_id reactivate r (rt_references d) = xs @ reactivate x r # ys"
    unfolding rows(1) using rows(2) by (induction xs) auto
  have m: "rf_reference_id (reactivate x r) = rf_reference_id x" "owner_of (reactivate x r) = owner_of x"
    "rf_generation_id (reactivate x r) = rf_generation_id x"
    by (simp_all add: reactivate_def owner_of_def)
  have inactive: "\<not> rf_active x" using none same(1) rows(1) by auto
  then have d: "distinct (map owner_of (filter rf_active (xs @ reactivate x r # ys)))"
    using b none m(2) same(1) by (auto simp: bound_ok_def rows(1) image_iff)
  show ?thesis
    using b m d g same(2) rows(1) unfolding bound_ok_def new by (auto simp: stored_generation_def)
qed

subsection \<open>Every method keeps the invariant, wherever it stops\<close>

lemma bound_insert_attempt: "bound_ok d \<Longrightarrow> insert_attempt r d = Inr (d1, x) \<Longrightarrow> bound_ok d1"
  by (auto simp: insert_attempt_def split: if_splits intro: bound_keep)

lemma bound_upsert_approval: "bound_ok d \<Longrightarrow> upsert_approval r d = Inr (d1, x) \<Longrightarrow> bound_ok d1"
  by (auto simp: upsert_approval_def split: if_splits intro: bound_keep)

lemma bound_insert_head: "bound_ok d \<Longrightarrow> insert_head r d = Inr (d1, x) \<Longrightarrow> bound_ok d1"
  by (auto simp: insert_head_def split: if_splits intro: bound_keep)

lemma bound_move_head: "bound_ok d \<Longrightarrow> move_head i n now d = Inr (d1, x) \<Longrightarrow> bound_ok d1"
  by (auto simp: move_head_def Let_def split: if_splits intro: bound_keep)

lemma bound_upsert_plugin: "bound_ok d \<Longrightarrow> upsert_plugin r d = Inr (d1, x) \<Longrightarrow> bound_ok d1"
  by (auto simp: upsert_plugin_def split: if_splits intro: bound_keep)

lemma bound_status_update:
  assumes "bound_ok d" "update_generations p f d = Inr (d1, x)"
    and "\<And>r. gr_generation_id (f r) = gr_generation_id r" "\<And>r. gr_artifact_deleted_at (f r) = gr_artifact_deleted_at r"
  shows "bound_ok d1"
  using assms(1,2) by (rule bound_update_generations) (simp_all add: assms(3,4))

lemma bound_quarantine: "bound_ok d \<Longrightarrow> quarantine_retired i d = Inr (d1, x) \<Longrightarrow> bound_ok d1"
  unfolding quarantine_retired_def by (erule (1) bound_status_update) simp_all

lemmas bound_statements = bound_insert_generation bound_insert_attempt bound_upsert_approval bound_insert_head
  bound_move_head bound_upsert_plugin bound_quarantine bound_release

lemmas reload_defs = record_runtime_reload_attempt_def record_runtime_reload_failure_def
  approve_runtime_reload_plan_def activate_runtime_generation_def store_active_def
  retire_former_def swap_head_def Let_def

lemma bound_reload:
  "keeps bound_ok (record_runtime_reload_attempt C ctx plan actor status err uuid now)"
  "keeps bound_ok (record_runtime_reload_failure C ctx actor err2 uuid now)"
  "keeps bound_ok (approve_runtime_reload_plan C ctx plan actor now)"
  unfolding reload_defs by (intro keeps_rules; erule (1) bound_statements)+

lemma bound_activate: "keeps bound_ok (activate_runtime_generation C ctx plan actor uuid now)"
proof -
  have up: "bound_ok d1" if "bound_ok d0" "update_generations p (activated_row now) d0 = Inr (d1, x)" for p d0 d1 x
    using that by (rule bound_status_update) (simp_all add: activated_row_def)
  have down: "bound_ok d1"
    if "bound_ok d0" "update_generations p (\<lambda>r. r\<lparr>gr_status := Retired, gr_retired_at := Some now\<rparr>) d0 = Inr (d1, x)"
    for p d0 d1 x using that by (rule bound_status_update) simp_all
  show ?thesis unfolding reload_defs by (intro keeps_rules; (erule (1) bound_statements up down)?)
qed

lemma bound_acquire:
  assumes b: "bound_ok d" and own: "own_reference d (reference_id_of (ct_env C) kind owner i) kind owner i"
  shows "bound_ok (left_by (acquire_runtime_generation_reference C ctx i kind owner now) n d)"
proof (cases "\<exists>g. stored_generation d i = Some g \<and> gr_artifact_deleted_at g = None \<and> active_reference d kind owner = None")
  case True
  then obtain g where g: "stored_generation d i = Some g" "gr_artifact_deleted_at g = None"
    and none: "(kind, owner) \<notin> owner_of ` set (filter rf_active (rt_references d))"
    using active_reference_None by blast
  let ?r = "\<lparr>rf_reference_id = reference_id_of (ct_env C) kind owner i, rf_generation_id = i,
      rf_owner_kind = kind, rf_owner_id = owner, rf_active = True, rf_created_at = now, rf_released_at = None\<rparr>"
  have o: "owner_of ?r = (kind, owner)" by (simp add: owner_of_def)
  have "bound_ok d1" if "upsert_reference ?r d = Inr (d1, x)" for d1 x
  proof -
    have d1: "d1 = set_references (upsert_row rf_reference_id reactivate ?r (rt_references d)) d"
      using that by (auto simp: upsert_reference_def Let_def split: if_splits)
    show ?thesis
    proof (cases "lookup_row rf_reference_id (rf_reference_id ?r) (rt_references d)")
      case None
      then have "rf_reference_id ?r \<notin> rf_reference_id ` set (rt_references d)" by (simp add: lookup_row_None_iff)
      then show ?thesis
        unfolding d1 references.upsert_fresh [OF \<open>rf_reference_id ?r \<notin> rf_reference_id ` set (rt_references d)\<close>]
        using bound_append [OF b, of ?r] none g o by simp
    next
      case (Some x)
      then show ?thesis
        unfolding d1 using bound_reactivate [OF b Some, of g] own none g o by (auto simp: own_reference_def)
    qed
  qed
  then show ?thesis
    using True b unfolding acquire_runtime_generation_reference_def Let_def
    by (auto simp: left_by_option split: option.splits
        intro!: left_by_chain_exec [where I = bound_ok] keeps_rules)
next
  case False
  then show ?thesis
    using b unfolding acquire_runtime_generation_reference_def Let_def
    by (auto simp: left_by_option split: option.splits)
qed

lemma bound_releases:
  "keeps bound_ok (release_runtime_generation_reference C ctx kind owner now)"
  "keeps bound_ok (release_runtime_generation_references_by_kind C ctx kind now)"
  "keeps bound_ok (reconcile_runtime_generation_references C ctx now)"
  unfolding release_runtime_generation_reference_def release_runtime_generation_references_by_kind_def
    reconcile_runtime_generation_references_def
  by (intro keeps_rules; erule (1) bound_statements)+

lemma bound_plugins:
  "keeps bound_ok (record_runtime_plugin_failure C ctx key kind err counts threshold now)"
  "keeps bound_ok (record_runtime_plugin_success C ctx key now)"
  "keeps bound_ok (mark_runtime_generation_quarantined C ctx i)"
  unfolding record_runtime_plugin_failure_def record_runtime_plugin_success_def
    mark_runtime_generation_quarantined_def Let_def
  by (intro keeps_rules; (erule (1) bound_statements)?; force elim: bound_keep)+

lemma bound_delete:
  assumes b: "bound_ok d"
  shows "bound_ok (left_by (delete_runtime_generation_if_unreferenced C ctx i now) n d)"
proof (cases "referenced d i \<or> is_head d i")
  case False
  then have "bound_ok d1" if "update_generations
      (\<lambda>r. gr_generation_id r = i \<and> gr_status r \<noteq> Active \<and> gr_artifact_deleted_at r = None)
      (\<lambda>r. r\<lparr>gr_artifact_deleted_at := Some now\<rparr>) d = Inr (d1, x)" for d1 x
    using b that by (intro bound_update_generations [OF b that]) auto
  then show ?thesis
    using False b unfolding delete_runtime_generation_if_unreferenced_def
    by (auto intro!: left_by_chain_exec [where I = bound_ok] keeps_rules)
qed (simp add: delete_runtime_generation_if_unreferenced_def b)

end
