(* ===== verification/Runtime_Histories.thy ===== *)
theory Runtime_Histories
  imports Runtime_Safety Witnesses
begin

section \<open>Laws of runtime generations\<close>

text \<open>
  The histories of the control plane and the runtime tables: every method may stop after any number of its
  statements. The laws: a bound owner keeps its generation and its artifact, activation is a compare-and-swap on
  the head, a collected generation is in use nowhere, and quarantine of a plugin is final.
\<close>

inductive runtime_step :: "env \<Rightarrow> runtime_db \<Rightarrow> runtime_db \<Rightarrow> bool" for E :: env where
  home_moves: "step E (rt_home d) h \<Longrightarrow> runtime_step E d (d\<lparr>rt_home := h\<rparr>)"
| cron_moves: "runtime_step E d (d\<lparr>rt_cron_dispatches := t\<rparr>)"
| reload_recorded:
    "runtime_step E d (left_by (record_runtime_reload_attempt C ctx plan actor status err uuid now) n d)"
| reload_failed: "runtime_step E d (left_by (record_runtime_reload_failure C ctx actor failure uuid now) n d)"
| reload_approved: "runtime_step E d (left_by (approve_runtime_reload_plan C ctx plan actor now) n d)"
| generation_activated: "runtime_step E d (left_by (activate_runtime_generation C ctx plan actor uuid now) n d)"
| reference_acquired: "own_reference d (reference_id_of (ct_env C) kind owner i) kind owner i \<Longrightarrow>
    runtime_step E d (left_by (acquire_runtime_generation_reference C ctx i kind owner now) n d)"
| reference_released: "runtime_step E d (left_by (release_runtime_generation_reference C ctx kind owner now) n d)"
| kind_released: "runtime_step E d (left_by (release_runtime_generation_references_by_kind C ctx kind now) n d)"
| references_reconciled: "runtime_step E d (left_by (reconcile_runtime_generation_references C ctx now) n d)"
| plugin_failed:
    "runtime_step E d (left_by (record_runtime_plugin_failure C ctx key kind summary counts threshold now) n d)"
| plugin_succeeded: "runtime_step E d (left_by (record_runtime_plugin_success C ctx key now) n d)"
| generation_quarantined: "runtime_step E d (left_by (mark_runtime_generation_quarantined C ctx i) n d)"
| generation_collected: "runtime_step E d (left_by (delete_runtime_generation_if_unreferenced C ctx i now) n d)"

definition fresh_runtime :: "sink_row list \<Rightarrow> (string \<times> string) list option \<Rightarrow> runtime_db" where
  "fresh_runtime sinks dispatches = \<lparr>rt_home = empty_db\<lparr>event_sinks := sinks\<rparr>, rt_heads = [], rt_attempts = [],
     rt_approvals = [], rt_plugins = [], rt_cron_dispatches = dispatches\<rparr>"

inductive runtime_reachable :: "env \<Rightarrow> runtime_db \<Rightarrow> bool" for E :: env where
  runtime_init: "runtime_reachable E (fresh_runtime sinks dispatches)"
| runtime_next: "runtime_reachable E d \<Longrightarrow> runtime_step E d d' \<Longrightarrow> runtime_reachable E d'"

subsection \<open>A bound owner keeps its generation\<close>

lemma bound_home:
  assumes "bound_ok d" "step E (rt_home d) h"
  shows "bound_ok (d\<lparr>rt_home := h\<rparr>)"
proof -
  note S = step_references [OF assms(2)]
  show ?thesis
  proof (cases "runtime_generation_references h = rt_references d")
    case True
    then show ?thesis using bound_keep [OF assms(1), of "d\<lparr>rt_home := h\<rparr>"] S by simp
  next
    case False
    then obtain r where r: "runtime_generation_references h = rt_references d @ [r]" "run_reference (rt_home d) r"
      using S by auto
    have "bound_ok (set_references (rt_references d @ [r]) d)"
      using r(2) by (intro bound_append [OF assms(1)]) (auto simp: run_reference_def owner_of_def stored_generation_def)
    then show ?thesis by (rule bound_keep) (simp_all add: S r(1))
  qed
qed

lemma bound_step:
  assumes "runtime_step E d d'" "bound_ok d"
  shows "bound_ok d'"
  using assms
proof cases
  case (home_moves h)
  then show ?thesis using bound_home assms(2) by simp
next
  case cron_moves
  then show ?thesis using bound_keep [OF assms(2)] by simp
qed (auto intro: assms(2) bound_acquire bound_delete keepsD [where P = bound_ok] bound_reload bound_activate
    bound_releases bound_plugins)

lemma bound_reachable: "runtime_reachable E d \<Longrightarrow> bound_ok d"
proof (induction rule: runtime_reachable.induct)
  case runtime_init
  show ?case by (simp add: bound_ok_def fresh_runtime_def empty_db_def)
next
  case runtime_next
  then show ?case using bound_step by blast
qed

text \<open>
  C30. In every history of commands, runtime methods and crashes between their statements an owner has at most
  one active reference, and the generation it names is stored with its artifact: no reconciliation, activation
  or garbage collection takes the generation away from a run that can still be resumed.
\<close>
theorem bound_generation_is_kept:
  assumes "runtime_reachable E d" "r \<in> set (rt_references d)" "rf_active r"
  shows "(\<exists>g. stored_generation d (rf_generation_id r) = Some g \<and> gr_artifact_deleted_at g = None) \<and>
    count_rows (\<lambda>x. rf_active x \<and> owner_of x = owner_of r) (rt_references d) = 1"
proof -
  have b: "bound_ok d" using assms(1) by (rule bound_reachable)
  have one: "count_rows (\<lambda>x. rf_active x \<and> owner_of x = owner_of r) rows = 1"
    if "distinct (map owner_of (filter rf_active rows))" "r \<in> set rows" for rows
    using that assms(3)
  proof (induction rows)
    case (Cons y ys)
    have "count_rows (\<lambda>x. rf_active x \<and> owner_of x = owner_of r) ys = 0"
      if "owner_of r \<notin> owner_of ` set (filter rf_active ys)"
      using that by (force simp: count_rows_def filter_empty_conv image_iff)
    moreover have "owner_of y \<noteq> owner_of r" if "r \<in> set ys" "rf_active y"
      using Cons.prems that by (auto split: if_splits)
    moreover have "owner_of r \<notin> owner_of ` set (filter rf_active ys)" if "y = r"
      using Cons.prems that by simp
    ultimately show ?case using Cons by (auto simp: count_rows_def split: if_splits)
  qed simp
  show ?thesis using b assms(2,3) one [of "rt_references d"] by (auto simp: bound_ok_def)
qed

subsection \<open>Activation\<close>

lemma chain_Done:
  "chain m f n d = (k, d', Done y) \<longleftrightarrow> (\<exists>n1 d1 x. m n d = (n1, d1, Done x) \<and> f x n1 d1 = (k, d', Done y))"
  by (auto simp: chain_def split: prod.splits reply.splits)

lemma pure_Done [simp]:
  "answer x n d = (k, d', Done y) \<longleftrightarrow> k = n \<and> d' = d \<and> y = x" "refuse e n d \<noteq> (k, d', Done y)"
  "query q n d = (k, d', Done y) \<longleftrightarrow> k = n \<and> d' = d \<and> y = q d"
  by (auto simp: answer_def refuse_def query_def)

lemma exec_Done: "exec C ctx f n d = (k, d', Done y) \<longleftrightarrow> admission C ctx = Inr () \<and> n = Suc k \<and> f d = Inr (d', y)"
  by (auto simp: exec_def split: sum.splits nat.splits)

lemma if_Done:
  "(if b then m else m') n d = (k, d', Done y) \<longleftrightarrow> (b \<and> m n d = (k, d', Done y) \<or> \<not> b \<and> m' n d = (k, d', Done y))"
  by simp

lemmas Done_rules = chain_Done exec_Done if_Done

definition is_active :: "runtime_db \<Rightarrow> string \<Rightarrow> bool" where
  "is_active d i \<longleftrightarrow> (\<exists>r. stored_generation d i = Some r \<and> gr_status r = Active)"

lemma stored_update:
  assumes "update_generations p f d = Inr (d1, x)" "\<And>r. gr_generation_id (f r) = gr_generation_id r"
  shows "stored_generation d1 i = map_option (\<lambda>r. if p r then f r else r) (stored_generation d i)"
    and "rt_heads d1 = rt_heads d"
  using lookup_row_update_rows [of gr_generation_id f] assms
  by (auto simp: update_generations_def stored_generation_def set_generations_def)

lemma stored_id: "stored_generation d i = Some r \<Longrightarrow> gr_generation_id r = i"
  unfolding stored_generation_def using lookup_row_Some_mem by fastforce

text \<open>The statement that makes a generation active, whether it is stored already or not.\<close>

lemma make_active:
  assumes "store_active C ctx g (stored_generation d i) now n d = (n1, d1, Done ())" "gn_generation_id g = i"
  shows "is_active d1 i \<and> rt_heads d1 = rt_heads d"
proof (cases "stored_generation d i")
  case None
  then have "insert_generation g Active now (Some now) d = Inr (d1, ())"
    using assms(1) by (simp add: store_active_def exec_Done)
  then have d1: "d1 = set_generations (rt_generations d @ [generation_row_of g Active now (Some now)]) d"
    by (auto simp: insert_generation_def split: if_splits)
  have "stored_generation d1 i = Some (generation_row_of g Active now (Some now))"
    using None assms(2) by (simp add: d1 stored_generation_def generation_row_of_def)
  then show ?thesis by (simp add: is_active_def generation_row_of_def d1 set_generations_def)
next
  case (Some r)
  then obtain x where u: "update_generations (\<lambda>r. gr_generation_id r = i) (activated_row now) d = Inr (d1, x)"
    using assms by (auto simp: store_active_def Done_rules)
  show ?thesis
    using stored_update [OF u] stored_id [OF Some] Some by (simp add: is_active_def activated_row_def)
qed

lemma retire_old:
  assumes "retire_former C ctx current i now n d = (n1, d1, Done ())" "is_active d i"
  shows "is_active d1 i \<and> rt_heads d1 = rt_heads d \<and> (truthy current \<and> current \<noteq> Some i \<longrightarrow> \<not> is_active d1 (the current))"
proof (cases "truthy current \<and> current \<noteq> Some i")
  case True
  then obtain x where u: "update_generations (\<lambda>r. Some (gr_generation_id r) = current \<and> gr_status r = Active)
      (\<lambda>r. r\<lparr>gr_status := Retired, gr_retired_at := Some now\<rparr>) d = Inr (d1, x)"
    using assms(1) by (auto simp: retire_former_def Done_rules)
  have look: "stored_generation d1 j = map_option (\<lambda>r. if Some (gr_generation_id r) = current \<and> gr_status r = Active
      then r\<lparr>gr_status := Retired, gr_retired_at := Some now\<rparr> else r) (stored_generation d j)" for j
    using stored_update(1) [OF u] by simp
  obtain c where c: "current = Some c" using True by (cases current) simp_all
  have "\<not> is_active d1 c" using stored_id by (auto simp: is_active_def look c)
  moreover obtain r where r: "stored_generation d i = Some r" "gr_status r = Active"
    using assms(2) by (auto simp: is_active_def)
  then have "is_active d1 i" using stored_id [OF r(1)] True by (auto simp: is_active_def look)
  ultimately show ?thesis using stored_update(2) [OF u] c by simp
qed (use assms in \<open>auto simp: retire_former_def\<close>)

lemma head_after:
  assumes "swap_head C ctx head i now n d = (n1, d1, Done ())" "head = global_head d"
  shows "rt_home d1 = rt_home d \<and> (\<exists>h' :: head_row. global_head d1 = Some h' \<and> hd_generation_id h' = i \<and>
     hd_revision h' = (case head of None \<Rightarrow> 0 | Some h \<Rightarrow> hd_revision h + 1))"
proof (cases head)
  case None
  then show ?thesis
    using assms by (auto simp: swap_head_def exec_Done insert_head_def global_head_def lookup_row_append split: if_splits)
next
  case (Some h)
  let ?p = "\<lambda>r. hd_profile r = ''global'' \<and> hd_revision r = hd_revision h"
  let ?f = "\<lambda>r. r\<lparr>hd_generation_id := i, hd_revision := hd_revision r + 1, hd_updated_at := now\<rparr>"
  have d1: "d1 = d\<lparr>rt_heads := update_rows ?p ?f (rt_heads d)\<rparr>"
    using assms(1) by (auto simp: swap_head_def Some Done_rules move_head_def Let_def split: if_splits)
  have "global_head d1 = map_option (\<lambda>r. if ?p r then ?f r else r) (global_head d)"
    using lookup_row_update_rows [of hd_profile ?f] by (simp add: d1 global_head_def)
  moreover have "hd_profile h = ''global''"
    using Some assms(2) lookup_row_Some_mem [of hd_profile "''global''" "rt_heads d" h] by (simp add: global_head_def)
  ultimately show ?thesis using Some assms(2) by (simp add: d1)
qed

text \<open>
  C31. An activation that reports success compared and swapped: the head was the parent the plan was built on, it
  now names the new generation with the next revision, that generation is active and the former one is not; and a
  second plan built on the same parent is refused without a change.
\<close>
theorem activation_is_compare_and_swap:
  assumes "activate_runtime_generation C ctx plan actor uuid now n d = (k, d', Done j)"
    and "i = gn_generation_id (pl_generation plan)" and "p = gn_parent_generation_id (pl_generation plan)"
  shows "j = i \<and> map_option hd_generation_id (global_head d) = p \<and>
    (\<exists>h :: head_row. global_head d' = Some h \<and> hd_generation_id h = i \<and>
       hd_revision h = (case global_head d of None \<Rightarrow> 0 | Some h0 \<Rightarrow> hd_revision h0 + 1)) \<and>
    is_active d' i \<and> (truthy p \<and> p \<noteq> Some i \<longrightarrow> \<not> is_active d' (the p)) \<and>
    (gn_parent_generation_id (pl_generation plan2) = p \<and> p \<noteq> Some i \<longrightarrow>
       activate_runtime_generation C2 ctx2 plan2 actor2 uuid2 now2 m d' =
         (m, d', Failed (StateConflictError ''runtime resource head changed'')))"
proof -
  let ?g = "pl_generation plan"
  have p: "map_option hd_generation_id (global_head d) = p"
    using assms unfolding activate_runtime_generation_def Let_def by (simp add: chain_Done if_Done)
  obtain n1 d1 n2 d2 n3 d3 where s: "store_active C ctx ?g (stored_generation d i) now n d = (n1, d1, Done ())"
    "retire_former C ctx p i now n1 d1 = (n2, d2, Done ())" "swap_head C ctx (global_head d) i now n2 d2 = (n3, d3, Done ())"
    "d' = d3\<lparr>rt_attempts := rt_attempts d'\<rparr>" "j = i"
    using assms(1,3) p unfolding activate_runtime_generation_def Let_def assms(2)
    by (auto simp: chain_Done if_Done exec_Done insert_attempt_def split: if_splits)
  have A: "is_active d1 i" "rt_heads d1 = rt_heads d" using make_active [OF s(1)] assms(2) by simp_all
  have B: "is_active d2 i" "rt_heads d2 = rt_heads d" "truthy p \<and> p \<noteq> Some i \<Longrightarrow> \<not> is_active d2 (the p)"
    using retire_old [OF s(2) A(1)] A(2) by simp_all
  have same: "global_head d2 = global_head d" by (simp add: global_head_def B(2))
  obtain h :: head_row where C: "rt_home d3 = rt_home d2" "global_head d3 = Some h" "hd_generation_id h = i"
    "hd_revision h = (case global_head d of None \<Rightarrow> 0 | Some h0 \<Rightarrow> hd_revision h0 + 1)"
    using head_after [OF s(3)] same by auto
  have D: "global_head d' = Some h" "is_active d' = is_active d2"
    using C(1,2) by (subst s(4), simp add: global_head_def is_active_def stored_generation_def fun_eq_iff)+
  have "activate_runtime_generation C2 ctx2 plan2 actor2 uuid2 now2 m d' =
      (m, d', Failed (StateConflictError ''runtime resource head changed''))"
    if "gn_parent_generation_id (pl_generation plan2) = p" "p \<noteq> Some i"
    using that D(1) C(3) by (simp add: activate_runtime_generation_def chain_def query_def refuse_def Let_def)
  then show ?thesis using p s(5) D C(3,4) B by simp
qed

subsection \<open>Garbage collection\<close>


subsection \<open>Plugin quarantine\<close>

definition plugin_quarantined :: "string \<times> string \<times> string \<Rightarrow> runtime_db \<Rightarrow> bool" where
  "plugin_quarantined key d \<longleftrightarrow> (\<exists>r. lookup_row plugin_key key (rt_plugins d) = Some r \<and> ph_quarantined r)"

lemma quarantine_same: "plugin_quarantined key d \<Longrightarrow> rt_plugins d' = rt_plugins d \<Longrightarrow> plugin_quarantined key d'"
  by (simp add: plugin_quarantined_def)

lemma same_plugins:
  "insert_generation g st now a d = Inr (d1, x) \<Longrightarrow> rt_plugins d1 = rt_plugins d"
  "update_generations p f d = Inr (d1, y) \<Longrightarrow> rt_plugins d1 = rt_plugins d"
  "quarantine_retired i d = Inr (d1, y) \<Longrightarrow> rt_plugins d1 = rt_plugins d"
  "insert_attempt r d = Inr (d1, x) \<Longrightarrow> rt_plugins d1 = rt_plugins d"
  "upsert_approval ap d = Inr (d1, x) \<Longrightarrow> rt_plugins d1 = rt_plugins d"
  "insert_head h d = Inr (d1, x) \<Longrightarrow> rt_plugins d1 = rt_plugins d"
  "move_head i k now d = Inr (d1, y) \<Longrightarrow> rt_plugins d1 = rt_plugins d"
  "upsert_reference rf d = Inr (d1, x) \<Longrightarrow> rt_plugins d1 = rt_plugins d"
  "release_rows q now d = Inr (d1, y) \<Longrightarrow> rt_plugins d1 = rt_plugins d"
  by (auto simp: insert_generation_def update_generations_def quarantine_retired_def insert_attempt_def
      upsert_approval_def insert_head_def move_head_def upsert_reference_def release_rows_def
      set_generations_def set_references_def Let_def split: if_splits)

lemmas quarantine_statements = quarantine_same [OF _ same_plugins(1)] quarantine_same [OF _ same_plugins(2)]
  quarantine_same [OF _ same_plugins(3)] quarantine_same [OF _ same_plugins(4)] quarantine_same [OF _ same_plugins(5)]
  quarantine_same [OF _ same_plugins(6)] quarantine_same [OF _ same_plugins(7)] quarantine_same [OF _ same_plugins(8)]
  quarantine_same [OF _ same_plugins(9)]

lemma quarantine_methods:
  "keeps (plugin_quarantined key) (record_runtime_reload_attempt C ctx plan actor status err uuid now)"
  "keeps (plugin_quarantined key) (record_runtime_reload_failure C ctx actor err2 uuid now)"
  "keeps (plugin_quarantined key) (approve_runtime_reload_plan C ctx plan actor now)"
  "keeps (plugin_quarantined key) (activate_runtime_generation C ctx plan actor uuid now)"
  "keeps (plugin_quarantined key) (acquire_runtime_generation_reference C ctx i kind owner now)"
  "keeps (plugin_quarantined key) (release_runtime_generation_reference C ctx kind owner now)"
  "keeps (plugin_quarantined key) (release_runtime_generation_references_by_kind C ctx kind now)"
  "keeps (plugin_quarantined key) (reconcile_runtime_generation_references C ctx now)"
  "keeps (plugin_quarantined key) (mark_runtime_generation_quarantined C ctx i)"
  "keeps (plugin_quarantined key) (delete_runtime_generation_if_unreferenced C ctx i now)"
  unfolding reload_defs acquire_runtime_generation_reference_def release_runtime_generation_reference_def
    release_runtime_generation_references_by_kind_def reconcile_runtime_generation_references_def
    mark_runtime_generation_quarantined_def delete_runtime_generation_if_unreferenced_def
  by (intro keeps_rules; (erule (1) quarantine_statements)?)+

lemma quarantine_failure:
  assumes "plugin_quarantined key d"
  shows "plugin_quarantined key (left_by (record_runtime_plugin_failure C ctx other kind err counts threshold now) n d)"
proof -
  let ?new = "failed_plugin other (lookup_row plugin_key other (rt_plugins d)) kind (take 2000 (sanitize_text err))
    counts threshold now"
  have new: "plugin_key ?new = other" by (simp add: failed_plugin_def plugin_key_def Let_def)
  have "plugin_quarantined key d1" if "upsert_plugin ?new d = Inr (d1, x)" for d1 x
  proof (cases "key = other")
    case True
    then obtain r where r: "lookup_row plugin_key other (rt_plugins d) = Some r" "ph_quarantined r"
      using assms by (auto simp: plugin_quarantined_def)
    have "ph_quarantined ?new" using r by (simp add: failed_plugin_def Let_def)
    then show ?thesis
      using that True r(1) new plugins.lookup_upsert_same [of ?new "rt_plugins d"]
      by (auto simp: upsert_plugin_def plugin_quarantined_def merge_plugin_def split: if_splits)
  next
    case False
    then show ?thesis
      using that assms new plugins.lookup_upsert_other [of key ?new "rt_plugins d"]
      by (auto simp: upsert_plugin_def plugin_quarantined_def split: if_splits)
  qed
  then show ?thesis
    using assms unfolding record_runtime_plugin_failure_def Let_def left_by_simps
    by (intro left_by_chain_exec [where I = "plugin_quarantined key"] assms keeps_rules;
        (assumption | blast intro: quarantine_statements(3)))
qed

lemma quarantine_success:
  "keeps (plugin_quarantined key) (record_runtime_plugin_success C ctx other now)"
proof -
  have "plugin_key (r\<lparr>ph_failure_streak := 0, ph_revision := Suc (ph_revision r), ph_updated_at := now\<rparr>) = plugin_key r" for r
    by (simp add: plugin_key_def)
  note look = lookup_row_update_rows [of plugin_key, OF this]
  show ?thesis
    unfolding record_runtime_plugin_success_def
    by (intro keeps_exec) (auto simp: plugin_quarantined_def look)
qed

text \<open>C36. A plugin quarantined for a generation and profile stays quarantined through every later history.\<close>
theorem plugin_quarantine_is_final:
  assumes "(runtime_step E)\<^sup>*\<^sup>* d d'" "plugin_quarantined key d"
  shows "plugin_quarantined key d'"
  using assms
proof (induction rule: rtranclp_induct)
  case (step d1 d2)
  have q: "plugin_quarantined key d1" using step by simp
  from step(2) show ?case
  proof cases
    case (home_moves h)
    then show ?thesis using quarantine_same [OF q] by simp
  next
    case cron_moves
    then show ?thesis using quarantine_same [OF q] by simp
  qed (auto intro: q quarantine_failure keepsD [OF quarantine_success] keepsD [where P = "plugin_quarantined key"]
      quarantine_methods)
qed

end
