(* ===== verification/Runtime_Witness.thy ===== *)
theory Runtime_Witness
  imports Runtime_Histories
begin

section \<open>Witnesses for runtime generations\<close>

text \<open>
  A history on the empty tables: generation \<open>a\<close> is activated, a run is bound to it, \<open>b\<close> replaces it, the run ends,
  and \<open>a\<close> is collected.
\<close>

definition sample_generation :: "string \<Rightarrow> string option \<Rightarrow> runtime_generation" where
  "sample_generation i parent = \<lparr>gn_generation_id = i, gn_parent_generation_id = parent, gn_core_api_version = 1,
     gn_semantic_hash = i, gn_source_hash = i, gn_json = i\<rparr>"

definition sample_plan :: "string \<Rightarrow> string option \<Rightarrow> reload_plan" where
  "sample_plan i parent = \<lparr>pl_plan_hash = i, pl_generation = sample_generation i parent, pl_reasons = [], pl_json = i\<rparr>"

abbreviation activate_sample :: "string \<Rightarrow> string option \<Rightarrow> string script" where
  "activate_sample i parent \<equiv> activate_runtime_generation plain_controller None (sample_plan i parent) ''cli'' i 1"

definition after_activation :: runtime_db where
  "after_activation = left_by (activate_sample ''a'' None) 9 (fresh_runtime [] None)"

definition after_binding :: runtime_db where
  "after_binding = left_by (acquire_runtime_generation_reference plain_controller None ''a'' ''run'' ''r1'' 1) 9 after_activation"

definition after_replacement :: runtime_db where
  "after_replacement = left_by (activate_sample ''b'' (Some ''a'')) 9 after_activation"

lemmas script_defs = chain_def answer_def refuse_def query_def exec_def left_by_def

lemmas runtime_defs = fresh_runtime_def empty_db_def activate_runtime_generation_def store_active_def retire_former_def
  swap_head_def sample_plan_def sample_generation_def global_head_def stored_generation_def insert_generation_def
  update_generations_def update_rows_def count_rows_def activated_row_def insert_head_def move_head_def
  insert_attempt_def reload_entry_def reload_statuses_def generation_row_of_def set_generations_def is_rollback_def Let_def

lemma after_activation_rows:
  "rt_generations after_activation = [generation_row_of (sample_generation ''a'' None) Active 1 (Some 1)]"
  "rt_heads after_activation =
     [\<lparr>hd_profile = ''global'', hd_generation_id = ''a'', hd_revision = 0, hd_updated_at = 1\<rparr>]"
  "rt_references after_activation = []"
  "lookup_row la_attempt_id ''b'' (rt_attempts after_activation) = None"
  by (simp_all add: after_activation_def script_defs runtime_defs eval_nat_numeral)

lemma activation_runs:
  "activate_sample ''b'' (Some ''a'') 9 after_activation = (5, after_replacement, Done ''b'')"
  using after_activation_rows
  by (simp add: after_replacement_def script_defs runtime_defs eval_nat_numeral)

lemma after_activation_reachable: "runtime_reachable E after_activation"
  unfolding after_activation_def by (rule runtime_next [OF runtime_init generation_activated])

theorem bound_generation_is_kept_witness:
  "\<exists>r \<in> set (rt_references after_binding). rf_active r \<and> rf_generation_id r = ''a'' \<and>
    (\<exists>g. stored_generation after_binding ''a'' = Some g \<and> gr_artifact_deleted_at g = None)"
proof -
  have own: "own_reference after_activation i ''run'' ''r1'' ''a''" for i
    by (simp add: own_reference_def after_activation_rows)
  have r: "runtime_reachable plain_env after_binding"
    unfolding after_binding_def by (rule runtime_next [OF after_activation_reachable reference_acquired [OF own]])
  obtain x where x: "rt_references after_binding = [x]" "rf_active x" "rf_generation_id x = ''a''"
    using after_activation_rows
    by (auto simp: after_binding_def acquire_runtime_generation_reference_def script_defs runtime_defs
        upsert_reference_def set_references_def active_reference_def owner_kinds_def eval_nat_numeral)
  then show ?thesis using bound_generation_is_kept [OF r, of x] by simp
qed

theorem activation_is_compare_and_swap_witness:
  "activate_sample ''b'' (Some ''a'') 9 after_activation = (5, after_replacement, Done ''b'') \<and>
    is_active after_replacement ''b'' \<and> \<not> is_active after_replacement ''a'' \<and>
    activate_sample ''c'' (Some ''a'') 9 after_replacement =
      (9, after_replacement, Failed (StateConflictError ''runtime resource head changed''))"
proof -
  have "gn_parent_generation_id (pl_generation (sample_plan ''c'' (Some ''a''))) =
      gn_parent_generation_id (pl_generation (sample_plan ''b'' (Some ''a'')))"
    by (simp add: sample_plan_def sample_generation_def)
  then show ?thesis
    using activation_runs activation_is_compare_and_swap [OF activation_runs refl refl]
    by (simp add: sample_plan_def sample_generation_def)
qed


theorem plugin_quarantine_is_final_witness:
  "plugin_quarantined (''a'', ''p'', ''global'') (left_by (record_runtime_plugin_success plain_controller None
     (''a'', ''p'', ''global'') 3) 9 (left_by (record_runtime_plugin_failure plain_controller None
       (''a'', ''p'', ''global'') ''crash'' ''e'' True 1 2) 9 after_activation))"
proof -
  let ?d = "left_by (record_runtime_plugin_failure plain_controller None
       (''a'', ''p'', ''global'') ''crash'' ''e'' True 1 2) 9 after_activation"
  have "rt_plugins after_activation = []"
    by (simp add: after_activation_def script_defs runtime_defs eval_nat_numeral)
  then have "plugin_quarantined (''a'', ''p'', ''global'') ?d"
    using after_activation_rows
    by (simp add: plugin_quarantined_def record_runtime_plugin_failure_def failed_plugin_def upsert_plugin_def
        quarantine_retired_def plugin_key_def script_defs runtime_defs eval_nat_numeral)
  then show ?thesis
    by (rule plugin_quarantine_is_final [where E = plain_env, rotated]) (rule r_into_rtranclp, rule plugin_succeeded)
qed

end
