(* ===== verification/Cron_Schedule.thy ===== *)
theory Cron_Schedule
  imports Durable_Tools
begin

section \<open>Schedules\<close>

text \<open>
  \<^verbatim>\<open>src/cron/models.py\<close> (schedules) and \<^verbatim>\<open>src/cron/schedule.py\<close>: the validators of a schedule and the calculator of
  its next instant. The libraries croniter and zoneinfo are the record \<open>calendar\<close>: which zones exist, the wall
  clock of an instant, the instant of a wall clock with \<^verbatim>\<open>fold=0\<close>, the \<open>n\<close>-th call of \<^verbatim>\<open>get_next\<close> of an iterator, and
  the ISO text of an instant.
\<close>

datatype ScheduleKind = IntervalKind | OnceKind | CronKind

record CronSchedule =
  sd_kind :: ScheduleKind
  sd_interval_seconds :: "int option"
  sd_run_at :: "timestamp option"
  sd_expression :: "string option"
  sd_timezone :: string

record calendar =
  cl_known_zone :: "string \<Rightarrow> bool"
  cl_wall_clock :: "string \<Rightarrow> timestamp \<Rightarrow> rat"
  cl_instant :: "string \<Rightarrow> rat \<Rightarrow> timestamp"
  cl_get_next :: "string \<Rightarrow> rat \<Rightarrow> nat \<Rightarrow> rat option"
  cl_is_valid :: "string \<Rightarrow> bool"
  cl_text :: "timestamp \<Rightarrow> string"

text \<open>\<^verbatim>\<open>utc_iso\<close> writes whole seconds; the fraction of an instant is cut off.\<close>

definition utc_iso :: "timestamp \<Rightarrow> timestamp" where
  "utc_iso t = of_int \<lfloor>t\<rfloor>"

definition valid_schedule :: "CronSchedule \<Rightarrow> bool" where
  "valid_schedule s \<longleftrightarrow>
     (\<forall>n. sd_interval_seconds s = Some n \<longrightarrow> 60 \<le> n) \<and> sd_timezone s \<noteq> [] \<and> length (sd_timezone s) \<le> 100 \<and>
     (case sd_kind s of
        IntervalKind \<Rightarrow> sd_interval_seconds s \<noteq> None \<and> sd_run_at s = None \<and> sd_expression s = None
      | OnceKind \<Rightarrow> sd_run_at s \<noteq> None \<and> sd_interval_seconds s = None \<and> sd_expression s = None
      | CronKind \<Rightarrow> truthy (sd_expression s) \<and> sd_interval_seconds s = None \<and> sd_run_at s = None)"

definition make_schedule :: "CronSchedule \<Rightarrow> CronSchedule result" where
  "make_schedule s = (if valid_schedule s then Inr s else Inl (ValueError ''CronSchedule''))"

subsection \<open>The five fields of an expression\<close>

function runs_of :: "(char \<Rightarrow> bool) \<Rightarrow> string \<Rightarrow> string list" where
  "runs_of p [] = []"
| "runs_of p (c # cs) = (if p c then takeWhile p (c # cs) # runs_of p (dropWhile p cs) else runs_of p cs)"
  by pat_completeness auto
termination
  by (relation "measure (length \<circ> snd)") (auto simp: le_imp_less_Suc length_dropWhile_le)

definition words :: "string \<Rightarrow> string list" where
  "words = runs_of (\<lambda>c. \<not> is_space c)"

definition ascii_upper :: "char \<Rightarrow> char" where
  "ascii_upper c = (let n = (of_char c :: nat) in if 97 \<le> n \<and> n \<le> 122 then char_of (n - 32) else c)"

definition is_upper_letter :: "char \<Rightarrow> bool" where
  "is_upper_letter c \<longleftrightarrow> (let n = (of_char c :: nat) in 65 \<le> n \<and> n \<le> 90)"

definition is_field_char :: "bool \<Rightarrow> char \<Rightarrow> bool" where
  "is_field_char named c \<longleftrightarrow> c \<in> set ''0123456789*/,-'' \<or> named \<and> is_upper_letter c"

definition field_names :: "nat \<Rightarrow> string list" where
  "field_names i =
    (if i = 3 then [''JAN'', ''FEB'', ''MAR'', ''APR'', ''MAY'', ''JUN'', ''JUL'', ''AUG'', ''SEP'', ''OCT'', ''NOV'', ''DEC'']
     else if i = 4 then [''SUN'', ''MON'', ''TUE'', ''WED'', ''THU'', ''FRI'', ''SAT''] else [])"

definition validate_standard_fields :: "string \<Rightarrow> unit result" where
  "validate_standard_fields expression =
    (let fields = words (map ascii_upper expression) in
     rbind (raise_if (list_ex (\<lambda>i. let f = fields ! i in f = [] \<or> \<not> list_all (is_field_char (i \<in> {3, 4})) f) [0..<length fields])
       (ValueError ''unsupported cron syntax'')) (\<lambda>_.
     raise_if (list_ex (\<lambda>i. list_ex (\<lambda>n. n \<notin> set (field_names i)) (runs_of is_upper_letter (fields ! i))) [3, 4])
       (ValueError ''unknown cron name'')))"

text \<open>The test call of \<^verbatim>\<open>get_next\<close> starts from the wall clock of now in the zone.\<close>

definition expression_text :: "CronSchedule \<Rightarrow> string" where
  "expression_text s = (case sd_expression s of None \<Rightarrow> ''None'' | Some e \<Rightarrow> e)"

definition validate_expression :: "calendar \<Rightarrow> string \<Rightarrow> string \<Rightarrow> timestamp \<Rightarrow> CronSchedule result" where
  "validate_expression L expression timezone now =
    (let e = strip_text expression in
     if take 1 e = ''@'' \<or> length (words e) \<noteq> 5 then Inl (ValueError ''five fields'')
     else rbind (validate_standard_fields e) (\<lambda>_.
       rbind (raise_if (\<not> cl_known_zone L timezone) (ValueError ''unknown zone'')) (\<lambda>_.
       rbind (raise_if (\<not> cl_is_valid L e \<or> cl_get_next L e (cl_wall_clock L timezone now) 0 = None)
         (ValueError ''invalid cron expression'')) (\<lambda>_.
       make_schedule \<lparr>sd_kind = CronKind, sd_interval_seconds = None, sd_run_at = None, sd_expression = Some e,
            sd_timezone = timezone\<rparr>))))"

definition validate_schedule :: "calendar \<Rightarrow> CronSchedule \<Rightarrow> timestamp \<Rightarrow> CronSchedule result" where
  "validate_schedule L s now =
    (if sd_kind s = CronKind then validate_expression L (expression_text s) (sd_timezone s) now else Inr s)"

subsection \<open>The next instant\<close>

text \<open>A wall clock that does not exist in its zone is skipped.\<close>

definition normalize_local_candidate :: "calendar \<Rightarrow> rat \<Rightarrow> string \<Rightarrow> timestamp option" where
  "normalize_local_candidate L value zone =
    (if cl_wall_clock L zone (cl_instant L zone value) = value then Some (cl_instant L zone value) else None)"

fun search_next :: "calendar \<Rightarrow> string \<Rightarrow> string \<Rightarrow> timestamp \<Rightarrow> nat \<Rightarrow> nat \<Rightarrow> timestamp result" where
  "search_next L expression zone base k 0 = Inl (ValueError ''no legal instant in range'')"
| "search_next L expression zone base k (Suc n) =
    (case cl_get_next L expression (cl_wall_clock L zone base) k of
       None \<Rightarrow> Inl (ValueError ''cannot compute the next instant'')
     | Some candidate \<Rightarrow>
         (case normalize_local_candidate L candidate zone of
            None \<Rightarrow> search_next L expression zone base (k + 1) n
          | Some t \<Rightarrow> if base < t then Inr t else search_next L expression zone base (k + 1) n))"

definition next_after :: "calendar \<Rightarrow> CronSchedule \<Rightarrow> timestamp \<Rightarrow> timestamp option result" where
  "next_after L s base =
    (case sd_kind s of
       OnceKind \<Rightarrow> (case sd_run_at s of
           None \<Rightarrow> Inl (ValueError ''None'')
         | Some target \<Rightarrow> Inr (if base < target then Some target else None))
     | IntervalKind \<Rightarrow> Inr (Some (base + of_int (case sd_interval_seconds s of None \<Rightarrow> 0 | Some n \<Rightarrow> n)))
     | CronKind \<Rightarrow>
         rbind (raise_if (\<not> cl_known_zone L (sd_timezone s)) (ValueError ''unknown zone'')) (\<lambda>_.
         rbind (search_next L (expression_text s) (sd_timezone s) base 0 10000) (\<lambda>t. Inr (Some t))))"

fun advance_past :: "calendar \<Rightarrow> CronSchedule \<Rightarrow> timestamp \<Rightarrow> nat \<Rightarrow> timestamp \<Rightarrow> timestamp option result" where
  "advance_past L s now 0 candidate = Inl (ValueError ''too many missed periods'')"
| "advance_past L s now (Suc n) candidate =
    rbind (next_after L s candidate) (\<lambda>v.
      case v of None \<Rightarrow> Inr None | Some t \<Rightarrow> if now < t then Inr (Some t) else advance_past L s now n t)"

definition next_future :: "calendar \<Rightarrow> CronSchedule \<Rightarrow> timestamp \<Rightarrow> timestamp \<Rightarrow> timestamp option result" where
  "next_future L s scheduled_at now =
    (case sd_kind s of
       OnceKind \<Rightarrow> Inr None
     | IntervalKind \<Rightarrow>
         (let n = (case sd_interval_seconds s of None \<Rightarrow> 0 | Some n \<Rightarrow> n) in
          if n = 0 then Inl (ValueError ''division by zero'')
          else Inr (Some (scheduled_at + of_int (n * max 1 (\<lfloor>(now - scheduled_at) / of_int n\<rfloor> + 1)))))
     | CronKind \<Rightarrow> advance_past L s now 100000 scheduled_at)"

fun preview_runs :: "calendar \<Rightarrow> CronSchedule \<Rightarrow> nat \<Rightarrow> timestamp \<Rightarrow> timestamp list result" where
  "preview_runs L s 0 selected = Inr []"
| "preview_runs L s (Suc n) selected =
    rbind (next_after L s selected) (\<lambda>v.
      case v of None \<Rightarrow> Inr [] | Some t \<Rightarrow> rbind (preview_runs L s n t) (\<lambda>ts. Inr (utc_iso t # ts)))"

definition preview :: "calendar \<Rightarrow> CronSchedule \<Rightarrow> int \<Rightarrow> timestamp \<Rightarrow> timestamp list result" where
  "preview L s number base_time =
    (if number < 1 \<or> 20 < number then Inl (ValueError ''count'')
     else preview_runs L s (nat number) base_time)"

subsection \<open>Laws\<close>

lemma utc_iso_le: "utc_iso t \<le> t"
  by (simp add: utc_iso_def)

lemma utc_iso_whole [simp]: "utc_iso (utc_iso t) = utc_iso t" "utc_iso (of_int n) = of_int n"
  by (simp_all add: utc_iso_def)

lemma utc_iso_mono: "s \<le> t \<Longrightarrow> utc_iso s \<le> utc_iso t"
  by (simp add: utc_iso_def floor_mono)

lemma search_next_later: "search_next L e z base k n = Inr t \<Longrightarrow> base < t"
  by (induction L e z base k n rule: search_next.induct) (auto split: option.splits if_splits)

text \<open>The next instant of a valid schedule is later than the instant it is asked for.\<close>

lemma next_after_later:
  assumes "next_after L s base = Inr (Some t)" "valid_schedule s"
  shows "base < t"
  using assms search_next_later
  by (fastforce simp: next_after_def valid_schedule_def result_simps split: ScheduleKind.splits option.splits if_splits)

lemma advance_past_later:
  "advance_past L s now n c = Inr (Some t) \<Longrightarrow> now < t"
  by (induction L s now n c rule: advance_past.induct) (auto simp: result_simps split: option.splits if_splits)

lemma next_future_later:
  assumes "next_future L s selected now = Inr (Some t)" "valid_schedule s"
  shows "now < t"
proof (cases "sd_kind s")
  case IntervalKind
  then obtain n where n: "sd_interval_seconds s = Some n" "60 \<le> n"
    using assms(2) by (auto simp: valid_schedule_def)
  let ?q = "(now - selected) / of_int n"
  have t: "t = selected + of_int (n * max 1 (\<lfloor>?q\<rfloor> + 1))"
    using assms(1) IntervalKind n by (simp add: next_future_def)
  have "?q < of_int (max 1 (\<lfloor>?q\<rfloor> + 1))" by linarith
  then have "now - selected < of_int (max 1 (\<lfloor>?q\<rfloor> + 1)) * of_int n"
    using n(2) by (simp add: divide_less_eq)
  then show ?thesis unfolding t by (simp add: mult.commute)
next
  case CronKind
  then show ?thesis using assms(1) advance_past_later by (simp add: next_future_def)
qed (use assms(1) in \<open>simp add: next_future_def\<close>)

lemma preview_runs_sorted:
  "preview_runs L s n c = Inr ts \<Longrightarrow> valid_schedule s \<Longrightarrow> sorted ts \<and> (\<forall>t \<in> set ts. utc_iso c \<le> t) \<and> length ts \<le> n"
proof (induction L s n c arbitrary: ts rule: preview_runs.induct)
  case (2 L s n c)
  show ?case
  proof (cases "next_after L s c")
    case (Inr v)
    show ?thesis
    proof (cases v)
      case (Some t)
      obtain us where us: "preview_runs L s n t = Inr us" "ts = utc_iso t # us"
        using 2(2) Inr Some by (auto simp: result_simps)
      have "utc_iso c \<le> utc_iso t" using next_after_later 2(3) Inr Some by (simp add: utc_iso_mono less_imp_le)
      then show ?thesis using 2(1) [OF us(1) 2(3)] us(2) by auto
    qed (use 2 Inr in auto)
  qed (use 2 in auto)
qed auto

end
