(* ===== verification/Cron_Store.thy ===== *)
theory Cron_Store
  imports Cron_Schedule
begin

section \<open>The Cron repository\<close>

text \<open>
  \<^verbatim>\<open>src/cron/models.py\<close> and \<^verbatim>\<open>src/cron/store.py\<close>. A row keeps its JSON document; the other columns are copies of its
  fields, which every statement writes together with it. Reading a document validates it again. A method that
  reads its rows before its transaction takes two databases: \<open>d0\<close>, which it reads, and \<open>d\<close>, which its transaction
  finds; with \<open>d0 = d\<close> nobody came in between.
\<close>

subsection \<open>Jobs and dispatches\<close>

datatype JobState = JobScheduled | JobPaused | JobCompleted | JobDeleted

datatype DispatchState = Pending | Claimed | Running | Succeeded | DispatchFailed | Cancelled | Skipped | RecoveryRequired

datatype MisfirePolicy = SkipMissed | FireOnce | CatchUp

datatype DispatchTrigger = ByTime | RunNow | Retry | Legacy

record CronResourceLimits =
  rl_timeout_seconds :: int
  rl_max_turns :: int
  rl_max_model_calls :: int
  rl_max_tool_calls :: int
  rl_token_budget :: int

definition valid_limits :: "CronResourceLimits \<Rightarrow> bool" where
  "valid_limits l \<longleftrightarrow> 30 \<le> rl_timeout_seconds l \<and> rl_timeout_seconds l \<le> 86400 \<and>
     1 \<le> rl_max_turns l \<and> rl_max_turns l \<le> 32 \<and> 1 \<le> rl_max_model_calls l \<and> rl_max_model_calls l \<le> 200 \<and>
     0 \<le> rl_max_tool_calls l \<and> rl_max_tool_calls l \<le> 500 \<and>
     1000 \<le> rl_token_budget l \<and> rl_token_budget l \<le> 10000000"

definition default_limits :: CronResourceLimits where
  "default_limits = \<lparr>rl_timeout_seconds = 1800, rl_max_turns = 1, rl_max_model_calls = 8, rl_max_tool_calls = 24,
     rl_token_budget = 200000\<rparr>"

record CronRuntimeProfile =
  rp_allowed_tools :: "string list"
  rp_allowed_skills :: "string list"
  rp_sandbox_policy :: string
  rp_preapproved_tools :: "string list"
  rp_max_parallel_tool_calls :: int
  rp_memory_access :: string
  rp_allowed_memory_kinds :: "string list"
  rp_limits :: CronResourceLimits

definition valid_profile :: "CronRuntimeProfile \<Rightarrow> bool" where
  "valid_profile p \<longleftrightarrow> set (rp_preapproved_tools p) \<subseteq> set (rp_allowed_tools p) \<and>
     1 \<le> rp_max_parallel_tool_calls p \<and> rp_max_parallel_tool_calls p \<le> 16 \<and>
     rp_sandbox_policy p \<in> {''read_only'', ''checkpointed_workspace''} \<and>
     rp_memory_access p \<in> {''none'', ''project''} \<and> valid_limits (rp_limits p)"

definition default_profile :: CronRuntimeProfile where
  "default_profile = \<lparr>rp_allowed_tools = [], rp_allowed_skills = [], rp_sandbox_policy = ''read_only'',
     rp_preapproved_tools = [], rp_max_parallel_tool_calls = 4, rp_memory_access = ''none'',
     rp_allowed_memory_kinds = [], rp_limits = default_limits\<rparr>"

record CronJob =
  cj_job_id :: string
  cj_project_id :: string
  cj_name :: string
  cj_prompt :: string
  cj_schedule :: CronSchedule
  cj_state :: JobState
  cj_misfire_policy :: MisfirePolicy
  cj_runtime_profile :: CronRuntimeProfile
  cj_revision :: nat
  cj_created_at :: timestamp
  cj_updated_at :: timestamp
  cj_deleted_at :: "timestamp option"
  cj_next_run_at :: "timestamp option"
  cj_current_dispatch_id :: "string option"
  cj_current_run_id :: "string option"
  cj_last_run_at :: "timestamp option"
  cj_last_run_id :: "string option"
  cj_last_session_id :: "string option"
  cj_last_status :: "DispatchState option"
  cj_last_error :: "string option"
  cj_last_success_at :: "timestamp option"
  cj_last_success_run_id :: "string option"
  cj_last_failure_at :: "timestamp option"
  cj_last_failure_run_id :: "string option"
  cj_consecutive_failures :: nat
  cj_missed_count :: nat
  cj_overlap_skipped :: nat
  cj_run_count :: nat
  cj_failure_count :: nat

definition valid_job :: "CronJob \<Rightarrow> bool" where
  "valid_job j \<longleftrightarrow> cj_job_id j \<noteq> [] \<and> cj_project_id j \<noteq> [] \<and> cj_name j \<noteq> [] \<and> length (cj_name j) \<le> 120 \<and>
     cj_prompt j \<noteq> [] \<and> length (cj_prompt j) \<le> 20000 \<and> valid_schedule (cj_schedule j) \<and>
     valid_profile (cj_runtime_profile j) \<and> 1 \<le> cj_revision j"

record CronDispatch =
  cd_dispatch_id :: string
  cd_job_id :: string
  cd_job_revision :: nat
  cd_trigger :: DispatchTrigger
  cd_scheduled_for :: "timestamp option"
  cd_status :: DispatchState
  cd_coalesced_count :: nat
  cd_misfire_window_start :: "timestamp option"
  cd_misfire_window_end :: "timestamp option"
  cd_claim_token :: "string option"
  cd_claim_epoch :: "string option"
  cd_claim_expires_at :: "timestamp option"
  cd_session_id :: "string option"
  cd_run_id :: "string option"
  cd_operation_id :: "string option"
  cd_attempt_id :: "string option"
  cd_retry_of_dispatch_id :: "string option"
  cd_job_snapshot :: CronJob
  cd_request_hash :: string
  cd_revision :: nat
  cd_result :: "string option"
  cd_error :: "string option"
  cd_created_at :: timestamp
  cd_claimed_at :: "timestamp option"
  cd_started_at :: "timestamp option"
  cd_completed_at :: "timestamp option"

definition valid_dispatch :: "CronDispatch \<Rightarrow> bool" where
  "valid_dispatch x \<longleftrightarrow> 1 \<le> cd_job_revision x \<and> 1 \<le> cd_coalesced_count x \<and> 1 \<le> cd_revision x \<and>
     (cd_status x = Claimed \<longrightarrow> cd_run_id x = None) \<and>
     (cd_status x \<in> {Running, Succeeded, DispatchFailed, RecoveryRequired} \<longrightarrow>
        truthy (cd_session_id x) \<and> truthy (cd_run_id x) \<and> truthy (cd_operation_id x) \<and> truthy (cd_attempt_id x))"

record HeartbeatState =
  hb_status :: string
  hb_interval_seconds :: nat
  hb_last_tick_at :: "timestamp option"
  hb_next_tick_at :: "timestamp option"
  hb_last_error :: "string option"

record cron_db =
  cr_jobs :: "CronJob list"
  cr_dispatches :: "CronDispatch list"
  cr_heartbeat :: HeartbeatState

subsection \<open>Tables\<close>

definition is_active_status :: "DispatchState \<Rightarrow> bool" where
  "is_active_status s \<longleftrightarrow> s \<in> {Claimed, Running, RecoveryRequired}"

definition some_values :: "('r \<Rightarrow> 'a option) \<Rightarrow> 'r list \<Rightarrow> 'a option list" where
  "some_values f rows = filter (\<lambda>v. v \<noteq> None) (map f rows)"

text \<open>The primary key, the unique columns and the two partial unique indexes.\<close>

definition dispatch_index_ok :: "CronDispatch list \<Rightarrow> bool" where
  "dispatch_index_ok rows \<longleftrightarrow> distinct (map cd_dispatch_id rows) \<and>
     distinct (map (\<lambda>x. (cd_job_id x, cd_scheduled_for x)) (filter (\<lambda>x. cd_scheduled_for x \<noteq> None) rows)) \<and>
     distinct (map cd_job_id (filter (\<lambda>x. is_active_status (cd_status x)) rows)) \<and>
     distinct (some_values cd_run_id rows) \<and> distinct (some_values cd_operation_id rows) \<and>
     distinct (some_values cd_attempt_id rows)"

definition find_job :: "cron_db \<Rightarrow> string \<Rightarrow> CronJob option" where
  "find_job d i = lookup_row cj_job_id i (cr_jobs d)"

definition find_dispatch :: "cron_db \<Rightarrow> string \<Rightarrow> CronDispatch option" where
  "find_dispatch d i = lookup_row cd_dispatch_id i (cr_dispatches d)"

definition read_job :: "CronJob \<Rightarrow> CronJob result" where
  "read_job j = (if valid_job j then Inr j else Inl (ValueError ''CronJob''))"

definition read_dispatch :: "CronDispatch \<Rightarrow> CronDispatch result" where
  "read_dispatch x = (if valid_dispatch x then Inr x else Inl (ValueError ''CronDispatch''))"

fun read_all :: "('a \<Rightarrow> 'a result) \<Rightarrow> 'a list \<Rightarrow> 'a list result" where
  "read_all f [] = Inr []"
| "read_all f (x # xs) = rbind (f x) (\<lambda>y. rbind (read_all f xs) (\<lambda>ys. Inr (y # ys)))"

definition insert_job :: "CronJob \<Rightarrow> cron_db \<Rightarrow> cron_db" where
  "insert_job job d = d\<lparr>cr_jobs := upsert_row cj_job_id replace_row job (cr_jobs d)\<rparr>"

definition insert_dispatch :: "CronDispatch \<Rightarrow> cron_db \<Rightarrow> cron_db result" where
  "insert_dispatch x d =
    (if \<not> dispatch_index_ok (cr_dispatches d @ [x]) then Inl (IntegrityError ''cron_dispatches'')
     else if find_job d (cd_job_id x) = None \<or>
             (case cd_retry_of_dispatch_id x of None \<Rightarrow> False | Some i \<Rightarrow> find_dispatch d i = None)
     then Inl (IntegrityError ''cron_dispatches foreign key'')
     else Inr (d\<lparr>cr_dispatches := cr_dispatches d @ [x]\<rparr>))"

fun insert_dispatches :: "CronDispatch list \<Rightarrow> cron_db \<Rightarrow> cron_db result" where
  "insert_dispatches [] d = Inr d"
| "insert_dispatches (x # xs) d = rbind (insert_dispatch x d) (insert_dispatches xs)"

definition replace_dispatch :: "CronDispatch \<Rightarrow> nat \<Rightarrow> cron_db \<Rightarrow> cron_db result" where
  "replace_dispatch x expected_revision d =
    (let p = (\<lambda>r. cd_dispatch_id r = cd_dispatch_id x \<and> cd_revision r = expected_revision);
         rows = update_rows p (\<lambda>_. x) (cr_dispatches d) in
     if \<not> dispatch_index_ok rows then Inl (IntegrityError ''cron_dispatches'')
     else if count_rows p (cr_dispatches d) \<noteq> 1 then Inl (RuntimeError ''Cron dispatch revision conflict'')
     else Inr (d\<lparr>cr_dispatches := rows\<rparr>))"

definition replace_job :: "CronJob \<Rightarrow> nat \<Rightarrow> cron_db \<Rightarrow> cron_db result" where
  "replace_job job expected_revision d =
    (let p = (\<lambda>r. cj_job_id r = cj_job_id job \<and> cj_revision r = expected_revision) in
     if count_rows p (cr_jobs d) \<noteq> 1 then Inl (RuntimeError ''Cron job revision conflict'')
     else Inr (d\<lparr>cr_jobs := update_rows p (\<lambda>_. job) (cr_jobs d)\<rparr>))"

subsection \<open>Reads\<close>

definition set_heartbeat :: "HeartbeatState \<Rightarrow> cron_db \<Rightarrow> cron_db" where
  "set_heartbeat h d = d\<lparr>cr_heartbeat := h\<rparr>"

definition jobs :: "cron_db \<Rightarrow> string option \<Rightarrow> bool \<Rightarrow> CronJob list result" where
  "jobs d project include_deleted =
     read_all read_job (sort_key cj_name (sort_key cj_job_id (filter (\<lambda>j.
       (truthy project \<longrightarrow> Some (cj_project_id j) = project) \<and> (include_deleted \<or> cj_state j \<noteq> JobDeleted)) (cr_jobs d))))"

definition job :: "cron_db \<Rightarrow> string \<Rightarrow> CronJob result" where
  "job d i = rbind (or_raise (find_job d i) (KeyError ''cron job'')) read_job"

definition save_job :: "CronJob \<Rightarrow> nat option \<Rightarrow> cron_db \<Rightarrow> cron_db result" where
  "save_job j expected_revision d =
    (case expected_revision of None \<Rightarrow> Inr (insert_job j d) | Some n \<Rightarrow> replace_job j n d)"

definition dispatches :: "cron_db \<Rightarrow> string \<Rightarrow> nat \<Rightarrow> CronDispatch list result" where
  "dispatches d job_id limit =
     read_all read_dispatch (take limit (sort_key (\<lambda>x. - cd_created_at x)
       (filter (\<lambda>x. cd_job_id x = job_id) (cr_dispatches d))))"

definition active_dispatches :: "cron_db \<Rightarrow> CronDispatch list result" where
  "active_dispatches d =
     read_all read_dispatch (sort_key cd_created_at (filter (\<lambda>x. is_active_status (cd_status x)) (cr_dispatches d)))"

definition dispatch_of :: "cron_db \<Rightarrow> string \<Rightarrow> CronDispatch result" where
  "dispatch_of d i = rbind (or_raise (find_dispatch d i) (KeyError ''cron dispatch'')) read_dispatch"

definition dispatch_by_run_id :: "cron_db \<Rightarrow> string \<Rightarrow> CronDispatch result" where
  "dispatch_by_run_id d run_id =
     rbind (or_raise (find (\<lambda>x. cd_run_id x = Some run_id) (cr_dispatches d)) (KeyError ''cron dispatch for run'')) read_dispatch"

subsection \<open>Transactions\<close>

definition skipped_total :: "(CronDispatch \<Rightarrow> bool) \<Rightarrow> CronDispatch list \<Rightarrow> nat" where
  "skipped_total p xs = sum_list (map cd_coalesced_count (filter (\<lambda>x. cd_status x = Skipped \<and> p x) xs))"

definition due_materialize ::
  "CronJob \<Rightarrow> CronDispatch list \<Rightarrow> timestamp option \<Rightarrow> timestamp \<Rightarrow> cron_db \<Rightarrow> cron_db result" where
  "due_materialize j xs next_run_at now d =
    (let updated = j\<lparr>cj_next_run_at := next_run_at,
           cj_missed_count := cj_missed_count j + skipped_total (\<lambda>_. True) xs,
           cj_overlap_skipped := cj_overlap_skipped j + skipped_total (\<lambda>x. cd_error x = Some ''overlap_skipped'') xs,
           cj_updated_at := now, cj_revision := cj_revision j + 1\<rparr> in
     rbind (raise_if (map_option cj_revision (find_job d (cj_job_id j)) \<noteq> Some (cj_revision j))
       (RuntimeError ''Cron job revision conflict'')) (\<lambda>_.
     rbind (insert_dispatches xs d) (replace_job updated (cj_revision j))))"

definition claimed_dispatch :: "CronDispatch \<Rightarrow> string \<Rightarrow> string \<Rightarrow> timestamp \<Rightarrow> nat \<Rightarrow> CronDispatch" where
  "claimed_dispatch old token epoch now lease_seconds =
     old\<lparr>cd_status := Claimed, cd_claim_token := Some token, cd_claim_epoch := Some epoch,
       cd_claim_expires_at := Some (utc_iso (now + of_nat lease_seconds)), cd_claimed_at := Some (utc_iso now),
       cd_revision := cd_revision old + 1\<rparr>"

definition first_pending :: "cron_db \<Rightarrow> string \<Rightarrow> CronDispatch option" where
  "first_pending d job_id =
    (case sort_key cd_created_at (filter (\<lambda>x. cd_job_id x = job_id \<and> cd_status x = Pending) (cr_dispatches d)) of
       [] \<Rightarrow> None | x # _ \<Rightarrow> Some x)"

definition claim_next ::
  "string \<Rightarrow> string \<Rightarrow> nat \<Rightarrow> string \<Rightarrow> timestamp \<Rightarrow> cron_db \<Rightarrow> (cron_db \<times> CronDispatch option) result" where
  "claim_next job_id epoch lease_seconds token now d =
    (case find_job d job_id of
       None \<Rightarrow> Inr (d, None)
     | Some row \<Rightarrow>
         rbind (read_job row) (\<lambda>j.
         if cj_state j \<in> {JobPaused, JobCompleted, JobDeleted} \<or> truthy (cj_current_dispatch_id j) then Inr (d, None)
         else (case first_pending d job_id of
                 None \<Rightarrow> Inr (d, None)
               | Some x \<Rightarrow>
                   rbind (read_dispatch x) (\<lambda>old.
                   let claimed = claimed_dispatch old token epoch now lease_seconds in
                   rbind (replace_dispatch claimed (cd_revision old) d) (\<lambda>d1. Inr (d1, Some claimed))))))"

text \<open>The transaction that \<^verbatim>\<open>mark_terminal\<close> and \<^verbatim>\<open>bind_running\<close> share: both rows at their revisions, or nothing.\<close>

definition replace_both :: "CronDispatch \<Rightarrow> nat \<Rightarrow> CronJob \<Rightarrow> nat \<Rightarrow> cron_db \<Rightarrow> cron_db result" where
  "replace_both x dispatch_revision j job_revision d = rbind (replace_dispatch x dispatch_revision d) (replace_job j job_revision)"

definition finished_dispatch ::
  "CronDispatch \<Rightarrow> DispatchState \<Rightarrow> string option \<Rightarrow> string option \<Rightarrow> timestamp \<Rightarrow> CronDispatch" where
  "finished_dispatch selected status res err completed =
     selected\<lparr>cd_status := status, cd_result := res, cd_error := err, cd_completed_at := Some completed,
       cd_revision := cd_revision selected + 1\<rparr>"

definition finished_job :: "CronJob \<Rightarrow> CronDispatch \<Rightarrow> DispatchState \<Rightarrow> string option \<Rightarrow> timestamp \<Rightarrow> CronJob" where
  "finished_job j selected status err completed =
    (let success = (status = Succeeded) in
     j\<lparr>cj_state := (if sd_kind (cj_schedule j) = OnceKind \<and> success then JobCompleted else cj_state j),
       cj_current_dispatch_id := None, cj_current_run_id := None, cj_last_run_at := Some completed,
       cj_last_run_id := cd_run_id selected, cj_last_session_id := cd_session_id selected,
       cj_last_status := Some status, cj_last_error := err, cj_run_count := cj_run_count j + 1,
       cj_failure_count := cj_failure_count j + (if success then 0 else 1),
       cj_consecutive_failures := (if success then 0 else cj_consecutive_failures j + 1),
       cj_last_success_at := (if success then Some completed else cj_last_success_at j),
       cj_last_success_run_id := (if success then cd_run_id selected else cj_last_success_run_id j),
       cj_last_failure_at := (if success then None else Some completed),
       cj_last_failure_run_id := (if success then None else cd_run_id selected),
       cj_updated_at := completed, cj_revision := cj_revision j + 1\<rparr>)"

definition mark_terminal ::
  "cron_db \<Rightarrow> string \<Rightarrow> DispatchState \<Rightarrow> string option \<Rightarrow> string option \<Rightarrow> timestamp option \<Rightarrow> timestamp \<Rightarrow> cron_db
     \<Rightarrow> (cron_db \<times> CronDispatch) result" where
  "mark_terminal d0 dispatch_id status res err completed_at now d =
     rbind (dispatch_of d0 dispatch_id) (\<lambda>selected.
     if cd_status selected \<notin> {Running, RecoveryRequired} then Inr (d, selected)
     else
       let completed = (case completed_at of None \<Rightarrow> utc_iso now | Some t \<Rightarrow> t);
           final = finished_dispatch selected status res err completed in
       rbind (job d0 (cd_job_id selected)) (\<lambda>j.
       rbind (replace_both final (cd_revision selected) (finished_job j selected status err completed) (cj_revision j) d)
         (\<lambda>d1. Inr (d1, final))))"

definition bound_dispatch ::
  "CronDispatch \<Rightarrow> string \<Rightarrow> string \<Rightarrow> string \<Rightarrow> string \<Rightarrow> timestamp \<Rightarrow> CronDispatch" where
  "bound_dispatch selected session_id run_id operation_id attempt_id now =
     selected\<lparr>cd_status := Running, cd_session_id := Some session_id, cd_run_id := Some run_id,
       cd_operation_id := Some operation_id, cd_attempt_id := Some attempt_id, cd_started_at := Some (utc_iso now),
       cd_revision := cd_revision selected + 1\<rparr>"

definition bound_job :: "CronJob \<Rightarrow> CronDispatch \<Rightarrow> string \<Rightarrow> timestamp \<Rightarrow> CronJob" where
  "bound_job j selected run_id now =
     j\<lparr>cj_current_dispatch_id := Some (cd_dispatch_id selected), cj_current_run_id := Some run_id,
       cj_last_run_at := Some (utc_iso now), cj_revision := cj_revision j + 1, cj_updated_at := utc_iso now\<rparr>"

definition bind_running ::
  "cron_db \<Rightarrow> string \<Rightarrow> string \<Rightarrow> string \<Rightarrow> string \<Rightarrow> string \<Rightarrow> string \<Rightarrow> timestamp \<Rightarrow> cron_db \<Rightarrow> (cron_db \<times> CronDispatch) result" where
  "bind_running d0 dispatch_id claim_token session_id run_id operation_id attempt_id now d =
     rbind (dispatch_of d0 dispatch_id) (\<lambda>selected.
     if cd_status selected \<noteq> Claimed \<or> cd_claim_token selected \<noteq> Some claim_token
     then Inl (RuntimeError ''Cron dispatch claim no longer owned'')
     else
       rbind (job d0 (cd_job_id selected)) (\<lambda>j.
       if cj_state j = JobDeleted then Inl (RuntimeError ''Cron job deleted before dispatch bind'')
       else
         let bound = bound_dispatch selected session_id run_id operation_id attempt_id now in
         rbind (replace_both bound (cd_revision selected) (bound_job j selected run_id now) (cj_revision j) d)
           (\<lambda>d1. Inr (d1, bound))))"

definition cancel_unbound ::
  "cron_db \<Rightarrow> string \<Rightarrow> string \<Rightarrow> timestamp \<Rightarrow> cron_db \<Rightarrow> (cron_db \<times> CronDispatch) result" where
  "cancel_unbound d0 dispatch_id reason now d =
     rbind (dispatch_of d0 dispatch_id) (\<lambda>selected.
     if cd_status selected \<notin> {Pending, Claimed} then Inr (d, selected)
     else
       let cancelled = selected\<lparr>cd_status := Cancelled, cd_error := Some reason, cd_completed_at := Some (utc_iso now),
             cd_revision := cd_revision selected + 1\<rparr> in
       rbind (replace_dispatch cancelled (cd_revision selected) d) (\<lambda>d1. Inr (d1, cancelled)))"

definition mark_recovery_required ::
  "cron_db \<Rightarrow> string \<Rightarrow> string \<Rightarrow> cron_db \<Rightarrow> (cron_db \<times> CronDispatch) result" where
  "mark_recovery_required d0 dispatch_id reason d =
     rbind (dispatch_of d0 dispatch_id) (\<lambda>selected.
     if cd_status selected \<notin> {Claimed, Running, RecoveryRequired} \<or> cd_status selected = Claimed then Inr (d, selected)
     else
       let required = selected\<lparr>cd_status := RecoveryRequired, cd_error := Some reason,
             cd_revision := cd_revision selected + 1\<rparr> in
       rbind (replace_dispatch required (cd_revision selected) d) (\<lambda>d1. Inr (d1, required)))"

end
