(* ===== verification/Cron_Service.thy ===== *)
theory Cron_Service
  imports Cron_Store
begin

section \<open>Management and scheduling of Cron jobs\<close>

text \<open>
  \<^verbatim>\<open>src/cron/service.py\<close> and \<^verbatim>\<open>src/cron/scheduler.py\<close>. A method that commits several transactions returns the
  database it leaves in every outcome. Clock readings and random identifiers are arguments.
\<close>

subsection \<open>Requests\<close>

record CronJobCreateRequest =
  cq_project_id :: string
  cq_name :: string
  cq_prompt :: string
  cq_schedule :: CronSchedule
  cq_misfire_policy :: MisfirePolicy
  cq_runtime_profile :: "CronRuntimeProfile option"
  cq_preapproved_tools :: "string list"

record CronJobEditRequest =
  ce_name :: "string option"
  ce_prompt :: "string option"
  ce_schedule :: "CronSchedule option"
  ce_misfire_policy :: "MisfirePolicy option"
  ce_runtime_profile :: "CronRuntimeProfile option"
  ce_preapproved_tools :: "string list option"

definition never_preapprove :: "string list" where
  "never_preapprove = [''bash'', ''cronjob'', ''harness_evolve'', ''harness_capability'', ''sandbox_rollback'',
     ''skill_install'', ''subagent'']"

definition validate_preapproved_tools :: "string list \<Rightarrow> string list result" where
  "validate_preapproved_tools values =
    (let selected = sort (remdups (filter (\<lambda>v. v \<noteq> []) (map strip_text values))) in
     if list_ex (\<lambda>v. v \<in> set never_preapprove) selected then Inl (ValueError ''Cron cannot preapprove'')
     else Inr selected)"

definition profile_of ::
  "CronRuntimeProfile option \<Rightarrow> string list option \<Rightarrow> CronRuntimeProfile option \<Rightarrow> CronRuntimeProfile result" where
  "profile_of requested grants previous =
    (case requested of
       Some p \<Rightarrow>
         rbind (validate_preapproved_tools (rp_allowed_tools p)) (\<lambda>_.
         rbind (validate_preapproved_tools (rp_preapproved_tools p)) (\<lambda>_. Inr p))
     | None \<Rightarrow>
         (let base = (case previous of None \<Rightarrow> default_profile | Some p \<Rightarrow> p) in
          case grants of
            None \<Rightarrow> Inr base
          | Some gs \<Rightarrow>
              rbind (validate_preapproved_tools gs) (\<lambda>selected.
              Inr (base\<lparr>rp_allowed_tools := sort (remdups (selected @ rp_allowed_tools base)),
                        rp_preapproved_tools := selected\<rparr>))))"

definition initial_next :: "calendar \<Rightarrow> CronSchedule \<Rightarrow> timestamp \<Rightarrow> timestamp result" where
  "initial_next L s now =
    (case sd_kind s of
       OnceKind \<Rightarrow> rbind (or_raise (sd_run_at s) (ValueError ''None'')) (\<lambda>t.
                    if t \<le> now then Inl (ValueError ''one-time schedule must be in the future'') else Inr t)
     | _ \<Rightarrow> rbind (next_after L s now) (\<lambda>v. or_raise v (ValueError ''schedule has no next run'')))"

subsection \<open>Management\<close>

definition new_job ::
  "string \<Rightarrow> string \<Rightarrow> string \<Rightarrow> string \<Rightarrow> CronSchedule \<Rightarrow> MisfirePolicy \<Rightarrow> CronRuntimeProfile \<Rightarrow> timestamp \<Rightarrow> timestamp
     \<Rightarrow> CronJob" where
  "new_job i project name prompt s policy p now next_run = \<lparr>
     cj_job_id = i, cj_project_id = project, cj_name = name, cj_prompt = prompt, cj_schedule = s,
     cj_state = JobScheduled, cj_misfire_policy = policy, cj_runtime_profile = p, cj_revision = 1,
     cj_created_at = now, cj_updated_at = now, cj_deleted_at = None, cj_next_run_at = Some next_run,
     cj_current_dispatch_id = None, cj_current_run_id = None, cj_last_run_at = None, cj_last_run_id = None,
     cj_last_session_id = None, cj_last_status = None, cj_last_error = None, cj_last_success_at = None,
     cj_last_success_run_id = None, cj_last_failure_at = None, cj_last_failure_run_id = None,
     cj_consecutive_failures = 0, cj_missed_count = 0, cj_overlap_skipped = 0, cj_run_count = 0, cj_failure_count = 0\<rparr>"

definition create :: "calendar \<Rightarrow> CronJobCreateRequest \<Rightarrow> string \<Rightarrow> timestamp \<Rightarrow> cron_db \<Rightarrow> (cron_db \<times> CronJob) result" where
  "create L q uuid now d =
     rbind (validate_schedule L (cq_schedule q) now) (\<lambda>s.
     rbind (profile_of (cq_runtime_profile q) (Some (cq_preapproved_tools q)) None) (\<lambda>p.
     rbind (initial_next L s now) (\<lambda>next.
     rbind (read_job (new_job (''cron_'' @ uuid) (cq_project_id q) (strip_text (cq_name q)) (strip_text (cq_prompt q)) s
             (cq_misfire_policy q) p (utc_iso now) (utc_iso next))) (\<lambda>j.
     rbind (save_job j None d) (\<lambda>d1. Inr (d1, j))))))"

definition paper_tools :: "string list" where
  "paper_tools = [''paper_library_download'', ''paper_library_save'', ''reference_write'']"

text \<open>The fixed name and prompt of the preset are arguments: they are Chinese text outside the characters modelled.\<close>

definition ensure_paper_research_preset ::
  "calendar \<Rightarrow> env \<Rightarrow> string \<Rightarrow> string \<Rightarrow> string \<Rightarrow> string \<Rightarrow> string \<Rightarrow> timestamp \<Rightarrow> cron_db \<Rightarrow> (cron_db \<times> CronJob) result" where
  "ensure_paper_research_preset L E name prompt project expression timezone now d =
    (let i = ''cron_paper_research_'' @ take 16 (sha256 E (project @ '':paper-research'')) in
     case job d i of
       Inr j \<Rightarrow> Inr (d, j)
     | Inl (KeyError _) \<Rightarrow>
         rbind (rbind (make_schedule \<lparr>sd_kind = CronKind, sd_interval_seconds = None, sd_run_at = None,
                  sd_expression = Some expression, sd_timezone = timezone\<rparr>) (\<lambda>s. validate_schedule L s now)) (\<lambda>s.
         rbind (initial_next L s now) (\<lambda>next.
         rbind (read_job (new_job i project name prompt s FireOnce
                 (default_profile\<lparr>rp_allowed_tools := paper_tools, rp_allowed_skills := [''search-summary-paper''],
                    rp_preapproved_tools := paper_tools\<rparr>) (utc_iso now) (utc_iso next))) (\<lambda>j.
         rbind (save_job j None d) (\<lambda>d1. Inr (d1, j)))))
     | Inl e \<Rightarrow> Inl e)"

definition tool_preapproved :: "cron_db \<Rightarrow> string \<Rightarrow> string \<Rightarrow> bool result" where
  "tool_preapproved d job_id tool_name =
    (case job d job_id of
       Inr j \<Rightarrow> Inr (tool_name \<in> set (rp_preapproved_tools (cj_runtime_profile j)))
     | Inl (KeyError _) \<Rightarrow> Inr False
     | Inl e \<Rightarrow> Inl e)"

definition edited_job ::
  "CronJob \<Rightarrow> CronJobEditRequest \<Rightarrow> CronSchedule \<Rightarrow> CronRuntimeProfile \<Rightarrow> timestamp option \<Rightarrow> timestamp \<Rightarrow> CronJob" where
  "edited_job j q s p next_run now =
     j\<lparr>cj_name := strip_text (case ce_name q of None \<Rightarrow> cj_name j | Some n \<Rightarrow> n),
       cj_prompt := strip_text (case ce_prompt q of None \<Rightarrow> cj_prompt j | Some t \<Rightarrow> t),
       cj_schedule := s,
       cj_misfire_policy := (case ce_misfire_policy q of None \<Rightarrow> cj_misfire_policy j | Some m \<Rightarrow> m),
       cj_runtime_profile := p,
       cj_state := (if ce_schedule q \<noteq> None \<and> sd_kind (cj_schedule j) = OnceKind \<and> cj_state j = JobCompleted
                    then JobScheduled else cj_state j),
       cj_next_run_at := next_run, cj_revision := cj_revision j + 1, cj_updated_at := utc_iso now\<rparr>"

definition edit ::
  "calendar \<Rightarrow> cron_db \<Rightarrow> string \<Rightarrow> CronJobEditRequest \<Rightarrow> timestamp \<Rightarrow> cron_db \<Rightarrow> (cron_db \<times> CronJob) result" where
  "edit L d0 job_id q now d =
     rbind (job d0 job_id) (\<lambda>j.
     if cj_state j = JobDeleted then Inl (RuntimeError ''deleted Cron job cannot be edited'')
     else
       rbind (case ce_schedule q of None \<Rightarrow> Inr (cj_schedule j) | Some s \<Rightarrow> validate_schedule L s now) (\<lambda>s.
       rbind (profile_of (ce_runtime_profile q) (ce_preapproved_tools q) (Some (cj_runtime_profile j))) (\<lambda>p.
       rbind (if ce_schedule q = None then Inr (cj_next_run_at j)
              else rbind (initial_next L s now) (\<lambda>t. Inr (Some (utc_iso t)))) (\<lambda>next_run.
       let updated = edited_job j q s p next_run now in
       rbind (save_job updated (Some (cj_revision j)) d) (\<lambda>d1. Inr (d1, updated))))))"

definition pause_job :: "cron_db \<Rightarrow> string \<Rightarrow> timestamp \<Rightarrow> cron_db \<Rightarrow> (cron_db \<times> CronJob) result" where
  "pause_job d0 job_id now d =
     rbind (job d0 job_id) (\<lambda>j.
     if cj_state j \<in> {JobCompleted, JobDeleted} then Inl (RuntimeError ''completed or deleted Cron job cannot be paused'')
     else
       let updated = j\<lparr>cj_state := JobPaused, cj_revision := cj_revision j + 1, cj_updated_at := utc_iso now\<rparr> in
       rbind (save_job updated (Some (cj_revision j)) d) (\<lambda>d1. Inr (d1, updated)))"

definition resume_job :: "calendar \<Rightarrow> cron_db \<Rightarrow> string \<Rightarrow> timestamp \<Rightarrow> cron_db \<Rightarrow> (cron_db \<times> CronJob) result" where
  "resume_job L d0 job_id now d =
     rbind (job d0 job_id) (\<lambda>j.
     if cj_state j = JobDeleted then Inl (RuntimeError ''deleted Cron job cannot be resumed'')
     else if sd_kind (cj_schedule j) = OnceKind \<and> cj_state j = JobCompleted
     then Inl (RuntimeError ''completed one-time Cron job cannot be resumed'')
     else
       rbind (initial_next L (cj_schedule j) now) (\<lambda>t.
       let updated = j\<lparr>cj_state := JobScheduled, cj_next_run_at := Some (utc_iso t), cj_revision := cj_revision j + 1,
             cj_updated_at := utc_iso now\<rparr> in
       rbind (save_job updated (Some (cj_revision j)) d) (\<lambda>d1. Inr (d1, updated))))"

definition plain_dispatch :: "string \<Rightarrow> string \<Rightarrow> nat \<Rightarrow> DispatchTrigger \<Rightarrow> CronJob \<Rightarrow> string \<Rightarrow> timestamp \<Rightarrow> CronDispatch" where
  "plain_dispatch i job_id revision trigger frozen request_hash now = \<lparr>
     cd_dispatch_id = i, cd_job_id = job_id, cd_job_revision = revision, cd_trigger = trigger, cd_scheduled_for = None,
     cd_status = Pending, cd_coalesced_count = 1, cd_misfire_window_start = None, cd_misfire_window_end = None,
     cd_claim_token = None, cd_claim_epoch = None, cd_claim_expires_at = None, cd_session_id = None, cd_run_id = None,
     cd_operation_id = None, cd_attempt_id = None, cd_retry_of_dispatch_id = None, cd_job_snapshot = frozen,
     cd_request_hash = request_hash, cd_revision = 1, cd_result = None, cd_error = None, cd_created_at = now,
     cd_claimed_at = None, cd_started_at = None, cd_completed_at = None\<rparr>"

definition trigger_job ::
  "calendar \<Rightarrow> env \<Rightarrow> cron_db \<Rightarrow> string \<Rightarrow> string \<Rightarrow> timestamp \<Rightarrow> cron_db \<Rightarrow> cron_db result" where
  "trigger_job L E d0 job_id uuid now d =
     rbind (job d0 job_id) (\<lambda>j.
     if cj_state j = JobDeleted \<or> truthy (cj_current_dispatch_id j)
     then Inl (RuntimeError ''Cron job already has an active dispatch or has been deleted'')
     else
       let ts = utc_iso now;
           request_hash = sha256 E (''run-now:'' @ cj_job_id j @ '':'' @ nat_text (cj_revision j) @ '':'' @ cl_text L ts) in
       due_materialize j [plain_dispatch (''cron_dispatch_'' @ uuid) (cj_job_id j) (cj_revision j) RunNow j request_hash ts]
         (cj_next_run_at j) ts d)"

definition retry_dispatch ::
  "calendar \<Rightarrow> env \<Rightarrow> cron_db \<Rightarrow> string \<Rightarrow> string \<Rightarrow> timestamp \<Rightarrow> cron_db \<Rightarrow> cron_db result" where
  "retry_dispatch L E d0 dispatch_id uuid now d =
     rbind (dispatch_of d0 dispatch_id) (\<lambda>original.
     if cd_status original \<notin> {DispatchFailed, Cancelled}
     then Inl (RuntimeError ''only a determined failed/cancelled dispatch can be retried'')
     else
       let ts = utc_iso now;
           request_hash = sha256 E (''retry:'' @ cd_dispatch_id original @ '':'' @ cl_text L ts) in
       rbind (job d0 (cd_job_id original)) (\<lambda>j.
       due_materialize j [(plain_dispatch (''cron_dispatch_'' @ uuid) (cd_job_id original) (cd_job_revision original) Retry
           (cd_job_snapshot original) request_hash ts)\<lparr>cd_retry_of_dispatch_id := Some (cd_dispatch_id original)\<rparr>]
         (cj_next_run_at j) ts d))"

fun cancel_each :: "CronDispatch list \<Rightarrow> timestamp \<Rightarrow> cron_db \<Rightarrow> cron_db \<times> unit result" where
  "cancel_each [] now d = (d, Inr ())"
| "cancel_each (x # xs) now d =
    (if cd_status x \<in> {Pending, Claimed}
     then (case cancel_unbound d (cd_dispatch_id x) ''job_deleted_before_claim'' now d of
             Inl e \<Rightarrow> (d, Inl e) | Inr (d1, _) \<Rightarrow> cancel_each xs now d1)
     else cancel_each xs now d)"

definition remove_job :: "cron_db \<Rightarrow> string \<Rightarrow> timestamp \<Rightarrow> cron_db \<Rightarrow> (cron_db \<times> CronJob) result" where
  "remove_job d0 job_id now d =
     rbind (job d0 job_id) (\<lambda>j.
     if cj_state j = JobDeleted then Inr (d, j)
     else
       let updated = j\<lparr>cj_state := JobDeleted, cj_next_run_at := None, cj_deleted_at := Some (utc_iso now),
             cj_revision := cj_revision j + 1, cj_updated_at := utc_iso now\<rparr> in
       rbind (save_job updated (Some (cj_revision j)) d) (\<lambda>d1. Inr (d1, updated)))"

definition remove :: "string \<Rightarrow> timestamp \<Rightarrow> cron_db \<Rightarrow> cron_db \<times> CronJob result" where
  "remove job_id now d =
    (case job d job_id of
       Inl e \<Rightarrow> (d, Inl e)
     | Inr j \<Rightarrow>
         if cj_state j = JobDeleted then (d, Inr j)
         else (case remove_job d job_id now d of
                 Inl e \<Rightarrow> (d, Inl e)
               | Inr (d1, updated) \<Rightarrow>
                   (case dispatches d1 job_id 10000 of
                      Inl e \<Rightarrow> (d1, Inl e)
                    | Inr xs \<Rightarrow> (case cancel_each xs now d1 of
                        (d2, Inl e) \<Rightarrow> (d2, Inl e) | (d2, Inr _) \<Rightarrow> (d2, Inr updated)))))"

definition project_has_jobs :: "cron_db \<Rightarrow> string \<Rightarrow> bool result" where
  "project_has_jobs d project = rbind (jobs d (Some project) False) (\<lambda>js. Inr (js \<noteq> []))"

subsection \<open>Materializing due periods\<close>

text \<open>The walk over the missed periods: at most as many as the first argument says.\<close>

fun missed_occurrences ::
  "calendar \<Rightarrow> CronSchedule \<Rightarrow> timestamp \<Rightarrow> nat \<Rightarrow> timestamp \<Rightarrow> (timestamp list \<times> timestamp) result" where
  "missed_occurrences L s now 0 cursor = Inr ([], cursor)"
| "missed_occurrences L s now (Suc n) cursor =
    (if now < cursor then Inr ([], cursor)
     else rbind (next_after L s cursor) (\<lambda>v.
       case v of
         None \<Rightarrow> Inr ([cursor], cursor)
       | Some t \<Rightarrow> rbind (missed_occurrences L s now n t) (\<lambda>(ts, c). Inr (cursor # ts, c))))"

definition new_dispatch :: "calendar \<Rightarrow> env \<Rightarrow> CronJob \<Rightarrow> string \<Rightarrow> timestamp \<Rightarrow> nat \<Rightarrow> timestamp \<Rightarrow> CronDispatch" where
  "new_dispatch L E j uuid scheduled_for coalesced now =
     (plain_dispatch (''cron_dispatch_'' @ uuid) (cj_job_id j) (cj_revision j) ByTime j
        (sha256 E (cj_job_id j @ '':'' @ nat_text (cj_revision j) @ '':'' @ cl_text L scheduled_for @ '':'' @ nat_text coalesced)) now)
     \<lparr>cd_scheduled_for := Some scheduled_for, cd_coalesced_count := coalesced,
      cd_misfire_window_start := (if coalesced = 1 then Some scheduled_for else None),
      cd_misfire_window_end := Some scheduled_for\<rparr>"

definition skipped_dispatch :: "CronDispatch \<Rightarrow> string \<Rightarrow> timestamp \<Rightarrow> CronDispatch" where
  "skipped_dispatch x why now = x\<lparr>cd_status := Skipped, cd_completed_at := Some now, cd_error := Some why\<rparr>"

text \<open>What one job materializes: the dispatches and the next value of its cursor. \<open>ids\<close> draws the random identifiers.\<close>

definition materialize_plan ::
  "calendar \<Rightarrow> env \<Rightarrow> (nat \<Rightarrow> string) \<Rightarrow> CronJob \<Rightarrow> timestamp \<Rightarrow> nat \<Rightarrow> timestamp list \<Rightarrow> timestamp \<Rightarrow> CronDispatch list \<times> timestamp option" where
  "materialize_plan L E ids j now pending occurrences cursor =
    (let ts = utc_iso now; rest = (if now < cursor then Some (utc_iso cursor) else None);
         whole = new_dispatch L E j (ids 0) (utc_iso (last occurrences)) (length occurrences) ts in
     if truthy (cj_current_dispatch_id j) \<or> truthy (cj_current_run_id j)
     then ([skipped_dispatch whole ''overlap_skipped'' ts], rest)
     else (case cj_misfire_policy j of
             SkipMissed \<Rightarrow> ([skipped_dispatch whole ''misfire_skip'' ts], rest)
           | FireOnce \<Rightarrow> ([whole], rest)
           | CatchUp \<Rightarrow>
               let selected = take (10 - pending) occurrences in
               (map (\<lambda>k. new_dispatch L E j (ids k) (utc_iso (occurrences ! k)) 1 ts) [0..<length selected],
                if length selected = length occurrences then rest
                else Some (utc_iso (occurrences ! length selected)))))"

definition materialize_due ::
  "calendar \<Rightarrow> env \<Rightarrow> (nat \<Rightarrow> string) \<Rightarrow> CronJob \<Rightarrow> timestamp \<Rightarrow> cron_db \<Rightarrow> cron_db \<Rightarrow> cron_db result" where
  "materialize_due L E ids j now d0 d =
    (case cj_next_run_at j of
       None \<Rightarrow> Inr d
     | Some due \<Rightarrow>
         if cj_state j \<noteq> JobScheduled \<or> now < due then Inr d
         else rbind (dispatches d0 (cj_job_id j) 1000) (\<lambda>xs.
           let pending = length (filter (\<lambda>x. cd_status x = Pending) xs) in
           rbind (missed_occurrences L (cj_schedule j) now 100000 due) (\<lambda>(occurrences, cursor).
           if occurrences = [] then Inr d
           else (case materialize_plan L E ids j now pending occurrences cursor of
                   (created, next_run) \<Rightarrow>
                     if created = [] then Inr d else due_materialize j created next_run (utc_iso now) d))))"

subsection \<open>A tick\<close>

record tick_input =
  tk_now :: timestamp
  tk_ids :: "string \<Rightarrow> nat \<Rightarrow> string"
  tk_epoch :: string
  tk_token :: "string \<Rightarrow> string"
  tk_claim_now :: "string \<Rightarrow> timestamp"

record cron_scheduler =
  cs_maintenance_epoch :: "nat option"
  cs_last_error :: "error option"

fun materialize_all :: "calendar \<Rightarrow> env \<Rightarrow> tick_input \<Rightarrow> CronJob list \<Rightarrow> cron_db \<Rightarrow> cron_db \<times> unit result" where
  "materialize_all L E K [] d = (d, Inr ())"
| "materialize_all L E K (j # js) d =
    (case materialize_due L E (tk_ids K (cj_job_id j)) j (tk_now K) d d of
       Inl e \<Rightarrow> (d, Inl e) | Inr d1 \<Rightarrow> materialize_all L E K js d1)"

text \<open>An exception of \<^verbatim>\<open>claim_next\<close> skips the job.\<close>

fun claim_all :: "tick_input \<Rightarrow> CronJob list \<Rightarrow> cron_db \<Rightarrow> cron_db \<times> CronDispatch list" where
  "claim_all K [] d = (d, [])"
| "claim_all K (j # js) d =
    (case claim_next (cj_job_id j) (tk_epoch K) 120 (tk_token K (cj_job_id j)) (tk_claim_now K (cj_job_id j)) d of
       Inl e \<Rightarrow> claim_all K js d
     | Inr (d1, None) \<Rightarrow> claim_all K js d1
     | Inr (d1, Some x) \<Rightarrow> (case claim_all K js d1 of (d2, xs) \<Rightarrow> (d2, x # xs)))"

definition ticked :: "timestamp \<Rightarrow> HeartbeatState \<Rightarrow> HeartbeatState" where
  "ticked now h = h\<lparr>hb_status := ''running'', hb_last_tick_at := Some (utc_iso now),
     hb_next_tick_at := Some (utc_iso (now + of_nat (hb_interval_seconds h))), hb_last_error := None\<rparr>"

definition tick_claims :: "calendar \<Rightarrow> env \<Rightarrow> tick_input \<Rightarrow> cron_db \<Rightarrow> cron_db \<times> CronDispatch list result" where
  "tick_claims L E K d =
    (case jobs d None False of
       Inl e \<Rightarrow> (d, Inl e)
     | Inr js \<Rightarrow>
         (case materialize_all L E K js d of
            (d1, Inl e) \<Rightarrow> (d1, Inl e)
          | (d1, Inr _) \<Rightarrow>
              (case jobs d1 None False of
                 Inl e \<Rightarrow> (d1, Inl e)
               | Inr js1 \<Rightarrow>
                   (case claim_all K js1 d1 of
                      (d2, xs) \<Rightarrow> (set_heartbeat (ticked (tk_now K) (cr_heartbeat d2)) d2, Inr xs)))))"

text \<open>\<open>hand\<close> is the callback of the application; its exception leaves the claim as evidence.\<close>

fun submit_all ::
  "(CronDispatch \<Rightarrow> cron_db \<Rightarrow> cron_db \<times> unit result) \<Rightarrow> CronDispatch list \<Rightarrow> cron_scheduler \<Rightarrow> cron_db
     \<Rightarrow> cron_db \<times> cron_scheduler \<times> string list" where
  "submit_all hand [] S d = (d, S, [])"
| "submit_all hand (x # xs) S d =
    (case hand x d of
       (d1, Inl e) \<Rightarrow> submit_all hand xs (S\<lparr>cs_last_error := Some e\<rparr>) d1
     | (d1, Inr _) \<Rightarrow>
         (case dispatch_of d1 (cd_dispatch_id x) of
            Inl e \<Rightarrow> submit_all hand xs (S\<lparr>cs_last_error := Some e\<rparr>) d1
          | Inr taken \<Rightarrow> (case submit_all hand xs S d1 of
              (d2, S2, ids) \<Rightarrow> (d2, S2, or_text (cd_run_id taken) (cd_dispatch_id x) # ids))))"

text \<open>\<open>admitted\<close> is what \<^verbatim>\<open>write_gate.operation\<close> answers.\<close>

definition tick ::
  "calendar \<Rightarrow> env \<Rightarrow> (CronDispatch \<Rightarrow> cron_db \<Rightarrow> cron_db \<times> unit result) \<Rightarrow> unit result \<Rightarrow> tick_input \<Rightarrow> cron_scheduler \<Rightarrow> cron_db
     \<Rightarrow> cron_db \<times> cron_scheduler \<times> string list result" where
  "tick L E hand admitted K S d =
    (case admitted of
       Inl e \<Rightarrow> (d, S, Inl e)
     | Inr _ \<Rightarrow>
         if cs_maintenance_epoch S \<noteq> None then (d, S, Inr [])
         else (case tick_claims L E K d of
                 (d1, Inl e) \<Rightarrow> (d1, S, Inl e)
               | (d1, Inr xs) \<Rightarrow> (case submit_all hand xs S d1 of (d2, S2, ids) \<Rightarrow> (d2, S2, Inr ids))))"

text \<open>One round of the background loop: a blocked tick changes nothing, another exception marks the heartbeat.\<close>

definition unhealthy :: "string \<Rightarrow> cron_db \<Rightarrow> cron_db" where
  "unhealthy message d = set_heartbeat ((cr_heartbeat d)\<lparr>hb_status := ''unhealthy'', hb_last_error := Some message\<rparr>) d"

definition tick_round ::
  "calendar \<Rightarrow> env \<Rightarrow> (CronDispatch \<Rightarrow> cron_db \<Rightarrow> cron_db \<times> unit result) \<Rightarrow> (error \<Rightarrow> string) \<Rightarrow> unit result \<Rightarrow> tick_input
     \<Rightarrow> cron_scheduler \<Rightarrow> cron_db \<Rightarrow> cron_db \<times> cron_scheduler" where
  "tick_round L E hand message admitted K S d =
    (case tick L E hand admitted K S d of
       (d1, S1, Inr _) \<Rightarrow> (d1, S1)
     | (d1, S1, Inl (MaintenanceBlockedError _)) \<Rightarrow> (d1, S1)
     | (d1, S1, Inl e) \<Rightarrow> (unhealthy (message e) d1, S1\<lparr>cs_last_error := Some e\<rparr>))"

definition cron_ack :: "nat \<Rightarrow> bool \<Rightarrow> bool \<Rightarrow> string option \<Rightarrow> QuiesceResult" where
  "cron_ack epoch acknowledged stale boundary = \<lparr>qr_participant = ''cron'', qr_maintenance_epoch = epoch,
     qr_acknowledged = acknowledged, qr_safe_boundary = boundary, qr_active_operations = [],
     qr_failure_reason = None, qr_stale = stale\<rparr>"

definition quiesce_cron :: "nat \<Rightarrow> cron_scheduler \<Rightarrow> cron_scheduler \<times> QuiesceResult" where
  "quiesce_cron epoch S =
    (let paused = (S\<lparr>cs_maintenance_epoch := Some epoch\<rparr>, cron_ack epoch True False (Some ''tick_durable_claims_only'')) in
     case cs_maintenance_epoch S of
       None \<Rightarrow> paused
     | Some e \<Rightarrow> if epoch \<le> e then (S, cron_ack epoch (epoch = e) (epoch < e) None) else paused)"

definition resume_scheduler :: "nat \<Rightarrow> cron_scheduler \<Rightarrow> cron_scheduler" where
  "resume_scheduler epoch S =
    (if cs_maintenance_epoch S = Some epoch then S\<lparr>cs_maintenance_epoch := None\<rparr> else S)"

end
