(* ===== verification/Cron_Safety.thy ===== *)
theory Cron_Safety
  imports Cron_Service
begin

section \<open>Histories of the Cron repository\<close>

text \<open>
  Every method as a step. A method may have read its rows in any earlier database of the history, so the steps
  cover interleavings of several writers; the revisions decide. The invariant: constraints of the tables, valid
  documents, and the link between a job and the dispatch it is running.
\<close>

subsection \<open>Compare and swap on a row\<close>

lemma lookup_update_cond:
  assumes "\<And>r. p r \<Longrightarrow> key (f r) = key r"
  shows "lookup_row key k (update_rows p f rows) = map_option (\<lambda>r. if p r then f r else r) (lookup_row key k rows)"
  using assms by (induction rows) (auto simp: update_rows_def)

lemma keys_update_cond:
  assumes "\<And>r. p r \<Longrightarrow> key (f r) = key r"
  shows "map key (update_rows p f rows) = map key rows"
  using assms by (induction rows) (auto simp: update_rows_def)

lemma cas_found:
  assumes "count_rows (\<lambda>r. key r = k \<and> ver r = n) rows = 1" "distinct (map key rows)"
  obtains r where "lookup_row key k rows = Some r" "ver r = n"
proof -
  have "filter (\<lambda>r. key r = k \<and> ver r = n) rows \<noteq> []" using assms(1) by (auto simp: count_rows_def)
  then obtain r where "r \<in> set rows" "key r = k" "ver r = n" by (auto simp: filter_empty_conv)
  then show thesis using that lookup_row_distinct [OF assms(2)] by metis
qed

lemma replace_job_Inr:
  assumes "replace_job j n d = Inr d'" "distinct (map cj_job_id (cr_jobs d))"
  obtains r where "find_job d (cj_job_id j) = Some r" "cj_revision r = n"
    "\<And>i. find_job d' i = (if i = cj_job_id j then Some j else find_job d i)"
    "cr_dispatches d' = cr_dispatches d" "cr_heartbeat d' = cr_heartbeat d"
    "map cj_job_id (cr_jobs d') = map cj_job_id (cr_jobs d)" "set (cr_jobs d') \<subseteq> insert j (set (cr_jobs d))"
proof -
  let ?p = "\<lambda>r. cj_job_id r = cj_job_id j \<and> cj_revision r = n"
  have c: "count_rows ?p (cr_jobs d) = 1" and d': "d' = d\<lparr>cr_jobs := update_rows ?p (\<lambda>_. j) (cr_jobs d)\<rparr>"
    using assms(1) by (auto simp: replace_job_def Let_def split: if_splits)
  obtain r where r: "find_job d (cj_job_id j) = Some r" "cj_revision r = n"
    using cas_found [OF c assms(2)] unfolding find_job_def by blast
  have "find_job d' i = (if i = cj_job_id j then Some j else find_job d i)" for i
  proof -
    have "find_job d' i = map_option (\<lambda>x. if ?p x then j else x) (find_job d i)"
      unfolding find_job_def d' by (simp, rule lookup_update_cond) simp
    moreover have "cj_job_id x = i" if "find_job d i = Some x" for x
      using that lookup_row_Some_mem unfolding find_job_def by fast
    ultimately show ?thesis using r by (cases "find_job d i") auto
  qed
  moreover have "map cj_job_id (cr_jobs d') = map cj_job_id (cr_jobs d)"
    unfolding d' using keys_update_cond [of ?p cj_job_id "\<lambda>_. j"] by simp
  moreover have "set (cr_jobs d') \<subseteq> insert j (set (cr_jobs d))" by (auto simp: d' set_update_rows)
  ultimately show thesis using that r d' by simp
qed

lemma replace_dispatch_Inr:
  assumes "replace_dispatch x n d = Inr d'" "distinct (map cd_dispatch_id (cr_dispatches d))"
  obtains r where "find_dispatch d (cd_dispatch_id x) = Some r" "cd_revision r = n"
    "\<And>i. find_dispatch d' i = (if i = cd_dispatch_id x then Some x else find_dispatch d i)"
    "cr_jobs d' = cr_jobs d" "cr_heartbeat d' = cr_heartbeat d" "dispatch_index_ok (cr_dispatches d')"
    "map cd_dispatch_id (cr_dispatches d') = map cd_dispatch_id (cr_dispatches d)"
    "\<And>y. y \<in> set (cr_dispatches d') \<longleftrightarrow> y = x \<or> y \<in> set (cr_dispatches d) \<and> cd_dispatch_id y \<noteq> cd_dispatch_id x"
proof -
  let ?p = "\<lambda>r. cd_dispatch_id r = cd_dispatch_id x \<and> cd_revision r = n"
  have c: "count_rows ?p (cr_dispatches d) = 1"
    and d': "d' = d\<lparr>cr_dispatches := update_rows ?p (\<lambda>_. x) (cr_dispatches d)\<rparr>"
    and ok: "dispatch_index_ok (cr_dispatches d')"
    using assms(1) by (auto simp: replace_dispatch_def Let_def split: if_splits)
  obtain r where r: "find_dispatch d (cd_dispatch_id x) = Some r" "cd_revision r = n"
    using cas_found [OF c assms(2)] unfolding find_dispatch_def by blast
  have mem: "y \<in> set (cr_dispatches d)" "cd_dispatch_id y = i" if "find_dispatch d i = Some y" for i y
    using that lookup_row_Some_mem unfolding find_dispatch_def by fast+
  have look: "find_dispatch d' i = (if i = cd_dispatch_id x then Some x else find_dispatch d i)" for i
  proof -
    have "find_dispatch d' i = map_option (\<lambda>y. if ?p y then x else y) (find_dispatch d i)"
      unfolding find_dispatch_def d' by (simp, rule lookup_update_cond) simp
    then show ?thesis using r mem by (cases "find_dispatch d i") auto
  qed
  have keys: "map cd_dispatch_id (cr_dispatches d') = map cd_dispatch_id (cr_dispatches d)"
    unfolding d' using keys_update_cond [of ?p cd_dispatch_id "\<lambda>_. x"] by simp
  have one: "y = r" if "y \<in> set (cr_dispatches d)" "cd_dispatch_id y = cd_dispatch_id x" for y
    using lookup_row_distinct [OF assms(2) that(1)] that(2) r(1) by (simp add: find_dispatch_def)
  have "y \<in> set (cr_dispatches d') \<longleftrightarrow> y = x \<or> y \<in> set (cr_dispatches d) \<and> cd_dispatch_id y \<noteq> cd_dispatch_id x" for y
  proof -
    have p: "?p z \<longleftrightarrow> cd_dispatch_id z = cd_dispatch_id x" if "z \<in> set (cr_dispatches d)" for z
      using one [OF that] r(2) by auto
    have "set (cr_dispatches d') = (\<lambda>z. if ?p z then x else z) ` set (cr_dispatches d)"
      by (simp add: d' set_update_rows)
    also have "\<dots> = (\<lambda>z. if cd_dispatch_id z = cd_dispatch_id x then x else z) ` set (cr_dispatches d)"
      using p by (intro image_cong) auto
    finally show ?thesis using mem [OF r(1)] by (auto split: if_splits)
  qed
  then show thesis using that r look keys ok d' by simp
qed

subsection \<open>Revisions only grow\<close>

text \<open>A dispatch moves along its life, keeps what it was created with, and its run once it is bound.\<close>

fun life_rank :: "DispatchState \<Rightarrow> nat" where
  "life_rank Pending = 0"
| "life_rank Claimed = 1"
| "life_rank Running = 2"
| "life_rank RecoveryRequired = 3"
| "life_rank _ = 4"

definition same_origin :: "CronDispatch \<Rightarrow> CronDispatch \<Rightarrow> bool" where
  "same_origin x y \<longleftrightarrow> cd_job_id y = cd_job_id x \<and> cd_job_revision y = cd_job_revision x \<and>
     cd_trigger y = cd_trigger x \<and> cd_scheduled_for y = cd_scheduled_for x \<and>
     cd_coalesced_count y = cd_coalesced_count x \<and> cd_retry_of_dispatch_id y = cd_retry_of_dispatch_id x \<and>
     cd_job_snapshot y = cd_job_snapshot x \<and> cd_request_hash y = cd_request_hash x \<and> cd_created_at y = cd_created_at x"

definition same_run :: "CronDispatch \<Rightarrow> CronDispatch \<Rightarrow> bool" where
  "same_run x y \<longleftrightarrow> cd_run_id y = cd_run_id x \<and> cd_session_id y = cd_session_id x \<and>
     cd_operation_id y = cd_operation_id x \<and> cd_attempt_id y = cd_attempt_id x"

definition lives_on :: "CronDispatch \<Rightarrow> CronDispatch \<Rightarrow> bool" where
  "lives_on x y \<longleftrightarrow> same_origin x y \<and> life_rank (cd_status x) \<le> life_rank (cd_status y) \<and>
     life_rank (cd_status x) \<noteq> 4 \<and> (2 \<le> life_rank (cd_status x) \<longrightarrow> same_run x y)"

lemma lives_on_trans: "lives_on x y \<Longrightarrow> lives_on y z \<Longrightarrow> lives_on x z"
  by (auto simp: lives_on_def same_origin_def same_run_def)

definition job_moves :: "CronJob \<Rightarrow> CronJob \<Rightarrow> bool" where
  "job_moves j k \<longleftrightarrow> cj_revision j < cj_revision k"

definition dispatch_moves :: "CronDispatch \<Rightarrow> CronDispatch \<Rightarrow> bool" where
  "dispatch_moves x y \<longleftrightarrow> cd_revision x < cd_revision y \<and> lives_on x y"

definition tracks :: "(cron_db \<Rightarrow> string \<Rightarrow> 'r option) \<Rightarrow> ('r \<Rightarrow> 'r \<Rightarrow> bool) \<Rightarrow> cron_db \<Rightarrow> cron_db \<Rightarrow> bool" where
  "tracks look goes d d' \<longleftrightarrow>
     (\<forall>i r. look d i = Some r \<longrightarrow> (\<exists>s. look d' i = Some s \<and> (s = r \<or> goes r s)))"

definition grows :: "cron_db \<Rightarrow> cron_db \<Rightarrow> bool" where
  "grows d d' \<longleftrightarrow> tracks find_job job_moves d d' \<and> tracks find_dispatch dispatch_moves d d'"

lemma moves_trans: "job_moves j k \<Longrightarrow> job_moves k l \<Longrightarrow> job_moves j l"
  "dispatch_moves x y \<Longrightarrow> dispatch_moves y z \<Longrightarrow> dispatch_moves x z"
  using lives_on_trans by (auto simp: job_moves_def dispatch_moves_def)

lemma tracks_refl: "tracks look goes d d"
  by (simp add: tracks_def)

lemma tracks_trans:
  assumes "tracks look goes d d1" "tracks look goes d1 d2" "\<And>r s t. goes r s \<Longrightarrow> goes s t \<Longrightarrow> goes r t"
  shows "tracks look goes d d2"
  unfolding tracks_def
proof (intro allI impI)
  fix i r assume "look d i = Some r"
  then obtain s where s: "look d1 i = Some s" "s = r \<or> goes r s" using assms(1) unfolding tracks_def by blast
  then obtain t where t: "look d2 i = Some t" "t = s \<or> goes s t" using assms(2) unfolding tracks_def by blast
  then show "\<exists>s. look d2 i = Some s \<and> (s = r \<or> goes r s)" using s(2) assms(3) [of r s t] by auto
qed

lemma tracks_found:
  assumes "tracks look goes d d'" "look d i = Some r" "look d' i = Some s"
  shows "s = r \<or> goes r s"
  using assms unfolding tracks_def by fastforce

lemma grows_refl [simp]: "grows d d"
  by (simp add: grows_def tracks_refl)

lemma grows_trans: "grows d d1 \<Longrightarrow> grows d1 d2 \<Longrightarrow> grows d d2"
  unfolding grows_def
  by (intro conjI; elim conjE; erule (1) tracks_trans; rule moves_trans)

lemma grows_job:
  assumes "grows d0 d" "find_job d0 i = Some j" "find_job d i = Some k" "cj_revision k = cj_revision j"
  shows "k = j"
  using tracks_found [of find_job job_moves d0 d i j k] assms by (auto simp: grows_def job_moves_def)

lemma grows_dispatch:
  assumes "grows d0 d" "find_dispatch d0 i = Some x" "find_dispatch d i = Some y" "cd_revision y = cd_revision x"
  shows "y = x"
  using tracks_found [of find_dispatch dispatch_moves d0 d i x y] assms by (auto simp: grows_def dispatch_moves_def)

subsection \<open>The invariant\<close>

definition bound_status :: "DispatchState \<Rightarrow> bool" where
  "bound_status s \<longleftrightarrow> s \<in> {Running, RecoveryRequired}"

text \<open>A stored dispatch can be read again, and is not bound before it is claimed.\<close>

definition sound_dispatch :: "CronDispatch \<Rightarrow> bool" where
  "sound_dispatch x \<longleftrightarrow> valid_dispatch x \<and> (cd_status x = Pending \<longrightarrow> cd_run_id x = None)"

definition linked :: "cron_db \<Rightarrow> bool" where
  "linked d \<longleftrightarrow> (\<forall>x \<in> set (cr_dispatches d). \<exists>j. find_job d (cd_job_id x) = Some j \<and>
     (bound_status (cd_status x) \<longrightarrow>
        cj_current_dispatch_id j = Some (cd_dispatch_id x) \<and> cj_current_run_id j = cd_run_id x))"

definition held :: "cron_db \<Rightarrow> bool" where
  "held d \<longleftrightarrow> (\<forall>j \<in> set (cr_jobs d).
     (cj_current_dispatch_id j = None \<longrightarrow> cj_current_run_id j = None) \<and>
     (\<forall>i. cj_current_dispatch_id j = Some i \<longrightarrow>
        (\<exists>x. find_dispatch d i = Some x \<and> cd_job_id x = cj_job_id j \<and> bound_status (cd_status x))))"

definition cron_ok :: "cron_db \<Rightarrow> bool" where
  "cron_ok d \<longleftrightarrow> distinct (map cj_job_id (cr_jobs d)) \<and> dispatch_index_ok (cr_dispatches d) \<and>
     (\<forall>j \<in> set (cr_jobs d). valid_job j) \<and> (\<forall>x \<in> set (cr_dispatches d). sound_dispatch x) \<and> linked d \<and> held d"

lemma cron_okD:
  assumes "cron_ok d"
  shows "distinct (map cj_job_id (cr_jobs d))" "dispatch_index_ok (cr_dispatches d)"
    "distinct (map cd_dispatch_id (cr_dispatches d))" "linked d" "held d"
    "\<And>j. j \<in> set (cr_jobs d) \<Longrightarrow> valid_job j" "\<And>x. x \<in> set (cr_dispatches d) \<Longrightarrow> sound_dispatch x"
  using assms by (auto simp: cron_ok_def dispatch_index_ok_def)

lemma find_job_mem: "find_job d i = Some j \<Longrightarrow> j \<in> set (cr_jobs d) \<and> cj_job_id j = i"
  unfolding find_job_def by (rule lookup_row_Some_mem)

lemma find_dispatch_mem: "find_dispatch d i = Some x \<Longrightarrow> x \<in> set (cr_dispatches d) \<and> cd_dispatch_id x = i"
  unfolding find_dispatch_def by (rule lookup_row_Some_mem)

lemma find_dispatch_own: "cron_ok d \<Longrightarrow> x \<in> set (cr_dispatches d) \<Longrightarrow> find_dispatch d (cd_dispatch_id x) = Some x"
  unfolding find_dispatch_def by (rule lookup_row_distinct) (simp_all add: cron_okD)

lemma find_job_own: "cron_ok d \<Longrightarrow> j \<in> set (cr_jobs d) \<Longrightarrow> find_job d (cj_job_id j) = Some j"
  unfolding find_job_def by (rule lookup_row_distinct) (simp_all add: cron_okD)

text \<open>Two active dispatches of a job are the same.\<close>

lemma one_active:
  assumes "cron_ok d" "x \<in> set (cr_dispatches d)" "y \<in> set (cr_dispatches d)" "cd_job_id x = cd_job_id y"
    and "is_active_status (cd_status x)" "is_active_status (cd_status y)"
  shows "x = y"
proof -
  have "distinct (map cd_job_id (filter (\<lambda>x. is_active_status (cd_status x)) (cr_dispatches d)))"
    using assms(1) by (simp add: cron_ok_def dispatch_index_ok_def)
  then have "inj_on cd_job_id {x \<in> set (cr_dispatches d). is_active_status (cd_status x)}"
    by (simp add: distinct_map)
  then show ?thesis using assms(2-6) by (auto dest: inj_onD)
qed

lemma bound_is_active: "bound_status s \<Longrightarrow> is_active_status s"
  by (auto simp: bound_status_def is_active_status_def)

subsection \<open>Shapes of writes that keep it\<close>

text \<open>A job alone: its link to the running dispatch stays.\<close>

lemma job_write:
  assumes ok: "cron_ok d" and w: "replace_job j n d = Inr d'"
    and new: "valid_job j" "cj_revision j = n + 1"
    and link: "\<And>r. find_job d (cj_job_id j) = Some r \<Longrightarrow> cj_revision r = n \<Longrightarrow>
      cj_current_dispatch_id j = cj_current_dispatch_id r \<and> cj_current_run_id j = cj_current_run_id r"
  shows "cron_ok d' \<and> grows d d'"
proof -
  obtain r where r: "find_job d (cj_job_id j) = Some r" "cj_revision r = n"
    "\<And>i. find_job d' i = (if i = cj_job_id j then Some j else find_job d i)"
    "cr_dispatches d' = cr_dispatches d" "cr_heartbeat d' = cr_heartbeat d"
    "map cj_job_id (cr_jobs d') = map cj_job_id (cr_jobs d)" "set (cr_jobs d') \<subseteq> insert j (set (cr_jobs d))"
    using replace_job_Inr [OF w cron_okD(1) [OF ok]] by blast
  have same: "cj_current_dispatch_id j = cj_current_dispatch_id r" "cj_current_run_id j = cj_current_run_id r"
    using link [OF r(1,2)] by simp_all
  have fd: "find_dispatch d' = find_dispatch d" by (simp add: find_dispatch_def r(4) fun_eq_iff)
  have "linked d'"
    using cron_okD(4) [OF ok] r(1) same unfolding linked_def r(4) r(3) by (metis option.inject)
  moreover have "held d'"
  proof -
    have rm: "r \<in> set (cr_jobs d)" "cj_job_id r = cj_job_id j" using find_job_mem [OF r(1)] by simp_all
    show ?thesis
      unfolding held_def fd
    proof
      fix k assume "k \<in> set (cr_jobs d')"
      then consider "k = j" | "k \<in> set (cr_jobs d)" using r(7) by blast
      then show "(cj_current_dispatch_id k = None \<longrightarrow> cj_current_run_id k = None) \<and>
          (\<forall>i. cj_current_dispatch_id k = Some i \<longrightarrow>
            (\<exists>x. find_dispatch d i = Some x \<and> cd_job_id x = cj_job_id k \<and> bound_status (cd_status x)))"
        using cron_okD(5) [OF ok] rm same unfolding held_def by cases auto
    qed
  qed
  moreover have "valid_job k" if "k \<in> set (cr_jobs d')" for k using that r(7) new(1) cron_okD(6) [OF ok] by auto
  ultimately have "cron_ok d'" using ok r(4,6) by (simp add: cron_ok_def)
  moreover have "grows d d'"
    using r(1,2,3) new(2) by (auto simp: grows_def tracks_def fd job_moves_def)
  ultimately show ?thesis by simp
qed

lemma heldD:
  assumes "held d" "j \<in> set (cr_jobs d)" "cj_current_dispatch_id j = Some i"
  obtains x where "find_dispatch d i = Some x" "cd_job_id x = cj_job_id j" "bound_status (cd_status x)"
  using assms unfolding held_def by blast

text \<open>A dispatch alone: it does not become bound or free, and keeps its run.\<close>

lemma dispatch_write:
  assumes ok: "cron_ok d" and w: "replace_dispatch x n d = Inr d'"
    and new: "sound_dispatch x" "cd_revision x = n + 1"
    and same: "\<And>r. find_dispatch d (cd_dispatch_id x) = Some r \<Longrightarrow> cd_revision r = n \<Longrightarrow>
      bound_status (cd_status x) = bound_status (cd_status r) \<and> lives_on r x"
  shows "cron_ok d' \<and> grows d d'"
proof -
  obtain r where r: "find_dispatch d (cd_dispatch_id x) = Some r" "cd_revision r = n"
    "\<And>i. find_dispatch d' i = (if i = cd_dispatch_id x then Some x else find_dispatch d i)"
    "cr_jobs d' = cr_jobs d" "cr_heartbeat d' = cr_heartbeat d" "dispatch_index_ok (cr_dispatches d')"
    "map cd_dispatch_id (cr_dispatches d') = map cd_dispatch_id (cr_dispatches d)"
    "\<And>y. y \<in> set (cr_dispatches d') \<longleftrightarrow> y = x \<or> y \<in> set (cr_dispatches d) \<and> cd_dispatch_id y \<noteq> cd_dispatch_id x"
    using replace_dispatch_Inr [OF w cron_okD(3) [OF ok]] by blast
  have s: "cd_job_id x = cd_job_id r" "bound_status (cd_status x) = bound_status (cd_status r)"
    "bound_status (cd_status x) \<longrightarrow> cd_run_id x = cd_run_id r" "lives_on r x"
    using same [OF r(1,2)] by (auto simp: lives_on_def same_origin_def same_run_def bound_status_def)
  have rm: "r \<in> set (cr_dispatches d)" "cd_dispatch_id r = cd_dispatch_id x" using find_dispatch_mem [OF r(1)] by simp_all
  have fj: "find_job d' = find_job d" by (simp add: find_job_def r(4) fun_eq_iff)
  have "\<exists>j. find_job d (cd_job_id y) = Some j \<and> (bound_status (cd_status y) \<longrightarrow>
      cj_current_dispatch_id j = Some (cd_dispatch_id y) \<and> cj_current_run_id j = cd_run_id y)"
    if y: "y \<in> set (cr_dispatches d')" for y
  proof (cases "y = x")
    case True
    obtain j where "find_job d (cd_job_id r) = Some j" "bound_status (cd_status r) \<longrightarrow>
        cj_current_dispatch_id j = Some (cd_dispatch_id r) \<and> cj_current_run_id j = cd_run_id r"
      using cron_okD(4) [OF ok] rm(1) unfolding linked_def by blast
    then show ?thesis using True s rm(2) by auto
  next
    case False
    then show ?thesis using cron_okD(4) [OF ok] y unfolding linked_def r(8) by blast
  qed
  then have "linked d'" unfolding linked_def fj by blast
  moreover have "held d'"
  proof -
    have "\<exists>y. find_dispatch d' i = Some y \<and> cd_job_id y = cd_job_id z \<and> bound_status (cd_status y)"
      if "find_dispatch d i = Some z" "bound_status (cd_status z)" for i z
      using that s r(1) by (cases "i = cd_dispatch_id x") (auto simp: r(3))
    then show ?thesis using cron_okD(5) [OF ok] unfolding held_def r(4) by metis
  qed
  moreover have "\<forall>y \<in> set (cr_dispatches d'). sound_dispatch y"
    using cron_okD(7) [OF ok] new(1) by (auto simp: r(8))
  ultimately have "cron_ok d'" using ok r(4,6) by (simp add: cron_ok_def)
  moreover have "grows d d'"
    using r(1,2,3) new(2) s(4) by (auto simp: grows_def tracks_def fj dispatch_moves_def)
  ultimately show ?thesis by simp
qed

text \<open>Both rows: a claimed dispatch is bound to its job, or a bound one is released.\<close>

lemma both_write:
  assumes ok: "cron_ok d" and w: "replace_both x n j m d = Inr d'"
    and new: "sound_dispatch x" "valid_job j" "cd_revision x = n + 1" "cj_revision j = m + 1"
    and same: "\<And>r. find_dispatch d (cd_dispatch_id x) = Some r \<Longrightarrow> cd_revision r = n \<Longrightarrow>
      cd_job_id r = cj_job_id j \<and> is_active_status (cd_status r) \<and> lives_on r x"
    and link: "if bound_status (cd_status x)
      then cj_current_dispatch_id j = Some (cd_dispatch_id x) \<and> cj_current_run_id j = cd_run_id x
      else cj_current_dispatch_id j = None \<and> cj_current_run_id j = None"
  shows "cron_ok d' \<and> grows d d'"
proof -
  obtain d1 where w1: "replace_dispatch x n d = Inr d1" and w2: "replace_job j m d1 = Inr d'"
    using w by (auto simp: replace_both_def result_simps)
  obtain r where r: "find_dispatch d (cd_dispatch_id x) = Some r" "cd_revision r = n"
    "\<And>i. find_dispatch d1 i = (if i = cd_dispatch_id x then Some x else find_dispatch d i)"
    "cr_jobs d1 = cr_jobs d" "cr_heartbeat d1 = cr_heartbeat d" "dispatch_index_ok (cr_dispatches d1)"
    "map cd_dispatch_id (cr_dispatches d1) = map cd_dispatch_id (cr_dispatches d)"
    "\<And>y. y \<in> set (cr_dispatches d1) \<longleftrightarrow> y = x \<or> y \<in> set (cr_dispatches d) \<and> cd_dispatch_id y \<noteq> cd_dispatch_id x"
    using replace_dispatch_Inr [OF w1 cron_okD(3) [OF ok]] by blast
  have d1: "distinct (map cj_job_id (cr_jobs d1))" using cron_okD(1) [OF ok] by (simp add: r(4))
  obtain k where k: "find_job d1 (cj_job_id j) = Some k" "cj_revision k = m"
    "\<And>i. find_job d' i = (if i = cj_job_id j then Some j else find_job d1 i)"
    "cr_dispatches d' = cr_dispatches d1" "cr_heartbeat d' = cr_heartbeat d1"
    "map cj_job_id (cr_jobs d') = map cj_job_id (cr_jobs d1)" "set (cr_jobs d') \<subseteq> insert j (set (cr_jobs d1))"
    using replace_job_Inr [OF w2 d1] by blast
  have fj: "find_job d1 = find_job d" by (simp add: find_job_def r(4) fun_eq_iff)
  have fd: "find_dispatch d' = find_dispatch d1" by (simp add: find_dispatch_def k(4) fun_eq_iff)
  have s: "cd_job_id x = cj_job_id j" "cd_job_id r = cj_job_id j" "is_active_status (cd_status r)" "lives_on r x"
    using same [OF r(1,2)] by (auto simp: lives_on_def same_origin_def)
  have rm: "r \<in> set (cr_dispatches d)" "cd_dispatch_id r = cd_dispatch_id x" using find_dispatch_mem [OF r(1)] by simp_all
  have free: "\<not> bound_status (cd_status y)"
    if "y \<in> set (cr_dispatches d)" "cd_dispatch_id y \<noteq> cd_dispatch_id x" "cd_job_id y = cj_job_id j" for y
    using one_active [OF ok that(1) rm(1)] that s rm(2) bound_is_active by auto
  have "linked d'"
    unfolding linked_def k(4)
  proof
    fix y assume "y \<in> set (cr_dispatches d1)"
    then consider "y = x" | "y \<in> set (cr_dispatches d)" "cd_dispatch_id y \<noteq> cd_dispatch_id x" using r(8) by blast
    then show "\<exists>j. find_job d' (cd_job_id y) = Some j \<and> (bound_status (cd_status y) \<longrightarrow>
        cj_current_dispatch_id j = Some (cd_dispatch_id y) \<and> cj_current_run_id j = cd_run_id y)"
    proof cases
      case 1
      then show ?thesis using s(1) link k(3) by simp
    next
      case 2
      then show ?thesis
        using cron_okD(4) [OF ok] free [OF 2] unfolding linked_def k(3) fj by (cases "cd_job_id y = cj_job_id j") auto
    qed
  qed
  moreover have "held d'"
    unfolding held_def fd
  proof
    fix i assume i: "i \<in> set (cr_jobs d')"
    show "(cj_current_dispatch_id i = None \<longrightarrow> cj_current_run_id i = None) \<and>
        (\<forall>c. cj_current_dispatch_id i = Some c \<longrightarrow>
          (\<exists>y. find_dispatch d1 c = Some y \<and> cd_job_id y = cj_job_id i \<and> bound_status (cd_status y)))"
    proof (cases "cj_job_id i = cj_job_id j")
      case True
      have "distinct (map cj_job_id (cr_jobs d'))" using d1 k(6) by simp
      then have "find_job d' (cj_job_id i) = Some i" unfolding find_job_def using i by (rule lookup_row_distinct)
      then have "i = j" using True k(3) by simp
      then show ?thesis using link s(1) r(3) by (auto split: if_splits)
    next
      case False
      then have o: "i \<in> set (cr_jobs d)" using i k(7) r(4) by auto
      have "\<exists>y. find_dispatch d1 c = Some y \<and> cd_job_id y = cj_job_id i \<and> bound_status (cd_status y)"
        if c: "cj_current_dispatch_id i = Some c" for c
      proof -
        obtain y where y: "find_dispatch d c = Some y" "cd_job_id y = cj_job_id i" "bound_status (cd_status y)"
          using heldD [OF cron_okD(5) [OF ok] o c] by blast
        then have "c \<noteq> cd_dispatch_id x" using r(1) s(2) False by auto
        then show ?thesis using y r(3) by simp
      qed
      then show ?thesis using cron_okD(5) [OF ok] o unfolding held_def by blast
    qed
  qed
  moreover have "\<forall>y \<in> set (cr_dispatches d'). sound_dispatch y"
    using cron_okD(7) [OF ok] new(1) by (auto simp: r(8) k(4))
  moreover have "\<forall>i \<in> set (cr_jobs d'). valid_job i" using k(7) r(4) new(2) cron_okD(6) [OF ok] by auto
  ultimately have "cron_ok d'" using d1 k(6) r(6) by (simp add: cron_ok_def k(4))
  moreover have "grows d d'"
    using r(1,2,3) k(1,2,3) new(3,4) s(4)
    by (auto simp: grows_def tracks_def fj fd job_moves_def dispatch_moves_def)
  ultimately show ?thesis by simp
qed

text \<open>New dispatches that are not active.\<close>

lemma append_dispatch:
  assumes ok: "cron_ok d" and w: "insert_dispatch x d = Inr d'"
    and new: "sound_dispatch x" "\<not> is_active_status (cd_status x)"
  shows "cron_ok d' \<and> grows d d' \<and> cr_jobs d' = cr_jobs d"
proof -
  have d': "d' = d\<lparr>cr_dispatches := cr_dispatches d @ [x]\<rparr>" and ix: "dispatch_index_ok (cr_dispatches d @ [x])"
    and j: "find_job d (cd_job_id x) \<noteq> None"
    using w by (auto simp: insert_dispatch_def split: if_splits option.splits)
  have fj: "find_job d' = find_job d" by (simp add: find_job_def d' fun_eq_iff)
  have fd: "find_dispatch d' i = Some y" if "find_dispatch d i = Some y" for i y
    using that by (simp add: find_dispatch_def d')
  have "linked d'"
    using cron_okD(4) [OF ok] j new(2) bound_is_active unfolding linked_def fj by (auto simp: d')
  moreover have "held d'"
    using cron_okD(5) [OF ok] fd unfolding held_def by (simp add: d') metis
  ultimately have "cron_ok d'" using ok ix new(1) by (simp add: cron_ok_def d')
  moreover have "grows d d'"
    using fd by (auto simp: grows_def tracks_def fj)
  ultimately show ?thesis by (simp add: d')
qed

lemma append_dispatches:
  "insert_dispatches xs d = Inr d' \<Longrightarrow> cron_ok d \<Longrightarrow> \<forall>x \<in> set xs. sound_dispatch x \<and> \<not> is_active_status (cd_status x) \<Longrightarrow>
    cron_ok d' \<and> grows d d' \<and> cr_jobs d' = cr_jobs d"
proof (induction xs d rule: insert_dispatches.induct)
  case (2 x xs d)
  then obtain d1 where d1: "insert_dispatch x d = Inr d1" "insert_dispatches xs d1 = Inr d'" by (auto simp: result_simps)
  have a: "cron_ok d1 \<and> grows d d1 \<and> cr_jobs d1 = cr_jobs d" using append_dispatch [OF 2(3) d1(1)] 2(4) by simp
  then have "cron_ok d' \<and> grows d1 d' \<and> cr_jobs d' = cr_jobs d1" using 2(1) [OF d1(2)] 2(4) by simp
  then show ?case using a grows_trans by metis
qed simp

end
