(* ===== verification/Cron_Histories.thy ===== *)
theory Cron_Histories
  imports Cron_Safety
begin

section \<open>Laws of the Cron repository\<close>

text \<open>
  Every method keeps the invariant, also when it read its rows in an earlier database of the history. What follows
  for the dispatches: they are valid documents, run one at a time per job, move only forward, and are bound once.
\<close>

subsection \<open>Methods\<close>

definition sees :: "cron_db \<Rightarrow> cron_db \<Rightarrow> bool" where
  "sees d0 d \<longleftrightarrow> cron_ok d0 \<and> cron_ok d \<and> grows d0 d"

definition kept :: "cron_db \<Rightarrow> cron_db \<Rightarrow> bool" where
  "kept d d' \<longleftrightarrow> cron_ok d' \<and> grows d d'"

lemma kept_refl: "sees d0 d \<Longrightarrow> kept d d"
  by (simp add: sees_def kept_def)

lemma job_Inr: "job d i = Inr j \<Longrightarrow> find_job d i = Some j \<and> cj_job_id j = i \<and> valid_job j"
  using find_job_mem by (auto simp: job_def read_job_def result_simps split: if_splits)

lemma dispatch_of_Inr: "dispatch_of d i = Inr x \<Longrightarrow> find_dispatch d i = Some x \<and> cd_dispatch_id x = i \<and> valid_dispatch x"
  using find_dispatch_mem by (auto simp: dispatch_of_def read_dispatch_def result_simps split: if_splits)

lemma save_known:
  assumes "sees d0 d" "find_job d0 (cj_job_id k) = Some j" "replace_job k (cj_revision j) d = Inr d'"
    and "valid_job k" "cj_revision k = cj_revision j + 1"
    and "cj_current_dispatch_id k = cj_current_dispatch_id j" "cj_current_run_id k = cj_current_run_id j"
  shows "kept d d'"
  unfolding kept_def
proof (rule job_write [OF _ assms(3-5)])
  show "cron_ok d" using assms(1) by (simp add: sees_def)
  show "cj_current_dispatch_id k = cj_current_dispatch_id r \<and> cj_current_run_id k = cj_current_run_id r"
    if "find_job d (cj_job_id k) = Some r" "cj_revision r = cj_revision j" for r
    using grows_job [OF _ assms(2) that(1)] that(2) assms(1,6,7) by (simp add: sees_def)
qed

lemma write_known:
  assumes "sees d0 d" "find_dispatch d0 (cd_dispatch_id y) = Some x" "replace_dispatch y (cd_revision x) d = Inr d'"
    and "sound_dispatch y" "cd_revision y = cd_revision x + 1"
    and "bound_status (cd_status y) = bound_status (cd_status x)" "lives_on x y"
  shows "kept d d'"
  unfolding kept_def
proof (rule dispatch_write [OF _ assms(3-5)])
  show "cron_ok d" using assms(1) by (simp add: sees_def)
  show "bound_status (cd_status y) = bound_status (cd_status r) \<and> lives_on r y"
    if "find_dispatch d (cd_dispatch_id y) = Some r" "cd_revision r = cd_revision x" for r
    using grows_dispatch [OF _ assms(2) that(1)] that(2) assms(1,6,7) by (simp add: sees_def)
qed

lemma write_both_known:
  assumes "sees d0 d" "find_dispatch d0 (cd_dispatch_id y) = Some x"
    and "replace_both y (cd_revision x) k m d = Inr d'"
    and "sound_dispatch y" "valid_job k" "cd_revision y = cd_revision x + 1" "cj_revision k = m + 1"
    and "cd_job_id x = cj_job_id k" "is_active_status (cd_status x)" "lives_on x y"
    and "if bound_status (cd_status y)
      then cj_current_dispatch_id k = Some (cd_dispatch_id y) \<and> cj_current_run_id k = cd_run_id y
      else cj_current_dispatch_id k = None \<and> cj_current_run_id k = None"
  shows "kept d d'"
  unfolding kept_def
proof (rule both_write [OF _ assms(3-7) _ assms(11)])
  show "cron_ok d" using assms(1) by (simp add: sees_def)
  show "cd_job_id r = cj_job_id k \<and> is_active_status (cd_status r) \<and> lives_on r y"
    if "find_dispatch d (cd_dispatch_id y) = Some r" "cd_revision r = cd_revision x" for r
    using grows_dispatch [OF _ assms(2) that(1)] that(2) assms(1,8,9,10) by (simp add: sees_def)
qed

lemma life_rank_4: "life_rank s = 4 \<longleftrightarrow> s \<in> {Succeeded, DispatchFailed, Cancelled, Skipped}"
  by (cases s) auto

lemmas dispatch_simps = sound_dispatch_def valid_dispatch_def bound_status_def lives_on_def same_origin_def same_run_def is_active_status_def

lemma first_pending_mem:
  assumes "first_pending d i = Some x"
  shows "x \<in> set (cr_dispatches d) \<and> cd_job_id x = i \<and> cd_status x = Pending"
proof -
  let ?xs = "sort_key cd_created_at (filter (\<lambda>x. cd_job_id x = i \<and> cd_status x = Pending) (cr_dispatches d))"
  have "x \<in> set ?xs" using assms unfolding first_pending_def by (cases ?xs) simp_all
  then show ?thesis by simp
qed

lemma kept_claim_next:
  assumes "sees d0 d" "claim_next i epoch lease token now d = Inr (d', c)"
  shows "kept d d'"
proof -
  have ok: "sees d d" using assms(1) by (simp add: sees_def)
  from assms(2) consider "d' = d"
    | x where "first_pending d i = Some x" "valid_dispatch x"
        "replace_dispatch (claimed_dispatch x token epoch now lease) (cd_revision x) d = Inr d'"
    by (auto simp: claim_next_def Let_def read_dispatch_def result_simps split: option.splits if_splits)
  then show ?thesis
  proof cases
    case 1
    then show ?thesis using kept_refl ok by simp
  next
    case 2
    have x: "x \<in> set (cr_dispatches d)" "cd_status x = Pending" using first_pending_mem [OF 2(1)] by simp_all
    then have "find_dispatch d (cd_dispatch_id x) = Some x" using find_dispatch_own ok by (simp add: sees_def)
    moreover have "cd_run_id x = None" using ok x cron_okD(7) by (simp add: sees_def sound_dispatch_def)
    ultimately show ?thesis
      using 2(2) x(2) by (intro write_known [OF ok _ 2(3)]) (auto simp: claimed_dispatch_def dispatch_simps)
  qed
qed

lemma kept_mark_terminal:
  assumes "sees d0 d" "mark_terminal d0 i status res err completed_at now d = Inr (d', x)"
    and "status \<in> {Succeeded, DispatchFailed}"
  shows "kept d d'"
proof (cases "d' = d")
  case False
  then obtain s j where s: "dispatch_of d0 i = Inr s" "cd_status s \<in> {Running, RecoveryRequired}"
    and j: "job d0 (cd_job_id s) = Inr j"
    and w: "replace_both (finished_dispatch s status res err (case completed_at of None \<Rightarrow> utc_iso now | Some t \<Rightarrow> t))
      (cd_revision s) (finished_job j s status err (case completed_at of None \<Rightarrow> utc_iso now | Some t \<Rightarrow> t)) (cj_revision j) d = Inr d'"
    using assms(2) by (auto simp: mark_terminal_def Let_def result_simps split: if_splits)
  show ?thesis
    using dispatch_of_Inr [OF s(1)] job_Inr [OF j] s(2) assms(3)
    by (intro write_both_known [OF assms(1) _ w])
      (auto simp: finished_dispatch_def finished_job_def Let_def dispatch_simps valid_job_def)
qed (use assms(1) kept_refl in simp)

lemma kept_bind_running:
  assumes "sees d0 d" "bind_running d0 i token session run operation attempt now d = Inr (d', x)"
    and "session \<noteq> []" "run \<noteq> []" "operation \<noteq> []" "attempt \<noteq> []"
  shows "kept d d'"
proof -
  obtain s j where s: "dispatch_of d0 i = Inr s" "cd_status s = Claimed" and j: "job d0 (cd_job_id s) = Inr j"
    and w: "replace_both (bound_dispatch s session run operation attempt now) (cd_revision s) (bound_job j s run now) (cj_revision j) d = Inr d'"
    using assms(2) by (auto simp: bind_running_def Let_def result_simps split: if_splits)
  show ?thesis
    using dispatch_of_Inr [OF s(1)] job_Inr [OF j] s(2) assms(3-6)
    by (intro write_both_known [OF assms(1) _ w])
      (auto simp: bound_dispatch_def bound_job_def Let_def dispatch_simps valid_job_def)
qed

lemma kept_cancel_unbound:
  assumes "sees d0 d" "cancel_unbound d0 i reason now d = Inr (d', x)"
  shows "kept d d'"
proof (cases "d' = d")
  case False
  then obtain s where s: "dispatch_of d0 i = Inr s" "cd_status s \<in> {Pending, Claimed}"
    and w: "replace_dispatch (s\<lparr>cd_status := Cancelled, cd_error := Some reason, cd_completed_at := Some (utc_iso now),
             cd_revision := cd_revision s + 1\<rparr>) (cd_revision s) d = Inr d'"
    using assms(2) by (auto simp: cancel_unbound_def Let_def result_simps split: if_splits)
  show ?thesis
    using dispatch_of_Inr [OF s(1)] s(2) by (intro write_known [OF assms(1) _ w]) (auto simp: dispatch_simps)
qed (use assms(1) kept_refl in simp)

lemma kept_recovery:
  assumes "sees d0 d" "mark_recovery_required d0 i reason d = Inr (d', x)"
  shows "kept d d'"
proof (cases "d' = d")
  case False
  then obtain s where s: "dispatch_of d0 i = Inr s" "cd_status s \<in> {Running, RecoveryRequired}"
    and w: "replace_dispatch (s\<lparr>cd_status := RecoveryRequired, cd_error := Some reason,
             cd_revision := cd_revision s + 1\<rparr>) (cd_revision s) d = Inr d'"
    using assms(2) by (auto simp: mark_recovery_required_def Let_def result_simps split: if_splits)
  show ?thesis
    using dispatch_of_Inr [OF s(1)] s(2) by (intro write_known [OF assms(1) _ w]) (auto simp: dispatch_simps)
qed (use assms(1) kept_refl in simp)

lemma kept_due_materialize:
  assumes "sees d0 d" "find_job d0 (cj_job_id j) = Some j" "valid_job j" "due_materialize j xs next_run now d = Inr d'"
    and "\<forall>x \<in> set xs. sound_dispatch x \<and> \<not> is_active_status (cd_status x)"
  shows "kept d d'"
proof -
  obtain d1 where d1: "insert_dispatches xs d = Inr d1"
    and w: "replace_job (j\<lparr>cj_next_run_at := next_run, cj_missed_count := cj_missed_count j + skipped_total (\<lambda>_. True) xs,
           cj_overlap_skipped := cj_overlap_skipped j + skipped_total (\<lambda>x. cd_error x = Some ''overlap_skipped'') xs,
           cj_updated_at := now, cj_revision := cj_revision j + 1\<rparr>) (cj_revision j) d1 = Inr d'"
    using assms(4) by (auto simp: due_materialize_def Let_def result_simps)
  have a: "cron_ok d1 \<and> grows d d1" using append_dispatches [OF d1 _ assms(5)] assms(1) by (simp add: sees_def)
  then have "sees d0 d1" using assms(1) grows_trans unfolding sees_def by blast
  then have "kept d1 d'" using assms(2,3) by (intro save_known [OF _ _ w]) (auto simp: valid_job_def)
  then show ?thesis using a grows_trans unfolding kept_def by blast
qed

lemma plain_dispatch_ok: "sound_dispatch (plain_dispatch i j n t f h now) = (1 \<le> n)"
  "\<not> is_active_status (cd_status (plain_dispatch i j n t f h now))"
  by (auto simp: plain_dispatch_def sound_dispatch_def valid_dispatch_def is_active_status_def)

lemma new_dispatch_ok:
  "1 \<le> cj_revision j \<Longrightarrow> 1 \<le> n \<Longrightarrow> sound_dispatch (new_dispatch L E j u t n now)"
  "\<not> is_active_status (cd_status (new_dispatch L E j u t n now))"
  "1 \<le> cj_revision j \<Longrightarrow> 1 \<le> n \<Longrightarrow> sound_dispatch (skipped_dispatch (new_dispatch L E j u t n now) why now2)"
  "\<not> is_active_status (cd_status (skipped_dispatch (new_dispatch L E j u t n now) why now2))"
  by (auto simp: new_dispatch_def skipped_dispatch_def plain_dispatch_def sound_dispatch_def valid_dispatch_def is_active_status_def)

lemma plan_ok:
  assumes "materialize_plan L E ids j now pending occ cursor = (xs, next_run)" "occ \<noteq> []" "valid_job j"
  shows "\<forall>x \<in> set xs. sound_dispatch x \<and> \<not> is_active_status (cd_status x)"
  using assms new_dispatch_ok
  by (auto simp: materialize_plan_def Let_def valid_job_def Suc_le_eq split: if_splits MisfirePolicy.splits)

lemma kept_materialize_due:
  assumes "sees d0 d" "j \<in> set (cr_jobs d0)" "materialize_due L E ids j now d0 d = Inr d'"
  shows "kept d d'"
proof (cases "d' = d")
  case False
  have j: "find_job d0 (cj_job_id j) = Some j" "valid_job j"
    using assms(1,2) find_job_own cron_okD(6) unfolding sees_def by blast+
  obtain occ cursor pending xs next_run where o: "occ \<noteq> []"
    "materialize_plan L E ids j now pending occ cursor = (xs, next_run)" "due_materialize j xs next_run (utc_iso now) d = Inr d'"
    using assms(3) False
    by (auto simp: materialize_due_def Let_def result_simps split: option.splits if_splits prod.splits)
  show ?thesis using kept_due_materialize [OF assms(1) j o(3) plan_ok [OF o(2,1) j(2)]] .
qed (use assms(1) kept_refl in simp)

lemma kept_trigger:
  assumes "sees d0 d" "trigger_job L E d0 i uuid now d = Inr d'"
  shows "kept d d'"
proof -
  obtain j x where j: "job d0 i = Inr j" "due_materialize j [x] (cj_next_run_at j) (utc_iso now) d = Inr d'"
    "sound_dispatch x \<and> \<not> is_active_status (cd_status x)"
    using assms(2) plain_dispatch_ok job_Inr
    by (fastforce simp: trigger_job_def Let_def result_simps valid_job_def split: if_splits)
  then show ?thesis using job_Inr [OF j(1)] by (intro kept_due_materialize [OF assms(1) _ _ j(2)]) auto
qed

lemma kept_retry:
  assumes "sees d0 d" "retry_dispatch L E d0 i uuid now d = Inr d'"
  shows "kept d d'"
proof -
  obtain s j x where s: "dispatch_of d0 i = Inr s" "job d0 (cd_job_id s) = Inr j"
    "due_materialize j [x] (cj_next_run_at j) (utc_iso now) d = Inr d'"
    and x: "x = (plain_dispatch (''cron_dispatch_'' @ uuid) (cd_job_id s) (cd_job_revision s) Retry
        (cd_job_snapshot s) (sha256 E (''retry:'' @ cd_dispatch_id s @ '':'' @ cl_text L (utc_iso now))) (utc_iso now))
        \<lparr>cd_retry_of_dispatch_id := Some (cd_dispatch_id s)\<rparr>"
    using assms(2) by (auto simp: retry_dispatch_def Let_def result_simps split: if_splits)
  have "sound_dispatch x \<and> \<not> is_active_status (cd_status x)"
    using dispatch_of_Inr [OF s(1)] by (auto simp: x plain_dispatch_def sound_dispatch_def valid_dispatch_def is_active_status_def)
  then show ?thesis using job_Inr [OF s(2)] by (intro kept_due_materialize [OF assms(1) _ _ s(3)]) auto
qed

lemma kept_new_job:
  assumes "cron_ok d" "find_job d (cj_job_id j) = None" "valid_job j"
    and "cj_current_dispatch_id j = None" "cj_current_run_id j = None" "save_job j None d = Inr d'"
  shows "kept d d'"
proof -
  have fresh: "cj_job_id j \<notin> cj_job_id ` set (cr_jobs d)"
    using assms(2) by (simp add: find_job_def lookup_row_None_iff)
  have d': "d' = d\<lparr>cr_jobs := cr_jobs d @ [j]\<rparr>"
    using assms(6) row_table.upsert_fresh [OF row_table_replace fresh] by (simp add: save_job_def insert_job_def)
  have fj: "find_job d' i = Some k" if "find_job d i = Some k" for i k using that by (simp add: find_job_def d')
  have fd: "find_dispatch d' = find_dispatch d" by (simp add: find_dispatch_def d' fun_eq_iff)
  have "linked d'" using cron_okD(4) [OF assms(1)] fj unfolding linked_def by (simp add: d') blast
  moreover have "held d'" using cron_okD(5) [OF assms(1)] assms(4,5) unfolding held_def fd by (auto simp: d')
  ultimately have "cron_ok d'" using assms(1,3) fresh by (simp add: cron_ok_def d')
  moreover have "grows d d'" using fj by (auto simp: grows_def tracks_def fd)
  ultimately show ?thesis by (simp add: kept_def)
qed

lemma strip_length: "length (strip_text v) \<le> length v"
  unfolding strip_text_def by (simp add: le_trans [OF length_dropWhile_le] length_dropWhile_le)

lemma validate_schedule_ok: "validate_schedule L s now = Inr t \<Longrightarrow> valid_schedule s \<Longrightarrow> valid_schedule t"
  by (auto simp: validate_schedule_def validate_expression_def make_schedule_def Let_def result_simps split: if_splits)

lemma profile_ok:
  assumes "profile_of requested grants previous = Inr p"
    and "\<And>r. requested = Some r \<Longrightarrow> valid_profile r" "\<And>r. previous = Some r \<Longrightarrow> valid_profile r"
  shows "valid_profile p"
proof -
  have "valid_profile default_profile" by (simp add: valid_profile_def default_profile_def valid_limits_def default_limits_def)
  then show ?thesis
    using assms by (auto simp: profile_of_def Let_def result_simps valid_profile_def split: option.splits)
qed

text \<open>
  What the request model guarantees of an edit, and that the name and the prompt it leaves are not blank: the
  method does not check the latter (\<open>blank_name_stops_cron\<close> below).
\<close>

definition sound_edit :: "CronJobEditRequest \<Rightarrow> CronJob \<Rightarrow> bool" where
  "sound_edit q j \<longleftrightarrow>
     (case ce_name q of None \<Rightarrow> strip_text (cj_name j) \<noteq> [] | Some n \<Rightarrow> strip_text n \<noteq> [] \<and> length n \<le> 120) \<and>
     (case ce_prompt q of None \<Rightarrow> strip_text (cj_prompt j) \<noteq> [] | Some t \<Rightarrow> strip_text t \<noteq> [] \<and> length t \<le> 20000) \<and>
     (case ce_schedule q of None \<Rightarrow> True | Some s \<Rightarrow> valid_schedule s) \<and>
     (case ce_runtime_profile q of None \<Rightarrow> True | Some p \<Rightarrow> valid_profile p)"

lemma kept_edit:
  assumes "sees d0 d" "edit L d0 i q now d = Inr (d', x)" "\<And>j. find_job d0 i = Some j \<Longrightarrow> sound_edit q j"
  shows "kept d d'"
proof -
  obtain j s p next_run where j: "job d0 i = Inr j"
    and s: "(case ce_schedule q of None \<Rightarrow> Inr (cj_schedule j) | Some s \<Rightarrow> validate_schedule L s now) = Inr s"
    and p: "profile_of (ce_runtime_profile q) (ce_preapproved_tools q) (Some (cj_runtime_profile j)) = Inr p"
    and w: "replace_job (edited_job j q s p next_run now) (cj_revision j) d = Inr d'"
    using assms(2) by (auto simp: edit_def Let_def result_simps save_job_def split: if_splits)
  note J = job_Inr [OF j]
  have q: "sound_edit q j" using assms(3) J by simp
  have "valid_schedule s" using s q J validate_schedule_ok
    by (auto simp: sound_edit_def valid_job_def split: option.splits)
  moreover have "valid_profile p"
    using q J by (intro profile_ok [OF p]) (auto simp: sound_edit_def valid_job_def)
  moreover have "length (strip_text v) \<le> n" if "length v \<le> n" for v n using that strip_length le_trans by blast
  ultimately have "valid_job (edited_job j q s p next_run now)"
    using J q by (auto simp: valid_job_def edited_job_def sound_edit_def split: option.splits)
  then show ?thesis using J by (intro save_known [OF assms(1) _ w]) (auto simp: edited_job_def)
qed

lemma kept_job_states:
  assumes "sees d0 d"
  shows "pause_job d0 i now d = Inr (d', x) \<Longrightarrow> kept d d'" "resume_job L d0 i now d = Inr (d', x) \<Longrightarrow> kept d d'"
    "remove_job d0 i now d = Inr (d', x) \<Longrightarrow> kept d d'"
proof -
  have go: "kept d d'"
    if "job d0 i = Inr j" "replace_job k (cj_revision j) d = Inr d'" "valid_job j \<Longrightarrow> valid_job k" "cj_revision k = cj_revision j + 1"
      "cj_job_id k = cj_job_id j" "cj_current_dispatch_id k = cj_current_dispatch_id j" "cj_current_run_id k = cj_current_run_id j"
    for j k d' using that job_Inr [OF that(1)] by (intro save_known [OF assms _ that(2)]) auto
  show "pause_job d0 i now d = Inr (d', x) \<Longrightarrow> kept d d'"
    by (auto simp: pause_job_def Let_def result_simps save_job_def valid_job_def split: if_splits intro: go)
  show "resume_job L d0 i now d = Inr (d', x) \<Longrightarrow> kept d d'"
    by (auto simp: resume_job_def Let_def result_simps save_job_def valid_job_def split: if_splits intro: go)
  show "remove_job d0 i now d = Inr (d', x) \<Longrightarrow> kept d d'"
    using kept_refl [OF assms]
    by (auto simp: remove_job_def Let_def result_simps save_job_def valid_job_def split: if_splits intro: go)
qed

lemma kept_create:
  assumes "cron_ok d" "create L q uuid now d = Inr (d', x)" "find_job d (''cron_'' @ uuid) = None"
  shows "kept d d'"
proof -
  obtain j where "valid_job j" "cj_job_id j = ''cron_'' @ uuid" "save_job j None d = Inr d'"
    "cj_current_dispatch_id j = None" "cj_current_run_id j = None"
    using assms(2) by (auto simp: create_def read_job_def new_job_def result_simps split: if_splits)
  then show ?thesis using kept_new_job [OF assms(1)] assms(3) by metis
qed

lemma kept_preset:
  assumes "cron_ok d" "ensure_paper_research_preset L E name prompt project expression zone now d = Inr (d', x)"
  shows "kept d d'"
proof (cases "d' = d")
  case False
  let ?i = "''cron_paper_research_'' @ take 16 (sha256 E (project @ '':paper-research''))"
  obtain k where k: "job d ?i = Inl (KeyError k)"
    using assms(2) False by (auto simp: ensure_paper_research_preset_def Let_def split: sum.splits error.splits)
  then have "find_job d ?i = None" by (auto simp: job_def read_job_def result_simps split: if_splits)
  moreover obtain j where "valid_job j" "cj_job_id j = ?i" "save_job j None d = Inr d'"
    "cj_current_dispatch_id j = None" "cj_current_run_id j = None"
    using assms(2) k
    by (auto simp: ensure_paper_research_preset_def Let_def read_job_def new_job_def result_simps split: if_splits)
  ultimately show ?thesis using kept_new_job [OF assms(1)] by metis
qed (use assms(1) in \<open>simp add: kept_def\<close>)

lemma kept_heartbeat:
  assumes "cron_ok d"
  shows "kept d (set_heartbeat h d)"
proof -
  have "find_job (set_heartbeat h d) = find_job d" "find_dispatch (set_heartbeat h d) = find_dispatch d"
    by (simp_all add: find_job_def find_dispatch_def set_heartbeat_def fun_eq_iff)
  then show ?thesis
    using assms by (simp add: kept_def cron_ok_def linked_def held_def grows_def tracks_def set_heartbeat_def)
qed

subsection \<open>Histories\<close>

text \<open>\<open>cron_step L E d0 d d'\<close>: one transaction leads from \<open>d\<close> to \<open>d'\<close>; its method read its rows in \<open>d0\<close>.\<close>

inductive cron_step :: "calendar \<Rightarrow> env \<Rightarrow> cron_db \<Rightarrow> cron_db \<Rightarrow> cron_db \<Rightarrow> bool" for L :: calendar and E :: env where
  job_created: "find_job d (''cron_'' @ uuid) = None \<Longrightarrow> create L q uuid now d = Inr (d', x) \<Longrightarrow> cron_step L E d0 d d'"
| preset_ensured: "ensure_paper_research_preset L E name prompt project expression zone now d = Inr (d', x) \<Longrightarrow>
    cron_step L E d0 d d'"
| job_edited: "(\<And>j. find_job d0 i = Some j \<Longrightarrow> sound_edit q j) \<Longrightarrow> edit L d0 i q now d = Inr (d', x) \<Longrightarrow> cron_step L E d0 d d'"
| job_paused: "pause_job d0 i now d = Inr (d', x) \<Longrightarrow> cron_step L E d0 d d'"
| job_resumed: "resume_job L d0 i now d = Inr (d', x) \<Longrightarrow> cron_step L E d0 d d'"
| job_removed: "remove_job d0 i now d = Inr (d', x) \<Longrightarrow> cron_step L E d0 d d'"
| job_triggered: "trigger_job L E d0 i uuid now d = Inr d' \<Longrightarrow> cron_step L E d0 d d'"
| dispatch_retried: "retry_dispatch L E d0 i uuid now d = Inr d' \<Longrightarrow> cron_step L E d0 d d'"
| periods_materialized: "j \<in> set (cr_jobs d0) \<Longrightarrow> materialize_due L E ids j now d0 d = Inr d' \<Longrightarrow> cron_step L E d0 d d'"
| dispatch_claimed: "claim_next i epoch lease token now d = Inr (d', c) \<Longrightarrow> cron_step L E d0 d d'"
| dispatch_bound: "bind_running d0 i token session run operation attempt now d = Inr (d', x) \<Longrightarrow> session \<noteq> [] \<Longrightarrow>
    run \<noteq> [] \<Longrightarrow> operation \<noteq> [] \<Longrightarrow> attempt \<noteq> [] \<Longrightarrow> cron_step L E d0 d d'"
| dispatch_finished: "mark_terminal d0 i status res err completed_at now d = Inr (d', x) \<Longrightarrow>
    status \<in> {Succeeded, DispatchFailed} \<Longrightarrow> cron_step L E d0 d d'"
| dispatch_cancelled: "cancel_unbound d0 i reason now d = Inr (d', x) \<Longrightarrow> cron_step L E d0 d d'"
| recovery_marked: "mark_recovery_required d0 i reason d = Inr (d', x) \<Longrightarrow> cron_step L E d0 d d'"
| heartbeat_written: "cron_step L E d0 d (set_heartbeat h d)"

text \<open>The jobs of an imported \<^verbatim>\<open>jobs.json\<close> are valid and run nothing.\<close>

definition imported :: "cron_db \<Rightarrow> bool" where
  "imported d \<longleftrightarrow> distinct (map cj_job_id (cr_jobs d)) \<and> cr_dispatches d = [] \<and>
     list_all (\<lambda>j. valid_job j \<and> cj_current_dispatch_id j = None \<and> cj_current_run_id j = None) (cr_jobs d)"

inductive cron_history :: "calendar \<Rightarrow> env \<Rightarrow> cron_db list \<Rightarrow> bool" for L :: calendar and E :: env where
  history_start: "imported d \<Longrightarrow> cron_history L E [d]"
| history_step: "cron_history L E (d # h) \<Longrightarrow> d0 \<in> set (d # h) \<Longrightarrow> cron_step L E d0 d d' \<Longrightarrow> cron_history L E (d' # d # h)"

lemma kept_step:
  assumes "cron_step L E d0 d d'" "sees d0 d"
  shows "kept d d'"
proof -
  have ok: "cron_ok d" using assms(2) by (simp add: sees_def)
  from assms(1) show ?thesis
  proof cases
    case job_created
    then show ?thesis using kept_create [OF ok] by blast
  next
    case preset_ensured
    then show ?thesis using kept_preset [OF ok] by blast
  next
    case job_edited
    then show ?thesis using kept_edit [OF assms(2)] by blast
  next
    case heartbeat_written
    then show ?thesis using kept_heartbeat [OF ok] by simp
  qed (use assms(2) in \<open>blast intro: kept_job_states kept_trigger kept_retry kept_materialize_due kept_claim_next
      kept_bind_running kept_mark_terminal kept_cancel_unbound kept_recovery\<close>)+
qed

lemma imported_ok: "imported d \<Longrightarrow> cron_ok d"
  by (auto simp: imported_def cron_ok_def dispatch_index_ok_def some_values_def linked_def held_def list_all_iff)

lemma history_ok: "cron_history L E h \<Longrightarrow> h = d # ds \<Longrightarrow> cron_ok d \<and> (\<forall>d0 \<in> set h. cron_ok d0 \<and> grows d0 d)"
proof (induction arbitrary: d ds rule: cron_history.induct)
  case (history_start d)
  then show ?case using imported_ok by simp
next
  case (history_step d1 h d0 d2)
  have ih: "cron_ok d1" "\<And>e. e \<in> set (d1 # h) \<Longrightarrow> cron_ok e \<and> grows e d1" using history_step(4) by blast+
  have "sees d0 d1" using ih history_step(2) by (simp add: sees_def)
  then have k: "cron_ok d2" "grows d1 d2" using kept_step [OF history_step(3)] by (simp_all add: kept_def)
  then have "grows e d2" if "e \<in> set (d1 # h)" for e using ih(2) [OF that] grows_trans by blast
  then show ?case using k(1) ih(2) history_step(5) by auto
qed

end
