(* ===== verification/Cron_Laws.thy ===== *)
theory Cron_Laws
  imports Cron_Histories
begin

section \<open>Properties of the Cron repository\<close>

text \<open>
  What the invariant gives in every history, the accounting of missed periods against the plain sequence of
  periods of a schedule, and inputs on which the code does not do what it means to do.
\<close>

subsection \<open>Every history\<close>

lemma distinct_single:
  assumes "distinct xs" "\<And>x y. x \<in> set xs \<Longrightarrow> y \<in> set xs \<Longrightarrow> x = y"
  shows "length xs \<le> 1"
proof -
  have "set xs \<subseteq> {hd xs}" using assms(2) hd_in_set by (cases xs) auto
  then have "card (set xs) \<le> 1" using card_mono [of "{hd xs}"] by simp
  then show ?thesis using distinct_card [OF assms(1)] by simp
qed

lemma read_all_Inr: "\<forall>x \<in> set xs. f x = Inr x \<Longrightarrow> read_all f xs = Inr xs"
  by (induction xs) auto

lemma jobs_readable:
  assumes "cron_ok d"
  shows "jobs d p b = Inr (sort_key cj_name (sort_key cj_job_id (filter (\<lambda>j.
       (truthy p \<longrightarrow> Some (cj_project_id j) = p) \<and> (b \<or> cj_state j \<noteq> JobDeleted)) (cr_jobs d))))"
  unfolding jobs_def using cron_okD(6) [OF assms] by (intro read_all_Inr) (auto simp: read_job_def)

lemma dispatches_readable:
  assumes "cron_ok d"
  shows "dispatches d i n = Inr (take n (sort_key (\<lambda>x. - cd_created_at x) (filter (\<lambda>x. cd_job_id x = i) (cr_dispatches d))))"
  unfolding dispatches_def using cron_okD(7) [OF assms]
  by (intro read_all_Inr) (auto simp: read_dispatch_def sound_dispatch_def dest!: in_set_takeD)

lemma active_readable:
  assumes "cron_ok d"
  shows "active_dispatches d =
    Inr (sort_key cd_created_at (filter (\<lambda>x. is_active_status (cd_status x)) (cr_dispatches d)))"
  unfolding active_dispatches_def using cron_okD(7) [OF assms]
  by (intro read_all_Inr) (auto simp: read_dispatch_def sound_dispatch_def)

text \<open>
  C37. In every history of any number of writers, as long as no edit leaves a blank name or prompt, every stored
  job and dispatch passes its validator when it is read again, so no listing and no tick fails on a document.
\<close>
theorem cron_documents_are_readable:
  assumes "cron_history L E (d # h)"
  shows "(\<exists>js. jobs d project deleted = Inr js) \<and> (\<exists>xs. dispatches d i limit = Inr xs) \<and>
    (\<exists>xs. active_dispatches d = Inr xs)"
  using history_ok [OF assms refl] jobs_readable dispatches_readable active_readable by blast


text \<open>
  C34. Along every history a dispatch is never lost, keeps the period, snapshot and request it was created with,
  moves only forward from pending over claimed, running and undetermined to a final state, which it keeps, and once
  bound keeps its session, run, operation and attempt: two workers that bind or settle it on what they read
  earlier cannot both succeed.
\<close>
theorem dispatches_only_advance:
  assumes "cron_history L E (d # h)" "d0 \<in> set (d # h)" "find_dispatch d0 i = Some x"
  shows "\<exists>y :: CronDispatch. find_dispatch d i = Some y \<and> (y = x \<or>
    same_origin x y \<and> cd_revision x < cd_revision y \<and>
    life_rank (cd_status x) \<le> life_rank (cd_status y) \<and>
    cd_status x \<notin> {Succeeded, DispatchFailed, Cancelled, Skipped} \<and>
    (cd_status x \<in> {Running, RecoveryRequired} \<longrightarrow> same_run x y))"
proof -
  have "grows d0 d" using history_ok [OF assms(1) refl] assms(2) by blast
  then obtain y where y: "find_dispatch d i = Some y" "y = x \<or> dispatch_moves x y"
    using assms(3) unfolding grows_def tracks_def by blast
  have "life_rank (cd_status x) \<noteq> 4 \<longleftrightarrow> cd_status x \<notin> {Succeeded, DispatchFailed, Cancelled, Skipped}"
    using life_rank_4 by blast
  then show ?thesis using y by (auto simp: dispatch_moves_def lives_on_def)
qed

subsection \<open>Missed periods\<close>

text \<open>The periods of a schedule from an instant on, without clocks, bounds or policies.\<close>

fun period :: "calendar \<Rightarrow> CronSchedule \<Rightarrow> timestamp \<Rightarrow> nat \<Rightarrow> timestamp option" where
  "period L s due 0 = Some due"
| "period L s due (Suc k) =
    (case period L s due k of
       None \<Rightarrow> None
     | Some t \<Rightarrow> (case next_after L s t of Inr (Some u) \<Rightarrow> Some u | _ \<Rightarrow> None))"

lemma period_shift:
  "next_after L s due = Inr (Some t) \<Longrightarrow> period L s t k = period L s due (Suc k)"
  by (induction k) auto

lemma missed_are_periods:
  assumes "missed_occurrences L s now n cursor = Inr (ts, c)"
  shows "length ts \<le> n \<and> (\<forall>k < length ts. period L s cursor k = Some (ts ! k) \<and> ts ! k \<le> now) \<and>
    (if now < c then period L s cursor (length ts) = Some c
     else length ts = n \<or> period L s cursor (length ts) = None)"
  using assms
proof (induction L s now n cursor arbitrary: ts c rule: missed_occurrences.induct)
  case (1 L s now cursor)
  then show ?case by simp
next
  case (2 L s now n cursor)
  show ?case
  proof (cases "now < cursor")
    case False
    then obtain v where v: "next_after L s cursor = Inr v" using 2(2) by (auto simp: result_simps)
    show ?thesis
    proof (cases v)
      case None
      then have "ts = [cursor]" "c = cursor" using 2(2) False v by auto
      then show ?thesis using False None v by simp
    next
      case (Some t)
      then obtain us where us: "missed_occurrences L s now n t = Inr (us, c)" "ts = cursor # us"
        using 2(2) False v by (auto simp: result_simps)
      have ih: "length us \<le> n \<and> (\<forall>k < length us. period L s t k = Some (us ! k) \<and> us ! k \<le> now) \<and>
          (if now < c then period L s t (length us) = Some c else length us = n \<or> period L s t (length us) = None)"
        using 2(1) [OF False us(1)] .
      have p: "period L s t k = period L s cursor (Suc k)" for k using period_shift v Some by simp
      have "period L s cursor k = Some (ts ! k) \<and> ts ! k \<le> now" if "k < length ts" for k
        using that ih p us(2) False by (cases k) auto
      then show ?thesis using ih p us(2) by auto
    qed
  qed (use 2 in simp)
qed

lemma missed_nonempty: "missed_occurrences L s now n c = Inr (occ, c') \<Longrightarrow> c \<le> now \<Longrightarrow> 0 < n \<Longrightarrow> occ \<noteq> []"
  by (cases n) (auto simp: result_simps split: option.splits)

text \<open>How many periods the dispatches of a plan stand for.\<close>

definition periods_of :: "CronDispatch list \<Rightarrow> nat" where
  "periods_of xs = sum_list (map cd_coalesced_count xs)"

lemma plan_counts:
  assumes "materialize_plan L E ids j now pending occ cursor = (xs, next_run)" "occ \<noteq> []"
  obtains k where "k \<le> length occ" "periods_of xs = k" "xs = [] \<longleftrightarrow> k = 0"
    "k = length occ \<Longrightarrow> next_run = (if now < cursor then Some (utc_iso cursor) else None)"
    "k < length occ \<Longrightarrow> next_run = Some (utc_iso (occ ! k)) \<and> cj_misfire_policy j = CatchUp"
proof (cases "truthy (cj_current_dispatch_id j) \<or> truthy (cj_current_run_id j) \<or> cj_misfire_policy j \<noteq> CatchUp")
  case True
  then have "xs \<noteq> []" "periods_of xs = length occ" "next_run = (if now < cursor then Some (utc_iso cursor) else None)"
    using assms(1)
    by (auto simp: materialize_plan_def Let_def periods_of_def skipped_dispatch_def new_dispatch_def
        split: if_splits MisfirePolicy.splits)
  then show thesis using that [of "length occ"] assms(2) by simp
next
  case False
  let ?sel = "take (10 - pending) occ"
  have one: "cd_coalesced_count (new_dispatch L E j u t 1 ts) = 1" for u t ts by (simp add: new_dispatch_def)
  have xs: "xs = map (\<lambda>k. new_dispatch L E j (ids k) (utc_iso (occ ! k)) 1 (utc_iso now)) [0..<length ?sel]"
    and n: "next_run = (if length ?sel = length occ then if now < cursor then Some (utc_iso cursor) else None
              else Some (utc_iso (occ ! length ?sel)))"
    using assms(1) False by (auto simp: materialize_plan_def Let_def split: if_splits)
  have "map cd_coalesced_count xs = map (\<lambda>_. 1) [0..<length ?sel]"
    unfolding xs by (simp only: map_map comp_def one)
  then have p: "periods_of xs = length ?sel" by (simp add: periods_of_def sum_list_triv)
  define m where "m = length ?sel"
  have m: "m \<le> length occ" "xs = [] \<longleftrightarrow> m = 0" "periods_of xs = m"
    "next_run = (if m = length occ then if now < cursor then Some (utc_iso cursor) else None else Some (utc_iso (occ ! m)))"
    using p n by (simp_all add: m_def xs)
  show thesis by (rule that [OF m(1,3,2)]) (use m(4) False in auto)
qed

lemma inserted_dispatches: "insert_dispatches xs d = Inr d' \<Longrightarrow> d' = d\<lparr>cr_dispatches := cr_dispatches d @ xs\<rparr>"
proof (induction xs d rule: insert_dispatches.induct)
  case (2 x xs d)
  then obtain d1 where d1: "insert_dispatch x d = Inr d1" "insert_dispatches xs d1 = Inr d'" by (auto simp: result_simps)
  then have "d1 = d\<lparr>cr_dispatches := cr_dispatches d @ [x]\<rparr>" by (auto simp: insert_dispatch_def split: if_splits)
  then show ?case using 2(1) [OF d1(2)] by simp
qed simp

lemma due_materialize_effect:
  assumes "due_materialize j xs next_run now d = Inr d'" "distinct (map cj_job_id (cr_jobs d))"
  obtains k where "cr_dispatches d' = cr_dispatches d @ xs"
    "\<And>i. find_job d' i = (if i = cj_job_id j then Some k else find_job d i)" "cj_next_run_at k = next_run"
    "cj_job_id k = cj_job_id j" "cj_state k = cj_state j" "cj_current_dispatch_id k = cj_current_dispatch_id j"
    "cr_heartbeat d' = cr_heartbeat d"
proof -
  let ?k = "j\<lparr>cj_next_run_at := next_run, cj_missed_count := cj_missed_count j + skipped_total (\<lambda>_. True) xs,
           cj_overlap_skipped := cj_overlap_skipped j + skipped_total (\<lambda>x. cd_error x = Some ''overlap_skipped'') xs,
           cj_updated_at := now, cj_revision := cj_revision j + 1\<rparr>"
  obtain d1 where d1: "insert_dispatches xs d = Inr d1" and w: "replace_job ?k (cj_revision j) d1 = Inr d'"
    using assms(1) by (auto simp: due_materialize_def Let_def result_simps)
  have e: "d1 = d\<lparr>cr_dispatches := cr_dispatches d @ xs\<rparr>" using inserted_dispatches [OF d1] .
  have "distinct (map cj_job_id (cr_jobs d1))" using assms(2) by (simp add: e)
  then obtain r where r: "\<And>i. find_job d' i = (if i = cj_job_id ?k then Some ?k else find_job d1 i)"
    "cr_dispatches d' = cr_dispatches d1" "cr_heartbeat d' = cr_heartbeat d1"
    using replace_job_Inr [OF w] by blast
  have "find_job d1 = find_job d" by (simp add: find_job_def e fun_eq_iff)
  then show thesis by (intro that [of ?k]) (simp_all add: r e)
qed

lemma materialize_due_plan:
  assumes "materialize_due L E ids j now d0 d = Inr d'"
    and "cj_state j = JobScheduled" "cj_next_run_at j = Some due" "due \<le> now"
  obtains occ c n xs next_run where "missed_occurrences L (cj_schedule j) now 100000 due = Inr (occ, c)" "occ \<noteq> []"
    "materialize_plan L E ids j now n occ c = (xs, next_run)"
    "if xs = [] then d' = d else due_materialize j xs next_run (utc_iso now) d = Inr d'"
proof -
  obtain occ c where m: "missed_occurrences L (cj_schedule j) now 100000 due = Inr (occ, c)"
    using assms by (auto simp: materialize_due_def Let_def result_simps)
  have n: "occ \<noteq> []" using missed_nonempty [OF m assms(4)] by simp
  obtain ds where ds: "dispatches d0 (cj_job_id j) 1000 = Inr ds"
    using assms by (auto simp: materialize_due_def Let_def result_simps)
  obtain xs next_run where p:
    "materialize_plan L E ids j now (length (filter (\<lambda>x. cd_status x = Pending) ds)) occ c = (xs, next_run)"
    by (rule prod.exhaust)
  have "if xs = [] then d' = d else due_materialize j xs next_run (utc_iso now) d = Inr d'"
    using assms m n ds p by (auto simp: materialize_due_def split: if_splits)
  then show thesis using that [OF m n p] by simp
qed


subsection \<open>Inputs the code does not handle\<close>

lemma read_jobs: "read_all read_job js = (if list_all valid_job js then Inr js else Inl (ValueError ''CronJob''))"
  by (induction js) (auto simp: read_job_def)

text \<open>
  An edit strips the name after the request was validated and stores the job without validating it: a name of
  blanks leaves a document that cannot be read, and with it every listing and every tick fails.
\<close>

lemma blank_name_stops_cron:
  assumes "edit L d0 i q now d = Inr (d', x)" "ce_name q = Some v" "strip_text v = []" "distinct (map cj_job_id (cr_jobs d))"
  shows "jobs d' None False = Inl (ValueError ''CronJob'') \<and> tick_claims L E K d' = (d', Inl (ValueError ''CronJob''))"
proof -
  obtain j s p next_run where j: "cj_state j \<noteq> JobDeleted"
    and w: "replace_job (edited_job j q s p next_run now) (cj_revision j) d = Inr d'"
    using assms(1) by (auto simp: edit_def Let_def result_simps save_job_def split: if_splits)
  let ?k = "edited_job j q s p next_run now"
  have "find_job d' (cj_job_id ?k) = Some ?k" by (rule replace_job_Inr [OF w assms(4)]) simp
  then have "?k \<in> set (cr_jobs d')" using find_job_mem by blast
  moreover have "cj_name ?k = []" "cj_state ?k \<noteq> JobDeleted" using assms(2,3) j by (simp_all add: edited_job_def)
  ultimately have "\<not> list_all valid_job (filter (\<lambda>j. cj_state j \<noteq> JobDeleted) (cr_jobs d'))"
    by (auto simp: list_all_iff valid_job_def)
  then have "jobs d' None False = Inl (ValueError ''CronJob'')"
    unfolding jobs_def read_jobs by (auto simp: list_all_iff)
  then show ?thesis by (simp add: tick_claims_def)
qed

text \<open>
  A one-time instant with a fraction of a second is stored without it, and the walk meets the instant a second
  time; a catch-up job then inserts two dispatches for the same period and every tick fails on the constraint.
\<close>

lemma fractional_once_repeats:
  assumes "sd_kind s = OnceKind" "sd_run_at s = Some t" "utc_iso t < t" "t \<le> now"
  shows "missed_occurrences L s now (Suc (Suc n)) (utc_iso t) = Inr ([utc_iso t, t], t)"
  using assms utc_iso_le [of t] by (simp add: next_after_def)

lemma fractional_once_stops_cron:
  assumes "sd_kind (cj_schedule j) = OnceKind" "sd_run_at (cj_schedule j) = Some t" "utc_iso t < t" "t \<le> now"
    and "cj_state j = JobScheduled" "cj_next_run_at j = Some (utc_iso t)" "cj_misfire_policy j = CatchUp"
    and "cj_current_dispatch_id j = None" "cj_current_run_id j = None" "dispatches d0 (cj_job_id j) 1000 = Inr []"
  shows "\<exists>e. materialize_due L E ids j now d0 d = Inl e"
proof (cases "materialize_due L E ids j now d0 d")
  case (Inr d')
  have "(100000 :: nat) = Suc (Suc 99998)" by simp
  then have m: "missed_occurrences L (cj_schedule j) now 100000 (utc_iso t) = Inr ([utc_iso t, t], t)"
    using fractional_once_repeats [OF assms(1-4)] by metis
  let ?a = "new_dispatch L E j (ids 0) (utc_iso t) 1 (utc_iso now)"
    and ?b = "new_dispatch L E j (ids 1) (utc_iso t) 1 (utc_iso now)"
  have "materialize_plan L E ids j now 0 [utc_iso t, t] t = ([?a, ?b], None)"
    using assms by (simp add: materialize_plan_def Let_def)
  moreover have "\<not> now < utc_iso t" using utc_iso_le [of t] assms(4) by linarith
  ultimately obtain n where "due_materialize j [?a, ?b] n (utc_iso now) d = Inr d'"
    using Inr assms m by (auto simp: materialize_due_def)
  then obtain d1 d2 where d: "insert_dispatch ?a d = Inr d1" "insert_dispatch ?b d1 = Inr d2"
    by (auto simp: due_materialize_def Let_def result_simps)
  have "cr_dispatches d1 = cr_dispatches d @ [?a]" using d(1) by (auto simp: insert_dispatch_def split: if_splits)
  then show ?thesis
    using d(2) by (auto simp: insert_dispatch_def dispatch_index_ok_def new_dispatch_def plain_dispatch_def split: if_splits)
qed simp

text \<open>A one-time job removed while its last dispatch runs is no longer deleted when that dispatch succeeds.\<close>

lemma deleted_job_returns:
  "sd_kind (cj_schedule j) = OnceKind \<Longrightarrow> cj_state j = JobDeleted \<Longrightarrow> cj_state (finished_job j x Succeeded err t) = JobCompleted"
  by (simp add: finished_job_def Let_def)

text \<open>A job with 100000 due periods behind it gets no next instant and never runs again.\<close>

lemma walk_bound_ends_schedule:
  assumes "materialize_plan L E ids j now pending occ c = (xs, next_run)" "\<not> now < c" "cj_misfire_policy j \<noteq> CatchUp"
  shows "next_run = None"
  using assms by (auto simp: materialize_plan_def Let_def split: if_splits MisfirePolicy.splits)

end
