(* ===== verification/Cron_Liveness.thy ===== *)
theory Cron_Liveness
  imports Cron_Laws
begin

section \<open>Progress of Cron jobs\<close>

text \<open>
  A tick that gets through claims a dispatch for every job that waits for one. A transaction on another job leaves
  the rows of a job alone (\<open>view\<close>), and no constraint of the table stops the claim.
\<close>

subsection \<open>The rows of a job\<close>

definition view :: "cron_db \<Rightarrow> string \<Rightarrow> CronJob option \<times> CronDispatch list" where
  "view d i = (find_job d i, filter (\<lambda>x. cd_job_id x = i) (cr_dispatches d))"

text \<open>A scheduled job that runs nothing and has no claim.\<close>

definition idle_job :: "cron_db \<Rightarrow> string \<Rightarrow> bool" where
  "idle_job d i \<longleftrightarrow> (\<exists>j. fst (view d i) = Some j \<and> cj_state j = JobScheduled \<and> cj_current_dispatch_id j = None) \<and>
     list_all (\<lambda>x. \<not> is_active_status (cd_status x)) (snd (view d i))"

definition has_pending :: "cron_db \<Rightarrow> string \<Rightarrow> bool" where
  "has_pending d i \<longleftrightarrow> list_ex (\<lambda>x. cd_status x = Pending) (snd (view d i))"

lemma view_same: "view d' i = view d i \<Longrightarrow> idle_job d' i = idle_job d i \<and> has_pending d' i = has_pending d i"
  by (simp add: idle_job_def has_pending_def)

lemma update_view:
  assumes "replace_dispatch x n d = Inr d'" "cron_ok d" "find_dispatch d (cd_dispatch_id x) = Some r"
    "cd_job_id r = cd_job_id x" "cd_job_id x \<noteq> i"
  shows "view d' i = view d i"
proof -
  let ?p = "\<lambda>r. cd_dispatch_id r = cd_dispatch_id x \<and> cd_revision r = n"
  have d': "d' = d\<lparr>cr_dispatches := update_rows ?p (\<lambda>_. x) (cr_dispatches d)\<rparr>"
    using assms(1) by (auto simp: replace_dispatch_def Let_def split: if_splits)
  have "filter (\<lambda>x. cd_job_id x = i) (update_rows ?p (\<lambda>_. x) rows) = filter (\<lambda>x. cd_job_id x = i) rows"
    if "\<forall>y \<in> set rows. ?p y \<longrightarrow> cd_job_id y \<noteq> i" for rows
    using that assms(5) by (induction rows) (auto simp: update_rows_def)
  moreover have "\<forall>y \<in> set (cr_dispatches d). ?p y \<longrightarrow> cd_job_id y \<noteq> i"
    using find_dispatch_own [OF assms(2)] assms(3,4,5) by fastforce
  ultimately show ?thesis by (simp add: view_def d' find_job_def)
qed

lemma plan_jobs:
  assumes "materialize_plan L E ids j now pending occ c = (xs, next_run)"
  shows "\<forall>x \<in> set xs. cd_job_id x = cj_job_id j"
  using assms by (auto simp: materialize_plan_def Let_def new_dispatch_def plain_dispatch_def skipped_dispatch_def
      split: if_splits MisfirePolicy.splits)

lemma plan_inactive:
  assumes "materialize_plan L E ids j now pending occ c = (xs, next_run)"
  shows "\<forall>x \<in> set xs. \<not> is_active_status (cd_status x)"
  using assms new_dispatch_ok(2,4) by (auto simp: materialize_plan_def Let_def split: if_splits MisfirePolicy.splits)

subsection \<open>Claiming\<close>

lemma claim_next_other:
  assumes "claim_next k epoch lease token now d = Inr (d', c)" "cron_ok d" "k \<noteq> i"
  shows "view d' i = view d i"
proof -
  from assms(1) consider "d' = d"
    | x where "first_pending d k = Some x"
        "replace_dispatch (claimed_dispatch x token epoch now lease) (cd_revision x) d = Inr d'"
    by (auto simp: claim_next_def Let_def read_dispatch_def result_simps split: option.splits if_splits)
  then show ?thesis
  proof cases
    case 2
    have x: "x \<in> set (cr_dispatches d)" "cd_job_id x = k" using first_pending_mem [OF 2(1)] by simp_all
    show ?thesis
      by (rule update_view [OF 2(2) assms(2)])
        (use find_dispatch_own [OF assms(2) x(1)] x(2) assms(3) in \<open>simp_all add: claimed_dispatch_def\<close>)
  qed simp
qed

lemma update_none: "(\<And>r. r \<in> set rows \<Longrightarrow> \<not> p r) \<Longrightarrow> update_rows p f rows = rows"
  unfolding update_rows_def by (rule map_idI) simp

text \<open>Making one row of a table active when its job has no active row violates no constraint.\<close>

lemma index_ok_claim:
  assumes "dispatch_index_ok rows" "x \<in> set rows" "\<forall>y \<in> set rows. cd_job_id y = cd_job_id x \<longrightarrow> \<not> is_active_status (cd_status y)"
    and y: "cd_dispatch_id y = cd_dispatch_id x" "cd_job_id y = cd_job_id x" "cd_scheduled_for y = cd_scheduled_for x"
      "cd_run_id y = cd_run_id x" "cd_operation_id y = cd_operation_id x" "cd_attempt_id y = cd_attempt_id x"
  shows "dispatch_index_ok (update_rows (\<lambda>r. cd_dispatch_id r = cd_dispatch_id x \<and> cd_revision r = cd_revision x) (\<lambda>_. y) rows)"
proof -
  let ?p = "\<lambda>r. cd_dispatch_id r = cd_dispatch_id x \<and> cd_revision r = cd_revision x"
  let ?u = "update_rows ?p (\<lambda>_. y) rows"
  have d: "distinct (map cd_dispatch_id rows)" using assms(1) by (simp add: dispatch_index_ok_def)
  obtain as bs where rows: "rows = as @ x # bs" using split_list [OF assms(2)] by blast
  have "\<not> ?p r" if "r \<in> set as \<union> set bs" for r
    using d that unfolding rows by (force simp: image_iff)
  then have "update_rows ?p (\<lambda>_. y) as = as" "update_rows ?p (\<lambda>_. y) bs = bs" by (simp_all add: update_none)
  then have u: "?u = as @ y # bs" unfolding rows by (simp add: update_rows_def)
  have same: "map f ?u = map f rows" if "f y = f x" for f :: "CronDispatch \<Rightarrow> 'a" using that unfolding u by (simp add: rows)
  have sched: "map (\<lambda>x. (cd_job_id x, cd_scheduled_for x)) (filter (\<lambda>x. cd_scheduled_for x \<noteq> None) ?u) =
      map (\<lambda>x. (cd_job_id x, cd_scheduled_for x)) (filter (\<lambda>x. cd_scheduled_for x \<noteq> None) rows)"
    using y(2,3) unfolding u by (simp add: rows)
  have "distinct (map cd_job_id (filter (\<lambda>x. is_active_status (cd_status x)) ?u))"
    using assms(1,3) y(2) unfolding u dispatch_index_ok_def by (auto simp: rows image_iff)
  then show ?thesis
    using assms(1) same [OF y(1)] same [OF y(4)] same [OF y(5)] same [OF y(6)] sched
    by (simp add: dispatch_index_ok_def some_values_def)
qed

lemma claim_next_waiting:
  assumes "cron_ok d" "idle_job d i" "has_pending d i"
  obtains d' x where "claim_next i epoch lease token now d = Inr (d', Some x)" "cd_job_id x = i" "cd_status x = Claimed"
    "x \<in> set (snd (view d' i))"
proof -
  obtain j where j: "find_job d i = Some j" "cj_state j = JobScheduled" "cj_current_dispatch_id j = None"
    using assms(2) by (auto simp: idle_job_def view_def)
  have free: "\<forall>y \<in> set (cr_dispatches d). cd_job_id y = i \<longrightarrow> \<not> is_active_status (cd_status y)"
    using assms(2) by (auto simp: idle_job_def view_def list_all_iff)
  have vj: "valid_job j" using find_job_mem [OF j(1)] cron_okD(6) [OF assms(1)] by blast
  obtain x where x: "first_pending d i = Some x"
  proof -
    have "filter (\<lambda>x. cd_job_id x = i \<and> cd_status x = Pending) (cr_dispatches d) \<noteq> []"
      using assms(3) by (auto simp: has_pending_def view_def list_ex_iff filter_empty_conv)
    then have "sort_key cd_created_at (filter (\<lambda>x. cd_job_id x = i \<and> cd_status x = Pending) (cr_dispatches d)) \<noteq> []"
      by (metis set_empty2 set_sort)
    then show thesis using that by (auto simp: first_pending_def neq_Nil_conv)
  qed
  have m: "x \<in> set (cr_dispatches d)" "cd_job_id x = i" using first_pending_mem [OF x] by simp_all
  have vx: "valid_dispatch x" using cron_okD(7) [OF assms(1) m(1)] by (simp add: sound_dispatch_def)
  let ?y = "claimed_dispatch x token epoch now lease"
  let ?p = "\<lambda>r. cd_dispatch_id r = cd_dispatch_id x \<and> cd_revision r = cd_revision x"
  have ix: "dispatch_index_ok (update_rows ?p (\<lambda>_. ?y) (cr_dispatches d))"
    by (rule index_ok_claim) (use cron_okD(2) [OF assms(1)] m free in \<open>auto simp: claimed_dispatch_def\<close>)
  have "filter ?p (cr_dispatches d) = [x]"
  proof -
    have "length (filter ?p (cr_dispatches d)) \<le> 1"
    proof (rule distinct_single)
      show "distinct (filter ?p (cr_dispatches d))"
        using cron_okD(3) [OF assms(1)] by (intro distinct_filter) (simp add: distinct_map)
      show "a = b" if "a \<in> set (filter ?p (cr_dispatches d))" "b \<in> set (filter ?p (cr_dispatches d))" for a b
        using that find_dispatch_own [OF assms(1), of a] find_dispatch_own [OF assms(1), of b] by simp
    qed
    moreover have "x \<in> set (filter ?p (cr_dispatches d))" using m(1) by simp
    ultimately show ?thesis by (cases "filter ?p (cr_dispatches d)") auto
  qed
  then have one: "count_rows ?p (cr_dispatches d) = 1" by (simp add: count_rows_def)
  let ?d = "d\<lparr>cr_dispatches := update_rows ?p (\<lambda>_. ?y) (cr_dispatches d)\<rparr>"
  have r: "replace_dispatch ?y (cd_revision x) d = Inr ?d"
    using ix one by (simp add: replace_dispatch_def claimed_dispatch_def)
  show thesis
  proof (rule that)
    show "claim_next i epoch lease token now d = Inr (?d, Some ?y)"
      using j vj x vx r by (simp add: claim_next_def read_job_def read_dispatch_def Let_def)
    show "?y \<in> set (snd (view ?d i))" using m by (auto simp: view_def set_update_rows claimed_dispatch_def)
  qed (use m in \<open>simp_all add: claimed_dispatch_def\<close>)
qed

subsection \<open>A tick\<close>

lemma materialize_other:
  assumes "materialize_due L E ids j now d0 d = Inr d'" "cron_ok d" "cj_job_id j \<noteq> i"
  shows "view d' i = view d i"
proof (cases "d' = d")
  case False
  then obtain xs next_run occ c pending where w: "due_materialize j xs next_run (utc_iso now) d = Inr d'"
    and p: "materialize_plan L E ids j now pending occ c = (xs, next_run)"
    using assms(1) by (auto simp: materialize_due_def Let_def result_simps split: option.splits if_splits prod.splits)
  have "filter (\<lambda>x. cd_job_id x = i) xs = []" using plan_jobs [OF p] assms(3) by (auto simp: filter_empty_conv)
  moreover have "cr_dispatches d' = cr_dispatches d @ xs \<and> find_job d' i = find_job d i"
    by (rule due_materialize_effect [OF w cron_okD(1) [OF assms(2)]]) (use assms(3) in simp)
  ultimately show ?thesis by (simp add: view_def)
qed simp

lemma materialize_waiting:
  assumes "materialize_due L E ids j now d0 d = Inr d'" "cron_ok d" "idle_job d i" "find_job d i = Some j"
    and "has_pending d i \<or> cj_misfire_policy j = FireOnce \<and> (\<exists>t. cj_next_run_at j = Some t \<and> t \<le> now)"
    and "cj_current_run_id j = None"
  shows "idle_job d' i \<and> has_pending d' i"
proof -
  have j: "cj_job_id j = i" "cj_state j = JobScheduled" "cj_current_dispatch_id j = None"
    using assms(3,4) find_job_mem [OF assms(4)] by (auto simp: idle_job_def view_def)
  show ?thesis
  proof (cases "d' = d")
    case True
    have "has_pending d i"
    proof (rule ccontr)
      assume n: "\<not> has_pending d i"
      then obtain t where t: "cj_misfire_policy j = FireOnce" "cj_next_run_at j = Some t" "t \<le> now" using assms(5) by blast
      obtain occ c n xs next_run where w: "occ \<noteq> []" "materialize_plan L E ids j now n occ c = (xs, next_run)"
        "if xs = [] then d' = d else due_materialize j xs next_run (utc_iso now) d = Inr d'"
        using materialize_due_plan [OF assms(1) j(2) t(2,3)] .
      obtain k where k: "k \<le> length occ" "xs = [] \<longleftrightarrow> k = 0" "k < length occ \<Longrightarrow> cj_misfire_policy j = CatchUp"
        by (rule plan_counts [OF w(2,1)]) simp
      have "xs \<noteq> []" using k t(1) w(1) by (cases "k < length occ") auto
      then have "due_materialize j xs next_run (utc_iso now) d = Inr d'" using w(3) by simp
      then have "cr_dispatches d' = cr_dispatches d @ xs" by (rule due_materialize_effect [OF _ cron_okD(1) [OF assms(2)]])
      then show False using True \<open>xs \<noteq> []\<close> by simp
    qed
    then show ?thesis using True assms(3) by simp
  next
    case False
    then obtain xs next_run occ c pending where w: "due_materialize j xs next_run (utc_iso now) d = Inr d'"
      and p: "materialize_plan L E ids j now pending occ c = (xs, next_run)" and o: "occ \<noteq> []"
      using assms(1) by (auto simp: materialize_due_def Let_def result_simps split: option.splits if_splits prod.splits)
    obtain k where k: "cr_dispatches d' = cr_dispatches d @ xs" "find_job d' i = Some k" "cj_state k = JobScheduled"
      "cj_current_dispatch_id k = None"
      by (rule due_materialize_effect [OF w cron_okD(1) [OF assms(2)]]) (use j in simp)
    have inactive: "list_all (\<lambda>x. \<not> is_active_status (cd_status x)) xs"
      using plan_inactive [OF p] by (simp add: list_all_iff)
    have "has_pending d i \<or> list_ex (\<lambda>x. cd_status x = Pending) xs"
      using assms(5,6) j(3) p o
      by (auto simp: materialize_plan_def Let_def new_dispatch_def plain_dispatch_def split: if_splits)
    then show ?thesis
      using assms(3) inactive k plan_jobs [OF p] j(1)
      by (auto simp: idle_job_def has_pending_def view_def list_all_iff list_ex_iff)
  qed
qed

lemma waiting_job: "idle_job d i \<Longrightarrow> find_job d i = Some j \<Longrightarrow> cron_ok d \<Longrightarrow> cj_current_run_id j = None"
  using find_job_mem cron_okD(5) by (fastforce simp: idle_job_def view_def held_def)

lemma materialize_all_waiting:
  "materialize_all L E K js d = (d', Inr ()) \<Longrightarrow> cron_ok d \<Longrightarrow> distinct (map cj_job_id js) \<Longrightarrow>
    \<forall>j \<in> set js. find_job d (cj_job_id j) = Some j \<Longrightarrow> idle_job d i \<Longrightarrow>
    has_pending d i \<or> (\<exists>j \<in> set js. cj_job_id j = i \<and> cj_misfire_policy j = FireOnce \<and>
      (\<exists>t. cj_next_run_at j = Some t \<and> t \<le> tk_now K)) \<Longrightarrow>
    cron_ok d' \<and> idle_job d' i \<and> has_pending d' i"
proof (induction js arbitrary: d)
  case (Cons j js)
  obtain d1 where d1: "materialize_due L E (tk_ids K (cj_job_id j)) j (tk_now K) d d = Inr d1"
    and rest: "materialize_all L E K js d1 = (d', Inr ())"
    using Cons.prems(1) by (auto split: sum.splits)
  have mem: "j \<in> set (cr_jobs d)" using Cons.prems(4) find_job_mem by auto
  have ok: "cron_ok d1"
    using kept_materialize_due [of d d j] mem d1 Cons.prems(2) by (simp add: sees_def kept_def)
  have others: "view d1 k = view d k" if "k \<noteq> cj_job_id j" for k using materialize_other [OF d1 Cons.prems(2)] that by simp
  have found: "\<forall>j' \<in> set js. find_job d1 (cj_job_id j') = Some j'"
    using Cons.prems(3,4) others by (auto simp: view_def image_iff)
  have "idle_job d1 i \<and> (has_pending d1 i \<or> (\<exists>j \<in> set js. cj_job_id j = i \<and> cj_misfire_policy j = FireOnce \<and>
      (\<exists>t. cj_next_run_at j = Some t \<and> t \<le> tk_now K)))"
  proof (cases "i = cj_job_id j")
    case True
    have j: "find_job d i = Some j" using Cons.prems(4) True by simp
    have p: "has_pending d i \<or> cj_misfire_policy j = FireOnce \<and> (\<exists>t. cj_next_run_at j = Some t \<and> t \<le> tk_now K)"
      using Cons.prems(3,6) True by (auto simp: image_iff)
    show ?thesis
      using materialize_waiting [OF d1 Cons.prems(2,5) j p waiting_job [OF Cons.prems(5) j Cons.prems(2)]] by simp
  next
    case False
    then show ?thesis using Cons.prems(5,6) view_same [OF others [OF False]] by auto
  qed
  then show ?case using Cons.IH [OF rest ok _ found] Cons.prems(3) by simp
qed simp

lemma claim_next_ok: "claim_next k e l t n d = Inr (d', c) \<Longrightarrow> cron_ok d \<Longrightarrow> cron_ok d'"
  using kept_claim_next [of d d] by (auto simp: sees_def kept_def)

lemma claim_all_other:
  "claim_all K js d = (d', xs) \<Longrightarrow> cron_ok d \<Longrightarrow> i \<notin> cj_job_id ` set js \<Longrightarrow> view d' i = view d i"
proof (induction js arbitrary: d xs)
  case (Cons j js)
  show ?case
  proof (cases "claim_next (cj_job_id j) (tk_epoch K) 120 (tk_token K (cj_job_id j)) (tk_claim_now K (cj_job_id j)) d")
    case (Inl e)
    then show ?thesis using Cons by simp
  next
    case (Inr r)
    obtain d1 c where r: "r = (d1, c)" by (cases r)
    have "view d1 i = view d i" using claim_next_other Inr r Cons.prems by auto
    moreover obtain ys where "claim_all K js d1 = (d', ys)"
      using Cons.prems(1) Inr r by (cases c) (auto split: prod.splits)
    ultimately show ?thesis using Cons.IH claim_next_ok Inr r Cons.prems by auto
  qed
qed simp

lemma claim_all_ok: "claim_all K js d = (d', xs) \<Longrightarrow> cron_ok d \<Longrightarrow> cron_ok d'"
proof (induction js arbitrary: d xs)
  case (Cons j js)
  show ?case
  proof (cases "claim_next (cj_job_id j) (tk_epoch K) 120 (tk_token K (cj_job_id j)) (tk_claim_now K (cj_job_id j)) d")
    case (Inl e)
    then show ?thesis using Cons by simp
  next
    case (Inr r)
    obtain d1 c where r: "r = (d1, c)" by (cases r)
    obtain ys where "claim_all K js d1 = (d', ys)"
      using Cons.prems(1) Inr r by (cases c) (auto split: prod.splits)
    then show ?thesis using Cons.IH claim_next_ok Inr r Cons.prems(2) by blast
  qed
qed simp

lemma distinct_map_sort: "distinct (map f (sort_key k xs)) = distinct (map f xs)"
  by (simp add: distinct_map)

lemma claim_all_waiting:
  "claim_all K js d = (d', xs) \<Longrightarrow> cron_ok d \<Longrightarrow> distinct (map cj_job_id js) \<Longrightarrow> i \<in> cj_job_id ` set js \<Longrightarrow>
    idle_job d i \<Longrightarrow> has_pending d i \<Longrightarrow>
    \<exists>x \<in> set xs. cd_job_id x = i \<and> cd_status x = Claimed \<and> x \<in> set (snd (view d' i))"
proof (induction js arbitrary: d xs)
  case (Cons j js)
  let ?c = "claim_next (cj_job_id j) (tk_epoch K) 120 (tk_token K (cj_job_id j)) (tk_claim_now K (cj_job_id j)) d"
  show ?case
  proof (cases "i = cj_job_id j")
    case True
    obtain d1 x where c: "?c = Inr (d1, Some x)" and x: "cd_job_id x = i" "cd_status x = Claimed" "x \<in> set (snd (view d1 i))"
      using claim_next_waiting [OF Cons.prems(2,5,6)] True by metis
    obtain ys where ys: "claim_all K js d1 = (d', ys)" "xs = x # ys"
      using Cons.prems(1) c by (auto split: prod.splits)
    have "view d' i = view d1 i"
      using claim_all_other [OF ys(1) claim_next_ok [OF c Cons.prems(2)]] Cons.prems(3) True by simp
    then show ?thesis using x ys(2) by auto
  next
    case False
    then have i: "i \<in> cj_job_id ` set js" and d: "distinct (map cj_job_id js)" using Cons.prems(3,4) by auto
    show ?thesis
    proof (cases ?c)
      case (Inl e)
      then show ?thesis using Cons.IH [OF _ Cons.prems(2) d i Cons.prems(5,6)] Cons.prems(1) by simp
    next
      case (Inr r)
      obtain d1 c where r: "r = (d1, c)" by (cases r)
      have v: "view d1 i = view d i" using claim_next_other [of "cj_job_id j"] Inr r Cons.prems(2) False by metis
      obtain ys where ys: "claim_all K js d1 = (d', ys)" "set ys \<subseteq> set xs"
        using Cons.prems(1) Inr r by (cases c) (auto split: prod.splits simp: subset_insertI)
      show ?thesis
        using Cons.IH [OF ys(1) claim_next_ok d i] Inr r Cons.prems(2,5,6) view_same [OF v] ys(2) by blast
    qed
  qed
qed simp


end
