(* ===== verification/Cron_Witness.thy ===== *)
theory Cron_Witness
  imports Cron_Liveness Witnesses
begin

section \<open>Witnesses for Cron\<close>

text \<open>
  A job of every minute that was due three times when the gateway started: its periods are coalesced into one
  dispatch, which is claimed and bound to a run.
\<close>

definition plain_calendar :: calendar where
  "plain_calendar = \<lparr>cl_known_zone = (\<lambda>_. True), cl_wall_clock = (\<lambda>_ t. t), cl_instant = (\<lambda>_ t. t),
     cl_get_next = (\<lambda>_ t k. Some (t + 60 * of_nat (k + 1))), cl_is_valid = (\<lambda>_. True), cl_text = (\<lambda>_. ''t'')\<rparr>"

definition minutely :: CronSchedule where
  "minutely = \<lparr>sd_kind = IntervalKind, sd_interval_seconds = Some 60, sd_run_at = None, sd_expression = None,
     sd_timezone = ''UTC''\<rparr>"

definition minute_job :: CronJob where
  "minute_job = new_job ''j'' ''p'' ''n'' ''t'' minutely FireOnce default_profile 0 0"

definition cron_start :: cron_db where
  "cron_start = \<lparr>cr_jobs = [minute_job], cr_dispatches = [],
     cr_heartbeat = \<lparr>hb_status = ''stopped'', hb_interval_seconds = 60, hb_last_tick_at = None,
       hb_next_tick_at = None, hb_last_error = None\<rparr>\<rparr>"

definition first_dispatch :: CronDispatch where
  "first_dispatch = new_dispatch plain_calendar plain_env minute_job ''x'' 120 3 150"

definition later_job :: CronJob where
  "later_job = minute_job\<lparr>cj_next_run_at := Some 180, cj_updated_at := 150, cj_revision := 2\<rparr>"

definition cron_due :: cron_db where
  "cron_due = cron_start\<lparr>cr_jobs := [later_job], cr_dispatches := [first_dispatch]\<rparr>"

definition cron_claimed :: cron_db where
  "cron_claimed = cron_due\<lparr>cr_dispatches := [claimed_dispatch first_dispatch ''k'' ''g1'' 151 120]\<rparr>"

lemmas cron_samples = minute_job_def new_job_def first_dispatch_def later_job_def new_dispatch_def plain_dispatch_def

lemma missed_numeral [simp]:
  "missed_occurrences L s now (numeral n) cursor =
    (if now < cursor then Inr ([], cursor)
     else rbind (next_after L s cursor) (\<lambda>v.
       case v of
         None \<Rightarrow> Inr ([cursor], cursor)
       | Some t \<Rightarrow> rbind (missed_occurrences L s now (pred_numeral n) t) (\<lambda>(ts, c). Inr (cursor # ts, c))))"
  by (subst numeral_eq_Suc) simp

lemma minute_walk: "missed_occurrences plain_calendar minutely 150 100000 0 = Inr ([0, 60, 120], 180)"
  by (simp add: next_after_def minutely_def)

lemma minute_job_valid: "valid_job minute_job"
  by (simp add: minute_job_def new_job_def valid_job_def valid_schedule_def minutely_def valid_profile_def
      default_profile_def valid_limits_def default_limits_def)

lemma start_imported: "imported cron_start"
  using minute_job_valid by (simp add: imported_def cron_start_def minute_job_def new_job_def)

lemma whole_seconds [simp]: "utc_iso (numeral n) = numeral n" "utc_iso 0 = 0"
  by (simp_all add: utc_iso_def)

lemma minute_plan:
  "materialize_plan plain_calendar plain_env (\<lambda>_. ''x'') minute_job 150 0 [0, 60, 120] 180 = ([first_dispatch], Some 180)"
  by (simp add: materialize_plan_def Let_def cron_samples numeral_3_eq_3)

lemma materialize_start:
  "materialize_due plain_calendar plain_env (\<lambda>_. ''x'') minute_job 150 cron_start cron_start = Inr cron_due"
proof -
  have f: "cj_state minute_job = JobScheduled" "cj_next_run_at minute_job = Some 0" "cj_schedule minute_job = minutely"
    "cj_job_id minute_job = ''j''" "cj_revision minute_job = 1" "cj_missed_count minute_job = 0" "cj_overlap_skipped minute_job = 0"
    by (simp_all add: minute_job_def new_job_def)
  have g: "cd_job_id first_dispatch = ''j''" "cd_retry_of_dispatch_id first_dispatch = None" "cd_status first_dispatch = Pending"
    "cd_run_id first_dispatch = None" "cd_operation_id first_dispatch = None" "cd_attempt_id first_dispatch = None"
    by (simp_all add: cron_samples)
  have "dispatches cron_start ''j'' 1000 = Inr []" by (simp add: dispatches_def cron_start_def)
  moreover have "due_materialize minute_job [first_dispatch] (Some 180) 150 cron_start = Inr cron_due"
    using f g by (simp add: due_materialize_def Let_def insert_dispatch_def dispatch_index_ok_def some_values_def
        is_active_status_def cron_start_def find_job_def replace_job_def count_rows_def update_rows_def skipped_total_def
        cron_due_def later_job_def minute_job_def new_job_def)
  ultimately show ?thesis using f minute_walk minute_plan by (simp add: materialize_due_def)
qed

definition bound_first :: CronDispatch where
  "bound_first = bound_dispatch (claimed_dispatch first_dispatch ''k'' ''g1'' 151 120) ''s'' ''r'' ''o'' ''a'' 152"

definition busy_job :: CronJob where
  "busy_job = bound_job later_job first_dispatch ''r'' 152"

definition cron_bound :: cron_db where
  "cron_bound = cron_start\<lparr>cr_jobs := [busy_job], cr_dispatches := [bound_first]\<rparr>"

abbreviation sample_history :: "cron_db list \<Rightarrow> bool" where
  "sample_history \<equiv> cron_history plain_calendar plain_env"

lemma history_due: "sample_history [cron_due, cron_start]"
proof (rule history_step [OF history_start [OF start_imported]])
  show "cron_step plain_calendar plain_env cron_start cron_start cron_due"
    by (rule periods_materialized [OF _ materialize_start]) (simp add: cron_start_def)
qed simp

lemma due_ok: "cron_ok cron_due"
  using history_ok [OF history_due refl] by simp

lemma claim_first: "claim_next ''j'' ''g1'' 120 ''k'' 151 cron_due = Inr (cron_claimed, Some (claimed_dispatch first_dispatch ''k'' ''g1'' 151 120))"
proof -
  let ?c = "claimed_dispatch first_dispatch ''k'' ''g1'' 151 120"
  have rows: "cr_jobs cron_due = [later_job]" "cr_dispatches cron_due = [first_dispatch]" by (simp_all add: cron_due_def cron_start_def)
  have j: "valid_job later_job" "cj_job_id later_job = ''j''" "cj_state later_job = JobScheduled" "cj_current_dispatch_id later_job = None"
    using cron_okD(6) [OF due_ok] rows by (simp_all add: later_job_def minute_job_def new_job_def)
  have x: "valid_dispatch first_dispatch" "cd_job_id first_dispatch = ''j''" "cd_status first_dispatch = Pending"
    using cron_okD(7) [OF due_ok] rows by (simp_all add: cron_samples sound_dispatch_def)
  have "dispatch_index_ok [?c]" by (simp add: dispatch_index_ok_def some_values_def claimed_dispatch_def)
  then have "replace_dispatch ?c (cd_revision first_dispatch) cron_due = Inr cron_claimed"
    by (simp add: replace_dispatch_def rows update_rows_def count_rows_def cron_claimed_def claimed_dispatch_def)
  then show ?thesis
    using j x by (simp add: claim_next_def find_job_def rows first_pending_def read_job_def read_dispatch_def Let_def)
qed

lemma history_claimed: "sample_history [cron_claimed, cron_due, cron_start]"
proof -
  have "cron_step plain_calendar plain_env cron_due cron_due cron_claimed" by (rule dispatch_claimed [OF claim_first])
  from history_step [OF history_due _ this] show ?thesis by simp
qed

lemma claimed_ok: "cron_ok cron_claimed"
  using history_ok [OF history_claimed refl] by simp

lemma bind_first:
  "\<exists>x. bind_running cron_claimed (cd_dispatch_id first_dispatch) ''k'' ''s'' ''r'' ''o'' ''a'' 152 cron_claimed = Inr (cron_bound, x)"
proof -
  let ?c = "claimed_dispatch first_dispatch ''k'' ''g1'' 151 120" and ?i = "cd_dispatch_id first_dispatch"
  have rows: "cr_jobs cron_claimed = [later_job]" "cr_dispatches cron_claimed = [?c]"
    by (simp_all add: cron_claimed_def cron_due_def cron_start_def)
  have f: "cd_dispatch_id ?c = ?i" "cd_status ?c = Claimed" "cd_claim_token ?c = Some ''k''" "cd_job_id ?c = ''j''"
    by (simp_all add: claimed_dispatch_def cron_samples)
  have j: "valid_job later_job" "cj_job_id later_job = ''j''" "cj_state later_job = JobScheduled"
    using cron_okD(6) [OF claimed_ok] rows by (simp_all add: later_job_def minute_job_def new_job_def)
  have s: "dispatch_of cron_claimed ?i = Inr ?c"
    using cron_okD(7) [OF claimed_ok] rows f(1)
    by (simp add: dispatch_of_def find_dispatch_def read_dispatch_def sound_dispatch_def)
  have k: "job cron_claimed ''j'' = Inr later_job" using j rows by (simp add: job_def find_job_def read_job_def)
  have b: "bound_job later_job ?c ''r'' 152 = busy_job" by (simp add: bound_job_def busy_job_def f(1))
  have "dispatch_index_ok [bound_first]" by (simp add: dispatch_index_ok_def some_values_def bound_first_def bound_dispatch_def)
  then have "replace_both bound_first (cd_revision ?c) busy_job (cj_revision later_job) cron_claimed = Inr cron_bound"
    by (simp add: replace_both_def replace_dispatch_def replace_job_def rows update_rows_def count_rows_def cron_bound_def
        cron_claimed_def cron_due_def bound_first_def bound_dispatch_def busy_job_def bound_job_def)
  then show ?thesis using s k f j b by (simp add: bind_running_def Let_def bound_first_def)
qed

lemma history_bound: "sample_history [cron_bound, cron_claimed, cron_due, cron_start]"
proof -
  obtain x where "bind_running cron_claimed (cd_dispatch_id first_dispatch) ''k'' ''s'' ''r'' ''o'' ''a'' 152 cron_claimed = Inr (cron_bound, x)"
    using bind_first by blast
  then have "cron_step plain_calendar plain_env cron_claimed cron_claimed cron_bound" by (rule dispatch_bound) simp_all
  from history_step [OF history_claimed _ this] show ?thesis by simp
qed

theorem cron_documents_are_readable_witness:
  "\<exists>js xs. jobs cron_bound None False = Inr js \<and> active_dispatches cron_bound = Inr xs"
  using cron_documents_are_readable [OF history_bound] by blast


theorem dispatches_only_advance_witness:
  "\<exists>y :: CronDispatch. find_dispatch cron_bound (cd_dispatch_id first_dispatch) = Some y \<and> same_origin first_dispatch y \<and>
    cd_revision first_dispatch < cd_revision y"
proof -
  have f: "find_dispatch cron_due (cd_dispatch_id first_dispatch) = Some first_dispatch"
    by (simp add: find_dispatch_def cron_due_def)
  have "cron_due \<in> set [cron_bound, cron_claimed, cron_due, cron_start]" by simp
  then obtain y where y: "find_dispatch cron_bound (cd_dispatch_id first_dispatch) = Some y"
    "y = first_dispatch \<or> same_origin first_dispatch y \<and> cd_revision first_dispatch < cd_revision y"
    using dispatches_only_advance [OF history_bound _ f] by blast
  have "y = bound_first"
    using y(1) by (simp add: find_dispatch_def cron_bound_def bound_first_def bound_dispatch_def claimed_dispatch_def)
  moreover have "bound_first \<noteq> first_dispatch"
  proof
    assume "bound_first = first_dispatch"
    then have "cd_status bound_first = cd_status first_dispatch" by simp
    then show False by (simp add: bound_first_def bound_dispatch_def cron_samples)
  qed
  ultimately show ?thesis using y by blast
qed


definition first_tick :: tick_input where
  "first_tick = \<lparr>tk_now = 150, tk_ids = (\<lambda>_ _. ''x''), tk_epoch = ''g1'', tk_token = (\<lambda>_. ''k''), tk_claim_now = (\<lambda>_. 151)\<rparr>"


end
