(* ===== verification/Spec2Isabelle.thy ===== *)
theory Spec2Isabelle
  imports Lifecycle Controller_Runs Gate_Safety Evidence_Roundtrip Control_Laws Approval_Safety
    Sample Witnesses Law_Witnesses Evidence_Sample Terminal_Witness Delivery_File Delivery_Witness
    Archive_Runs Stream_Readers Archive_Witness Tool_Witness Runtime_Witness
    Cron_Witness
begin

text \<open>
  \<^bold>\<open>Yuan Ye Study Agent: the durable control plane\<close>

  The program is a local gateway that runs agent tasks. Everything that must survive a crash goes through
  one class, \<^verbatim>\<open>StateController\<close> of \<^verbatim>\<open>src/gateway/state_controller.py\<close>: callers send \<open>StateCommand\<close>s, the
  controller applies each of them in one SQLite transaction and appends one event to the canonical log. The
  models, transition tables and validators are in \<^verbatim>\<open>src/Agent/state.py\<close>, the finalize evidence in
  \<^verbatim>\<open>src/gateway/finalize_evidence.py\<close>, the sanitizer in \<^verbatim>\<open>src/gateway/audit.py\<close>. Maintenance (backup, restore)
  stops writers through the gate of \<^verbatim>\<open>src/backup/maintenance.py\<close>, whose state is durable in
  \<^verbatim>\<open>src/backup/lifecycle_store.py\<close>; \<^verbatim>\<open>apply\<close> asks it before every transaction.

  \<^bold>\<open>Theories\<close>, in the order of the code:

  \<^item> \<open>Prelude\<close>: errors as values, tables as row lists (locale \<open>row_table\<close>), Python truth of optional text.
  \<^item> \<open>Audit_Text\<close>: JSON values, \<^verbatim>\<open>canonical_json\<close>, \<^verbatim>\<open>AuditSanitizer\<close>. \<open>Json_Text\<close>: the parser of
    \<^verbatim>\<open>json.loads\<close> and the round trip of \<^verbatim>\<open>canonical_json\<close>.
  \<^item> \<open>Agent_State\<close>, \<open>Lifecycle\<close>: enumerations, models, validators, both transition tables; locale \<open>fsm\<close>,
    interpreted on the outer and the inner table.
  \<^item> \<open>Operation_Reduction\<close>: \<^verbatim>\<open>reduce_operation\<close>. \<open>Agent_Commands\<close>: the command classes and their union.
  \<^item> \<open>Finalize_Evidence\<close>, \<open>Evidence_Roundtrip\<close>: evidence, its codec, identities and requirements; what is
    encoded is read back.
  \<^item> \<open>Control_Store\<close>, \<open>Event_Log\<close>: the tables with every constraint of the schema, their reads and writes,
    and \<^verbatim>\<open>_write_event\<close>; locale \<open>append_log\<close>, interpreted on \<open>write_event\<close>.
  \<^item> \<open>Operation_Control\<close>, \<open>Finalize_Control\<close>: the methods \<^verbatim>\<open>apply\<close> delegates to.
  \<^item> \<open>Write_Gate\<close>, \<open>Gate_Safety\<close>: the write gate and its lifecycle, as operations and as a step relation.
  \<^item> \<open>State_Controller\<close>: one definition per branch of \<^verbatim>\<open>apply\<close>, \<open>dispatch\<close> over them, the commit,
    \<open>apply_command\<close>, \<open>create_run\<close>, \<open>create_state\<close>, \<open>reserve_idempotency\<close>.
  \<^item> \<open>Controller_Frame\<close>, \<open>Controller_Apply\<close>: what a command changes and what it leaves alone; replay, lost
    updates, fencing, terminal states.
  \<^item> \<open>Ledger_Invariant\<close>, \<open>Ledger_Safety\<close>: the operation ledger agrees with its attempts and one side effect
    is in flight per run.
  \<^item> \<open>Controller_Runs\<close>: histories of any gateways as a step relation and what holds in every reachable
    database. \<open>Approval_Safety\<close>: decided approvals stay decided in every history. \<open>Control_Laws\<close>: laws of the
    single components.
  \<^item> \<open>Event_Envelope\<close>, \<open>Outbox\<close>: \<^verbatim>\<open>GatewayEventEnvelope\<close> and its validators, the JSONL sink and the event bus
    of \<^verbatim>\<open>src/gateway/events.py\<close>, and the dispatcher of \<^verbatim>\<open>src/gateway/outbox.py\<close>: claim, deliver, settle,
    reconcile. \<open>Event_Steps\<close>: what every controller operation does to the event log. \<open>Delivery_Safety\<close>,
    \<open>Delivery_File\<close>: the home and a dispatcher with any number of crashes as one step relation; the order of
    deliveries and the contents of the JSONL file in every reachable system.
  \<^item> \<open>Byte_Text\<close>, \<open>Event_Archive\<close>, \<open>Archive_Service\<close>: UTF-8 and lines of files; \<^verbatim>\<open>EventStore\<close>, the consumer cursors
    and \<^verbatim>\<open>GatewayEventArchiveService\<close> of \<^verbatim>\<open>src/gateway/event_store.py\<close>. \<open>Archive_Safety\<close>, \<open>Archive_History\<close>: the home
    with its archive files as a step relation with crashes at every point, its invariant, and that every step
    keeps it and every readable record. \<open>Archive_Laws\<close>, \<open>Archive_Runs\<close>: what this gives for a reader, for a
    preparing archive, for \<^verbatim>\<open>recover_preparing\<close> and for \<^verbatim>\<open>process_eligible\<close>. \<open>Stream_Readers\<close>: \<^verbatim>\<open>rebuild_jsonl\<close> and
    the cursors.
  \<^item> \<open>Attempt_Lifecycle\<close>, \<open>Operation_Identity\<close>: along every history attempts only advance and operations keep
    their identity. \<open>Durable_Tools\<close>, \<open>Tool_Safety\<close>, \<open>Tool_Outcomes\<close>: \<^verbatim>\<open>DurableToolCoordinator\<close> of
    \<^verbatim>\<open>src/gateway/durable_execution.py\<close> in a world of other gateways and tasks, its traces against the ledger, and
    what an execution leaves behind, by weakest preconditions (\<open>post\<close>); the retry loop takes fuel, and
    \<open>execution_returns\<close> shows that the attempts of the policy are enough. \<open>Tool_Registry\<close>: \<^verbatim>\<open>src/tool/registry.py\<close>.
  \<^item> \<open>Runtime_Generations\<close>, \<open>Runtime_Safety\<close>, \<open>Runtime_Histories\<close>: the generations of runtime resources in
    \<^verbatim>\<open>StateController\<close>, as scripts of statements that each commit alone and may stop after any of them; their
    histories together with the control plane.
  \<^item> \<open>Cron_Schedule\<close>, \<open>Cron_Store\<close>, \<open>Cron_Service\<close>: \<^verbatim>\<open>src/cron\<close>, from the schedules over the repository to the
    tick. \<open>Cron_Safety\<close>, \<open>Cron_Histories\<close>: compare-and-swap writes of methods that read earlier databases of the
    history, and the invariant they keep. \<open>Cron_Laws\<close>, \<open>Cron_Liveness\<close>: what holds in every history, the
    accounting of missed periods (the code's own bound of 100000 is the fuel), and that a tick leaves no due job waiting.
  \<^item> \<open>Sample\<close>, \<open>Witnesses\<close>, \<open>Law_Witnesses\<close>, \<open>Evidence_Sample\<close>, \<open>Terminal_Witness\<close>, \<open>Delivery_Witness\<close>,
    \<open>Archive_Witness\<close>, \<open>Tool_Witness\<close>, \<open>Runtime_Witness\<close>, \<open>Cron_Witness\<close>: a concrete gateway on which the hypotheses of the properties hold.

  \<^bold>\<open>Conventions.\<close> A database is a record of row lists; a row keeps the columns and the JSON document it stores,
  because the upserts rewrite the document and only some columns. An exception is \<open>Inl\<close> and leaves no
  database, as a rolled-back transaction does. Instants are rationals, so ordering and adding a delay are exact;
  the two clock readings and the two random identifiers of a call are the record \<open>call\<close>. Text is a list of
  characters below 256. SHA-256, \<^verbatim>\<open>json.loads\<close> and the ISO form of an instant are fields of \<open>env\<close>, the JSON form of
  a command is \<open>ct_dump_json\<close>: no theorem assumes that hashes do not collide, and theorems that need the parser
  assume that it is \<open>json_parse\<close>, the parser of \<open>Json_Text\<close>. \<open>H\<close> is SHA-256 on bytes. A line of a JSONL file and a
  finished archive file appear whole, as the write with \<^verbatim>\<open>fsync\<close> and \<^verbatim>\<open>os.replace\<close> make them. The dispatcher steps keep
  \<open>dicts_ok\<close>: a Python dict has no duplicate key, so only such payloads are printed. Every recursion is structural or has a termination proof.

  \<^bold>\<open>Not modelled.\<close> Surrogate keys drawn from \<^verbatim>\<open>uuid4\<close> and never read, schema migrations, the other record
  families of the controller (tool observations, extension grants, Harness Dream, LaTeX, retention), timed waits and the cron timers of the background tasks, the HTTP application, agent runtime, sandbox, memory and user interfaces:
  they call the control plane, or do I/O, and are listed in the manifest.
\<close>

end
